(* ===== verification/Prelude.thy ===== *)
theory Prelude
  imports Main "HOL-Library.Word"
begin

text \<open>
  Shared vocabulary of the development: instants and durations of package \<open>time\<close>, Go results
  as sums, 64-bit wrap-around and truncating division, the named collections of facts the
  component theories extend, and the generic lemmas on lists the components share.
\<close>

section \<open>Named collections\<close>

named_theorems guard_defs "definitions of the validation guards of the handlers"
named_theorems op_defs "definitions of the state-changing operations"
named_theorems inv_intros "introduction rules for the component invariants"

section \<open>Time\<close>

text \<open>
  An instant is the number of nanoseconds since Go's zero time (January 1, year 1, UTC), so
  \<open>time.Time{}\<close> is 0 and \<open>IsZero\<close> is a comparison with 0; \<open>After\<close>, \<open>Before\<close>
  and \<open>Equal\<close> are the order of the integers, \<open>Add\<close> and \<open>Sub\<close> are addition and
  subtraction. A conversion to UTC keeps the instant. Durations are nanoseconds.
\<close>

type_synonym instant = int
type_synonym duration = int

definition is_zero :: "instant \<Rightarrow> bool" where
  "is_zero t \<longleftrightarrow> t = 0"

definition after :: "instant \<Rightarrow> instant \<Rightarrow> bool" where
  "after t u \<longleftrightarrow> u < t"

definition before :: "instant \<Rightarrow> instant \<Rightarrow> bool" where
  "before t u \<longleftrightarrow> t < u"

lemmas time_defs [simp] = is_zero_def after_def before_def

definition millisecond :: duration where "millisecond = 1000000"
definition second :: duration where "second = 1000 * millisecond"
definition minute :: duration where "minute = 60 * second"

lemmas duration_defs = millisecond_def second_def minute_def

lemma durations_pos [simp]: "0 < millisecond" "0 < second" "0 < minute"
  by (simp_all add: duration_defs)

lemma durations_nonzero [simp]: "millisecond \<noteq> 0" "second \<noteq> 0" "minute \<noteq> 0"
  by (simp_all add: duration_defs)

section \<open>Machine integers\<close>

type_synonym u16 = "16 word"
type_synonym u32 = "32 word"
type_synonym u64 = "64 word"

text \<open>Two's complement wrap-around of an \<open>int64\<close> result, and Go's truncating division.\<close>

definition wrap64 :: "int \<Rightarrow> int" where
  "wrap64 x = (x + 2 ^ 63) mod 2 ^ 64 - 2 ^ 63"

definition go_div :: "int \<Rightarrow> int \<Rightarrow> int" where
  "go_div a b = sgn a * sgn b * (\<bar>a\<bar> div \<bar>b\<bar>)"

lemma wrap64_id [simp]: "- (2 ^ 63) \<le> x \<Longrightarrow> x < 2 ^ 63 \<Longrightarrow> wrap64 x = x"
  by (simp add: wrap64_def)

lemma wrap64_range: "- (2 ^ 63) \<le> wrap64 x \<and> wrap64 x < 2 ^ 63"
  by (simp add: wrap64_def)

lemma go_div_nonneg: "0 \<le> a \<Longrightarrow> 0 < b \<Longrightarrow> go_div a b = a div b"
  by (cases "a = 0") (simp_all add: go_div_def)

section \<open>Results\<close>

text \<open>
  A Go pair \<open>(value, error)\<close> is a sum: \<open>Inl\<close> the error, \<open>Inr\<close> the value. \<open>check\<close>
  is the early return \<open>if cond { return err }\<close>.
\<close>

type_synonym ('e, 'a) result = "'e + 'a"

definition check :: "bool \<Rightarrow> 'e \<Rightarrow> ('e, unit) result" where
  "check ok e = (if ok then Inr () else Inl e)"

definition and_then :: "('e, 'a) result \<Rightarrow> ('a \<Rightarrow> ('e, 'b) result) \<Rightarrow> ('e, 'b) result" where
  "and_then r k = (case r of Inl e \<Rightarrow> Inl e | Inr a \<Rightarrow> k a)"

lemma check_simps [simp]:
  "check ok e = Inr u \<longleftrightarrow> ok"
  "check ok e = Inl e' \<longleftrightarrow> \<not> ok \<and> e' = e"
  by (auto simp: check_def)

lemma and_then_simps [simp]:
  "and_then (Inl e) k = Inl e"
  "and_then (Inr a) k = k a"
  by (simp_all add: and_then_def)

lemma and_then_Inr: "and_then r k = Inr b \<longleftrightarrow> (\<exists>a. r = Inr a \<and> k a = Inr b)"
  by (cases r) simp_all

definition is_ok :: "('e, 'a) result \<Rightarrow> bool" where
  "is_ok r = (case r of Inl _ \<Rightarrow> False | Inr _ \<Rightarrow> True)"

lemma is_ok_simps [simp]: "is_ok (Inr a)" "\<not> is_ok (Inl e)"
  by (simp_all add: is_ok_def)

section \<open>Lists\<close>

fun strictly_increasing :: "('a \<Rightarrow> 'b::order) \<Rightarrow> 'a list \<Rightarrow> bool" where
  "strictly_increasing f (x # y # zs) = (f x < f y \<and> strictly_increasing f (y # zs))"
| "strictly_increasing f _ = True"

lemma strictly_increasing_Cons:
  "strictly_increasing f (x # xs) \<longleftrightarrow> strictly_increasing f xs \<and> (\<forall>y \<in> set xs. f x < f y)"
proof (induction xs arbitrary: x)
  case Nil
  then show ?case by simp
next
  case (Cons y ys)
  then show ?case by (auto intro: order.strict_trans)
qed

lemma strictly_increasing_distinct: "strictly_increasing f xs \<Longrightarrow> distinct (map f xs)"
  by (induction xs) (auto simp: strictly_increasing_Cons)

lemma sorted_strict_if_distinct:
  fixes f :: "'a \<Rightarrow> 'b::linorder"
  assumes "sorted (map f xs)" and "distinct (map f xs)"
  shows "strictly_increasing f xs"
  using assms
  by (induction xs) (auto simp: strictly_increasing_Cons order.strict_iff_order)

lemma filter_length_le_1:
  assumes "distinct (map key xs)" and "\<And>x. x \<in> set xs \<Longrightarrow> P x \<Longrightarrow> key x = k"
  shows "length (filter P xs) \<le> 1"
proof -
  have "distinct (map key (filter P xs))"
    using assms(1) by (simp add: distinct_map_filter)
  moreover have "set (map key (filter P xs)) \<subseteq> {k}"
    using assms(2) by auto
  ultimately have "card (set (map key (filter P xs))) \<le> 1"
    using card_mono[of "{k}" "set (map key (filter P xs))"] by simp
  then show ?thesis
    using \<open>distinct (map key (filter P xs))\<close> by (metis distinct_card length_map)
qed

lemma find_filter: "find P xs = (case filter P xs of [] \<Rightarrow> None | y # _ \<Rightarrow> Some y)"
  by (induction xs) auto

end
