(* ===== verification/Go_Error.thy ===== *)
theory Go_Error
  imports Prelude
begin

text \<open>
  Errors as values. The sentinel errors of each package are one datatype per package, joined in
  \<open>sentinel\<close>; an error value is a tree as \<open>fmt.Errorf\<close> with \<open>%w\<close>,
  \<open>errors.Join\<close> and the wrapper types build it. \<open>err_is\<close> and the \<open>err_as\<close>
  functions are \<open>errors.Is\<close> and \<open>errors.As\<close>. Message texts are not modelled.
\<close>

section \<open>Sentinel errors, one type per package\<close>

datatype context_error = Ctx_Canceled | Ctx_DeadlineExceeded

datatype contracts_error =
    Contracts_MissingAppID | Contracts_MissingEchoID | Contracts_MissingRequestID
  | Contracts_DeadlineExceeded

datatype idempotency_error =
    Idem_InvalidRequest | Idem_KeyConflict | Idem_OutcomeUnknown | Idem_PreviousFailure
  | Idem_LeaseLost | Idem_ResultTooLarge | Idem_RecordNotFound

datatype task_error =
    Task_Invalid | Task_InvalidTransition | Task_NotFound | Task_Exists | Task_TypeUnknown
  | Task_TypeUnavailable | Task_InvalidParams | Task_InvalidTypeSpec | Task_DuplicateType
  | Task_LeaseLost

datatype confirmation_error =
    Conf_InvalidRequest | Conf_NotFound | Conf_NotApproved | Conf_Expired | Conf_Revoked
  | Conf_AlreadyDecided | Conf_ScopeMismatch | Conf_Duplicate | Conf_InvalidTransition

datatype echo_error =
    Echo_NotFound | Run_NotFound | Run_QueueFull | Run_RetryScheduled | Echo_InvalidTransition
  | Echo_InvalidRecord | Run_InvalidRecord | Echo_InvalidEvent | Echo_InvalidAudit
  | Run_ChildLimit

datatype orchestrator_error =
    Orch_EmptyMessage | Orch_ExecutorRunFailed | Orch_NoFinalResult | Orch_OutputBudgetExceeded
  | Orch_CapabilityBudgetExceeded | Orch_RunInputMismatch | Orch_RunConfigUnavailable
  | Orch_MessageTooLong | Orch_AppConfigUnavailable | Orch_AppDisabled

datatype dispatcher_error =
    Disp_CapabilityDisabled | Disp_CallDepthExceeded | Disp_CycleDetected
  | Disp_IdempotencyKeyRequired | Disp_IdempotencyUnavailable | Disp_ConfirmationRequired
  | Disp_AppPolicyUnavailable

text \<open>\<open>runtime.ErrAuthorizationDenied\<close> is \<open>authorization.ErrDenied\<close>.\<close>

datatype authorization_error =
    Auth_Denied | Auth_InvalidResource | Auth_PrincipalRequired | Auth_RelationshipUnavailable

datatype registry_error =
    Reg_DuplicateID | Reg_InvalidSpec | Reg_CapabilityNotFound | Reg_SchemaValidation

datatype appconfig_error = Config_NotFound | Config_Conflict | Config_Invalid

datatype loader_error =
    Loader_InvalidManifest | Loader_DuplicateID | Loader_NotFound | Loader_UnsupportedMode
  | Loader_LoadFailed | Loader_Unavailable | Loader_InFlight | Loader_ShuttingDown
  | Loader_DescribeMismatch | Loader_RuntimeBusy | Loader_InvalidInstalledRecord

text \<open>\<open>loader.ErrRuntimeProtocol\<close> and \<open>processhost.ErrProcessCleanup\<close>.\<close>

datatype host_error = Host_RuntimeProtocol | Host_ProcessCleanup

datatype childrun_error = Child_InvalidRequest | Child_NotRoot | Child_GrantDenied

datatype protocol_error =
    Proto_VersionMismatch | Proto_InvalidFrame | Proto_Sequence | Proto_FrameTooLarge
  | Proto_UnexpectedFrame | Proto_DuplicateCall

datatype sentinel =
    Context_E context_error
  | Contracts_E contracts_error
  | Idempotency_E idempotency_error
  | Task_E task_error
  | Confirmation_E confirmation_error
  | Echo_E echo_error
  | Orchestrator_E orchestrator_error
  | Dispatcher_E dispatcher_error
  | Authorization_E authorization_error
  | Registry_E registry_error
  | Appconfig_E appconfig_error
  | Loader_E loader_error
  | Host_E host_error
  | Childrun_E childrun_error
  | Protocol_E protocol_error

section \<open>Error trees\<close>

text \<open>
  \<open>Wrapped\<close> is \<open>fmt.Errorf("...: %w", e)\<close>, \<open>Joined\<close> is \<open>errors.Join\<close> of
  non-nil errors, \<open>Retryable_Error\<close> the wrapper type of \<open>task.Retryable\<close>,
  \<open>Invocation_Error\<close> the value type \<open>loader.InvocationError\<close>, \<open>Coded_Error\<close> a driver
  error with a \<open>Code()\<close> method, and \<open>Opaque_Error\<close> any other leaf.
\<close>

datatype go_error =
    Sentinel sentinel
  | Wrapped go_error
  | Joined "go_error list"
  | Retryable_Error go_error
  | Invocation_Error string bool
  | Coded_Error nat
  | Json_Syntax_Error
  | Json_Type_Error
  | Opaque_Error string

type_synonym 'a go_result = "(go_error, 'a) result"

fun err_is :: "go_error \<Rightarrow> sentinel \<Rightarrow> bool" where
  "err_is (Sentinel s) t = (s = t)"
| "err_is (Wrapped e) t = err_is e t"
| "err_is (Retryable_Error e) t = err_is e t"
| "err_is (Joined es) t = list_ex (\<lambda>e. err_is e t) es"
| "err_is _ t = False"

fun err_as_retryable :: "go_error \<Rightarrow> bool" where
  "err_as_retryable (Retryable_Error e) = True"
| "err_as_retryable (Wrapped e) = err_as_retryable e"
| "err_as_retryable (Joined es) = list_ex err_as_retryable es"
| "err_as_retryable _ = False"

text \<open>The first match in the depth-first order of \<open>errors.As\<close>.\<close>

fun first_some :: "'a option list \<Rightarrow> 'a option" where
  "first_some [] = None"
| "first_some (Some x # _) = Some x"
| "first_some (None # xs) = first_some xs"

fun err_as_invocation :: "go_error \<Rightarrow> (string \<times> bool) option" where
  "err_as_invocation (Invocation_Error c r) = Some (c, r)"
| "err_as_invocation (Wrapped e) = err_as_invocation e"
| "err_as_invocation (Retryable_Error e) = err_as_invocation e"
| "err_as_invocation (Joined es) = first_some (map err_as_invocation es)"
| "err_as_invocation _ = None"

fun err_as_code :: "go_error \<Rightarrow> nat option" where
  "err_as_code (Coded_Error c) = Some c"
| "err_as_code (Wrapped e) = err_as_code e"
| "err_as_code (Retryable_Error e) = err_as_code e"
| "err_as_code (Joined es) = first_some (map err_as_code es)"
| "err_as_code _ = None"

fun err_as_json :: "go_error \<Rightarrow> bool" where
  "err_as_json Json_Syntax_Error = True"
| "err_as_json Json_Type_Error = True"
| "err_as_json (Wrapped e) = err_as_json e"
| "err_as_json (Retryable_Error e) = err_as_json e"
| "err_as_json (Joined es) = list_ex err_as_json es"
| "err_as_json _ = False"

text \<open>\<open>errors.Join\<close> of two errors, of which nil values are dropped.\<close>

fun join_errors :: "go_error option \<Rightarrow> go_error option \<Rightarrow> go_error option" where
  "join_errors None None = None"
| "join_errors (Some e) None = Some (Joined [e])"
| "join_errors None (Some f) = Some (Joined [f])"
| "join_errors (Some e) (Some f) = Some (Joined [e, f])"

definition opt_is :: "go_error option \<Rightarrow> sentinel \<Rightarrow> bool" where
  "opt_is e t = (case e of None \<Rightarrow> False | Some x \<Rightarrow> err_is x t)"

lemma opt_is_simps [simp]:
  "opt_is None t = False"
  "opt_is (Some x) t = err_is x t"
  by (simp_all add: opt_is_def)

lemma opt_is_join [simp]: "opt_is (join_errors e f) t \<longleftrightarrow> opt_is e t \<or> opt_is f t"
  by (cases e; cases f) simp_all

lemma join_errors_None [simp]: "join_errors e f = None \<longleftrightarrow> e = None \<and> f = None"
  by (cases e; cases f) simp_all

section \<open>Abbreviations for the errors the handlers return\<close>

abbreviation idem_fail :: "idempotency_error \<Rightarrow> go_error + 'a" where
  "idem_fail e \<equiv> Inl (Sentinel (Idempotency_E e))"

abbreviation task_fail :: "task_error \<Rightarrow> go_error + 'a" where
  "task_fail e \<equiv> Inl (Sentinel (Task_E e))"

abbreviation conf_fail :: "confirmation_error \<Rightarrow> go_error + 'a" where
  "conf_fail e \<equiv> Inl (Sentinel (Confirmation_E e))"

abbreviation echo_fail :: "echo_error \<Rightarrow> go_error + 'a" where
  "echo_fail e \<equiv> Inl (Sentinel (Echo_E e))"

abbreviation orch_fail :: "orchestrator_error \<Rightarrow> go_error + 'a" where
  "orch_fail e \<equiv> Inl (Sentinel (Orchestrator_E e))"

abbreviation disp_fail :: "dispatcher_error \<Rightarrow> go_error + 'a" where
  "disp_fail e \<equiv> Inl (Sentinel (Dispatcher_E e))"

abbreviation auth_fail :: "authorization_error \<Rightarrow> go_error + 'a" where
  "auth_fail e \<equiv> Inl (Sentinel (Authorization_E e))"

text \<open>The driver error of a violated SQLite constraint, primary code 19.\<close>

definition constraint_error :: go_error where
  "constraint_error = Wrapped (Coded_Error 19)"

text \<open>\<open>isUniqueConstraint\<close>: the low byte of the driver's code is 19.\<close>

definition isUniqueConstraint :: "go_error \<Rightarrow> bool" where
  "isUniqueConstraint e = (case err_as_code e of None \<Rightarrow> False | Some c \<Rightarrow> c mod 256 = 19)"

lemma isUniqueConstraint_constraint [simp]: "isUniqueConstraint constraint_error"
  by (simp add: isUniqueConstraint_def constraint_error_def)

end
