(* ===== verification/Public_Error.thy ===== *)
theory Public_Error
  imports Go_Error
begin

text \<open>
  \<open>internal/kernel/publicerror/publicerror.go\<close>: the mapping of internal errors and of stored error
  codes to the public errors a client may see. A message text is named by the key of the branch
  that holds it; no text of an internal error enters a message.
\<close>

section \<open>Public errors\<close>

datatype message = No_Message | Capability_Message string | Executor_Message string | Echo_Message string

record public_error =
  pe_code :: string
  pe_message :: message
  pe_retryable :: bool

definition cap_entry :: "string \<Rightarrow> bool \<Rightarrow> string \<times> public_error" where
  "cap_entry c retryable = (c, \<lparr>pe_code = c, pe_message = Capability_Message c, pe_retryable = retryable\<rparr>)"

definition capabilityCodeTable :: "(string \<times> public_error) list" where
  "capabilityCodeTable =
     [cap_entry ''cancelled'' False,
      cap_entry ''deadline_exceeded'' True,
      cap_entry ''invalid_request_context'' False,
      cap_entry ''data_unavailable'' True,
      cap_entry ''data_incomplete'' False,
      cap_entry ''data_non_authoritative'' False,
      cap_entry ''data_expired'' True,
      cap_entry ''invalid_arguments'' False,
      cap_entry ''capability_disabled'' False,
      cap_entry ''app_policy_unavailable'' True,
      cap_entry ''call_depth_exceeded'' False,
      cap_entry ''cycle_detected'' False,
      cap_entry ''permission_denied'' False,
      cap_entry ''idempotency_key_required'' False,
      cap_entry ''idempotency_unavailable'' True,
      cap_entry ''invalid_idempotency_key'' False,
      cap_entry ''idempotency_conflict'' False,
      cap_entry ''idempotency_outcome_unknown'' False,
      cap_entry ''idempotency_previous_failure'' False,
      cap_entry ''confirmation_required'' False,
      cap_entry ''runtime_unavailable'' True,
      cap_entry ''runtime_protocol_error'' False,
      cap_entry ''capability_unavailable'' False]"

definition capability_failed :: public_error where
  "capability_failed =
     \<lparr>pe_code = ''capability_failed'', pe_message = Capability_Message ''capability_failed'', pe_retryable = False\<rparr>"

definition no_error :: public_error where
  "no_error = \<lparr>pe_code = [], pe_message = No_Message, pe_retryable = False\<rparr>"

text \<open>A missing key of the Go map reads as the zero error.\<close>

definition cap_lookup :: "string \<Rightarrow> public_error" where
  "cap_lookup c = (case map_of capabilityCodeTable c of None \<Rightarrow> no_error | Some e \<Rightarrow> e)"

definition NormalizeCapability :: "public_error \<Rightarrow> public_error" where
  "NormalizeCapability v =
     (case map_of capabilityCodeTable (pe_code v) of None \<Rightarrow> capability_failed | Some e \<Rightarrow> e)"

section \<open>Errors of a capability call\<close>

definition is_any :: "go_error \<Rightarrow> sentinel list \<Rightarrow> bool" where
  "is_any e ss = list_ex (err_is e) ss"

definition PublicCapability :: "go_error option \<Rightarrow> public_error" where
  "PublicCapability err =
     (case err of
        None \<Rightarrow> no_error
      | Some e \<Rightarrow>
      if err_is e (Context_E Ctx_Canceled) then cap_lookup ''cancelled''
      else if is_any e [Context_E Ctx_DeadlineExceeded, Contracts_E Contracts_DeadlineExceeded]
        then cap_lookup ''deadline_exceeded''
      else if is_any e [Contracts_E Contracts_MissingAppID, Contracts_E Contracts_MissingEchoID,
                        Contracts_E Contracts_MissingRequestID] then cap_lookup ''invalid_request_context''
      else if err_is e (Dispatcher_E Disp_CapabilityDisabled) then cap_lookup ''capability_disabled''
      else if err_is e (Dispatcher_E Disp_AppPolicyUnavailable) then cap_lookup ''app_policy_unavailable''
      else if err_is e (Dispatcher_E Disp_CallDepthExceeded) then cap_lookup ''call_depth_exceeded''
      else if err_is e (Dispatcher_E Disp_CycleDetected) then cap_lookup ''cycle_detected''
      else if err_is e (Registry_E Reg_SchemaValidation) then cap_lookup ''invalid_arguments''
      else if err_is e (Authorization_E Auth_Denied) then cap_lookup ''permission_denied''
      else if err_is e (Dispatcher_E Disp_IdempotencyKeyRequired) then cap_lookup ''idempotency_key_required''
      else if err_is e (Dispatcher_E Disp_IdempotencyUnavailable) then cap_lookup ''idempotency_unavailable''
      else if err_is e (Idempotency_E Idem_InvalidRequest) then cap_lookup ''invalid_idempotency_key''
      else if err_is e (Idempotency_E Idem_KeyConflict) then cap_lookup ''idempotency_conflict''
      else if is_any e [Idempotency_E Idem_OutcomeUnknown, Idempotency_E Idem_LeaseLost]
        then cap_lookup ''idempotency_outcome_unknown''
      else if err_is e (Idempotency_E Idem_PreviousFailure) then cap_lookup ''idempotency_previous_failure''
      else if err_is e (Dispatcher_E Disp_ConfirmationRequired) then cap_lookup ''confirmation_required''
      else (case err_as_invocation e of
              Some (c, r) \<Rightarrow> NormalizeCapability \<lparr>pe_code = c, pe_message = No_Message, pe_retryable = r\<rparr>
            | None \<Rightarrow>
      if err_is e (Host_E Host_RuntimeProtocol) then cap_lookup ''runtime_protocol_error''
      else if is_any e [Loader_E Loader_LoadFailed, Loader_E Loader_Unavailable, Loader_E Loader_ShuttingDown,
                        Loader_E Loader_NotFound, Loader_E Loader_UnsupportedMode, Loader_E Loader_RuntimeBusy,
                        Host_E Host_ProcessCleanup] then cap_lookup ''runtime_unavailable''
      else if err_is e (Registry_E Reg_CapabilityNotFound) then cap_lookup ''capability_unavailable''
      else if err_as_json e then cap_lookup ''invalid_arguments''
      else capability_failed))"

section \<open>Errors of an executor and of an Echo\<close>

definition exec_error :: "string \<Rightarrow> string \<Rightarrow> bool \<Rightarrow> public_error" where
  "exec_error c key retryable = \<lparr>pe_code = c, pe_message = Executor_Message key, pe_retryable = retryable\<rparr>"

definition PublicExecutor :: "string \<Rightarrow> bool \<Rightarrow> public_error" where
  "PublicExecutor c retryable =
     (if c = ''invalid_request'' then exec_error ''protocol_violation'' ''invalid_request'' False
      else if c = ''cancelled'' then exec_error ''cancelled'' ''cancelled'' False
      else if c = ''deadline_exceeded'' then exec_error ''deadline_exceeded'' ''deadline_exceeded'' retryable
      else if c = ''execution_timeout'' then exec_error ''execution_timeout'' ''execution_timeout'' retryable
      else if c = ''execution_rate_limited''
        then exec_error ''execution_rate_limited'' ''execution_rate_limited'' retryable
      else if c = ''execution_unavailable''
        then exec_error ''executor_unavailable'' ''execution_unavailable'' retryable
      else if c = ''execution_rejected'' then exec_error ''execution_rejected'' ''execution_rejected'' False
      else if c = ''execution_failed'' then exec_error ''execution_failed'' ''execution_failed'' False
      else if c = ''execution_protocol_error''
        then exec_error ''execution_protocol_error'' ''execution_protocol_error'' False
      else if c = ''budget_exceeded'' then exec_error ''budget_exceeded'' ''budget_exceeded'' False
      else if c = ''protocol_violation'' then exec_error ''protocol_violation'' ''protocol_violation'' False
      else if c = ''protocol_version_mismatch''
        then exec_error ''protocol_version_mismatch'' ''protocol_version_mismatch'' False
      else exec_error ''executor_failed'' ''executor_failed'' retryable)"

definition echo_error_entry :: "string \<Rightarrow> bool \<Rightarrow> public_error" where
  "echo_error_entry c retryable = \<lparr>pe_code = c, pe_message = Echo_Message c, pe_retryable = retryable\<rparr>"

definition PublicEcho :: "string \<Rightarrow> public_error" where
  "PublicEcho c =
     (if c \<in> set [''deadline_exceeded'', ''execution_timeout'', ''execution_rate_limited'', ''lease_lost'',
                  ''app_policy_unavailable'', ''context_unavailable''] then echo_error_entry c True
      else if c \<in> set [''execution_unavailable'', ''executor_unavailable'', ''executor_start_failed'',
                       ''executor_stream_failed''] then echo_error_entry ''executor_unavailable'' True
      else if c \<in> set [''cancelled'', ''execution_rejected'', ''execution_failed'', ''execution_protocol_error'',
                       ''budget_exceeded'', ''protocol_violation'', ''protocol_version_mismatch'',
                       ''executor_failed'', ''recovery_failed'', ''app_disabled'',
                       ''context_budget_exceeded''] then echo_error_entry c False
      else if c = ''event_delivery_failed'' then echo_error_entry ''event_persistence_failed'' True
      else echo_error_entry ''internal_error'' False)"

section \<open>The closed set of public codes\<close>

definition capability_codes :: "string list" where
  "capability_codes = ''capability_failed'' # map fst capabilityCodeTable"

definition executor_codes :: "string list" where
  "executor_codes =
     [''protocol_violation'', ''cancelled'', ''deadline_exceeded'', ''execution_timeout'',
      ''execution_rate_limited'', ''executor_unavailable'', ''execution_rejected'', ''execution_failed'',
      ''execution_protocol_error'', ''budget_exceeded'', ''protocol_version_mismatch'', ''executor_failed'']"

definition echo_codes :: "string list" where
  "echo_codes =
     [''cancelled'', ''deadline_exceeded'', ''execution_timeout'', ''execution_rate_limited'',
      ''executor_unavailable'', ''execution_rejected'', ''execution_failed'', ''execution_protocol_error'',
      ''budget_exceeded'', ''lease_lost'', ''protocol_violation'', ''protocol_version_mismatch'',
      ''executor_failed'', ''recovery_failed'', ''app_policy_unavailable'', ''app_disabled'',
      ''context_unavailable'', ''context_budget_exceeded'', ''event_persistence_failed'', ''internal_error'']"

lemma table_entry:
  "(c, e) \<in> set capabilityCodeTable \<Longrightarrow> pe_code e = c \<and> pe_message e = Capability_Message c"
  unfolding capabilityCodeTable_def cap_entry_def by auto

lemma table_lookup:
  "map_of capabilityCodeTable c = Some e \<Longrightarrow> pe_code e = c \<and> pe_message e = Capability_Message c"
  by (auto dest!: map_of_SomeD dest: table_entry)

lemma table_codes: "map_of capabilityCodeTable c = Some e \<Longrightarrow> c \<in> set (map fst capabilityCodeTable)"
  by (auto dest!: map_of_SomeD simp: rev_image_eqI)

lemma normalize_cases:
  "NormalizeCapability v = capability_failed \<or>
   (\<exists>e. map_of capabilityCodeTable (pe_code v) = Some e \<and> NormalizeCapability v = e \<and> pe_code e = pe_code v)"
  by (auto simp: NormalizeCapability_def split: option.split dest: table_lookup)

text \<open>A code of the table, looked up.\<close>

definition known_code :: "string \<Rightarrow> bool" where
  "known_code c \<longleftrightarrow> map_of capabilityCodeTable c \<noteq> None"

lemma known_lookup: "known_code c \<Longrightarrow> map_of capabilityCodeTable c = Some (cap_lookup c)"
  by (auto simp: known_code_def cap_lookup_def)

lemma known_codes [simp]:
  "known_code ''cancelled''" "known_code ''deadline_exceeded''" "known_code ''invalid_request_context''"
  "known_code ''capability_disabled''" "known_code ''app_policy_unavailable''"
  "known_code ''call_depth_exceeded''" "known_code ''cycle_detected''" "known_code ''invalid_arguments''"
  "known_code ''permission_denied''" "known_code ''idempotency_key_required''"
  "known_code ''idempotency_unavailable''" "known_code ''invalid_idempotency_key''"
  "known_code ''idempotency_conflict''" "known_code ''idempotency_outcome_unknown''"
  "known_code ''idempotency_previous_failure''" "known_code ''confirmation_required''"
  "known_code ''runtime_protocol_error''" "known_code ''runtime_unavailable''"
  "known_code ''capability_unavailable''"
  by (simp_all add: known_code_def capabilityCodeTable_def cap_entry_def)

text \<open>Whatever the internal error, what comes out is an entry of the table or the catch-all.\<close>

definition closed_error :: "public_error \<Rightarrow> bool" where
  "closed_error e \<longleftrightarrow> e = capability_failed \<or> map_of capabilityCodeTable (pe_code e) = Some e"

lemma closed_lookup: "known_code c \<Longrightarrow> closed_error (cap_lookup c)"
  using known_lookup[of c] table_lookup[OF known_lookup, of c] by (simp add: closed_error_def)

lemma closed_normalize: "closed_error (NormalizeCapability v)"
  using normalize_cases[of v] by (auto simp: closed_error_def)

lemma closed_failed: "closed_error capability_failed"
  by (simp add: closed_error_def)

lemma closed_error_codes: "closed_error e \<Longrightarrow> pe_code e \<in> set capability_codes"
  by (auto simp: closed_error_def capability_codes_def capability_failed_def dest: table_codes)

text \<open>The public error of any internal error of a capability call, of whatever shape, is an entry of
  the code table or the catch-all, so its code, message and retry flag come from a closed set and
  carry nothing of the cause; normalising it again changes nothing.\<close>

theorem public_capability_closed:
  "closed_error (PublicCapability (Some e)) \<and>
   pe_code (PublicCapability (Some e)) \<in> set capability_codes \<and>
   NormalizeCapability (PublicCapability (Some e)) = PublicCapability (Some e)"
proof -
  have c: "closed_error (PublicCapability (Some e))"
    unfolding PublicCapability_def option.case
    by (simp add: closed_lookup closed_normalize closed_failed split: option.split)
  have "map_of capabilityCodeTable ''capability_failed'' = None"
    by (simp add: capabilityCodeTable_def cap_entry_def)
  then have "NormalizeCapability p = p" if "closed_error p" for p
    using that by (auto simp: closed_error_def NormalizeCapability_def capability_failed_def)
  with c closed_error_codes[OF c] show ?thesis by blast
qed

text \<open>An invocation error reported by a package host can choose among the published codes only, and
  never a message or a retry flag: these are the table's.\<close>

theorem invocation_error_untrusted:
  "PublicCapability (Some (Wrapped (Invocation_Error c retryable))) =
     (case map_of capabilityCodeTable c of None \<Rightarrow> capability_failed | Some e \<Rightarrow> e)"
  by (simp add: PublicCapability_def is_any_def NormalizeCapability_def)

text \<open>Every executor error and every stored Echo error code is published under a code of a closed
  set, and only errors whose cause is transient can be flagged as retryable: never a cancellation,
  a rejection, a protocol error or an exceeded budget.\<close>

theorem public_executor_echo_closed:
  "pe_code (PublicExecutor c r) \<in> set executor_codes \<and>
   pe_code (PublicEcho c) \<in> set echo_codes \<and>
   (pe_retryable (PublicExecutor c r) \<longrightarrow> r \<and> pe_code (PublicExecutor c r) \<in>
      {''deadline_exceeded'', ''execution_timeout'', ''execution_rate_limited'', ''executor_unavailable'',
       ''executor_failed''}) \<and>
   (pe_retryable (PublicEcho c) \<longrightarrow> pe_code (PublicEcho c) \<in>
      {''deadline_exceeded'', ''execution_timeout'', ''execution_rate_limited'', ''executor_unavailable'',
       ''lease_lost'', ''app_policy_unavailable'', ''context_unavailable'', ''event_persistence_failed''})"
proof (intro conjI)
  show "pe_code (PublicExecutor c r) \<in> set executor_codes"
    by (simp add: PublicExecutor_def exec_error_def executor_codes_def)
  show "pe_code (PublicEcho c) \<in> set echo_codes"
    by (auto simp: PublicEcho_def echo_error_entry_def echo_codes_def)
qed (auto simp: PublicExecutor_def exec_error_def PublicEcho_def echo_error_entry_def split: if_splits)

theorem public_executor_echo_closed_witness:
  "pe_retryable (PublicExecutor ''deadline_exceeded'' True) \<and> pe_retryable (PublicEcho ''deadline_exceeded'') \<and>
   pe_code (PublicExecutor ''deadline_exceeded'' True) \<in> set executor_codes \<and>
   pe_code (PublicEcho ''deadline_exceeded'') \<in> set echo_codes"
proof -
  have "pe_retryable (PublicExecutor ''deadline_exceeded'' True)" "pe_retryable (PublicEcho ''deadline_exceeded'')"
    by (simp_all add: PublicExecutor_def exec_error_def PublicEcho_def echo_error_entry_def)
  then show ?thesis
    using public_executor_echo_closed[of "''deadline_exceeded''" True] by blast
qed

end
