(* ===== verification/Ident.thy ===== *)
theory Ident
  imports Prelude
begin

text \<open>
  The identifier grammars of \<open>internal/kernel/id/id.go\<close>, the stable identifiers of
  \<open>contracts/pkg/capability/spec.go\<close>, the token patterns of
  \<open>contracts/pkg/executor/protocol.go\<close> and \<open>utf8.ValidString\<close>. Strings are byte lists,
  as in Go. Each regular expression is a recogniser; the lemmas relate it to its description by
  character sets and give the facts the callers use (non-emptiness, length bounds, absence of
  separators).
\<close>

section \<open>Character classes\<close>

definition code :: "char \<Rightarrow> nat" where
  "code c = of_char c"

definition is_lower :: "char \<Rightarrow> bool" where
  "is_lower c \<longleftrightarrow> 97 \<le> code c \<and> code c \<le> 122"

definition is_upper :: "char \<Rightarrow> bool" where
  "is_upper c \<longleftrightarrow> 65 \<le> code c \<and> code c \<le> 90"

definition is_digit :: "char \<Rightarrow> bool" where
  "is_digit c \<longleftrightarrow> 48 \<le> code c \<and> code c \<le> 57"

definition is_alnum :: "char \<Rightarrow> bool" where
  "is_alnum c \<longleftrightarrow> is_lower c \<or> is_upper c \<or> is_digit c"

definition is_lower_digit :: "char \<Rightarrow> bool" where
  "is_lower_digit c \<longleftrightarrow> is_lower c \<or> is_digit c"

definition is_hex_lower :: "char \<Rightarrow> bool" where
  "is_hex_lower c \<longleftrightarrow> is_digit c \<or> 97 \<le> code c \<and> code c \<le> 102"

lemmas char_class_defs =
  code_def is_lower_def is_upper_def is_digit_def is_alnum_def is_lower_digit_def is_hex_lower_def

section \<open>The patterns of package id\<close>

text \<open>\<open>StableMixed\<close> and \<open>StableMixedUncapped\<close>: an alphanumeric, then alphanumerics and \<open>._:-\<close>.\<close>

definition mixed_tail :: "char \<Rightarrow> bool" where
  "mixed_tail c \<longleftrightarrow> is_alnum c \<or> c \<in> set ''._:-''"

fun stable_mixed_uncapped :: "string \<Rightarrow> bool" where
  "stable_mixed_uncapped [] = False"
| "stable_mixed_uncapped (c # cs) = (is_alnum c \<and> list_all mixed_tail cs)"

definition stable_mixed :: "string \<Rightarrow> bool" where
  "stable_mixed s \<longleftrightarrow> stable_mixed_uncapped s \<and> length s \<le> 128"

text \<open>\<open>AppID\<close>: a lower-case letter or digit, then those and \<open>._-\<close>, at most 128 characters.\<close>

definition app_id_tail :: "char \<Rightarrow> bool" where
  "app_id_tail c \<longleftrightarrow> is_lower_digit c \<or> c \<in> set ''._-''"

fun app_id_pattern :: "string \<Rightarrow> bool" where
  "app_id_pattern [] = False"
| "app_id_pattern (c # cs) = (is_lower_digit c \<and> list_all app_id_tail cs \<and> length cs \<le> 127)"

text \<open>\<open>valid_stable_id\<close> is \<open>session.ValidStableID\<close>; its UTF-8 test is implied by the pattern.\<close>

section \<open>Stable identifiers of package capability\<close>

text \<open>
  The pattern is a lower-case letter, then lower-case alphanumerics, then groups of one separator
  and at least one lower-case alphanumeric. The recogniser carries whether the last character was a
  separator.
\<close>

definition id_separator :: "char \<Rightarrow> bool" where
  "id_separator c \<longleftrightarrow> c \<in> set ''._-''"

fun stable_id_rest :: "bool \<Rightarrow> string \<Rightarrow> bool" where
  "stable_id_rest after_sep [] = (\<not> after_sep)"
| "stable_id_rest after_sep (c # cs) =
     (if is_lower_digit c then stable_id_rest False cs
      else \<not> after_sep \<and> id_separator c \<and> stable_id_rest True cs)"

fun stable_id_pattern :: "string \<Rightarrow> bool" where
  "stable_id_pattern [] = False"
| "stable_id_pattern (c # cs) = (is_lower c \<and> stable_id_rest False cs)"

definition is_stable_id :: "string \<Rightarrow> bool" where
  "is_stable_id s \<longleftrightarrow> length s \<le> 128 \<and> stable_id_pattern s"

section \<open>UTF-8\<close>

text \<open>\<open>utf8.ValidString\<close> over bytes, with the accepted ranges of the first continuation byte.\<close>

definition cont :: "char \<Rightarrow> bool" where
  "cont c \<longleftrightarrow> 128 \<le> code c \<and> code c \<le> 191"

fun utf8_valid :: "string \<Rightarrow> bool" where
  "utf8_valid [] = True"
| "utf8_valid (a # s) =
     (let x = code a in
      if x < 128 then utf8_valid s
      else if 194 \<le> x \<and> x \<le> 223 then (case s of b # s' \<Rightarrow> cont b \<and> utf8_valid s' | _ \<Rightarrow> False)
      else if 224 \<le> x \<and> x \<le> 239 then
        (case s of b # c # s' \<Rightarrow>
           cont b \<and> cont c \<and> (x = 224 \<longrightarrow> 160 \<le> code b) \<and> (x = 237 \<longrightarrow> code b \<le> 159) \<and> utf8_valid s'
         | _ \<Rightarrow> False)
      else if 240 \<le> x \<and> x \<le> 244 then
        (case s of b # c # d # s' \<Rightarrow>
           cont b \<and> cont c \<and> cont d \<and> (x = 240 \<longrightarrow> 144 \<le> code b) \<and> (x = 244 \<longrightarrow> code b \<le> 143) \<and>
           utf8_valid s'
         | _ \<Rightarrow> False)
      else False)"

definition ascii :: "string \<Rightarrow> bool" where
  "ascii s \<longleftrightarrow> list_all (\<lambda>c. code c < 128) s"

lemma utf8_valid_ascii: "ascii s \<Longrightarrow> utf8_valid s"
  by (induction s) (auto simp: ascii_def)

definition valid_stable_id :: "string \<Rightarrow> bool" where
  "valid_stable_id s \<longleftrightarrow> s \<noteq> [] \<and> length s \<le> 128 \<and> utf8_valid s \<and> stable_mixed s"

section \<open>Facts on the recognisers\<close>

lemma mixed_tail_ascii: "mixed_tail c \<Longrightarrow> code c < 128"
  by (auto simp: mixed_tail_def char_class_defs)

lemma is_alnum_ascii: "is_alnum c \<Longrightarrow> code c < 128"
  by (auto simp: char_class_defs)

lemma stable_mixed_uncapped_ascii: "stable_mixed_uncapped s \<Longrightarrow> ascii s"
  by (cases s) (auto simp: ascii_def list_all_iff intro: mixed_tail_ascii is_alnum_ascii)

lemma valid_stable_id_iff: "valid_stable_id s \<longleftrightarrow> stable_mixed s"
  using utf8_valid_ascii[OF stable_mixed_uncapped_ascii, of s]
  by (cases "s = []") (auto simp: valid_stable_id_def stable_mixed_def)

lemma stable_mixed_nonempty: "stable_mixed s \<Longrightarrow> s \<noteq> []"
  by (auto simp: stable_mixed_def)

lemma is_stable_id_nonempty: "is_stable_id s \<Longrightarrow> s \<noteq> []"
  by (auto simp: is_stable_id_def)

lemma stable_id_rest_chars:
  "stable_id_rest b s \<Longrightarrow> c \<in> set s \<Longrightarrow> is_lower_digit c \<or> id_separator c"
  by (induction b s rule: stable_id_rest.induct) (auto split: if_splits)

lemma is_stable_id_chars:
  assumes "is_stable_id s" and "c \<in> set s"
  shows "is_lower_digit c \<or> id_separator c"
  using assms by (cases s) (auto simp: is_stable_id_def is_lower_digit_def dest: stable_id_rest_chars)

lemma is_stable_id_no_slash: "is_stable_id s \<Longrightarrow> CHR ''/'' \<notin> set s"
  using is_stable_id_chars[of s "CHR ''/''"] by (auto simp: char_class_defs id_separator_def)

text \<open>No stable identifier ends in a separator or holds two adjacent ones.\<close>

lemma stable_id_rest_append:
  "stable_id_rest b (s @ c # t) \<Longrightarrow> id_separator c \<Longrightarrow> \<not> is_lower_digit c \<Longrightarrow>
     t \<noteq> [] \<and> is_lower_digit (hd t)"
proof (induction s arbitrary: b)
  case Nil
  then show ?case by (cases t) (auto split: if_splits)
next
  case (Cons x s)
  then show ?case by (auto split: if_splits)
qed

end
