(* ===== verification/Sql_Table.thy ===== *)
theory Sql_Table
  imports Ident "HOL-Library.Product_Lexorder" "HOL-Library.List_Lexorder" "HOL-Library.Char_ord"
begin

text \<open>
  The SQLite statements the storage layer uses, on a table that is the list of its rows: a guarded
  \<open>UPDATE\<close> with its row count, an \<open>INSERT\<close> under a key and a \<open>CHECK\<close> constraint, the
  point \<open>SELECT\<close>. A violated constraint is \<open>None\<close> and leaves the table as it was.
  \<open>keyed_update\<close> is the interface of every state transition: a guard that pins the primary key,
  and a change that keeps it. \<open>lease_release\<close> extends it by the law of the terminal transitions:
  the guard demands a lease and the change gives it up.
\<close>

section \<open>Statements\<close>

definition update_where :: "('r \<Rightarrow> bool) \<Rightarrow> ('r \<Rightarrow> 'r) \<Rightarrow> 'r list \<Rightarrow> 'r list" where
  "update_where P f t = map (\<lambda>r. if P r then f r else r) t"

definition affected :: "('r \<Rightarrow> bool) \<Rightarrow> 'r list \<Rightarrow> nat" where
  "affected P t = length (filter P t)"

text \<open>An \<open>UPDATE\<close>: the new table and the number of rows, \<open>None\<close> when a row fails its \<open>CHECK\<close>.\<close>

definition exec_update ::
  "('r \<Rightarrow> bool) \<Rightarrow> ('r \<Rightarrow> bool) \<Rightarrow> ('r \<Rightarrow> 'r) \<Rightarrow> 'r list \<Rightarrow> ('r list \<times> nat) option" where
  "exec_update chk P f t =
     (if list_all (\<lambda>r. P r \<longrightarrow> chk (f r)) t then Some (update_where P f t, affected P t) else None)"

definition exec_insert ::
  "('r \<Rightarrow> bool) \<Rightarrow> ('r \<Rightarrow> 'k) \<Rightarrow> 'r \<Rightarrow> 'r list \<Rightarrow> 'r list option" where
  "exec_insert chk key r t =
     (if chk r \<and> key r \<notin> set (map key t) then Some (t @ [r]) else None)"

text \<open>\<open>INSERT ... ON CONFLICT(key) DO NOTHING\<close>: the \<open>CHECK\<close> constraints still hold.\<close>

definition exec_insert_ignore ::
  "('r \<Rightarrow> bool) \<Rightarrow> ('r \<Rightarrow> 'k) \<Rightarrow> 'r \<Rightarrow> 'r list \<Rightarrow> ('r list \<times> nat) option" where
  "exec_insert_ignore chk key r t =
     (if \<not> chk r then None else if key r \<in> set (map key t) then Some (t, 0) else Some (t @ [r], 1))"

definition select_key :: "('r \<Rightarrow> 'k) \<Rightarrow> 'k \<Rightarrow> 'r list \<Rightarrow> 'r option" where
  "select_key key k t = find (\<lambda>r. key r = k) t"

text \<open>A table is well formed when keys are distinct and every row satisfies its \<open>CHECK\<close>.\<close>

definition table_ok :: "('r \<Rightarrow> bool) \<Rightarrow> ('r \<Rightarrow> 'k) \<Rightarrow> 'r list \<Rightarrow> bool" where
  "table_ok chk key t \<longleftrightarrow> distinct (map key t) \<and> list_all chk t"

lemma table_okI [intro]: "distinct (map key t) \<Longrightarrow> list_all chk t \<Longrightarrow> table_ok chk key t"
  by (simp add: table_ok_def)

lemma table_ok_Nil [simp]: "table_ok chk key []"
  by (simp add: table_ok_def)

lemma table_ok_distinct: "table_ok chk key t \<Longrightarrow> distinct (map key t)"
  by (simp add: table_ok_def)

lemma table_ok_row: "table_ok chk key t \<Longrightarrow> r \<in> set t \<Longrightarrow> chk r"
  by (simp add: table_ok_def list_all_iff)

section \<open>SQLite functions\<close>

text \<open>
  \<open>length(X)\<close> of a text counts its characters up to the first NUL: a lead byte from 192 on takes
  the continuation bytes that follow it.
\<close>

function sql_length :: "string \<Rightarrow> nat" where
  "sql_length [] = 0"
| "sql_length (c # cs) =
     (if code c = 0 then 0
      else if 192 \<le> code c then Suc (sql_length (dropWhile cont cs))
      else Suc (sql_length cs))"
  by pat_completeness auto
termination
  by (relation "measure length") (auto simp: le_imp_less_Suc length_dropWhile_le)

lemma sql_length_le: "sql_length s \<le> length s"
proof (induction s rule: sql_length.induct)
  case (2 c cs)
  have "length (dropWhile cont cs) \<le> length cs"
    by (rule length_dropWhile_le)
  with 2 show ?case by (cases "code c = 0"; cases "192 \<le> code c") auto
qed simp

lemma sql_length_plain: "\<forall>c \<in> set s. 0 < code c \<and> code c < 128 \<Longrightarrow> sql_length s = length s"
  by (induction s) auto

text \<open>
  What the engine and its driver contribute: the day number of a stored instant, whether a nil
  byte slice is bound to NULL (or to an empty blob), and the engine's \<open>json_valid\<close>.
\<close>

record sql_driver =
  julianday :: "instant \<Rightarrow> int"
  nil_is_null :: bool
  sql_json_valid :: "string \<Rightarrow> bool"

definition bind_bytes :: "sql_driver \<Rightarrow> string \<Rightarrow> string option" where
  "bind_bytes drv b = (if b = [] \<and> nil_is_null drv then None else Some b)"

text \<open>A driver whose day numbers have millisecond granularity, that binds nil to NULL and takes any
  non-empty text as JSON.\<close>

definition millisecond_driver :: sql_driver where
  "millisecond_driver = \<lparr>julianday = (\<lambda>t. t div millisecond), nil_is_null = True,
     sql_json_valid = (\<lambda>s. s \<noteq> [])\<rparr>"

lemma mono_millisecond_driver: "mono (julianday millisecond_driver)"
  by (auto simp: mono_def millisecond_driver_def millisecond_def zdiv_mono1)

text \<open>
  \<open>ORDER BY\<close> on a stored time compares its text, which \<open>time.RFC3339Nano\<close> writes without trailing
  zeros of the fraction. Within the years 1 to 9999 the text up to the seconds has a fixed width, so
  it orders as the second does; the rest orders as text.
\<close>

definition nine_digits :: "int \<Rightarrow> string" where
  "nine_digits n = map (\<lambda>k. char_of (48 + nat (n div 10 ^ k mod 10))) [8, 7, 6, 5, 4, 3, 2, 1, 0]"

definition fraction_text :: "int \<Rightarrow> string" where
  "fraction_text n =
     (if n = 0 then ''Z'' else ''.'' @ rev (dropWhile (\<lambda>c. c = CHR ''0'') (rev (nine_digits n))) @ ''Z'')"

definition stored_time :: "instant \<Rightarrow> int \<times> string" where
  "stored_time t = (t div second, fraction_text (t mod second))"

section \<open>Facts on the statements\<close>

lemma set_update_where:
  "set (update_where P f t) = {r \<in> set t. \<not> P r} \<union> f ` {r \<in> set t. P r}"
  by (auto simp: update_where_def)

lemma length_update_where [simp]: "length (update_where P f t) = length t"
  by (simp add: update_where_def)

lemma update_where_none: "affected P t = 0 \<Longrightarrow> update_where P f t = t"
  by (auto simp: affected_def update_where_def filter_empty_conv intro!: map_idI)

lemma affected_0_iff: "affected P t = 0 \<longleftrightarrow> (\<forall>r \<in> set t. \<not> P r)"
  by (simp add: affected_def filter_empty_conv)

lemma affected_pos_iff: "0 < affected P t \<longleftrightarrow> (\<exists>r \<in> set t. P r)"
  using affected_0_iff[of P t] by auto

lemma map_update_where: "(\<And>r. P r \<Longrightarrow> key (f r) = key r) \<Longrightarrow> map key (update_where P f t) = map key t"
  by (simp add: update_where_def)

lemma exec_update_Some:
  "exec_update chk P f t = Some (t', n) \<longleftrightarrow>
     (\<forall>r \<in> set t. P r \<longrightarrow> chk (f r)) \<and> t' = update_where P f t \<and> n = affected P t"
  by (auto simp: exec_update_def list_all_iff)

lemma exec_insert_Some:
  "exec_insert chk key r t = Some t' \<longleftrightarrow> chk r \<and> key r \<notin> set (map key t) \<and> t' = t @ [r]"
  by (auto simp: exec_insert_def)

lemma exec_update_ok:
  assumes "table_ok chk key t" and "exec_update chk P f t = Some (t', n)"
    and "\<And>r. P r \<Longrightarrow> key (f r) = key r"
  shows "table_ok chk key t'"
proof -
  have "map key t' = map key t"
    using assms(2,3) by (simp add: exec_update_Some map_update_where)
  moreover have "list_all chk t'"
    using assms(1,2) by (auto simp: exec_update_Some table_ok_def list_all_iff update_where_def)
  ultimately show ?thesis
    using assms(1) by (simp add: table_ok_def)
qed

lemma exec_insert_ok: "table_ok chk key t \<Longrightarrow> exec_insert chk key r t = Some t' \<Longrightarrow> table_ok chk key t'"
  by (auto simp: exec_insert_Some table_ok_def)

lemma exec_insert_ignore_ok:
  "table_ok chk key t \<Longrightarrow> exec_insert_ignore chk key r t = Some (t', n) \<Longrightarrow> table_ok chk key t'"
  by (auto simp: exec_insert_ignore_def table_ok_def split: if_splits)

lemma select_key_Some:
  "distinct (map key t) \<Longrightarrow> select_key key k t = Some r \<longleftrightarrow> r \<in> set t \<and> key r = k"
  unfolding select_key_def
  by (induction t) (auto simp: image_iff)

lemma select_keyD: "select_key key k t = Some r \<Longrightarrow> r \<in> set t \<and> key r = k"
  unfolding select_key_def by (auto simp: find_Some_iff)

lemma select_key_None: "select_key key k t = None \<longleftrightarrow> k \<notin> set (map key t)"
  unfolding select_key_def by (auto simp: find_None_iff)

lemma select_key_append_new:
  "key r \<notin> set (map key t) \<Longrightarrow> select_key key (key r) (t @ [r]) = Some r"
  by (induction t) (auto simp: select_key_def)

lemma select_update_where:
  assumes "\<And>r. P r \<Longrightarrow> key (f r) = key r"
  shows "select_key key k (update_where P f t) = map_option (\<lambda>r. if P r then f r else r) (select_key key k t)"
  unfolding select_key_def update_where_def
  by (induction t) (auto simp: assms)

lemma select_key_append:
  "select_key key k (t @ [r]) =
     (case select_key key k t of Some x \<Rightarrow> Some x | None \<Rightarrow> if key r = k then Some r else None)"
  unfolding select_key_def by (induction t) auto

lemma affected_le_1:
  assumes "distinct (map key t)" and "\<And>r. P r \<Longrightarrow> key r = k"
  shows "affected P t \<le> 1"
  using filter_length_le_1[OF assms(1), of P k] assms(2) by (simp add: affected_def)

section \<open>The interface of a guarded transition\<close>

text \<open>
  \<open>guard k\<close> is the \<open>WHERE\<close> clause of a transition of the row with key \<open>k\<close>, with the lease
  token and the other arguments in \<open>'a\<close>; \<open>change\<close> its \<open>SET\<close> clause.
\<close>

locale keyed_update =
  fixes key :: "'r \<Rightarrow> 'k"
    and target :: "'a \<Rightarrow> 'k"
    and guard :: "'a \<Rightarrow> 'r \<Rightarrow> bool"
    and change :: "'a \<Rightarrow> 'r \<Rightarrow> 'r"
  assumes guard_key: "guard a r \<Longrightarrow> key r = target a"
    and change_key: "key (change a r) = key r"
begin

lemma keys_kept: "map key (update_where (guard a) (change a) t) = map key t"
  by (simp add: map_update_where change_key)

lemma at_most_one: "distinct (map key t) \<Longrightarrow> affected (guard a) t \<le> 1"
  using affected_le_1[of key t "guard a" "target a"] guard_key by blast

lemma ok_kept:
  "table_ok chk key t \<Longrightarrow> exec_update chk (guard a) (change a) t = Some (t', n) \<Longrightarrow> table_ok chk key t'"
  using exec_update_ok[of chk key t "guard a" "change a" t' n] change_key by blast

text \<open>Every other row is untouched.\<close>

lemma others_kept:
  assumes "k \<noteq> target a"
  shows "select_key key k (update_where (guard a) (change a) t) = select_key key k t"
proof (induction t)
  case Nil
  then show ?case by (simp add: update_where_def)
next
  case (Cons r t)
  have "key r = target a" if "guard a r" using that by (rule guard_key)
  then show ?case using Cons assms change_key[of a r]
    by (auto simp: update_where_def select_key_def)
qed

text \<open>When the transition reports one row, that row was selected and is now the changed one.\<close>

lemma one_row:
  assumes "distinct (map key t)" and "affected (guard a) t = 1"
  obtains r where "select_key key (target a) t = Some r" and "guard a r"
    and "select_key key (target a) (update_where (guard a) (change a) t) = Some (change a r)"
proof -
  from assms(2) obtain r where r: "r \<in> set t" "guard a r"
    using affected_pos_iff[of "guard a" t] by auto
  have "distinct (map key (update_where (guard a) (change a) t))"
    using assms(1) by (simp add: keys_kept)
  moreover have "change a r \<in> set (update_where (guard a) (change a) t)"
    using r by (auto simp: set_update_where)
  ultimately have "select_key key (target a) (update_where (guard a) (change a) t) = Some (change a r)"
    using r by (simp add: select_key_Some change_key guard_key)
  moreover have "select_key key (target a) t = Some r"
    using assms(1) r by (simp add: select_key_Some guard_key)
  ultimately show thesis using that r(2) by blast
qed

end

section \<open>The interface of a terminal transition\<close>

text \<open>
  The guard of a terminal transition demands that the row holds the caller's lease, and the change
  releases it; two terminal transitions with the same lease then exclude each other.
\<close>

locale lease_release = keyed_update key target guard change
  for key :: "'r \<Rightarrow> 'k" and target :: "'a \<Rightarrow> 'k"
    and guard :: "'a \<Rightarrow> 'r \<Rightarrow> bool" and change :: "'a \<Rightarrow> 'r \<Rightarrow> 'r" +
  fixes holds :: "'r \<Rightarrow> bool"
  assumes guard_holds: "guard a r \<Longrightarrow> holds r"
    and change_releases: "guard a r \<Longrightarrow> \<not> holds (change a r)"
begin

lemma released:
  assumes "distinct (map key t)" and "affected (guard a) t = 1"
    and "r \<in> set (update_where (guard a) (change a) t)" and "key r = target a"
  shows "\<not> holds r"
proof -
  obtain s where "guard a s"
    and "select_key key (target a) (update_where (guard a) (change a) t) = Some (change a s)"
    using one_row[OF assms(1,2)] by blast
  moreover have "select_key key (target a) (update_where (guard a) (change a) t) = Some r"
    using assms by (simp add: select_key_Some keys_kept)
  ultimately show ?thesis by (simp add: change_releases)
qed

lemma no_second:
  assumes "distinct (map key t)" and "affected (guard a) t = 1" and "target b = target a"
  shows "affected (guard b) (update_where (guard a) (change a) t) = 0"
proof -
  have "\<not> guard b r" if "r \<in> set (update_where (guard a) (change a) t)" for r
    using released[OF assms(1,2) that] guard_holds[of b r] guard_key[of b r] assms(3) by auto
  then show ?thesis by (simp add: affected_0_iff)
qed

end

end
