(* ===== verification/Idempotency.thy ===== *)
theory Idempotency
  imports Go_Error Sql_Table
begin

text \<open>
  \<open>internal/kernel/idempotency/idempotency.go\<close>: the request validation, the framing of
  \<open>Fingerprint\<close>, and \<open>Manager.Execute\<close> with \<open>replayOrWait\<close> over the store port. The locale
  \<open>idempotency_port\<close> states what the manager relies on of the port and proves what its callers rely
  on: an operation runs at most once per key, a success is replayed with its result, a failure is
  never retried. \<open>Idempotency_Store\<close> interprets it.
\<close>

section \<open>Data\<close>

record operation =
  op_app_id :: string
  op_scope :: string
  op_key :: string
  op_fingerprint :: string
  op_owner_id :: string

datatype idem_status = Idem_Executing | Idem_Succeeded | Idem_Failed | Idem_Other string

record claim = operation +
  cl_lease_token :: string
  cl_lease_expires :: instant

text \<open>A nil \<open>Result\<close> and a NULL column are \<open>None\<close>.\<close>

record idem_record = operation +
  ir_status :: idem_status
  ir_lease_token :: string
  ir_lease_expires :: instant
  ir_result :: "string option"
  ir_error_code :: string
  ir_created :: instant
  ir_completed :: "instant option"
  ir_expires :: "instant option"

definition maxKeyBytes :: nat where "maxKeyBytes = 128"
definition maxScopeBytes :: nat where "maxScopeBytes = 256"
definition maxOwnerBytes :: nat where "maxOwnerBytes = 256"
definition maxResultBytes :: nat where "maxResultBytes = 262144"

lemmas idem_limits = maxKeyBytes_def maxScopeBytes_def maxOwnerBytes_def maxResultBytes_def

type_synonym idem_key = "string \<times> string \<times> string"

definition idem_key_of :: "('a) operation_scheme \<Rightarrow> idem_key" where
  "idem_key_of r = (op_app_id r, op_scope r, op_key r)"

section \<open>Validation\<close>

definition ValidateKey :: "string \<Rightarrow> unit go_result" where
  "ValidateKey value =
     (if length value = 0 \<or> maxKeyBytes < length value \<or> \<not> stable_mixed_uncapped value
      then idem_fail Idem_InvalidRequest else Inr ())"

text \<open>
  \<open>scopePattern\<close>: a lower-case letter, lower-case letters and digits, then groups of one of
  \<open>._:/-\<close> and at least one alphanumeric. The state says where in a group the reader is.
\<close>

datatype scope_state = In_Head | After_Separator | In_Group

definition scope_separator :: "char \<Rightarrow> bool" where
  "scope_separator c \<longleftrightarrow> c \<in> set ''._:/-''"

fun scope_rest :: "scope_state \<Rightarrow> string \<Rightarrow> bool" where
  "scope_rest st [] = (st \<noteq> After_Separator)"
| "scope_rest st (c # cs) =
     (if st = In_Head \<and> is_lower_digit c then scope_rest In_Head cs
      else if st \<noteq> In_Head \<and> is_alnum c then scope_rest In_Group cs
      else st \<noteq> After_Separator \<and> scope_separator c \<and> scope_rest After_Separator cs)"

fun scope_pattern :: "string \<Rightarrow> bool" where
  "scope_pattern [] = False"
| "scope_pattern (c # cs) = (is_lower c \<and> scope_rest In_Head cs)"

definition ValidateOperation :: "('a) operation_scheme \<Rightarrow> unit go_result" where
  "ValidateOperation op =
     (if op_app_id op = [] then idem_fail Idem_InvalidRequest
      else if length (op_scope op) = 0 \<or> maxScopeBytes < length (op_scope op)
              \<or> \<not> scope_pattern (op_scope op) then idem_fail Idem_InvalidRequest
      else if ValidateKey (op_key op) \<noteq> Inr () then idem_fail Idem_InvalidRequest
      else if length (op_fingerprint op) \<noteq> 64 then idem_fail Idem_InvalidRequest
      else if length (op_owner_id op) = 0 \<or> maxOwnerBytes < length (op_owner_id op)
           then idem_fail Idem_InvalidRequest
      else Inr ())"

definition valid_operation :: "('a) operation_scheme \<Rightarrow> bool" where
  "valid_operation op \<longleftrightarrow> is_ok (ValidateOperation op)"

lemma valid_operation_iff:
  "valid_operation op \<longleftrightarrow>
     op_app_id op \<noteq> [] \<and> op_scope op \<noteq> [] \<and> length (op_scope op) \<le> 256 \<and> scope_pattern (op_scope op) \<and>
     ValidateKey (op_key op) = Inr () \<and> length (op_fingerprint op) = 64 \<and>
     op_owner_id op \<noteq> [] \<and> length (op_owner_id op) \<le> 256"
  by (auto simp: valid_operation_def ValidateOperation_def idem_limits)

lemma ValidateOperation_error: "ValidateOperation op = Inl e \<Longrightarrow> e = Sentinel (Idempotency_E Idem_InvalidRequest)"
  by (auto simp: ValidateOperation_def split: if_splits)

section \<open>The framing of fingerprints\<close>

text \<open>Each part is preceded by its length in eight big-endian bytes; the digest is a parameter.\<close>

definition be64 :: "nat \<Rightarrow> string" where
  "be64 n = map (\<lambda>i. char_of (n div 256 ^ i)) [7, 6, 5, 4, 3, 2, 1, 0]"

definition fingerprint_input :: "string list \<Rightarrow> string" where
  "fingerprint_input parts = concat (map (\<lambda>p. be64 (length p) @ p) parts)"

definition hex_digit :: "nat \<Rightarrow> char" where
  "hex_digit n = ''0123456789abcdef'' ! (n mod 16)"

definition hex_bytes :: "string \<Rightarrow> string" where
  "hex_bytes bs = concat (map (\<lambda>b. [hex_digit (code b div 16), hex_digit (code b mod 16)]) bs)"

definition Fingerprint :: "(string \<Rightarrow> string) \<Rightarrow> string list \<Rightarrow> string" where
  "Fingerprint sha256 parts = hex_bytes (sha256 (fingerprint_input parts))"

lemma length_be64 [simp]: "length (be64 n) = 8"
  by (simp add: be64_def)

definition be64_value :: "string \<Rightarrow> nat" where
  "be64_value bs = fold (\<lambda>b v. v * 256 + code b) bs 0"

lemma be64_value_be64:
  assumes "n < 2 ^ 64"
  shows "be64_value (be64 n) = n"
proof -
  have code: "code (char_of (m :: nat)) = m mod 256" for m
    by (simp add: code_def)
  have step: "(n div (d * 256)) * 256 + (n div d) mod 256 = n div d" for d :: nat
    by (metis div_mult2_eq div_mult_mod_eq)
  have top: "n div 256 ^ 7 mod 256 = n div 256 ^ 7"
    using assms by (intro mod_less) (simp add: div_less_iff_less_mult)
  show ?thesis
    unfolding be64_value_def be64_def
    using step[of 1] step[of 256] step[of "256^2"] step[of "256^3"] step[of "256^4"]
      step[of "256^5"] step[of "256^6"] top
    by (simp add: code eval_nat_numeral(3)[symmetric])
qed

lemma be64_inject: "n < 2 ^ 64 \<Longrightarrow> m < 2 ^ 64 \<Longrightarrow> be64 n = be64 m \<Longrightarrow> n = m"
  by (metis be64_value_be64)

text \<open>The framing is injective, so different part lists never share their digest input.\<close>

lemma fingerprint_input_inject:
  assumes "\<forall>p \<in> set ps. length p < 2 ^ 64" and "\<forall>q \<in> set qs. length q < 2 ^ 64"
    and "fingerprint_input ps = fingerprint_input qs"
  shows "ps = qs"
  using assms
proof (induction ps arbitrary: qs)
  case Nil
  then show ?case by (cases qs) (auto simp: fingerprint_input_def be64_def)
next
  case (Cons p ps)
  then obtain q qs' where qs: "qs = q # qs'"
    by (cases qs) (auto simp: fingerprint_input_def be64_def)
  have eq: "be64 (length p) @ p @ fingerprint_input ps = be64 (length q) @ q @ fingerprint_input qs'"
    using Cons.prems(3) qs by (simp add: fingerprint_input_def)
  then have "be64 (length p) = be64 (length q)" and rest: "p @ fingerprint_input ps = q @ fingerprint_input qs'"
    by (simp_all add: append_eq_append_conv)
  then have "length p = length q"
    using be64_inject Cons.prems(1,2) qs by simp
  with rest have "p = q" and "fingerprint_input ps = fingerprint_input qs'"
    by simp_all
  then show ?case using Cons qs by simp
qed

lemma length_hex_bytes [simp]: "length (hex_bytes bs) = 2 * length bs"
  by (induction bs) (simp_all add: hex_bytes_def)

section \<open>The manager\<close>

text \<open>The arguments \<open>BeginIdempotent\<close> accepts.\<close>

definition begin_guard :: "claim \<Rightarrow> instant \<Rightarrow> bool" where
  "begin_guard c now \<longleftrightarrow>
     valid_operation c \<and> cl_lease_token c \<noteq> [] \<and> \<not> is_zero now \<and> after (cl_lease_expires c) now"

text \<open>The \<open>Store\<close> port of package idempotency, over a store of type \<open>'s\<close>.\<close>

record 's idem_port =
  port_begin :: "claim \<Rightarrow> instant \<Rightarrow> 's \<Rightarrow> 's \<times> (idem_record \<times> bool) go_result"
  port_get :: "string \<Rightarrow> string \<Rightarrow> string \<Rightarrow> 's \<Rightarrow> idem_record go_result"
  port_complete :: "claim \<Rightarrow> idem_status \<Rightarrow> string \<Rightarrow> string \<Rightarrow> instant \<Rightarrow> instant \<Rightarrow> 's \<Rightarrow> 's \<times> unit go_result"

record manager =
  m_lease :: duration
  m_retention :: duration
  m_poll_interval :: duration

definition NewManager :: manager where
  "NewManager = \<lparr>m_lease = 2 * minute, m_retention = 7 * 24 * 60 * minute, m_poll_interval = 20 * millisecond\<rparr>"

text \<open>
  What the surroundings contribute to one call: the lease token drawn, the deadline of the context,
  the clock at the start and at completion, what others do to the store while the operation
  executes, and the events of the wait. A tick carries the store its read finds and the clock
  reading of the next round; an end of the context carries its error.
\<close>

datatype 's wait_event = Ctx_Done go_error | Tick 's instant

record 's surroundings =
  su_token :: string
  su_deadline :: "instant option"
  su_now :: instant
  su_completed :: instant
  su_meanwhile :: "'s \<Rightarrow> 's"
  su_wait_now :: instant
  su_waits :: "'s wait_event list"

text \<open>Go's \<open>([]byte, bool, error)\<close>: the result, whether it is a replay, the error.\<close>

type_synonym exec_return = "string \<times> bool \<times> go_error option"

abbreviation idem_err :: "idempotency_error \<Rightarrow> go_error option" where
  "idem_err e \<equiv> Some (Sentinel (Idempotency_E e))"

definition record_bytes :: "idem_record \<Rightarrow> string" where
  "record_bytes r = (case ir_result r of None \<Rightarrow> [] | Some b \<Rightarrow> b)"

text \<open>\<open>replayOrWait\<close>; \<open>None\<close> when the events end before the loop does.\<close>

fun replayOrWait ::
  "'s idem_port \<Rightarrow> operation \<Rightarrow> idem_record \<Rightarrow> instant \<Rightarrow> 's wait_event list \<Rightarrow> exec_return option" where
  "replayOrWait port op r now events =
     (case ir_status r of
        Idem_Succeeded \<Rightarrow> Some (record_bytes r, True, None)
      | Idem_Failed \<Rightarrow> Some ([], True, idem_err Idem_PreviousFailure)
      | Idem_Other _ \<Rightarrow> Some ([], True, idem_err Idem_OutcomeUnknown)
      | Idem_Executing \<Rightarrow>
          if \<not> before now (ir_lease_expires r) then Some ([], True, idem_err Idem_OutcomeUnknown)
          else (case events of
              [] \<Rightarrow> None
            | Ctx_Done e # _ \<Rightarrow> Some ([], True, Some e)
            | Tick s now' # events' \<Rightarrow>
                (case port_get port (op_app_id op) (op_scope op) (op_key op) s of
                   Inl e \<Rightarrow> Some ([], True, Some e)
                 | Inr r' \<Rightarrow>
                     if op_fingerprint r' \<noteq> op_fingerprint op
                     then Some ([], True, idem_err Idem_KeyConflict)
                     else replayOrWait port op r' now' events')))"

declare replayOrWait.simps [simp del]

text \<open>The claim of \<open>Execute\<close>: its lease is cut at the deadline of the context.\<close>

definition lease_end :: "manager \<Rightarrow> instant option \<Rightarrow> instant \<Rightarrow> instant" where
  "lease_end m deadline now =
     (case deadline of
        None \<Rightarrow> now + m_lease m
      | Some d \<Rightarrow> if before d (now + m_lease m) then d else now + m_lease m)"

definition make_claim :: "operation \<Rightarrow> string \<Rightarrow> instant \<Rightarrow> claim" where
  "make_claim op token expires =
     \<lparr>op_app_id = op_app_id op, op_scope = op_scope op, op_key = op_key op,
      op_fingerprint = op_fingerprint op, op_owner_id = op_owner_id op,
      cl_lease_token = token, cl_lease_expires = expires\<rparr>"

text \<open>What \<open>Execute\<close> does with the result of the operation.\<close>

definition finish_execution ::
  "manager \<Rightarrow> 's idem_port \<Rightarrow> claim \<Rightarrow> instant \<Rightarrow> string \<Rightarrow> go_error option \<Rightarrow> 's \<Rightarrow> 's \<times> exec_return" where
  "finish_execution m port c completed result0 err0 s =
     (let (result1, err) =
            (if maxResultBytes < length result0 then ([], join_errors err0 (idem_err Idem_ResultTooLarge))
             else (result0, err0));
          (st, ecode, result) =
            (if err \<noteq> None then (Idem_Failed, ''operation_failed'', []) else (Idem_Succeeded, [], result1));
          (s', done) = port_complete port c st result ecode completed (completed + m_retention m) s
      in case done of
           Inl ce \<Rightarrow> (s', [], False, join_errors err (Some ce))
         | Inr _ \<Rightarrow> if err \<noteq> None then (s', [], False, err) else (s', result, False, None))"

text \<open>
  \<open>Execute\<close>: the store after the call, the world the operation acts on, and the return value
  (\<open>None\<close> while still waiting). \<open>None\<close> for the operation is a nil callback.
\<close>

definition Execute ::
  "manager \<Rightarrow> 's idem_port \<Rightarrow> 's surroundings \<Rightarrow> operation
     \<Rightarrow> ('w \<Rightarrow> 'w \<times> string \<times> go_error option) option \<Rightarrow> 's \<Rightarrow> 'w \<Rightarrow> 's \<times> 'w \<times> exec_return option" where
  "Execute m port su op execute s w =
     (case ValidateOperation op of
        Inl e \<Rightarrow> (s, w, Some ([], False, Some e))
      | Inr _ \<Rightarrow>
     (case execute of
        None \<Rightarrow> (s, w, Some ([], False, idem_err Idem_InvalidRequest))
      | Some effect \<Rightarrow>
          let now = su_now su; expires = lease_end m (su_deadline su) now in
          if \<not> after expires now
          then (s, w, Some ([], False, Some (Sentinel (Context_E Ctx_DeadlineExceeded))))
          else
            let c = make_claim op (su_token su) expires;
                (s1, begun) = port_begin port c now s
            in case begun of
                 Inl e \<Rightarrow> (s1, w, Some ([], False, Some e))
               | Inr (r, claimed) \<Rightarrow>
                   if \<not> claimed
                   then (s1, w, replayOrWait port op r (su_wait_now su) (su_waits su))
                   else
                     let (w', result, err) = effect w;
                         (s2, ret) = finish_execution m port c (su_completed su) result err (su_meanwhile su s1)
                     in (s2, w', Some ret)))"

section \<open>Overlapping calls\<close>

text \<open>
  The blocks of one \<open>Execute\<close>: up to the claim, the operation, the completion. Between them other calls run
  theirs. A call is a manager, its surroundings, the operation and the callback.
\<close>

datatype exec_phase =
    Ph_Start | Ph_Claimed claim | Ph_Ran claim string "go_error option" | Ph_Returned "exec_return option"

definition execute_begin ::
  "manager \<Rightarrow> 's idem_port \<Rightarrow> 's surroundings \<Rightarrow> operation \<Rightarrow> bool \<Rightarrow> 's \<Rightarrow> 's \<times> exec_phase" where
  "execute_begin m port su op given s =
     (case ValidateOperation op of
        Inl e \<Rightarrow> (s, Ph_Returned (Some ([], False, Some e)))
      | Inr _ \<Rightarrow>
          if \<not> given then (s, Ph_Returned (Some ([], False, idem_err Idem_InvalidRequest)))
          else if \<not> after (lease_end m (su_deadline su) (su_now su)) (su_now su)
          then (s, Ph_Returned (Some ([], False, Some (Sentinel (Context_E Ctx_DeadlineExceeded)))))
          else
            (let c = make_claim op (su_token su) (lease_end m (su_deadline su) (su_now su)) in
             case port_begin port c (su_now su) s of
               (s1, Inl e) \<Rightarrow> (s1, Ph_Returned (Some ([], False, Some e)))
             | (s1, Inr (r, claimed)) \<Rightarrow>
                 if \<not> claimed then (s1, Ph_Returned (replayOrWait port op r (su_wait_now su) (su_waits su)))
                 else (s1, Ph_Claimed c)))"

text \<open>An undisturbed call is its blocks in a row.\<close>

lemma Execute_blocks:
  "Execute m port su op f s w =
     (case execute_begin m port su op (f \<noteq> None) s of
        (s1, Ph_Claimed c) \<Rightarrow>
          (case the f w of (w', result, err) \<Rightarrow>
             (case finish_execution m port c (su_completed su) result err (su_meanwhile su s1) of
                (s2, ret) \<Rightarrow> (s2, w', Some ret)))
      | (s1, Ph_Returned ret) \<Rightarrow> (s1, w, ret)
      | (s1, _) \<Rightarrow> (s1, w, None))"
  by (auto simp: Execute_def execute_begin_def Let_def split: sum.split option.split prod.split)

record ('s, 'w) exec_call =
  xc_manager :: manager
  xc_surroundings :: "'s surroundings"
  xc_operation :: operation
  xc_effect :: "('w \<Rightarrow> 'w \<times> string \<times> go_error option) option"

text \<open>The store, the world, where every call is, and which calls ran their operation, in order.\<close>

record ('s, 'w) exec_system =
  xs_store :: 's
  xs_world :: 'w
  xs_phases :: "exec_phase list"
  xs_runs :: "nat list"

definition exec_start :: "('s, 'w) exec_call list \<Rightarrow> 's \<Rightarrow> 'w \<Rightarrow> ('s, 'w) exec_system" where
  "exec_start calls s w = \<lparr>xs_store = s, xs_world = w, xs_phases = map (\<lambda>_. Ph_Start) calls, xs_runs = []\<rparr>"

definition call_key :: "('s, 'w) exec_call list \<Rightarrow> nat \<Rightarrow> idem_key" where
  "call_key calls i = idem_key_of (xc_operation (calls ! i))"

inductive exec_step ::
  "'s idem_port \<Rightarrow> ('s \<Rightarrow> 's \<Rightarrow> bool) \<Rightarrow> ('s, 'w) exec_call list \<Rightarrow> ('s, 'w) exec_system \<Rightarrow> ('s, 'w) exec_system \<Rightarrow> bool"
  for port evolves calls where
  begin_block: "i < length calls \<Longrightarrow> xs_phases x ! i = Ph_Start \<Longrightarrow>
    execute_begin (xc_manager (calls ! i)) port (xc_surroundings (calls ! i)) (xc_operation (calls ! i))
      (xc_effect (calls ! i) \<noteq> None) (xs_store x) = (s', p) \<Longrightarrow>
    exec_step port evolves calls x (x\<lparr>xs_store := s', xs_phases := (xs_phases x)[i := p]\<rparr>)"
| run_block: "i < length calls \<Longrightarrow> xs_phases x ! i = Ph_Claimed c \<Longrightarrow>
    the (xc_effect (calls ! i)) (xs_world x) = (w', result, err) \<Longrightarrow>
    exec_step port evolves calls x
      (x\<lparr>xs_world := w', xs_phases := (xs_phases x)[i := Ph_Ran c result err], xs_runs := xs_runs x @ [i]\<rparr>)"
| finish_block: "i < length calls \<Longrightarrow> xs_phases x ! i = Ph_Ran c result err \<Longrightarrow>
    finish_execution (xc_manager (calls ! i)) port c (su_completed (xc_surroundings (calls ! i))) result err (xs_store x)
      = (s', ret) \<Longrightarrow>
    exec_step port evolves calls x (x\<lparr>xs_store := s', xs_phases := (xs_phases x)[i := Ph_Returned (Some ret)]\<rparr>)"
| others: "evolves (xs_store x) s' \<Longrightarrow> exec_step port evolves calls x (x\<lparr>xs_store := s'\<rparr>)"

lemma exec_runs_bound:
  "(exec_step port evolves calls)\<^sup>*\<^sup>* (exec_start calls s w) x \<Longrightarrow> i \<in> set (xs_runs x) \<Longrightarrow> i < length calls"
proof (induction arbitrary: i rule: rtranclp_induct)
  case (step x y)
  then show ?case by (auto elim!: exec_step.cases)
qed (simp add: exec_start_def)

section \<open>The contract of the store port\<close>

text \<open>
  \<open>look s k\<close> is the record a read of key \<open>k\<close> finds, \<open>evolves s s'\<close> that the operations of any
  number of callers lead from \<open>s\<close> to \<open>s'\<close>, \<open>good\<close> the invariant of the store.
\<close>

locale idempotency_port =
  fixes port :: "'s idem_port"
    and look :: "'s \<Rightarrow> idem_key \<Rightarrow> idem_record option"
    and evolves :: "'s \<Rightarrow> 's \<Rightarrow> bool"
    and good :: "'s \<Rightarrow> bool"
  assumes evolves_refl: "evolves s s"
    and evolves_trans: "evolves s s' \<Longrightarrow> evolves s' s'' \<Longrightarrow> evolves s s''"
    and evolves_good: "evolves s s' \<Longrightarrow> good s \<Longrightarrow> good s'"
    and evolves_keeps: "evolves s s' \<Longrightarrow> good s \<Longrightarrow> look s k = Some q \<Longrightarrow>
          \<exists>q'. look s' k = Some q' \<and> op_fingerprint q' = op_fingerprint q \<and>
               (ir_status q \<noteq> Idem_Executing \<longrightarrow> q' = q)"
    and begin_evolves: "port_begin port c now s = (s', x) \<Longrightarrow> evolves s s'"
    and complete_evolves: "port_complete port c st res ec ct et s = (s', y) \<Longrightarrow> evolves s s'"
    and begin_claims: "good s \<Longrightarrow> port_begin port c now s = (s', Inr (r, True)) \<Longrightarrow>
          look s (idem_key_of c) = None \<and> (\<exists>q. look s' (idem_key_of c) = Some q)"
    and begin_finds: "good s \<Longrightarrow> begin_guard c now \<Longrightarrow> look s (idem_key_of c) = Some q \<Longrightarrow>
          op_fingerprint q = op_fingerprint c \<Longrightarrow> port_begin port c now s = (s, Inr (q, False))"
    and begin_refuses: "good s \<Longrightarrow> begin_guard c now \<Longrightarrow> look s (idem_key_of c) = Some q \<Longrightarrow>
          op_fingerprint q \<noteq> op_fingerprint c \<Longrightarrow>
          \<exists>e. port_begin port c now s = (s, Inl e)"
    and complete_stores: "good s \<Longrightarrow> port_complete port c st res ec ct et s = (s', Inr ()) \<Longrightarrow>
          st \<in> {Idem_Succeeded, Idem_Failed} \<and>
          (\<exists>q. look s' (idem_key_of c) = Some q \<and> op_fingerprint q = op_fingerprint c \<and>
               ir_status q = st \<and> (st = Idem_Succeeded \<longrightarrow> record_bytes q = res))"
begin

lemma finish_evolves:
  "finish_execution m port c t res err s = (s', ret) \<Longrightarrow> evolves s s'"
  unfolding finish_execution_def Let_def
  by (auto split: sum.splits if_splits prod.splits dest: complete_evolves)

text \<open>A call whose effect ran has found no record and leaves one.\<close>

lemma ran_claims:
  assumes "good s" and "\<And>s. evolves s (su_meanwhile su s)"
    and "Execute m port su op f s w = (s', w', ret)" and "w' \<noteq> w"
  shows "look s (idem_key_of op) = None \<and> (\<exists>q. look s' (idem_key_of op) = Some q)"
proof -
  let ?c = "make_claim op (su_token su) (lease_end m (su_deadline su) (su_now su))"
  obtain s1 r where begun: "port_begin port ?c (su_now su) s = (s1, Inr (r, True))"
    and ev0: "evolves (su_meanwhile su s1) s'"
    using assms(3,4) unfolding Execute_def Let_def
    by (auto split: sum.splits option.splits if_splits prod.splits dest!: finish_evolves)
  have key: "idem_key_of ?c = idem_key_of op"
    by (simp add: idem_key_of_def make_claim_def)
  have ev: "evolves s1 s'"
    using ev0 assms(2) evolves_trans by blast
  have "good s1"
    using assms(1) begun begin_evolves evolves_good by blast
  then show ?thesis
    using begin_claims[OF assms(1) begun] ev evolves_keeps unfolding key by blast
qed

lemma Execute_evolves:
  assumes "\<And>s. evolves s (su_meanwhile su s)" and "Execute m port su op f s w = (s', w', ret)"
  shows "evolves s s'"
  using assms unfolding Execute_def Let_def
  by (auto split: sum.splits option.splits if_splits prod.splits
      dest!: finish_evolves begin_evolves intro: evolves_refl)
    (meson evolves_trans)

lemma at_most_once:
  assumes "good s" and "\<And>s. evolves s (su_meanwhile su1 s)" and "\<And>s. evolves s (su_meanwhile su2 s)"
    and "idem_key_of op2 = idem_key_of op1"
    and "Execute m port su1 op1 f1 s w = (s1, w1, ret1)" and "evolves s1 s2"
    and "Execute m port su2 op2 f2 s2 w1 = (s3, w2, ret2)" and "w1 \<noteq> w"
  shows "w2 = w1"
proof (rule ccontr)
  assume "w2 \<noteq> w1"
  have "good s1" and "good s2"
    using assms(1,6) Execute_evolves[OF assms(2,5)] evolves_good by blast+
  then have "look s2 (idem_key_of op1) = None"
    using ran_claims[OF _ assms(3,7) \<open>w2 \<noteq> w1\<close>] assms(4) by simp
  moreover have "\<exists>q. look s1 (idem_key_of op1) = Some q"
    using ran_claims[OF assms(1,2,5,8)] by blast
  ultimately show False
    using evolves_keeps[OF assms(6) \<open>good s1\<close>] by (metis option.distinct(1))
qed

text \<open>
  Overlapping calls: whoever holds a claim or ran has its key in the store, and no two of them have one key.
\<close>

definition exec_ok :: "('s, 'w) exec_call list \<Rightarrow> ('s, 'w) exec_system \<Rightarrow> bool" where
  "exec_ok calls x \<longleftrightarrow>
     good (xs_store x) \<and> length (xs_phases x) = length calls \<and>
     (\<forall>i < length calls. \<forall>j < length calls. \<forall>c d. xs_phases x ! i = Ph_Claimed c \<longrightarrow> xs_phases x ! j = Ph_Claimed d \<longrightarrow>
        call_key calls i = call_key calls j \<longrightarrow> i = j) \<and>
     (\<forall>i < length calls. \<forall>c. xs_phases x ! i = Ph_Claimed c \<longrightarrow>
        call_key calls i \<notin> call_key calls ` set (xs_runs x) \<and> look (xs_store x) (call_key calls i) \<noteq> None) \<and>
     distinct (map (call_key calls) (xs_runs x)) \<and>
     (\<forall>i \<in> set (xs_runs x). look (xs_store x) (call_key calls i) \<noteq> None)"

lemma evolves_look: "evolves s s' \<Longrightarrow> good s \<Longrightarrow> look s k \<noteq> None \<Longrightarrow> look s' k \<noteq> None"
  using evolves_keeps by (metis option.exhaust option.distinct(1))

lemma execute_begin_cases:
  assumes "execute_begin m port su op given s = (s', p)" "good s"
  shows "evolves s s' \<and> (\<forall>c. p = Ph_Claimed c \<longrightarrow> look s (idem_key_of op) = None \<and> look s' (idem_key_of op) \<noteq> None)"
proof -
  have key: "idem_key_of (make_claim op t e) = idem_key_of op" for t e by (simp add: idem_key_of_def make_claim_def)
  show ?thesis
    using assms(1) begin_claims[OF assms(2), of "make_claim op t e" for t e, unfolded key] unfolding execute_begin_def Let_def
    by (fastforce split: sum.splits if_splits prod.splits intro: evolves_refl dest: begin_evolves)
qed

lemma exec_ok_evolves:
  "exec_ok calls x \<Longrightarrow> evolves (xs_store x) s' \<Longrightarrow> exec_ok calls (x\<lparr>xs_store := s'\<rparr>)"
  unfolding exec_ok_def using evolves_look[of "xs_store x" s'] evolves_good[of "xs_store x" s'] by simp

lemma exec_ok_step:
  assumes "exec_step port evolves calls x y" "exec_ok calls x"
  shows "exec_ok calls y"
  using assms(1)
proof cases
  case (begin_block i s' p)
  have g: "good (xs_store x)" using assms(2) by (simp add: exec_ok_def)
  note b = execute_begin_cases[OF begin_block(4) g, folded call_key_def]
  have ok: "exec_ok calls (x\<lparr>xs_store := s'\<rparr>)" using exec_ok_evolves[OF assms(2)] b by blast
  have old: "look (xs_store x) (call_key calls j) \<noteq> None" if "j < length calls" "xs_phases x ! j = Ph_Claimed c" for j c
    using assms(2) that unfolding exec_ok_def by blast
  have ran: "look (xs_store x) (call_key calls j) \<noteq> None" if "j \<in> set (xs_runs x)" for j
    using assms(2) that unfolding exec_ok_def by blast
  have new: "look (xs_store x) (call_key calls i) = None" "look s' (call_key calls i) \<noteq> None" if "p = Ph_Claimed c" for c
    using b that unfolding call_key_def by blast+
  have len: "length (xs_phases x) = length calls" using ok by (simp add: exec_ok_def)
  show ?thesis
    unfolding begin_block(1) exec_ok_def
  proof (intro conjI allI impI ballI)
    fix j k c d
    assume "j < length calls" "k < length calls" "call_key calls j = call_key calls k"
      "xs_phases (x\<lparr>xs_store := s', xs_phases := (xs_phases x)[i := p]\<rparr>) ! j = Ph_Claimed c"
      "xs_phases (x\<lparr>xs_store := s', xs_phases := (xs_phases x)[i := p]\<rparr>) ! k = Ph_Claimed d"
    note a = this[simplified]
    have claimed: "xs_phases x ! l = Ph_Claimed e" if "l \<noteq> i" "(xs_phases x)[i := p] ! l = Ph_Claimed e" for l e using that by simp
    consider "j = i" "k = i" | "j = i" "k \<noteq> i" | "j \<noteq> i" "k = i" | "j \<noteq> i" "k \<noteq> i" by blast
    then show "j = k"
    proof cases
      case 2
      then have "p = Ph_Claimed c" using a len by simp
      then show ?thesis using new(1) old[OF a(2) claimed[OF 2(2) a(5)]] a(3) 2(1) by simp
    next
      case 3
      then have "p = Ph_Claimed d" using a len by simp
      then show ?thesis using new(1) old[OF a(1) claimed[OF 3(1) a(4)]] a(3) 3(2) by simp
    next
      case 4
      then show ?thesis using assms(2) a claimed unfolding exec_ok_def by blast
    qed simp
  next
    fix j c
    assume j: "j < length calls" "xs_phases (x\<lparr>xs_store := s', xs_phases := (xs_phases x)[i := p]\<rparr>) ! j = Ph_Claimed c"
    show "call_key calls j \<notin> call_key calls ` set (xs_runs (x\<lparr>xs_store := s', xs_phases := (xs_phases x)[i := p]\<rparr>))"
    proof (cases "j = i")
      case True
      then have "look (xs_store x) (call_key calls j) = None" using j new len by simp
      then have "call_key calls l \<noteq> call_key calls j" if "l \<in> set (xs_runs x)" for l using ran[OF that] by metis
      then show ?thesis unfolding image_iff by simp metis
    qed (use j ok len in \<open>simp add: exec_ok_def\<close>)
    show "look (xs_store (x\<lparr>xs_store := s', xs_phases := (xs_phases x)[i := p]\<rparr>)) (call_key calls j) \<noteq> None"
      using j ok len new(2) by (cases "j = i") (auto simp: exec_ok_def)
  qed (use ok in \<open>auto simp: exec_ok_def\<close>)
next
  case (run_block i c w' result err)
  have i: "call_key calls i \<notin> call_key calls ` set (xs_runs x)" "look (xs_store x) (call_key calls i) \<noteq> None"
    and alone: "\<And>j d. j < length calls \<Longrightarrow> xs_phases x ! j = Ph_Claimed d \<Longrightarrow> call_key calls j = call_key calls i \<Longrightarrow> j = i"
    using assms(2) run_block(2,3) unfolding exec_ok_def by blast+
  have len: "length (xs_phases x) = length calls" using assms(2) by (simp add: exec_ok_def)
  have other: "xs_phases x ! j = Ph_Claimed d \<and> j \<noteq> i" if "(xs_phases x)[i := Ph_Ran c result err] ! j = Ph_Claimed d" "j < length calls" for j d
    using that len by (cases "j = i") simp_all
  show ?thesis
    unfolding run_block(1) exec_ok_def
    using assms(2) other alone i unfolding exec_ok_def by simp blast
next
  case (finish_block i c result err s' ret)
  have ok: "exec_ok calls (x\<lparr>xs_store := s'\<rparr>)"
    using exec_ok_evolves[OF assms(2) finish_evolves[OF finish_block(4)]] .
  have len: "length (xs_phases x) = length calls" using ok by (simp add: exec_ok_def)
  have other: "xs_phases x ! j = Ph_Claimed d \<and> j \<noteq> i" if "(xs_phases x)[i := Ph_Returned (Some ret)] ! j = Ph_Claimed d" "j < length calls" for j d
    using that len by (cases "j = i") simp_all
  show ?thesis
    unfolding finish_block(1) exec_ok_def using ok other unfolding exec_ok_def by simp
next
  case (others s')
  then show ?thesis using exec_ok_evolves[OF assms(2)] by simp
qed

lemma overlapping_at_most_once:
  assumes "good s" "(exec_step port evolves calls)\<^sup>*\<^sup>* (exec_start calls s w) x"
  shows "distinct (map (call_key calls) (xs_runs x))"
proof -
  have "exec_ok calls x"
    using assms(2)
  proof (induction rule: rtranclp_induct)
    case base
    show ?case using assms(1) by (simp add: exec_ok_def exec_start_def)
  qed (rule exec_ok_step)
  then show ?thesis by (simp add: exec_ok_def)
qed

text \<open>A record in a terminal state decides every later call of the same operation.\<close>

lemma terminal_decides:
  assumes "good s" and "look s (idem_key_of op) = Some q" and "op_fingerprint q = op_fingerprint op"
    and "begin_guard (make_claim op (su_token su) (lease_end m (su_deadline su) (su_now su))) (su_now su)"
  shows "Execute m port su op (Some f) s w = (s, w, replayOrWait port op q (su_wait_now su) (su_waits su))"
proof -
  let ?c = "make_claim op (su_token su) (lease_end m (su_deadline su) (su_now su))"
  have "idem_key_of ?c = idem_key_of op" and fp: "op_fingerprint ?c = op_fingerprint op"
    by (simp_all add: idem_key_of_def make_claim_def)
  then have "port_begin port ?c (su_now su) s = (s, Inr (q, False))"
    using begin_finds[OF assms(1,4), of q] assms(2,3) by simp
  moreover have "ValidateOperation op = Inr ()" "after (lease_end m (su_deadline su) (su_now su)) (su_now su)"
    using assms(4) by (auto simp: begin_guard_def make_claim_def valid_operation_def ValidateOperation_def
        split: if_splits)
  ultimately show ?thesis
    by (simp add: Execute_def Let_def)
qed

text \<open>A success that was returned is what every later call of the operation returns.\<close>

lemma success_stored:
  assumes "good s" and "\<And>s. evolves s (su_meanwhile su s)"
    and "Execute m port su op f s w = (s', w', Some (res, False, None))"
  shows "\<exists>q. look s' (idem_key_of op) = Some q \<and> op_fingerprint q = op_fingerprint op \<and>
             ir_status q = Idem_Succeeded \<and> record_bytes q = res"
proof -
  let ?c = "make_claim op (su_token su) (lease_end m (su_deadline su) (su_now su))"
  have no_replay: "replayOrWait port op r now es \<noteq> Some (res, False, None)" for r now es
    by (induction port op r now es rule: replayOrWait.induct, subst replayOrWait.simps)
      (auto split: idem_status.splits list.splits wait_event.splits sum.splits)
  have fin: "finish_execution m port c t res0 err s0 = (s', res, False, None) \<Longrightarrow>
      \<exists>ec et. port_complete port c Idem_Succeeded res ec t et s0 = (s', Inr ())" for c t res0 err s0
    unfolding finish_execution_def Let_def
    by (auto split: sum.splits if_splits prod.splits)
  obtain s1 r where begun: "port_begin port ?c (su_now su) s = (s1, Inr (r, True))"
    and fin2: "\<exists>ec t et. port_complete port ?c Idem_Succeeded res ec t et (su_meanwhile su s1) = (s', Inr ())"
    using assms(3) no_replay unfolding Execute_def Let_def
    by (auto split: sum.splits option.splits if_splits prod.splits dest!: fin)
  have "good (su_meanwhile su s1)"
    using assms(1,2) begun begin_evolves evolves_good by blast
  then show ?thesis
    using fin2 complete_stores by (fastforce simp: idem_key_of_def make_claim_def)
qed

lemma success_replays:
  assumes "good s" and "\<And>s. evolves s (su_meanwhile su1 s)"
    and "Execute m port su1 op1 f1 s w = (s1, w1, Some (res, False, None))" and "evolves s1 s2"
    and "idem_key_of op2 = idem_key_of op1" and "op_fingerprint op2 = op_fingerprint op1"
    and "begin_guard (make_claim op2 (su_token su2) (lease_end m (su_deadline su2) (su_now su2))) (su_now su2)"
  shows "Execute m port su2 op2 (Some f2) s2 w2 = (s2, w2, Some (res, True, None))"
proof -
  have "good s1" "good s2"
    using assms(1,4) Execute_evolves[OF assms(2,3)] evolves_good by blast+
  moreover obtain q where q: "look s1 (idem_key_of op1) = Some q" "op_fingerprint q = op_fingerprint op1"
      "ir_status q = Idem_Succeeded" "record_bytes q = res"
    using success_stored[OF assms(1,2,3)] by blast
  ultimately have "look s2 (idem_key_of op2) = Some q"
    using evolves_keeps[OF assms(4)] assms(5) by fastforce
  from terminal_decides[OF \<open>good s2\<close> this, of su2 m f2 w2] show ?thesis
    using q assms(6,7) by (simp add: replayOrWait.simps)
qed

end

end
