(* ===== verification/Go_Json.thy ===== *)
theory Go_Json
  imports Ident Go_Error
begin

text \<open>
  \<open>json.Valid\<close> of Go's standard library, on which every validator of the repository that takes a
  raw JSON field relies. The model is the library's own machine: a step function over bytes with a
  stack of parse states, the nesting limit of 10000, and the closing step on a space. A literal
  state holds the letters still expected.
\<close>

datatype parse_state = Object_Key | Object_Value | Array_Value

datatype scan_state =
    Begin_Value | Begin_Value_Or_Empty | Begin_String | Begin_String_Or_Empty
  | End_Value | End_Top
  | In_String | In_Escape | In_Hex nat
  | Neg | Digits | Zero | Dot | Fraction | Exp | Exp_Sign | Exp_Digits
  | Literal string

type_synonym scanner = "scan_state \<times> parse_state list"

definition max_nesting_depth :: nat where "max_nesting_depth = 10000"

definition is_space :: "char \<Rightarrow> bool" where
  "is_space c \<longleftrightarrow> code c = 32 \<or> code c = 9 \<or> code c = 13 \<or> code c = 10"

definition is_hex :: "char \<Rightarrow> bool" where
  "is_hex c \<longleftrightarrow> is_hex_lower c \<or> 65 \<le> code c \<and> code c \<le> 70"

definition push_state :: "parse_state \<Rightarrow> scan_state \<Rightarrow> parse_state list \<Rightarrow> scanner option" where
  "push_state p st ps = (if length ps < max_nesting_depth then Some (st, p # ps) else None)"

definition pop_state :: "parse_state list \<Rightarrow> scanner option" where
  "pop_state ps = Some (if tl ps = [] then End_Top else End_Value, tl ps)"

text \<open>\<open>stateEndValue\<close>: what may follow a complete value.\<close>

definition end_value :: "parse_state list \<Rightarrow> char \<Rightarrow> scanner option" where
  "end_value ps c =
     (case ps of
        [] \<Rightarrow> if is_space c then Some (End_Top, []) else None
      | p # qs \<Rightarrow>
          if is_space c then Some (End_Value, ps)
          else (case p of
              Object_Key \<Rightarrow> if c = CHR '':'' then Some (Begin_Value, Object_Value # qs) else None
            | Object_Value \<Rightarrow>
                if c = CHR '','' then Some (Begin_String, Object_Key # qs)
                else if c = CHR ''}'' then pop_state ps else None
            | Array_Value \<Rightarrow>
                if c = CHR '','' then Some (Begin_Value, ps)
                else if c = CHR '']'' then pop_state ps else None))"

definition begin_value :: "parse_state list \<Rightarrow> char \<Rightarrow> scanner option" where
  "begin_value ps c =
     (if is_space c then Some (Begin_Value, ps)
      else if c = CHR ''{'' then push_state Object_Key Begin_String_Or_Empty ps
      else if c = CHR ''['' then push_state Array_Value Begin_Value_Or_Empty ps
      else if code c = 34 then Some (In_String, ps)
      else if c = CHR ''-'' then Some (Neg, ps)
      else if c = CHR ''0'' then Some (Zero, ps)
      else if c = CHR ''t'' then Some (Literal ''rue'', ps)
      else if c = CHR ''f'' then Some (Literal ''alse'', ps)
      else if c = CHR ''n'' then Some (Literal ''ull'', ps)
      else if is_digit c then Some (Digits, ps)
      else None)"

definition begin_string :: "parse_state list \<Rightarrow> char \<Rightarrow> scanner option" where
  "begin_string ps c =
     (if is_space c then Some (Begin_String, ps)
      else if code c = 34 then Some (In_String, ps) else None)"

definition state_zero :: "parse_state list \<Rightarrow> char \<Rightarrow> scanner option" where
  "state_zero ps c =
     (if c = CHR ''.'' then Some (Dot, ps)
      else if c = CHR ''e'' \<or> c = CHR ''E'' then Some (Exp, ps)
      else end_value ps c)"

definition state_exp_sign :: "parse_state list \<Rightarrow> char \<Rightarrow> scanner option" where
  "state_exp_sign ps c = (if is_digit c then Some (Exp_Digits, ps) else None)"

fun scan_step :: "scanner \<Rightarrow> char \<Rightarrow> scanner option" where
  "scan_step (Begin_Value, ps) c = begin_value ps c"
| "scan_step (Begin_Value_Or_Empty, ps) c =
     (if is_space c then Some (Begin_Value_Or_Empty, ps)
      else if c = CHR '']'' then end_value ps c else begin_value ps c)"
| "scan_step (Begin_String, ps) c = begin_string ps c"
| "scan_step (Begin_String_Or_Empty, ps) c =
     (if is_space c then Some (Begin_String_Or_Empty, ps)
      else if c = CHR ''}'' then end_value (Object_Value # tl ps) c else begin_string ps c)"
| "scan_step (End_Value, ps) c = end_value ps c"
| "scan_step (End_Top, ps) c = (if is_space c then Some (End_Top, ps) else None)"
| "scan_step (In_String, ps) c =
     (if code c = 34 then Some (End_Value, ps)
      else if code c = 92 then Some (In_Escape, ps)
      else if code c < 32 then None else Some (In_String, ps))"
| "scan_step (In_Escape, ps) c =
     (if c \<in> set ''bfnrt/'' \<or> code c = 92 \<or> code c = 34 then Some (In_String, ps)
      else if c = CHR ''u'' then Some (In_Hex 3, ps) else None)"
| "scan_step (In_Hex n, ps) c =
     (if is_hex c then Some (if n = 0 then In_String else In_Hex (n - 1), ps) else None)"
| "scan_step (Neg, ps) c =
     (if c = CHR ''0'' then Some (Zero, ps) else if is_digit c then Some (Digits, ps) else None)"
| "scan_step (Digits, ps) c = (if is_digit c then Some (Digits, ps) else state_zero ps c)"
| "scan_step (Zero, ps) c = state_zero ps c"
| "scan_step (Dot, ps) c = (if is_digit c then Some (Fraction, ps) else None)"
| "scan_step (Fraction, ps) c =
     (if is_digit c then Some (Fraction, ps)
      else if c = CHR ''e'' \<or> c = CHR ''E'' then Some (Exp, ps) else end_value ps c)"
| "scan_step (Exp, ps) c =
     (if c = CHR ''+'' \<or> c = CHR ''-'' then Some (Exp_Sign, ps) else state_exp_sign ps c)"
| "scan_step (Exp_Sign, ps) c = state_exp_sign ps c"
| "scan_step (Exp_Digits, ps) c = (if is_digit c then Some (Exp_Digits, ps) else end_value ps c)"
| "scan_step (Literal [], ps) c = end_value ps c"
| "scan_step (Literal (x # xs), ps) c =
     (if c = x then Some (if xs = [] then End_Value else Literal xs, ps) else None)"

fun scan :: "scanner \<Rightarrow> string \<Rightarrow> scanner option" where
  "scan st [] = Some st"
| "scan st (c # cs) = (case scan_step st c of None \<Rightarrow> None | Some st' \<Rightarrow> scan st' cs)"

definition scan_eof :: "scanner \<Rightarrow> bool" where
  "scan_eof st =
     (case st of
        (End_Top, _) \<Rightarrow> True
      | _ \<Rightarrow> (case scan_step st (CHR '' '') of Some (End_Top, _) \<Rightarrow> True | _ \<Rightarrow> False))"

definition json_valid :: "string \<Rightarrow> bool" where
  "json_valid s = (case scan (Begin_Value, []) s of None \<Rightarrow> False | Some st \<Rightarrow> scan_eof st)"

section \<open>Facts\<close>

lemma json_valid_empty [simp]: "\<not> json_valid []"
  by (simp add: json_valid_def scan_eof_def begin_value_def is_space_def code_def)

lemma json_valid_nonempty: "json_valid s \<Longrightarrow> s \<noteq> []"
  by auto

lemma scan_append: "scan st (s @ t) = (case scan st s of None \<Rightarrow> None | Some st' \<Rightarrow> scan st' t)"
  by (induction s arbitrary: st) (auto split: option.splits)

text \<open>The nesting limit is an invariant of the machine.\<close>

lemma end_value_depth:
  "end_value ps c = Some (q, qs) \<Longrightarrow> length qs \<le> length ps"
  by (auto simp: end_value_def pop_state_def split: list.splits if_splits parse_state.splits)

lemma begin_value_depth:
  "begin_value ps c = Some (q, qs) \<Longrightarrow> length ps \<le> max_nesting_depth \<Longrightarrow> length qs \<le> max_nesting_depth"
  by (auto simp: begin_value_def push_state_def split: if_splits)

lemma json_valid_object: "json_valid ''{}''"
  by code_simp

section \<open>Decoded values\<close>

text \<open>
  What \<open>json.Unmarshal\<close> into an \<open>any\<close> yields. An object is a Go map: its keys are distinct. The
  decoder itself is a parameter of the definitions that use it.
\<close>

datatype json =
    J_Null | J_Bool bool | J_Number string | J_String string
  | J_Array "json list" | J_Object "(string \<times> json) list"

type_synonym json_decoder = "string \<Rightarrow> json go_result"

end
