(* ===== verification/Task_Model.thy ===== *)
theory Task_Model
  imports Idempotency Go_Json
begin

text \<open>
  The task model of \<open>internal/kernel/task/task.go\<close> and the closed registry of task types of
  \<open>internal/kernel/task/registry.go\<close>: the record with its statuses and error classes, the structural
  check of a new task, the classification of handler errors, registration and lookup.
\<close>

section \<open>Data\<close>

text \<open>A status and an error class are Go strings; \<open>Task_Other\<close> and \<open>Class_Other\<close> are all other strings.\<close>

datatype task_status =
    Task_Queued | Task_Running | Task_Succeeded | Task_Failed | Task_Retry_Scheduled | Task_Cancelled
  | Task_Other string

datatype error_class =
    Class_None | Class_Retryable | Class_NonRetryable | Class_Deadline | Class_Lease_Lost
  | Class_Cancelled | Class_Other string

text \<open>
  The fields of a task, over the type of the attempt counters and of the lease token: a Go
  \<open>Task\<close> has \<open>uint32\<close> counters and a string token, a row of the table integers and a token
  that may be NULL.
\<close>

record ('n, 'l) task_fields =
  t_app_id :: string
  t_task_id :: string
  t_type :: string
  t_status :: task_status
  t_attempt :: 'n
  t_max_attempts :: 'n
  t_deadline :: instant
  t_available_at :: instant
  t_lease_token :: 'l
  t_lease_expires :: "instant option"
  t_idempotency_key :: string
  t_params :: string
  t_error_class :: error_class
  t_created_at :: instant
  t_updated_at :: instant

type_synonym task = "(u32, string) task_fields"
type_synonym task_key = "string \<times> string"

definition task_key_of :: "('n, 'l) task_fields \<Rightarrow> task_key" where
  "task_key_of v = (t_app_id v, t_task_id v)"

definition maxTaskIDBytes :: nat where "maxTaskIDBytes = 128"
definition maxTypeIDBytes :: nat where "maxTypeIDBytes = 128"
definition maxParamsBytes :: nat where "maxParamsBytes = 65536"
definition maxAttempts :: u32 where "maxAttempts = 32"

lemmas task_limits = maxTaskIDBytes_def maxTypeIDBytes_def maxParamsBytes_def maxAttempts_def

section \<open>Structural validation\<close>

text \<open>\<open>appconfig.ValidateAppID\<close>.\<close>

definition ValidateAppID :: "string \<Rightarrow> unit go_result" where
  "ValidateAppID s = (if app_id_pattern s then Inr () else Inl (Sentinel (Appconfig_E Config_Invalid)))"

abbreviation invalid_task :: "go_error + 'a" where
  "invalid_task \<equiv> Inl (Wrapped (Sentinel (Task_E Task_Invalid)))"

definition join_invalid_task :: "go_error \<Rightarrow> go_error" where
  "join_invalid_task e = Joined [Sentinel (Task_E Task_Invalid), e]"

definition ValidateNewTask :: "task \<Rightarrow> unit go_result" where
  "ValidateNewTask v =
     (case ValidateAppID (t_app_id v) of
        Inl e \<Rightarrow> Inl (join_invalid_task e)
      | Inr _ \<Rightarrow>
      if length (t_task_id v) = 0 \<or> maxTaskIDBytes < length (t_task_id v) \<or> \<not> stable_mixed (t_task_id v)
        then invalid_task
      else if length (t_type v) = 0 \<or> maxTypeIDBytes < length (t_type v) then invalid_task
      else if t_status v \<noteq> Task_Queued then invalid_task
      else if t_attempt v \<noteq> 1 then invalid_task
      else if t_max_attempts v < 1 \<or> maxAttempts < t_max_attempts v then invalid_task
      else if is_zero (t_created_at v) \<or> is_zero (t_updated_at v) then invalid_task
      else if is_zero (t_deadline v) \<or> \<not> after (t_deadline v) (t_created_at v) then invalid_task
      else if is_zero (t_available_at v) \<or> before (t_available_at v) (t_created_at v) then invalid_task
      else if \<not> after (t_deadline v) (t_available_at v) then invalid_task
      else if t_lease_token v \<noteq> [] \<or> t_lease_expires v \<noteq> None then invalid_task
      else (case ValidateKey (t_idempotency_key v) of
              Inl e \<Rightarrow> Inl (join_invalid_task e)
            | Inr _ \<Rightarrow>
            if length (t_params v) = 0 \<or> maxParamsBytes < length (t_params v) \<or> \<not> json_valid (t_params v)
              then invalid_task
            else if t_error_class v \<noteq> Class_None then invalid_task
            else Inr ()))"

lemma ValidateKey_iff:
  "ValidateKey k = Inr () \<longleftrightarrow> k \<noteq> [] \<and> length k \<le> 128 \<and> stable_mixed_uncapped k"
  by (auto simp: ValidateKey_def idem_limits)

lemma ValidateAppID_iff: "ValidateAppID s = Inr () \<longleftrightarrow> app_id_pattern s"
  by (simp add: ValidateAppID_def)

lemma ValidateNewTask_iff:
  "ValidateNewTask v = Inr () \<longleftrightarrow>
     app_id_pattern (t_app_id v) \<and> stable_mixed (t_task_id v) \<and>
     t_type v \<noteq> [] \<and> length (t_type v) \<le> 128 \<and> t_status v = Task_Queued \<and> t_attempt v = 1 \<and>
     t_max_attempts v \<noteq> 0 \<and> t_max_attempts v \<le> 32 \<and> t_created_at v \<noteq> 0 \<and> t_updated_at v \<noteq> 0 \<and>
     t_deadline v \<noteq> 0 \<and> t_created_at v < t_deadline v \<and> t_available_at v \<noteq> 0 \<and>
     t_created_at v \<le> t_available_at v \<and> t_available_at v < t_deadline v \<and>
     t_lease_token v = [] \<and> t_lease_expires v = None \<and> ValidateKey (t_idempotency_key v) = Inr () \<and>
     t_params v \<noteq> [] \<and> length (t_params v) \<le> 65536 \<and> json_valid (t_params v) \<and>
     t_error_class v = Class_None"
  by (auto simp: ValidateNewTask_def task_limits ValidateAppID_def stable_mixed_def not_less
      split: sum.splits if_splits)

text \<open>Every rejection is an \<open>ErrInvalidTask\<close> for \<open>errors.Is\<close>.\<close>

lemma ValidateNewTask_error: "ValidateNewTask v = Inl e \<Longrightarrow> err_is e (Task_E Task_Invalid)"
  by (auto simp: ValidateNewTask_def join_invalid_task_def split: sum.splits if_splits)

section \<open>Failure classes\<close>

definition Retryable :: "go_error option \<Rightarrow> go_error option" where
  "Retryable e = map_option Retryable_Error e"

definition ClassifyFailure :: "go_error option \<Rightarrow> error_class" where
  "ClassifyFailure err =
     (case err of
        None \<Rightarrow> Class_None
      | Some e \<Rightarrow>
          if err_is e (Context_E Ctx_DeadlineExceeded) then Class_Deadline
          else if err_as_retryable e then Class_Retryable
          else Class_NonRetryable)"

text \<open>Failure is closed: only an error somebody wrapped with \<open>Retryable\<close> is classified so.\<close>

lemma ClassifyFailure_Retryable:
  "ClassifyFailure (Retryable e) =
     (if e = None then Class_None
      else if opt_is e (Context_E Ctx_DeadlineExceeded) then Class_Deadline else Class_Retryable)"
  by (cases e) (simp_all add: ClassifyFailure_def Retryable_def)

section \<open>The registry of task types\<close>

text \<open>
  A handler is of any type \<open>'h\<close>, a compiled schema of any type \<open>'s\<close>; compilation and
  validation of package \<open>strictschema\<close> over the third-party library are the parameters
  \<open>compile_schema\<close> and \<open>validate_payload\<close>.
\<close>

record 'h type_spec =
  ts_type_id :: string
  ts_params_schema :: string
  ts_allow_retry :: bool
  ts_handler :: "'h option"

record ('h, 's) compiled_type =
  ct_spec :: "'h type_spec"
  ct_schema :: 's

type_synonym ('h, 's) type_registry = "string \<Rightarrow> ('h, 's) compiled_type option"

definition NewTypeRegistry :: "('h, 's) type_registry" where
  "NewTypeRegistry = Map.empty"

definition RegisterType ::
  "(string \<Rightarrow> string \<Rightarrow> 's go_result) \<Rightarrow> 'h type_spec \<Rightarrow> ('h, 's) type_registry
     \<Rightarrow> ('h, 's) type_registry \<times> unit go_result" where
  "RegisterType compile_schema spec reg =
     (if \<not> is_stable_id (ts_type_id spec) \<or> maxTypeIDBytes < length (ts_type_id spec)
        then (reg, Inl (Wrapped (Sentinel (Task_E Task_InvalidTypeSpec))))
      else if ts_handler spec = None then (reg, Inl (Wrapped (Sentinel (Task_E Task_InvalidTypeSpec))))
      else (case compile_schema (ts_type_id spec) (ts_params_schema spec) of
              Inl e \<Rightarrow> (reg, Inl (Joined [Sentinel (Task_E Task_InvalidTypeSpec), e]))
            | Inr schema \<Rightarrow>
                if reg (ts_type_id spec) \<noteq> None then (reg, task_fail Task_DuplicateType)
                else (reg(ts_type_id spec \<mapsto> \<lparr>ct_spec = spec, ct_schema = schema\<rparr>), Inr ())))"

definition LookupType :: "('h, 's) type_registry \<Rightarrow> string \<Rightarrow> 'h type_spec option" where
  "LookupType reg tid = map_option ct_spec (reg tid)"

definition ValidateParams ::
  "('s \<Rightarrow> string \<Rightarrow> unit go_result) \<Rightarrow> ('h, 's) type_registry \<Rightarrow> string \<Rightarrow> string \<Rightarrow> unit go_result" where
  "ValidateParams validate_payload reg tid params =
     (case reg tid of
        None \<Rightarrow> task_fail Task_TypeUnknown
      | Some c \<Rightarrow>
          (case validate_payload (ct_schema c) params of
             Inl _ \<Rightarrow> task_fail Task_InvalidParams
           | Inr _ \<Rightarrow> Inr ()))"

text \<open>What registration guarantees of every entry.\<close>

definition registry_ok :: "(string \<Rightarrow> string \<Rightarrow> 's go_result) \<Rightarrow> ('h, 's) type_registry \<Rightarrow> bool" where
  "registry_ok compile_schema reg \<longleftrightarrow>
     (\<forall>tid c. reg tid = Some c \<longrightarrow>
        ts_type_id (ct_spec c) = tid \<and> is_stable_id tid \<and> ts_handler (ct_spec c) \<noteq> None \<and>
        compile_schema tid (ts_params_schema (ct_spec c)) = Inr (ct_schema c))"

lemma registry_ok_New [simp]: "registry_ok cs NewTypeRegistry"
  by (simp add: registry_ok_def NewTypeRegistry_def)

lemma registry_ok_Register:
  "registry_ok cs reg \<Longrightarrow> RegisterType cs spec reg = (reg', r) \<Longrightarrow> registry_ok cs reg'"
  unfolding registry_ok_def RegisterType_def
  by (auto split: if_splits sum.splits)

lemma RegisterType_keeps:
  "RegisterType cs spec reg = (reg', r) \<Longrightarrow> reg tid = Some c \<Longrightarrow> reg' tid = Some c"
  unfolding RegisterType_def by (auto split: if_splits sum.splits)

end
