(* ===== verification/Task_Store.thy ===== *)
theory Task_Store
  imports Task_Model Sql_Table
begin

text \<open>
  \<open>internal/storage/sqlite/task_store.go\<close> over the table \<open>tasks\<close> of \<open>schema.sql\<close>: scanning a row,
  the claim, the lease renewal, the terminal and retry transitions of a live lease, the recovery
  transitions of an expired one, cancellation of a waiting task, and the queries. Each operation is
  one SQL statement on the table; the step relation \<open>task_step\<close> lets any callers interleave them.
\<close>

section \<open>Rows\<close>

type_synonym task_row = "(int, string option) task_fields"
type_synonym task_table = "task_row list"

text \<open>The \<open>CHECK\<close> constraints of table \<open>tasks\<close>.\<close>

definition task_row_check :: "sql_driver \<Rightarrow> task_row \<Rightarrow> bool" where
  "task_row_check drv r \<longleftrightarrow>
     1 \<le> sql_length (t_type r) \<and> sql_length (t_type r) \<le> 128 \<and>
     (case t_status r of Task_Other _ \<Rightarrow> False | _ \<Rightarrow> True) \<and>
     0 < t_attempt r \<and> 1 \<le> t_max_attempts r \<and> t_max_attempts r \<le> 32 \<and>
     1 \<le> sql_length (t_idempotency_key r) \<and> sql_length (t_idempotency_key r) \<le> 128 \<and>
     sql_json_valid drv (t_params r) \<and>
     (case t_error_class r of Class_Other _ \<Rightarrow> False | _ \<Rightarrow> True) \<and>
     t_attempt r \<le> t_max_attempts r \<and>
     (t_status r = Task_Running \<longleftrightarrow> t_lease_token r \<noteq> None) \<and>
     (t_lease_token r = None \<or> t_lease_expires r \<noteq> None) \<and>
     julianday drv (t_available_at r) < julianday drv (t_deadline r)"

definition task_table_ok :: "sql_driver \<Rightarrow> task_table \<Rightarrow> bool" where
  "task_table_ok drv = table_ok (task_row_check drv) task_key_of"

text \<open>\<open>scanTask\<close>: \<open>coalesce\<close> reads a NULL token as the empty string.\<close>

definition scanTask :: "task_row \<Rightarrow> task go_result" where
  "scanTask r =
     (if t_attempt r < 1 \<or> t_max_attempts r < 1 \<or> 32 < t_max_attempts r \<or> t_max_attempts r < t_attempt r
      then task_fail Task_Invalid
      else Inr
        \<lparr>t_app_id = t_app_id r, t_task_id = t_task_id r, t_type = t_type r, t_status = t_status r,
         t_attempt = word_of_int (t_attempt r), t_max_attempts = word_of_int (t_max_attempts r),
         t_deadline = t_deadline r, t_available_at = t_available_at r,
         t_lease_token = (case t_lease_token r of None \<Rightarrow> [] | Some l \<Rightarrow> l),
         t_lease_expires = t_lease_expires r, t_idempotency_key = t_idempotency_key r,
         t_params = t_params r, t_error_class = t_error_class r, t_created_at = t_created_at r,
         t_updated_at = t_updated_at r\<rparr>)"

fun scanTasks :: "task_row list \<Rightarrow> task list go_result" where
  "scanTasks [] = Inr []"
| "scanTasks (r # rs) =
     (case scanTask r of
        Inl e \<Rightarrow> Inl (Wrapped e)
      | Inr v \<Rightarrow> and_then (scanTasks rs) (\<lambda>vs. Inr (v # vs)))"

definition task_row_of :: "task \<Rightarrow> task_row" where
  "task_row_of v =
     \<lparr>t_app_id = t_app_id v, t_task_id = t_task_id v, t_type = t_type v, t_status = t_status v,
      t_attempt = uint (t_attempt v), t_max_attempts = uint (t_max_attempts v),
      t_deadline = t_deadline v, t_available_at = t_available_at v, t_lease_token = None,
      t_lease_expires = None, t_idempotency_key = t_idempotency_key v, t_params = t_params v,
      t_error_class = t_error_class v, t_created_at = t_created_at v, t_updated_at = t_updated_at v\<rparr>"

section \<open>Checks and lease failures\<close>

definition validateTaskIdentity :: "string \<Rightarrow> string \<Rightarrow> unit go_result" where
  "validateTaskIdentity app tid =
     (if length app = 0 \<or> 128 < length app \<or> length tid = 0 \<or> 128 < length tid \<or> \<not> stable_mixed tid
      then task_fail Task_Invalid else Inr ())"

definition validateFailureClass :: "error_class \<Rightarrow> unit go_result" where
  "validateFailureClass c =
     (case c of
        Class_Retryable \<Rightarrow> Inr () | Class_NonRetryable \<Rightarrow> Inr () | Class_Deadline \<Rightarrow> Inr ()
      | Class_Lease_Lost \<Rightarrow> Inr () | Class_Cancelled \<Rightarrow> Inr ()
      | _ \<Rightarrow> task_fail Task_Invalid)"

definition classifyLeaseFailure :: "task_key \<Rightarrow> task_table \<Rightarrow> go_error" where
  "classifyLeaseFailure k t =
     (case select_key task_key_of k t of
        None \<Rightarrow> Sentinel (Task_E Task_InvalidTransition)
      | Some r \<Rightarrow>
          if t_status r = Task_Running then Sentinel (Task_E Task_LeaseLost)
          else Sentinel (Task_E Task_InvalidTransition))"

text \<open>The \<open>WHERE\<close> clause of the lease-guarded writes: the lease must be unexpired, or, on the
  recovery path, expired.\<close>

datatype lease_state = Live | Dead

fun lease_where :: "sql_driver \<Rightarrow> lease_state \<Rightarrow> task_key \<Rightarrow> string \<Rightarrow> instant \<Rightarrow> task_row \<Rightarrow> bool" where
  "lease_where drv ls k token at r =
     (task_key_of r = k \<and> t_status r = Task_Running \<and> t_lease_token r = Some token \<and>
      (case t_lease_expires r of
         None \<Rightarrow> False
       | Some e \<Rightarrow>
           (case ls of
              Live \<Rightarrow> julianday drv at \<le> julianday drv e
            | Dead \<Rightarrow> julianday drv e < julianday drv at)))"

declare lease_where.simps [simp del]

text \<open>The \<open>SET\<close> clauses that give the lease up.\<close>

datatype outcome =
    Outcome_Succeeded | Outcome_Failed error_class | Outcome_Cancelled | Outcome_Retry instant

fun outcome_set :: "outcome \<Rightarrow> instant \<Rightarrow> task_row \<Rightarrow> task_row" where
  "outcome_set Outcome_Succeeded at r =
     r\<lparr>t_status := Task_Succeeded, t_lease_token := None, t_lease_expires := None,
       t_error_class := Class_None, t_updated_at := at\<rparr>"
| "outcome_set (Outcome_Failed c) at r =
     r\<lparr>t_status := Task_Failed, t_lease_token := None, t_lease_expires := None,
       t_error_class := c, t_updated_at := at\<rparr>"
| "outcome_set Outcome_Cancelled at r =
     r\<lparr>t_status := Task_Cancelled, t_lease_token := None, t_lease_expires := None,
       t_error_class := Class_Cancelled, t_updated_at := at\<rparr>"
| "outcome_set (Outcome_Retry next) at r =
     r\<lparr>t_status := Task_Retry_Scheduled, t_attempt := t_attempt r + 1, t_lease_token := None,
       t_lease_expires := None, t_available_at := next, t_updated_at := at\<rparr>"

text \<open>\<open>leaseGuardedWrite\<close> and what every caller makes of the row count.\<close>

definition leaseGuardedWrite ::
  "sql_driver \<Rightarrow> (task_row \<Rightarrow> bool) \<Rightarrow> (task_row \<Rightarrow> task_row) \<Rightarrow> task_key \<Rightarrow> task_table
     \<Rightarrow> task_table \<times> unit go_result" where
  "leaseGuardedWrite drv P f k t =
     (case exec_update (task_row_check drv) P f t of
        None \<Rightarrow> (t, Inl constraint_error)
      | Some (t', n) \<Rightarrow> if n \<noteq> 1 then (t', Inl (classifyLeaseFailure k t')) else (t', Inr ()))"

section \<open>The operations\<close>

definition CreateTask :: "sql_driver \<Rightarrow> task \<Rightarrow> task_table \<Rightarrow> task_table \<times> unit go_result" where
  "CreateTask drv v t =
     (case ValidateNewTask v of
        Inl e \<Rightarrow> (t, Inl e)
      | Inr _ \<Rightarrow>
          (case exec_insert (task_row_check drv) task_key_of (task_row_of v) t of
             None \<Rightarrow>
               if isUniqueConstraint constraint_error then (t, task_fail Task_Exists)
               else (t, Inl constraint_error)
           | Some t' \<Rightarrow> (t', Inr ())))"

text \<open>The rows \<open>ClaimTask\<close> may take, and what it writes.\<close>

definition claim_where :: "sql_driver \<Rightarrow> task_key \<Rightarrow> instant \<Rightarrow> task_row \<Rightarrow> bool" where
  "claim_where drv k at r \<longleftrightarrow>
     task_key_of r = k \<and> t_status r \<in> {Task_Queued, Task_Retry_Scheduled} \<and> t_lease_token r = None \<and>
     julianday drv (t_available_at r) \<le> julianday drv at"

definition claim_set :: "string \<Rightarrow> instant \<Rightarrow> instant \<Rightarrow> task_row \<Rightarrow> task_row" where
  "claim_set token at expires r =
     r\<lparr>t_status := Task_Running, t_lease_token := Some token, t_lease_expires := Some expires,
       t_updated_at := at\<rparr>"

text \<open>The row of \<open>UPDATE ... RETURNING\<close>, when the statement changed one.\<close>

definition returning :: "task_key \<Rightarrow> nat \<Rightarrow> task_table \<Rightarrow> task_row option" where
  "returning k n t = (if n = 0 then None else select_key task_key_of k t)"

definition ClaimTask ::
  "sql_driver \<Rightarrow> string \<Rightarrow> string \<Rightarrow> string \<Rightarrow> instant \<Rightarrow> instant \<Rightarrow> task_table
     \<Rightarrow> task_table \<times> task go_result" where
  "ClaimTask drv app tid token started expires t =
     (case validateTaskIdentity app tid of
        Inl e \<Rightarrow> (t, Inl e)
      | Inr _ \<Rightarrow>
        if token = [] \<or> is_zero started \<or> \<not> after expires started then (t, task_fail Task_Invalid)
        else
          (case exec_update (task_row_check drv) (claim_where drv (app, tid) started)
                  (claim_set token started expires) t of
             None \<Rightarrow> (t, Inl constraint_error)
           | Some (t', n) \<Rightarrow>
               (case returning (app, tid) n t' of
                  None \<Rightarrow> (t', task_fail Task_InvalidTransition)
                | Some r \<Rightarrow>
                    (case scanTask r of
                       Inl e \<Rightarrow> (t', Inl (Wrapped e))
                     | Inr v \<Rightarrow> (t', Inr v)))))"

definition RenewTaskLease ::
  "sql_driver \<Rightarrow> task \<Rightarrow> instant \<Rightarrow> instant \<Rightarrow> task_table \<Rightarrow> task_table \<times> unit go_result" where
  "RenewTaskLease drv v renewed expires t =
     (case validateTaskIdentity (t_app_id v) (t_task_id v) of
        Inl e \<Rightarrow> (t, Inl e)
      | Inr _ \<Rightarrow>
        if t_status v \<noteq> Task_Running \<or> t_lease_token v = [] \<or> is_zero renewed \<or> \<not> after expires renewed
        then (t, task_fail Task_Invalid)
        else leaseGuardedWrite drv (lease_where drv Live (task_key_of v) (t_lease_token v) renewed)
               (\<lambda>r. r\<lparr>t_lease_expires := Some expires, t_updated_at := renewed\<rparr>) (task_key_of v) t)"

definition CompleteTask ::
  "sql_driver \<Rightarrow> task \<Rightarrow> instant \<Rightarrow> task_table \<Rightarrow> task_table \<times> unit go_result" where
  "CompleteTask drv v completed t =
     (case validateTaskIdentity (t_app_id v) (t_task_id v) of
        Inl e \<Rightarrow> (t, Inl e)
      | Inr _ \<Rightarrow>
        if t_status v \<noteq> Task_Running \<or> t_lease_token v = [] \<or> is_zero completed
        then (t, task_fail Task_Invalid)
        else leaseGuardedWrite drv (lease_where drv Live (task_key_of v) (t_lease_token v) completed)
               (outcome_set Outcome_Succeeded completed) (task_key_of v) t)"

definition FailTask ::
  "sql_driver \<Rightarrow> task \<Rightarrow> error_class \<Rightarrow> instant \<Rightarrow> task_table \<Rightarrow> task_table \<times> unit go_result" where
  "FailTask drv v cls completed t =
     (case validateTaskIdentity (t_app_id v) (t_task_id v) of
        Inl e \<Rightarrow> (t, Inl e)
      | Inr _ \<Rightarrow>
     (case validateFailureClass cls of
        Inl e \<Rightarrow> (t, Inl e)
      | Inr _ \<Rightarrow>
        if t_status v \<noteq> Task_Running \<or> t_lease_token v = [] \<or> is_zero completed
        then (t, task_fail Task_Invalid)
        else leaseGuardedWrite drv (lease_where drv Live (task_key_of v) (t_lease_token v) completed)
               (outcome_set (Outcome_Failed cls) completed) (task_key_of v) t))"

definition RetryTask ::
  "sql_driver \<Rightarrow> task \<Rightarrow> instant \<Rightarrow> instant \<Rightarrow> task_table \<Rightarrow> task_table \<times> unit go_result" where
  "RetryTask drv v next completed t =
     (case validateTaskIdentity (t_app_id v) (t_task_id v) of
        Inl e \<Rightarrow> (t, Inl e)
      | Inr _ \<Rightarrow>
        if t_status v \<noteq> Task_Running \<or> t_lease_token v = [] \<or> is_zero completed
           \<or> \<not> after next completed \<or> t_max_attempts v \<le> t_attempt v
        then (t, task_fail Task_Invalid)
        else leaseGuardedWrite drv (lease_where drv Live (task_key_of v) (t_lease_token v) completed)
               (outcome_set (Outcome_Retry next) completed) (task_key_of v) t)"

definition CancelRunningTask ::
  "sql_driver \<Rightarrow> task \<Rightarrow> instant \<Rightarrow> task_table \<Rightarrow> task_table \<times> unit go_result" where
  "CancelRunningTask drv v completed t =
     (case validateTaskIdentity (t_app_id v) (t_task_id v) of
        Inl e \<Rightarrow> (t, Inl e)
      | Inr _ \<Rightarrow>
        if t_status v \<noteq> Task_Running \<or> t_lease_token v = [] \<or> is_zero completed
        then (t, task_fail Task_Invalid)
        else leaseGuardedWrite drv (lease_where drv Live (task_key_of v) (t_lease_token v) completed)
               (outcome_set Outcome_Cancelled completed) (task_key_of v) t)"

definition RetryDeadTask ::
  "sql_driver \<Rightarrow> task \<Rightarrow> instant \<Rightarrow> instant \<Rightarrow> task_table \<Rightarrow> task_table \<times> unit go_result" where
  "RetryDeadTask drv v next completed t =
     (case validateTaskIdentity (t_app_id v) (t_task_id v) of
        Inl e \<Rightarrow> (t, Inl e)
      | Inr _ \<Rightarrow>
        if t_status v \<noteq> Task_Running \<or> t_lease_token v = [] \<or> is_zero completed
           \<or> \<not> after next completed \<or> t_max_attempts v \<le> t_attempt v
        then (t, task_fail Task_Invalid)
        else leaseGuardedWrite drv (lease_where drv Dead (task_key_of v) (t_lease_token v) completed)
               (outcome_set (Outcome_Retry next) completed) (task_key_of v) t)"

definition FailDeadTask ::
  "sql_driver \<Rightarrow> task \<Rightarrow> error_class \<Rightarrow> instant \<Rightarrow> task_table \<Rightarrow> task_table \<times> unit go_result" where
  "FailDeadTask drv v cls completed t =
     (case validateTaskIdentity (t_app_id v) (t_task_id v) of
        Inl e \<Rightarrow> (t, Inl e)
      | Inr _ \<Rightarrow>
     (case validateFailureClass cls of
        Inl e \<Rightarrow> (t, Inl e)
      | Inr _ \<Rightarrow>
        if t_status v \<noteq> Task_Running \<or> t_lease_token v = [] \<or> is_zero completed
        then (t, task_fail Task_Invalid)
        else leaseGuardedWrite drv (lease_where drv Dead (task_key_of v) (t_lease_token v) completed)
               (outcome_set (Outcome_Failed cls) completed) (task_key_of v) t))"

definition GetTask :: "string \<Rightarrow> string \<Rightarrow> task_table \<Rightarrow> task go_result" where
  "GetTask app tid t =
     (case validateTaskIdentity app tid of
        Inl e \<Rightarrow> Inl e
      | Inr _ \<Rightarrow>
          (case select_key task_key_of (app, tid) t of
             None \<Rightarrow> task_fail Task_NotFound
           | Some r \<Rightarrow> (case scanTask r of Inl e \<Rightarrow> Inl (Wrapped e) | Inr v \<Rightarrow> Inr v)))"

definition waiting_where :: "task_key \<Rightarrow> task_row \<Rightarrow> bool" where
  "waiting_where k r \<longleftrightarrow> task_key_of r = k \<and> t_status r \<in> {Task_Queued, Task_Retry_Scheduled}"

text \<open>\<open>CancelQueuedTask\<close>: the task as it then is, and whether this call cancelled it.\<close>

definition CancelQueuedTask ::
  "sql_driver \<Rightarrow> string \<Rightarrow> string \<Rightarrow> instant \<Rightarrow> task_table \<Rightarrow> task_table \<times> (task \<times> bool) go_result" where
  "CancelQueuedTask drv app tid completed t =
     (case validateTaskIdentity app tid of
        Inl e \<Rightarrow> (t, Inl e)
      | Inr _ \<Rightarrow>
        if is_zero completed then (t, task_fail Task_Invalid)
        else
          (case exec_update (task_row_check drv) (waiting_where (app, tid))
                  (outcome_set Outcome_Cancelled completed) t of
             None \<Rightarrow> (t, Inl constraint_error)
           | Some (t', n) \<Rightarrow>
               (case returning (app, tid) n t' of
                  None \<Rightarrow> (t', and_then (GetTask app tid t') (\<lambda>v. Inr (v, False)))
                | Some r \<Rightarrow>
                    (case scanTask r of
                       Inl e \<Rightarrow> (t', Inl (Wrapped e))
                     | Inr v \<Rightarrow> (t', Inr (v, True))))))"

definition due_where :: "sql_driver \<Rightarrow> instant \<Rightarrow> task_row \<Rightarrow> bool" where
  "due_where drv now r \<longleftrightarrow>
     t_status r \<in> {Task_Queued, Task_Retry_Scheduled} \<and> t_lease_token r = None \<and>
     julianday drv (t_available_at r) \<le> julianday drv now"

definition dead_where :: "sql_driver \<Rightarrow> instant \<Rightarrow> task_row \<Rightarrow> bool" where
  "dead_where drv now r \<longleftrightarrow>
     t_status r = Task_Running \<and> t_lease_token r \<noteq> None \<and>
     (case t_lease_expires r of None \<Rightarrow> False | Some e \<Rightarrow> julianday drv e < julianday drv now)"

text \<open>The \<open>ORDER BY\<close> keys; rows with equal keys stay in insertion order.\<close>

definition due_order :: "sql_driver \<Rightarrow> task_row \<Rightarrow> int \<times> int \<times> string" where
  "due_order drv r = (julianday drv (t_available_at r), julianday drv (t_created_at r), t_task_id r)"

definition dead_order :: "sql_driver \<Rightarrow> task_row \<Rightarrow> int \<times> int \<times> string" where
  "dead_order drv r =
     ((case t_lease_expires r of None \<Rightarrow> 0 | Some e \<Rightarrow> julianday drv e),
      julianday drv (t_created_at r), t_task_id r)"

definition ListDueTasks :: "sql_driver \<Rightarrow> instant \<Rightarrow> int \<Rightarrow> task_table \<Rightarrow> task list go_result" where
  "ListDueTasks drv now limit t =
     (if is_zero now \<or> limit < 1 \<or> 1000 < limit then task_fail Task_Invalid
      else scanTasks (take (nat limit) (sort_key (due_order drv) (filter (due_where drv now) t))))"

definition ListDeadTasks :: "sql_driver \<Rightarrow> instant \<Rightarrow> int \<Rightarrow> task_table \<Rightarrow> task list go_result" where
  "ListDeadTasks drv now limit t =
     (if is_zero now \<or> limit < 1 \<or> 1000 < limit then task_fail Task_Invalid
      else scanTasks (take (nat limit) (sort_key (dead_order drv) (filter (dead_where drv now) t))))"

definition ListTasks :: "sql_driver \<Rightarrow> string \<Rightarrow> int \<Rightarrow> task_table \<Rightarrow> task list go_result" where
  "ListTasks drv app limit t =
     (if length app = 0 \<or> 128 < length app \<or> limit < 1 \<or> 1000 < limit then task_fail Task_Invalid
      else scanTasks (take (nat limit)
        (sort_key (\<lambda>r. (julianday drv (t_created_at r), t_task_id r)) (filter (\<lambda>r. t_app_id r = app) t))))"

section \<open>The writes behind the operations\<close>

text \<open>
  Every operation that changes a row does so by one of four guarded writes. The operations are
  reduced to them once, and every invariant is then proved for the four.
\<close>

datatype task_write =
    W_Claim task_key string instant instant
  | W_Renew task_key string instant instant
  | W_Outcome lease_state task_key string instant outcome
  | W_Cancel task_key instant

fun write_key :: "task_write \<Rightarrow> task_key" where
  "write_key (W_Claim k _ _ _) = k"
| "write_key (W_Renew k _ _ _) = k"
| "write_key (W_Outcome _ k _ _ _) = k"
| "write_key (W_Cancel k _) = k"

fun write_where :: "sql_driver \<Rightarrow> task_write \<Rightarrow> task_row \<Rightarrow> bool" where
  "write_where drv (W_Claim k token at expires) = claim_where drv k at"
| "write_where drv (W_Renew k token at expires) = lease_where drv Live k token at"
| "write_where drv (W_Outcome ls k token at oc) = lease_where drv ls k token at"
| "write_where drv (W_Cancel k at) = waiting_where k"

fun write_set :: "task_write \<Rightarrow> task_row \<Rightarrow> task_row" where
  "write_set (W_Claim k token at expires) = claim_set token at expires"
| "write_set (W_Renew k token at expires) = (\<lambda>r. r\<lparr>t_lease_expires := Some expires, t_updated_at := at\<rparr>)"
| "write_set (W_Outcome ls k token at oc) = outcome_set oc at"
| "write_set (W_Cancel k at) = outcome_set Outcome_Cancelled at"

fun write_token_ok :: "task_write \<Rightarrow> bool" where
  "write_token_ok (W_Claim k token at expires) = (token \<noteq> [])"
| "write_token_ok _ = True"

lemma outcome_set_key [simp]: "task_key_of (outcome_set oc at r) = task_key_of r"
  by (cases oc) (simp_all add: task_key_of_def)

lemma outcome_set_released [simp]:
  "t_lease_token (outcome_set oc at r) = None" "t_lease_expires (outcome_set oc at r) = None"
  "t_status (outcome_set oc at r) \<noteq> Task_Running"
  by (cases oc; simp)+

lemma write_set_key [simp]: "task_key_of (write_set w r) = task_key_of r"
  by (cases w) (simp_all add: claim_set_def task_key_of_def outcome_set_key[unfolded task_key_of_def])

lemma lease_whereD:
  assumes "lease_where drv ls k token at r"
  shows "task_key_of r = k" and "t_status r = Task_Running" and "t_lease_token r = Some token"
  using assms by (auto simp: lease_where.simps)

interpretation task_writes: keyed_update task_key_of write_key "write_where drv" write_set for drv
proof
  fix a r
  show "write_where drv a r \<Longrightarrow> task_key_of r = write_key a"
    by (cases a) (auto simp: claim_where_def waiting_where_def dest: lease_whereD)
qed simp

text \<open>The writes that give up a lease: their guard demands a running row, their change leaves none.\<close>

type_synonym release_args = "lease_state \<times> task_key \<times> string \<times> instant \<times> outcome"

definition release_where :: "sql_driver \<Rightarrow> release_args \<Rightarrow> task_row \<Rightarrow> bool" where
  "release_where drv a = (case a of (ls, k, token, at, oc) \<Rightarrow> lease_where drv ls k token at)"

definition release_set :: "release_args \<Rightarrow> task_row \<Rightarrow> task_row" where
  "release_set a = (case a of (ls, k, token, at, oc) \<Rightarrow> outcome_set oc at)"

interpretation task_release: lease_release task_key_of "\<lambda>a. fst (snd a)" "release_where drv" release_set
  "\<lambda>r. t_status r = Task_Running" for drv
  by unfold_locales (auto simp: release_where_def release_set_def dest: lease_whereD)

section \<open>Interleavings\<close>

inductive task_step :: "sql_driver \<Rightarrow> task_table \<Rightarrow> task_table \<Rightarrow> bool" for drv where
  create: "CreateTask drv v t = (t', r) \<Longrightarrow> task_step drv t t'"
| claim: "ClaimTask drv app tid token started expires t = (t', r1) \<Longrightarrow> task_step drv t t'"
| renew: "RenewTaskLease drv v renewed expires t = (t', r) \<Longrightarrow> task_step drv t t'"
| complete: "CompleteTask drv v at t = (t', r) \<Longrightarrow> task_step drv t t'"
| fail: "FailTask drv v cls at t = (t', r) \<Longrightarrow> task_step drv t t'"
| retry: "RetryTask drv v next at t = (t', r) \<Longrightarrow> task_step drv t t'"
| cancel_running: "CancelRunningTask drv v at t = (t', r) \<Longrightarrow> task_step drv t t'"
| cancel_queued: "CancelQueuedTask drv app tid at t = (t', r2) \<Longrightarrow> task_step drv t t'"
| retry_dead: "RetryDeadTask drv v next at t = (t', r) \<Longrightarrow> task_step drv t t'"
| fail_dead: "FailDeadTask drv v cls at t = (t', r) \<Longrightarrow> task_step drv t t'"

definition writes :: "sql_driver \<Rightarrow> task_table \<Rightarrow> task_table \<Rightarrow> bool" where
  "writes drv t t' \<longleftrightarrow>
     t' = t \<or> (\<exists>w n. write_token_ok w \<and>
       exec_update (task_row_check drv) (write_where drv w) (write_set w) t = Some (t', n))"

lemma writes_refl [simp]: "writes drv t t"
  by (simp add: writes_def)

lemma writesI:
  "exec_update (task_row_check drv) (write_where drv w) (write_set w) t = Some (t', n) \<Longrightarrow>
     write_token_ok w \<Longrightarrow> writes drv t t'"
  by (auto simp: writes_def)

lemma leaseGuardedWrite_writes:
  assumes "leaseGuardedWrite drv (write_where drv w) (write_set w) k t = (t', r)" and "write_token_ok w"
  shows "writes drv t t'"
  using assms unfolding leaseGuardedWrite_def
  by (auto split: option.splits if_splits intro: writesI)

lemmas leaseGuardedWrite_renew = leaseGuardedWrite_writes[where w = "W_Renew k token at expires" for k token at expires, simplified]
lemmas leaseGuardedWrite_outcome = leaseGuardedWrite_writes[where w = "W_Outcome ls k token at oc" for ls k token at oc, simplified]

lemma RenewTaskLease_writes: "RenewTaskLease drv v renewed expires t = (t', r) \<Longrightarrow> writes drv t t'"
  by (auto simp: RenewTaskLease_def split: sum.splits if_splits intro: leaseGuardedWrite_renew)

lemma CompleteTask_writes: "CompleteTask drv v at t = (t', r) \<Longrightarrow> writes drv t t'"
  by (auto simp: CompleteTask_def split: sum.splits if_splits intro: leaseGuardedWrite_outcome)

lemma FailTask_writes: "FailTask drv v cls at t = (t', r) \<Longrightarrow> writes drv t t'"
  by (auto simp: FailTask_def split: sum.splits if_splits intro: leaseGuardedWrite_outcome)

lemma RetryTask_writes: "RetryTask drv v next at t = (t', r) \<Longrightarrow> writes drv t t'"
  by (auto simp: RetryTask_def split: sum.splits if_splits intro: leaseGuardedWrite_outcome)

lemma CancelRunningTask_writes: "CancelRunningTask drv v at t = (t', r) \<Longrightarrow> writes drv t t'"
  by (auto simp: CancelRunningTask_def split: sum.splits if_splits intro: leaseGuardedWrite_outcome)

lemma RetryDeadTask_writes: "RetryDeadTask drv v next at t = (t', r) \<Longrightarrow> writes drv t t'"
  by (auto simp: RetryDeadTask_def split: sum.splits if_splits intro: leaseGuardedWrite_outcome)

lemma FailDeadTask_writes: "FailDeadTask drv v cls at t = (t', r) \<Longrightarrow> writes drv t t'"
  by (auto simp: FailDeadTask_def split: sum.splits if_splits intro: leaseGuardedWrite_outcome)

lemma ClaimTask_writes: "ClaimTask drv app tid token started expires t = (t', r) \<Longrightarrow> writes drv t t'"
  unfolding ClaimTask_def
  by (auto split: sum.splits if_splits option.splits
      intro: writesI[where w = "W_Claim (app, tid) token started expires"])

lemma CancelQueuedTask_writes: "CancelQueuedTask drv app tid at t = (t', r) \<Longrightarrow> writes drv t t'"
  unfolding CancelQueuedTask_def
  by (auto split: sum.splits if_splits option.splits intro: writesI[where w = "W_Cancel (app, tid) at"])

lemmas task_writes_facts =
  RenewTaskLease_writes CompleteTask_writes FailTask_writes RetryTask_writes CancelRunningTask_writes
  RetryDeadTask_writes FailDeadTask_writes ClaimTask_writes CancelQueuedTask_writes

lemma CreateTask_cases:
  assumes "CreateTask drv v t = (t', r)"
  obtains (refused) e where "t' = t" and "r = Inl e"
  | (created) "ValidateNewTask v = Inr ()" and "r = Inr ()"
      and "exec_insert (task_row_check drv) task_key_of (task_row_of v) t = Some t'"
proof (cases "ValidateNewTask v")
  case (Inl e)
  then show thesis using assms by (intro refused[of e]) (simp_all add: CreateTask_def)
next
  case (Inr u)
  then have eq: "CreateTask drv v t =
      (case exec_insert (task_row_check drv) task_key_of (task_row_of v) t of
         None \<Rightarrow> (t, task_fail Task_Exists) | Some t' \<Rightarrow> (t', Inr ()))"
    by (simp add: CreateTask_def)
  show thesis
  proof (cases "exec_insert (task_row_check drv) task_key_of (task_row_of v) t")
    case None
    then show thesis using assms eq by (intro refused[of "Sentinel (Task_E Task_Exists)"]) simp_all
  next
    case (Some t2)
    then show thesis using assms eq Inr by (intro created) simp_all
  qed
qed

lemma task_step_cases:
  assumes "task_step drv t t'"
  obtains (written) "writes drv t t'"
  | (created) v where "ValidateNewTask v = Inr ()"
      and "exec_insert (task_row_check drv) task_key_of (task_row_of v) t = Some t'"
  using assms
proof (cases rule: task_step.cases)
  case (create v r)
  then show ?thesis
    using that by (cases rule: CreateTask_cases) auto
qed (use that in \<open>blast dest: task_writes_facts\<close>)+

section \<open>The invariant of the table\<close>

definition task_row_valid :: "task_row \<Rightarrow> bool" where
  "task_row_valid r \<longleftrightarrow>
     validateTaskIdentity (t_app_id r) (t_task_id r) = Inr () \<and> t_lease_token r \<noteq> Some []"

definition task_store_ok :: "sql_driver \<Rightarrow> task_table \<Rightarrow> bool" where
  "task_store_ok drv t \<longleftrightarrow> task_table_ok drv t \<and> list_all task_row_valid t"

lemma task_store_okD:
  assumes "task_store_ok drv t"
  shows "distinct (map task_key_of t)" and "r \<in> set t \<Longrightarrow> task_row_check drv r"
    and "r \<in> set t \<Longrightarrow> task_row_valid r"
  using assms by (auto simp: task_store_ok_def task_table_ok_def table_ok_def list_all_iff)

lemma task_store_ok_Nil [simp]: "task_store_ok drv []"
  by (simp add: task_store_ok_def task_table_ok_def)

lemma write_set_identity [simp]:
  "t_app_id (write_set w r) = t_app_id r" "t_task_id (write_set w r) = t_task_id r"
  using write_set_key[of w r] by (simp_all add: task_key_of_def)

lemma write_set_valid: "write_token_ok w \<Longrightarrow> task_row_valid r \<Longrightarrow> task_row_valid (write_set w r)"
  by (cases w) (auto simp: task_row_valid_def claim_set_def outcome_set_key[unfolded task_key_of_def]
      write_set_identity[of "W_Outcome _ _ _ _ _", simplified] write_set_identity[of "W_Cancel _ _", simplified])

lemma writes_ok:
  assumes "writes drv t t'" and "task_store_ok drv t"
  shows "task_store_ok drv t'"
proof (cases "t' = t")
  case False
  then obtain w n where w: "write_token_ok w"
    and u: "exec_update (task_row_check drv) (write_where drv w) (write_set w) t = Some (t', n)"
    using assms(1) by (auto simp: writes_def)
  have "task_table_ok drv t'"
    using task_writes.ok_kept[OF _ u] assms(2) by (simp add: task_store_ok_def task_table_ok_def)
  moreover have "list_all task_row_valid t'"
    using u w assms(2) write_set_valid
    by (auto simp: exec_update_Some task_store_ok_def list_all_iff set_update_where)
  ultimately show ?thesis by (simp add: task_store_ok_def)
qed (use assms in simp)

lemma app_id_pattern_length: "app_id_pattern s \<Longrightarrow> s \<noteq> [] \<and> length s \<le> 128"
  by (cases s) auto

lemma new_task_row_valid: "ValidateNewTask v = Inr () \<Longrightarrow> task_row_valid (task_row_of v)"
  by (auto simp: ValidateNewTask_iff task_row_valid_def task_row_of_def validateTaskIdentity_def
      stable_mixed_def dest: app_id_pattern_length)

lemma task_step_ok: "task_step drv t t' \<Longrightarrow> task_store_ok drv t \<Longrightarrow> task_store_ok drv t'"
proof (erule task_step_cases)
  fix v
  assume "ValidateNewTask v = Inr ()" and ok: "task_store_ok drv t"
    and i: "exec_insert (task_row_check drv) task_key_of (task_row_of v) t = Some t'"
  then have "task_row_valid (task_row_of v)" and "t' = t @ [task_row_of v]"
    by (auto simp: new_task_row_valid exec_insert_Some)
  then show "task_store_ok drv t'"
    using ok exec_insert_ok[OF _ i] by (auto simp: task_store_ok_def task_table_ok_def)
qed (rule writes_ok)

section \<open>The life cycle of a task, abstractly\<close>

text \<open>
  What a caller may rely on: a task waits with an attempt number, is held under a lease token, or is
  done. The attempt number grows only when a held task is put back, and never beyond its maximum.
\<close>

datatype abs_task = Abs_Waiting int int | Abs_Held int int string | Abs_Done task_status

inductive abs_task_step :: "abs_task \<Rightarrow> abs_task \<Rightarrow> bool" where
  acquire: "token \<noteq> [] \<Longrightarrow> abs_task_step (Abs_Waiting n m) (Abs_Held n m token)"
| renew: "abs_task_step (Abs_Held n m token) (Abs_Held n m token)"
| put_back: "n < m \<Longrightarrow> abs_task_step (Abs_Held n m token) (Abs_Waiting (n + 1) m)"
| finish: "st \<in> {Task_Succeeded, Task_Failed, Task_Cancelled} \<Longrightarrow>
    abs_task_step (Abs_Held n m token) (Abs_Done st)"
| cancel: "abs_task_step (Abs_Waiting n m) (Abs_Done Task_Cancelled)"

inductive_simps abs_task_step_simps [simp]:
  "abs_task_step (Abs_Waiting n m) a" "abs_task_step (Abs_Held n m token) a" "abs_task_step (Abs_Done st) a"

definition abs_row :: "task_row \<Rightarrow> abs_task" where
  "abs_row r =
     (case t_status r of
        Task_Queued \<Rightarrow> Abs_Waiting (t_attempt r) (t_max_attempts r)
      | Task_Retry_Scheduled \<Rightarrow> Abs_Waiting (t_attempt r) (t_max_attempts r)
      | Task_Running \<Rightarrow> Abs_Held (t_attempt r) (t_max_attempts r)
          (case t_lease_token r of None \<Rightarrow> [] | Some token \<Rightarrow> token)
      | st \<Rightarrow> Abs_Done st)"

text \<open>The fields no operation changes.\<close>

definition same_task :: "task_row \<Rightarrow> task_row \<Rightarrow> bool" where
  "same_task r r' \<longleftrightarrow>
     task_key_of r' = task_key_of r \<and> t_type r' = t_type r \<and> t_deadline r' = t_deadline r \<and>
     t_max_attempts r' = t_max_attempts r \<and> t_idempotency_key r' = t_idempotency_key r \<and>
     t_params r' = t_params r \<and> t_created_at r' = t_created_at r"

lemma same_task_write: "same_task r (write_set w r)"
proof (cases w)
  case (W_Outcome ls k token at oc)
  then show ?thesis by (cases oc) (simp_all add: same_task_def task_key_of_def)
qed (simp_all add: same_task_def task_key_of_def claim_set_def)

lemma write_simulates:
  assumes "write_token_ok w" and "write_where drv w r" and "task_row_check drv (write_set w r)"
  shows "abs_task_step (abs_row r) (abs_row (write_set w r))"
proof (cases w)
  case (W_Outcome ls k token at oc)
  then have "t_status r = Task_Running" "t_lease_token r = Some token"
    using assms(2) by (auto dest: lease_whereD)
  then show ?thesis
    using assms(3) W_Outcome by (cases oc) (auto simp: abs_row_def task_row_check_def)
next
  case (W_Renew k token at expires)
  then show ?thesis
    using assms(2) by (auto simp: abs_row_def dest: lease_whereD)
next
  case (W_Claim k token at expires)
  then show ?thesis
    using assms(1,2) by (auto simp: abs_row_def claim_where_def claim_set_def)
next
  case (W_Cancel k at)
  then show ?thesis
    using assms(2) by (auto simp: abs_row_def waiting_where_def)
qed

lemma writes_simulate:
  assumes "writes drv t t'" and "select_key task_key_of k t = Some r"
  shows "\<exists>r'. select_key task_key_of k t' = Some r' \<and> same_task r r' \<and>
              (r' = r \<or> abs_task_step (abs_row r) (abs_row r'))"
proof (cases "t' = t")
  case True
  then show ?thesis using assms(2) by (auto simp: same_task_def)
next
  case False
  then obtain w n where w: "write_token_ok w"
    and u: "exec_update (task_row_check drv) (write_where drv w) (write_set w) t = Some (t', n)"
    using assms(1) by (auto simp: writes_def)
  have mem: "r \<in> set t" using select_keyD[OF assms(2)] by simp
  have t': "t' = update_where (write_where drv w) (write_set w) t"
    using u by (simp add: exec_update_Some)
  have sel: "select_key task_key_of k t' = Some (if write_where drv w r then write_set w r else r)"
    unfolding t' by (simp add: select_update_where assms(2))
  show ?thesis
  proof (cases "write_where drv w r")
    case True
    then have "task_row_check drv (write_set w r)"
      using u mem by (simp add: exec_update_Some)
    then show ?thesis
      using sel True write_simulates[OF w True] same_task_write by auto
  next
    case False
    then show ?thesis using sel by (auto simp: same_task_def)
  qed
qed

lemma task_step_simulates:
  assumes "task_step drv t t'" and "select_key task_key_of k t = Some r"
  shows "\<exists>r'. select_key task_key_of k t' = Some r' \<and> same_task r r' \<and>
              (r' = r \<or> abs_task_step (abs_row r) (abs_row r'))"
  using assms(1)
proof (cases rule: task_step_cases)
  case written
  then show ?thesis using writes_simulate assms(2) by blast
next
  case (created v)
  then show ?thesis
    using assms(2) by (auto simp: exec_insert_Some select_key_append same_task_def)
qed

end
