(* ===== verification/Task_Guarantees.thy ===== *)
theory Task_Guarantees
  imports Task_Store
begin

text \<open>
  What the task table guarantees its callers: the life cycle, one outcome per lease over any
  history, attempts that are handed out once, exclusive claims, the separation of the live and the recovery path, and claimable listings.
\<close>

section \<open>The lease-guarded operations as one family\<close>

datatype lease_op =
    Op_Complete | Op_Fail error_class | Op_Retry instant | Op_Cancel
  | Op_Retry_Dead instant | Op_Fail_Dead error_class

fun run_lease_op ::
  "sql_driver \<Rightarrow> lease_op \<Rightarrow> task \<Rightarrow> instant \<Rightarrow> task_table \<Rightarrow> task_table \<times> unit go_result" where
  "run_lease_op drv Op_Complete v at t = CompleteTask drv v at t"
| "run_lease_op drv (Op_Fail c) v at t = FailTask drv v c at t"
| "run_lease_op drv (Op_Retry next) v at t = RetryTask drv v next at t"
| "run_lease_op drv Op_Cancel v at t = CancelRunningTask drv v at t"
| "run_lease_op drv (Op_Retry_Dead next) v at t = RetryDeadTask drv v next at t"
| "run_lease_op drv (Op_Fail_Dead c) v at t = FailDeadTask drv v c at t"

fun op_lease :: "lease_op \<Rightarrow> lease_state" where
  "op_lease (Op_Retry_Dead _) = Dead"
| "op_lease (Op_Fail_Dead _) = Dead"
| "op_lease _ = Live"

fun op_outcome :: "lease_op \<Rightarrow> outcome" where
  "op_outcome Op_Complete = Outcome_Succeeded"
| "op_outcome (Op_Fail c) = Outcome_Failed c"
| "op_outcome (Op_Retry next) = Outcome_Retry next"
| "op_outcome Op_Cancel = Outcome_Cancelled"
| "op_outcome (Op_Retry_Dead next) = Outcome_Retry next"
| "op_outcome (Op_Fail_Dead c) = Outcome_Failed c"

definition op_where :: "sql_driver \<Rightarrow> lease_op \<Rightarrow> task \<Rightarrow> instant \<Rightarrow> task_row \<Rightarrow> bool" where
  "op_where drv op v at = lease_where drv (op_lease op) (task_key_of v) (t_lease_token v) at"

lemma validate_errors:
  "validateTaskIdentity a b = Inl e \<Longrightarrow> e = Sentinel (Task_E Task_Invalid)"
  "validateFailureClass c = Inl e \<Longrightarrow> e = Sentinel (Task_E Task_Invalid)"
  by (auto simp: validateTaskIdentity_def validateFailureClass_def split: if_splits error_class.splits)

text \<open>Either the arguments are refused, or the guarded write runs.\<close>

lemma run_lease_op_shape:
  "run_lease_op drv op v at t = (t, task_fail Task_Invalid) \<or>
   (run_lease_op drv op v at t =
      leaseGuardedWrite drv (op_where drv op v at) (outcome_set (op_outcome op) at) (task_key_of v) t \<and>
    t_lease_token v \<noteq> [] \<and> t_status v = Task_Running)"
proof (cases "validateTaskIdentity (t_app_id v) (t_task_id v)")
  case (Inl e)
  then show ?thesis
    by (cases op) (simp_all add: CompleteTask_def FailTask_def RetryTask_def CancelRunningTask_def
        RetryDeadTask_def FailDeadTask_def validate_errors)
next
  case (Inr u)
  then show ?thesis
    by (cases op)
      (simp_all add: CompleteTask_def FailTask_def RetryTask_def CancelRunningTask_def
        RetryDeadTask_def FailDeadTask_def op_where_def split: sum.split, (use validate_errors in blast)+)
qed

lemma run_lease_op_cases:
  obtains (refused) "run_lease_op drv op v at t = (t, task_fail Task_Invalid)"
  | (guarded) "run_lease_op drv op v at t =
        leaseGuardedWrite drv (op_where drv op v at) (outcome_set (op_outcome op) at) (task_key_of v) t"
      and "t_lease_token v \<noteq> []" and "t_status v = Task_Running"
  using run_lease_op_shape by blast

lemma leaseGuardedWrite_done:
  "leaseGuardedWrite drv P f k t = (t', Inr ()) \<Longrightarrow>
     exec_update (task_row_check drv) P f t = Some (t', 1)"
  by (auto simp: leaseGuardedWrite_def split: option.splits if_splits)

lemma leaseGuardedWrite_missed:
  "affected P t = 0 \<Longrightarrow> leaseGuardedWrite drv P f k t = (t, Inl (classifyLeaseFailure k t))"
  using affected_0_iff[of P t]
  by (simp add: leaseGuardedWrite_def exec_update_def update_where_none list_all_iff)

lemma op_as_release:
  "op_where drv op v at = release_where drv (op_lease op, task_key_of v, t_lease_token v, at, op_outcome op)"
  "outcome_set (op_outcome op) at = release_set (op_lease op, task_key_of v, t_lease_token v, at, op_outcome op)"
  by (auto simp: op_where_def release_where_def release_set_def)

lemma run_lease_op_done:
  assumes "run_lease_op drv op v at t = (t', Inr ())"
  shows "exec_update (task_row_check drv) (op_where drv op v at) (outcome_set (op_outcome op) at) t = Some (t', 1)"
  using assms by (cases rule: run_lease_op_cases[of drv op v at t]) (auto dest: leaseGuardedWrite_done)

text \<open>The row a successful operation found and the row it left.\<close>

lemma run_lease_op_row:
  assumes "task_store_ok drv t" and "run_lease_op drv op v at t = (t', Inr ())"
  obtains r where "select_key task_key_of (task_key_of v) t = Some r" and "op_where drv op v at r"
    and "select_key task_key_of (task_key_of v) t' = Some (outcome_set (op_outcome op) at r)"
    and "t' = update_where (op_where drv op v at) (outcome_set (op_outcome op) at) t"
proof -
  have "affected (op_where drv op v at) t = 1"
    and t': "t' = update_where (op_where drv op v at) (outcome_set (op_outcome op) at) t"
    using run_lease_op_done[OF assms(2)] by (simp_all add: exec_update_Some)
  then show thesis
    using task_release.one_row[OF task_store_okD(1)[OF assms(1)],
        of drv "(op_lease op, task_key_of v, t_lease_token v, at, op_outcome op)"] that
    unfolding op_as_release[symmetric] by auto
qed

lemma run_lease_op_not_running:
  assumes "\<And>r. select_key task_key_of (task_key_of v) t = Some r \<Longrightarrow> t_status r \<noteq> Task_Running"
    and "distinct (map task_key_of t)"
  shows "run_lease_op drv op v at t \<in> {(t, task_fail Task_Invalid), (t, task_fail Task_InvalidTransition)}"
proof (cases rule: run_lease_op_cases[of drv op v at t])
  case guarded
  have "affected (op_where drv op v at) t = 0"
    using assms by (auto simp: affected_0_iff op_where_def select_key_Some dest: lease_whereD)
  moreover have "classifyLeaseFailure (task_key_of v) t = Sentinel (Task_E Task_InvalidTransition)"
    using assms(1) by (auto simp: classifyLeaseFailure_def split: option.splits)
  ultimately show ?thesis
    using guarded(1) by (simp add: leaseGuardedWrite_missed)
qed simp

section \<open>A concrete table\<close>

definition sample_task :: task where
  "sample_task =
     \<lparr>t_app_id = ''app'', t_task_id = ''t1'', t_type = ''a.b'', t_status = Task_Queued, t_attempt = 1,
      t_max_attempts = 3, t_deadline = 60 * second, t_available_at = second, t_lease_token = [],
      t_lease_expires = None, t_idempotency_key = ''k'', t_params = ''{}'', t_error_class = Class_None,
      t_created_at = second, t_updated_at = second\<rparr>"

definition held_row :: task_row where
  "held_row = claim_set ''l1'' (2 * second) (17 * second) (task_row_of sample_task)"

definition held_task :: task where
  "held_task = sample_task\<lparr>t_status := Task_Running, t_lease_token := ''l1'',
     t_lease_expires := Some (17 * second), t_updated_at := 2 * second\<rparr>"

lemma sample_task_ok: "task_store_ok millisecond_driver [task_row_of sample_task]"
  by code_simp

lemma held_row_ok: "task_store_ok millisecond_driver [held_row]"
  by code_simp

lemma sample_task_valid: "ValidateNewTask sample_task = Inr ()"
proof -
  have "app_id_pattern ''app''" "stable_mixed ''t1''" "ValidateKey ''k'' = Inr ()"
    by code_simp+
  then show ?thesis
    by (simp add: ValidateNewTask_iff sample_task_def json_valid_object second_def millisecond_def)
qed

lemma sample_identity: "validateTaskIdentity ''app'' ''t1'' = Inr ()"
  by code_simp

lemma sample_create:
  "CreateTask millisecond_driver sample_task [] = ([task_row_of sample_task], Inr ())"
  using sample_task_ok
  by (simp add: CreateTask_def sample_task_valid exec_insert_def task_store_ok_def task_table_ok_def table_ok_def)

lemma sample_claim_where: "claim_where millisecond_driver (''app'', ''t1'') (2 * second) (task_row_of sample_task)"
  by code_simp

lemma sample_claim:
  "fst (ClaimTask millisecond_driver ''app'' ''t1'' ''l1'' (2 * second) (17 * second)
     [task_row_of sample_task]) = [held_row]"
proof -
  have "task_row_check millisecond_driver held_row"
    using held_row_ok by (simp add: task_store_ok_def task_table_ok_def table_ok_def)
  then have "exec_update (task_row_check millisecond_driver)
      (claim_where millisecond_driver (''app'', ''t1'') (2 * second)) (claim_set ''l1'' (2 * second) (17 * second))
      [task_row_of sample_task] = Some ([held_row], 1)"
    by (simp add: exec_update_def sample_claim_where held_row_def update_where_def affected_def)
  then show ?thesis
    by (simp add: ClaimTask_def sample_identity second_def millisecond_def split: option.split sum.split)
qed

lemma held_row_fields:
  "t_error_class held_row = Class_None" "t_attempt held_row = 1" "task_key_of held_row = (''app'', ''t1'')"
  by (simp_all add: held_row_def claim_set_def task_row_of_def sample_task_def task_key_of_def)

lemma held_key: "task_key_of held_task = (''app'', ''t1'')" "select_key task_key_of (''app'', ''t1'') [held_row] = Some held_row"
  by (simp_all add: held_task_def sample_task_def task_key_of_def select_key_def held_row_fields(3)[unfolded task_key_of_def prod.inject])

lemma held_row_dead: "dead_where millisecond_driver (18 * second) held_row"
  by code_simp

lemma held_where: "lease_where millisecond_driver Live (task_key_of held_task) (t_lease_token held_task) (3 * second) held_row"
  by (simp add: lease_where.simps held_row_fields held_key)
    (simp add: held_row_def claim_set_def held_task_def millisecond_driver_def second_def millisecond_def)

lemma held_guard:
  "validateTaskIdentity (t_app_id held_task) (t_task_id held_task) = Inr ()" "t_status held_task = Task_Running"
  "t_lease_token held_task \<noteq> []" "t_attempt held_task = 1" "t_max_attempts held_task = 3"
  by (simp_all add: held_task_def sample_task_def sample_identity)

lemma held_outcome_check:
  "task_row_check millisecond_driver (outcome_set Outcome_Succeeded (3 * second) held_row)"
  "task_row_check millisecond_driver (outcome_set (Outcome_Retry (5 * second)) (3 * second) held_row)"
  by code_simp+

lemma held_complete:
  "CompleteTask millisecond_driver held_task (3 * second) [held_row] =
     ([outcome_set Outcome_Succeeded (3 * second) held_row], Inr ())"
  by (simp add: CompleteTask_def held_guard leaseGuardedWrite_def exec_update_def held_where
      held_outcome_check update_where_def affected_def del: outcome_set.simps)

lemma held_retry:
  "RetryTask millisecond_driver held_task (5 * second) (3 * second) [held_row] =
     ([outcome_set (Outcome_Retry (5 * second)) (3 * second) held_row], Inr ())"
  by (simp add: RetryTask_def held_guard leaseGuardedWrite_def exec_update_def held_where
      held_outcome_check update_where_def affected_def word_le_nat_alt del: outcome_set.simps)

lemma sample_claim_result:
  "ClaimTask millisecond_driver ''app'' ''t1'' ''l1'' (2 * second) (17 * second) [task_row_of sample_task] =
     ([held_row], Inr held_task)"
proof -
  have "task_row_check millisecond_driver held_row"
    using held_row_ok by (simp add: task_store_ok_def task_table_ok_def table_ok_def)
  then have "exec_update (task_row_check millisecond_driver)
      (claim_where millisecond_driver (''app'', ''t1'') (2 * second)) (claim_set ''l1'' (2 * second) (17 * second))
      [task_row_of sample_task] = Some ([held_row], 1)"
    by (simp add: exec_update_def sample_claim_where held_row_def update_where_def affected_def)
  moreover have "scanTask held_row = Inr held_task"
    by (simp add: scanTask_def held_row_def claim_set_def task_row_of_def sample_task_def held_task_def)
  ultimately show ?thesis
    by (simp add: ClaimTask_def sample_identity returning_def held_key)
qed

lemma sample_due:
  "ListDueTasks millisecond_driver (2 * second) 10 [task_row_of sample_task] = Inr [sample_task]"
proof -
  have "due_where millisecond_driver (2 * second) (task_row_of sample_task)"
    by code_simp
  moreover have "scanTask (task_row_of sample_task) = Inr sample_task"
    by (simp add: scanTask_def task_row_of_def sample_task_def)
  ultimately show ?thesis
    by (simp add: ListDueTasks_def)
qed

lemma task_steps_ok: "(task_step drv)\<^sup>*\<^sup>* t t' \<Longrightarrow> task_store_ok drv t \<Longrightarrow> task_store_ok drv t'"
  by (induction rule: rtranclp_induct) (auto intro: task_step_ok)

lemma task_steps_done:
  assumes "(task_step drv)\<^sup>*\<^sup>* t t'" and "select_key task_key_of k t = Some r"
    and "abs_row r = Abs_Done st"
  shows "select_key task_key_of k t' = Some r"
  using assms(1)
proof (induction rule: rtranclp_induct)
  case base
  then show ?case using assms(2) by simp
next
  case (step u v)
  then show ?case using task_step_simulates[of drv u v k r] assms(3) by auto
qed

lemma scanTask_ok:
  assumes "task_row_check drv r"
  obtains v where "scanTask r = Inr v" and "task_key_of v = task_key_of r" and "t_status v = t_status r"
    and "t_lease_token v = (case t_lease_token r of None \<Rightarrow> [] | Some l \<Rightarrow> l)"
    and "t_lease_expires v = t_lease_expires r" and "uint (t_attempt v) = t_attempt r"
    and "uint (t_max_attempts v) = t_max_attempts r" and "t_deadline v = t_deadline r"
proof -
  have "0 < t_attempt r" "t_attempt r \<le> 32" "1 \<le> t_max_attempts r" "t_max_attempts r \<le> 32"
    "t_attempt r \<le> t_max_attempts r"
    using assms by (auto simp: task_row_check_def)
  then show thesis
    using that by (auto simp: scanTask_def task_key_of_def unsigned_of_int take_bit_int_eq_self)
qed

lemma scanTasks_ok:
  assumes "\<And>r. r \<in> set rs \<Longrightarrow> task_row_check drv r"
  shows "\<exists>vs. scanTasks rs = Inr vs \<and> list_all2 (\<lambda>r v. scanTask r = Inr v) rs vs"
  using assms
proof (induction rs)
  case (Cons r rs)
  then obtain vs where "scanTasks rs = Inr vs" "list_all2 (\<lambda>r v. scanTask r = Inr v) rs vs"
    by auto
  moreover obtain v where "scanTask r = Inr v"
    using Cons.prems[of r] scanTask_ok by (metis list.set_intros(1))
  ultimately show ?case by auto
qed simp

text \<open>What a successful claim found and left.\<close>

lemma ClaimTask_done:
  assumes "task_store_ok drv t" and "ClaimTask drv app tid token at expires t = (t', Inr v)"
  obtains r where "select_key task_key_of (app, tid) t = Some r" and "claim_where drv (app, tid) at r"
    and "t' = update_where (claim_where drv (app, tid) at) (claim_set token at expires) t"
    and "select_key task_key_of (app, tid) t' = Some (claim_set token at expires r)"
    and "scanTask (claim_set token at expires r) = Inr v" and "token \<noteq> []" and "after expires at"
proof -
  let ?P = "claim_where drv (app, tid) at" and ?f = "claim_set token at expires"
  have args: "token \<noteq> []" "after expires at"
    and u: "exec_update (task_row_check drv) ?P ?f t = Some (t', affected ?P t)"
    and ret: "\<exists>q. returning (app, tid) (affected ?P t) t' = Some q \<and> scanTask q = Inr v"
    using assms(2) unfolding ClaimTask_def
    by (auto split: sum.splits if_splits option.splits simp: exec_update_Some)
  have t': "t' = update_where ?P ?f t"
    using u by (simp add: exec_update_Some)
  have "affected ?P t \<le> 1"
    using task_writes.at_most_one[OF task_store_okD(1)[OF assms(1)], of drv "W_Claim (app, tid) token at expires"]
    by simp
  then have "affected ?P t = 1"
    using ret by (cases "affected ?P t") (auto simp: returning_def)
  then obtain r where "select_key task_key_of (app, tid) t = Some r" "?P r"
    and "select_key task_key_of (app, tid) t' = Some (?f r)"
    using task_writes.one_row[OF task_store_okD(1)[OF assms(1)], of drv "W_Claim (app, tid) token at expires"]
    by (auto simp: t')
  then show thesis using that args ret t' by (auto simp: returning_def split: if_splits)
qed

lemma ClaimTask_refused:
  assumes "distinct (map task_key_of t)" and "\<And>r. select_key task_key_of (app, tid) t = Some r \<Longrightarrow> \<not> claim_where drv (app, tid) at r"
  shows "\<exists>e. ClaimTask drv app tid token at expires t = (t, Inl e) \<and>
           e \<in> {Sentinel (Task_E Task_Invalid), Sentinel (Task_E Task_InvalidTransition)}"
proof -
  have "\<forall>r \<in> set t. \<not> claim_where drv (app, tid) at r"
    using assms by (auto simp: select_key_Some claim_where_def)
  then have "affected (claim_where drv (app, tid) at) t = 0" and "list_all (\<lambda>r. \<not> claim_where drv (app, tid) at r) t"
    by (simp_all add: affected_0_iff list_all_iff)
  then show ?thesis
    using validate_errors(1)[of app tid]
    by (cases "validateTaskIdentity app tid")
      (auto simp: ClaimTask_def exec_update_def update_where_none returning_def list_all_iff)
qed

section \<open>What one lease leaves behind\<close>

text \<open>A write other than a claim leaves a row that stops running or keeps its lease token.\<close>

lemma leaseGuardedWrite_table:
  "leaseGuardedWrite drv P f k t = (t', q) \<Longrightarrow> t' = t \<or> t' = update_where P f t"
  by (auto simp: leaseGuardedWrite_def exec_update_Some split: option.splits if_splits)

lemma outcome_set_token [simp]: "t_lease_token (outcome_set oc at r) = None"
  by (cases oc) simp_all

definition not_held :: "task_key \<Rightarrow> string \<Rightarrow> task_table \<Rightarrow> bool" where
  "not_held k token t \<longleftrightarrow> (\<exists>r. select_key task_key_of k t = Some r \<and> t_lease_token r \<noteq> Some token)"

lemma not_held_update:
  assumes "not_held k token t" and "t' = t \<or> t' = update_where P f t"
    and "\<And>r. P r \<Longrightarrow> task_key_of (f r) = task_key_of r"
    and "\<And>r. P r \<Longrightarrow> task_key_of r = k \<Longrightarrow> t_lease_token (f r) \<in> {None, t_lease_token r} \<or> t_lease_token (f r) \<noteq> Some token"
  shows "not_held k token t'"
  using assms(2)
proof
  assume t': "t' = update_where P f t"
  obtain r where r: "select_key task_key_of k t = Some r" "t_lease_token r \<noteq> Some token"
    using assms(1) by (auto simp: not_held_def)
  then have "select_key task_key_of k t' = Some (if P r then f r else r)"
    unfolding t' by (subst select_update_where) (simp_all add: assms(3))
  then show ?thesis
    using r assms(4)[of r] select_keyD[OF r(1)] by (auto simp: not_held_def)
qed (use assms(1) in simp)

section \<open>Histories in which a lease token is not drawn again\<close>

text \<open>The steps between two uses of a lease: any call of any caller, except a claim of the same task
  with the same token. The scheduler draws a fresh token for every claim.\<close>

inductive foreign_step :: "sql_driver \<Rightarrow> task_key \<Rightarrow> string \<Rightarrow> task_table \<Rightarrow> task_table \<Rightarrow> bool"
  for drv k token where
  creates: "CreateTask drv v t = (t', q) \<Longrightarrow> foreign_step drv k token t t'"
| claims: "ClaimTask drv app tid other at expires t = (t', q1) \<Longrightarrow> ((app, tid), other) \<noteq> (k, token) \<Longrightarrow>
    foreign_step drv k token t t'"
| renews: "RenewTaskLease drv v at expires t = (t', q) \<Longrightarrow> foreign_step drv k token t t'"
| settles: "run_lease_op drv op v at t = (t', q) \<Longrightarrow> foreign_step drv k token t t'"
| cancels: "CancelQueuedTask drv app tid at t = (t', q2) \<Longrightarrow> foreign_step drv k token t t'"

lemma ClaimTask_table:
  "ClaimTask drv app tid token at expires t = (t', q) \<Longrightarrow>
     t' = t \<or> t' = update_where (claim_where drv (app, tid) at) (claim_set token at expires) t"
  by (auto simp: ClaimTask_def exec_update_Some split: sum.splits if_splits option.splits)

lemma RenewTaskLease_table:
  "RenewTaskLease drv v at expires t = (t', q) \<Longrightarrow>
     t' = t \<or> t' = update_where (lease_where drv Live (task_key_of v) (t_lease_token v) at)
       (\<lambda>r. r\<lparr>t_lease_expires := Some expires, t_updated_at := at\<rparr>) t"
  by (auto simp: RenewTaskLease_def split: sum.splits if_splits dest: leaseGuardedWrite_table)

lemma CancelQueuedTask_table:
  "CancelQueuedTask drv app tid at t = (t', q) \<Longrightarrow>
     t' = t \<or> t' = update_where (waiting_where (app, tid)) (outcome_set Outcome_Cancelled at) t"
  by (auto simp: CancelQueuedTask_def exec_update_Some Let_def split: sum.splits if_splits option.splits)

lemma run_lease_op_table:
  "run_lease_op drv op v at t = (t', q) \<Longrightarrow>
     t' = t \<or> t' = update_where (op_where drv op v at) (outcome_set (op_outcome op) at) t"
  by (cases rule: run_lease_op_cases[of drv op v at t]) (auto dest: leaseGuardedWrite_table)

lemma foreign_step_not_held:
  assumes "foreign_step drv k token t t'" and "not_held k token t"
  shows "not_held k token t'"
  using assms(1)
proof cases
  case (creates v q)
  then have "t' = t \<or> t' = t @ [task_row_of v]"
    by (cases rule: CreateTask_cases) (auto simp: exec_insert_Some)
  then show ?thesis
    using assms(2) by (auto simp: not_held_def select_key_append split: option.splits)
next
  case (claims app tid other at expires q)
  then have "((app, tid), other) \<noteq> (k, token)" by simp
  then show ?thesis
    by (intro not_held_update[OF assms(2) ClaimTask_table[OF claims(1)]])
      (auto simp: claim_set_def task_key_of_def claim_where_def)
next
  case (renews v at expires q)
  show ?thesis
    by (rule not_held_update[OF assms(2) RenewTaskLease_table[OF renews]]) (simp_all add: task_key_of_def)
next
  case (settles op v at q)
  show ?thesis
    by (rule not_held_update[OF assms(2) run_lease_op_table[OF settles]]) simp_all
next
  case (cancels app tid at q)
  show ?thesis
    by (rule not_held_update[OF assms(2) CancelQueuedTask_table[OF cancels]]) (simp_all del: outcome_set.simps)
qed

lemma foreign_steps_not_held:
  "(foreign_step drv k token)\<^sup>*\<^sup>* t t' \<Longrightarrow> not_held k token t \<Longrightarrow> not_held k token t'"
  by (induction rule: rtranclp_induct) (auto intro: foreign_step_not_held)

lemma foreign_step_ok: "foreign_step drv k token t t' \<Longrightarrow> task_store_ok drv t \<Longrightarrow> task_store_ok drv t'"
proof (induction rule: foreign_step.induct)
  case (settles op v at t t' q)
  then show ?case by (cases op) (auto intro: task_step_ok task_step.intros)
qed (auto intro: task_step_ok task_step.intros)

lemma foreign_steps_ok:
  "(foreign_step drv k token)\<^sup>*\<^sup>* t t' \<Longrightarrow> task_store_ok drv t \<Longrightarrow> task_store_ok drv t'"
  by (induction rule: rtranclp_induct) (auto intro: foreign_step_ok)

lemma classified: "classifyLeaseFailure k t \<in> {Sentinel (Task_E Task_InvalidTransition), Sentinel (Task_E Task_LeaseLost)}"
  by (simp add: classifyLeaseFailure_def split: option.split)

lemma not_held_affected:
  assumes "distinct (map task_key_of t)" and "not_held k token t"
  shows "affected (lease_where drv ls k token at) t = 0"
  using assms by (auto simp: not_held_def affected_0_iff lease_where.simps select_key_Some)
    (metis (no_types, lifting) option.inject select_key_Some)

lemma not_held_refused:
  assumes "distinct (map task_key_of t)" and "not_held (task_key_of v) (t_lease_token v) t"
  shows "\<exists>e \<in> {Task_Invalid, Task_InvalidTransition, Task_LeaseLost}. run_lease_op drv op v at t = (t, task_fail e)"
proof (cases rule: run_lease_op_cases[of drv op v at t])
  case guarded
  have "affected (op_where drv op v at) t = 0"
    using not_held_affected[OF assms] by (simp add: op_where_def)
  then show ?thesis
    using guarded(1) classified[of "task_key_of v" t] by (auto simp: leaseGuardedWrite_missed)
qed simp

lemma not_held_renew:
  assumes "distinct (map task_key_of t)" and "not_held (task_key_of v) (t_lease_token v) t"
  shows "\<exists>e \<in> {Task_Invalid, Task_InvalidTransition, Task_LeaseLost}. RenewTaskLease drv v at expires t = (t, task_fail e)"
  using leaseGuardedWrite_missed[OF not_held_affected[OF assms]] classified[of "task_key_of v" t] validate_errors(1)
  by (auto simp: RenewTaskLease_def split: sum.split)

section \<open>Which attempts a task has been claimed for\<close>

text \<open>Histories from an empty table, with the attempts that successful claims of a task have handed
  out, oldest first. A claim that a caller never learns of may be left out.\<close>

inductive task_claims :: "sql_driver \<Rightarrow> task_key \<Rightarrow> int list \<Rightarrow> task_table \<Rightarrow> bool" for drv k where
  nothing: "task_claims drv k [] []"
| claimed: "task_claims drv k ns t \<Longrightarrow> ClaimTask drv (fst k) (snd k) token at expires t = (t', Inr v) \<Longrightarrow>
    task_claims drv k (ns @ [uint (t_attempt v)]) t'"
| stepped: "task_claims drv k ns t \<Longrightarrow> task_step drv t t' \<Longrightarrow> task_claims drv k ns t'"

fun used_up :: "int list \<Rightarrow> int \<Rightarrow> abs_task \<Rightarrow> bool" where
  "used_up ns m (Abs_Waiting n _) \<longleftrightarrow> (\<forall>a \<in> set ns. a < n)"
| "used_up ns m (Abs_Held n _ _) \<longleftrightarrow> (\<forall>a \<in> set ns. a \<le> n)"
| "used_up ns m (Abs_Done _) \<longleftrightarrow> (\<forall>a \<in> set ns. a \<le> m)"

definition claims_ok :: "task_key \<Rightarrow> int list \<Rightarrow> task_table \<Rightarrow> bool" where
  "claims_ok k ns t \<longleftrightarrow> sorted_wrt (<) ns \<and> (\<forall>a \<in> set ns. 1 \<le> a) \<and>
     (case select_key task_key_of k t of
        None \<Rightarrow> ns = []
      | Some r \<Rightarrow> (\<forall>a \<in> set ns. a \<le> t_max_attempts r) \<and> used_up ns (t_max_attempts r) (abs_row r))"

lemma used_up_step:
  "abs_task_step a b \<Longrightarrow> used_up ns m a \<Longrightarrow> \<forall>x \<in> set ns. x \<le> m \<Longrightarrow> used_up ns m b"
  by (induction rule: abs_task_step.induct) fastforce+

lemma claims_ok_step:
  assumes "claims_ok k ns t" and "task_step drv t t'" and "task_store_ok drv t"
  shows "claims_ok k ns t'"
proof (cases "select_key task_key_of k t")
  case None
  then have "ns = []"
    using assms(1) by (simp add: claims_ok_def)
  moreover have "used_up [] m a" for m a by (cases a) simp_all
  ultimately show ?thesis
    by (simp add: claims_ok_def split: option.split)
next
  case (Some r)
  then obtain r' where r': "select_key task_key_of k t' = Some r'" "same_task r r'"
    and move: "r' = r \<or> abs_task_step (abs_row r) (abs_row r')"
    using task_step_simulates[OF assms(2)] by blast
  have "t_max_attempts r' = t_max_attempts r" using r'(2) by (simp add: same_task_def)
  moreover have "used_up ns (t_max_attempts r) (abs_row r')"
    using move used_up_step assms(1) Some by (auto simp: claims_ok_def)
  ultimately show ?thesis
    using assms(1) Some r'(1) by (simp add: claims_ok_def)
qed

lemma claims_ok_claim:
  assumes "claims_ok (app, tid) ns t" and "task_store_ok drv t"
    and "ClaimTask drv app tid token at expires t = (t', Inr v)"
  shows "claims_ok (app, tid) (ns @ [uint (t_attempt v)]) t'"
proof -
  let ?f = "claim_set token at expires"
  obtain r where r: "select_key task_key_of (app, tid) t = Some r" "claim_where drv (app, tid) at r"
    and r': "select_key task_key_of (app, tid) t' = Some (?f r)" and v: "scanTask (?f r) = Inr v"
    using ClaimTask_done[OF assms(2,3)] by blast
  have "task_store_ok drv t'"
    using task_step_ok[OF task_step.claim[OF assms(3)] assms(2)] .
  then have chk: "task_row_check drv (?f r)"
    using task_store_okD(2) select_keyD[OF r'] by blast
  then have n: "uint (t_attempt v) = t_attempt r"
    using scanTask_ok[OF chk] v by (auto simp: claim_set_def)
  have "1 \<le> t_attempt r" "t_attempt r \<le> t_max_attempts r"
    using chk by (auto simp: task_row_check_def claim_set_def)
  moreover have "abs_row r = Abs_Waiting (t_attempt r) (t_max_attempts r)"
    using r(2) by (auto simp: claim_where_def abs_row_def)
  then have "\<forall>a \<in> set ns. a < t_attempt r"
    using assms(1) r(1) by (simp add: claims_ok_def)
  moreover have "abs_row (?f r) = Abs_Held (t_attempt r) (t_max_attempts r) token"
    by (simp add: abs_row_def claim_set_def)
  moreover have "t_max_attempts (?f r) = t_max_attempts r" by (simp add: claim_set_def)
  ultimately show ?thesis
    using assms(1) r(1) r' n by (auto simp: claims_ok_def sorted_wrt_append)
qed

lemma task_claims_ok: "task_claims drv k ns t \<Longrightarrow> task_store_ok drv t \<and> claims_ok k ns t"
proof (induction rule: task_claims.induct)
  case nothing
  then show ?case by (simp add: claims_ok_def select_key_def)
next
  case (claimed ns t token at expires t' v)
  then show ?case
    using claims_ok_claim[of "fst k" "snd k"] task_step_ok[OF task_step.claim] by simp blast
next
  case (stepped ns t t')
  then show ?case using claims_ok_step task_step_ok by blast
qed

section \<open>Properties\<close>

text \<open>C2: every attempt of a task is handed out at most once: over any history of calls of the task
  store, the attempt numbers returned by the successful claims of a task increase strictly and lie
  between 1 and its maximum, so a task is claimed at most as often as its maximum number of
  attempts, recoveries included.\<close>

theorem attempts_handed_out_once:
  assumes "task_claims drv k ns t" and "select_key task_key_of k t = Some r"
  shows "sorted_wrt (<) ns \<and> set ns \<subseteq> {1..t_max_attempts r} \<and> length ns \<le> nat (t_max_attempts r)"
proof -
  have ns: "sorted_wrt (<) ns" "set ns \<subseteq> {1..t_max_attempts r}"
    using task_claims_ok[OF assms(1)] assms(2) by (auto simp: claims_ok_def)
  have "length ns = card (set ns)"
    using ns(1) by (simp add: strict_sorted_iff distinct_card)
  also have "\<dots> \<le> card {1..t_max_attempts r}"
    using ns(2) by (intro card_mono) auto
  finally show ?thesis using ns by simp
qed

theorem attempts_handed_out_once_witness:
  "task_claims millisecond_driver (''app'', ''t1'') [1] [outcome_set (Outcome_Retry (5 * second)) (3 * second) held_row] \<and>
   length [1::int] \<le> nat (t_max_attempts (outcome_set (Outcome_Retry (5 * second)) (3 * second) held_row))"
proof -
  let ?r = "outcome_set (Outcome_Retry (5 * second)) (3 * second) held_row"
  have "task_claims millisecond_driver (''app'', ''t1'') [] [task_row_of sample_task]"
    using task_claims.stepped[OF task_claims.nothing task_step.create[OF sample_create]] .
  from task_claims.claimed[OF this, of "''l1''" "2 * second" "17 * second"]
  have "task_claims millisecond_driver (''app'', ''t1'') [1] [held_row]"
    using sample_claim_result by (simp add: held_guard)
  from task_claims.stepped[OF this task_step.retry[OF held_retry]]
  have c: "task_claims millisecond_driver (''app'', ''t1'') [1] [?r]" .
  moreover have "select_key task_key_of (''app'', ''t1'') [?r] = Some ?r"
    by (simp add: select_key_def held_row_fields(3)[unfolded task_key_of_def prod.inject] task_key_of_def)
  ultimately show ?thesis
    using attempts_handed_out_once[OF c] by blast
qed

text \<open>C3: the table refines the life cycle: under any operation of any caller a stored task keeps its
  identity, type, deadline, parameters and idempotency key, and its status, attempt and lease move
  only along a step of the abstract machine.\<close>

theorem task_refines_life_cycle:
  assumes "task_step drv t t'" and "select_key task_key_of k t = Some r"
  shows "\<exists>r'. select_key task_key_of k t' = Some r' \<and> same_task r r' \<and>
              (r' = r \<or> abs_task_step (abs_row r) (abs_row r'))"
  using assms by (rule task_step_simulates)

theorem task_refines_life_cycle_witness:
  "\<exists>r'. select_key task_key_of (''app'', ''t1'')
          (fst (CompleteTask millisecond_driver held_task (3 * second) [held_row])) = Some r' \<and>
        same_task held_row r' \<and> (r' = held_row \<or> abs_task_step (abs_row held_row) (abs_row r'))"
proof (rule task_refines_life_cycle)
  show "task_step millisecond_driver [held_row]
      (fst (CompleteTask millisecond_driver held_task (3 * second) [held_row]))"
    by (metis prod.collapse task_step.complete)
  show "select_key task_key_of (''app'', ''t1'') [held_row] = Some held_row"
    by (simp add: select_key_def held_row_def claim_set_def task_key_of_def task_row_of_def sample_task_def)
qed

text \<open>A task that succeeded, failed or was cancelled is never changed again, by any operations of
  any callers.\<close>

theorem terminal_task_final:
  assumes "(task_step drv)\<^sup>*\<^sup>* t t'" and "select_key task_key_of k t = Some r"
    and "t_status r \<in> {Task_Succeeded, Task_Failed, Task_Cancelled}"
  shows "select_key task_key_of k t' = Some r"
  using task_steps_done[OF assms(1,2)] assms(3) by (auto simp: abs_row_def)

theorem terminal_task_final_witness:
  "select_key task_key_of (''app'', ''t1'')
     (fst (CancelQueuedTask millisecond_driver ''app'' ''t1'' second
       [outcome_set Outcome_Succeeded second held_row])) = Some (outcome_set Outcome_Succeeded second held_row)"
proof (rule terminal_task_final[of millisecond_driver "[outcome_set Outcome_Succeeded second held_row]"])
  show "(task_step millisecond_driver)\<^sup>*\<^sup>* [outcome_set Outcome_Succeeded second held_row]
     (fst (CancelQueuedTask millisecond_driver ''app'' ''t1'' second
       [outcome_set Outcome_Succeeded second held_row]))"
    by (metis prod.collapse r_into_rtranclp task_step.cancel_queued)
qed (simp_all add: select_key_def held_row_def claim_set_def task_key_of_def task_row_of_def sample_task_def)

text \<open>C4: of the operations guarded by a lease, completing, failing, retrying, cancelling and the two
  recoveries, at most one takes effect per lease. After one has succeeded under a lease token, every
  other one that carries the same token, and every renewal of that lease, is refused and leaves the
  table as it is. That stays so whatever calls come in between, when the task has been retried and is
  running again under another lease too, as long as no later claim of the task draws the same token.\<close>

theorem one_outcome_per_lease:
  assumes "task_store_ok drv t" and "run_lease_op drv op1 v1 at1 t = (t1, Inr ())"
    and "(foreign_step drv (task_key_of v1) (t_lease_token v1))\<^sup>*\<^sup>* t1 t2"
    and "task_key_of v2 = task_key_of v1" and "t_lease_token v2 = t_lease_token v1"
  shows "(\<exists>e \<in> {Task_Invalid, Task_InvalidTransition, Task_LeaseLost}.
            run_lease_op drv op2 v2 at2 t2 = (t2, task_fail e)) \<and>
         (\<exists>e \<in> {Task_Invalid, Task_InvalidTransition, Task_LeaseLost}.
            RenewTaskLease drv v2 at2 expires t2 = (t2, task_fail e))"
proof -
  obtain r where "select_key task_key_of (task_key_of v1) t1 = Some (outcome_set (op_outcome op1) at1 r)"
    using run_lease_op_row[OF assms(1,2)] by blast
  then have "not_held (task_key_of v1) (t_lease_token v1) t1"
    by (simp add: not_held_def)
  then have n: "not_held (task_key_of v2) (t_lease_token v2) t2"
    using foreign_steps_not_held[OF assms(3)] assms(4,5) by simp
  have "task_store_ok drv t1"
    using foreign_step_ok[OF foreign_step.settles[OF assms(2)] assms(1)] .
  then have "distinct (map task_key_of t2)"
    using foreign_steps_ok[OF assms(3)] task_store_okD(1) by blast
  then show ?thesis
    using not_held_refused[OF _ n] not_held_renew[OF _ n] by blast
qed

theorem one_outcome_per_lease_witness:
  "snd (CompleteTask millisecond_driver held_task (7 * second)
     (fst (ClaimTask millisecond_driver ''app'' ''t1'' ''l2'' (6 * second) (21 * second)
       (fst (RetryTask millisecond_driver held_task (5 * second) (3 * second) [held_row]))))) \<noteq> Inr ()"
proof -
  let ?t1 = "[outcome_set (Outcome_Retry (5 * second)) (3 * second) held_row]"
  have "t_lease_token held_task = ''l1''" by (simp add: held_task_def)
  then have f: "foreign_step millisecond_driver (task_key_of held_task) (t_lease_token held_task) ?t1
      (fst (ClaimTask millisecond_driver ''app'' ''t1'' ''l2'' (6 * second) (21 * second) ?t1))"
    by (intro foreign_step.claims[OF prod.collapse[symmetric]]) simp
  have o1: "run_lease_op millisecond_driver (Op_Retry (5 * second)) held_task (3 * second) [held_row] = (?t1, Inr ())"
    by (simp add: held_retry del: outcome_set.simps)
  obtain e where "run_lease_op millisecond_driver Op_Complete held_task (7 * second)
      (fst (ClaimTask millisecond_driver ''app'' ''t1'' ''l2'' (6 * second) (21 * second) ?t1)) =
      (fst (ClaimTask millisecond_driver ''app'' ''t1'' ''l2'' (6 * second) (21 * second) ?t1), task_fail e)"
    using one_outcome_per_lease[OF held_row_ok o1 r_into_rtranclp[of "foreign_step _ _ _", OF f] refl refl, THEN conjunct1] by blast
  then show ?thesis
    by (simp add: held_retry del: outcome_set.simps)
qed

text \<open>A claim is exclusive: it returns the task as running under the caller's token with the attempt
  number unchanged, and every further claim of the same task is refused without effect.\<close>

theorem claim_exclusive:
  assumes "task_store_ok drv t" and "ClaimTask drv app tid token at expires t = (t1, Inr v)"
  shows "t_status v = Task_Running \<and> t_lease_token v = token \<and> t_lease_expires v = Some expires \<and>
    (\<exists>r. select_key task_key_of (app, tid) t = Some r \<and> uint (t_attempt v) = t_attempt r \<and>
         t_status r \<in> {Task_Queued, Task_Retry_Scheduled}) \<and>
    (\<exists>e. ClaimTask drv app tid token2 at2 expires2 t1 = (t1, Inl e))"
proof -
  obtain r where r: "select_key task_key_of (app, tid) t = Some r" "claim_where drv (app, tid) at r"
    and t1: "t1 = update_where (claim_where drv (app, tid) at) (claim_set token at expires) t"
    and r1: "select_key task_key_of (app, tid) t1 = Some (claim_set token at expires r)"
    and v: "scanTask (claim_set token at expires r) = Inr v"
    using ClaimTask_done[OF assms] by blast
  have "task_store_ok drv t1"
    using task_step_ok[OF task_step.claim[OF assms(2)] assms(1)] .
  then have "task_row_check drv (claim_set token at expires r)" and d: "distinct (map task_key_of t1)"
    using task_store_okD select_keyD[OF r1] by blast+
  then have "t_status v = Task_Running \<and> t_lease_token v = token \<and> t_lease_expires v = Some expires \<and>
      uint (t_attempt v) = t_attempt r"
    using scanTask_ok[of drv "claim_set token at expires r"] v by (fastforce simp: claim_set_def)
  moreover have "\<not> claim_where drv (app, tid) at2 (claim_set token at expires r)"
    by (simp add: claim_where_def claim_set_def)
  then have "\<exists>e. ClaimTask drv app tid token2 at2 expires2 t1 = (t1, Inl e)"
    using ClaimTask_refused[OF d, of app tid drv at2 token2 expires2] r1 by auto
  ultimately show ?thesis
    using r by (auto simp: claim_where_def)
qed

theorem claim_exclusive_witness:
  "\<exists>e. ClaimTask millisecond_driver ''app'' ''t1'' ''l2'' (3 * second) (18 * second) [held_row] = ([held_row], Inl e)"
  using claim_exclusive[OF sample_task_ok sample_claim_result, of "''l2''" "3 * second" "18 * second"] by blast

text \<open>The live and the recovery path never meet: once a lease counts as expired at some instant, its
  owner can from then on neither renew it nor end the task under it, whatever the clock skew below
  the granularity of the stored instants.\<close>

theorem dead_lease_bars_owner:
  assumes "mono (julianday drv)" and "task_store_ok drv t"
    and "select_key task_key_of (task_key_of v) t = Some r" and "dead_where drv now r" and "now \<le> at"
    and "op_lease op = Live"
  shows "fst (run_lease_op drv op v at t) = t \<and> snd (run_lease_op drv op v at t) \<noteq> Inr () \<and>
         fst (RenewTaskLease drv v at expires t) = t \<and> snd (RenewTaskLease drv v at expires t) \<noteq> Inr ()"
proof -
  have "\<not> lease_where drv Live (task_key_of v) (t_lease_token v) at s" if "s \<in> set t" for s
  proof (cases "task_key_of s = task_key_of v")
    case True
    then have "s = r"
      using that assms(3) task_store_okD(1)[OF assms(2)] by (metis option.inject select_key_Some)
    moreover have "julianday drv now \<le> julianday drv at"
      using assms(1,5) by (simp add: monoD)
    ultimately show ?thesis
      using assms(4) by (auto simp: dead_where_def lease_where.simps split: option.splits)
  qed (simp add: lease_where.simps)
  then have none: "affected (lease_where drv Live (task_key_of v) (t_lease_token v) at) t = 0"
    by (simp add: affected_0_iff)
  have "fst (run_lease_op drv op v at t) = t \<and> snd (run_lease_op drv op v at t) \<noteq> Inr ()"
    by (cases rule: run_lease_op_cases[of drv op v at t])
      (simp_all add: op_where_def assms(6) leaseGuardedWrite_missed[OF none])
  moreover have "fst (RenewTaskLease drv v at expires t) = t \<and> snd (RenewTaskLease drv v at expires t) \<noteq> Inr ()"
    using leaseGuardedWrite_missed[OF none] by (simp add: RenewTaskLease_def split: sum.split)
  ultimately show ?thesis by simp
qed

theorem dead_lease_bars_owner_witness:
  "snd (CompleteTask millisecond_driver held_task (20 * second) [held_row]) \<noteq> Inr ()"
  using dead_lease_bars_owner[OF mono_millisecond_driver held_row_ok, of held_task held_row "18 * second"
      "20 * second" Op_Complete]
  by (simp add: held_key held_row_dead)

text \<open>C15: every task a due listing returns can be claimed at the instant of the listing, and the claim
  hands out the listed attempt.\<close>

theorem due_tasks_claimable:
  assumes "task_store_ok drv t" and "ListDueTasks drv now limit t = Inr vs" and "v \<in> set vs"
    and "token \<noteq> []" and "now < expires"
  shows "int (length vs) \<le> limit \<and>
    (\<exists>t' v'. ClaimTask drv (t_app_id v) (t_task_id v) token now expires t = (t', Inr v') \<and>
             t_attempt v' = t_attempt v \<and> t_lease_token v' = token)"
proof -
  let ?rs = "take (nat limit) (sort_key (due_order drv) (filter (due_where drv now) t))"
  have args: "now \<noteq> 0" "1 \<le> limit" and scan: "scanTasks ?rs = Inr vs"
    using assms(2) by (auto simp: ListDueTasks_def split: if_splits)
  have sub: "set ?rs \<subseteq> {r \<in> set t. due_where drv now r}"
    using set_take_subset by fastforce
  have chk: "task_row_check drv r \<and> task_row_valid r" if "r \<in> set t" for r
    using task_store_okD(2,3)[OF assms(1) that] by simp
  obtain ws where "scanTasks ?rs = Inr ws" and all: "list_all2 (\<lambda>r v. scanTask r = Inr v) ?rs ws"
    using scanTasks_ok[of ?rs drv] chk sub by blast
  then have [simp]: "ws = vs" using scan by simp
  have len: "length vs \<le> nat limit"
    using list_all2_lengthD[OF all] by simp
  have "\<exists>r \<in> set ?rs. scanTask r = Inr v"
    using all assms(3) unfolding \<open>ws = vs\<close> by (induction rule: list_all2_induct) auto
  then obtain r where r: "r \<in> set t" "due_where drv now r" and v: "scanTask r = Inr v"
    using sub by blast
  obtain u where "scanTask r = Inr u" "task_key_of u = task_key_of r" "uint (t_attempt u) = t_attempt r"
    using scanTask_ok chk[OF r(1)] by metis
  then have key: "task_key_of r = (t_app_id v, t_task_id v)" and att: "uint (t_attempt v) = t_attempt r"
    using v by (simp_all add: task_key_of_def)
  have cw: "claim_where drv (t_app_id v, t_task_id v) now r"
    using r(2) key by (simp add: due_where_def claim_where_def)
  have ident: "validateTaskIdentity (t_app_id v) (t_task_id v) = Inr ()"
    using chk[OF r(1)] key by (simp add: task_row_valid_def task_key_of_def)
  have others: "s = r" if "s \<in> set t" "claim_where drv (t_app_id v, t_task_id v) now s" for s
  proof -
    have "task_key_of s = task_key_of r"
      using that(2) key by (simp add: claim_where_def)
    then show ?thesis
      using that(1) r(1) task_store_okD(1)[OF assms(1)] by (auto simp: distinct_map dest: inj_onD)
  qed
  let ?f = "claim_set token now expires"
  have fchk: "task_row_check drv (?f r)"
    using chk[OF r(1)] by (auto simp: task_row_check_def claim_set_def)
  let ?t' = "update_where (claim_where drv (t_app_id v, t_task_id v) now) ?f t"
  have u: "exec_update (task_row_check drv) (claim_where drv (t_app_id v, t_task_id v) now) ?f t =
      Some (?t', affected (claim_where drv (t_app_id v, t_task_id v) now) t)"
    using others fchk by (auto simp: exec_update_Some)
  have pos: "affected (claim_where drv (t_app_id v, t_task_id v) now) t \<noteq> 0"
    using r(1) cw affected_pos_iff by fastforce
  have "select_key task_key_of (t_app_id v, t_task_id v) t = Some r"
    using r(1) key task_store_okD(1)[OF assms(1)] by (simp add: select_key_Some)
  then have sel: "select_key task_key_of (t_app_id v, t_task_id v) ?t' = Some (?f r)"
    using cw by (subst select_update_where) (simp_all add: claim_set_def task_key_of_def)
  obtain v' where v': "scanTask (?f r) = Inr v'" "uint (t_attempt v') = t_attempt r" "t_lease_token v' = token"
    using scanTask_ok[OF fchk] by (auto simp: claim_set_def)
  have "ClaimTask drv (t_app_id v) (t_task_id v) token now expires t = (?t', Inr v')"
    using ident assms(4,5) args(1) by (simp add: ClaimTask_def u returning_def pos sel v'(1))
  moreover have "t_attempt v' = t_attempt v"
    using v'(2) att by (simp add: word_uint_eq_iff)
  ultimately show ?thesis using v'(3) len args(2) by auto
qed

theorem due_tasks_claimable_witness:
  "\<exists>t' v'. ClaimTask millisecond_driver ''app'' ''t1'' ''l1'' (2 * second) (17 * second) [task_row_of sample_task] = (t', Inr v')"
  using due_tasks_claimable[OF sample_task_ok sample_due, of sample_task "''l1''" "17 * second"]
  by (auto simp: sample_task_def)

text \<open>A new task that passes validation but whose deadline lies in the same millisecond as its
  availability is refused by a \<open>CHECK\<close> constraint and reported as already existing, in an empty table.\<close>

theorem check_violation_reported_as_exists:
  "\<exists>v. ValidateNewTask v = Inr () \<and> CreateTask millisecond_driver v [] = ([], task_fail Task_Exists)"
proof (intro exI conjI)
  let ?v = "sample_task\<lparr>t_deadline := second + 1\<rparr>"
  show v: "ValidateNewTask ?v = Inr ()"
    using sample_task_valid by (simp add: ValidateNewTask_iff) (simp add: sample_task_def second_def millisecond_def)
  have "\<not> task_row_check millisecond_driver (task_row_of ?v)"
    by (simp add: task_row_check_def task_row_of_def sample_task_def millisecond_driver_def second_def millisecond_def)
  then show "CreateTask millisecond_driver ?v [] = ([], task_fail Task_Exists)"
    by (simp add: CreateTask_def v exec_insert_def)
qed

text \<open>Scheduling a retry, from a live lease or on recovery, raises the attempt by exactly one and
  leaves the stored error class as it was: the class of the failure is not recorded.\<close>

theorem retry_keeps_error_class:
  assumes "task_store_ok drv t" and "run_lease_op drv op v at t = (t', Inr ())"
    and "op = Op_Retry next \<or> op = Op_Retry_Dead next"
  shows "\<exists>r r'. select_key task_key_of (task_key_of v) t = Some r \<and>
      select_key task_key_of (task_key_of v) t' = Some r' \<and> t_attempt r' = t_attempt r + 1 \<and>
      t_available_at r' = next \<and> t_status r' = Task_Retry_Scheduled \<and> t_error_class r' = t_error_class r"
proof -
  obtain r where "select_key task_key_of (task_key_of v) t = Some r"
    and "select_key task_key_of (task_key_of v) t' = Some (outcome_set (op_outcome op) at r)"
    using run_lease_op_row[OF assms(1,2)] by blast
  then show ?thesis
    using assms(3) by auto
qed

theorem retry_keeps_error_class_witness:
  "\<exists>r'. select_key task_key_of (''app'', ''t1'')
        (fst (RetryTask millisecond_driver held_task (5 * second) (3 * second) [held_row])) = Some r' \<and>
      t_error_class r' = Class_None \<and> t_attempt r' = 2"
proof -
  have run: "run_lease_op millisecond_driver (Op_Retry (5 * second)) held_task (3 * second) [held_row] =
      ([outcome_set (Outcome_Retry (5 * second)) (3 * second) held_row], Inr ())"
    by (simp add: held_retry)
  then have "fst (RetryTask millisecond_driver held_task (5 * second) (3 * second) [held_row]) =
      [outcome_set (Outcome_Retry (5 * second)) (3 * second) held_row]"
    by (simp add: held_retry)
  with retry_keeps_error_class[OF held_row_ok run, of "5 * second"] show ?thesis
    by (auto simp: held_key held_row_fields simp del: outcome_set.simps)
qed

end
