(* ===== verification/Backoff.thy ===== *)
theory Backoff
  imports Prelude
begin

text \<open>
  The exponential backoff that the task scheduler and the orchestrator share: a doubling loop up to a
  cap on 64-bit durations, and the jitter factor in permille drawn from one byte of a hash.
\<close>

text \<open>The doubling loop, over the number of rounds left; products wrap at 64 bits.\<close>

fun retry_loop :: "duration \<Rightarrow> nat \<Rightarrow> duration \<Rightarrow> duration" where
  "retry_loop mx 0 delay = delay"
| "retry_loop mx (Suc n) delay =
     (if delay < mx then
        (let d = wrap64 (delay * 2) in retry_loop mx n (if mx < d then mx else d))
      else delay)"

definition jitterPermille :: "nat \<Rightarrow> int" where
  "jitterPermille b = 800 + int b * 400 div 255"

text \<open>The loop doubles up to the cap; below 2^62 nothing wraps.\<close>

lemma retry_loop_value:
  assumes "0 < delay" and "delay \<le> mx" and "mx < 2 ^ 62"
  shows "retry_loop mx n delay = min mx (delay * 2 ^ n)"
  using assms
proof (induction n arbitrary: delay)
  case (Suc n)
  show ?case
  proof (cases "delay < mx")
    case False
    then have "mx \<le> delay * 2 ^ Suc n"
      using Suc.prems by (smt (verit) mult_le_cancel_left1 one_le_power)
    then show ?thesis using False Suc.prems by simp
  next
    case True
    have w: "wrap64 (delay * 2) = delay * 2"
      using Suc.prems by (intro wrap64_id) auto
    show ?thesis
    proof (cases "mx < delay * 2")
      case True
      then have "mx \<le> delay * 2 * 2 ^ n"
        using Suc.prems(1) by (smt (verit) mult_le_cancel_left1 one_le_power)
      moreover have "retry_loop mx n mx = mx"
        by (cases n) simp_all
      ultimately show ?thesis
        using w True \<open>delay < mx\<close> by (simp add: Let_def mult.assoc)
    next
      case False
      then have "retry_loop mx n (delay * 2) = min mx (delay * 2 * 2 ^ n)"
        using Suc.prems by (intro Suc.IH) auto
      then show ?thesis
        using w False \<open>delay < mx\<close> by (simp add: Let_def mult.assoc)
    qed
  qed
qed simp

lemma jitter_range: "b < 256 \<Longrightarrow> 800 \<le> jitterPermille b \<and> jitterPermille b \<le> 1200"
  by (simp add: jitterPermille_def) linarith

text \<open>The delay with the jitter applied, in 64-bit arithmetic.\<close>

definition jittered :: "duration \<Rightarrow> nat \<Rightarrow> duration" where
  "jittered delay b = go_div (wrap64 (delay * jitterPermille b)) 1000"

lemma retry_loop_closed:
  assumes "0 < delay" and "mx < 2 ^ 62"
  shows "retry_loop mx n delay = max delay (min mx (delay * 2 ^ n))"
proof (cases "delay \<le> mx")
  case True
  moreover have "delay \<le> delay * 2 ^ n" using assms(1) by simp
  ultimately show ?thesis using retry_loop_value[OF assms(1) True assms(2)] by simp
next
  case False
  then show ?thesis by (cases n) simp_all
qed

lemma jittered_value:
  assumes "0 \<le> delay" and "delay < 2 ^ 52" and "b < 256"
  shows "jittered delay b = delay * jitterPermille b div 1000"
proof -
  have j: "0 \<le> jitterPermille b" "jitterPermille b \<le> 1200" using jitter_range[OF assms(3)] by auto
  then have "delay * jitterPermille b \<le> 2 ^ 52 * 1200"
    using assms(1,2) by (intro mult_mono) auto
  moreover have "0 \<le> delay * jitterPermille b" using assms(1) j by simp
  ultimately show ?thesis by (simp add: jittered_def go_div_nonneg)
qed

end
