(* ===== verification/Task_Scheduler.thy ===== *)
theory Task_Scheduler
  imports Task_Guarantees Backoff
begin

text \<open>
  \<open>internal/kernel/task/scheduler.go\<close>: the configuration and its defaults, the backoff, the two levels
  of slots, creation, polling and dispatch, the decision after a handler returned, the transitions,
  recovery and cancellation, over the \<open>Store\<close> port of package task. Clock readings, tokens, the
  SHA-256 hash and the handlers' results are arguments; log output is not modelled.
\<close>

section \<open>Configuration\<close>

record sched_config =
  sc_max_concurrent :: int
  sc_app_capacity :: int
  sc_poll_interval :: duration
  sc_lease_duration :: duration
  sc_retry_base :: duration
  sc_retry_max :: duration
  sc_recovery_interval :: duration
  sc_batch_size :: int
  sc_default_max_attempts :: u32

definition defaultMaxConcurrent :: int where "defaultMaxConcurrent = 16"
definition defaultAppCapacity :: int where "defaultAppCapacity = 4"
definition defaultPollInterval :: duration where "defaultPollInterval = 500 * millisecond"
definition defaultLeaseDuration :: duration where "defaultLeaseDuration = 15 * second"
definition defaultRetryBaseDelay :: duration where "defaultRetryBaseDelay = 500 * millisecond"
definition defaultRetryMaxDelay :: duration where "defaultRetryMaxDelay = 30 * second"
definition defaultRecoveryInterval :: duration where "defaultRecoveryInterval = 5 * second"
definition defaultBatchSize :: int where "defaultBatchSize = 32"
definition defaultMaxAttempts :: u32 where "defaultMaxAttempts = 3"

lemmas sched_defaults = defaultMaxConcurrent_def defaultAppCapacity_def defaultPollInterval_def
  defaultLeaseDuration_def defaultRetryBaseDelay_def defaultRetryMaxDelay_def
  defaultRecoveryInterval_def defaultBatchSize_def defaultMaxAttempts_def

text \<open>The chain of assignments in \<open>NewScheduler\<close>.\<close>

definition positive_or :: "int \<Rightarrow> int \<Rightarrow> int" where
  "positive_or v d = (if v \<le> 0 then d else v)"

definition NewSchedulerConfig :: "sched_config \<Rightarrow> sched_config" where
  "NewSchedulerConfig c =
     (let base = positive_or (sc_retry_base c) defaultRetryBaseDelay;
          max0 = positive_or (sc_retry_max c) defaultRetryMaxDelay;
          max1 = (if max0 < base then base else max0);
          batch0 = positive_or (sc_batch_size c) defaultBatchSize;
          batch1 = (if 1000 < batch0 then 1000 else batch0);
          att0 = (if sc_default_max_attempts c = 0 then defaultMaxAttempts else sc_default_max_attempts c);
          att1 = (if maxAttempts < att0 then maxAttempts else att0)
      in \<lparr>sc_max_concurrent = positive_or (sc_max_concurrent c) defaultMaxConcurrent,
          sc_app_capacity = positive_or (sc_app_capacity c) defaultAppCapacity,
          sc_poll_interval = positive_or (sc_poll_interval c) defaultPollInterval,
          sc_lease_duration = positive_or (sc_lease_duration c) defaultLeaseDuration,
          sc_retry_base = base, sc_retry_max = max1,
          sc_recovery_interval = positive_or (sc_recovery_interval c) defaultRecoveryInterval,
          sc_batch_size = batch1, sc_default_max_attempts = att1\<rparr>)"

section \<open>The store port and the surroundings of the scheduler\<close>

record 's task_port =
  tp_create :: "task \<Rightarrow> 's \<Rightarrow> 's \<times> unit go_result"
  tp_claim :: "string \<Rightarrow> string \<Rightarrow> string \<Rightarrow> instant \<Rightarrow> instant \<Rightarrow> 's \<Rightarrow> 's \<times> task go_result"
  tp_renew :: "task \<Rightarrow> instant \<Rightarrow> instant \<Rightarrow> 's \<Rightarrow> 's \<times> unit go_result"
  tp_complete :: "task \<Rightarrow> instant \<Rightarrow> 's \<Rightarrow> 's \<times> unit go_result"
  tp_fail :: "task \<Rightarrow> error_class \<Rightarrow> instant \<Rightarrow> 's \<Rightarrow> 's \<times> unit go_result"
  tp_retry :: "task \<Rightarrow> instant \<Rightarrow> instant \<Rightarrow> 's \<Rightarrow> 's \<times> unit go_result"
  tp_cancel_queued :: "string \<Rightarrow> string \<Rightarrow> instant \<Rightarrow> 's \<Rightarrow> 's \<times> (task \<times> bool) go_result"
  tp_cancel_running :: "task \<Rightarrow> instant \<Rightarrow> 's \<Rightarrow> 's \<times> unit go_result"
  tp_list_due :: "instant \<Rightarrow> int \<Rightarrow> 's \<Rightarrow> task list go_result"
  tp_list_dead :: "instant \<Rightarrow> int \<Rightarrow> 's \<Rightarrow> task list go_result"
  tp_retry_dead :: "task \<Rightarrow> instant \<Rightarrow> instant \<Rightarrow> 's \<Rightarrow> 's \<times> unit go_result"
  tp_fail_dead :: "task \<Rightarrow> error_class \<Rightarrow> instant \<Rightarrow> 's \<Rightarrow> 's \<times> unit go_result"

definition sqlite_task_port :: "sql_driver \<Rightarrow> task_table task_port" where
  "sqlite_task_port drv =
     \<lparr>tp_create = CreateTask drv, tp_claim = ClaimTask drv, tp_renew = RenewTaskLease drv,
      tp_complete = CompleteTask drv, tp_fail = FailTask drv, tp_retry = RetryTask drv,
      tp_cancel_queued = CancelQueuedTask drv, tp_cancel_running = CancelRunningTask drv,
      tp_list_due = ListDueTasks drv, tp_list_dead = ListDeadTasks drv,
      tp_retry_dead = RetryDeadTask drv, tp_fail_dead = FailDeadTask drv\<rparr>"

record ('s, 'h, 'c) sched_env =
  se_port :: "'s task_port"
  se_registry :: "('h, 'c) type_registry"
  se_config :: sched_config
  se_validate :: "'c \<Rightarrow> string \<Rightarrow> unit go_result"
  se_sha256 :: "string \<Rightarrow> string"

section \<open>Backoff\<close>

definition jitter_byte :: "(string \<Rightarrow> string) \<Rightarrow> task \<Rightarrow> nat" where
  "jitter_byte sha256 v = (case sha256 (t_app_id v @ ''/'' @ t_task_id v) of b # _ \<Rightarrow> code b | [] \<Rightarrow> 0)"

definition retryDelay :: "sched_config \<Rightarrow> (string \<Rightarrow> string) \<Rightarrow> task \<Rightarrow> duration" where
  "retryDelay cfg sha256 v =
     (let delay = retry_loop (sc_retry_max cfg) (unat (t_attempt v) - 1) (sc_retry_base cfg)
      in jittered delay (jitter_byte sha256 v))"

section \<open>Retry policy and the decision after a handler returned\<close>

definition retryAllowed :: "('s, 'h, 'c) sched_env \<Rightarrow> task \<Rightarrow> error_class \<Rightarrow> bool" where
  "retryAllowed env v cls =
     (if cls \<noteq> Class_Retryable \<and> cls \<noteq> Class_Lease_Lost then False
      else (case LookupType (se_registry env) (t_type v) of
              None \<Rightarrow> False
            | Some spec \<Rightarrow>
                if \<not> ts_allow_retry spec then False else t_attempt v < t_max_attempts v))"

text \<open>The call a transition makes on the store; \<open>now\<close> is the clock when it is made.\<close>

datatype task_action =
    Act_None | Act_Complete instant | Act_Fail error_class instant | Act_Retry instant instant
  | Act_Cancel instant | Act_Retry_Dead instant instant | Act_Fail_Dead error_class instant

fun run_action :: "'s task_port \<Rightarrow> task \<Rightarrow> task_action \<Rightarrow> 's \<Rightarrow> 's \<times> unit go_result" where
  "run_action port v Act_None s = (s, Inr ())"
| "run_action port v (Act_Complete now) s = tp_complete port v now s"
| "run_action port v (Act_Fail cls now) s = tp_fail port v cls now s"
| "run_action port v (Act_Retry next now) s = tp_retry port v next now s"
| "run_action port v (Act_Cancel now) s = tp_cancel_running port v now s"
| "run_action port v (Act_Retry_Dead next now) s = tp_retry_dead port v next now s"
| "run_action port v (Act_Fail_Dead cls now) s = tp_fail_dead port v cls now s"

definition transitionSucceeded :: "instant \<Rightarrow> task_action" where
  "transitionSucceeded now = Act_Complete now"

definition transitionFailure :: "error_class \<Rightarrow> instant \<Rightarrow> task_action" where
  "transitionFailure cls now = Act_Fail cls now"

text \<open>The clock is read again when the retry would come too late and the task fails instead.\<close>

definition transitionRetry ::
  "('s, 'h, 'c) sched_env \<Rightarrow> task \<Rightarrow> error_class \<Rightarrow> instant \<Rightarrow> instant \<Rightarrow> task_action" where
  "transitionRetry env v cls now now2 =
     (let next = now + retryDelay (se_config env) (se_sha256 env) v in
      if \<not> before next (t_deadline v) then transitionFailure cls now2 else Act_Retry next now)"

definition transitionCancelled :: "instant \<Rightarrow> task_action" where
  "transitionCancelled now = Act_Cancel now"

definition transitionLeaseLost :: "('s, 'h, 'c) sched_env \<Rightarrow> task \<Rightarrow> instant \<Rightarrow> instant \<Rightarrow> task_action" where
  "transitionLeaseLost env v now now2 =
     (if retryAllowed env v Class_Lease_Lost then transitionRetry env v Class_Lease_Lost now now2
      else transitionFailure Class_Lease_Lost now)"

text \<open>
  \<open>finishExecution\<close>: the error of the execution context, whether the execution was cancelled
  explicitly, the failure of the lease renewal if one was reported, and the handler's error.
\<close>

definition finishExecution ::
  "('s, 'h, 'c) sched_env \<Rightarrow> task \<Rightarrow> context_error option \<Rightarrow> bool \<Rightarrow> go_error option \<Rightarrow> go_error option
     \<Rightarrow> instant \<Rightarrow> instant \<Rightarrow> task_action" where
  "finishExecution env v ctx_err cancelled lease_failure result_err now now2 =
     (if ctx_err = Some Ctx_DeadlineExceeded then transitionFailure Class_Deadline now
      else if ctx_err = Some Ctx_Canceled \<and> cancelled then transitionCancelled now
      else if ctx_err = Some Ctx_Canceled then
        (case lease_failure of
           Some _ \<Rightarrow> transitionLeaseLost env v now now2
         | None \<Rightarrow> Act_None)
      else if result_err = None then transitionSucceeded now
      else (case ClassifyFailure result_err of
              Class_Deadline \<Rightarrow> transitionFailure Class_Deadline now
            | Class_Retryable \<Rightarrow>
                if retryAllowed env v Class_Retryable then transitionRetry env v Class_Retryable now now2
                else transitionFailure Class_Retryable now
            | cls \<Rightarrow> transitionFailure cls now))"

section \<open>Recovery of dead tasks\<close>

definition recover_action :: "('s, 'h, 'c) sched_env \<Rightarrow> instant \<Rightarrow> task \<Rightarrow> task_action" where
  "recover_action env now v =
     (if \<not> after (t_deadline v) now then Act_Fail_Dead Class_Deadline now
      else if retryAllowed env v Class_Lease_Lost then
        (let next = now + retryDelay (se_config env) (se_sha256 env) v in
         if after next (t_deadline v) \<or> next = t_deadline v then Act_Fail_Dead Class_Lease_Lost now
         else Act_Retry_Dead next now)
      else Act_Fail_Dead Class_Lease_Lost now)"

fun recover_loop :: "('s, 'h, 'c) sched_env \<Rightarrow> instant \<Rightarrow> task list \<Rightarrow> 's \<Rightarrow> 's" where
  "recover_loop env now [] s = s"
| "recover_loop env now (v # vs) s =
     recover_loop env now vs (fst (run_action (se_port env) v (recover_action env now v) s))"

definition recoverDeadTasks :: "('s, 'h, 'c) sched_env \<Rightarrow> bool \<Rightarrow> instant \<Rightarrow> 's \<Rightarrow> 's" where
  "recoverDeadTasks env stopped now s =
     (if stopped then s
      else case tp_list_dead (se_port env) now (sc_batch_size (se_config env)) s of
        Inl _ \<Rightarrow> s
      | Inr dead \<Rightarrow> recover_loop env now dead s)"

section \<open>Creation\<close>

record create_request =
  cq_app_id :: string
  cq_type :: string
  cq_params :: string
  cq_idempotency_key :: string
  cq_max_attempts :: u32
  cq_deadline :: instant
  cq_available_at :: instant
  cq_task_id :: string

definition SchedulerCreate ::
  "('s, 'h, 'c) sched_env \<Rightarrow> instant \<Rightarrow> string \<Rightarrow> create_request \<Rightarrow> 's \<Rightarrow> 's \<times> task go_result" where
  "SchedulerCreate env now new_id q s =
     (if LookupType (se_registry env) (cq_type q) = None then (s, task_fail Task_TypeUnknown)
      else case ValidateParams (se_validate env) (se_registry env) (cq_type q) (cq_params q) of
        Inl e \<Rightarrow> (s, Inl e)
      | Inr _ \<Rightarrow>
        if is_zero (cq_deadline q) \<or> \<not> after (cq_deadline q) now then (s, invalid_task)
        else
          let available = (if is_zero (cq_available_at q) then now else cq_available_at q);
              limit = (if cq_max_attempts q = 0 then sc_default_max_attempts (se_config env) else cq_max_attempts q)
          in if before available now then (s, invalid_task)
             else if \<not> after (cq_deadline q) available then (s, invalid_task)
             else if limit < 1 \<or> maxAttempts < limit then (s, invalid_task)
             else
               let v = \<lparr>t_app_id = cq_app_id q,
                        t_task_id = (if cq_task_id q = [] then new_id else cq_task_id q),
                        t_type = cq_type q, t_status = Task_Queued, t_attempt = 1, t_max_attempts = limit,
                        t_deadline = cq_deadline q, t_available_at = available, t_lease_token = [],
                        t_lease_expires = None, t_idempotency_key = cq_idempotency_key q,
                        t_params = cq_params q, t_error_class = Class_None, t_created_at = now,
                        t_updated_at = now\<rparr>
               in (case ValidateNewTask v of
                     Inl e \<Rightarrow> (s, Inl e)
                   | Inr _ \<Rightarrow>
                       (case tp_create (se_port env) v s of
                          (s', Inl e) \<Rightarrow> (s', Inl e)
                        | (s', Inr _) \<Rightarrow> (s', Inr v))))"

section \<open>Slots\<close>

text \<open>Channels as counters: the number of tokens in the global channel and in each App's channel.\<close>

record slots =
  sl_workers :: nat
  sl_apps :: "string \<Rightarrow> nat option"

definition appSlotsFor :: "string \<Rightarrow> slots \<Rightarrow> slots \<times> nat" where
  "appSlotsFor app sl =
     (case sl_apps sl app of
        None \<Rightarrow> (sl\<lparr>sl_apps := (sl_apps sl)(app \<mapsto> 0)\<rparr>, 0)
      | Some n \<Rightarrow> (sl, n))"

definition acquireSlots :: "sched_config \<Rightarrow> string \<Rightarrow> slots \<Rightarrow> slots \<times> bool" where
  "acquireSlots cfg app sl =
     (if int (sl_workers sl) < sc_max_concurrent cfg then
        (let sl1 = sl\<lparr>sl_workers := sl_workers sl + 1\<rparr>;
             (sl2, n) = appSlotsFor app sl1
         in if int n < sc_app_capacity cfg
            then (sl2\<lparr>sl_apps := (sl_apps sl2)(app \<mapsto> n + 1)\<rparr>, True)
            else (sl2\<lparr>sl_workers := sl_workers sl2 - 1\<rparr>, False))
      else (sl, False))"

text \<open>A receive from an empty channel blocks for good: \<open>None\<close>.\<close>

definition releaseSlots :: "string \<Rightarrow> slots \<Rightarrow> slots option" where
  "releaseSlots app sl =
     (let (sl1, n) = appSlotsFor app sl in
      if n = 0 \<or> sl_workers sl1 = 0 then None
      else Some (sl1\<lparr>sl_apps := (sl_apps sl1)(app \<mapsto> n - 1), sl_workers := sl_workers sl1 - 1\<rparr>))"

end
