(* ===== verification/Task_Scheduling.thy ===== *)
theory Task_Scheduling
  imports Task_Scheduler
begin

text \<open>
  The concurrent part of \<open>internal/kernel/task/scheduler.go\<close>: polling and dispatching under the slots,
  the execution goroutines with their phases, cancellation and its race with the start of an
  execution, as a step relation over the scheduler's state; its invariants; and the guarantees.
\<close>

section \<open>State\<close>

text \<open>
  An execution goroutine is spawned, then has its cancel function assigned, then, past its checks,
  handles. \<open>ex_ctx\<close> is the error of its context; the first cause stays.
\<close>

datatype phase = Spawned | Armed | Handling

record execution =
  ex_id :: nat
  ex_task :: task
  ex_phase :: phase
  ex_cancelled :: bool
  ex_ctx :: "context_error option"
  ex_lease_failure :: "go_error option"

text \<open>
  \<open>ss_execs\<close> is the map \<open>executions\<close>, from keys to the identities of execution objects;
  \<open>ss_cancelling\<close> holds the executions a \<open>Cancel\<close> call has marked and whose cancel function it has
  not read yet.
\<close>

record 's sched_state =
  ss_store :: 's
  ss_slots :: slots
  ss_execs :: "string \<Rightarrow> nat option"
  ss_flights :: "execution list"
  ss_next :: nat
  ss_cancelling :: "nat list"

definition executionKey :: "string \<Rightarrow> string \<Rightarrow> string" where
  "executionKey app tid = app @ [CHR 0x00] @ tid"

definition task_exec_key :: "task \<Rightarrow> string" where
  "task_exec_key v = executionKey (t_app_id v) (t_task_id v)"

text \<open>The first start: a later one, after a shutdown, is left out, and one while the scheduler runs does nothing.\<close>

definition Start :: "'s \<Rightarrow> 's sched_state" where
  "Start store =
     \<lparr>ss_store = store, ss_slots = \<lparr>sl_workers = 0, sl_apps = Map.empty\<rparr>, ss_execs = Map.empty,
      ss_flights = [], ss_next = 0, ss_cancelling = []\<rparr>"

section \<open>Operations\<close>

definition do_action :: "('s, 'h, 'c) sched_env \<Rightarrow> task \<Rightarrow> task_action \<Rightarrow> 's sched_state \<Rightarrow> 's sched_state" where
  "do_action env v a st = st\<lparr>ss_store := fst (run_action (se_port env) v a (ss_store st))\<rparr>"

definition release_for :: "string \<Rightarrow> 's sched_state \<Rightarrow> 's sched_state option" where
  "release_for app st = map_option (\<lambda>sl. st\<lparr>ss_slots := sl\<rparr>) (releaseSlots app (ss_slots st))"

text \<open>\<open>dispatch\<close>; \<open>now\<close> is the clock reading of the failure transition.\<close>

definition dispatch ::
  "('s, 'h, 'c) sched_env \<Rightarrow> task \<Rightarrow> instant \<Rightarrow> instant \<Rightarrow> 's sched_state \<Rightarrow> 's sched_state option" where
  "dispatch env v claimed now st =
     (if \<not> after (t_deadline v) claimed
      then release_for (t_app_id v) (do_action env v (transitionFailure Class_Deadline now) st)
      else Some (st\<lparr>ss_execs := (ss_execs st)(task_exec_key v \<mapsto> ss_next st),
                    ss_flights := \<lparr>ex_id = ss_next st, ex_task = v, ex_phase = Spawned, ex_cancelled = False,
                                  ex_ctx = None, ex_lease_failure = None\<rparr> # ss_flights st,
                    ss_next := ss_next st + 1\<rparr>))"

text \<open>One candidate of \<open>poll\<close>.\<close>

definition poll_one ::
  "('s, 'h, 'c) sched_env \<Rightarrow> instant \<Rightarrow> string \<Rightarrow> instant \<Rightarrow> task \<Rightarrow> 's sched_state \<Rightarrow> 's sched_state option" where
  "poll_one env now token now2 candidate st =
     (let (sl, got) = acquireSlots (se_config env) (t_app_id candidate) (ss_slots st);
          st1 = st\<lparr>ss_slots := sl\<rparr>
      in if \<not> got then Some st1
         else case tp_claim (se_port env) (t_app_id candidate) (t_task_id candidate) token now
                     (now + sc_lease_duration (se_config env)) (ss_store st1) of
                (s', Inl _) \<Rightarrow> release_for (t_app_id candidate) (st1\<lparr>ss_store := s'\<rparr>)
              | (s', Inr v) \<Rightarrow> dispatch env v now now2 (st1\<lparr>ss_store := s'\<rparr>))"

fun poll_loop ::
  "('s, 'h, 'c) sched_env \<Rightarrow> instant \<Rightarrow> instant \<Rightarrow> (task \<times> string) list \<Rightarrow> 's sched_state \<Rightarrow> 's sched_state option" where
  "poll_loop env now now2 [] st = Some st"
| "poll_loop env now now2 ((c, token) # rest) st =
     Option.bind (poll_one env now token now2 c st) (poll_loop env now now2 rest)"

text \<open>\<open>poll\<close>; \<open>tokens\<close> are the lease tokens drawn, at least one per candidate.\<close>

definition poll ::
  "('s, 'h, 'c) sched_env \<Rightarrow> bool \<Rightarrow> instant \<Rightarrow> instant \<Rightarrow> string list \<Rightarrow> 's sched_state \<Rightarrow> 's sched_state option" where
  "poll env stopped now now2 tokens st =
     (if stopped then Some st
      else case tp_list_due (se_port env) now (sc_batch_size (se_config env)) (ss_store st) of
        Inl _ \<Rightarrow> Some st
      | Inr due \<Rightarrow> poll_loop env now now2 (zip due tokens) st)"

definition update_flight :: "nat \<Rightarrow> (execution \<Rightarrow> execution) \<Rightarrow> 's sched_state \<Rightarrow> 's sched_state" where
  "update_flight i f st = st\<lparr>ss_flights := map (\<lambda>e. if ex_id e = i then f e else e) (ss_flights st)\<rparr>"

definition cancel_ctx :: "execution \<Rightarrow> execution" where
  "cancel_ctx e = (if ex_ctx e = None then e\<lparr>ex_ctx := Some Ctx_Canceled\<rparr> else e)"

text \<open>The deferred calls of \<open>execute\<close>: the map entry of the key is deleted, the slots are released.\<close>

definition exit_execution :: "execution \<Rightarrow> 's sched_state \<Rightarrow> 's sched_state option" where
  "exit_execution e st =
     release_for (t_app_id (ex_task e))
       (st\<lparr>ss_execs := (ss_execs st)(task_exec_key (ex_task e) := None),
           ss_flights := filter (\<lambda>x. ex_id x \<noteq> ex_id e) (ss_flights st)\<rparr>)"

text \<open>The checks of \<open>execute\<close> between the assignment of the cancel function and the handler.\<close>

definition execute_check ::
  "('s, 'h, 'c) sched_env \<Rightarrow> instant \<Rightarrow> execution \<Rightarrow> 's sched_state \<Rightarrow> 's sched_state option" where
  "execute_check env now e st =
     (let v = ex_task e in
      if LookupType (se_registry env) (t_type v) = None
        then exit_execution e (do_action env v (transitionFailure Class_NonRetryable now) st)
      else case ValidateParams (se_validate env) (se_registry env) (t_type v) (t_params v) of
        Inl _ \<Rightarrow> exit_execution e (do_action env v (transitionFailure Class_NonRetryable now) st)
      | Inr _ \<Rightarrow>
          if ex_cancelled e then exit_execution e (do_action env v (transitionCancelled now) st)
          else Some (update_flight (ex_id e) (\<lambda>x. x\<lparr>ex_phase := Handling\<rparr>) st))"

definition execute_finish ::
  "('s, 'h, 'c) sched_env \<Rightarrow> instant \<Rightarrow> instant \<Rightarrow> go_error option \<Rightarrow> execution \<Rightarrow> 's sched_state \<Rightarrow> 's sched_state option" where
  "execute_finish env now now2 result e st =
     exit_execution e (do_action env (ex_task e)
       (finishExecution env (ex_task e) (ex_ctx e) (ex_cancelled e) (ex_lease_failure e) result now now2) st)"

text \<open>One round of \<open>renewLease\<close>: a failed renewal is reported once and cancels the context.\<close>

definition renew_round :: "('s, 'h, 'c) sched_env \<Rightarrow> instant \<Rightarrow> execution \<Rightarrow> 's sched_state \<Rightarrow> 's sched_state" where
  "renew_round env at e st =
     (case tp_renew (se_port env) (ex_task e) at (at + sc_lease_duration (se_config env)) (ss_store st) of
        (s', Inr _) \<Rightarrow> st\<lparr>ss_store := s'\<rparr>
      | (s', Inl err) \<Rightarrow>
          update_flight (ex_id e)
            (\<lambda>x. cancel_ctx (x\<lparr>ex_lease_failure := (case ex_lease_failure x of None \<Rightarrow> Some err | f \<Rightarrow> f)\<rparr>))
            (st\<lparr>ss_store := s'\<rparr>))"

text \<open>
  \<open>Cancel\<close> in two parts, as another goroutine sees it: the store call and the marking of the
  execution object, then the reading and calling of its cancel function.
\<close>

definition cancel_mark ::
  "('s, 'h, 'c) sched_env \<Rightarrow> string \<Rightarrow> string \<Rightarrow> instant \<Rightarrow> 's sched_state \<Rightarrow> 's sched_state \<times> (bool go_result + nat)" where
  "cancel_mark env app tid now st =
     (case tp_cancel_queued (se_port env) app tid now (ss_store st) of
        (s', Inl err) \<Rightarrow> (st\<lparr>ss_store := s'\<rparr>, Inl (Inl err))
      | (s', Inr (_, cancelled)) \<Rightarrow>
          let st1 = st\<lparr>ss_store := s'\<rparr> in
          if cancelled then (st1, Inl (Inr True))
          else (case ss_execs st1 (executionKey app tid) of
                  None \<Rightarrow> (st1, Inl (Inr False))
                | Some i \<Rightarrow>
                    ((update_flight i (\<lambda>e. e\<lparr>ex_cancelled := True\<rparr>) st1)
                       \<lparr>ss_cancelling := i # ss_cancelling st1\<rparr>, Inr i)))"

definition cancel_fire :: "nat \<Rightarrow> 's sched_state \<Rightarrow> 's sched_state" where
  "cancel_fire i st =
     (update_flight i (\<lambda>e. if ex_phase e = Spawned then e else cancel_ctx e) st)
       \<lparr>ss_cancelling := remove1 i (ss_cancelling st)\<rparr>"

definition SchedulerCancel ::
  "('s, 'h, 'c) sched_env \<Rightarrow> string \<Rightarrow> string \<Rightarrow> instant \<Rightarrow> 's sched_state \<Rightarrow> 's sched_state \<times> bool go_result" where
  "SchedulerCancel env app tid now st =
     (case cancel_mark env app tid now st of
        (st1, Inl r) \<Rightarrow> (st1, r)
      | (st1, Inr i) \<Rightarrow> (cancel_fire i st1, Inr True))"

section \<open>Steps\<close>

inductive sched_step :: "('s, 'h, 'c) sched_env \<Rightarrow> 's sched_state \<Rightarrow> 's sched_state \<Rightarrow> bool" for env where
  poll_candidate: "poll_one env now token now2 c st = Some st' \<Longrightarrow> sched_step env st st'"
| arm: "e \<in> set (ss_flights st) \<Longrightarrow> ex_phase e = Spawned \<Longrightarrow>
    sched_step env st (update_flight (ex_id e) (\<lambda>x. x\<lparr>ex_phase := Armed\<rparr>) st)"
| check_step: "e \<in> set (ss_flights st) \<Longrightarrow> ex_phase e = Armed \<Longrightarrow>
    execute_check env now e st = Some st' \<Longrightarrow> sched_step env st st'"
| deadline: "e \<in> set (ss_flights st) \<Longrightarrow> ex_phase e \<noteq> Spawned \<Longrightarrow> ex_ctx e = None \<Longrightarrow>
    sched_step env st (update_flight (ex_id e) (\<lambda>x. x\<lparr>ex_ctx := Some Ctx_DeadlineExceeded\<rparr>) st)"
| renew: "e \<in> set (ss_flights st) \<Longrightarrow> ex_phase e = Handling \<Longrightarrow> ex_ctx e = None \<Longrightarrow>
    sched_step env st (renew_round env at e st)"
| handler_returns: "e \<in> set (ss_flights st) \<Longrightarrow> ex_phase e = Handling \<Longrightarrow>
    execute_finish env now now2 result e st = Some st' \<Longrightarrow> sched_step env st st'"
| mark: "cancel_mark env app tid now st = (st', r) \<Longrightarrow> sched_step env st st'"
| fire: "i \<in> set (ss_cancelling st) \<Longrightarrow> sched_step env st (cancel_fire i st)"
| others: "sched_step env st (st\<lparr>ss_store := s\<rparr>)"

definition reachable :: "('s, 'h, 'c) sched_env \<Rightarrow> 's sched_state \<Rightarrow> bool" where
  "reachable env st \<longleftrightarrow> (\<exists>s. (sched_step env)\<^sup>*\<^sup>* (Start s) st)"

section \<open>The invariant\<close>

definition in_app :: "string \<Rightarrow> execution list \<Rightarrow> nat" where
  "in_app app es = length (filter (\<lambda>e. t_app_id (ex_task e) = app) es)"

definition slot_count :: "slots \<Rightarrow> string \<Rightarrow> nat" where
  "slot_count sl app = (case sl_apps sl app of None \<Rightarrow> 0 | Some n \<Rightarrow> n)"

definition slots_match :: "slots \<Rightarrow> execution list \<Rightarrow> bool" where
  "slots_match sl es \<longleftrightarrow> sl_workers sl = length es \<and> (\<forall>app. slot_count sl app = in_app app es)"

definition slots_bounded :: "sched_config \<Rightarrow> slots \<Rightarrow> bool" where
  "slots_bounded cfg sl \<longleftrightarrow>
     int (sl_workers sl) \<le> sc_max_concurrent cfg \<and> (\<forall>app. int (slot_count sl app) \<le> sc_app_capacity cfg)"

definition cancels_seen :: "'s sched_state \<Rightarrow> bool" where
  "cancels_seen st \<longleftrightarrow>
     (\<forall>e \<in> set (ss_flights st). ex_cancelled e \<longrightarrow> ex_phase e = Handling \<longrightarrow>
        ex_ctx e \<noteq> None \<or> ex_id e \<in> set (ss_cancelling st))"

definition ids_fresh :: "'s sched_state \<Rightarrow> bool" where
  "ids_fresh st \<longleftrightarrow>
     distinct (map ex_id (ss_flights st)) \<and> (\<forall>e \<in> set (ss_flights st). ex_id e < ss_next st)"

definition sched_ok :: "sched_config \<Rightarrow> 's sched_state \<Rightarrow> bool" where
  "sched_ok cfg st \<longleftrightarrow>
     slots_match (ss_slots st) (ss_flights st) \<and> slots_bounded cfg (ss_slots st) \<and>
     ids_fresh st \<and> cancels_seen st"

text \<open>The slots while one acquired slot of an App has no execution yet, or none any more.\<close>

definition slots_plus :: "slots \<Rightarrow> execution list \<Rightarrow> string \<Rightarrow> bool" where
  "slots_plus sl es app \<longleftrightarrow>
     sl_workers sl = Suc (length es) \<and>
     (\<forall>a. slot_count sl a = in_app a es + (if a = app then 1 else 0))"

lemma appSlotsFor_count:
  assumes "appSlotsFor app sl = (sl', n)"
  shows "n = slot_count sl app \<and> sl_workers sl' = sl_workers sl \<and> slot_count sl' = slot_count sl \<and>
    slot_count (sl'\<lparr>sl_apps := (sl_apps sl')(app \<mapsto> m)\<rparr>) = (slot_count sl)(app := m) \<and>
    slot_count (sl'\<lparr>sl_apps := (sl_apps sl')(app \<mapsto> m), sl_workers := w\<rparr>) = (slot_count sl)(app := m)"
  using assms by (auto simp: appSlotsFor_def slot_count_def fun_eq_iff split: option.splits if_splits)

lemma slot_count_workers [simp]: "slot_count (sl\<lparr>sl_workers := n\<rparr>) = slot_count sl"
  by (simp add: slot_count_def fun_eq_iff)

lemma acquireSlots_match:
  assumes "slots_match sl es" and "slots_bounded cfg sl" and "acquireSlots cfg app sl = (sl', got)"
  shows "slots_bounded cfg sl' \<and> (if got then slots_plus sl' es app else slots_match sl' es)"
proof (cases "int (sl_workers sl) < sc_max_concurrent cfg")
  case True
  obtain sl2 n where a: "appSlotsFor app (sl\<lparr>sl_workers := sl_workers sl + 1\<rparr>) = (sl2, n)"
    by fastforce
  note c = appSlotsFor_count[OF a, of "n + 1"]
  show ?thesis
    using assms True a c
    by (auto simp: acquireSlots_def slots_bounded_def slots_match_def slots_plus_def split: if_splits)
next
  case False
  then show ?thesis using assms by (auto simp: acquireSlots_def)
qed

lemma releaseSlots_match:
  assumes "slots_plus sl es app" and "slots_bounded cfg sl"
  shows "\<exists>sl'. releaseSlots app sl = Some sl' \<and> slots_match sl' es \<and> slots_bounded cfg sl'"
proof -
  obtain sl1 n where a: "appSlotsFor app sl = (sl1, n)"
    by fastforce
  note c = appSlotsFor_count[OF a, of "n - 1" "sl_workers sl1 - 1"]
  have n: "n = Suc (in_app app es)" and w: "sl_workers sl1 = Suc (length es)"
    using c assms(1) by (simp_all add: slots_plus_def)
  let ?sl' = "sl1\<lparr>sl_apps := (sl_apps sl1)(app \<mapsto> n - 1), sl_workers := sl_workers sl1 - 1\<rparr>"
  have "releaseSlots app sl = Some ?sl'"
    using a n w by (simp add: releaseSlots_def)
  moreover have cnt: "slot_count ?sl' a = in_app a es" for a
    using c n assms(1) by (simp add: slots_plus_def)
  then have "slots_match ?sl' es"
    using w by (simp add: slots_match_def)
  moreover have "slots_bounded cfg ?sl'"
    unfolding slots_bounded_def
  proof (intro conjI allI)
    show "int (sl_workers ?sl') \<le> sc_max_concurrent cfg"
      using assms(2) c by (simp add: slots_bounded_def) linarith
    have "slot_count ?sl' a \<le> slot_count sl a" for a
      using cnt[of a] assms(1) by (simp add: slots_plus_def)
    then show "int (slot_count ?sl' a) \<le> sc_app_capacity cfg" for a
      using assms(2) unfolding slots_bounded_def by (meson of_nat_mono order.trans)
  qed
  ultimately show ?thesis by blast
qed

section \<open>Facts on the operations\<close>

lemma do_action_sel [simp]:
  "ss_slots (do_action env v a st) = ss_slots st" "ss_flights (do_action env v a st) = ss_flights st"
  "ss_next (do_action env v a st) = ss_next st" "ss_cancelling (do_action env v a st) = ss_cancelling st"
  "ss_execs (do_action env v a st) = ss_execs st"
  by (simp_all add: do_action_def)

lemma update_flight_sel [simp]:
  "ss_slots (update_flight i f st) = ss_slots st" "ss_next (update_flight i f st) = ss_next st"
  "ss_cancelling (update_flight i f st) = ss_cancelling st" "ss_execs (update_flight i f st) = ss_execs st"
  "ss_store (update_flight i f st) = ss_store st"
  "ss_flights (update_flight i f st) = map (\<lambda>e. if ex_id e = i then f e else e) (ss_flights st)"
  by (simp_all add: update_flight_def)

text \<open>A change of one execution that keeps its identity and task leaves slots and identities alone.\<close>

lemma in_app_map:
  assumes "\<And>e. ex_task (g e) = ex_task e"
  shows "in_app app (map g es) = in_app app es"
  by (induction es) (auto simp: in_app_def assms)

lemma update_flight_ok:
  assumes "sched_ok cfg st" and "\<And>e. ex_id (f e) = ex_id e" and "\<And>e. ex_task (f e) = ex_task e"
    and "cancels_seen (update_flight i f st)"
  shows "sched_ok cfg (update_flight i f st)"
proof -
  let ?g = "\<lambda>e. if ex_id e = i then f e else e"
  have "map ex_id (map ?g (ss_flights st)) = map ex_id (ss_flights st)"
    using assms(2) by simp
  moreover have "in_app app (map ?g (ss_flights st)) = in_app app (ss_flights st)" for app
    by (rule in_app_map) (simp add: assms(3))
  moreover have "ids_fresh (update_flight i f st)"
    using assms(1,2) calculation(1) unfolding sched_ok_def ids_fresh_def
    by (auto simp del: map_map)
  ultimately show ?thesis
    using assms(1,4) unfolding sched_ok_def slots_match_def by simp
qed

lemma filter_id_length:
  "distinct (map ex_id es) \<Longrightarrow> e \<in> set es \<Longrightarrow> Suc (length (filter (\<lambda>x. ex_id x \<noteq> ex_id e) es)) = length es"
proof (induction es)
  case (Cons x es)
  show ?case
  proof (cases "x = e")
    case True
    then have "filter (\<lambda>x. ex_id x \<noteq> ex_id e) es = es"
      using Cons.prems(1) True by (simp add: filter_id_conv) (metis imageI)
    then show ?thesis using True by simp
  next
    case False
    then have "e \<in> set es" using Cons.prems(2) by simp
    moreover from this have "ex_id x \<noteq> ex_id e" using Cons.prems(1) by auto
    ultimately show ?thesis using Cons by simp
  qed
qed simp

lemma slots_plus_exit:
  assumes "slots_match sl es" and "distinct (map ex_id es)" and "e \<in> set es"
  shows "slots_plus sl (filter (\<lambda>x. ex_id x \<noteq> ex_id e) es) (t_app_id (ex_task e))"
proof -
  have "in_app app es = in_app app (filter (\<lambda>x. ex_id x \<noteq> ex_id e) es) +
      (if app = t_app_id (ex_task e) then 1 else 0)" for app
  proof (cases "app = t_app_id (ex_task e)")
    case True
    have "Suc (length (filter (\<lambda>x. ex_id x \<noteq> ex_id e) (filter (\<lambda>x. t_app_id (ex_task x) = app) es))) =
        length (filter (\<lambda>x. t_app_id (ex_task x) = app) es)"
      by (rule filter_id_length) (use assms True in \<open>auto simp: distinct_map_filter\<close>)
    moreover have "filter (\<lambda>x. ex_id x \<noteq> ex_id e) (filter (\<lambda>x. t_app_id (ex_task x) = app) es) =
        filter (\<lambda>x. t_app_id (ex_task x) = app) (filter (\<lambda>x. ex_id x \<noteq> ex_id e) es)"
      by (simp add: conj_commute)
    ultimately show ?thesis using True by (simp add: in_app_def)
  next
    case False
    have "x = e" if "x \<in> set es" "ex_id x = ex_id e" for x
      using that assms(2,3) by (auto simp: distinct_map dest: inj_onD)
    then have "filter (\<lambda>x. ex_id x \<noteq> ex_id e \<and> t_app_id (ex_task x) = app) es =
        filter (\<lambda>x. t_app_id (ex_task x) = app) es"
      using False by (intro filter_cong) auto
    then show ?thesis using False by (simp add: in_app_def conj_commute)
  qed
  then show ?thesis
    using assms(1) filter_id_length[OF assms(2,3)] by (simp add: slots_plus_def slots_match_def)
qed

text \<open>Leaving an execution never blocks on the slots and keeps the invariant.\<close>

lemma exit_execution_ok:
  assumes "sched_ok cfg st" and "e \<in> set (ss_flights st)"
  shows "\<exists>st'. exit_execution e st = Some st' \<and> sched_ok cfg st' \<and> ss_store st' = ss_store st"
proof -
  let ?es = "filter (\<lambda>x. ex_id x \<noteq> ex_id e) (ss_flights st)"
  have "slots_plus (ss_slots st) ?es (t_app_id (ex_task e))"
    using assms by (intro slots_plus_exit) (auto simp: sched_ok_def ids_fresh_def)
  then obtain sl where "releaseSlots (t_app_id (ex_task e)) (ss_slots st) = Some sl" "slots_match sl ?es"
    "slots_bounded cfg sl"
    using releaseSlots_match assms(1) unfolding sched_ok_def by blast
  then show ?thesis
    using assms(1)
    by (auto simp: exit_execution_def release_for_def sched_ok_def ids_fresh_def cancels_seen_def
        distinct_map_filter)
qed

lemma do_action_ok [simp]: "sched_ok cfg (do_action env v a st) \<longleftrightarrow> sched_ok cfg st"
  by (simp add: sched_ok_def ids_fresh_def cancels_seen_def)

lemma sched_ok_store [simp]: "sched_ok cfg (st\<lparr>ss_store := s\<rparr>) \<longleftrightarrow> sched_ok cfg st"
  by (simp add: sched_ok_def ids_fresh_def cancels_seen_def)

lemma Start_ok: "0 \<le> sc_max_concurrent cfg \<Longrightarrow> 0 \<le> sc_app_capacity cfg \<Longrightarrow> sched_ok cfg (Start s)"
  by (simp add: Start_def sched_ok_def slots_match_def slots_bounded_def ids_fresh_def cancels_seen_def
      slot_count_def in_app_def)

section \<open>The interface the scheduler relies on\<close>

text \<open>A claim returns the task that was asked for.\<close>

locale claiming_port =
  fixes env :: "('s, 'h, 'c) sched_env"
  assumes claim_key: "tp_claim (se_port env) app tid token at expires s = (s', Inr v) \<Longrightarrow>
      t_app_id v = app \<and> t_task_id v = tid"
begin

lemma dispatch_ok:
  assumes "slots_plus (ss_slots st) (ss_flights st) (t_app_id v)" and "slots_bounded (se_config env) (ss_slots st)"
    and "ids_fresh st" and "cancels_seen st"
  shows "\<exists>st'. dispatch env v claimed now st = Some st' \<and> sched_ok (se_config env) st'"
proof (cases "after (t_deadline v) claimed")
  case True
  then show ?thesis
    using assms
    by (auto simp: dispatch_def sched_ok_def slots_match_def slots_plus_def in_app_def ids_fresh_def cancels_seen_def
        less_Suc_eq)
next
  case False
  obtain sl where "releaseSlots (t_app_id v) (ss_slots st) = Some sl" "slots_match sl (ss_flights st)"
    "slots_bounded (se_config env) sl"
    using releaseSlots_match[OF assms(1,2)] by blast
  then show ?thesis
    using False assms(3,4)
    by (auto simp: dispatch_def release_for_def sched_ok_def ids_fresh_def cancels_seen_def)
qed

text \<open>A polled candidate is dispatched, or left alone, or its slots are given back.\<close>

lemma poll_one_ok:
  assumes "sched_ok (se_config env) st"
  shows "\<exists>st'. poll_one env now token now2 c st = Some st' \<and> sched_ok (se_config env) st'"
proof -
  obtain sl got where a: "acquireSlots (se_config env) (t_app_id c) (ss_slots st) = (sl, got)"
    by fastforce
  note m = acquireSlots_match[OF _ _ a, of "ss_flights st"]
  have b: "slots_bounded (se_config env) sl" and p: "if got then slots_plus sl (ss_flights st) (t_app_id c)
      else slots_match sl (ss_flights st)"
    using m assms by (simp_all add: sched_ok_def)
  obtain s' r where claim: "tp_claim (se_port env) (t_app_id c) (t_task_id c) token now
      (now + sc_lease_duration (se_config env)) (ss_store st) = (s', r)"
    by fastforce
  let ?st1 = "st\<lparr>ss_slots := sl, ss_store := s'\<rparr>"
  have inv: "ids_fresh ?st1" "cancels_seen ?st1"
    using assms by (simp_all add: sched_ok_def ids_fresh_def cancels_seen_def)
  show ?thesis
  proof (cases got)
    case False
    then show ?thesis
      using a b p assms by (auto simp: poll_one_def sched_ok_def ids_fresh_def cancels_seen_def)
  next
    case got: True
    show ?thesis
    proof (cases r)
      case (Inl e)
      obtain sl2 where "releaseSlots (t_app_id c) sl = Some sl2" "slots_match sl2 (ss_flights st)"
        "slots_bounded (se_config env) sl2"
        using releaseSlots_match[of sl "ss_flights st" "t_app_id c" "se_config env"] b p got by auto
      then show ?thesis
        using a got claim Inl inv
        by (auto simp: poll_one_def release_for_def sched_ok_def ids_fresh_def cancels_seen_def)
    next
      case (Inr v)
      then have "t_app_id v = t_app_id c"
        using claim claim_key by blast
      then have "\<exists>st'. dispatch env v now now2 ?st1 = Some st' \<and> sched_ok (se_config env) st'"
        using p got b inv by (intro dispatch_ok) simp_all
      then show ?thesis
        using a got claim Inr by (simp add: poll_one_def)
    qed
  qed
qed

lemma cancels_seen_update:
  assumes "cancels_seen st"
    and "\<And>e. e \<in> set (ss_flights st) \<Longrightarrow> ex_id e = i \<Longrightarrow> ex_cancelled (f e) \<Longrightarrow> ex_phase (f e) = Handling \<Longrightarrow>
          ex_ctx (f e) \<noteq> None \<or> ex_id (f e) \<in> set (ss_cancelling st)"
  shows "cancels_seen (update_flight i f st)"
  using assms unfolding cancels_seen_def by auto

lemma execute_check_ok:
  assumes "sched_ok (se_config env) st" and "e \<in> set (ss_flights st)"
  shows "\<exists>st'. execute_check env now e st = Some st' \<and> sched_ok (se_config env) st'"
proof -
  have exit: "\<exists>st'. exit_execution e (do_action env v a st) = Some st' \<and> sched_ok (se_config env) st'" for v a
    using exit_execution_ok[of "se_config env" "do_action env v a st" e] assms by auto
  have same: "x = e" if "x \<in> set (ss_flights st)" "ex_id x = ex_id e" for x
    using that assms by (auto simp: sched_ok_def ids_fresh_def distinct_map dest: inj_onD)
  have go: "sched_ok (se_config env) (update_flight (ex_id e) (\<lambda>x. x\<lparr>ex_phase := Handling\<rparr>) st)"
    if "\<not> ex_cancelled e"
    by (rule update_flight_ok[OF assms(1)])
      (use that assms(1) in \<open>auto simp: sched_ok_def intro!: cancels_seen_update dest: same\<close>)
  show ?thesis
    using exit go by (auto simp: execute_check_def Let_def split: sum.split)
qed

lemma execute_finish_ok:
  assumes "sched_ok (se_config env) st" and "e \<in> set (ss_flights st)"
  shows "\<exists>st'. execute_finish env now now2 res e st = Some st' \<and> sched_ok (se_config env) st'"
  unfolding execute_finish_def
  using exit_execution_ok[of "se_config env" "do_action env v a st" e for v a] assms by auto

lemma cancel_mark_ok:
  assumes "sched_ok cfg st" and "cancel_mark env app tid now st = (st', r)"
  shows "sched_ok cfg st'"
proof -
  obtain s' x where c: "tp_cancel_queued (se_port env) app tid now (ss_store st) = (s', x)"
    by fastforce
  let ?st1 = "st\<lparr>ss_store := s'\<rparr>"
  have ok1: "sched_ok cfg ?st1" using assms(1) by simp
  have marked: "sched_ok cfg ((update_flight i (\<lambda>e. e\<lparr>ex_cancelled := True\<rparr>) ?st1)
      \<lparr>ss_cancelling := i # ss_cancelling ?st1\<rparr>)" for i
  proof -
    let ?st2 = "?st1\<lparr>ss_cancelling := i # ss_cancelling ?st1\<rparr>"
    have "sched_ok cfg ?st2"
      using ok1 by (auto simp: sched_ok_def ids_fresh_def cancels_seen_def)
    then have "sched_ok cfg (update_flight i (\<lambda>e. e\<lparr>ex_cancelled := True\<rparr>) ?st2)"
      by (rule update_flight_ok) (use \<open>sched_ok cfg ?st2\<close> in \<open>auto simp: sched_ok_def intro!: cancels_seen_update\<close>)
    then show ?thesis
      by (simp add: sched_ok_def ids_fresh_def cancels_seen_def)
  qed
  show ?thesis
    using assms(2) c ok1 marked unfolding cancel_mark_def Let_def
    by (auto split: sum.splits prod.splits if_splits option.splits)
qed

lemma cancel_fire_ok:
  assumes "sched_ok cfg st"
  shows "sched_ok cfg (cancel_fire i st)"
proof -
  let ?f = "\<lambda>e. if ex_phase e = Spawned then e else cancel_ctx e"
  have "cancels_seen (cancel_fire i st)"
    using assms by (auto simp: cancel_fire_def sched_ok_def cancels_seen_def cancel_ctx_def)
  moreover have "sched_ok cfg (update_flight i ?f st)"
    by (rule update_flight_ok[OF assms])
      (use assms in \<open>auto simp: cancel_ctx_def sched_ok_def intro!: cancels_seen_update split: if_splits\<close>)
  ultimately show ?thesis
    by (simp add: sched_ok_def cancel_fire_def ids_fresh_def)
qed

lemma renew_round_ok:
  assumes "sched_ok cfg st"
  shows "sched_ok cfg (renew_round env at e st)"
proof -
  let ?f = "\<lambda>err x. cancel_ctx (x\<lparr>ex_lease_failure := (case ex_lease_failure x of None \<Rightarrow> Some err | f \<Rightarrow> f)\<rparr>)"
  have upd: "sched_ok cfg (update_flight (ex_id e) (?f err) (st\<lparr>ss_store := s\<rparr>))" for err s
    by (rule update_flight_ok)
      (use assms in \<open>auto simp: cancel_ctx_def sched_ok_def ids_fresh_def cancels_seen_def intro!: cancels_seen_update
        split: if_splits\<close>)
  show ?thesis
    unfolding renew_round_def using assms upd by (auto split: prod.splits sum.splits)
qed

lemma sched_step_ok: "sched_step env st st' \<Longrightarrow> sched_ok (se_config env) st \<Longrightarrow> sched_ok (se_config env) st'"
proof (induction rule: sched_step.induct)
  case (poll_candidate now token now2 c st st')
  then show ?case using poll_one_ok[OF poll_candidate(2), of now token now2 c] by auto
next
  case (arm e st)
  show ?case
    by (rule update_flight_ok[OF arm(3)])
      (use arm in \<open>auto simp: sched_ok_def intro!: cancels_seen_update\<close>)
next
  case (check_step e st now st')
  then show ?case using execute_check_ok[of st e now] by auto
next
  case (deadline e st)
  show ?case
    by (rule update_flight_ok[OF deadline(4)])
      (use deadline in \<open>auto simp: sched_ok_def intro!: cancels_seen_update\<close>)
next
  case (renew e st at)
  then show ?case using renew_round_ok by blast
next
  case (handler_returns e st now now2 res st')
  then show ?case using execute_finish_ok[of st e now now2 res] by auto
next
  case (mark app tid now st st' r)
  then show ?case using cancel_mark_ok by blast
next
  case (fire i st)
  then show ?case using cancel_fire_ok by blast
qed simp

lemma reachable_ok:
  assumes "reachable env st" and "0 \<le> sc_max_concurrent (se_config env)" and "0 \<le> sc_app_capacity (se_config env)"
  shows "sched_ok (se_config env) st"
proof -
  obtain s where "(sched_step env)\<^sup>*\<^sup>* (Start s) st"
    using assms(1) by (auto simp: reachable_def)
  then show ?thesis
    by (induction rule: rtranclp_induct) (auto intro: Start_ok assms(2,3) sched_step_ok)
qed

text \<open>A whole poll never blocks and is a sequence of candidate steps.\<close>

lemma poll_loop_steps:
  "sched_ok (se_config env) st \<Longrightarrow>
     \<exists>st'. poll_loop env now now2 cs st = Some st' \<and> (sched_step env)\<^sup>*\<^sup>* st st' \<and> sched_ok (se_config env) st'"
proof (induction cs arbitrary: st)
  case (Cons x cs)
  obtain c token where x: "x = (c, token)" by (cases x)
  obtain st1 where one: "poll_one env now token now2 c st = Some st1" "sched_ok (se_config env) st1"
    using poll_one_ok[OF Cons.prems] by blast
  then obtain st2 where "poll_loop env now now2 cs st1 = Some st2" "(sched_step env)\<^sup>*\<^sup>* st1 st2"
    "sched_ok (se_config env) st2"
    using Cons.IH by blast
  then show ?case
    using one x converse_rtranclp_into_rtranclp[of "sched_step env", OF sched_step.poll_candidate[OF one(1)]] by auto
qed auto

end

end
