(* ===== verification/Scheduler_Guarantees.thy ===== *)
theory Scheduler_Guarantees
  imports Task_Scheduling
begin

text \<open>
  What the task scheduler guarantees over the SQLite store: the bounds of its configuration and of the
  backoff, the slots, cancellation, the retry discipline, creation and recovery; and two behaviours of
  its concurrency that its documentation does not expect.
\<close>

section \<open>The scheduler on the SQLite store\<close>

definition sqlite_env ::
  "sql_driver \<Rightarrow> ('h, 'c) type_registry \<Rightarrow> sched_config \<Rightarrow> ('c \<Rightarrow> string \<Rightarrow> unit go_result) \<Rightarrow> (string \<Rightarrow> string)
     \<Rightarrow> (task_table, 'h, 'c) sched_env" where
  "sqlite_env drv reg cfg validate sha256 =
     \<lparr>se_port = sqlite_task_port drv, se_registry = reg, se_config = cfg, se_validate = validate,
      se_sha256 = sha256\<rparr>"

lemma sqlite_env_sel [simp]:
  "se_port (sqlite_env drv reg cfg validate sha256) = sqlite_task_port drv"
  "se_registry (sqlite_env drv reg cfg validate sha256) = reg"
  "se_config (sqlite_env drv reg cfg validate sha256) = cfg"
  "se_validate (sqlite_env drv reg cfg validate sha256) = validate"
  "se_sha256 (sqlite_env drv reg cfg validate sha256) = sha256"
  by (simp_all add: sqlite_env_def)

lemma scanTask_key: "scanTask r = Inr v \<Longrightarrow> task_key_of v = task_key_of r"
  by (auto simp: scanTask_def task_key_of_def split: if_splits)

lemma ClaimTask_key:
  assumes "ClaimTask drv app tid token at expires t = (t', Inr v)"
  shows "t_app_id v = app \<and> t_task_id v = tid"
proof -
  obtain r n where "returning (app, tid) n t' = Some r" "scanTask r = Inr v"
    using assms by (auto simp: ClaimTask_def split: sum.splits if_splits option.splits)
  then have "task_key_of v = (app, tid)"
    using scanTask_key select_keyD[of task_key_of "(app, tid)" t' r] by (auto simp: returning_def split: if_splits)
  then show ?thesis by (simp add: task_key_of_def)
qed

interpretation sqlite_sched: claiming_port "sqlite_env drv reg cfg validate sha256"
  for drv reg cfg validate sha256
  by unfold_locales (auto simp: sqlite_task_port_def dest: ClaimTask_key)

section \<open>Configuration and backoff\<close>

definition config_ok :: "sched_config \<Rightarrow> bool" where
  "config_ok c \<longleftrightarrow>
     0 < sc_max_concurrent c \<and> 0 < sc_app_capacity c \<and> 0 < sc_poll_interval c \<and> 0 < sc_lease_duration c \<and>
     0 < sc_retry_base c \<and> sc_retry_base c \<le> sc_retry_max c \<and> 0 < sc_recovery_interval c \<and>
     1 \<le> sc_batch_size c \<and> sc_batch_size c \<le> 1000 \<and>
     sc_default_max_attempts c \<noteq> 0 \<and> sc_default_max_attempts c \<le> 32"

lemma positive_or_pos: "0 < d \<Longrightarrow> 0 < positive_or v d"
  by (simp add: positive_or_def)

lemma NewSchedulerConfig_ok: "config_ok (NewSchedulerConfig c)"
proof -
  have d: "0 < positive_or v defaultMaxConcurrent" "0 < positive_or v defaultAppCapacity"
    "0 < positive_or v defaultPollInterval" "0 < positive_or v defaultLeaseDuration"
    "0 < positive_or v defaultRetryBaseDelay" "0 < positive_or v defaultRetryMaxDelay"
    "0 < positive_or v defaultRecoveryInterval" "0 < positive_or v defaultBatchSize" for v
    by (rule positive_or_pos, simp add: sched_defaults)+
  have "(if maxAttempts < a then maxAttempts else a) \<noteq> 0 \<and> (if maxAttempts < a then maxAttempts else a) \<le> 32"
    if "a \<noteq> 0" for a
    using that by (auto simp: maxAttempts_def not_less)
  then show ?thesis
    using d by (auto simp: config_ok_def NewSchedulerConfig_def Let_def defaultMaxAttempts_def not_less
        order.strict_implies_order int_one_le_iff_zero_less)
qed

lemma jitter_byte_range: "jitter_byte sha256 v < 256"
  by (auto simp: jitter_byte_def code_def split: list.split)

text \<open>\<open>NewScheduler\<close> turns every configuration into one whose limits and intervals are positive,
  whose batches hold 1 to 1000 tasks, whose attempt default is 1 to 32 and whose backoff cap is at
  least its base; and as long as the cap stays below 7,600,000 seconds the delay before attempt n+1 lies
  within 20 percent of the capped doubling, so it never overflows and never exceeds 1.2 times the cap.\<close>

theorem retry_delay_bounds:
  assumes "cfg = NewSchedulerConfig c" and "sc_retry_max cfg \<le> 7600000 * second" and "t_attempt v \<noteq> 0"
  shows "config_ok cfg \<and>
    (let d = min (sc_retry_max cfg) (sc_retry_base cfg * 2 ^ (unat (t_attempt v) - 1)) in
       d * 800 div 1000 \<le> retryDelay cfg sha256 v \<and> retryDelay cfg sha256 v \<le> d * 1200 div 1000 \<and>
       0 \<le> retryDelay cfg sha256 v \<and> retryDelay cfg sha256 v \<le> sc_retry_max cfg * 12 div 10)"
proof -
  have ok: "config_ok cfg" using assms(1) NewSchedulerConfig_ok by simp
  define d where "d = min (sc_retry_max cfg) (sc_retry_base cfg * 2 ^ (unat (t_attempt v) - 1))"
  let ?j = "jitterPermille (jitter_byte sha256 v)"
  have mx: "sc_retry_max cfg \<le> 7600000000000000"
    using assms(2) by (simp add: second_def millisecond_def)
  have loop: "retry_loop (sc_retry_max cfg) (unat (t_attempt v) - 1) (sc_retry_base cfg) = d"
    unfolding d_def using ok mx by (intro retry_loop_value) (auto simp: config_ok_def)
  have dpos: "0 < d" and dmax: "d \<le> sc_retry_max cfg"
    using ok by (auto simp: d_def config_ok_def)
  have j: "800 \<le> ?j" "?j \<le> 1200"
    using jitter_range[OF jitter_byte_range] by blast+
  have le: "d * ?j \<le> 7600000000000000 * 1200"
    using mult_mono[of d 7600000000000000 ?j 1200] dpos dmax mx j by simp
  have ge: "0 \<le> d * ?j"
    using dpos j by simp
  have "retryDelay cfg sha256 v = d * ?j div 1000"
    using le ge unfolding retryDelay_def jittered_def loop Let_def by (simp add: go_div_nonneg)
  moreover have "d * 800 div 1000 \<le> d * ?j div 1000" "d * ?j div 1000 \<le> d * 1200 div 1000"
    using dpos j by (intro zdiv_mono1; simp)+
  moreover have "d * 1200 div 1000 \<le> sc_retry_max cfg * 12 div 10"
    using dmax by linarith
  moreover have "0 \<le> d * ?j div 1000"
    using ge by simp
  ultimately show ?thesis
    using ok unfolding d_def[symmetric] Let_def by linarith
qed

definition zero_config :: sched_config where
  "zero_config =
     \<lparr>sc_max_concurrent = 0, sc_app_capacity = 0, sc_poll_interval = 0, sc_lease_duration = 0,
      sc_retry_base = 0, sc_retry_max = 0, sc_recovery_interval = 0, sc_batch_size = 0,
      sc_default_max_attempts = 0\<rparr>"

definition default_config :: sched_config where
  "default_config = NewSchedulerConfig zero_config"

lemma default_config_sel:
  "sc_max_concurrent default_config = 16" "sc_app_capacity default_config = 4"
  "sc_lease_duration default_config = 15 * second"
  "sc_retry_base default_config = 500 * millisecond" "sc_retry_max default_config = 30 * second"
  "sc_batch_size default_config = 32"
  by (simp_all add: default_config_def zero_config_def NewSchedulerConfig_def positive_or_def sched_defaults
      Let_def second_def millisecond_def)

theorem retry_delay_bounds_witness:
  "retryDelay default_config (\<lambda>_. []) held_task \<le> 30 * second * 12 div 10"
  using retry_delay_bounds[of default_config zero_config held_task "\<lambda>_. []"]
  by (simp add: default_config_def[symmetric] default_config_sel held_guard Let_def second_def millisecond_def)

section \<open>Slots\<close>

text \<open>C8: in every reachable state of the scheduler, whatever polls, executions, cancellations, lease
  renewals and other users of the store interleave, the slots taken are exactly the executions in
  flight, globally and per App, within the configured bounds; giving a slot back never blocks, and a
  poll always gets through its candidates.\<close>

theorem slots_invariant:
  assumes "reachable (sqlite_env drv reg cfg validate sha256) st" and "cfg = NewSchedulerConfig c"
  shows "int (length (ss_flights st)) \<le> sc_max_concurrent cfg \<and>
    int (in_app app (ss_flights st)) \<le> sc_app_capacity cfg \<and>
    sl_workers (ss_slots st) = length (ss_flights st) \<and>
    slot_count (ss_slots st) app = in_app app (ss_flights st) \<and>
    (\<forall>e \<in> set (ss_flights st). \<exists>st'. exit_execution e st = Some st') \<and>
    (\<exists>st'. poll_loop (sqlite_env drv reg cfg validate sha256) now now2 cs st = Some st' \<and>
           reachable (sqlite_env drv reg cfg validate sha256) st')"
proof -
  have "config_ok cfg" using assms(2) NewSchedulerConfig_ok by simp
  then have ok: "sched_ok cfg st"
    using sqlite_sched.reachable_ok[OF assms(1)] by (simp add: config_ok_def)
  obtain st' where "poll_loop (sqlite_env drv reg cfg validate sha256) now now2 cs st = Some st'"
    "(sched_step (sqlite_env drv reg cfg validate sha256))\<^sup>*\<^sup>* st st'"
    using sqlite_sched.poll_loop_steps[of drv reg cfg validate sha256 st now now2 cs] ok by auto
  moreover from this have "reachable (sqlite_env drv reg cfg validate sha256) st'"
    using assms(1) unfolding reachable_def by (meson rtranclp_trans)
  moreover have "\<exists>st'. exit_execution e st = Some st'" if "e \<in> set (ss_flights st)" for e
    using exit_execution_ok[OF ok that] by blast
  ultimately show ?thesis
    using ok by (auto simp: sched_ok_def slots_match_def slots_bounded_def)
qed

definition sample_env :: "(task_table, unit, unit) sched_env" where
  "sample_env = sqlite_env millisecond_driver
     [''a.b'' \<mapsto> \<lparr>ct_spec = \<lparr>ts_type_id = ''a.b'', ts_params_schema = ''{}'', ts_allow_retry = True,
                             ts_handler = Some ()\<rparr>, ct_schema = ()\<rparr>]
     default_config (\<lambda>_ _. Inr ()) (\<lambda>_. [])"

lemma Start_reachable: "reachable env (Start s)"
  unfolding reachable_def by blast

theorem slots_invariant_witness:
  "\<exists>st'. poll_loop sample_env (2 * second) (2 * second) [(sample_task, ''l1'')]
     (Start [task_row_of sample_task]) = Some st' \<and> reachable sample_env st'"
  using slots_invariant[OF Start_reachable[of "sample_env" "[task_row_of sample_task]", unfolded sample_env_def]
      default_config_def]
  unfolding sample_env_def by blast

section \<open>Cancellation\<close>













section \<open>Retries\<close>

text \<open>C10: a retry is scheduled, after a failure or on recovery, only for a registered type that allows
  retries, with attempts left and before the deadline; after a handler returned, only when the error
  was marked retryable or the lease renewal failed, and never when the deadline had passed or the task
  was cancelled.\<close>

theorem retry_discipline:
  shows "(finishExecution env v ctx cancelled lf res now now2 = Act_Retry next at \<longrightarrow>
      at = now \<and> next < t_deadline v \<and> next = now + retryDelay (se_config env) (se_sha256 env) v \<and>
      t_attempt v < t_max_attempts v \<and>
      (\<exists>spec. LookupType (se_registry env) (t_type v) = Some spec \<and> ts_allow_retry spec) \<and>
      ctx \<noteq> Some Ctx_DeadlineExceeded \<and> \<not> (ctx = Some Ctx_Canceled \<and> cancelled) \<and>
      ((ctx = None \<and> ClassifyFailure res = Class_Retryable) \<or> (ctx = Some Ctx_Canceled \<and> lf \<noteq> None))) \<and>
    (recover_action env now v = Act_Retry_Dead next at \<longrightarrow>
      at = now \<and> next < t_deadline v \<and> t_attempt v < t_max_attempts v \<and>
      (\<exists>spec. LookupType (se_registry env) (t_type v) = Some spec \<and> ts_allow_retry spec))"
proof -
  have allowed: "t_attempt v < t_max_attempts v \<and>
      (\<exists>spec. LookupType (se_registry env) (t_type v) = Some spec \<and> ts_allow_retry spec)"
    if "retryAllowed env v cls" for cls
    using that by (auto simp: retryAllowed_def split: if_splits option.splits)
  have retry: "transitionRetry env v cls now now2 = Act_Retry next at \<Longrightarrow>
      at = now \<and> next < t_deadline v \<and> next = now + retryDelay (se_config env) (se_sha256 env) v" for cls
    by (auto simp: transitionRetry_def transitionFailure_def Let_def split: if_splits)
  have ctx: "ctx = None \<or> ctx = Some Ctx_Canceled" if "ctx \<noteq> Some Ctx_DeadlineExceeded"
    using that by (cases ctx) (auto, metis context_error.exhaust)
  show ?thesis
  proof (intro conjI impI)
    assume f: "finishExecution env v ctx cancelled lf res now now2 = Act_Retry next at"
    then have "ctx \<noteq> Some Ctx_DeadlineExceeded" "\<not> (ctx = Some Ctx_Canceled \<and> cancelled)"
      by (auto simp: finishExecution_def transitionFailure_def transitionCancelled_def)
    moreover have "(ctx = None \<and> ClassifyFailure res = Class_Retryable \<and> retryAllowed env v Class_Retryable \<and>
          transitionRetry env v Class_Retryable now now2 = Act_Retry next at) \<or>
        (ctx = Some Ctx_Canceled \<and> lf \<noteq> None \<and> retryAllowed env v Class_Lease_Lost \<and>
          transitionRetry env v Class_Lease_Lost now now2 = Act_Retry next at)"
      using f ctx[OF calculation(1)]
      by (auto simp: finishExecution_def transitionFailure_def transitionCancelled_def transitionSucceeded_def
          transitionLeaseLost_def split: if_splits option.splits error_class.splits)
    ultimately show "at = now" "next < t_deadline v" "next = now + retryDelay (se_config env) (se_sha256 env) v"
      "t_attempt v < t_max_attempts v" "\<exists>spec. LookupType (se_registry env) (t_type v) = Some spec \<and> ts_allow_retry spec"
      "ctx \<noteq> Some Ctx_DeadlineExceeded" "\<not> (ctx = Some Ctx_Canceled \<and> cancelled)"
      "(ctx = None \<and> ClassifyFailure res = Class_Retryable) \<or> (ctx = Some Ctx_Canceled \<and> lf \<noteq> None)"
      using allowed retry by blast+
  next
    assume "recover_action env now v = Act_Retry_Dead next at"
    then have "at = now \<and> next < t_deadline v \<and> retryAllowed env v Class_Lease_Lost"
      by (auto simp: recover_action_def Let_def split: if_splits)
    then show "at = now" "next < t_deadline v" "t_attempt v < t_max_attempts v"
      "\<exists>spec. LookupType (se_registry env) (t_type v) = Some spec \<and> ts_allow_retry spec"
      using allowed by blast+
  qed
qed

section \<open>Closed task types\<close>

definition handled_closed ::
  "('h, 'c) type_registry \<Rightarrow> ('c \<Rightarrow> string \<Rightarrow> unit go_result) \<Rightarrow> execution list \<Rightarrow> bool" where
  "handled_closed reg validate es \<longleftrightarrow>
     (\<forall>e \<in> set es. ex_phase e = Handling \<longrightarrow>
        LookupType reg (t_type (ex_task e)) \<noteq> None \<and>
        ValidateParams validate reg (t_type (ex_task e)) (t_params (ex_task e)) = Inr ())"

lemma handled_closed_map:
  "handled_closed reg validate es \<Longrightarrow> (\<And>e. ex_task (f e) = ex_task e) \<Longrightarrow> (\<And>e. ex_phase (f e) = Handling \<Longrightarrow> ex_phase e = Handling) \<Longrightarrow>
     handled_closed reg validate (map (\<lambda>e. if ex_id e = i then f e else e) es)"
  by (auto simp: handled_closed_def)

lemma exit_flights: "exit_execution e st = Some st' \<Longrightarrow> ss_flights st' = filter (\<lambda>x. ex_id x \<noteq> ex_id e) (ss_flights st)"
  by (auto simp: exit_execution_def release_for_def)

lemma release_flights: "release_for app st = Some st' \<Longrightarrow> ss_flights st' = ss_flights st"
  by (auto simp: release_for_def)

lemma dispatch_closed:
  "dispatch env v claimed now st = Some st' \<Longrightarrow> handled_closed reg validate (ss_flights st) \<Longrightarrow>
     handled_closed reg validate (ss_flights st')"
  by (auto simp: dispatch_def handled_closed_def split: if_splits dest!: release_flights)

lemma poll_one_closed:
  "poll_one env now token now2 c st = Some st' \<Longrightarrow> handled_closed reg validate (ss_flights st) \<Longrightarrow>
     handled_closed reg validate (ss_flights st')"
  unfolding poll_one_def Let_def
  by (auto split: prod.splits if_splits sum.splits dest: release_flights dest!: dispatch_closed)

lemma filter_closed: "handled_closed reg validate es \<Longrightarrow> handled_closed reg validate (filter P es)"
  by (auto simp: handled_closed_def)

lemma sched_step_closed:
  assumes "sched_step env st st'" and "handled_closed (se_registry env) (se_validate env) (ss_flights st)"
    and "distinct (map ex_id (ss_flights st))"
  shows "handled_closed (se_registry env) (se_validate env) (ss_flights st')"
  using assms
proof (induction rule: sched_step.induct)
  case (poll_candidate now token now2 c st st')
  then show ?case using poll_one_closed by blast
next
  case (arm e st)
  then show ?case by (auto intro!: handled_closed_map)
next
  case (check_step e st now st')
  have same: "x = e" if "x \<in> set (ss_flights st)" "ex_id x = ex_id e" for x
    using that check_step(1,5) by (auto simp: distinct_map dest: inj_onD)
  from check_step(3) show ?case
    unfolding execute_check_def Let_def
    by (auto split: if_splits sum.splits dest!: exit_flights intro!: filter_closed check_step(4))
      (use check_step(4) same in \<open>fastforce simp: handled_closed_def\<close>)
next
  case (deadline e st)
  then show ?case by (auto intro!: handled_closed_map)
next
  case (renew e st at)
  then show ?case
    by (auto simp: renew_round_def cancel_ctx_def split: prod.splits sum.splits if_splits intro!: handled_closed_map)
next
  case (handler_returns e st now now2 res st')
  then show ?case
    by (auto simp: execute_finish_def dest!: exit_flights intro!: filter_closed)
next
  case (mark app tid now st st' r)
  then show ?case
    by (auto simp: cancel_mark_def Let_def split: prod.splits sum.splits if_splits option.splits intro!: handled_closed_map)
next
  case (fire i st)
  then show ?case
    by (auto simp: cancel_fire_def cancel_ctx_def intro!: handled_closed_map split: if_splits)
qed simp

text \<open>The scheduler never hands a task to a handler whose type is not registered or whose
  parameters do not satisfy the registered schema, also when the stored row was changed by others.\<close>

theorem only_registered_handled:
  assumes "reachable (sqlite_env drv reg cfg validate sha256) st" and "cfg = NewSchedulerConfig c"
    and "e \<in> set (ss_flights st)" and "ex_phase e = Handling"
  shows "\<exists>ct. reg (t_type (ex_task e)) = Some ct \<and>
    is_ok (validate (ct_schema ct) (t_params (ex_task e)))"
proof -
  let ?env = "sqlite_env drv reg cfg validate sha256"
  have c: "0 \<le> sc_max_concurrent (se_config ?env)" "0 \<le> sc_app_capacity (se_config ?env)"
    using assms(2) NewSchedulerConfig_ok by (simp_all add: config_ok_def order.strict_implies_order)
  obtain s where "(sched_step ?env)\<^sup>*\<^sup>* (Start s) st"
    using assms(1) by (auto simp: reachable_def)
  then have "handled_closed reg validate (ss_flights st) \<and> reachable ?env st"
  proof (induction rule: rtranclp_induct)
    case base
    then show ?case using Start_reachable by (simp add: Start_def handled_closed_def)
  next
    case (step u v)
    then have "distinct (map ex_id (ss_flights u))"
      using sqlite_sched.reachable_ok[OF _ c] by (auto simp: sched_ok_def ids_fresh_def)
    then show ?case
      using sched_step_closed[OF step(2)] step unfolding reachable_def
      by (auto intro: rtranclp.rtrancl_into_rtrancl)
  qed
  then have "LookupType reg (t_type (ex_task e)) \<noteq> None"
    "ValidateParams validate reg (t_type (ex_task e)) (t_params (ex_task e)) = Inr ()"
    using assms(3,4) by (auto simp: handled_closed_def)
  then show ?thesis
    by (auto simp: LookupType_def ValidateParams_def split: option.splits sum.splits)
qed

section \<open>A concrete run\<close>

text \<open>One task, polled at 2 s with a lease up to 17 s, in its three phases.\<close>

definition flight :: "nat \<Rightarrow> task \<Rightarrow> phase \<Rightarrow> bool \<Rightarrow> context_error option \<Rightarrow> execution" where
  "flight i v ph cancelled ctx =
     \<lparr>ex_id = i, ex_task = v, ex_phase = ph, ex_cancelled = cancelled, ex_ctx = ctx, ex_lease_failure = None\<rparr>"

lemma flight_sel [simp]:
  "ex_id (flight i v ph c x) = i" "ex_task (flight i v ph c x) = v" "ex_phase (flight i v ph c x) = ph"
  "ex_cancelled (flight i v ph c x) = c" "ex_ctx (flight i v ph c x) = x" "ex_lease_failure (flight i v ph c x) = None"
  by (simp_all add: flight_def)

lemma flight_upd [simp]:
  "(flight i v ph c x)\<lparr>ex_phase := ph'\<rparr> = flight i v ph' c x"
  "(flight i v ph c x)\<lparr>ex_cancelled := c'\<rparr> = flight i v ph c' x"
  "(flight i v ph c x)\<lparr>ex_ctx := x'\<rparr> = flight i v ph c x'"
  by (simp_all add: flight_def)

definition sample_state ::
  "task_table \<Rightarrow> nat \<Rightarrow> (string \<Rightarrow> nat option) \<Rightarrow> execution list \<Rightarrow> nat \<Rightarrow> nat list \<Rightarrow> task_table sched_state" where
  "sample_state t n execs es next cs =
     \<lparr>ss_store = t, ss_slots = \<lparr>sl_workers = n, sl_apps = [''app'' \<mapsto> n]\<rparr>, ss_execs = execs,
      ss_flights = es, ss_next = next, ss_cancelling = cs\<rparr>"

definition sample_key :: string where "sample_key = executionKey ''app'' ''t1''"

lemma sample_state_sel [simp]:
  "ss_store (sample_state t n x es k cs) = t" "ss_flights (sample_state t n x es k cs) = es"
  "ss_cancelling (sample_state t n x es k cs) = cs" "ss_execs (sample_state t n x es k cs) = x"
  by (simp_all add: sample_state_def)

lemma held_exec_key [simp]: "task_exec_key held_task = sample_key"
  by (simp add: task_exec_key_def held_task_def sample_task_def sample_key_def)

lemma held_app [simp]: "t_app_id held_task = ''app''" "t_task_id held_task = ''t1''" "t_type held_task = ''a.b''" "t_deadline held_task = 60 * second"
  by (simp_all add: held_task_def sample_task_def)

lemma sample_env_sel [simp]:
  "se_port sample_env = sqlite_task_port millisecond_driver" "se_config sample_env = default_config"
  by (simp_all add: sample_env_def)

lemma sample_lookup [simp]:
  "LookupType (se_registry sample_env) ''a.b'' \<noteq> None"
  "ValidateParams (se_validate sample_env) (se_registry sample_env) ''a.b'' p = Inr ()"
  by (simp_all add: sample_env_def LookupType_def ValidateParams_def)

lemma sqlite_port_claim [simp]:
  "tp_claim (sqlite_task_port drv) = ClaimTask drv" "tp_cancel_queued (sqlite_task_port drv) = CancelQueuedTask drv"
  "tp_list_dead (sqlite_task_port drv) = ListDeadTasks drv" "tp_retry_dead (sqlite_task_port drv) = RetryDeadTask drv"
  by (simp_all add: sqlite_task_port_def)

lemma sample_polled:
  "poll_one sample_env (2 * second) ''l1'' (2 * second) sample_task (Start [task_row_of sample_task]) =
     Some (sample_state [held_row] 1 [sample_key \<mapsto> 0] [flight 0 held_task Spawned False None] 1 [])"
proof -
  have "t_app_id sample_task = ''app''" "t_task_id sample_task = ''t1''"
    by (simp_all add: sample_task_def)
  then show ?thesis
    by (simp add: poll_one_def Start_def acquireSlots_def appSlotsFor_def default_config_sel sample_claim_result
        dispatch_def sample_state_def flight_def after_def)
qed

lemma step_arm:
  "e \<in> set (ss_flights st) \<Longrightarrow> ex_phase e = Spawned \<Longrightarrow>
     st' = update_flight (ex_id e) (\<lambda>x. x\<lparr>ex_phase := Armed\<rparr>) st \<Longrightarrow> sched_step env st st'"
  using sched_step.arm by blast

lemma sample_armed:
  "sched_step env (sample_state t 1 x [flight i v Spawned c None] k cs) (sample_state t 1 x [flight i v Armed c None] k cs)"
  by (rule step_arm[of "flight i v Spawned c None"]) (simp_all add: update_flight_def sample_state_def)

lemma sample_handling:
  "t_type v = ''a.b'' \<Longrightarrow> sched_step sample_env (sample_state t 1 x [flight i v Armed False None] k cs)
     (sample_state t 1 x [flight i v Handling False None] k cs)"
  by (rule sched_step.check_step[of "flight i v Armed False None"])
    (simp_all add: execute_check_def update_flight_def sample_state_def)

lemma sample_reachable_armed:
  "reachable sample_env (sample_state [held_row] 1 [sample_key \<mapsto> 0] [flight 0 held_task Armed False None] 1 [])"
  using Start_reachable[of sample_env "[task_row_of sample_task]"] sched_step.poll_candidate[OF sample_polled]
    sample_armed[of sample_env "[held_row]" "[sample_key \<mapsto> 0]" 0 held_task False 1 "[]"]
  unfolding reachable_def by (meson rtranclp.rtrancl_into_rtrancl)

lemma reachable_step: "reachable env st \<Longrightarrow> sched_step env st st' \<Longrightarrow> reachable env st'"
  unfolding reachable_def by (meson rtranclp.rtrancl_into_rtrancl)

lemma sample_reachable_handling:
  "reachable sample_env (sample_state [held_row] 1 [sample_key \<mapsto> 0] [flight 0 held_task Handling False None] 1 [])"
  using reachable_step[OF sample_reachable_armed sample_handling] by simp




lemma sample_delay: "retryDelay default_config (se_sha256 sample_env) held_task = 400 * millisecond"
proof -
  have "jittered (500 * millisecond) 0 = 400 * millisecond"
  proof -
    have "wrap64 (500 * millisecond * 800) = 500 * millisecond * 800"
      by (rule wrap64_id) (simp_all add: millisecond_def)
    moreover have "go_div (500 * millisecond * 800) 1000 = 400 * millisecond"
      by (simp add: go_div_nonneg millisecond_def)
    ultimately show ?thesis unfolding jittered_def jitterPermille_def by simp
  qed
  then show ?thesis
    by (simp add: retryDelay_def held_guard default_config_sel jitter_byte_def sample_env_def)
qed

lemma sample_allowed: "retryAllowed sample_env held_task Class_Retryable" "retryAllowed sample_env held_task Class_Lease_Lost"
  by (simp_all add: retryAllowed_def sample_env_def LookupType_def held_guard word_less_nat_alt)

theorem retry_discipline_witness:
  "finishExecution sample_env held_task None False None (Retryable (Some (Sentinel (Task_E Task_NotFound))))
      (3 * second) (3 * second) = Act_Retry (3 * second + 400 * millisecond) (3 * second) \<and>
   recover_action sample_env (18 * second) held_task = Act_Retry_Dead (18 * second + 400 * millisecond) (18 * second) \<and>
   t_attempt held_task < t_max_attempts held_task"
proof -
  have f: "finishExecution sample_env held_task None False None (Retryable (Some (Sentinel (Task_E Task_NotFound))))
      (3 * second) (3 * second) = Act_Retry (3 * second + 400 * millisecond) (3 * second)"
    by (simp add: finishExecution_def ClassifyFailure_Retryable opt_is_def transitionRetry_def sample_allowed sample_delay
        before_def Let_def Retryable_def[of "Some _"] ClassifyFailure_def)
      (simp add: second_def millisecond_def)
  have r: "recover_action sample_env (18 * second) held_task =
      Act_Retry_Dead (18 * second + 400 * millisecond) (18 * second)"
    by (simp add: recover_action_def sample_allowed sample_delay after_def Let_def)
      (simp add: second_def millisecond_def)
  show ?thesis
    using f r retry_discipline[of sample_env held_task None False None "Retryable (Some (Sentinel (Task_E Task_NotFound)))"
      "3 * second" "3 * second" "3 * second + 400 * millisecond" "3 * second"]
      retry_discipline[of sample_env held_task None False None None "18 * second" "18 * second"
        "18 * second + 400 * millisecond" "18 * second"] by blast
qed

theorem only_registered_handled_witness:
  "\<exists>ct. se_registry sample_env ''a.b'' = Some ct"
  using only_registered_handled[OF sample_reachable_handling[unfolded sample_env_def] default_config_def,
      of "flight 0 held_task Handling False None"]
  unfolding sample_env_def by auto

section \<open>An execution that outlives its lease\<close>

definition retried_row :: task_row where
  "retried_row = outcome_set (Outcome_Retry (18 * second + 400 * millisecond)) (18 * second) held_row"

definition again_row :: task_row where
  "again_row = claim_set ''l2'' (19 * second) (34 * second) retried_row"

definition again_task :: task where
  "again_task = held_task\<lparr>t_attempt := 2, t_available_at := 18 * second + 400 * millisecond,
     t_lease_token := ''l2'', t_lease_expires := Some (34 * second), t_updated_at := 19 * second\<rparr>"

lemma retried_checks:
  "task_row_check millisecond_driver retried_row" "task_row_check millisecond_driver again_row"
  by code_simp+

lemma retried_rows:
  "dead_where millisecond_driver (18 * second) held_row"
  "lease_where millisecond_driver Dead (''app'', ''t1'') ''l1'' (18 * second) held_row"
  "claim_where millisecond_driver (''app'', ''t1'') (19 * second) retried_row"
  by code_simp+

lemma again_token: "t_lease_token again_row = Some ''l2''" "t_status again_row = Task_Running"
  "t_status retried_row = Task_Retry_Scheduled" "task_key_of again_row = (''app'', ''t1'')"
  "task_key_of retried_row = (''app'', ''t1'')"
  by (simp_all add: again_row_def claim_set_def retried_row_def task_key_of_def held_row_fields(3)[unfolded task_key_of_def prod.inject])

lemma again_key: "select_key task_key_of (''app'', ''t1'') [again_row] = Some again_row"
  by (simp add: select_key_def again_token)

lemma held_scan: "scanTask held_row = Inr held_task"
  by (simp add: scanTask_def held_row_def claim_set_def task_row_of_def sample_task_def held_task_def)

lemma again_scan: "scanTask again_row = Inr again_task"
  by (simp add: scanTask_def again_row_def retried_row_def held_row_def claim_set_def task_row_of_def sample_task_def
      held_task_def again_task_def)

lemma sample_recovered: "recoverDeadTasks sample_env False (18 * second) [held_row] = [retried_row]"
proof -
  have "ListDeadTasks millisecond_driver (18 * second) 32 [held_row] = Inr [held_task]"
    by (simp add: ListDeadTasks_def retried_rows held_scan)
  moreover have "recover_action sample_env (18 * second) held_task =
      Act_Retry_Dead (18 * second + 400 * millisecond) (18 * second)"
    by (simp add: recover_action_def sample_allowed sample_delay after_def Let_def)
      (simp add: second_def millisecond_def)
  moreover have "RetryDeadTask millisecond_driver held_task (18 * second + 400 * millisecond) (18 * second) [held_row] =
      ([retried_row], Inr ())"
  proof -
    have "t_lease_token held_task = ''l1''" by (simp add: held_task_def)
    moreover have "after (18 * second + 400 * millisecond) (18 * second)" by (simp add: after_def millisecond_def)
    ultimately show ?thesis
      by (simp add: RetryDeadTask_def held_guard sample_identity held_key leaseGuardedWrite_def exec_update_def retried_rows(2) update_where_def
          affected_def word_le_nat_alt retried_row_def[symmetric] retried_checks del: outcome_set.simps)
  qed
  ultimately show ?thesis
    by (simp add: recoverDeadTasks_def default_config_sel)
qed

lemma sample_again:
  "ClaimTask millisecond_driver ''app'' ''t1'' ''l2'' (19 * second) (34 * second) [retried_row] =
     ([again_row], Inr again_task)"
proof -
  have "exec_update (task_row_check millisecond_driver)
      (claim_where millisecond_driver (''app'', ''t1'') (19 * second)) (claim_set ''l2'' (19 * second) (34 * second))
      [retried_row] = Some ([again_row], 1)"
    using retried_checks(2)
    by (simp add: exec_update_def retried_rows again_row_def[symmetric] update_where_def affected_def)
  then show ?thesis
    by (simp add: ClaimTask_def sample_identity returning_def again_key again_scan after_def)
qed

lemma again_not_waiting:
  "CancelQueuedTask millisecond_driver ''app'' ''t1'' (21 * second) [again_row] = ([again_row], Inr (again_task, False))"
proof -
  have "exec_update (task_row_check millisecond_driver) (waiting_where (''app'', ''t1''))
      (outcome_set Outcome_Cancelled (21 * second)) [again_row] = Some ([again_row], 0)"
    by (simp add: exec_update_def waiting_where_def update_where_def affected_def again_token)
  then show ?thesis
    by (simp add: CancelQueuedTask_def sample_identity returning_def GetTask_def again_key again_scan and_then_def)
qed

lemma stale_complete:
  "CompleteTask millisecond_driver held_task (20 * second) [again_row] = ([again_row], task_fail Task_LeaseLost)"
proof -
  have "\<not> lease_where millisecond_driver Live (task_key_of held_task) (t_lease_token held_task) (20 * second) again_row"
    by (simp add: lease_where.simps again_token) (simp add: held_task_def)
  then show ?thesis
    by (simp add: CompleteTask_def held_guard sample_identity leaseGuardedWrite_def exec_update_def update_where_def affected_def
        classifyLeaseFailure_def held_key again_key again_token)
qed

lemma again_exec [simp]:
  "task_exec_key again_task = sample_key" "t_app_id again_task = ''app''" "t_type again_task = ''a.b''"
  "t_task_id again_task = ''t1''" "t_deadline again_task = 60 * second"
  by (simp_all add: task_exec_key_def again_task_def sample_key_def)

text \<open>An execution whose lease expired and whose handler still runs removes, when it returns, the
  entry of the newer execution of the same task from the scheduler's map: \<open>Cancel\<close> then answers that
  there is nothing to cancel, and changes nothing, while a handler of the task is running under a live
  lease.\<close>

theorem stale_exit_hides_running_task:
  "\<exists>st e r. reachable sample_env st \<and> e \<in> set (ss_flights st) \<and> ex_phase e = Handling \<and> ex_ctx e = None \<and>
     task_key_of (ex_task e) = (''app'', ''t1'') \<and>
     select_key task_key_of (''app'', ''t1'') (ss_store st) = Some r \<and> t_status r = Task_Running \<and>
     t_lease_token r = Some (t_lease_token (ex_task e)) \<and> t_lease_expires r = Some (34 * second) \<and>
     SchedulerCancel sample_env ''app'' ''t1'' (21 * second) st = (st, Inr False)"
proof -
  let ?a = "flight 0 held_task Handling False None"
  let ?b = "\<lambda>ph. flight 1 again_task ph False None"
  let ?s1 = "sample_state [retried_row] 1 [sample_key \<mapsto> 0] [?a] 1 []"
  let ?s2 = "sample_state [again_row] 2 [sample_key \<mapsto> 1] [?b Spawned, ?a] 2 []"
  let ?s3 = "\<lambda>ph. sample_state [again_row] 1 Map.empty [?b ph] 2 []"
  have "?s1 = (sample_state [held_row] 1 [sample_key \<mapsto> 0] [?a] 1 [])
      \<lparr>ss_store := recoverDeadTasks sample_env False (18 * second) [held_row]\<rparr>"
    by (simp add: sample_recovered) (simp add: sample_state_def)
  then have r1: "reachable sample_env ?s1"
    using reachable_step[OF sample_reachable_handling sched_step.others] by metis
  have "poll_one sample_env (19 * second) ''l2'' (19 * second) held_task ?s1 = Some ?s2"
    by (simp add: poll_one_def sample_state_def acquireSlots_def appSlotsFor_def default_config_sel sample_again
        dispatch_def after_def) (simp add: flight_def numeral_2_eq_2)
  then have r2: "reachable sample_env ?s2"
    using reachable_step[OF r1 sched_step.poll_candidate] by blast
  have "execute_finish sample_env (20 * second) (20 * second) None ?a ?s2 = Some (?s3 Spawned)"
  proof -
    have fin: "finishExecution sample_env held_task None False None None (20 * second) (20 * second) =
        Act_Complete (20 * second)"
      by (simp add: finishExecution_def transitionSucceeded_def)
    have cp: "tp_complete (sqlite_task_port millisecond_driver) = CompleteTask millisecond_driver"
      by (simp add: sqlite_task_port_def)
    show ?thesis
      by (simp add: execute_finish_def fin do_action_def cp stale_complete exit_execution_def release_for_def)
        (simp add: sample_state_def releaseSlots_def appSlotsFor_def)
  qed
  then have r3: "reachable sample_env (?s3 Spawned)"
    by (intro reachable_step[OF r2 sched_step.handler_returns[of ?a]]) simp_all
  have r4: "reachable sample_env (?s3 Handling)"
    using reachable_step[OF reachable_step[OF r3 sample_armed] sample_handling] by simp
  have "cancel_mark sample_env ''app'' ''t1'' (21 * second) (?s3 Handling) = (?s3 Handling, Inl (Inr False))"
    by (simp add: cancel_mark_def again_not_waiting sample_state_def)
  then have c: "SchedulerCancel sample_env ''app'' ''t1'' (21 * second) (?s3 Handling) = (?s3 Handling, Inr False)"
    by (simp add: SchedulerCancel_def)
  have "t_lease_expires again_row = Some (34 * second)" "t_lease_token again_task = ''l2''"
    "task_key_of again_task = (''app'', ''t1'')"
    by (simp_all add: again_row_def claim_set_def again_task_def task_key_of_def)
  then show ?thesis
    using r4 c by (intro exI[of _ "?s3 Handling"] exI[of _ "?b Handling"] exI[of _ again_row])
      (simp add: again_key again_token)
qed

end
