(* ===== verification/Go_Context.thy ===== *)
theory Go_Context
  imports Go_Error
begin

text \<open>
  The standard library's \<open>context\<close> as the program uses it: derivation with a cancel function, with a
  deadline, and without the parent's cancellation. A context's cancel functions are named by numbers;
  a schedule says when each is called, if ever. A context is done at the first event that ends it, with
  the error of that event.
\<close>

datatype ctx =
    Background
  | With_Cancel nat ctx
  | With_Deadline nat instant ctx
  | Without_Cancel ctx

type_synonym schedule = "nat \<Rightarrow> instant option"
type_synonym ending = "(instant \<times> context_error) option"

fun earlier :: "ending \<Rightarrow> ending \<Rightarrow> ending" where
  "earlier None y = y"
| "earlier (Some x) None = Some x"
| "earlier (Some (a, e)) (Some (b, f)) = (if b < a then Some (b, f) else Some (a, e))"

definition cancel_at :: "schedule \<Rightarrow> nat \<Rightarrow> ending" where
  "cancel_at s i = map_option (\<lambda>t. (t, Ctx_Canceled)) (s i)"

fun done_at :: "schedule \<Rightarrow> ctx \<Rightarrow> ending" where
  "done_at s Background = None"
| "done_at s (With_Cancel i p) = earlier (done_at s p) (cancel_at s i)"
| "done_at s (With_Deadline i d p) = earlier (earlier (done_at s p) (cancel_at s i)) (Some (d, Ctx_DeadlineExceeded))"
| "done_at s (Without_Cancel p) = None"

text \<open>\<open>ctx.Err()\<close> at an instant.\<close>

definition ctx_err :: "schedule \<Rightarrow> instant \<Rightarrow> ctx \<Rightarrow> context_error option" where
  "ctx_err s now c =
     (case done_at s c of None \<Rightarrow> None | Some (t, e) \<Rightarrow> if t \<le> now then Some e else None)"

fun cancel_funs :: "ctx \<Rightarrow> nat set" where
  "cancel_funs Background = {}"
| "cancel_funs (With_Cancel i p) = insert i (cancel_funs p)"
| "cancel_funs (With_Deadline i d p) = insert i (cancel_funs p)"
| "cancel_funs (Without_Cancel p) = {}"

lemma done_at_cong: "(\<And>i. i \<in> cancel_funs c \<Longrightarrow> s i = s' i) \<Longrightarrow> done_at s c = done_at s' c"
  by (induction c) (simp_all add: cancel_at_def)

lemma earlier_None: "earlier x None = x"
  by (cases "(x, None :: ending)" rule: earlier.cases) auto

text \<open>A deadline ends its context no later than the deadline.\<close>

lemma deadline_ends: "\<exists>t e. done_at s (With_Deadline i d p) = Some (t, e) \<and> t \<le> d"
proof (cases "earlier (done_at s p) (cancel_at s i)")
  case (Some x)
  then show ?thesis by (cases x) auto
qed simp

end
