(* ===== verification/Scheduler_Recovery.thy ===== *)
theory Scheduler_Recovery
  imports Scheduler_Guarantees Go_Context
begin

text \<open>
  Creation and recovery of the task scheduler over the SQLite store: what a created task is, and that
  one pass of the recovery loop resolves every task it listed.
\<close>

section \<open>Creation\<close>

lemma scan_new_row:
  assumes "ValidateNewTask v = Inr ()" and "t_lease_token v = []" and "t_lease_expires v = None"
    and "t_attempt v = 1" and "t_max_attempts v \<noteq> 0" and "t_max_attempts v \<le> 32"
  shows "scanTask (task_row_of v) = Inr v"
proof -
  have "uint (t_max_attempts v) \<noteq> 0" "uint (t_max_attempts v) \<le> 32"
    using assms(5,6) by (simp_all add: uint_0_iff word_le_def)
  moreover have "0 \<le> uint (t_max_attempts v)"
    by simp
  ultimately have "1 \<le> uint (t_max_attempts v)" "uint (t_max_attempts v) \<le> 32"
    by linarith+
  then show ?thesis
    using assms by (cases v) (simp add: scanTask_def task_row_of_def)
qed

text \<open>\<open>Create\<close> either refuses and leaves the table as it was, or appends exactly the task it returns:
  queued, of a registered type, with parameters of its schema, attempt 1 of at most 32, available no
  earlier than now and strictly before its deadline, and readable back as it is.\<close>

theorem create_admits_only_valid:
  assumes "SchedulerCreate (sqlite_env drv reg cfg validate sha256) now new_id q t = (t', r)"
  shows "case r of
      Inl _ \<Rightarrow> t' = t
    | Inr v \<Rightarrow>
        t' = t @ [task_row_of v] \<and> ValidateNewTask v = Inr () \<and>
        (\<exists>ct. reg (cq_type q) = Some ct \<and> is_ok (validate (ct_schema ct) (cq_params q))) \<and>
        t_app_id v = cq_app_id q \<and> t_type v = cq_type q \<and> t_params v = cq_params q \<and>
        t_status v = Task_Queued \<and> t_attempt v = 1 \<and> t_max_attempts v \<noteq> 0 \<and> t_max_attempts v \<le> 32 \<and>
        now \<le> t_available_at v \<and> t_available_at v < t_deadline v \<and> t_deadline v = cq_deadline q \<and>
        select_key task_key_of (task_key_of v) t' = Some (task_row_of v) \<and> scanTask (task_row_of v) = Inr v"
proof (cases r)
  case (Inl e)
  then show ?thesis
    using assms unfolding SchedulerCreate_def Let_def
    by (auto split: if_splits sum.splits prod.splits simp: sqlite_task_port_def elim!: CreateTask_cases)
next
  case (Inr v)
  have reg: "LookupType reg (cq_type q) \<noteq> None" "ValidateParams validate reg (cq_type q) (cq_params q) = Inr ()"
    using assms Inr by (auto simp: SchedulerCreate_def split: if_splits sum.splits)
  have v: "ValidateNewTask v = Inr ()" "CreateTask drv v t = (t', Inr ())"
    "t_app_id v = cq_app_id q" "t_type v = cq_type q" "t_params v = cq_params q" "t_status v = Task_Queued"
    "t_attempt v = 1" "now \<le> t_available_at v" "t_available_at v < t_deadline v" "t_deadline v = cq_deadline q"
    "t_lease_token v = []" "t_lease_expires v = None" "\<not> (t_max_attempts v < 1 \<or> maxAttempts < t_max_attempts v)"
    using assms Inr reg unfolding SchedulerCreate_def Let_def
    by (auto split: if_splits sum.splits prod.splits simp: sqlite_task_port_def before_def after_def)
  have max: "t_max_attempts v \<noteq> 0" "t_max_attempts v \<le> 32"
    using v(13) by (auto simp: maxAttempts_def not_less)
  have ins: "t' = t @ [task_row_of v]" "task_key_of (task_row_of v) \<notin> set (map task_key_of t)"
    using v(2) by (auto simp: exec_insert_Some elim!: CreateTask_cases)
  have "task_key_of (task_row_of v) = task_key_of v"
    by (simp add: task_key_of_def task_row_of_def)
  then have "select_key task_key_of (task_key_of v) t' = Some (task_row_of v)"
    using ins select_key_append_new[of task_key_of "task_row_of v" t] by simp
  moreover have "\<exists>ct. reg (cq_type q) = Some ct \<and> is_ok (validate (ct_schema ct) (cq_params q))"
    using reg by (auto simp: LookupType_def ValidateParams_def split: option.splits sum.splits)
  ultimately show ?thesis
    using Inr v ins max scan_new_row[OF v(1,11,12,7) max] by simp
qed

section \<open>Recovery\<close>

text \<open>The retry, when there is one, is later than now and in an earlier stored instant than the deadline.\<close>

definition recoverable :: "sql_driver \<Rightarrow> ('s, 'h, 'c) sched_env \<Rightarrow> instant \<Rightarrow> task \<Rightarrow> bool" where
  "recoverable drv env now v =
     (case recover_action env now v of
        Act_Retry_Dead later _ \<Rightarrow> now < later \<and> julianday drv later < julianday drv (t_deadline v)
      | _ \<Rightarrow> True)"

definition listed_dead :: "sql_driver \<Rightarrow> instant \<Rightarrow> task_table \<Rightarrow> task \<Rightarrow> bool" where
  "listed_dead drv now t v \<longleftrightarrow>
     (\<exists>r. select_key task_key_of (task_key_of v) t = Some r \<and> dead_where drv now r \<and> scanTask r = Inr v)"

definition resolved :: "task_table \<Rightarrow> task \<Rightarrow> bool" where
  "resolved t v \<longleftrightarrow>
     (\<exists>r. select_key task_key_of (task_key_of v) t = Some r \<and> t_status r \<in> {Task_Failed, Task_Retry_Scheduled} \<and>
          t_lease_token r = None)"

lemma dead_guarded:
  assumes ok: "task_store_ok drv t" and r: "select_key task_key_of (task_key_of v) t = Some r"
    and d: "dead_where drv now r" and s: "scanTask r = Inr v"
    and chk: "task_row_check drv (outcome_set oc now r)" and oc: "oc = Outcome_Failed c \<or> oc = Outcome_Retry later"
  shows "\<exists>t'. leaseGuardedWrite drv (lease_where drv Dead (task_key_of v) (t_lease_token v) now) (outcome_set oc now)
            (task_key_of v) t = (t', Inr ()) \<and> resolved t' v \<and>
          (\<forall>k. k \<noteq> task_key_of v \<longrightarrow> select_key task_key_of k t' = select_key task_key_of k t)"
proof -
  let ?P = "lease_where drv Dead (task_key_of v) (t_lease_token v) now"
  let ?w = "W_Outcome Dead (task_key_of v) (t_lease_token v) now oc"
  let ?t' = "update_where ?P (outcome_set oc now) t"
  have mem: "r \<in> set t" "task_key_of r = task_key_of v"
    using select_keyD[OF r] by auto
  have P: "?P r"
    using d s mem(2) by (auto simp: lease_where.simps dead_where_def scanTask_def split: option.splits if_splits)
  have only: "x = r" if "x \<in> set t" "?P x" for x
  proof -
    have "task_key_of x = task_key_of r"
      using lease_whereD(1)[OF that(2)] mem(2) by simp
    then show ?thesis
      using that(1) mem(1) task_store_okD(1)[OF ok] by (auto simp: distinct_map dest: inj_onD)
  qed
  have "affected ?P t \<noteq> 0"
    using mem(1) P by (auto simp: affected_0_iff)
  moreover have "affected ?P t \<le> 1"
    using task_writes.at_most_one[OF task_store_okD(1)[OF ok], of drv ?w] by simp
  ultimately have n: "affected ?P t = 1" by simp
  then have "exec_update (task_row_check drv) ?P (outcome_set oc now) t = Some (?t', 1)"
    using only chk by (auto simp: exec_update_Some)
  then have lw: "leaseGuardedWrite drv ?P (outcome_set oc now) (task_key_of v) t = (?t', Inr ())"
    by (simp add: leaseGuardedWrite_def)
  have "select_key task_key_of (task_key_of v) ?t' = Some (outcome_set oc now r)"
    by (subst select_update_where) (simp_all add: r P)
  then have "resolved ?t' v"
    using oc by (auto simp: resolved_def)
  moreover have "\<forall>k. k \<noteq> task_key_of v \<longrightarrow> select_key task_key_of k ?t' = select_key task_key_of k t"
    using task_writes.others_kept[of _ ?w drv t] by simp
  ultimately show ?thesis using lw by blast
qed

lemma recover_one:
  assumes ok: "task_store_ok drv t" and l: "listed_dead drv now t v" and "now \<noteq> 0"
    and rec: "recoverable drv (sqlite_env drv reg cfg validate sha256) now v"
  shows "\<exists>t'. run_action (sqlite_task_port drv) v (recover_action (sqlite_env drv reg cfg validate sha256) now v) t = (t', Inr ()) \<and>
    task_store_ok drv t' \<and> resolved t' v \<and>
    (\<forall>k. k \<noteq> task_key_of v \<longrightarrow> select_key task_key_of k t' = select_key task_key_of k t)"
proof -
  let ?env = "sqlite_env drv reg cfg validate sha256"
  obtain r where r: "select_key task_key_of (task_key_of v) t = Some r" and d: "dead_where drv now r"
    and s: "scanTask r = Inr v"
    using l by (auto simp: listed_dead_def)
  have mem: "r \<in> set t" "task_key_of r = task_key_of v"
    using select_keyD[OF r] by auto
  have chk: "task_row_check drv r" and valid: "task_row_valid r"
    using task_store_okD(2,3)[OF ok mem(1)] by auto
  obtain u where u: "scanTask r = Inr u" "t_status u = t_status r" "t_deadline u = t_deadline r"
    "uint (t_attempt u) = t_attempt r" "uint (t_max_attempts u) = t_max_attempts r"
    "t_lease_token u = (case t_lease_token r of None \<Rightarrow> [] | Some l \<Rightarrow> l)"
    using scanTask_ok[OF chk] by metis
  have v: "t_status v = Task_Running" "t_deadline v = t_deadline r" "uint (t_attempt v) = t_attempt r"
    "uint (t_max_attempts v) = t_max_attempts r" "t_lease_token v \<noteq> []"
    using s u d valid by (auto simp: dead_where_def task_row_valid_def split: option.splits)
  have ident: "validateTaskIdentity (t_app_id v) (t_task_id v) = Inr ()"
    using valid mem(2) by (simp add: task_row_valid_def task_key_of_def)
  have fail: "task_row_check drv (outcome_set (Outcome_Failed c) now r)" if "c \<in> {Class_Deadline, Class_Lease_Lost}" for c
    using chk that by (auto simp: task_row_check_def)
  have failing: ?thesis if "recover_action ?env now v = Act_Fail_Dead c now" "c \<in> {Class_Deadline, Class_Lease_Lost}" for c
  proof -
    have "FailDeadTask drv v c now t =
        leaseGuardedWrite drv (lease_where drv Dead (task_key_of v) (t_lease_token v) now) (outcome_set (Outcome_Failed c) now)
          (task_key_of v) t"
      using ident v(1,5) that(2) \<open>now \<noteq> 0\<close> by (auto simp: FailDeadTask_def validateFailureClass_def)
    then show ?thesis
      using that dead_guarded[OF ok r d s fail[OF that(2)], of c] task_step_ok[OF task_step.fail_dead ok]
      by (fastforce simp: sqlite_task_port_def)
  qed
  have retrying: ?thesis if "recover_action ?env now v = Act_Retry_Dead later now" "t_attempt v < t_max_attempts v" for later
  proof -
    have l: "now < later" "julianday drv later < julianday drv (t_deadline r)"
      using rec that(1) v(2) by (simp_all add: recoverable_def)
    have "t_attempt r < t_max_attempts r"
      using that(2) v(3,4) by (simp add: word_less_def)
    then have "task_row_check drv (outcome_set (Outcome_Retry later) now r)"
      using chk l(2) by (auto simp: task_row_check_def)
    moreover have "RetryDeadTask drv v later now t =
        leaseGuardedWrite drv (lease_where drv Dead (task_key_of v) (t_lease_token v) now) (outcome_set (Outcome_Retry later) now)
          (task_key_of v) t"
      using ident v(1,5) that(2) l(1) \<open>now \<noteq> 0\<close> by (auto simp: RetryDeadTask_def after_def not_le)
    ultimately show ?thesis
      using that(1) dead_guarded[OF ok r d s, of "Outcome_Retry later" _ later] task_step_ok[OF task_step.retry_dead ok]
      by (fastforce simp: sqlite_task_port_def)
  qed
  show ?thesis
  proof (cases "recover_action ?env now v")
    case (Act_Retry_Dead later at)
    have "at = now \<and> t_attempt v < t_max_attempts v"
      using Act_Retry_Dead by (auto simp: recover_action_def retryAllowed_def Let_def split: if_splits option.splits)
    then show ?thesis using retrying Act_Retry_Dead by simp
  next
    case (Act_Fail_Dead c at)
    then have "at = now \<and> c \<in> {Class_Deadline, Class_Lease_Lost}"
      by (auto simp: recover_action_def Let_def split: if_splits)
    then show ?thesis using failing Act_Fail_Dead by simp
  qed (auto simp: recover_action_def Let_def split: if_splits)
qed

lemma recover_loop_resolves:
  assumes "task_store_ok drv t" and "now \<noteq> 0" and "distinct (map task_key_of vs)"
    and "\<forall>v \<in> set vs. listed_dead drv now t v \<and> recoverable drv (sqlite_env drv reg cfg validate sha256) now v"
  shows "let t' = recover_loop (sqlite_env drv reg cfg validate sha256) now vs t in
    task_store_ok drv t' \<and> (\<forall>v \<in> set vs. resolved t' v) \<and>
    (\<forall>k. k \<notin> set (map task_key_of vs) \<longrightarrow> select_key task_key_of k t' = select_key task_key_of k t)"
  using assms
proof (induction vs arbitrary: t)
  case (Cons v vs)
  let ?env = "sqlite_env drv reg cfg validate sha256"
  obtain t1 where t1: "run_action (sqlite_task_port drv) v (recover_action ?env now v) t = (t1, Inr ())"
    "task_store_ok drv t1" "resolved t1 v"
    and same: "\<And>k. k \<noteq> task_key_of v \<Longrightarrow> select_key task_key_of k t1 = select_key task_key_of k t"
    using recover_one[OF Cons.prems(1) _ Cons.prems(2)] Cons.prems(4) by (metis list.set_intros(1))
  have "listed_dead drv now t1 w" if "w \<in> set vs" for w
  proof -
    have "task_key_of w \<noteq> task_key_of v" "listed_dead drv now t w"
      using that Cons.prems(3,4) by (auto simp: image_iff)
    then show ?thesis using same by (simp add: listed_dead_def)
  qed
  then have IH: "let t' = recover_loop ?env now vs t1 in
      task_store_ok drv t' \<and> (\<forall>v \<in> set vs. resolved t' v) \<and>
      (\<forall>k. k \<notin> set (map task_key_of vs) \<longrightarrow> select_key task_key_of k t' = select_key task_key_of k t1)"
    using Cons.prems by (intro Cons.IH[OF t1(2)]) auto
  have "task_key_of v \<notin> set (map task_key_of vs)"
    using Cons.prems(3) by simp
  then have "select_key task_key_of (task_key_of v) (recover_loop ?env now vs t1) = select_key task_key_of (task_key_of v) t1"
    using IH unfolding Let_def by blast
  then have "resolved (recover_loop ?env now vs t1) v"
    using t1(3) by (simp add: resolved_def)
  then show ?case
    using IH same t1(1) by (simp add: Let_def)
qed simp

lemma dead_listing:
  assumes "task_store_ok drv t" and "ListDeadTasks drv now limit t = Inr vs"
  shows "now \<noteq> 0" and "distinct (map task_key_of vs)" and "\<forall>v \<in> set vs. listed_dead drv now t v"
proof -
  let ?rs = "take (nat limit) (sort_key (dead_order drv) (filter (dead_where drv now) t))"
  show "now \<noteq> 0"
    using assms(2) by (auto simp: ListDeadTasks_def split: if_splits)
  have scan: "scanTasks ?rs = Inr vs"
    using assms(2) by (auto simp: ListDeadTasks_def split: if_splits)
  have sub: "set ?rs \<subseteq> {r \<in> set t. dead_where drv now r}"
    using set_take_subset by fastforce
  have "task_row_check drv r" if "r \<in> set ?rs" for r
    using task_store_okD(2)[OF assms(1)] that sub by blast
  then have all: "list_all2 (\<lambda>r v. scanTask r = Inr v) ?rs vs"
    using scanTasks_ok[of ?rs drv] scan by auto
  have keys: "map task_key_of vs = map task_key_of ?rs"
    using all by (induction rule: list_all2_induct) (auto dest: scanTask_key)
  have "distinct (map task_key_of (filter (dead_where drv now) t))"
    using task_store_okD(1)[OF assms(1)] by (simp add: distinct_map_filter)
  then have "distinct (map task_key_of (sort_key (dead_order drv) (filter (dead_where drv now) t)))"
    by (simp add: distinct_map)
  then show "distinct (map task_key_of vs)"
    unfolding keys take_map[symmetric] by (rule distinct_take)
  show "\<forall>v \<in> set vs. listed_dead drv now t v"
  proof
    fix v assume "v \<in> set vs"
    with all have "\<exists>r \<in> set ?rs. scanTask r = Inr v"
      by (induction rule: list_all2_induct) auto
    then obtain r where r: "r \<in> set t" "dead_where drv now r" "scanTask r = Inr v"
      using sub by blast
    then have "select_key task_key_of (task_key_of v) t = Some r"
      using task_store_okD(1)[OF assms(1)] scanTask_key[OF r(3)] by (simp add: select_key_Some)
    then show "listed_dead drv now t v"
      using r by (auto simp: listed_dead_def)
  qed
qed

text \<open>One pass of recovery resolves every task it listed: afterwards each is failed or scheduled for a
  retry and holds no lease, no other row has changed and the table is well formed, provided each retry
  it schedules falls after now and into an earlier stored instant than the task's deadline.\<close>

theorem recovery_resolves_listed:
  assumes "task_store_ok drv t"
    and "ListDeadTasks drv now (sc_batch_size cfg) t = Inr dead"
    and "\<forall>v \<in> set dead. recoverable drv (sqlite_env drv reg cfg validate sha256) now v"
  shows "let t' = recoverDeadTasks (sqlite_env drv reg cfg validate sha256) False now t in
    task_store_ok drv t' \<and> (\<forall>v \<in> set dead. resolved t' v) \<and>
    (\<forall>k. k \<notin> set (map task_key_of dead) \<longrightarrow> select_key task_key_of k t' = select_key task_key_of k t)"
proof -
  have "recoverDeadTasks (sqlite_env drv reg cfg validate sha256) False now t =
      recover_loop (sqlite_env drv reg cfg validate sha256) now dead t"
    using assms(2) by (simp add: recoverDeadTasks_def)
  then show ?thesis
    using recover_loop_resolves[OF assms(1) dead_listing(1,2)[OF assms(1,2)]] dead_listing(3)[OF assms(1,2)] assms(3)
    by simp
qed

theorem recovery_resolves_listed_witness:
  "resolved (recoverDeadTasks sample_env False (18 * second) [held_row]) held_task"
proof -
  have l: "ListDeadTasks millisecond_driver (18 * second) (sc_batch_size default_config) [held_row] = Inr [held_task]"
    by (simp add: ListDeadTasks_def retried_rows held_scan default_config_sel)
  have "recover_action sample_env (18 * second) held_task =
      Act_Retry_Dead (18 * second + 400 * millisecond) (18 * second)"
    by (simp add: recover_action_def sample_allowed sample_delay after_def Let_def)
      (simp add: second_def millisecond_def)
  then have "\<forall>v \<in> set [held_task]. recoverable millisecond_driver sample_env (18 * second) v"
    by (simp add: recoverable_def) (simp add: millisecond_driver_def second_def millisecond_def)
  from recovery_resolves_listed[OF held_row_ok l this[unfolded sample_env_def]] show ?thesis
    by (simp add: Let_def sample_env_def)
qed

definition sample_request :: create_request where
  "sample_request =
     \<lparr>cq_app_id = ''app'', cq_type = ''a.b'', cq_params = ''{}'', cq_idempotency_key = ''k'', cq_max_attempts = 3,
      cq_deadline = 60 * second, cq_available_at = 0, cq_task_id = ''t1''\<rparr>"

lemma sample_scheduled:
  "SchedulerCreate sample_env second [] sample_request [] = ([task_row_of sample_task], Inr sample_task)"
proof -
  have "\<lparr>t_app_id = ''app'', t_task_id = ''t1'', t_type = ''a.b'', t_status = Task_Queued, t_attempt = 1,
      t_max_attempts = 3, t_deadline = 60 * second, t_available_at = second, t_lease_token = [],
      t_lease_expires = None, t_idempotency_key = ''k'', t_params = ''{}'', t_error_class = Class_None,
      t_created_at = second, t_updated_at = second\<rparr> = sample_task"
    by (simp add: sample_task_def)
  moreover have "after (60 * second) second" "\<not> is_zero (60 * second)"
    by (simp_all add: after_def is_zero_def)
  ultimately show ?thesis
    by (simp add: SchedulerCreate_def sample_request_def sample_create sample_task_valid before_def is_zero_def
        maxAttempts_def Let_def sqlite_task_port_def word_less_nat_alt)
qed

theorem create_admits_only_valid_witness:
  "t_available_at sample_task < t_deadline sample_task \<and>
   select_key task_key_of (task_key_of sample_task) [task_row_of sample_task] = Some (task_row_of sample_task)"
  using create_admits_only_valid[OF sample_scheduled[unfolded sample_env_def]] by simp

section \<open>Contexts of the scheduler\<close>

text \<open>
  The contexts \<open>Start\<close> and \<open>execute\<close> derive. The cancel functions are \<open>stopWorkers\<close>, \<open>stopRun\<close> and the
  one of the execution.
\<close>

definition worker_context :: "nat \<Rightarrow> ctx \<Rightarrow> ctx" where
  "worker_context stop_workers parent = With_Cancel stop_workers (Without_Cancel parent)"

definition run_context :: "nat \<Rightarrow> ctx \<Rightarrow> ctx" where
  "run_context stop_run parent = With_Cancel stop_run parent"

definition execution_context :: "nat \<Rightarrow> nat \<Rightarrow> task \<Rightarrow> ctx \<Rightarrow> ctx" where
  "execution_context cancel stop_workers v parent =
     With_Deadline cancel (t_deadline v) (Without_Cancel (worker_context stop_workers parent))"

text \<open>The only things that end an execution's context are its own cancel function and the task's
  deadline, and the deadline ends it at the latest: \<open>stopWorkers\<close>, which a shutdown calls when its
  draining has timed out to cancel the running executions, ends none of them.\<close>

theorem stop_workers_cancels_nothing:
  assumes "cancel \<noteq> stop_workers"
  shows "done_at (s(stop_workers := Some t)) (execution_context cancel stop_workers v parent) =
      done_at (s(stop_workers := None)) (execution_context cancel stop_workers v parent) \<and>
    done_at s (execution_context cancel stop_workers v parent) =
      earlier (cancel_at s cancel) (Some (t_deadline v, Ctx_DeadlineExceeded)) \<and>
    (\<exists>e u. done_at s (execution_context cancel stop_workers v parent) = Some (u, e) \<and> u \<le> t_deadline v)"
proof (intro conjI)
  show "done_at (s(stop_workers := Some t)) (execution_context cancel stop_workers v parent) =
      done_at (s(stop_workers := None)) (execution_context cancel stop_workers v parent)"
    by (rule done_at_cong) (use assms in \<open>simp add: execution_context_def\<close>)
  show "done_at s (execution_context cancel stop_workers v parent) =
      earlier (cancel_at s cancel) (Some (t_deadline v, Ctx_DeadlineExceeded))"
    by (simp add: execution_context_def)
  show "\<exists>e u. done_at s (execution_context cancel stop_workers v parent) = Some (u, e) \<and> u \<le> t_deadline v"
    unfolding execution_context_def using deadline_ends by blast
qed

theorem stop_workers_cancels_nothing_witness:
  "ctx_err ((\<lambda>_. None)(1 := Some 5)) 10 (execution_context 0 1 held_task (run_context 2 Background)) = None"
proof -
  let ?s = "(\<lambda>_. None)(1 := Some 5)" and ?c = "execution_context 0 1 held_task (run_context 2 Background)"
  have "done_at ?s ?c = earlier (cancel_at ?s 0) (Some (t_deadline held_task, Ctx_DeadlineExceeded))"
    by (rule stop_workers_cancels_nothing[THEN conjunct2, THEN conjunct1]) simp
  then have "done_at ?s ?c = Some (60 * second, Ctx_DeadlineExceeded)"
    by (simp add: cancel_at_def)
  then show ?thesis
    by (simp add: ctx_err_def second_def millisecond_def)
qed

end
