(* ===== verification/Executor_Protocol.thy ===== *)
theory Executor_Protocol
  imports Go_Json
begin

text \<open>
  The executor protocol of \<open>contracts/pkg/executor/protocol.go\<close>, which
  \<open>internal/kernel/executor/protocol.go\<close> re-exports: the frames of \<open>executor.v1\<close>, the resource
  limits, and the validation of every frame that crosses the boundary. A message carries the bytes
  of its unknown fields, so \<open>hasUnknownFields\<close> is the recursion over the message tree;
  \<open>proto.Size\<close> is a parameter.
\<close>

section \<open>Limits\<close>

definition Version :: string where "Version = ''4.0''"
definition MaxFrameBytes :: "'a::numeral" where "MaxFrameBytes = 307200"
definition MaxInputPayloadBytes :: "'a::numeral" where "MaxInputPayloadBytes = 16384"
definition MaxContextPayloadBytes :: "'a::numeral" where "MaxContextPayloadBytes = 65536"
definition MaxExecutorConfigBytes :: "'a::numeral" where "MaxExecutorConfigBytes = 65536"
definition MaxCapabilities :: "'a::numeral" where "MaxCapabilities = 64"
definition MaxCapabilitySchemaBytes :: "'a::numeral" where "MaxCapabilitySchemaBytes = 65536"
definition MaxCapabilityPayloadBytes :: "'a::numeral" where "MaxCapabilityPayloadBytes = 65536"
definition MaxResultPayloadBytes :: "'a::numeral" where "MaxResultPayloadBytes = 262144"
definition MaxOutputDeltaBytes :: "'a::numeral" where "MaxOutputDeltaBytes = 16384"
definition MaxOutputPayloadBytes :: "'a::numeral" where "MaxOutputPayloadBytes = 262144"
definition MaxFailureMessageBytes :: "'a::numeral" where "MaxFailureMessageBytes = 1024"
definition MaxIdentifierBytes :: "'a::numeral" where "MaxIdentifierBytes = 128"
definition MaxContentTypeBytes :: "'a::numeral" where "MaxContentTypeBytes = 128"
definition MaxDescriptionBytes :: "'a::numeral" where "MaxDescriptionBytes = 4096"
definition MaxNameBytes :: "'a::numeral" where "MaxNameBytes = 256"
definition MaxProtocolSteps :: "'a::numeral" where "MaxProtocolSteps = 64"
definition MaxCapabilityCalls :: "'a::numeral" where "MaxCapabilityCalls = 256"
definition MaxProtocolVersions :: "'a::numeral" where "MaxProtocolVersions = 16"
definition MaxStatusCodeBytes :: "'a::numeral" where "MaxStatusCodeBytes = 64"
definition MaxExecutionUnits :: "'a::numeral" where "MaxExecutionUnits = 1000000000"
definition MaxCostMicrousd :: "'a::numeral" where "MaxCostMicrousd = 1000000000000000"
definition MaxRetries :: "'a::numeral" where "MaxRetries = 320"

lemmas protocol_limits [simp] =
  MaxFrameBytes_def MaxInputPayloadBytes_def MaxContextPayloadBytes_def MaxExecutorConfigBytes_def
  MaxCapabilities_def MaxCapabilitySchemaBytes_def MaxCapabilityPayloadBytes_def
  MaxResultPayloadBytes_def MaxOutputDeltaBytes_def MaxOutputPayloadBytes_def
  MaxFailureMessageBytes_def MaxIdentifierBytes_def MaxContentTypeBytes_def MaxDescriptionBytes_def
  MaxNameBytes_def MaxProtocolSteps_def MaxCapabilityCalls_def MaxProtocolVersions_def
  MaxStatusCodeBytes_def MaxExecutionUnits_def MaxCostMicrousd_def MaxRetries_def

abbreviation proto_fail :: "protocol_error \<Rightarrow> go_error + 'a" where
  "proto_fail e \<equiv> Inl (Sentinel (Protocol_E e))"

section \<open>Messages\<close>

text \<open>A pointer to a message is an option where the code tests it against nil.\<close>

record payload =
  pl_content_type :: string
  pl_data :: string
  pl_unknown :: string

record proto_capability =
  pc_id :: string
  pc_version :: string
  pc_name :: string
  pc_description :: string
  pc_input_schema :: string
  pc_unknown :: string

record start_run =
  sr_app_id :: string
  sr_input_payload :: "payload option"
  sr_capabilities :: "proto_capability option list"
  sr_max_steps :: u32
  sr_protocol_version :: string
  sr_max_capability_calls :: u32
  sr_trace_id :: string
  sr_parent_span_id :: string
  sr_parent_run_id :: string
  sr_context_payload :: "payload option"
  sr_max_execution_units :: u64
  sr_max_output_bytes :: u64
  sr_max_cost :: u64
  sr_executor_config :: "payload option"
  sr_unknown :: string

record run_accepted =
  ra_protocol_version :: string
  ra_unknown :: string

record resource_usage =
  ru_execution_units :: u64
  ru_cost :: u64
  ru_retries :: u32
  ru_unknown :: string

record capability_call =
  cl_call_id :: string
  cl_capability_id :: string
  cl_payload :: string
  cl_unknown :: string

record capability_result =
  res_call_id :: string
  res_capability_id :: string
  res_success :: bool
  res_payload :: string
  res_error_code :: string
  res_error_message :: string
  res_unknown :: string

record output_message =
  om_payload :: "payload option"
  om_unknown :: string

record run_failure =
  rf_code :: string
  rf_message :: string
  rf_retryable :: bool
  rf_unknown :: string

record cancel_run =
  cn_reason :: string
  cn_unknown :: string

text \<open>The \<open>oneof body\<close>. \<open>OutputDelta\<close> and \<open>FinalResult\<close> have the same fields.\<close>

datatype frame_body =
    Body_Start start_run
  | Body_Call capability_call
  | Body_Result capability_result
  | Body_Delta output_message
  | Body_Final output_message
  | Body_Failure run_failure
  | Body_Cancel cancel_run
  | Body_Accepted run_accepted
  | Body_Usage resource_usage

record frame =
  fr_echo_id :: string
  fr_run_id :: string
  fr_sequence :: u64
  fr_body :: "frame_body option"
  fr_unknown :: string

record health_request =
  hq_versions :: "string list"
  hq_unknown :: string

record health_response =
  hr_ready :: bool
  hr_versions :: "string list"
  hr_status_code :: string
  hr_unknown :: string

section \<open>Unknown fields\<close>

definition payload_unknown :: "payload option \<Rightarrow> bool" where
  "payload_unknown p = (case p of None \<Rightarrow> False | Some m \<Rightarrow> pl_unknown m \<noteq> [])"

definition capability_unknown :: "proto_capability option \<Rightarrow> bool" where
  "capability_unknown c = (case c of None \<Rightarrow> False | Some m \<Rightarrow> pc_unknown m \<noteq> [])"

fun body_unknown :: "frame_body \<Rightarrow> bool" where
  "body_unknown (Body_Start m) =
     (sr_unknown m \<noteq> [] \<or> payload_unknown (sr_input_payload m) \<or>
      list_ex capability_unknown (sr_capabilities m) \<or> payload_unknown (sr_context_payload m) \<or>
      payload_unknown (sr_executor_config m))"
| "body_unknown (Body_Call m) = (cl_unknown m \<noteq> [])"
| "body_unknown (Body_Result m) = (res_unknown m \<noteq> [])"
| "body_unknown (Body_Delta m) = (om_unknown m \<noteq> [] \<or> payload_unknown (om_payload m))"
| "body_unknown (Body_Final m) = (om_unknown m \<noteq> [] \<or> payload_unknown (om_payload m))"
| "body_unknown (Body_Failure m) = (rf_unknown m \<noteq> [])"
| "body_unknown (Body_Cancel m) = (cn_unknown m \<noteq> [])"
| "body_unknown (Body_Accepted m) = (ra_unknown m \<noteq> [])"
| "body_unknown (Body_Usage m) = (ru_unknown m \<noteq> [])"

definition hasUnknownFields :: "frame \<Rightarrow> bool" where
  "hasUnknownFields f \<longleftrightarrow>
     fr_unknown f \<noteq> [] \<or> (case fr_body f of None \<Rightarrow> False | Some b \<Rightarrow> body_unknown b)"

section \<open>Texts and payloads\<close>

definition validText :: "string \<Rightarrow> nat \<Rightarrow> nat \<Rightarrow> bool" where
  "validText v minimum maximum \<longleftrightarrow> minimum \<le> length v \<and> length v \<le> maximum \<and> utf8_valid v"

text \<open>\<open>tokenPattern\<close> is the pattern of \<open>id.StableMixedUncapped\<close>; \<open>codePattern\<close> a lower-case letter
  and then lower-case letters, digits and underscores.\<close>

definition token_pattern :: "string \<Rightarrow> bool" where
  "token_pattern = stable_mixed_uncapped"

fun code_pattern :: "string \<Rightarrow> bool" where
  "code_pattern [] = False"
| "code_pattern (c # cs) = (is_lower c \<and> list_all (\<lambda>x. is_lower_digit x \<or> x = CHR ''_'') cs)"

definition trace_pattern :: "string \<Rightarrow> bool" where
  "trace_pattern s \<longleftrightarrow> length s = 32 \<and> list_all is_hex_lower s"

definition span_pattern :: "string \<Rightarrow> bool" where
  "span_pattern s \<longleftrightarrow> length s = 16 \<and> list_all is_hex_lower s"

definition validToken :: "string \<Rightarrow> nat \<Rightarrow> bool" where
  "validToken v maximum \<longleftrightarrow> validText v 1 maximum \<and> token_pattern v"

text \<open>In valid UTF-8 a control character is a byte of its own.\<close>

definition ValidContentType :: "string \<Rightarrow> bool" where
  "ValidContentType v \<longleftrightarrow>
     validText v 1 MaxContentTypeBytes \<and> list_all (\<lambda>c. \<not> (code c < 32 \<or> code c = 127)) v"

definition validPayload :: "payload option \<Rightarrow> bool \<Rightarrow> nat \<Rightarrow> bool" where
  "validPayload p required maximum =
     (case p of
        None \<Rightarrow> \<not> required
      | Some m \<Rightarrow>
          if length (pl_data m) = 0 then \<not> required \<and> pl_content_type m = []
          else if \<not> ValidContentType (pl_content_type m) then False
          else length (pl_data m) \<le> maximum)"

definition Supports :: "string list \<Rightarrow> bool" where
  "Supports versions = list_ex (\<lambda>v. v = Version) versions"

section \<open>Health\<close>

definition ValidateHealthRequest :: "health_request option \<Rightarrow> unit go_result" where
  "ValidateHealthRequest q =
     (case q of
        None \<Rightarrow> proto_fail Proto_InvalidFrame
      | Some m \<Rightarrow>
          if hq_unknown m \<noteq> [] \<or> MaxProtocolVersions < length (hq_versions m) then proto_fail Proto_InvalidFrame
          else if list_ex (\<lambda>v. \<not> validText v 1 MaxIdentifierBytes) (hq_versions m)
            then proto_fail Proto_InvalidFrame
          else Inr ())"

definition ValidateHealthResponse :: "health_response option \<Rightarrow> unit go_result" where
  "ValidateHealthResponse q =
     (case q of
        None \<Rightarrow> proto_fail Proto_InvalidFrame
      | Some m \<Rightarrow>
          if hr_unknown m \<noteq> [] \<or> MaxProtocolVersions < length (hr_versions m) \<or>
             (hr_status_code m \<noteq> [] \<and>
                (\<not> validToken (hr_status_code m) MaxStatusCodeBytes \<or> \<not> code_pattern (hr_status_code m)))
            then proto_fail Proto_InvalidFrame
          else if list_ex (\<lambda>v. \<not> validText v 1 MaxIdentifierBytes) (hr_versions m)
            then proto_fail Proto_InvalidFrame
          else Inr ())"

section \<open>Envelope\<close>

definition validateEnvelope ::
  "(frame \<Rightarrow> nat) \<Rightarrow> frame \<Rightarrow> string \<Rightarrow> string \<Rightarrow> u64 \<Rightarrow> unit go_result" where
  "validateEnvelope proto_size f echo run expected =
     (if MaxFrameBytes < proto_size f then proto_fail Proto_FrameTooLarge
      else if hasUnknownFields f then proto_fail Proto_InvalidFrame
      else if \<not> validToken (fr_echo_id f) MaxIdentifierBytes \<or> \<not> validToken (fr_run_id f) MaxIdentifierBytes \<or>
              fr_echo_id f \<noteq> echo \<or> fr_run_id f \<noteq> run \<or> fr_body f = None
        then proto_fail Proto_InvalidFrame
      else if expected = 0 \<or> fr_sequence f \<noteq> expected then Inl (Wrapped (Sentinel (Protocol_E Proto_Sequence)))
      else Inr ())"

definition ValidateInboundEnvelope ::
  "(frame \<Rightarrow> nat) \<Rightarrow> frame \<Rightarrow> string \<Rightarrow> string \<Rightarrow> u64 \<Rightarrow> unit go_result" where
  "ValidateInboundEnvelope proto_size f echo run expected = validateEnvelope proto_size f echo run expected"

section \<open>The frames of the kernel\<close>

definition zeros :: "nat \<Rightarrow> string" where
  "zeros n = replicate n (CHR ''0'')"

text \<open>The loop over the projected capabilities, with the identifiers seen so far.\<close>

definition capability_ok :: "proto_capability \<Rightarrow> bool" where
  "capability_ok m \<longleftrightarrow>
     validToken (pc_id m) MaxIdentifierBytes \<and> validText (pc_version m) 1 MaxIdentifierBytes \<and>
     validText (pc_name m) 1 MaxNameBytes \<and> validText (pc_description m) 1 MaxDescriptionBytes \<and>
     validText (pc_input_schema m) 2 MaxCapabilitySchemaBytes \<and> json_valid (pc_input_schema m)"

fun capabilities_ok :: "string set \<Rightarrow> proto_capability option list \<Rightarrow> bool" where
  "capabilities_ok seen [] = True"
| "capabilities_ok seen (c # cs) =
     (case c of
        None \<Rightarrow> False
      | Some m \<Rightarrow>
          capability_ok m \<and> pc_id m \<notin> seen \<and> capabilities_ok (insert (pc_id m) seen) cs)"

definition start_bounds_ok :: "frame \<Rightarrow> start_run \<Rightarrow> bool" where
  "start_bounds_ok f s \<longleftrightarrow>
     validToken (sr_app_id s) MaxIdentifierBytes \<and>
     validPayload (sr_input_payload s) True MaxInputPayloadBytes \<and>
     validPayload (sr_context_payload s) False MaxContextPayloadBytes \<and>
     validPayload (sr_executor_config s) False MaxExecutorConfigBytes \<and>
     sr_max_steps s \<noteq> 0 \<and> sr_max_steps s \<le> MaxProtocolSteps \<and>
     sr_max_capability_calls s \<noteq> 0 \<and> sr_max_capability_calls s \<le> MaxCapabilityCalls \<and>
     sr_max_execution_units s \<noteq> 0 \<and> sr_max_execution_units s \<le> MaxExecutionUnits \<and>
     sr_max_output_bytes s \<noteq> 0 \<and> sr_max_output_bytes s \<le> MaxOutputPayloadBytes \<and>
     sr_max_cost s \<le> MaxCostMicrousd \<and>
     (sr_parent_run_id s = [] \<or>
        validToken (sr_parent_run_id s) MaxIdentifierBytes \<and> sr_parent_run_id s \<noteq> fr_run_id f) \<and>
     (sr_trace_id s = [] \<or> trace_pattern (sr_trace_id s) \<and> sr_trace_id s \<noteq> zeros 32) \<and>
     (sr_parent_span_id s = [] \<or> span_pattern (sr_parent_span_id s) \<and> sr_parent_span_id s \<noteq> zeros 16) \<and>
     length (sr_capabilities s) \<le> MaxCapabilities"

definition ValidateStartFrame :: "(frame \<Rightarrow> nat) \<Rightarrow> frame \<Rightarrow> unit go_result" where
  "ValidateStartFrame proto_size f =
     and_then (validateEnvelope proto_size f (fr_echo_id f) (fr_run_id f) 1) (\<lambda>_.
       case fr_body f of
         Some (Body_Start s) \<Rightarrow>
           if sr_protocol_version s \<noteq> Version then proto_fail Proto_VersionMismatch
           else if \<not> start_bounds_ok f s then proto_fail Proto_InvalidFrame
           else if \<not> capabilities_ok {} (sr_capabilities s) then proto_fail Proto_InvalidFrame
           else Inr ()
       | _ \<Rightarrow> proto_fail Proto_UnexpectedFrame)"

definition ValidateCapabilityResultFrame ::
  "(frame \<Rightarrow> nat) \<Rightarrow> frame \<Rightarrow> string \<Rightarrow> string \<Rightarrow> u64 \<Rightarrow> unit go_result" where
  "ValidateCapabilityResultFrame proto_size f echo run expected =
     and_then (validateEnvelope proto_size f echo run expected) (\<lambda>_.
       case fr_body f of
         Some (Body_Result r) \<Rightarrow>
           if \<not> validToken (res_call_id r) MaxIdentifierBytes \<or> \<not> validToken (res_capability_id r) MaxIdentifierBytes
             then proto_fail Proto_InvalidFrame
           else if res_success r then
             (if length (res_payload r) = 0 \<or> MaxResultPayloadBytes < length (res_payload r) \<or>
                 \<not> json_valid (res_payload r) \<or> res_error_code r \<noteq> [] \<or> res_error_message r \<noteq> []
              then proto_fail Proto_InvalidFrame else Inr ())
           else if length (res_payload r) \<noteq> 0 \<or> \<not> validToken (res_error_code r) 64 \<or>
                \<not> code_pattern (res_error_code r) \<or> \<not> validText (res_error_message r) 1 MaxFailureMessageBytes
             then proto_fail Proto_InvalidFrame
           else Inr ()
       | _ \<Rightarrow> proto_fail Proto_InvalidFrame)"

section \<open>The frames of the executor\<close>

definition ValidateRunAccepted :: "frame \<Rightarrow> unit go_result" where
  "ValidateRunAccepted f =
     (case fr_body f of
        Some (Body_Accepted a) \<Rightarrow>
          if ra_protocol_version a \<noteq> Version then proto_fail Proto_VersionMismatch else Inr ()
      | _ \<Rightarrow> proto_fail Proto_UnexpectedFrame)"

definition ValidateCapabilityCall :: "capability_call option \<Rightarrow> unit go_result" where
  "ValidateCapabilityCall c =
     (case c of
        None \<Rightarrow> proto_fail Proto_InvalidFrame
      | Some m \<Rightarrow>
          if \<not> validToken (cl_call_id m) MaxIdentifierBytes \<or> \<not> validToken (cl_capability_id m) MaxIdentifierBytes \<or>
             length (cl_payload m) = 0 \<or> MaxCapabilityPayloadBytes < length (cl_payload m) \<or>
             \<not> json_valid (cl_payload m)
          then proto_fail Proto_InvalidFrame else Inr ())"

definition ValidateOutputDelta :: "output_message option \<Rightarrow> unit go_result" where
  "ValidateOutputDelta d =
     (case d of
        None \<Rightarrow> proto_fail Proto_InvalidFrame
      | Some m \<Rightarrow>
          if \<not> validPayload (om_payload m) True MaxOutputDeltaBytes then proto_fail Proto_InvalidFrame else Inr ())"

definition ValidateFinalResult :: "output_message option \<Rightarrow> unit go_result" where
  "ValidateFinalResult d =
     (case d of
        None \<Rightarrow> proto_fail Proto_InvalidFrame
      | Some m \<Rightarrow>
          if \<not> validPayload (om_payload m) True MaxOutputPayloadBytes then proto_fail Proto_InvalidFrame else Inr ())"

definition ValidateRunFailure :: "run_failure option \<Rightarrow> unit go_result" where
  "ValidateRunFailure d =
     (case d of
        None \<Rightarrow> proto_fail Proto_InvalidFrame
      | Some m \<Rightarrow>
          if \<not> validToken (rf_code m) 64 \<or> \<not> code_pattern (rf_code m) \<or>
             \<not> validText (rf_message m) 1 MaxFailureMessageBytes
          then proto_fail Proto_InvalidFrame else Inr ())"

definition ValidateResourceUsage ::
  "resource_usage option \<Rightarrow> u64 \<Rightarrow> u64 \<Rightarrow> u32 \<Rightarrow> u64 \<Rightarrow> u64 \<Rightarrow> unit go_result" where
  "ValidateResourceUsage usage prev_units prev_cost prev_retries max_units max_cost =
     (case usage of
        None \<Rightarrow> proto_fail Proto_InvalidFrame
      | Some u \<Rightarrow>
          if ru_execution_units u = 0 \<or> MaxExecutionUnits < ru_execution_units u \<or>
             MaxCostMicrousd < ru_cost u \<or> ru_execution_units u < prev_units \<or>
             ru_cost u < prev_cost \<or> ru_retries u < prev_retries \<or>
             MaxRetries < ru_retries u \<or> max_units < ru_execution_units u \<or>
             (0 < max_cost \<and> max_cost < ru_cost u)
          then proto_fail Proto_InvalidFrame else Inr ())"

section \<open>Facts\<close>

lemma validToken_ascii: "validToken v n \<Longrightarrow> ascii v"
  by (simp add: validToken_def token_pattern_def stable_mixed_uncapped_ascii)

lemma validToken_iff: "validToken v n \<longleftrightarrow> stable_mixed_uncapped v \<and> length v \<le> n"
proof -
  have "stable_mixed_uncapped v \<Longrightarrow> v \<noteq> []" by auto
  then show ?thesis
    using utf8_valid_ascii[OF stable_mixed_uncapped_ascii, of v]
    by (auto simp: validToken_def validText_def token_pattern_def Suc_le_eq)
qed

lemma validToken_128: "validToken v 128 \<longleftrightarrow> stable_mixed v"
  by (simp add: validToken_iff stable_mixed_def)

lemma validateEnvelope_Inr:
  "validateEnvelope ps f echo run n = Inr () \<longleftrightarrow>
     ps f \<le> MaxFrameBytes \<and> \<not> hasUnknownFields f \<and> stable_mixed echo \<and> stable_mixed run \<and>
     fr_echo_id f = echo \<and> fr_run_id f = run \<and> fr_body f \<noteq> None \<and> n \<noteq> 0 \<and> fr_sequence f = n"
  unfolding validateEnvelope_def by (auto simp: validToken_128 not_less)

lemma ValidateResourceUsage_Inr:
  "ValidateResourceUsage (Some u) pu pc pr mu mc = Inr () \<longleftrightarrow>
     ru_execution_units u \<noteq> 0 \<and> ru_execution_units u \<le> MaxExecutionUnits \<and> ru_cost u \<le> MaxCostMicrousd \<and>
     pu \<le> ru_execution_units u \<and> pc \<le> ru_cost u \<and> pr \<le> ru_retries u \<and> ru_retries u \<le> MaxRetries \<and>
     ru_execution_units u \<le> mu \<and> (mc = 0 \<or> ru_cost u \<le> mc)"
  unfolding ValidateResourceUsage_def
  by (auto simp: not_less word_neq_0_conv)

lemma capabilities_ok_iff:
  "capabilities_ok seen (map Some ms) \<longleftrightarrow>
     list_all capability_ok ms \<and> distinct (map pc_id ms) \<and> pc_id ` set ms \<inter> seen = {}"
  by (induction ms arbitrary: seen) auto

end
