(* ===== verification/Capability.thy ===== *)
theory Capability
  imports Ident Go_Error "HOL-Library.List_Lexorder" "HOL-Library.Char_ord"
begin

text \<open>
  The capability contract of \<open>contracts/pkg/capability/spec.go\<close>: specifications and grants, their
  validation, the canonical form of a grant, the subset order of grants and narrowing. The locale
  \<open>attenuation\<close> states what narrowing promises to whoever decides by a grant; package
  authorization interprets it.
\<close>

section \<open>Data\<close>

definition EffectNone :: string where "EffectNone = ''none''"
definition EffectState :: string where "EffectState = ''governed_state''"
definition EffectExternal :: string where "EffectExternal = ''external''"
definition ReplaySafe :: string where "ReplaySafe = ''safe''"
definition ReplayIdempotencyKey :: string where "ReplayIdempotencyKey = ''idempotency_key''"
definition ReplayNever :: string where "ReplayNever = ''never''"
definition ConfirmationPolicy :: string where "ConfirmationPolicy = ''policy''"
definition ConfirmationRequired :: string where "ConfirmationRequired = ''required''"
definition PrincipalAny :: string where "PrincipalAny = ''any''"
definition PrincipalCurrentUser :: string where "PrincipalCurrentUser = ''current_user''"

lemmas effect_names = EffectNone_def EffectState_def EffectExternal_def
lemmas capability_names = effect_names ReplaySafe_def ReplayIdempotencyKey_def ReplayNever_def
  ConfirmationPolicy_def ConfirmationRequired_def PrincipalAny_def PrincipalCurrentUser_def

record authorization_spec =
  as_resource_type :: string
  as_resource_id_from :: string
  as_principal :: string

record execution_spec =
  es_effect_target :: string
  es_replay :: string
  es_confirmation_floor :: string

record resource_scope =
  rs_type :: string
  rs_ids :: "string list"
  rs_relation :: string

record grant =
  g_id :: string
  g_app_id :: string
  g_principal :: string
  g_capability_id :: string
  g_resource :: resource_scope
  g_not_before :: instant
  g_expires_at :: instant
  g_max_calls :: u32
  g_max_cost :: u64
  g_audience :: string
  g_delegable :: bool
  g_max_depth :: u16
  g_policy_revision :: string

record capability_spec =
  cs_id :: string
  cs_version :: string
  cs_name :: string
  cs_description :: string
  cs_input_schema :: string
  cs_authorization :: authorization_spec
  cs_execution :: execution_spec

section \<open>Validation\<close>

abbreviation cap_error :: "string \<Rightarrow> go_error + 'a" where
  "cap_error s \<equiv> Inl (Opaque_Error s)"

definition ValidateAuthorizationSpec :: "authorization_spec \<Rightarrow> unit go_result" where
  "ValidateAuthorizationSpec s =
     (if \<not> is_stable_id (as_resource_type s) \<or> as_resource_type s = ''any'' \<or>
         (as_resource_id_from s \<noteq> [] \<and>
            (256 < length (as_resource_id_from s) \<or> take 1 (as_resource_id_from s) \<noteq> ''/'' \<or>
             CHR 0x00 \<in> set (as_resource_id_from s)))
        then cap_error ''invalid capability authorization''
      else if as_principal s \<noteq> [] \<and> as_principal s \<noteq> PrincipalAny \<and> as_principal s \<noteq> PrincipalCurrentUser
        then cap_error ''invalid capability authorization principal''
      else Inr ())"

definition ValidateExecutionSpec :: "execution_spec \<Rightarrow> unit go_result" where
  "ValidateExecutionSpec s =
     (if es_effect_target s \<notin> {EffectNone, EffectState, EffectExternal}
        then cap_error ''invalid capability effect target''
      else if es_replay s \<notin> {ReplaySafe, ReplayIdempotencyKey, ReplayNever}
        then cap_error ''invalid capability replay policy''
      else if es_confirmation_floor s \<notin> {ConfirmationPolicy, ConfirmationRequired}
        then cap_error ''invalid capability confirmation floor''
      else Inr ())"

text \<open>The loop over the sorted identifiers: each stable, none equal to its predecessor.\<close>

fun ids_ok :: "string option \<Rightarrow> string list \<Rightarrow> bool" where
  "ids_ok prev [] = True"
| "ids_ok prev (i # js) = (is_stable_id i \<and> prev \<noteq> Some i \<and> ids_ok (Some i) js)"

definition NormalizeGrant :: "grant \<Rightarrow> grant go_result" where
  "NormalizeGrant g =
     (if \<not> is_stable_id (g_id g) \<or> \<not> is_stable_id (g_app_id g) \<or> g_principal g = [] \<or>
         \<not> is_stable_id (g_capability_id g) \<or> \<not> is_stable_id (rs_type (g_resource g)) \<or>
         is_zero (g_expires_at g) \<or> g_max_calls g = 0 \<or>
         (\<not> is_zero (g_not_before g) \<and> \<not> before (g_not_before g) (g_expires_at g))
        then cap_error ''invalid capability grant''
      else if g_audience g \<noteq> [] \<and> \<not> is_stable_id (g_audience g)
        then cap_error ''invalid capability grant audience''
      else if rs_relation (g_resource g) \<noteq> [] \<and> \<not> is_stable_id (rs_relation (g_resource g))
        then cap_error ''invalid capability grant relation''
      else let ids = sort (rs_ids (g_resource g)) in
        if \<not> ids_ok None ids then cap_error ''invalid capability grant resource ids''
        else Inr (g\<lparr>g_resource := (g_resource g)\<lparr>rs_ids := ids\<rparr>\<rparr>))"

definition GrantSubset :: "grant \<Rightarrow> grant \<Rightarrow> bool" where
  "GrantSubset child parent =
     (if g_app_id child \<noteq> g_app_id parent \<or> g_principal child \<noteq> g_principal parent \<or>
         g_capability_id child \<noteq> g_capability_id parent \<or>
         rs_type (g_resource child) \<noteq> rs_type (g_resource parent) \<or>
         rs_relation (g_resource child) \<noteq> rs_relation (g_resource parent) \<or>
         (g_audience parent \<noteq> [] \<and> g_audience child \<noteq> g_audience parent) \<or>
         g_max_calls parent < g_max_calls child \<or> after (g_expires_at child) (g_expires_at parent) \<or>
         (\<not> is_zero (g_not_before parent) \<and> before (g_not_before child) (g_not_before parent)) \<or>
         (\<not> g_delegable parent \<and> g_delegable child) \<or> g_max_depth parent < g_max_depth child \<or>
         (g_max_cost parent \<noteq> 0 \<and> (g_max_cost child = 0 \<or> g_max_cost parent < g_max_cost child))
        then False
      else if 0 < length (rs_ids (g_resource parent)) then
        (if length (rs_ids (g_resource child)) = 0 then False
         else list_all (\<lambda>i. i \<in> set (rs_ids (g_resource parent))) (rs_ids (g_resource child)))
      else True)"

definition NarrowGrant :: "grant \<Rightarrow> grant \<Rightarrow> grant go_result" where
  "NarrowGrant parent requested =
     (case NormalizeGrant parent of
        Inl e \<Rightarrow> Inl e
      | Inr p \<Rightarrow>
          (case NormalizeGrant requested of
             Inl _ \<Rightarrow> cap_error ''requested grant exceeds parent grant''
           | Inr r \<Rightarrow>
               if \<not> GrantSubset r p then cap_error ''requested grant exceeds parent grant'' else Inr r))"

section \<open>The canonical form\<close>

lemma ids_ok_sorted_distinct:
  "sorted js \<Longrightarrow> ids_ok prev js \<longleftrightarrow>
     list_all is_stable_id js \<and> distinct js \<and> (case prev of None \<Rightarrow> True | Some p \<Rightarrow> js = [] \<or> hd js \<noteq> p)"
proof (induction js arbitrary: prev)
  case (Cons i js)
  have "i \<notin> set js \<longleftrightarrow> js = [] \<or> hd js \<noteq> i"
    using Cons.prems by (cases js) (auto dest: order.antisym)
  then show ?case
    using Cons by (auto split: option.split)
qed (simp split: option.split)

definition canonical_grant :: "grant \<Rightarrow> bool" where
  "canonical_grant g \<longleftrightarrow>
     is_stable_id (g_id g) \<and> is_stable_id (g_app_id g) \<and> g_principal g \<noteq> [] \<and>
     is_stable_id (g_capability_id g) \<and> is_stable_id (rs_type (g_resource g)) \<and> g_expires_at g \<noteq> 0 \<and>
     g_max_calls g \<noteq> 0 \<and> (g_not_before g = 0 \<or> g_not_before g < g_expires_at g) \<and>
     (g_audience g = [] \<or> is_stable_id (g_audience g)) \<and>
     (rs_relation (g_resource g) = [] \<or> is_stable_id (rs_relation (g_resource g))) \<and>
     sorted (rs_ids (g_resource g)) \<and> distinct (rs_ids (g_resource g)) \<and>
     list_all is_stable_id (rs_ids (g_resource g))"

lemma NormalizeGrant_Inr:
  "NormalizeGrant g = Inr h \<longleftrightarrow>
     h = g\<lparr>g_resource := (g_resource g)\<lparr>rs_ids := sort (rs_ids (g_resource g))\<rparr>\<rparr> \<and> canonical_grant h"
  unfolding NormalizeGrant_def canonical_grant_def Let_def
  by (auto simp: ids_ok_sorted_distinct list_all_iff split: if_splits)

lemma NormalizeGrant_canonical: "canonical_grant g \<Longrightarrow> NormalizeGrant g = Inr g"
  by (auto simp: NormalizeGrant_Inr sort_key_id_if_sorted canonical_grant_def)

lemma NarrowGrant_Inr:
  "NarrowGrant parent requested = Inr g \<longleftrightarrow>
     (\<exists>p. NormalizeGrant parent = Inr p \<and> NormalizeGrant requested = Inr g \<and> GrantSubset g p)"
  unfolding NarrowGrant_def by (auto split: sum.splits if_splits)

section \<open>The subset order\<close>

lemma GrantSubset_iff:
  "GrantSubset c p \<longleftrightarrow>
     g_app_id c = g_app_id p \<and> g_principal c = g_principal p \<and> g_capability_id c = g_capability_id p \<and>
     rs_type (g_resource c) = rs_type (g_resource p) \<and>
     rs_relation (g_resource c) = rs_relation (g_resource p) \<and>
     (g_audience p = [] \<or> g_audience c = g_audience p) \<and> g_max_calls c \<le> g_max_calls p \<and>
     g_expires_at c \<le> g_expires_at p \<and> (g_not_before p = 0 \<or> g_not_before p \<le> g_not_before c) \<and>
     (g_delegable c \<longrightarrow> g_delegable p) \<and> g_max_depth c \<le> g_max_depth p \<and>
     (g_max_cost p = 0 \<or> (g_max_cost c \<noteq> 0 \<and> g_max_cost c \<le> g_max_cost p)) \<and>
     (rs_ids (g_resource p) = [] \<or>
        (rs_ids (g_resource c) \<noteq> [] \<and> set (rs_ids (g_resource c)) \<subseteq> set (rs_ids (g_resource p))))"
  unfolding GrantSubset_def by (auto simp: list_all_iff not_less)

lemma GrantSubset_refl: "GrantSubset g g"
  by (auto simp: GrantSubset_iff)

lemma GrantSubset_trans:
  assumes "GrantSubset c m" and "GrantSubset m p" and "0 \<le> g_not_before p"
  shows "GrantSubset c p"
proof -
  note cm = assms(1)[unfolded GrantSubset_iff] and mp = assms(2)[unfolded GrantSubset_iff]
  have "g_not_before p = 0 \<or> g_not_before p \<le> g_not_before c"
  proof (cases "g_not_before p = 0")
    case False
    then have "g_not_before p \<le> g_not_before m" "g_not_before m \<noteq> 0" using mp assms(3) by auto
    then show ?thesis using cm by simp
  qed simp
  moreover have "g_max_cost p = 0 \<or> (g_max_cost c \<noteq> 0 \<and> g_max_cost c \<le> g_max_cost p)"
  proof (cases "g_max_cost p = 0")
    case False
    then have "g_max_cost m \<noteq> 0" "g_max_cost m \<le> g_max_cost p" using mp by simp_all
    then show ?thesis using cm by (metis order.trans)
  qed simp
  moreover have "g_max_calls c \<le> g_max_calls p" "g_max_depth c \<le> g_max_depth p" "g_expires_at c \<le> g_expires_at p"
    using cm mp by (metis order.trans)+
  moreover have "g_audience p = [] \<or> g_audience c = g_audience p"
    using cm mp by metis
  moreover have "rs_ids (g_resource p) = [] \<or>
      (rs_ids (g_resource c) \<noteq> [] \<and> set (rs_ids (g_resource c)) \<subseteq> set (rs_ids (g_resource p)))"
    using cm mp by (metis order.trans)
  ultimately show ?thesis
    unfolding GrantSubset_iff using cm mp by metis
qed

text \<open>A chain of grants, each narrowed from its predecessor.\<close>

fun delegated :: "grant \<Rightarrow> grant list \<Rightarrow> bool" where
  "delegated root [] = True"
| "delegated root (g # gs) = (NarrowGrant root g = Inr g \<and> delegated g gs)"

section \<open>The interface of attenuation\<close>

text \<open>
  \<open>covers g req\<close> says that a canonical grant \<open>g\<close> covers a request. A decision procedure respects
  the order when a subset of a grant covers no more than the grant.
\<close>

locale attenuation =
  fixes covers :: "grant \<Rightarrow> 'req \<Rightarrow> bool"
  assumes monotone: "canonical_grant c \<Longrightarrow> canonical_grant p \<Longrightarrow> 0 \<le> g_not_before p \<Longrightarrow>
      GrantSubset c p \<Longrightarrow> covers c req \<Longrightarrow> covers p req"
begin

lemma narrowed_covers:
  assumes "NarrowGrant parent requested = Inr g" and "0 \<le> g_not_before parent" and "covers g req"
  shows "\<exists>p. NormalizeGrant parent = Inr p \<and> covers p req"
proof -
  obtain p where p: "NormalizeGrant parent = Inr p" "NormalizeGrant requested = Inr g" "GrantSubset g p"
    using assms(1) by (auto simp: NarrowGrant_Inr)
  then have "canonical_grant p" "canonical_grant g" "g_not_before p = g_not_before parent"
    by (auto simp: NormalizeGrant_Inr)
  then show ?thesis
    using monotone[of g p req] p assms(2,3) by auto
qed

text \<open>A chain of delegations never escapes its root.\<close>

lemma chain_covers:
  assumes "canonical_grant root" and "delegated root gs" and "\<forall>g \<in> set (root # gs). 0 \<le> g_not_before g"
    and "g \<in> set gs" and "covers g req"
  shows "covers root req"
  using assms
proof (induction gs arbitrary: root)
  case (Cons h hs)
  have h: "NormalizeGrant h = Inr h" "GrantSubset h root"
    using Cons.prems(1,2) by (auto simp: NarrowGrant_Inr NormalizeGrant_canonical)
  then have ch: "canonical_grant h"
    using NormalizeGrant_Inr by blast
  have "covers h req"
    using Cons.IH[OF ch] Cons.prems(2,3,4,5) by auto
  then show ?case
    using monotone[OF ch Cons.prems(1) _ h(2)] Cons.prems(3) by simp
qed simp

end

end
