(* ===== verification/Run_Model.thy ===== *)
theory Run_Model
  imports Executor_Protocol Capability Public_Error
begin

text \<open>
  \<open>internal/kernel/echo/types.go\<close> and the validators of \<open>internal/storage/sqlite/echo_store.go\<close>: an
  Echo (one user request), its Runs (one attempt of an executor each), the events of the Echo, and the
  conditions a new Run and a completion must meet. The record of a Run is polymorphic: the domain
  value has machine words, empty strings for absent columns and decoded grants; the row of table
  \<open>runs\<close> has SQL integers, NULLs and the grants as JSON text.
\<close>

section \<open>Statuses\<close>

datatype echo_status =
    Echo_Running | Echo_Succeeded | Echo_Failed | Echo_Cancelled | Echo_Status_Other string

datatype run_status =
    Run_Queued | Run_Running | Run_Succeeded | Run_Failed | Run_Cancelled | Run_Timed_Out
  | Run_Status_Other string

section \<open>Records\<close>

record run_output =
  out_content_type :: string
  out_data :: string

definition no_output :: run_output where
  "no_output = \<lparr>out_content_type = [], out_data = []\<rparr>"

record ('s, 'm) echo_fields =
  e_id :: string
  e_app_id :: string
  e_input_message :: string
  e_status :: echo_status
  e_final_message :: 's
  e_result :: run_output
  e_error_code :: 's
  e_error_message :: 'm
  e_created_at :: instant
  e_completed_at :: "instant option"

type_synonym echo_record = "(string, message) echo_fields"

record ('w, 'd, 's, 'm, 'g) run_fields =
  r_id :: string
  r_group_id :: string
  r_app_id :: string
  r_echo_id :: string
  r_parent_id :: 's
  r_origin_call_id :: string
  r_session_id :: string
  r_user_id :: string
  r_message_id :: string
  r_channel :: string
  r_attempt :: 'w
  r_status :: run_status
  r_executor_id :: string
  r_config_revision :: string
  r_protocol_version :: string
  r_executor_config :: string
  r_input_payload :: string
  r_input_content_type :: string
  r_context_digest :: string
  r_context_sources :: string
  r_max_steps :: 'w
  r_max_capability_calls :: 'w
  r_max_execution_units :: 'd
  r_max_output_bytes :: 'd
  r_max_cost :: 'd
  r_execution_timeout_ms :: 'w
  r_used_execution_units :: 'd
  r_used_cost :: 'd
  r_used_retries :: 'w
  r_deadline :: instant
  r_available_at :: instant
  r_lease_token :: 's
  r_lease_expires :: "instant option"
  r_last_sequence :: 'd
  r_grants :: 'g
  r_recoverable_state :: string
  r_result :: run_output
  r_error_code :: 's
  r_error_message :: 'm
  r_created_at :: instant
  r_started_at :: "instant option"
  r_completed_at :: "instant option"

type_synonym run_record = "(u32, u64, string, message, grant list) run_fields"

record 'n event_fields =
  ev_app_id :: string
  ev_echo_id :: string
  ev_run_id :: string
  ev_sequence :: 'n
  ev_type :: string
  ev_payload :: string
  ev_created_at :: instant

type_synonym echo_event = "u64 event_fields"

record audit_record =
  au_app_id :: string
  au_run_id :: string
  au_call_id :: string
  au_echo_id :: string
  au_capability_id :: string
  au_payload :: string
  au_success :: bool
  au_error_code :: string
  au_error_message :: message
  au_duration_ms :: int
  au_created_at :: instant

section \<open>Grants\<close>

text \<open>\<open>validCanonicalGrants\<close>: every grant is its own normal form, and the identifiers increase.\<close>

fun canonical_grants_from :: "string option \<Rightarrow> grant list \<Rightarrow> bool" where
  "canonical_grants_from prev [] = True"
| "canonical_grants_from prev (g # gs) =
     (NormalizeGrant g = Inr g \<and> (case prev of None \<Rightarrow> True | Some p \<Rightarrow> p < g_id g) \<and>
      canonical_grants_from (Some (g_id g)) gs)"

definition validCanonicalGrants :: "grant list \<Rightarrow> nat \<Rightarrow> bool" where
  "validCanonicalGrants gs maximum \<longleftrightarrow> length gs \<le> maximum \<and> canonical_grants_from None gs"

section \<open>Text output\<close>

text \<open>
  \<open>strings.HasPrefix(strings.ToLower(s), p)\<close> for a lower-case prefix without \<open>k\<close>: the one character
  outside ASCII that lowers to a letter of it is U+0130, which lowers to \<open>i\<close>.
\<close>

definition ascii_lower :: "char \<Rightarrow> char" where
  "ascii_lower c = (if is_upper c then char_of (code c + 32) else c)"

fun lower_has_prefix :: "string \<Rightarrow> string \<Rightarrow> bool" where
  "lower_has_prefix [] s = True"
| "lower_has_prefix (p # ps) [] = False"
| "lower_has_prefix (p # ps) (c # cs) =
     (if ascii_lower c = p then lower_has_prefix ps cs
      else p = CHR ''i'' \<and> code c = 196 \<and> cs \<noteq> [] \<and> code (hd cs) = 176 \<and> lower_has_prefix ps (tl cs))"

definition textOutput :: "run_output \<Rightarrow> string" where
  "textOutput out =
     (if \<not> lower_has_prefix ''text/plain'' (out_content_type out) \<or> \<not> utf8_valid (out_data out) then []
      else out_data out)"

section \<open>Validation\<close>

definition new_run_bounds :: "run_record \<Rightarrow> bool" where
  "new_run_bounds r \<longleftrightarrow>
     r_max_steps r \<noteq> 0 \<and> r_max_steps r \<le> MaxProtocolSteps \<and>
     r_max_capability_calls r \<noteq> 0 \<and> r_max_capability_calls r \<le> MaxCapabilityCalls \<and>
     r_max_execution_units r \<noteq> 0 \<and> r_max_execution_units r \<le> MaxExecutionUnits \<and>
     r_max_output_bytes r \<noteq> 0 \<and> r_max_output_bytes r \<le> MaxOutputPayloadBytes \<and>
     r_max_cost r \<le> MaxCostMicrousd \<and>
     100 \<le> r_execution_timeout_ms r \<and> r_execution_timeout_ms r \<le> 300000 \<and>
     r_used_execution_units r = 0 \<and> r_used_cost r = 0 \<and> r_used_retries r = 0"

definition new_run_fresh :: "run_record \<Rightarrow> bool" where
  "new_run_fresh r \<longleftrightarrow>
     \<not> is_zero (r_created_at r) \<and> \<not> is_zero (r_available_at r) \<and>
     \<not> before (r_available_at r) (r_created_at r) \<and> after (r_deadline r) (r_available_at r) \<and>
     r_last_sequence r = 0 \<and> r_lease_token r = [] \<and> r_lease_expires r = None \<and> r_started_at r = None \<and>
     r_completed_at r = None \<and> length (out_data (r_result r)) = 0 \<and> out_content_type (r_result r) = [] \<and>
     r_error_code r = [] \<and> r_error_message r = No_Message"

definition new_run_inputs :: "run_record \<Rightarrow> bool" where
  "new_run_inputs r \<longleftrightarrow>
     length (r_executor_config r) \<noteq> 0 \<and> length (r_executor_config r) \<le> MaxExecutorConfigBytes \<and>
     json_valid (r_executor_config r) \<and>
     length (r_input_payload r) \<noteq> 0 \<and> length (r_input_payload r) \<le> MaxInputPayloadBytes \<and>
     ValidContentType (r_input_content_type r) \<and> json_valid (r_recoverable_state r) \<and>
     (r_session_id r = [] \<or> valid_stable_id (r_session_id r)) \<and>
     (r_user_id r = [] \<or> valid_stable_id (r_user_id r)) \<and>
     (r_message_id r = [] \<or> valid_stable_id (r_message_id r)) \<and>
     r_context_digest r = [] \<and> (length (r_context_sources r) = 0 \<or> json_valid (r_context_sources r)) \<and>
     validCanonicalGrants (r_grants r) MaxCapabilities"

text \<open>The comparisons of the three budgets with \<open>math.MaxInt64\<close> follow from the smaller limits.\<close>

definition validateNewRun :: "echo_record \<Rightarrow> run_record \<Rightarrow> unit go_result" where
  "validateNewRun e r =
     (if r_app_id r = [] \<or> r_id r = [] \<or> r_group_id r = [] \<or> r_echo_id r = [] \<or>
         \<not> stable_mixed (r_id r) \<or> \<not> stable_mixed (r_group_id r) \<or>
         r_app_id r \<noteq> e_app_id e \<or> r_echo_id r \<noteq> e_id e \<or>
         r_attempt r = 0 \<or> r_status r \<noteq> Run_Queued \<or> r_executor_id r = [] \<or> r_config_revision r = [] \<or>
         r_protocol_version r = [] \<or> \<not> new_run_bounds r \<or> \<not> new_run_fresh r \<or> \<not> new_run_inputs r
        then echo_fail Run_InvalidRecord
      else if (r_parent_id r \<noteq> [] \<and> \<not> stable_mixed (r_parent_id r)) \<or>
              (r_origin_call_id r \<noteq> [] \<and> \<not> stable_mixed (r_origin_call_id r))
        then echo_fail Run_InvalidRecord
      else Inr ())"

definition validateCompletion ::
  "run_record \<Rightarrow> run_status \<Rightarrow> echo_status \<Rightarrow> instant \<Rightarrow> unit go_result" where
  "validateCompletion r rs es at =
     (if r_app_id r = [] \<or> r_id r = [] \<or> r_echo_id r = [] \<or> r_lease_token r = [] \<or> is_zero at
        then echo_fail Run_InvalidRecord
      else if \<not> ((rs = Run_Succeeded \<and> es = Echo_Succeeded) \<or> (rs = Run_Failed \<and> es = Echo_Failed) \<or>
                  (rs = Run_Timed_Out \<and> es = Echo_Failed) \<or> (rs = Run_Cancelled \<and> es = Echo_Cancelled))
        then echo_fail Echo_InvalidTransition
      else Inr ())"

section \<open>Facts\<close>

lemma canonical_grants_from_iff:
  "canonical_grants_from prev gs \<longleftrightarrow>
     list_all (\<lambda>g. NormalizeGrant g = Inr g) gs \<and> strictly_increasing g_id gs \<and>
     (case prev of None \<Rightarrow> True | Some p \<Rightarrow> \<forall>g \<in> set gs. p < g_id g)"
proof (induction gs arbitrary: prev)
  case (Cons g gs)
  then show ?case
    by (auto simp: strictly_increasing_Cons split: option.split intro: order.strict_trans)
qed (simp split: option.split)

lemma NormalizeGrant_fixed: "NormalizeGrant g = Inr g \<longleftrightarrow> canonical_grant g"
  by (metis NormalizeGrant_Inr NormalizeGrant_canonical)

lemma validCanonicalGrants_iff:
  "validCanonicalGrants gs n \<longleftrightarrow>
     length gs \<le> n \<and> list_all canonical_grant gs \<and> strictly_increasing g_id gs"
  by (simp add: validCanonicalGrants_def canonical_grants_from_iff NormalizeGrant_fixed)

lemma validateNewRun_Inr:
  "validateNewRun e r = Inr () \<longleftrightarrow>
     r_app_id r \<noteq> [] \<and> stable_mixed (r_id r) \<and> stable_mixed (r_group_id r) \<and> r_echo_id r \<noteq> [] \<and>
     r_app_id r = e_app_id e \<and> r_echo_id r = e_id e \<and> r_attempt r \<noteq> 0 \<and> r_status r = Run_Queued \<and>
     r_executor_id r \<noteq> [] \<and> r_config_revision r \<noteq> [] \<and> r_protocol_version r \<noteq> [] \<and>
     new_run_bounds r \<and> new_run_fresh r \<and> new_run_inputs r \<and>
     (r_parent_id r = [] \<or> stable_mixed (r_parent_id r)) \<and>
     (r_origin_call_id r = [] \<or> stable_mixed (r_origin_call_id r))"
  unfolding validateNewRun_def by (auto simp: stable_mixed_def)

definition run_terminal :: "run_status \<Rightarrow> bool" where
  "run_terminal s \<longleftrightarrow> s \<in> {Run_Succeeded, Run_Failed, Run_Timed_Out, Run_Cancelled}"

definition run_active :: "run_status \<Rightarrow> bool" where
  "run_active s \<longleftrightarrow> s = Run_Queued \<or> s = Run_Running"

lemma validateCompletion_Inr:
  "validateCompletion r rs es at = Inr () \<Longrightarrow>
     r_app_id r \<noteq> [] \<and> r_id r \<noteq> [] \<and> r_echo_id r \<noteq> [] \<and> r_lease_token r \<noteq> [] \<and> at \<noteq> 0 \<and>
     run_terminal rs \<and> es \<in> {Echo_Succeeded, Echo_Failed, Echo_Cancelled} \<and>
     (rs = Run_Succeeded \<longleftrightarrow> es = Echo_Succeeded) \<and> (rs = Run_Cancelled \<longleftrightarrow> es = Echo_Cancelled)"
  unfolding validateCompletion_def run_terminal_def by (auto split: if_splits)

end
