(* ===== verification/Run_Store.thy ===== *)
theory Run_Store
  imports Run_Model Sql_Table Idempotency
begin

text \<open>
  \<open>internal/storage/sqlite/echo_store.go\<close> and \<open>context_store.go\<close> over the tables \<open>echoes\<close>, \<open>runs\<close>,
  \<open>echo_events\<close>, \<open>echo_create_requests\<close> and \<open>capability_audit\<close> of \<open>schema.sql\<close>. A transaction is a
  function of the database: an error gives the database back as it was, which is the rollback of
  \<open>finishTx\<close>. The JSON text of grants is written and read by parameters.
\<close>

section \<open>The database\<close>

type_synonym run_row = "(int, int, string option, message option, string) run_fields"
type_synonym event_row = "int event_fields"

record echo_row = "(string option, message option) echo_fields" +
  e_next_sequence :: int

record request_row =
  cq_app_id :: string
  cq_key :: string
  cq_fingerprint :: string
  cq_echo_id :: string
  cq_created_at :: instant

record echo_db =
  db_echoes :: "echo_row list"
  db_runs :: "run_row list"
  db_events :: "event_row list"
  db_requests :: "request_row list"
  db_audit :: "audit_record list"

text \<open>The engine's \<open>json_type(x)='array'\<close> and \<open>encoding/json\<close> on grants.\<close>

record run_lib =
  rl_driver :: sql_driver
  rl_json_array :: "string \<Rightarrow> bool"
  rl_marshal :: "grant list \<Rightarrow> string go_result"
  rl_unmarshal :: "string \<Rightarrow> grant list option"

definition echo_key :: "('s, 'm, 'z) echo_fields_scheme \<Rightarrow> string \<times> string" where
  "echo_key e = (e_app_id e, e_id e)"

definition run_key :: "('w, 'd, 's, 'm, 'g, 'z) run_fields_scheme \<Rightarrow> string \<times> string" where
  "run_key r = (r_app_id r, r_id r)"

definition group_key :: "run_row \<Rightarrow> string \<times> string \<times> int" where
  "group_key r = (r_app_id r, r_group_id r, r_attempt r)"

text \<open>The key of \<open>UNIQUE(app_id,parent_run_id,origin_call_id)\<close>, in which NULLs are distinct.\<close>

definition origin_key :: "run_row \<Rightarrow> (string \<times> string \<times> string) option" where
  "origin_key r = map_option (\<lambda>p. (r_app_id r, p, r_origin_call_id r)) (r_parent_id r)"

definition event_key :: "event_row \<Rightarrow> string \<times> string \<times> int" where
  "event_key v = (ev_app_id v, ev_echo_id v, ev_sequence v)"

definition audit_key :: "audit_record \<Rightarrow> string \<times> string \<times> string" where
  "audit_key a = (au_app_id a, au_run_id a, au_call_id a)"

definition request_key :: "request_row \<Rightarrow> string \<times> string" where
  "request_key q = (cq_app_id q, cq_key q)"

section \<open>Constraints\<close>

definition echo_row_check :: "echo_row \<Rightarrow> bool" where
  "echo_row_check e \<longleftrightarrow>
     (case e_status e of Echo_Status_Other _ \<Rightarrow> False | _ \<Rightarrow> True) \<and> 0 < e_next_sequence e \<and>
     length (out_data (e_result e)) \<le> 262144 \<and> sql_length (out_content_type (e_result e)) \<le> 128"

definition run_row_check :: "run_lib \<Rightarrow> run_row \<Rightarrow> bool" where
  "run_row_check lib r \<longleftrightarrow>
     sql_length (r_origin_call_id r) \<le> 128 \<and> 0 < r_attempt r \<and>
     (case r_status r of Run_Status_Other _ \<Rightarrow> False | _ \<Rightarrow> True) \<and>
     1 \<le> sql_length (r_executor_id r) \<and> sql_length (r_executor_id r) \<le> 256 \<and>
     2 \<le> sql_length (r_executor_config r) \<and> sql_length (r_executor_config r) \<le> 65536 \<and>
     sql_json_valid (rl_driver lib) (r_executor_config r) \<and>
     1 \<le> length (r_input_payload r) \<and> length (r_input_payload r) \<le> 16384 \<and>
     1 \<le> sql_length (r_input_content_type r) \<and> sql_length (r_input_content_type r) \<le> 128 \<and>
     1 \<le> r_max_steps r \<and> r_max_steps r \<le> 64 \<and>
     1 \<le> r_max_capability_calls r \<and> r_max_capability_calls r \<le> 256 \<and>
     1 \<le> r_max_execution_units r \<and> r_max_execution_units r \<le> 1000000000 \<and>
     1 \<le> r_max_output_bytes r \<and> r_max_output_bytes r \<le> 262144 \<and>
     0 \<le> r_max_cost r \<and> r_max_cost r \<le> 1000000000000000 \<and>
     100 \<le> r_execution_timeout_ms r \<and> r_execution_timeout_ms r \<le> 300000 \<and>
     0 \<le> r_used_execution_units r \<and> 0 \<le> r_used_cost r \<and>
     0 \<le> r_used_retries r \<and> r_used_retries r \<le> 320 \<and> 0 \<le> r_last_sequence r \<and>
     sql_length (r_grants r) \<le> 65536 \<and> sql_json_valid (rl_driver lib) (r_grants r) \<and>
     rl_json_array lib (r_grants r) \<and> sql_json_valid (rl_driver lib) (r_recoverable_state r) \<and>
     length (out_data (r_result r)) \<le> 262144 \<and> sql_length (out_content_type (r_result r)) \<le> 128 \<and>
     sql_json_valid (rl_driver lib) (r_context_sources r) \<and>
     (case r_parent_id r of
        None \<Rightarrow> r_origin_call_id r = []
      | Some p \<Rightarrow> p \<noteq> r_id r \<and> r_origin_call_id r \<noteq> [])"

text \<open>The triggers \<open>runs_budget_insert_guard\<close> and \<open>runs_budget_update_guard\<close>.\<close>

definition run_budget_ok :: "run_row \<Rightarrow> bool" where
  "run_budget_ok r \<longleftrightarrow>
     \<not> (r_max_execution_units r < r_used_execution_units r \<or>
        (0 < r_max_cost r \<and> r_max_cost r < r_used_cost r))"

definition event_row_check :: "run_lib \<Rightarrow> event_row \<Rightarrow> bool" where
  "event_row_check lib v \<longleftrightarrow> 0 < ev_sequence v \<and> sql_json_valid (rl_driver lib) (ev_payload v)"

definition request_row_check :: "request_row \<Rightarrow> bool" where
  "request_row_check q \<longleftrightarrow> sql_length (cq_fingerprint q) = 64"

definition audit_row_check :: "run_lib \<Rightarrow> audit_record \<Rightarrow> bool" where
  "audit_row_check lib a \<longleftrightarrow> sql_json_valid (rl_driver lib) (au_payload a) \<and> 0 \<le> au_duration_ms a"

section \<open>Statements\<close>

definition find_echo :: "string \<times> string \<Rightarrow> echo_db \<Rightarrow> echo_row option" where
  "find_echo k db = select_key echo_key k (db_echoes db)"

definition find_run :: "string \<times> string \<Rightarrow> echo_db \<Rightarrow> run_row option" where
  "find_run k db = select_key run_key k (db_runs db)"

text \<open>An \<open>INSERT INTO runs\<close> under all constraints of the table.\<close>

definition insert_run_row :: "run_lib \<Rightarrow> run_row \<Rightarrow> echo_db \<Rightarrow> echo_db option" where
  "insert_run_row lib r db =
     (if run_row_check lib r \<and> run_budget_ok r \<and>
         find_run (run_key r) db = None \<and>
         group_key r \<notin> set (map group_key (db_runs db)) \<and>
         (origin_key r = None \<or> origin_key r \<notin> set (map origin_key (db_runs db))) \<and>
         find_echo (r_app_id r, r_echo_id r) db \<noteq> None \<and>
         (case r_parent_id r of None \<Rightarrow> True | Some p \<Rightarrow> find_run (r_app_id r, p) db \<noteq> None)
      then Some (db\<lparr>db_runs := db_runs db @ [r]\<rparr>) else None)"

text \<open>\<open>UPDATE runs\<close> and \<open>UPDATE echoes\<close> with their row count. The budget trigger fires on the columns
  of the budget only; a row satisfies it already, so testing it on every update changes nothing.\<close>

definition update_runs ::
  "run_lib \<Rightarrow> (run_row \<Rightarrow> bool) \<Rightarrow> (run_row \<Rightarrow> run_row) \<Rightarrow> echo_db \<Rightarrow> (echo_db \<times> nat) option" where
  "update_runs lib P f db =
     (case exec_update (\<lambda>r. run_row_check lib r \<and> run_budget_ok r) P f (db_runs db) of
        None \<Rightarrow> None
      | Some (t, n) \<Rightarrow> Some (db\<lparr>db_runs := t\<rparr>, n))"

definition update_echoes ::
  "(echo_row \<Rightarrow> bool) \<Rightarrow> (echo_row \<Rightarrow> echo_row) \<Rightarrow> echo_db \<Rightarrow> (echo_db \<times> nat) option" where
  "update_echoes P f db =
     (case exec_update echo_row_check P f (db_echoes db) of
        None \<Rightarrow> None
      | Some (t, n) \<Rightarrow> Some (db\<lparr>db_echoes := t\<rparr>, n))"

definition count_runs :: "(run_row \<Rightarrow> bool) \<Rightarrow> echo_db \<Rightarrow> nat" where
  "count_runs P db = affected P (db_runs db)"

text \<open>A positive 64-bit integer is bound as an \<open>int64\<close>; \<open>database/sql\<close> refuses the others.\<close>

definition bind_u64 :: "u64 \<Rightarrow> int go_result" where
  "bind_u64 n = (if uint n < 2 ^ 63 then Inr (uint n) else Inl (Opaque_Error ''uint64 with high bit set''))"

section \<open>Rows\<close>

definition run_row_of :: "run_record \<Rightarrow> string \<Rightarrow> run_row" where
  "run_row_of r grants =
     \<lparr>r_id = r_id r, r_group_id = r_group_id r, r_app_id = r_app_id r, r_echo_id = r_echo_id r,
      r_parent_id = (if r_parent_id r = [] then None else Some (r_parent_id r)),
      r_origin_call_id = r_origin_call_id r, r_session_id = r_session_id r, r_user_id = r_user_id r,
      r_message_id = r_message_id r, r_channel = r_channel r, r_attempt = uint (r_attempt r),
      r_status = r_status r, r_executor_id = r_executor_id r, r_config_revision = r_config_revision r,
      r_protocol_version = r_protocol_version r, r_executor_config = r_executor_config r,
      r_input_payload = r_input_payload r, r_input_content_type = r_input_content_type r,
      r_context_digest = r_context_digest r,
      r_context_sources = (if length (r_context_sources r) = 0 then ''{}'' else r_context_sources r),
      r_max_steps = uint (r_max_steps r), r_max_capability_calls = uint (r_max_capability_calls r),
      r_max_execution_units = uint (r_max_execution_units r),
      r_max_output_bytes = uint (r_max_output_bytes r), r_max_cost = uint (r_max_cost r),
      r_execution_timeout_ms = uint (r_execution_timeout_ms r),
      r_used_execution_units = uint (r_used_execution_units r), r_used_cost = uint (r_used_cost r),
      r_used_retries = uint (r_used_retries r), r_deadline = r_deadline r,
      r_available_at = r_available_at r, r_lease_token = None, r_lease_expires = None,
      r_last_sequence = uint (r_last_sequence r), r_grants = grants,
      r_recoverable_state = r_recoverable_state r, r_result = r_result r, r_error_code = None,
      r_error_message = None, r_created_at = r_created_at r, r_started_at = None, r_completed_at = None\<rparr>"

text \<open>\<open>coalesce\<close> of a nullable text column.\<close>

definition text_of :: "string option \<Rightarrow> string" where
  "text_of v = (case v of None \<Rightarrow> [] | Some s \<Rightarrow> s)"

definition message_of :: "message option \<Rightarrow> message" where
  "message_of v = (case v of None \<Rightarrow> No_Message | Some m \<Rightarrow> m)"

definition queryRun :: "run_lib \<Rightarrow> run_row \<Rightarrow> run_record go_result" where
  "queryRun lib r =
     (if r_attempt r < 0 \<or> r_max_steps r < 0 \<or> r_max_capability_calls r < 0 \<or> r_max_execution_units r < 0 \<or>
         r_max_output_bytes r < 0 \<or> r_max_cost r < 0 \<or> r_execution_timeout_ms r < 0 \<or>
         r_used_execution_units r < 0 \<or> r_used_cost r < 0 \<or> r_used_retries r < 0 \<or>
         320 < r_used_retries r \<or> r_last_sequence r < 0
      then echo_fail Run_InvalidRecord
      else if 65536 < length (r_grants r) then echo_fail Run_InvalidRecord
      else case rl_unmarshal lib (r_grants r) of
        None \<Rightarrow> echo_fail Run_InvalidRecord
      | Some grants \<Rightarrow>
        if \<not> validCanonicalGrants grants MaxCapabilities then echo_fail Run_InvalidRecord
        else Inr
          \<lparr>r_id = r_id r, r_group_id = r_group_id r, r_app_id = r_app_id r, r_echo_id = r_echo_id r,
           r_parent_id = text_of (r_parent_id r), r_origin_call_id = r_origin_call_id r,
           r_session_id = r_session_id r, r_user_id = r_user_id r, r_message_id = r_message_id r,
           r_channel = r_channel r, r_attempt = word_of_int (r_attempt r), r_status = r_status r,
           r_executor_id = r_executor_id r, r_config_revision = r_config_revision r,
           r_protocol_version = r_protocol_version r, r_executor_config = r_executor_config r,
           r_input_payload = r_input_payload r, r_input_content_type = r_input_content_type r,
           r_context_digest = r_context_digest r, r_context_sources = r_context_sources r,
           r_max_steps = word_of_int (r_max_steps r),
           r_max_capability_calls = word_of_int (r_max_capability_calls r),
           r_max_execution_units = word_of_int (r_max_execution_units r),
           r_max_output_bytes = word_of_int (r_max_output_bytes r),
           r_max_cost = word_of_int (r_max_cost r),
           r_execution_timeout_ms = word_of_int (r_execution_timeout_ms r),
           r_used_execution_units = word_of_int (r_used_execution_units r),
           r_used_cost = word_of_int (r_used_cost r), r_used_retries = word_of_int (r_used_retries r),
           r_deadline = r_deadline r, r_available_at = r_available_at r,
           r_lease_token = text_of (r_lease_token r), r_lease_expires = r_lease_expires r,
           r_last_sequence = word_of_int (r_last_sequence r), r_grants = grants,
           r_recoverable_state = r_recoverable_state r, r_result = r_result r,
           r_error_code = text_of (r_error_code r), r_error_message = message_of (r_error_message r),
           r_created_at = r_created_at r, r_started_at = r_started_at r,
           r_completed_at = r_completed_at r\<rparr>)"

fun scanRuns :: "run_lib \<Rightarrow> run_row list \<Rightarrow> run_record list go_result" where
  "scanRuns lib [] = Inr []"
| "scanRuns lib (r # rs) =
     (case queryRun lib r of
        Inl e \<Rightarrow> Inl (Wrapped e)
      | Inr v \<Rightarrow> and_then (scanRuns lib rs) (\<lambda>vs. Inr (v # vs)))"

section \<open>The updates of table runs\<close>

text \<open>One constructor per \<open>UPDATE runs\<close> of the store. A Run is addressed by App, Run and Echo.\<close>

type_synonym run_ref = "string \<times> string \<times> string"
type_synonym run_usage = "int \<times> int \<times> int \<times> int"

datatype run_write =
    U_Claim run_ref string instant instant
  | U_Renew run_ref string instant instant
  | U_Advance run_ref string int int
  | U_Usage run_ref string run_usage run_usage
  | U_Context run_ref string string string
  | U_Retry run_ref string public_error instant
  | U_Complete run_ref string run_status run_output public_error instant
  | U_Cancel_Echo string string public_error instant
  | U_Cancel_App string public_error instant
  | U_Fail string string run_status public_error instant

definition run_ref_of :: "('w, 'd, 's, 'm, 'g) run_fields \<Rightarrow> run_ref" where
  "run_ref_of r = (r_app_id r, r_id r, r_echo_id r)"

definition holds_lease :: "run_ref \<Rightarrow> string \<Rightarrow> run_row \<Rightarrow> bool" where
  "holds_lease ref token r \<longleftrightarrow>
     run_ref_of r = ref \<and> r_status r = Run_Running \<and> r_lease_token r = Some token"

definition usage_of :: "run_row \<Rightarrow> run_usage" where
  "usage_of r = (r_last_sequence r, r_used_execution_units r, r_used_cost r, r_used_retries r)"

fun run_where :: "run_lib \<Rightarrow> run_write \<Rightarrow> run_row \<Rightarrow> bool" where
  "run_where lib (U_Claim ref token at expires) r = (run_ref_of r = ref \<and> r_status r = Run_Queued)"
| "run_where lib (U_Renew ref token at expires) r =
     (holds_lease ref token r \<and>
      (case r_lease_expires r of
         None \<Rightarrow> False
       | Some e \<Rightarrow> julianday (rl_driver lib) at \<le> julianday (rl_driver lib) e))"
| "run_where lib (U_Advance ref token old new) r = (holds_lease ref token r \<and> r_last_sequence r = old)"
| "run_where lib (U_Usage ref token old new) r = (holds_lease ref token r \<and> usage_of r = old)"
| "run_where lib (U_Context ref token digest sources) r =
     (holds_lease ref token r \<and> r_context_digest r = [])"
| "run_where lib (U_Retry ref token err at) r = holds_lease ref token r"
| "run_where lib (U_Complete ref token st out err at) r = holds_lease ref token r"
| "run_where lib (U_Cancel_Echo app echo err at) r =
     (r_app_id r = app \<and> r_echo_id r = echo \<and> r_status r = Run_Queued)"
| "run_where lib (U_Cancel_App app err at) r = (r_app_id r = app \<and> r_status r = Run_Queued)"
| "run_where lib (U_Fail app run st err at) r = (r_app_id r = app \<and> r_id r = run \<and> r_status r = st)"

definition ended :: "run_status \<Rightarrow> public_error \<Rightarrow> instant \<Rightarrow> run_row \<Rightarrow> run_row" where
  "ended st err at r =
     r\<lparr>r_status := st, r_error_code := Some (pe_code err), r_error_message := Some (pe_message err),
       r_completed_at := Some at\<rparr>"

definition give_up_lease :: "run_row \<Rightarrow> run_row" where
  "give_up_lease r = r\<lparr>r_lease_token := None, r_lease_expires := None\<rparr>"

fun run_set :: "run_write \<Rightarrow> run_row \<Rightarrow> run_row" where
  "run_set (U_Claim ref token at expires) r =
     r\<lparr>r_status := Run_Running, r_lease_token := Some token, r_lease_expires := Some expires,
       r_started_at := Some at\<rparr>"
| "run_set (U_Renew ref token at expires) r = r\<lparr>r_lease_expires := Some expires\<rparr>"
| "run_set (U_Advance ref token old new) r = r\<lparr>r_last_sequence := new\<rparr>"
| "run_set (U_Usage ref token old (sq, units, cost, retries)) r =
     r\<lparr>r_last_sequence := sq, r_used_execution_units := units, r_used_cost := cost,
       r_used_retries := retries\<rparr>"
| "run_set (U_Context ref token digest sources) r =
     r\<lparr>r_context_digest := digest, r_context_sources := sources\<rparr>"
| "run_set (U_Retry ref token err at) r = ended Run_Failed err at (give_up_lease r)"
| "run_set (U_Complete ref token st out err at) r =
     ended st err at (give_up_lease (r\<lparr>r_result := out\<rparr>))"
| "run_set (U_Cancel_Echo app echo err at) r = ended Run_Cancelled err at r"
| "run_set (U_Cancel_App app err at) r = ended Run_Cancelled err at r"
| "run_set (U_Fail app run st err at) r =
     ended Run_Failed err at (give_up_lease (r\<lparr>r_result := no_output\<rparr>))"

definition write_runs :: "run_lib \<Rightarrow> run_write \<Rightarrow> echo_db \<Rightarrow> (echo_db \<times> nat) option" where
  "write_runs lib w db = update_runs lib (run_where lib w) (run_set w) db"

end
