(* ===== verification/Run_Operations.thy ===== *)
theory Run_Operations
  imports Run_Store
begin

text \<open>
  The operations of \<open>internal/storage/sqlite/echo_store.go\<close> and \<open>context_store.go\<close> on the database of
  \<open>Run_Store\<close>: creation of an Echo with its first Run, child Runs, claim, renewal, progress, retry and
  completion under a lease, cancellation, recovery, events and the audit of capability calls. A call
  that reads the clock takes the instant as an argument.
\<close>

definition no_rows :: go_error where
  "no_rows = Opaque_Error ''sql: no rows in result set''"

abbreviation rollback :: "echo_db \<Rightarrow> 'a go_result \<Rightarrow> echo_db \<times> 'a go_result" where
  "rollback db r \<equiv> (db, r)"

section \<open>Creation\<close>

definition insertRun :: "run_lib \<Rightarrow> run_record \<Rightarrow> echo_db \<Rightarrow> echo_db go_result" where
  "insertRun lib r db =
     (case rl_marshal lib (r_grants r) of
        Inl e \<Rightarrow> Inl (Joined [Sentinel (Echo_E Run_InvalidRecord), e])
      | Inr grants \<Rightarrow>
          (case insert_run_row lib (run_row_of r grants) db of
             None \<Rightarrow> Inl constraint_error
           | Some db' \<Rightarrow> Inr db'))"

definition echo_row_of :: "echo_record \<Rightarrow> echo_row" where
  "echo_row_of e =
     \<lparr>e_id = e_id e, e_app_id = e_app_id e, e_input_message = e_input_message e, e_status = e_status e,
      e_final_message = None, e_result = no_output, e_error_code = None, e_error_message = None,
      e_created_at = e_created_at e, e_completed_at = None, e_next_sequence = 1\<rparr>"

definition insertEchoRun :: "run_lib \<Rightarrow> echo_record \<Rightarrow> run_record \<Rightarrow> echo_db \<Rightarrow> echo_db go_result" where
  "insertEchoRun lib e r db =
     (case exec_insert echo_row_check echo_key (echo_row_of e) (db_echoes db) of
        None \<Rightarrow> Inl constraint_error
      | Some t \<Rightarrow> insertRun lib r (db\<lparr>db_echoes := t\<rparr>))"

text \<open>An \<open>INSERT INTO echo_create_requests\<close>: primary key, the unique index on the Echo, the foreign key.\<close>

definition insert_request :: "request_row \<Rightarrow> echo_db \<Rightarrow> echo_db option" where
  "insert_request q db =
     (if request_row_check q \<and> request_key q \<notin> set (map request_key (db_requests db)) \<and>
         (cq_app_id q, cq_echo_id q) \<notin> set (map (\<lambda>x. (cq_app_id x, cq_echo_id x)) (db_requests db)) \<and>
         find_echo (cq_app_id q, cq_echo_id q) db \<noteq> None
      then Some (db\<lparr>db_requests := db_requests db @ [q]\<rparr>) else None)"

definition pending_where :: "string \<Rightarrow> run_row \<Rightarrow> bool" where
  "pending_where app r \<longleftrightarrow> r_app_id r = app \<and> run_active (r_status r)"

definition CreateEchoRunIdempotentLimited ::
  "run_lib \<Rightarrow> string \<Rightarrow> string \<Rightarrow> echo_record \<Rightarrow> run_record \<Rightarrow> int \<Rightarrow> echo_db
     \<Rightarrow> echo_db \<times> (string \<times> bool) go_result" where
  "CreateEchoRunIdempotentLimited lib key fp e r max_pending db =
     (if ValidateKey key \<noteq> Inr () \<or> length fp \<noteq> 64 \<or> max_pending < 0 \<or> 100000 < max_pending
        then (db, idem_fail Idem_InvalidRequest)
      else if e_app_id e = [] \<or> e_id e = [] \<or> e_input_message e = [] \<or> e_status e \<noteq> Echo_Running \<or>
              is_zero (e_created_at e)
        then (db, echo_fail Echo_InvalidRecord)
      else if r_parent_id r \<noteq> [] then (db, echo_fail Run_InvalidRecord)
      else case validateNewRun e r of
        Inl x \<Rightarrow> (db, Inl x)
      | Inr _ \<Rightarrow>
        (case select_key request_key (e_app_id e, key) (db_requests db) of
           Some q \<Rightarrow>
             if cq_fingerprint q \<noteq> fp then rollback db (idem_fail Idem_KeyConflict)
             else rollback db (Inr (cq_echo_id q, False))
         | None \<Rightarrow>
             if 0 < max_pending \<and> max_pending \<le> int (count_runs (pending_where (e_app_id e)) db)
               then rollback db (echo_fail Run_QueueFull)
             else (case insertEchoRun lib e r db of
                 Inl x \<Rightarrow> rollback db (Inl x)
               | Inr db1 \<Rightarrow>
                   (case insert_request \<lparr>cq_app_id = e_app_id e, cq_key = key, cq_fingerprint = fp,
                           cq_echo_id = e_id e, cq_created_at = e_created_at e\<rparr> db1 of
                      None \<Rightarrow> rollback db (Inl constraint_error)
                    | Some db2 \<Rightarrow> (db2, Inr (e_id e, True))))))"

section \<open>Child Runs\<close>

text \<open>The \<open>WHERE\<close> of the guarded insert, on the row of the parent.\<close>

definition parent_holds :: "run_lib \<Rightarrow> instant \<Rightarrow> run_record \<Rightarrow> run_row \<Rightarrow> bool" where
  "parent_holds lib now parent p \<longleftrightarrow>
     r_app_id p = r_app_id parent \<and> r_id p = r_id parent \<and> r_echo_id p = r_echo_id parent \<and>
     r_parent_id p = None \<and> r_status p = Run_Running \<and> r_lease_token p = Some (r_lease_token parent) \<and>
     (case r_lease_expires p of
        None \<Rightarrow> False
      | Some x \<Rightarrow> julianday (rl_driver lib) now < julianday (rl_driver lib) x)"

definition insertChildRunGuarded ::
  "run_lib \<Rightarrow> instant \<Rightarrow> run_record \<Rightarrow> run_record \<Rightarrow> echo_db \<Rightarrow> echo_db go_result" where
  "insertChildRunGuarded lib now parent child db =
     (case rl_marshal lib (r_grants child) of
        Inl e \<Rightarrow> Inl (Joined [Sentinel (Echo_E Run_InvalidRecord), e])
      | Inr grants \<Rightarrow>
          if \<not> list_ex (parent_holds lib now parent) (db_runs db) then echo_fail Echo_InvalidTransition
          else (case insert_run_row lib (run_row_of child grants) db of
              None \<Rightarrow> Inl constraint_error
            | Some db' \<Rightarrow> Inr db'))"

definition child_where :: "string \<Rightarrow> string \<Rightarrow> run_row \<Rightarrow> bool" where
  "child_where app parent r \<longleftrightarrow> r_app_id r = app \<and> r_parent_id r = Some parent \<and> run_active (r_status r)"

definition CreateChildRun ::
  "run_lib \<Rightarrow> instant \<Rightarrow> run_record \<Rightarrow> run_record \<Rightarrow> int \<Rightarrow> echo_db \<Rightarrow> echo_db \<times> unit go_result" where
  "CreateChildRun lib now parent child max_children db =
     (if r_app_id parent = [] \<or> r_id parent = [] \<or> r_echo_id parent = [] \<or> r_parent_id parent \<noteq> [] \<or>
         r_lease_token parent = [] \<or> max_children < 1 \<or> 64 < max_children \<or>
         r_parent_id child \<noteq> r_id parent \<or> r_origin_call_id child = []
        then (db, echo_fail Run_InvalidRecord)
      else case find_echo (r_app_id child, r_echo_id child) db of
        None \<Rightarrow> rollback db (echo_fail Echo_NotFound)
      | Some e \<Rightarrow>
        if r_app_id child \<noteq> r_app_id parent \<or> r_echo_id child \<noteq> r_echo_id parent \<or> e_status e \<noteq> Echo_Running
          then rollback db (echo_fail Echo_InvalidTransition)
        else case validateNewRun
            \<lparr>e_id = r_echo_id child, e_app_id = r_app_id child, e_input_message = e_input_message e,
             e_status = e_status e, e_final_message = [], e_result = no_output, e_error_code = [],
             e_error_message = No_Message, e_created_at = r_created_at child, e_completed_at = None\<rparr> child of
          Inl x \<Rightarrow> rollback db (Inl x)
        | Inr _ \<Rightarrow>
          if max_children \<le> int (count_runs (child_where (r_app_id parent) (r_id parent)) db)
            then rollback db (echo_fail Run_ChildLimit)
          else (case insertChildRunGuarded lib now parent child db of
              Inl x \<Rightarrow> rollback db (Inl x)
            | Inr db' \<Rightarrow> (db', Inr ())))"

section \<open>Claim, lease and progress\<close>

definition claimable_where :: "run_lib \<Rightarrow> run_ref \<Rightarrow> instant \<Rightarrow> run_row \<Rightarrow> bool" where
  "claimable_where lib ref at r \<longleftrightarrow>
     run_ref_of r = ref \<and> r_status r = Run_Queued \<and>
     julianday (rl_driver lib) (r_available_at r) \<le> julianday (rl_driver lib) at"

definition ClaimRun ::
  "run_lib \<Rightarrow> string \<Rightarrow> string \<Rightarrow> string \<Rightarrow> string \<Rightarrow> instant \<Rightarrow> instant \<Rightarrow> echo_db
     \<Rightarrow> echo_db \<times> run_record go_result" where
  "ClaimRun lib app echo run token started expires db =
     (if app = [] \<or> echo = [] \<or> run = [] \<or> token = [] \<or> is_zero started \<or> \<not> after expires started
        then (db, echo_fail Run_InvalidRecord)
      else case find (claimable_where lib (app, run, echo) started) (db_runs db) of
        None \<Rightarrow> rollback db (echo_fail Echo_InvalidTransition)
      | Some row \<Rightarrow>
        (case queryRun lib row of
           Inl x \<Rightarrow> rollback db (Inl (Wrapped x))
         | Inr r \<Rightarrow>
             (case write_runs lib (U_Claim (app, r_id r, echo) token started expires) db of
                None \<Rightarrow> rollback db (Inl constraint_error)
              | Some (db', n) \<Rightarrow>
                  if n \<noteq> 1 then rollback db (echo_fail Echo_InvalidTransition)
                  else (db', Inr (r\<lparr>r_status := Run_Running, r_lease_token := token,
                          r_started_at := Some started, r_lease_expires := Some expires\<rparr>)))))"

text \<open>What the single-statement writes make of the row count.\<close>

definition one_row_write :: "run_lib \<Rightarrow> run_write \<Rightarrow> echo_db \<Rightarrow> echo_db \<times> unit go_result" where
  "one_row_write lib w db =
     (case write_runs lib w db of
        None \<Rightarrow> (db, Inl constraint_error)
      | Some (db', n) \<Rightarrow> if n \<noteq> 1 then (db', echo_fail Echo_InvalidTransition) else (db', Inr ()))"

text \<open>The identity and lease every progress write demands of the caller's record.\<close>

definition leased_record :: "run_record \<Rightarrow> bool" where
  "leased_record r \<longleftrightarrow>
     r_app_id r \<noteq> [] \<and> r_id r \<noteq> [] \<and> r_echo_id r \<noteq> [] \<and> r_lease_token r \<noteq> [] \<and> r_status r = Run_Running"

definition RenewRunLease ::
  "run_lib \<Rightarrow> run_record \<Rightarrow> instant \<Rightarrow> instant \<Rightarrow> echo_db \<Rightarrow> echo_db \<times> unit go_result" where
  "RenewRunLease lib r renewed expires db =
     (if \<not> leased_record r \<or> is_zero renewed \<or> \<not> after expires renewed then (db, echo_fail Run_InvalidRecord)
      else one_row_write lib (U_Renew (run_ref_of r) (r_lease_token r) renewed expires) db)"

definition AdvanceRunExecutorSequence ::
  "run_lib \<Rightarrow> run_record \<Rightarrow> u64 \<Rightarrow> echo_db \<Rightarrow> echo_db \<times> unit go_result" where
  "AdvanceRunExecutorSequence lib r sq db =
     (if \<not> leased_record r \<or> sq = 0 \<or> sq \<noteq> r_last_sequence r + 1 then (db, echo_fail Run_InvalidRecord)
      else case bind_u64 sq of
        Inl e \<Rightarrow> (db, Inl (Wrapped e))
      | Inr new \<Rightarrow>
          one_row_write lib
            (U_Advance (run_ref_of r) (r_lease_token r) (uint (r_last_sequence r)) new) db)"

definition AdvanceRunExecutorSequenceWithUsage ::
  "run_lib \<Rightarrow> run_record \<Rightarrow> u64 \<Rightarrow> u64 \<Rightarrow> u64 \<Rightarrow> u32 \<Rightarrow> echo_db \<Rightarrow> echo_db \<times> unit go_result" where
  "AdvanceRunExecutorSequenceWithUsage lib r sq units cost retries db =
     (if \<not> leased_record r \<or> sq = 0 \<or> sq \<noteq> r_last_sequence r + 1 \<or>
         units < r_used_execution_units r \<or> cost < r_used_cost r \<or> retries < r_used_retries r \<or>
         320 < retries \<or> r_max_execution_units r < units \<or> (0 < r_max_cost r \<and> r_max_cost r < cost)
        then (db, echo_fail Run_InvalidRecord)
      else case and_then (bind_u64 sq) (\<lambda>s. and_then (bind_u64 units) (\<lambda>u.
             and_then (bind_u64 cost) (\<lambda>c. Inr (s, u, c, uint retries)))) of
        Inl e \<Rightarrow> (db, Inl (Wrapped e))
      | Inr new \<Rightarrow>
          one_row_write lib
            (U_Usage (run_ref_of r) (r_lease_token r)
               (uint (r_last_sequence r), uint (r_used_execution_units r), uint (r_used_cost r),
                uint (r_used_retries r)) new) db)"

text \<open>\<open>hex.DecodeString\<close> succeeds on an even number of hexadecimal digits.\<close>

definition SetRunContext ::
  "run_lib \<Rightarrow> run_record \<Rightarrow> string \<Rightarrow> string \<Rightarrow> echo_db \<Rightarrow> echo_db \<times> unit go_result" where
  "SetRunContext lib r digest sources db =
     (if \<not> leased_record r \<or> length sources = 0 \<or> \<not> json_valid sources then (db, echo_fail Run_InvalidRecord)
      else if length digest \<noteq> 64 \<or> \<not> list_all is_hex digest then (db, echo_fail Run_InvalidRecord)
      else one_row_write lib (U_Context (run_ref_of r) (r_lease_token r) digest sources) db)"

section \<open>The end of a Run\<close>

definition RetryRun ::
  "run_lib \<Rightarrow> run_record \<Rightarrow> run_record \<Rightarrow> public_error \<Rightarrow> instant \<Rightarrow> echo_db \<Rightarrow> echo_db \<times> unit go_result" where
  "RetryRun lib cur nxt failure at db =
     (if r_app_id cur = [] \<or> r_id cur = [] \<or> r_echo_id cur = [] \<or> r_lease_token cur = [] \<or> is_zero at \<or>
         r_app_id nxt \<noteq> r_app_id cur \<or> r_echo_id nxt \<noteq> r_echo_id cur \<or>
         r_attempt nxt \<noteq> r_attempt cur + 1 \<or> r_status nxt \<noteq> Run_Queued \<or>
         r_group_id nxt \<noteq> r_group_id cur
        then (db, echo_fail Run_InvalidRecord)
      else case validateNewRun
          \<lparr>e_id = r_echo_id cur, e_app_id = r_app_id cur, e_input_message = ''persisted'',
           e_status = Echo_Running, e_final_message = [], e_result = no_output, e_error_code = [],
           e_error_message = No_Message, e_created_at = r_created_at nxt, e_completed_at = None\<rparr> nxt of
        Inl x \<Rightarrow> (db, Inl x)
      | Inr _ \<Rightarrow>
        (case write_runs lib
            (U_Retry (run_ref_of cur) (r_lease_token cur) (PublicEcho (pe_code failure)) at) db of
           None \<Rightarrow> rollback db (Inl constraint_error)
         | Some (db1, n) \<Rightarrow>
             if n \<noteq> 1 then rollback db (echo_fail Echo_InvalidTransition)
             else (case insertRun lib nxt db1 of
                 Inl x \<Rightarrow> rollback db (Inl (Wrapped x))
               | Inr db2 \<Rightarrow> (db2, Inr ()))))"

definition open_echo_where :: "string \<Rightarrow> string \<Rightarrow> echo_row \<Rightarrow> bool" where
  "open_echo_where app echo e \<longleftrightarrow> e_app_id e = app \<and> e_id e = echo \<and> e_status e = Echo_Running"

definition echo_ended ::
  "echo_status \<Rightarrow> run_output \<Rightarrow> string \<Rightarrow> message \<Rightarrow> instant \<Rightarrow> echo_row \<Rightarrow> echo_row" where
  "echo_ended st out error_code error_message at e =
     e\<lparr>e_status := st, e_final_message := Some (textOutput out), e_result := out,
       e_error_code := Some error_code, e_error_message := Some error_message, e_completed_at := Some at\<rparr>"

text \<open>The failure and the output that \<open>CompleteRun\<close> records.\<close>

definition recorded_failure :: "run_status \<Rightarrow> public_error \<Rightarrow> public_error" where
  "recorded_failure rs failure = (if rs = Run_Succeeded then no_error else PublicEcho (pe_code failure))"

definition recorded_output :: "run_status \<Rightarrow> run_output \<Rightarrow> run_output" where
  "recorded_output rs out = (if rs = Run_Succeeded then out else no_output)"

definition CompleteRun ::
  "run_lib \<Rightarrow> run_record \<Rightarrow> run_status \<Rightarrow> echo_status \<Rightarrow> run_output \<Rightarrow> public_error \<Rightarrow> instant \<Rightarrow> echo_db
     \<Rightarrow> echo_db \<times> unit go_result" where
  "CompleteRun lib r rs es out failure at db =
     (case validateCompletion r rs es at of
        Inl x \<Rightarrow> (db, Inl x)
      | Inr _ \<Rightarrow>
        let failure' = recorded_failure rs failure; out' = recorded_output rs out in
        if rs = Run_Succeeded \<and>
           (length (out_data out') = 0 \<or> MaxOutputPayloadBytes < length (out_data out') \<or>
            out_content_type out' = [])
          then (db, echo_fail Run_InvalidRecord)
        else case write_runs lib (U_Complete (run_ref_of r) (r_lease_token r) rs out' failure' at) db of
          None \<Rightarrow> rollback db (Inl constraint_error)
        | Some (db1, n) \<Rightarrow>
            if n \<noteq> 1 then rollback db (echo_fail Echo_InvalidTransition)
            else if r_parent_id r \<noteq> [] then (db1, Inr ())
            else (case update_echoes (open_echo_where (r_app_id r) (r_echo_id r))
                    (echo_ended es out' (pe_code failure') (pe_message failure') at) db1 of
                None \<Rightarrow> rollback db (Inl constraint_error)
              | Some (db2, m) \<Rightarrow>
                  if m \<noteq> 1 then rollback db (echo_fail Echo_InvalidTransition) else (db2, Inr ())))"

section \<open>Cancellation\<close>

definition echo_run_where :: "string \<Rightarrow> string \<Rightarrow> run_status \<Rightarrow> run_row \<Rightarrow> bool" where
  "echo_run_where app echo st r \<longleftrightarrow> r_app_id r = app \<and> r_echo_id r = echo \<and> r_status r = st"

text \<open>The two cancelling statements on \<open>echoes\<close> leave the result columns as they are.\<close>

definition echo_cancelled :: "public_error \<Rightarrow> instant \<Rightarrow> echo_row \<Rightarrow> echo_row" where
  "echo_cancelled err at e =
     e\<lparr>e_status := Echo_Cancelled, e_final_message := Some [], e_error_code := Some (pe_code err),
       e_error_message := Some (pe_message err), e_completed_at := Some at\<rparr>"

definition CancelQueuedRun ::
  "run_lib \<Rightarrow> string \<Rightarrow> string \<Rightarrow> instant \<Rightarrow> echo_db \<Rightarrow> echo_db \<times> bool go_result" where
  "CancelQueuedRun lib app echo at db =
     (if app = [] \<or> echo = [] \<or> is_zero at then (db, echo_fail Run_InvalidRecord)
      else let err = PublicEcho ''cancelled'' in
        case write_runs lib (U_Cancel_Echo app echo err at) db of
          None \<Rightarrow> rollback db (Inl constraint_error)
        | Some (db1, n) \<Rightarrow>
            let running = count_runs (echo_run_where app echo Run_Running) db1 in
            if n = 0 \<and> 0 < running then rollback db (Inr False)
            else if n = 0 then rollback db (echo_fail Echo_InvalidTransition)
            else if 0 < running then (db1, Inr True)
            else (case update_echoes (open_echo_where app echo) (echo_cancelled err at) db1 of
                None \<Rightarrow> rollback db (Inl constraint_error)
              | Some (db2, m) \<Rightarrow>
                  if m \<noteq> 1 then rollback db (echo_fail Echo_InvalidTransition) else (db2, Inr True)))"

text \<open>The Echoes that have a queued Run and no running one, in the database before the Runs change.\<close>

definition cancellable_where :: "string \<Rightarrow> echo_db \<Rightarrow> echo_row \<Rightarrow> bool" where
  "cancellable_where app db e \<longleftrightarrow>
     e_app_id e = app \<and> e_status e = Echo_Running \<and>
     0 < count_runs (echo_run_where (e_app_id e) (e_id e) Run_Queued) db \<and>
     count_runs (echo_run_where (e_app_id e) (e_id e) Run_Running) db = 0"

definition CancelQueuedRuns :: "run_lib \<Rightarrow> string \<Rightarrow> instant \<Rightarrow> echo_db \<Rightarrow> echo_db \<times> unit go_result" where
  "CancelQueuedRuns lib app at db =
     (if app = [] \<or> is_zero at then (db, echo_fail Run_InvalidRecord)
      else let err = PublicEcho ''cancelled'' in
        case update_echoes (cancellable_where app db) (echo_cancelled err at) db of
          None \<Rightarrow> rollback db (Inl constraint_error)
        | Some (db1, n) \<Rightarrow>
            (case write_runs lib (U_Cancel_App app err at) db1 of
               None \<Rightarrow> rollback db (Inl constraint_error)
             | Some (db2, m) \<Rightarrow> (db2, Inr ())))"

section \<open>Reconciling an Echo with its Runs\<close>

definition root_where :: "string \<Rightarrow> string \<Rightarrow> run_row \<Rightarrow> bool" where
  "root_where app echo r \<longleftrightarrow> r_app_id r = app \<and> r_echo_id r = echo \<and> r_parent_id r = None"

definition group_where :: "string \<Rightarrow> string \<Rightarrow> string \<Rightarrow> run_row \<Rightarrow> bool" where
  "group_where app echo grp r \<longleftrightarrow> r_app_id r = app \<and> r_echo_id r = echo \<and> r_group_id r = grp"

definition created_order :: "run_row \<Rightarrow> (int \<times> string) \<times> string" where
  "created_order r = (stored_time (r_created_at r), r_id r)"

definition first_by :: "(run_row \<Rightarrow> 'k::linorder) \<Rightarrow> (run_row \<Rightarrow> bool) \<Rightarrow> echo_db \<Rightarrow> run_row option" where
  "first_by key P db = (case sort_key key (filter P (db_runs db)) of [] \<Rightarrow> None | r # _ \<Rightarrow> Some r)"

text \<open>The status, code and message the Echo takes from the last attempt of its primary group.\<close>

definition echo_verdict :: "run_row \<Rightarrow> (echo_status \<times> string \<times> message) option" where
  "echo_verdict r =
     (let c = text_of (r_error_code r); m = message_of (r_error_message r) in
      case r_status r of
        Run_Succeeded \<Rightarrow> Some (Echo_Succeeded, [], No_Message)
      | Run_Cancelled \<Rightarrow> Some (Echo_Cancelled, c, m)
      | Run_Failed \<Rightarrow> Some (Echo_Failed, c, m)
      | Run_Timed_Out \<Rightarrow> Some (Echo_Failed, c, m)
      | Run_Status_Other [] \<Rightarrow> Some (Echo_Failed, c, m)
      | _ \<Rightarrow> None)"

definition finalizeEchoFromRun :: "string \<Rightarrow> string \<Rightarrow> instant \<Rightarrow> echo_db \<Rightarrow> echo_db go_result" where
  "finalizeEchoFromRun app echo at db =
     (case first_by created_order (root_where app echo) db of
        None \<Rightarrow> Inl (Wrapped no_rows)
      | Some root \<Rightarrow>
        let grp = r_group_id root in
        if count_runs (\<lambda>r. group_where app echo grp r \<and> run_active (r_status r)) db \<noteq> 0 then Inr db
        else case first_by (\<lambda>r. - r_attempt r) (group_where app echo grp) db of
          None \<Rightarrow> Inl (Wrapped no_rows)
        | Some final \<Rightarrow>
          (case echo_verdict final of
             None \<Rightarrow> echo_fail Echo_InvalidTransition
           | Some (es, c, m) \<Rightarrow>
               (case update_echoes (open_echo_where app echo) (echo_ended es (r_result final) c m at) db of
                  None \<Rightarrow> Inl constraint_error
                | Some (db', n) \<Rightarrow> if n \<noteq> 1 then echo_fail Echo_InvalidTransition else Inr db')))"

definition failQueuedRun :: "run_lib \<Rightarrow> instant \<Rightarrow> run_record \<Rightarrow> echo_db \<Rightarrow> echo_db \<times> unit go_result" where
  "failQueuedRun lib now r db =
     (case write_runs lib
         (U_Fail (r_app_id r) (r_id r) Run_Queued (PublicEcho ''recovery_failed'') now) db of
        None \<Rightarrow> rollback db (Inl constraint_error)
      | Some (db1, n) \<Rightarrow>
          if n = 1 then
            (case find_echo (r_app_id r, r_echo_id r) db1 of
               None \<Rightarrow> rollback db (Inl (Wrapped no_rows))
             | Some e \<Rightarrow>
                 if e_status e = Echo_Running then
                   (case finalizeEchoFromRun (r_app_id r) (r_echo_id r) now db1 of
                      Inl x \<Rightarrow> rollback db (Inl (Wrapped x))
                    | Inr db2 \<Rightarrow> (db2, Inr ()))
                 else (db1, Inr ()))
          else (db1, Inr ()))"

section \<open>Recovery\<close>

text \<open>One \<open>UPDATE\<close> per abandoned Run, then one reconciliation per distinct Echo.\<close>

fun fail_each :: "run_lib \<Rightarrow> string \<Rightarrow> instant \<Rightarrow> run_row list \<Rightarrow> echo_db \<Rightarrow> echo_db go_result" where
  "fail_each lib app now [] db = Inr db"
| "fail_each lib app now (r # rs) db =
     (case write_runs lib (U_Fail app (r_id r) (r_status r) (PublicEcho ''recovery_failed'') now) db of
        None \<Rightarrow> Inl constraint_error
      | Some (db', n) \<Rightarrow> fail_each lib app now rs db')"

fun reconcile_each :: "string \<Rightarrow> instant \<Rightarrow> string set \<Rightarrow> run_row list \<Rightarrow> echo_db \<Rightarrow> echo_db go_result" where
  "reconcile_each app now seen [] db = Inr db"
| "reconcile_each app now seen (r # rs) db =
     (if r_echo_id r \<in> seen then reconcile_each app now seen rs db
      else case finalizeEchoFromRun app (r_echo_id r) now db of
        Inl x \<Rightarrow> Inl (Wrapped x)
      | Inr db' \<Rightarrow> reconcile_each app now (insert (r_echo_id r) seen) rs db')"

definition abandoned_runs :: "string \<Rightarrow> echo_db \<Rightarrow> run_row list" where
  "abandoned_runs app db =
     sort_key created_order (filter (\<lambda>r. r_app_id r = app \<and> r_status r = Run_Running) (db_runs db))"

definition FailAbandonedRuns :: "run_lib \<Rightarrow> string \<Rightarrow> instant \<Rightarrow> echo_db \<Rightarrow> echo_db \<times> int go_result" where
  "FailAbandonedRuns lib app now db =
     (if app = [] \<or> is_zero now then (db, echo_fail Run_InvalidRecord)
      else let rs = abandoned_runs app db in
        case and_then (fail_each lib app now rs db) (reconcile_each app now {} rs) of
          Inl x \<Rightarrow> rollback db (Inl x)
        | Inr db' \<Rightarrow> (db', Inr (int (length rs))))"

end
