(* ===== verification/Echo_Log.thy ===== *)
theory Echo_Log
  imports Run_Operations Go_Context
begin

text \<open>
  The rest of \<open>internal/storage/sqlite/echo_store.go\<close>: the event log of an Echo, the audit of capability
  calls, and the reads, of which the queue reads fail the queued Runs they cannot hand out.
\<close>

section \<open>Events\<close>

text \<open>The join of the event's Run with its Echo, both running.\<close>

definition event_run_where :: "echo_db \<Rightarrow> echo_event \<Rightarrow> run_row \<Rightarrow> bool" where
  "event_run_where db v r \<longleftrightarrow>
     r_app_id r = ev_app_id v \<and> r_echo_id r = ev_echo_id v \<and> r_id r = ev_run_id v \<and>
     r_status r = Run_Running \<and>
     (case find_echo (r_app_id r, r_echo_id r) db of None \<Rightarrow> False | Some e \<Rightarrow> e_status e = Echo_Running)"

definition insert_event :: "run_lib \<Rightarrow> event_row \<Rightarrow> echo_db \<Rightarrow> echo_db option" where
  "insert_event lib v db =
     (if find_echo (ev_app_id v, ev_echo_id v) db = None then None
      else case exec_insert (event_row_check lib) event_key v (db_events db) of
        None \<Rightarrow> None
      | Some t \<Rightarrow> Some (db\<lparr>db_events := t\<rparr>))"

definition event_row_of :: "echo_event \<Rightarrow> int \<Rightarrow> event_row" where
  "event_row_of v n =
     \<lparr>ev_app_id = ev_app_id v, ev_echo_id = ev_echo_id v, ev_run_id = ev_run_id v, ev_sequence = n,
      ev_type = ev_type v, ev_payload = ev_payload v, ev_created_at = ev_created_at v\<rparr>"

text \<open>\<open>ctx_error\<close> is \<open>ctx.Err()\<close> at the call.\<close>

definition AppendEchoEvent ::
  "run_lib \<Rightarrow> context_error option \<Rightarrow> echo_event \<Rightarrow> echo_db \<Rightarrow> echo_db \<times> echo_event go_result" where
  "AppendEchoEvent lib ctx_error v db =
     (if ev_app_id v = [] \<or> ev_echo_id v = [] \<or> ev_run_id v = [] \<or> ev_sequence v \<noteq> 0 \<or> ev_type v = [] \<or>
         is_zero (ev_created_at v) \<or> \<not> json_valid (ev_payload v)
        then (db, echo_fail Echo_InvalidEvent)
      else case ctx_error of
        Some x \<Rightarrow> (db, Inl (Sentinel (Context_E x)))
      | None \<Rightarrow>
        if count_runs (event_run_where db v) db \<noteq> 1 then rollback db (echo_fail Echo_InvalidTransition)
        else case update_echoes (\<lambda>e. echo_key e = (ev_app_id v, ev_echo_id v))
               (\<lambda>e. e\<lparr>e_next_sequence := e_next_sequence e + 1\<rparr>) db of
          None \<Rightarrow> rollback db (Inl constraint_error)
        | Some (db1, _) \<Rightarrow>
          (case find_echo (ev_app_id v, ev_echo_id v) db1 of
             None \<Rightarrow> rollback db (echo_fail Echo_NotFound)
           | Some e \<Rightarrow>
             let n = e_next_sequence e - 1 in
             (case insert_event lib (event_row_of v n) db1 of
                None \<Rightarrow> rollback db (Inl constraint_error)
              | Some db2 \<Rightarrow> (db2, Inr (v\<lparr>ev_sequence := word_of_int n\<rparr>)))))"

definition event_of_row :: "event_row \<Rightarrow> echo_event" where
  "event_of_row v =
     \<lparr>ev_app_id = ev_app_id v, ev_echo_id = ev_echo_id v, ev_run_id = ev_run_id v,
      ev_sequence = word_of_int (ev_sequence v), ev_type = ev_type v, ev_payload = ev_payload v,
      ev_created_at = ev_created_at v\<rparr>"

definition echo_of_row :: "echo_row \<Rightarrow> echo_record" where
  "echo_of_row e =
     \<lparr>e_id = e_id e, e_app_id = e_app_id e, e_input_message = e_input_message e, e_status = e_status e,
      e_final_message = text_of (e_final_message e), e_result = e_result e,
      e_error_code = text_of (e_error_code e), e_error_message = message_of (e_error_message e),
      e_created_at = e_created_at e, e_completed_at = e_completed_at e\<rparr>"

definition echo_events :: "string \<Rightarrow> string \<Rightarrow> echo_db \<Rightarrow> event_row list" where
  "echo_events app echo db =
     sort_key ev_sequence (filter (\<lambda>v. ev_app_id v = app \<and> ev_echo_id v = echo) (db_events db))"

definition GetEcho :: "string \<Rightarrow> string \<Rightarrow> echo_db \<Rightarrow> (echo_record \<times> echo_event list) go_result" where
  "GetEcho app echo db =
     (if app = [] \<or> echo = [] then echo_fail Echo_NotFound
      else case find_echo (app, echo) db of
        None \<Rightarrow> echo_fail Echo_NotFound
      | Some e \<Rightarrow> Inr (echo_of_row e, map event_of_row (echo_events app echo db)))"

section \<open>Reads of Runs\<close>

definition ListRuns :: "run_lib \<Rightarrow> string \<Rightarrow> string \<Rightarrow> echo_db \<Rightarrow> run_record list go_result" where
  "ListRuns lib app echo db =
     (if app = [] \<or> echo = [] then echo_fail Run_InvalidRecord
      else scanRuns lib (sort_key created_order
             (filter (\<lambda>r. r_app_id r = app \<and> r_echo_id r = echo) (db_runs db))))"

definition GetRun :: "run_lib \<Rightarrow> string \<Rightarrow> string \<Rightarrow> echo_db \<Rightarrow> run_record go_result" where
  "GetRun lib app run db =
     (if app = [] \<or> run = [] then echo_fail Run_NotFound
      else case find_run (app, run) db of
        None \<Rightarrow> echo_fail Run_NotFound
      | Some row \<Rightarrow>
          (case queryRun lib row of Inl e \<Rightarrow> Inl (Wrapped e) | Inr r \<Rightarrow> Inr r))"

text \<open>A queued Run without input, or whose Echo has ended, is failed and left out; a failure to fail it
  is only logged.\<close>

fun loadRunWork :: "run_lib \<Rightarrow> instant \<Rightarrow> run_record list \<Rightarrow> echo_db \<Rightarrow> echo_db \<times> run_record list" where
  "loadRunWork lib now [] db = (db, [])"
| "loadRunWork lib now (r # rs) db =
     (if length (r_input_payload r) = 0 \<or> r_input_content_type r = [] \<or>
         \<not> list_ex (open_echo_where (r_app_id r) (r_echo_id r)) (db_echoes db)
      then loadRunWork lib now rs (fst (failQueuedRun lib now r db))
      else let (db', work) = loadRunWork lib now rs db in (db', r # work))"

definition ListQueuedRuns ::
  "run_lib \<Rightarrow> instant \<Rightarrow> string \<Rightarrow> int \<Rightarrow> echo_db \<Rightarrow> echo_db \<times> run_record list go_result" where
  "ListQueuedRuns lib clock app limit db =
     (if app = [] \<or> limit < 1 \<or> 1000 < limit then (db, echo_fail Run_InvalidRecord)
      else case scanRuns lib (take (nat limit) (sort_key created_order
              (filter (\<lambda>r. r_app_id r = app \<and> r_status r = Run_Queued) (db_runs db)))) of
        Inl e \<Rightarrow> (db, Inl e)
      | Inr rs \<Rightarrow> let (db', work) = loadRunWork lib clock rs db in (db', Inr work))"

definition runnable_where :: "run_lib \<Rightarrow> string \<Rightarrow> instant \<Rightarrow> run_row \<Rightarrow> bool" where
  "runnable_where lib app now r \<longleftrightarrow>
     r_app_id r = app \<and> r_status r = Run_Queued \<and>
     julianday (rl_driver lib) (r_available_at r) \<le> julianday (rl_driver lib) now"

definition runnable_order :: "run_lib \<Rightarrow> run_row \<Rightarrow> int \<times> int \<times> string" where
  "runnable_order lib r =
     (julianday (rl_driver lib) (r_available_at r), julianday (rl_driver lib) (r_created_at r), r_id r)"

definition ListRunnableRuns ::
  "run_lib \<Rightarrow> instant \<Rightarrow> string \<Rightarrow> instant \<Rightarrow> int \<Rightarrow> echo_db \<Rightarrow> echo_db \<times> run_record list go_result" where
  "ListRunnableRuns lib clock app now limit db =
     (if app = [] \<or> is_zero now \<or> limit < 1 \<or> 1000 < limit then (db, echo_fail Run_InvalidRecord)
      else case scanRuns lib (take (nat limit) (sort_key (runnable_order lib)
              (filter (runnable_where lib app now) (db_runs db)))) of
        Inl e \<Rightarrow> (db, Inl e)
      | Inr rs \<Rightarrow> let (db', work) = loadRunWork lib clock rs db in (db', Inr work))"

section \<open>Audit\<close>

definition insert_audit :: "run_lib \<Rightarrow> audit_record \<Rightarrow> echo_db \<Rightarrow> (echo_db \<times> nat) option" where
  "insert_audit lib a db =
     (case exec_insert_ignore (audit_row_check lib) audit_key a (db_audit db) of
        None \<Rightarrow> None
      | Some (t, n) \<Rightarrow>
          if 0 < n \<and> (find_echo (au_app_id a, au_echo_id a) db = None \<or>
                      find_run (au_app_id a, au_run_id a) db = None) then None
          else Some (db\<lparr>db_audit := t\<rparr>, n))"

definition same_audit :: "audit_record \<Rightarrow> audit_record \<Rightarrow> bool" where
  "same_audit a b \<longleftrightarrow>
     au_echo_id a = au_echo_id b \<and> au_capability_id a = au_capability_id b \<and>
     au_payload a = au_payload b \<and> au_success a = au_success b \<and>
     au_error_code a = au_error_code b \<and> au_error_message a = au_error_message b"

definition RecordCapabilityCall ::
  "run_lib \<Rightarrow> instant \<Rightarrow> string \<Rightarrow> string \<Rightarrow> string \<Rightarrow> string \<Rightarrow> string \<Rightarrow> string \<Rightarrow> bool \<Rightarrow> public_error
     \<Rightarrow> duration \<Rightarrow> echo_db \<Rightarrow> echo_db \<times> unit go_result" where
  "RecordCapabilityCall lib clock call run echo app cap body success failure took db =
     (if app = [] \<or> call = [] \<or> run = [] \<or> echo = [] \<or> cap = [] \<or> took < 0 \<or> \<not> json_valid body
        then (db, echo_fail Echo_InvalidAudit)
      else let err = (if success then no_error else NormalizeCapability failure);
               a = \<lparr>au_app_id = app, au_run_id = run, au_call_id = call, au_echo_id = echo,
                    au_capability_id = cap, au_payload = body, au_success = success,
                    au_error_code = pe_code err, au_error_message = pe_message err,
                    au_duration_ms = go_div took millisecond, au_created_at = clock\<rparr> in
        case insert_audit lib a db of
          None \<Rightarrow> (db, Inl constraint_error)
        | Some (db', n) \<Rightarrow>
            if n = 1 then (db', Inr ())
            else (case select_key audit_key (app, run, call) (db_audit db') of
                None \<Rightarrow> (db', Inl (Wrapped no_rows))
              | Some b \<Rightarrow> if \<not> same_audit b a then (db', idem_fail Idem_KeyConflict) else (db', Inr ())))"

definition ListCapabilityCalls :: "string \<Rightarrow> string \<Rightarrow> echo_db \<Rightarrow> audit_record list go_result" where
  "ListCapabilityCalls app echo db =
     (if app = [] \<or> echo = [] then echo_fail Echo_InvalidAudit
      else Inr (sort_key (\<lambda>a. (stored_time (au_created_at a), au_run_id a, au_call_id a))
             (filter (\<lambda>a. au_app_id a = app \<and> au_echo_id a = echo) (db_audit db))))"

end
