(* ===== verification/Run_Invariants.thy ===== *)
theory Run_Invariants
  imports Echo_Log
begin

text \<open>
  What the store of Echoes and Runs keeps. Every operation is a sequence of a few primitive changes of
  the database (\<open>run_atom\<close>), so that each invariant is proved once per primitive: the constraints and
  keys, the foreign keys, the shape of a Run in each status, the gap-free numbering of the events of an
  Echo, and the evolution of a single Run along its life cycle.
\<close>

section \<open>The operations as steps\<close>

inductive run_step :: "run_lib \<Rightarrow> echo_db \<Rightarrow> echo_db \<Rightarrow> bool" for lib where
  create: "CreateEchoRunIdempotentLimited lib key fp e r n db = (db', v) \<Longrightarrow> run_step lib db db'"
| create_child: "CreateChildRun lib now p c n db = (db', u) \<Longrightarrow> run_step lib db db'"
| claim: "ClaimRun lib app echo run token started expires db = (db', x) \<Longrightarrow> run_step lib db db'"
| renew: "RenewRunLease lib r renewed expires db = (db', u) \<Longrightarrow> run_step lib db db'"
| advance: "AdvanceRunExecutorSequence lib r sq db = (db', u) \<Longrightarrow> run_step lib db db'"
| advance_usage: "AdvanceRunExecutorSequenceWithUsage lib r sq units cost retries db = (db', u)
    \<Longrightarrow> run_step lib db db'"
| set_context: "SetRunContext lib r digest sources db = (db', u) \<Longrightarrow> run_step lib db db'"
| retry: "RetryRun lib cur nxt failure at db = (db', u) \<Longrightarrow> run_step lib db db'"
| complete: "CompleteRun lib r rs es out failure at db = (db', u) \<Longrightarrow> run_step lib db db'"
| cancel_queued: "CancelQueuedRun lib app echo at db = (db', b) \<Longrightarrow> run_step lib db db'"
| cancel_all: "CancelQueuedRuns lib app at db = (db', u) \<Longrightarrow> run_step lib db db'"
| fail_abandoned: "FailAbandonedRuns lib app at db = (db', k) \<Longrightarrow> run_step lib db db'"
| append_event: "AppendEchoEvent lib cx v db = (db', y) \<Longrightarrow> run_step lib db db'"
| list_queued: "ListQueuedRuns lib clock app limit db = (db', w) \<Longrightarrow> run_step lib db db'"
| list_runnable: "ListRunnableRuns lib clock app at limit db = (db', w) \<Longrightarrow> run_step lib db db'"
| record_call: "RecordCapabilityCall lib clock call run echo app cap body ok failure took db = (db', u)
    \<Longrightarrow> run_step lib db db'"

section \<open>Primitive changes\<close>

fun run_write_ok :: "run_write \<Rightarrow> bool" where
  "run_write_ok (U_Claim ref token at expires) = (token \<noteq> [])"
| "run_write_ok (U_Advance ref token old new) = (old < new)"
| "run_write_ok (U_Usage ref token (a, b, c, d) (a', b', c', d')) = (a < a' \<and> b \<le> b' \<and> c \<le> c' \<and> d \<le> d')"
| "run_write_ok (U_Context ref token digest sources) = (digest \<noteq> [])"
| "run_write_ok (U_Complete ref token st out err at) = run_terminal st"
| "run_write_ok (U_Fail app run st err at) = run_active st"
| "run_write_ok _ = True"

text \<open>An update of \<open>echoes\<close> that ends running Echoes and keeps what identifies them.\<close>

definition echo_closing :: "(echo_row \<Rightarrow> bool) \<Rightarrow> (echo_row \<Rightarrow> echo_row) \<Rightarrow> bool" where
  "echo_closing P f \<longleftrightarrow>
     (\<forall>e. echo_key (f e) = echo_key e \<and> e_next_sequence (f e) = e_next_sequence e \<and>
          (P e \<longrightarrow> e_status e = Echo_Running \<and> e_status (f e) \<noteq> Echo_Running))"

definition fresh_run_row :: "run_row \<Rightarrow> bool" where
  "fresh_run_row r \<longleftrightarrow>
     r_status r = Run_Queued \<and> r_lease_token r = None \<and> r_lease_expires r = None \<and>
     r_last_sequence r = 0 \<and> r_used_execution_units r = 0 \<and> r_used_cost r = 0 \<and> r_used_retries r = 0"

definition bump :: "echo_row \<Rightarrow> echo_row" where
  "bump e = e\<lparr>e_next_sequence := e_next_sequence e + 1\<rparr>"

inductive run_atom :: "run_lib \<Rightarrow> echo_db \<Rightarrow> echo_db \<Rightarrow> bool" for lib where
  runs: "write_runs lib w db = Some (db', n) \<Longrightarrow> run_write_ok w \<Longrightarrow> run_atom lib db db'"
| echoes: "update_echoes P f db = Some (db', n) \<Longrightarrow> echo_closing P f \<Longrightarrow> run_atom lib db db'"
| new_run: "insert_run_row lib r db = Some db' \<Longrightarrow> fresh_run_row r \<Longrightarrow> run_atom lib db db'"
| new_echo: "exec_insert echo_row_check echo_key e (db_echoes db) = Some t \<Longrightarrow> e_next_sequence e = 1
    \<Longrightarrow> run_atom lib db (db\<lparr>db_echoes := t\<rparr>)"
| new_request: "insert_request q db = Some db' \<Longrightarrow> run_atom lib db db'"
| event: "update_echoes (\<lambda>e. echo_key e = (ev_app_id v, ev_echo_id v)) bump db = Some (db1, n)
    \<Longrightarrow> find_echo (ev_app_id v, ev_echo_id v) db1 = Some e
    \<Longrightarrow> insert_event lib (event_row_of v (e_next_sequence e - 1)) db1 = Some db'
    \<Longrightarrow> run_atom lib db db'"
| audit: "insert_audit lib a db = Some (db', k) \<Longrightarrow> run_atom lib db db'"

abbreviation run_atoms :: "run_lib \<Rightarrow> echo_db \<Rightarrow> echo_db \<Rightarrow> bool" where
  "run_atoms lib \<equiv> (run_atom lib)\<^sup>*\<^sup>*"

lemma closing_ended: "es \<noteq> Echo_Running \<Longrightarrow> echo_closing (open_echo_where app echo) (echo_ended es out c m at)"
  by (auto simp: echo_closing_def open_echo_where_def echo_ended_def echo_key_def)

lemma closing_cancelled:
  "echo_closing (open_echo_where app echo) (echo_cancelled err at)"
  "echo_closing (cancellable_where app db) (echo_cancelled err at)"
  by (auto simp: echo_closing_def open_echo_where_def cancellable_where_def echo_cancelled_def echo_key_def)

lemma fresh_run_row_of: "validateNewRun e r = Inr () \<Longrightarrow> fresh_run_row (run_row_of r g)"
  by (simp add: validateNewRun_Inr fresh_run_row_def run_row_of_def new_run_bounds_def new_run_fresh_def)

lemma insertRun_atom: "insertRun lib r db = Inr db' \<Longrightarrow> validateNewRun e r = Inr () \<Longrightarrow> run_atom lib db db'"
  by (auto simp: insertRun_def fresh_run_row_of split: sum.splits option.splits intro: run_atom.new_run)

lemma write_atoms: "write_runs lib w db = Some (db', n) \<Longrightarrow> run_write_ok w \<Longrightarrow> run_atoms lib db db'"
  by (auto intro: run_atom.runs)

lemmas write_atoms_each =
  write_atoms[where w = "U_Claim ref token at expires" for ref token at expires, simplified]
  write_atoms[where w = "U_Retry ref token err at" for ref token err at, simplified]
  write_atoms[where w = "U_Complete ref token st out err at" for ref token st out err at, simplified]
  write_atoms[where w = "U_Cancel_Echo app echo err at" for app echo err at, simplified]
  write_atoms[where w = "U_Cancel_App app err at" for app err at, simplified]
  write_atoms[where w = "U_Fail app run st err at" for app run st err at, simplified]

lemma one_row_write_atoms:
  "one_row_write lib w db = (db', u) \<Longrightarrow> run_write_ok w \<Longrightarrow> run_atoms lib db db'"
  by (auto simp: one_row_write_def split: option.splits if_splits intro: write_atoms)

lemma Create_atoms:
  assumes "CreateEchoRunIdempotentLimited lib key fp e r n db = (db', v)"
  shows "run_atoms lib db db'"
proof (cases "db' = db")
  case False
  then obtain db1 where v: "validateNewRun e r = Inr ()"
    and i: "insertEchoRun lib e r db = Inr db1"
    and q: "insert_request \<lparr>cq_app_id = e_app_id e, cq_key = key, cq_fingerprint = fp,
                           cq_echo_id = e_id e, cq_created_at = e_created_at e\<rparr> db1 = Some db'"
    using assms unfolding CreateEchoRunIdempotentLimited_def
    by (auto split: if_splits sum.splits option.splits)
  obtain t where t: "exec_insert echo_row_check echo_key (echo_row_of e) (db_echoes db) = Some t"
    and r: "insertRun lib r (db\<lparr>db_echoes := t\<rparr>) = Inr db1"
    using i by (auto simp: insertEchoRun_def split: option.splits)
  have "run_atom lib db (db\<lparr>db_echoes := t\<rparr>)"
    using t by (rule run_atom.new_echo) (simp add: echo_row_of_def)
  moreover have "run_atom lib (db\<lparr>db_echoes := t\<rparr>) db1"
    using r v by (rule insertRun_atom)
  moreover have "run_atom lib db1 db'"
    using q by (rule run_atom.new_request)
  ultimately show ?thesis
    by (meson converse_rtranclp_into_rtranclp r_into_rtranclp)
qed simp

lemma CreateChildRun_atoms:
  assumes "CreateChildRun lib now p c n db = (db', u)"
  shows "run_atoms lib db db'"
proof (cases "db' = db")
  case False
  then obtain e where v: "validateNewRun e c = Inr ()"
    and i: "insertChildRunGuarded lib now p c db = Inr db'"
    using assms unfolding CreateChildRun_def
    by (auto split: if_splits sum.splits option.splits)
  then obtain g where "insert_run_row lib (run_row_of c g) db = Some db'"
    by (auto simp: insertChildRunGuarded_def split: sum.splits if_splits option.splits)
  then have "run_atom lib db db'"
    using fresh_run_row_of[OF v] by (rule run_atom.new_run)
  then show ?thesis by (rule r_into_rtranclp)
qed simp

lemma ClaimRun_atoms: "ClaimRun lib app echo run token started expires db = (db', x) \<Longrightarrow> run_atoms lib db db'"
  unfolding ClaimRun_def
  by (auto split: if_splits sum.splits option.splits
      intro: write_atoms_each)

lemma bind_u64_Inr: "bind_u64 n = Inr i \<longleftrightarrow> uint n < 2 ^ 63 \<and> i = uint n"
  by (auto simp: bind_u64_def)

lemma successor_word: "sq = m + 1 \<Longrightarrow> sq \<noteq> 0 \<Longrightarrow> uint m < uint (sq :: u64)"
  unfolding word_less_def [symmetric]
  by (metis add_neg_numeral_special(8) inc_less_eq_self_iff_eq not_le)

lemma Advance_atoms:
  assumes "AdvanceRunExecutorSequence lib r sq db = (db', u)"
  shows "run_atoms lib db db'"
proof -
  have "uint (r_last_sequence r) < uint sq" if "sq \<noteq> 0" "sq = r_last_sequence r + 1"
    using that successor_word by blast
  then show ?thesis
    using assms unfolding AdvanceRunExecutorSequence_def
    by (auto split: if_splits sum.splits simp: bind_u64_Inr intro!: one_row_write_atoms)
qed

lemma AdvanceUsage_atoms:
  assumes "AdvanceRunExecutorSequenceWithUsage lib r sq units cost retries db = (db', u)"
  shows "run_atoms lib db db'"
proof -
  have "uint (r_last_sequence r) < uint sq" if "sq \<noteq> 0" "sq = r_last_sequence r + 1"
    using that successor_word by blast
  then show ?thesis
    using assms unfolding AdvanceRunExecutorSequenceWithUsage_def
    by (auto split: if_splits sum.splits simp: bind_u64_Inr and_then_Inr not_less word_le_def
        intro!: one_row_write_atoms)
qed

lemma SetRunContext_atoms: "SetRunContext lib r digest sources db = (db', u) \<Longrightarrow> run_atoms lib db db'"
  unfolding SetRunContext_def by (auto split: if_splits intro!: one_row_write_atoms)

lemma RenewRunLease_atoms: "RenewRunLease lib r renewed expires db = (db', u) \<Longrightarrow> run_atoms lib db db'"
  unfolding RenewRunLease_def by (auto split: if_splits intro!: one_row_write_atoms)

lemma RetryRun_cases:
  assumes "RetryRun lib cur nxt failure at db = (db', u)"
  obtains (refused) e where "db' = db" and "u = Inl e"
  | (retried) e db1 where "u = Inr ()" and "validateNewRun e nxt = Inr ()"
      and "r_attempt nxt = r_attempt cur + 1" and "r_group_id nxt = r_group_id cur"
      and "r_app_id nxt = r_app_id cur" and "r_echo_id nxt = r_echo_id cur"
      and "write_runs lib (U_Retry (run_ref_of cur) (r_lease_token cur)
              (PublicEcho (pe_code failure)) at) db = Some (db1, 1)"
      and "insertRun lib nxt db1 = Inr db'"
proof -
  let ?e = "\<lparr>e_id = r_echo_id cur, e_app_id = r_app_id cur, e_input_message = ''persisted'',
     e_status = Echo_Running, e_final_message = [], e_result = no_output, e_error_code = [],
     e_error_message = No_Message, e_created_at = r_created_at nxt, e_completed_at = None\<rparr>"
  show thesis
  proof (cases "validateNewRun ?e nxt")
    case (Inl x)
    then show thesis
      using assms refused by (simp add: RetryRun_def Inl split: if_splits) blast+
  next
    case (Inr x)
    then show thesis
      using assms refused retried[of ?e] unfolding RetryRun_def
      by (auto split: if_splits sum.splits option.splits)
  qed
qed

lemma RetryRun_atoms:
  assumes "RetryRun lib cur nxt failure at db = (db', u)"
  shows "run_atoms lib db db'"
  using assms
proof (cases rule: RetryRun_cases)
  case (retried e db1)
  then show ?thesis
    using write_atoms_each(2)[OF retried(7)] insertRun_atom[OF retried(8,2)] by simp
qed simp

lemma update_echoes_atom: "update_echoes P f db = Some (db', n) \<Longrightarrow> echo_closing P f \<Longrightarrow> run_atoms lib db db'"
  by (auto intro: run_atom.echoes)

lemma CompleteRun_cases:
  assumes "CompleteRun lib r rs es out failure at db = (db', u)"
  obtains (refused) e where "db' = db" and "u = Inl e"
  | (child) "u = Inr ()" and "validateCompletion r rs es at = Inr ()" and "r_parent_id r \<noteq> []"
      and "write_runs lib (U_Complete (run_ref_of r) (r_lease_token r) rs (recorded_output rs out)
             (recorded_failure rs failure) at) db = Some (db', 1)"
  | (root) db1 where "u = Inr ()" and "validateCompletion r rs es at = Inr ()" and "r_parent_id r = []"
      and "write_runs lib (U_Complete (run_ref_of r) (r_lease_token r) rs (recorded_output rs out)
             (recorded_failure rs failure) at) db = Some (db1, 1)"
      and "update_echoes (open_echo_where (r_app_id r) (r_echo_id r))
             (echo_ended es (recorded_output rs out) (pe_code (recorded_failure rs failure))
                (pe_message (recorded_failure rs failure)) at) db1 = Some (db', 1)"
proof (cases "validateCompletion r rs es at")
  case (Inl e)
  then show thesis using assms by (intro refused[of e]) (simp_all add: CompleteRun_def)
next
  case (Inr v)
  then show thesis
    using assms refused child root unfolding CompleteRun_def Let_def
    by (auto split: if_splits option.splits)
qed

lemma CompleteRun_atoms:
  assumes "CompleteRun lib r rs es out failure at db = (db', u)"
  shows "run_atoms lib db db'"
  using assms
proof (cases rule: CompleteRun_cases)
  case child
  then show ?thesis using write_atoms_each(3) validateCompletion_Inr by blast
next
  case (root db1)
  have v: "run_terminal rs" "es \<noteq> Echo_Running"
    using validateCompletion_Inr[OF root(2)] by auto
  show ?thesis
    using write_atoms_each(3)[OF root(4) v(1)] update_echoes_atom[OF root(5) closing_ended[OF v(2)]]
    by (rule rtranclp_trans)
qed simp

lemma CancelQueuedRun_atoms:
  assumes "CancelQueuedRun lib app echo at db = (db', b)"
  shows "run_atoms lib db db'"
proof (cases "db' = db")
  case False
  let ?w = "U_Cancel_Echo app echo (PublicEcho ''cancelled'') at"
  from False obtain db1 n where w: "write_runs lib ?w db = Some (db1, n)"
    and d: "db' = db1 \<or>
      (\<exists>m. update_echoes (open_echo_where app echo) (echo_cancelled (PublicEcho ''cancelled'') at) db1 = Some (db', m))"
    using assms unfolding CancelQueuedRun_def Let_def
    by (auto split: if_splits option.splits)
  then show ?thesis
    using write_atoms_each(4)[OF w] update_echoes_atom[OF _ closing_cancelled(1)]
    by (auto intro: rtranclp_trans)
qed simp

lemma CancelQueuedRuns_atoms:
  assumes "CancelQueuedRuns lib app at db = (db', u)"
  shows "run_atoms lib db db'"
proof (cases "db' = db")
  case False
  let ?e = "PublicEcho ''cancelled''"
  from False obtain db1 n m where "update_echoes (cancellable_where app db) (echo_cancelled ?e at) db = Some (db1, n)"
    and "write_runs lib (U_Cancel_App app ?e at) db1 = Some (db', m)"
    using assms unfolding CancelQueuedRuns_def Let_def
    by (auto split: if_splits option.splits)
  then show ?thesis
    using update_echoes_atom[OF _ closing_cancelled(2)] write_atoms_each(5) by (blast intro: rtranclp_trans)
qed simp

lemma finalize_atoms: "finalizeEchoFromRun app echo at db = Inr db' \<Longrightarrow> run_atoms lib db db'"
proof -
  assume a: "finalizeEchoFromRun app echo at db = Inr db'"
  show ?thesis
  proof (cases "db' = db")
    case False
    then obtain r es c m n where v: "echo_verdict r = Some (es, c, m)"
      and u: "update_echoes (open_echo_where app echo) (echo_ended es (r_result r) c m at) db = Some (db', n)"
      using a unfolding finalizeEchoFromRun_def Let_def
      by (auto split: if_splits option.splits)
    have "es \<noteq> Echo_Running"
      using v by (auto simp: echo_verdict_def Let_def split: run_status.splits list.splits)
    then show ?thesis
      using update_echoes_atom[OF u closing_ended] by simp
  qed simp
qed

lemma failQueuedRun_atoms:
  assumes "failQueuedRun lib now r db = (db', u)"
  shows "run_atoms lib db db'"
proof (cases "db' = db")
  case False
  then obtain db1 n where
      w: "write_runs lib (U_Fail (r_app_id r) (r_id r) Run_Queued (PublicEcho ''recovery_failed'') now) db = Some (db1, n)"
    and d: "db' = db1 \<or> finalizeEchoFromRun (r_app_id r) (r_echo_id r) now db1 = Inr db'"
    using assms unfolding failQueuedRun_def by (auto split: if_splits option.splits sum.splits)
  have "run_atoms lib db db1"
    using write_atoms_each(6)[OF w] by (simp add: run_active_def)
  then show ?thesis
    using d finalize_atoms[where lib = lib] by (auto intro: rtranclp_trans)
qed simp

lemma loadRunWork_atoms: "run_atoms lib db (fst (loadRunWork lib now rs db))"
proof (induction rs arbitrary: db)
  case (Cons r rs)
  have "run_atoms lib db (fst (failQueuedRun lib now r db))"
    by (rule failQueuedRun_atoms) (rule prod.collapse[symmetric])
  then show ?case
    using Cons[of db] Cons[of "fst (failQueuedRun lib now r db)"]
    by (auto simp: case_prod_beta intro: rtranclp_trans)
qed simp

lemma ListRuns_atoms:
  "ListQueuedRuns lib clock app limit db = (db', w) \<Longrightarrow> run_atoms lib db db'"
  "ListRunnableRuns lib clock app at limit db = (db', w) \<Longrightarrow> run_atoms lib db db'"
  unfolding ListQueuedRuns_def ListRunnableRuns_def
  using loadRunWork_atoms[of lib db clock]
  by (auto simp: case_prod_beta split: if_splits sum.splits)

lemma fail_each_atoms:
  "fail_each lib app now rs db = Inr db' \<Longrightarrow> (\<And>r. r \<in> set rs \<Longrightarrow> run_active (r_status r)) \<Longrightarrow> run_atoms lib db db'"
proof (induction rs arbitrary: db)
  case (Cons r rs)
  then obtain db1 n where w: "write_runs lib (U_Fail app (r_id r) (r_status r) (PublicEcho ''recovery_failed'') now) db = Some (db1, n)"
    and "fail_each lib app now rs db1 = Inr db'"
    by (auto split: option.splits)
  then have "run_atoms lib db1 db'" using Cons by simp
  moreover have "run_atoms lib db db1"
    using write_atoms_each(6)[OF w] Cons.prems(2)[of r] by simp
  ultimately show ?case by simp
qed simp

lemma reconcile_each_atoms: "reconcile_each app now seen rs db = Inr db' \<Longrightarrow> run_atoms lib db db'"
proof (induction rs arbitrary: db seen)
  case (Cons r rs)
  show ?case
  proof (cases "r_echo_id r \<in> seen")
    case False
    then obtain db1 where "finalizeEchoFromRun app (r_echo_id r) now db = Inr db1"
      and "reconcile_each app now (insert (r_echo_id r) seen) rs db1 = Inr db'"
      using Cons.prems by (auto split: sum.splits)
    then show ?thesis using Cons.IH finalize_atoms[of app "r_echo_id r" now db db1 lib] by (meson rtranclp_trans)
  qed (use Cons in auto)
qed simp

lemma FailAbandonedRuns_atoms:
  assumes "FailAbandonedRuns lib app at db = (db', k)"
  shows "run_atoms lib db db'"
proof (cases "db' = db")
  case False
  let ?rs = "abandoned_runs app db"
  from False obtain db1 where "fail_each lib app at ?rs db = Inr db1"
    and "reconcile_each app at {} ?rs db1 = Inr db'"
    using assms unfolding FailAbandonedRuns_def Let_def
    by (auto simp: and_then_def split: if_splits sum.splits)
  moreover have "run_active (r_status r)" if "r \<in> set ?rs" for r
    using that by (auto simp: abandoned_runs_def run_active_def)
  ultimately show ?thesis
    using fail_each_atoms reconcile_each_atoms rtranclp_trans by metis
qed simp

lemma AppendEchoEvent_atoms:
  assumes "AppendEchoEvent lib cx v db = (db', y)"
  shows "run_atoms lib db db'"
proof (cases "db' = db")
  case False
  then obtain db1 n e where
      u: "update_echoes (\<lambda>e. echo_key e = (ev_app_id v, ev_echo_id v)) bump db = Some (db1, n)"
    and e: "find_echo (ev_app_id v, ev_echo_id v) db1 = Some e"
    and i: "insert_event lib (event_row_of v (e_next_sequence e - 1)) db1 = Some db'"
    using assms unfolding AppendEchoEvent_def Let_def bump_def[abs_def]
    by (auto split: if_splits option.splits)
  then show ?thesis by (blast intro: run_atom.event)
qed simp

lemma RecordCapabilityCall_atoms:
  assumes "RecordCapabilityCall lib clock call run echo app cap body ok failure took db = (db', u)"
  shows "run_atoms lib db db'"
proof (cases "db' = db")
  case False
  then obtain a n where "insert_audit lib a db = Some (db', n)"
    using assms unfolding RecordCapabilityCall_def Let_def
    by (auto split: if_splits option.splits)
  then show ?thesis by (blast intro: run_atom.audit)
qed simp

lemma run_step_atoms: "run_step lib db db' \<Longrightarrow> run_atoms lib db db'"
  by (induction rule: run_step.induct)
    (blast dest: Create_atoms CreateChildRun_atoms ClaimRun_atoms RenewRunLease_atoms Advance_atoms
      AdvanceUsage_atoms SetRunContext_atoms RetryRun_atoms CompleteRun_atoms CancelQueuedRun_atoms
      CancelQueuedRuns_atoms FailAbandonedRuns_atoms AppendEchoEvent_atoms ListRuns_atoms
      RecordCapabilityCall_atoms)+

lemma run_steps_atoms: "(run_step lib)\<^sup>*\<^sup>* db db' \<Longrightarrow> run_atoms lib db db'"
  by (induction rule: rtranclp_induct) (auto dest: run_step_atoms)

end
