(* ===== verification/Run_Lifecycle.thy ===== *)
theory Run_Lifecycle
  imports Run_Invariants
begin

text \<open>
  The invariant of the Echo and Run tables, the life cycle of a Run as an abstract machine that every
  operation refines, and the facts on single rows both rest on.
\<close>

section \<open>What an update leaves alone\<close>

text \<open>A row with everything an update may change blanked out.\<close>

definition run_frozen :: "run_row \<Rightarrow> run_row" where
  "run_frozen r =
     r\<lparr>r_status := Run_Queued, r_context_digest := [], r_context_sources := [],
       r_used_execution_units := 0, r_used_cost := 0, r_used_retries := 0, r_lease_token := None,
       r_lease_expires := None, r_last_sequence := 0, r_result := no_output, r_error_code := None,
       r_error_message := None, r_started_at := None, r_completed_at := None\<rparr>"

lemma run_set_frozen [simp]: "run_frozen (run_set w r) = run_frozen r"
  by (cases "(w, r)" rule: run_set.cases) (simp_all add: run_frozen_def ended_def give_up_lease_def)

lemma run_frozen_eqD:
  assumes "run_frozen r' = run_frozen r"
  shows "run_key r' = run_key r" and "group_key r' = group_key r" and "origin_key r' = origin_key r"
    and "r_app_id r' = r_app_id r" and "r_echo_id r' = r_echo_id r" and "r_parent_id r' = r_parent_id r"
    and "r_id r' = r_id r" and "r_group_id r' = r_group_id r" and "r_attempt r' = r_attempt r"
    and "r_max_execution_units r' = r_max_execution_units r" and "r_max_cost r' = r_max_cost r"
    and "r_grants r' = r_grants r" and "r_config_revision r' = r_config_revision r"
proof -
  have "f (run_frozen r') = f (run_frozen r)" for f :: "run_row \<Rightarrow> 'a"
    using assms by simp
  note eq = this
  show "run_key r' = run_key r" using eq[of run_key] by (simp add: run_frozen_def run_key_def)
  show "group_key r' = group_key r" using eq[of group_key] by (simp add: run_frozen_def group_key_def)
  show "origin_key r' = origin_key r" using eq[of origin_key] by (simp add: run_frozen_def origin_key_def)
  show "r_app_id r' = r_app_id r" using eq[of r_app_id] by (simp add: run_frozen_def)
  show "r_echo_id r' = r_echo_id r" using eq[of r_echo_id] by (simp add: run_frozen_def)
  show "r_parent_id r' = r_parent_id r" using eq[of r_parent_id] by (simp add: run_frozen_def)
  show "r_id r' = r_id r" using eq[of r_id] by (simp add: run_frozen_def)
  show "r_group_id r' = r_group_id r" using eq[of r_group_id] by (simp add: run_frozen_def)
  show "r_attempt r' = r_attempt r" using eq[of r_attempt] by (simp add: run_frozen_def)
  show "r_max_execution_units r' = r_max_execution_units r"
    using eq[of r_max_execution_units] by (simp add: run_frozen_def)
  show "r_max_cost r' = r_max_cost r" using eq[of r_max_cost] by (simp add: run_frozen_def)
  show "r_grants r' = r_grants r" using eq[of r_grants] by (simp add: run_frozen_def)
  show "r_config_revision r' = r_config_revision r"
    using eq[of r_config_revision] by (simp add: run_frozen_def)
qed

lemmas run_set_keys [simp] = run_frozen_eqD[OF run_set_frozen]

section \<open>The life cycle of a Run\<close>

datatype abs_run = Abs_Run_Queued | Abs_Run_Running string | Abs_Run_Ended run_status

inductive abs_run_step :: "abs_run \<Rightarrow> abs_run \<Rightarrow> bool" where
  take: "token \<noteq> [] \<Longrightarrow> abs_run_step Abs_Run_Queued (Abs_Run_Running token)"
| work: "abs_run_step (Abs_Run_Running token) (Abs_Run_Running token)"
| finish: "run_terminal st \<Longrightarrow> abs_run_step (Abs_Run_Running token) (Abs_Run_Ended st)"
| drop: "st = Run_Cancelled \<or> st = Run_Failed \<Longrightarrow> abs_run_step Abs_Run_Queued (Abs_Run_Ended st)"

inductive_simps abs_run_step_simps [simp]:
  "abs_run_step Abs_Run_Queued a" "abs_run_step (Abs_Run_Running token) a" "abs_run_step (Abs_Run_Ended st) a"

definition abs_run :: "run_row \<Rightarrow> abs_run" where
  "abs_run r =
     (case r_status r of
        Run_Queued \<Rightarrow> Abs_Run_Queued
      | Run_Running \<Rightarrow> Abs_Run_Running (text_of (r_lease_token r))
      | st \<Rightarrow> Abs_Run_Ended st)"

definition usage_le :: "run_row \<Rightarrow> run_row \<Rightarrow> bool" where
  "usage_le r r' \<longleftrightarrow>
     r_last_sequence r \<le> r_last_sequence r' \<and> r_used_execution_units r \<le> r_used_execution_units r' \<and>
     r_used_cost r \<le> r_used_cost r' \<and> r_used_retries r \<le> r_used_retries r'"

definition run_evolves :: "run_row \<Rightarrow> run_row \<Rightarrow> bool" where
  "run_evolves r r' \<longleftrightarrow>
     r' = r \<or> run_frozen r' = run_frozen r \<and> abs_run_step (abs_run r) (abs_run r') \<and> usage_le r r'"

lemma usage_le_refl [simp]: "usage_le r r"
  by (simp add: usage_le_def)

lemma run_evolves_refl [simp]: "run_evolves r r"
  by (simp add: run_evolves_def)

lemma run_terminal_abs: "run_terminal st \<Longrightarrow> abs_run (r\<lparr>r_status := st\<rparr>) = Abs_Run_Ended st"
  by (auto simp: run_terminal_def abs_run_def)

lemma abs_run_ended [simp]: "run_terminal st \<Longrightarrow> abs_run (ended st err at r) = Abs_Run_Ended st"
  by (auto simp: run_terminal_def abs_run_def ended_def)

lemma terminal_statuses [simp]: "run_terminal Run_Failed" "run_terminal Run_Cancelled"
    "run_terminal Run_Succeeded" "run_terminal Run_Timed_Out" "\<not> run_terminal Run_Queued"
    "\<not> run_terminal Run_Running"
  by (simp_all add: run_terminal_def)

lemma ended_usage [simp]: "usage_le r (ended st err at r') = usage_le r r'"
  by (simp add: usage_le_def ended_def)

lemma released_usage [simp]: "usage_le r (give_up_lease r') = usage_le r r'"
  by (simp add: usage_le_def give_up_lease_def)

lemma result_usage [simp]: "usage_le r (r'\<lparr>r_result := x\<rparr>) = usage_le r r'"
  by (simp add: usage_le_def)

lemma abs_run_active:
  "run_active (r_status r) \<Longrightarrow> abs_run r = Abs_Run_Queued \<or> abs_run r = Abs_Run_Running (text_of (r_lease_token r))"
  by (auto simp: run_active_def abs_run_def)

lemma abs_run_queued: "abs_run r = Abs_Run_Queued \<longleftrightarrow> r_status r = Run_Queued"
  by (cases "r_status r") (simp_all add: abs_run_def)

lemma run_write_evolves:
  assumes "run_write_ok w" and "run_where lib w r"
  shows "run_evolves r (run_set w r)"
proof -
  have "abs_run_step (abs_run r) (abs_run (run_set w r)) \<and> usage_le r (run_set w r)"
  proof (cases w)
    case (U_Claim ref token at expires)
    then show ?thesis using assms by (auto simp: abs_run_def usage_le_def text_of_def)
  next
    case (U_Renew ref token at expires)
    then show ?thesis using assms by (auto simp: abs_run_def usage_le_def holds_lease_def)
  next
    case (U_Advance ref token old new)
    then show ?thesis using assms by (auto simp: abs_run_def usage_le_def holds_lease_def)
  next
    case (U_Usage ref token old new)
    obtain a b c d a' b' c' d' where "old = (a, b, c, d)" "new = (a', b', c', d')"
      by (cases old; cases new) auto
    then show ?thesis
      using assms U_Usage by (auto simp: abs_run_def usage_le_def holds_lease_def usage_of_def)
  next
    case (U_Context ref token digest sources)
    then show ?thesis using assms by (auto simp: abs_run_def usage_le_def holds_lease_def)
  next
    case (U_Retry ref token err at)
    then show ?thesis using assms by (simp add: abs_run_def[of r] holds_lease_def)
  next
    case (U_Complete ref token st out err at)
    then show ?thesis using assms by (simp add: abs_run_def[of r] holds_lease_def)
  next
    case (U_Cancel_Echo app echo err at)
    then show ?thesis using assms by (simp add: abs_run_def[of r])
  next
    case (U_Cancel_App app err at)
    then show ?thesis using assms by (simp add: abs_run_def[of r])
  next
    case (U_Fail app run st err at)
    then show ?thesis using assms by (auto simp: abs_run_def[of r] run_active_def)
  qed
  then show ?thesis by (simp add: run_evolves_def)
qed

section \<open>The invariant\<close>

definition run_row_valid :: "run_lib \<Rightarrow> run_row \<Rightarrow> bool" where
  "run_row_valid lib r \<longleftrightarrow>
     run_row_check lib r \<and> run_budget_ok r \<and>
     (r_status r = Run_Running \<longleftrightarrow> r_lease_token r \<noteq> None) \<and> r_lease_token r \<noteq> Some []"

definition echo_sequences :: "string \<times> string \<Rightarrow> echo_db \<Rightarrow> int set" where
  "echo_sequences k db = ev_sequence ` {v \<in> set (db_events db). (ev_app_id v, ev_echo_id v) = k}"

definition events_numbered :: "echo_db \<Rightarrow> bool" where
  "events_numbered db \<longleftrightarrow>
     (\<forall>e \<in> set (db_echoes db). echo_sequences (echo_key e) db = {1..<e_next_sequence e}) \<and>
     (\<forall>v \<in> set (db_events db). find_echo (ev_app_id v, ev_echo_id v) db \<noteq> None)"

definition run_links_ok :: "echo_db \<Rightarrow> run_row \<Rightarrow> bool" where
  "run_links_ok db r \<longleftrightarrow>
     find_echo (r_app_id r, r_echo_id r) db \<noteq> None \<and>
     (case r_parent_id r of None \<Rightarrow> True | Some p \<Rightarrow> find_run (r_app_id r, p) db \<noteq> None)"

definition is_child :: "run_row \<Rightarrow> bool" where
  "is_child r \<longleftrightarrow> r_parent_id r \<noteq> None"

definition echo_db_ok :: "run_lib \<Rightarrow> echo_db \<Rightarrow> bool" where
  "echo_db_ok lib db \<longleftrightarrow>
     table_ok echo_row_check echo_key (db_echoes db) \<and>
     table_ok (run_row_valid lib) run_key (db_runs db) \<and>
     distinct (map group_key (db_runs db)) \<and>
     distinct (map origin_key (filter is_child (db_runs db))) \<and>
     list_all (run_links_ok db) (db_runs db) \<and>
     distinct (map event_key (db_events db)) \<and> events_numbered db"

definition empty_db :: echo_db where
  "empty_db = \<lparr>db_echoes = [], db_runs = [], db_events = [], db_requests = [], db_audit = []\<rparr>"

lemma empty_db_ok [simp]: "echo_db_ok lib empty_db"
  by (simp add: echo_db_ok_def empty_db_def events_numbered_def)

lemma echo_db_okD:
  assumes "echo_db_ok lib db"
  shows "distinct (map echo_key (db_echoes db))" and "distinct (map run_key (db_runs db))"
    and "r \<in> set (db_runs db) \<Longrightarrow> run_row_valid lib r"
    and "r \<in> set (db_runs db) \<Longrightarrow> run_links_ok db r"
    and "e \<in> set (db_echoes db) \<Longrightarrow> echo_row_check e"
  using assms by (auto simp: echo_db_ok_def table_ok_def list_all_iff)

section \<open>The primitive changes keep the invariant\<close>

lemma find_echo_None: "find_echo k db = None \<longleftrightarrow> k \<notin> set (map echo_key (db_echoes db))"
  by (simp add: find_echo_def select_key_None)

lemma find_run_None: "find_run k db = None \<longleftrightarrow> k \<notin> set (map run_key (db_runs db))"
  by (simp add: find_run_def select_key_None)

text \<open>The links and the numbering depend on the keys of the tables only.\<close>

lemma run_links_cong:
  assumes "set (map echo_key (db_echoes db)) \<subseteq> set (map echo_key (db_echoes db'))"
    and "set (map run_key (db_runs db)) \<subseteq> set (map run_key (db_runs db'))"
    and "run_links_ok db r" and "run_frozen r' = run_frozen r"
  shows "run_links_ok db' r'"
  using assms(1-3) unfolding run_links_ok_def find_echo_None find_run_None run_frozen_eqD[OF assms(4)]
  by (auto split: option.splits)

lemma map_update_frozen:
  "(\<And>r. g (run_set w r) = g r) \<Longrightarrow> map g (update_where P (run_set w) t) = map g t"
  by (simp add: update_where_def)

lemma filter_update_parent:
  "map origin_key (filter is_child (update_where P (run_set w) t)) = map origin_key (filter is_child t)"
  by (induction t) (auto simp: update_where_def is_child_def)

lemma write_runs_Some:
  "write_runs lib w db = Some (db', n) \<longleftrightarrow>
     (\<forall>r \<in> set (db_runs db). run_where lib w r \<longrightarrow> run_row_check lib (run_set w r) \<and> run_budget_ok (run_set w r)) \<and>
     db' = db\<lparr>db_runs := update_where (run_where lib w) (run_set w) (db_runs db)\<rparr> \<and>
     n = affected (run_where lib w) (db_runs db)"
  by (auto simp: write_runs_def update_runs_def exec_update_Some split: option.splits)
     (auto simp: exec_update_def list_all_iff)

lemma update_echoes_Some:
  "update_echoes P f db = Some (db', n) \<longleftrightarrow>
     (\<forall>e \<in> set (db_echoes db). P e \<longrightarrow> echo_row_check (f e)) \<and>
     db' = db\<lparr>db_echoes := update_where P f (db_echoes db)\<rparr> \<and> n = affected P (db_echoes db)"
  by (auto simp: update_echoes_def exec_update_Some split: option.splits)
     (auto simp: exec_update_def list_all_iff)

definition run_shape :: "run_row \<Rightarrow> bool" where
  "run_shape r \<longleftrightarrow> (r_status r = Run_Running \<longleftrightarrow> r_lease_token r \<noteq> None) \<and> r_lease_token r \<noteq> Some []"

lemma run_row_valid_iff:
  "run_row_valid lib r \<longleftrightarrow> run_row_check lib r \<and> run_budget_ok r \<and> run_shape r"
  by (simp add: run_row_valid_def run_shape_def)

lemma run_write_shape:
  assumes "run_write_ok w" and "run_where lib w r" and "run_shape r"
  shows "run_shape (run_set w r)"
  using assms
  by (cases "(w, r)" rule: run_set.cases)
     (auto simp: run_shape_def holds_lease_def ended_def give_up_lease_def run_terminal_def)

lemma write_runs_ok:
  assumes "write_runs lib w db = Some (db', n)" and "run_write_ok w" and "echo_db_ok lib db"
  shows "echo_db_ok lib db'"
proof -
  let ?t = "update_where (run_where lib w) (run_set w) (db_runs db)"
  have db': "db' = db\<lparr>db_runs := ?t\<rparr>"
    and chk: "\<And>r. r \<in> set (db_runs db) \<Longrightarrow> run_where lib w r \<Longrightarrow>
                run_row_check lib (run_set w r) \<and> run_budget_ok (run_set w r)"
    using assms(1) by (auto simp: write_runs_Some)
  have keys: "map run_key ?t = map run_key (db_runs db)" "map group_key ?t = map group_key (db_runs db)"
    by (simp_all add: map_update_frozen)
  have row: "run_row_valid lib r' \<and> run_links_ok db' r'" if mem: "r' \<in> set ?t" for r'
  proof -
    obtain r where r: "r \<in> set (db_runs db)" and r': "r' = (if run_where lib w r then run_set w r else r)"
      using mem by (auto simp: update_where_def)
    have "run_row_valid lib r" "run_links_ok db r"
      using echo_db_okD(3,4)[OF assms(3) r] by auto
    moreover have "run_links_ok db' r'"
      using \<open>run_links_ok db r\<close>
      by (rule run_links_cong[rotated 2]) (simp_all add: db' r' keys del: set_map)
    ultimately show ?thesis
      using chk[OF r] run_write_shape[OF assms(2), of lib r] by (auto simp: r' run_row_valid_iff)
  qed
  show ?thesis
    using assms(3) keys row
    by (auto simp: echo_db_ok_def db' table_ok_def list_all_iff filter_update_parent
        events_numbered_def echo_sequences_def find_echo_def)
qed

lemma update_where_keys:
  assumes "\<And>e. echo_key (f e) = echo_key e"
  shows "map echo_key (update_where P f t) = map echo_key t"
  by (simp add: map_update_where assms)

lemma update_echoes_ok:
  assumes "update_echoes P f db = Some (db', n)" and "echo_closing P f" and "echo_db_ok lib db"
  shows "echo_db_ok lib db'"
proof -
  let ?t = "update_where P f (db_echoes db)"
  have db': "db' = db\<lparr>db_echoes := ?t\<rparr>" and chk: "\<forall>e \<in> set (db_echoes db). P e \<longrightarrow> echo_row_check (f e)"
    using assms(1) by (auto simp: update_echoes_Some)
  have f: "echo_key (f e) = echo_key e" "e_next_sequence (f e) = e_next_sequence e" for e
    using assms(2) by (simp_all add: echo_closing_def)
  have keys: "map echo_key ?t = map echo_key (db_echoes db)"
    by (rule update_where_keys) (rule f)
  have keys': "set (map echo_key (db_echoes db)) = set (map echo_key (db_echoes db'))"
    using keys by (simp add: db' del: set_map)
  have "list_all (run_links_ok db') (db_runs db)"
    unfolding list_all_iff
  proof
    fix r assume "r \<in> set (db_runs db)"
    then have "run_links_ok db r" by (rule echo_db_okD(4)[OF assms(3)])
    then show "run_links_ok db' r"
      by (rule run_links_cong[rotated 2]) (simp_all add: keys' db' del: set_map)
  qed
  moreover have "list_all echo_row_check ?t"
    using chk echo_db_okD(5)[OF assms(3)] by (auto simp: list_all_iff update_where_def)
  moreover have "events_numbered db'"
  proof -
    have "echo_sequences k db' = echo_sequences k db" for k
      by (simp add: echo_sequences_def db')
    then show ?thesis
      using assms(3) f keys' unfolding echo_db_ok_def events_numbered_def find_echo_None
      by (auto simp: db' update_where_def)
  qed
  ultimately show ?thesis
    using assms(3) keys by (auto simp: echo_db_ok_def db' table_ok_def)
qed

lemma insert_run_ok:
  assumes "insert_run_row lib r db = Some db'" and "fresh_run_row r" and "echo_db_ok lib db"
  shows "echo_db_ok lib db'"
proof -
  have db': "db' = db\<lparr>db_runs := db_runs db @ [r]\<rparr>"
    and r: "run_row_check lib r" "run_budget_ok r" "run_key r \<notin> set (map run_key (db_runs db))"
      "group_key r \<notin> set (map group_key (db_runs db))"
      "origin_key r = None \<or> origin_key r \<notin> set (map origin_key (db_runs db))"
      "run_links_ok db r"
    using assms(1) unfolding insert_run_row_def run_links_ok_def find_run_None
    by (auto split: if_splits)
  have "run_row_valid lib r"
    using r assms(2) by (simp add: run_row_valid_iff run_shape_def fresh_run_row_def)
  moreover have "run_links_ok db' r'" if "run_links_ok db r'" for r'
    by (rule run_links_cong[OF _ _ that refl]) (auto simp: db')
  moreover have "is_child r \<Longrightarrow> origin_key r \<notin> origin_key ` {x \<in> set (db_runs db). is_child x}"
    using r(5) by (auto simp: is_child_def origin_key_def)
  ultimately show ?thesis
    using assms(3) r
    by (auto simp: echo_db_ok_def db' table_ok_def list_all_iff events_numbered_def
        echo_sequences_def find_echo_def)
qed

lemma new_echo_ok:
  assumes "exec_insert echo_row_check echo_key e (db_echoes db) = Some t" and "e_next_sequence e = 1"
    and "echo_db_ok lib db"
  shows "echo_db_ok lib (db\<lparr>db_echoes := t\<rparr>)"
proof -
  have t: "t = db_echoes db @ [e]" and e: "echo_row_check e" "echo_key e \<notin> set (map echo_key (db_echoes db))"
    using assms(1) by (auto simp: exec_insert_Some)
  let ?db = "db\<lparr>db_echoes := t\<rparr>"
  have "run_links_ok ?db r" if "run_links_ok db r" for r
    by (rule run_links_cong[OF _ _ that refl]) (auto simp: t)
  moreover have "echo_sequences k ?db = echo_sequences k db" for k
    by (simp add: echo_sequences_def)
  moreover have "echo_sequences (echo_key e) db = {}"
    using e(2) assms(3) unfolding echo_db_ok_def events_numbered_def find_echo_None echo_sequences_def
    by fastforce
  ultimately show ?thesis
    using assms(2,3) e
    unfolding echo_db_ok_def events_numbered_def find_echo_None
    by (auto simp: t table_ok_def list_all_iff)
qed

text \<open>The invariant does not look at the request and audit tables.\<close>

lemma echo_db_ok_cong:
  assumes "db_echoes db' = db_echoes db" and "db_runs db' = db_runs db" and "db_events db' = db_events db"
  shows "echo_db_ok lib db' = echo_db_ok lib db"
proof -
  have "find_echo k db' = find_echo k db" "find_run k db' = find_run k db" for k
    by (simp_all add: find_echo_def find_run_def assms)
  note finds = this
  have "run_links_ok db' = run_links_ok db"
    by (rule ext) (simp add: run_links_ok_def finds split: option.split)
  moreover have "events_numbered db' = events_numbered db"
    by (simp add: events_numbered_def echo_sequences_def assms finds)
  ultimately have "run_links_ok db' = run_links_ok db" "events_numbered db' = events_numbered db"
    by simp_all
  then show ?thesis by (simp add: echo_db_ok_def assms)
qed

lemma insert_request_ok: "insert_request q db = Some db' \<Longrightarrow> echo_db_ok lib db \<Longrightarrow> echo_db_ok lib db'"
  unfolding insert_request_def by (auto split: if_splits elim!: echo_db_ok_cong[THEN iffD2, rotated 3])

lemma insert_audit_ok: "insert_audit lib a db = Some (db', k) \<Longrightarrow> echo_db_ok lib db \<Longrightarrow> echo_db_ok lib db'"
  unfolding insert_audit_def
  by (auto split: if_splits option.splits elim!: echo_db_ok_cong[THEN iffD2, rotated 3])

text \<open>An event takes the number its Echo hands out; the Echo then hands out the next one.\<close>

lemma event_shape:
  assumes "update_echoes (\<lambda>e. echo_key e = k) bump db = Some (db1, n)"
    and "find_echo k db1 = Some e1"
    and "insert_event lib v db1 = Some db'"
  obtains e where "db' = db\<lparr>db_echoes := update_where (\<lambda>e. echo_key e = k) bump (db_echoes db),
                           db_events := db_events db @ [v]\<rparr>"
    and "find_echo k db = Some e" and "e1 = bump e"
    and "event_row_check lib v" and "event_key v \<notin> set (map event_key (db_events db))"
    and "\<forall>e \<in> set (db_echoes db). echo_key e = k \<longrightarrow> echo_row_check (bump e)"
proof -
  have key: "echo_key (bump e) = echo_key e" for e
    by (simp add: bump_def echo_key_def)
  have db1: "db1 = db\<lparr>db_echoes := update_where (\<lambda>e. echo_key e = k) bump (db_echoes db)\<rparr>"
    and chk: "\<forall>e \<in> set (db_echoes db). echo_key e = k \<longrightarrow> echo_row_check (bump e)"
    using assms(1) by (auto simp: update_echoes_Some)
  have "find_echo k db1 = map_option (\<lambda>r. if echo_key r = k then bump r else r) (find_echo k db)"
    unfolding find_echo_def db1 by (simp add: select_update_where key)
  then obtain e where e: "find_echo k db = Some e" and "e1 = (if echo_key e = k then bump e else e)"
    using assms(2) by (cases "find_echo k db") auto
  moreover have "echo_key e = k"
    using e by (auto simp: find_echo_def dest: select_keyD)
  ultimately have "find_echo k db = Some e" and "e1 = bump e" by simp_all
  moreover have "db' = db1\<lparr>db_events := db_events db @ [v]\<rparr>" "event_row_check lib v"
      "event_key v \<notin> set (map event_key (db_events db))"
    using assms(3) by (auto simp: insert_event_def exec_insert_Some db1 split: if_splits option.splits)
  ultimately show thesis using that chk by (simp add: db1)
qed

lemma event_ok:
  assumes "update_echoes (\<lambda>e. echo_key e = (ev_app_id v, ev_echo_id v)) bump db = Some (db1, n)"
    and "find_echo (ev_app_id v, ev_echo_id v) db1 = Some e1"
    and "insert_event lib (event_row_of v (e_next_sequence e1 - 1)) db1 = Some db'"
    and ok: "echo_db_ok lib db"
  shows "echo_db_ok lib db'"
proof -
  let ?k = "(ev_app_id v, ev_echo_id v)"
  obtain e where db': "db' = db\<lparr>db_echoes := update_where (\<lambda>e. echo_key e = ?k) bump (db_echoes db),
        db_events := db_events db @ [event_row_of v (e_next_sequence e1 - 1)]\<rparr>"
    and e: "find_echo ?k db = Some e" and e1: "e1 = bump e"
    and fresh: "event_key (event_row_of v (e_next_sequence e1 - 1)) \<notin> set (map event_key (db_events db))"
    and chk: "\<forall>e \<in> set (db_echoes db). echo_key e = ?k \<longrightarrow> echo_row_check (bump e)"
    using event_shape[OF assms(1-3)] by blast
  have key: "echo_key (bump x) = echo_key x" for x
    by (simp add: bump_def echo_key_def)
  have keys: "map echo_key (db_echoes db') = map echo_key (db_echoes db)"
    by (simp add: db' map_update_where key)
  have n: "e_next_sequence e1 - 1 = e_next_sequence e" by (simp add: e1 bump_def)
  have mem: "e \<in> set (db_echoes db)" "echo_key e = ?k"
    using e by (auto simp: find_echo_def dest: select_keyD)
  have pos: "0 < e_next_sequence e"
    using echo_db_okD(5)[OF ok mem(1)] by (simp add: echo_row_check_def)
  have seqs: "echo_sequences k db' = (if k = ?k then insert (e_next_sequence e) (echo_sequences k db) else echo_sequences k db)" for k
  proof -
    let ?w = "event_row_of v (e_next_sequence e)"
    have w: "(ev_app_id ?w, ev_echo_id ?w) = ?k" "ev_sequence ?w = e_next_sequence e"
      by (simp_all add: event_row_of_def)
    have "{x \<in> set (db_events db'). (ev_app_id x, ev_echo_id x) = k} =
        (if k = ?k then insert ?w else id) {x \<in> set (db_events db). (ev_app_id x, ev_echo_id x) = k}"
      using w(1) by (auto simp: db' n)
    then show ?thesis by (simp add: echo_sequences_def w(2))
  qed
  have numbered: "echo_sequences (echo_key x) db' = {1..<e_next_sequence x}" if x: "x \<in> set (db_echoes db')" for x
  proof -
    obtain y where y: "y \<in> set (db_echoes db)" "x = (if echo_key y = ?k then bump y else y)"
      using x by (auto simp: db' update_where_def)
    have old: "echo_sequences (echo_key y) db = {1..<e_next_sequence y}"
      using ok y(1) by (auto simp: echo_db_ok_def events_numbered_def)
    have "y = e" if "echo_key y = ?k"
      using echo_db_okD(1)[OF ok] y(1) mem that unfolding distinct_map by (metis inj_onD)
    then show ?thesis
      using old pos y(2) by (auto simp: seqs key bump_def) (auto simp: echo_key_def)
  qed
  have links: "run_links_ok db' r" if "run_links_ok db r" for r
    by (rule run_links_cong[OF _ _ that refl], unfold keys) (simp_all add: db')
  have "?k \<in> set (map echo_key (db_echoes db))"
    using mem by (metis image_eqI set_map)
  then have echo: "\<forall>w \<in> set (db_events db'). find_echo (ev_app_id w, ev_echo_id w) db' \<noteq> None"
    using ok unfolding echo_db_ok_def events_numbered_def find_echo_None keys
    by (auto simp: db' event_row_of_def)
  have "list_all echo_row_check (db_echoes db')"
    using chk echo_db_okD(5)[OF ok] by (auto simp: db' list_all_iff update_where_def)
  then have "table_ok echo_row_check echo_key (db_echoes db')"
    using echo_db_okD(1)[OF ok] by (simp add: table_ok_def keys)
  moreover have "distinct (map event_key (db_events db'))"
    using ok fresh by (simp add: echo_db_ok_def db')
  moreover have "events_numbered db'"
    using numbered echo by (simp add: events_numbered_def)
  moreover have "list_all (run_links_ok db') (db_runs db')"
    using echo_db_okD(4)[OF ok] links by (simp add: list_all_iff db')
  moreover have "db_runs db' = db_runs db" by (simp add: db')
  ultimately show ?thesis
    using ok by (simp add: echo_db_ok_def)
qed

lemma run_atom_ok: "run_atom lib db db' \<Longrightarrow> echo_db_ok lib db \<Longrightarrow> echo_db_ok lib db'"
  by (induction rule: run_atom.induct)
    (blast intro: write_runs_ok update_echoes_ok insert_run_ok new_echo_ok insert_request_ok event_ok
      insert_audit_ok)+

lemma run_atoms_ok: "run_atoms lib db db' \<Longrightarrow> echo_db_ok lib db \<Longrightarrow> echo_db_ok lib db'"
  by (induction rule: rtranclp_induct) (auto intro: run_atom_ok)

section \<open>The history of one Run\<close>

definition run_history :: "run_row \<Rightarrow> run_row \<Rightarrow> bool" where
  "run_history r r' \<longleftrightarrow>
     run_frozen r' = run_frozen r \<and> abs_run_step\<^sup>*\<^sup>* (abs_run r) (abs_run r') \<and> usage_le r r' \<and>
     (run_terminal (r_status r) \<longrightarrow> r' = r)"

lemma usage_le_trans: "usage_le a b \<Longrightarrow> usage_le b c \<Longrightarrow> usage_le a c"
  by (auto simp: usage_le_def)

lemma terminal_abs_run: "run_terminal (r_status r) \<Longrightarrow> abs_run r = Abs_Run_Ended (r_status r)"
  by (auto simp: run_terminal_def abs_run_def)

lemma run_evolves_history: "run_evolves r r' \<Longrightarrow> run_history r r'"
  by (auto simp: run_evolves_def run_history_def dest: terminal_abs_run)

lemma run_history_refl [simp]: "run_history r r"
  by (simp add: run_history_def)

lemma run_history_trans: "run_history a b \<Longrightarrow> run_history b c \<Longrightarrow> run_history a c"
  unfolding run_history_def by (auto intro: usage_le_trans rtranclp_trans)

lemma find_run_append: "find_run k db = Some r \<Longrightarrow> find_run k (db\<lparr>db_runs := db_runs db @ [x]\<rparr>) = Some r"
  by (simp add: find_run_def select_key_append)

lemma run_atom_evolves:
  assumes "run_atom lib db db'" and "find_run k db = Some r"
  shows "\<exists>r'. find_run k db' = Some r' \<and> run_evolves r r'"
  using assms(1)
proof cases
  case (runs w n)
  have "find_run k db' = Some (if run_where lib w r then run_set w r else r)"
    using runs(1) assms(2) by (auto simp: write_runs_Some find_run_def select_update_where)
  then show ?thesis using run_write_evolves[OF runs(2)] by auto
next
  case (new_run x)
  then show ?thesis using find_run_append[OF assms(2)] by (auto simp: insert_run_row_def split: if_splits)
next
  case (event v db1 n e)
  then have "db_runs db' = db_runs db"
    by (auto elim!: event_shape)
  then show ?thesis using assms(2) by (auto simp: find_run_def)
qed (use assms(2) in \<open>auto simp: find_run_def update_echoes_Some insert_request_def insert_audit_def
      split: if_splits option.splits\<close>)

lemma run_atoms_history:
  assumes "run_atoms lib db db'" and "find_run k db = Some r"
  shows "\<exists>r'. find_run k db' = Some r' \<and> run_history r r'"
  using assms(1)
proof (induction rule: rtranclp_induct)
  case (step db1 db2)
  then show ?case
    using run_atom_evolves run_evolves_history run_history_trans by meson
qed (use assms(2) in auto)

lemma run_steps_history:
  "(run_step lib)\<^sup>*\<^sup>* db db' \<Longrightarrow> find_run k db = Some r \<Longrightarrow>
     \<exists>r'. find_run k db' = Some r' \<and> run_history r r'"
  using run_atoms_history run_steps_atoms by blast

lemma run_steps_ok: "(run_step lib)\<^sup>*\<^sup>* db db' \<Longrightarrow> echo_db_ok lib db \<Longrightarrow> echo_db_ok lib db'"
  using run_atoms_ok run_steps_atoms by blast

text \<open>The creation requests are only ever added to.\<close>

lemma run_atom_request:
  assumes "run_atom lib db db'" and "select_key request_key k (db_requests db) = Some q"
  shows "select_key request_key k (db_requests db') = Some q"
  using assms(1)
proof cases
  case (event v db1 n e)
  then have "db_requests db' = db_requests db"
    by (auto elim!: event_shape)
  then show ?thesis using assms(2) by simp
qed (use assms(2) in \<open>auto simp: write_runs_Some update_echoes_Some insert_run_row_def insert_request_def
      insert_audit_def select_key_append split: if_splits option.splits\<close>)

lemma run_steps_request:
  assumes "(run_step lib)\<^sup>*\<^sup>* db db'" and "select_key request_key k (db_requests db) = Some q"
  shows "select_key request_key k (db_requests db') = Some q"
  using run_steps_atoms[OF assms(1)]
  by (induction rule: rtranclp_induct) (auto simp: assms(2) intro: run_atom_request)

end
