(* ===== verification/Run_Guarantees.thy ===== *)
theory Run_Guarantees
  imports Run_Lifecycle
begin

text \<open>
  What the store of Echoes and Runs guarantees its callers: a Run is claimed at most once and ended at
  most once, its budgets and identity are fixed when it is created, an Echo is created once per
  idempotency key, the events of an Echo are numbered without gaps, and a stored Run reads back as it
  was written.
\<close>

section \<open>Reading back\<close>

lemma word_of_uint [simp]: "word_of_int (uint w) = w"
  by simp

lemma queryRun_Inr:
  assumes "queryRun lib r = Inr v"
  shows "r_id v = r_id r" and "r_app_id v = r_app_id r" and "r_echo_id v = r_echo_id r"
    and "r_status v = r_status r" and "r_parent_id v = text_of (r_parent_id r)"
    and "r_group_id v = r_group_id r" and "r_origin_call_id v = r_origin_call_id r"
    and "r_lease_token v = text_of (r_lease_token r)"
  using assms unfolding queryRun_def by (auto split: if_splits option.splits)

definition stored_sources :: "run_record \<Rightarrow> run_record" where
  "stored_sources r =
     r\<lparr>r_context_sources := (if length (r_context_sources r) = 0 then ''{}'' else r_context_sources r)\<rparr>"

lemma queryRun_row_of:
  assumes v: "validateNewRun e r = Inr ()" and short: "length g \<le> 65536"
    and g: "rl_unmarshal lib g = Some (r_grants r)"
  shows "queryRun lib (run_row_of r g) = Inr (stored_sources r)"
proof -
  have out: "length (out_data (r_result r)) = 0" "out_content_type (r_result r) = []"
    and fresh: "r_lease_token r = []" "r_lease_expires r = None" "r_started_at r = None"
      "r_completed_at r = None" "r_error_code r = []" "r_error_message r = No_Message"
      "r_used_retries r = 0"
    and grants: "validCanonicalGrants (r_grants r) MaxCapabilities"
    using v by (auto simp: validateNewRun_Inr new_run_fresh_def new_run_inputs_def new_run_bounds_def)
  show ?thesis
    using short g grants fresh
    by (simp add: queryRun_def run_row_of_def text_of_def message_of_def stored_sources_def)
qed

section \<open>A claim\<close>

lemma ClaimRun_Inr:
  assumes "ClaimRun lib app echo run token started expires db = (db', Inr v)" and "echo_db_ok lib db"
  obtains row where "find_run (app, run) db = Some row" and "r_status row = Run_Queued"
    and "r_echo_id row = echo" and "token \<noteq> []"
    and "find_run (app, run) db' = Some (run_set (U_Claim (app, run, echo) token started expires) row)"
    and "db' = db\<lparr>db_runs := db_runs db'\<rparr>"
proof -
  from assms(1) obtain row n where f: "find (claimable_where lib (app, run, echo) started) (db_runs db) = Some row"
    and q: "\<exists>x. queryRun lib row = Inr x \<and>
              write_runs lib (U_Claim (app, r_id x, echo) token started expires) db = Some (db', n)"
    and t: "token \<noteq> []"
    unfolding ClaimRun_def by (auto split: if_splits option.splits sum.splits)
  have row: "row \<in> set (db_runs db)" "run_ref_of row = (app, run, echo)" "r_status row = Run_Queued"
    using f by (auto simp: find_Some_iff claimable_where_def)
  then have key: "find_run (app, run) db = Some row"
    using echo_db_okD(2)[OF assms(2)] by (simp add: find_run_def select_key_Some run_key_def run_ref_of_def)
  have w: "write_runs lib (U_Claim (app, run, echo) token started expires) db = Some (db', n)"
    using q row(2) queryRun_Inr(1)[of lib row] by (auto simp: run_ref_of_def)
  then have "find_run (app, run) db' = Some (run_set (U_Claim (app, run, echo) token started expires) row)"
    using key row by (simp add: write_runs_Some find_run_def select_update_where del: run_set.simps)
  moreover have "db' = db\<lparr>db_runs := db_runs db'\<rparr>"
    using w by (auto simp: write_runs_Some)
  ultimately show thesis
    using that key row t by (simp add: run_ref_of_def)
qed

text \<open>A Run that is not queued cannot be claimed.\<close>

lemma ClaimRun_refused:
  assumes "echo_db_ok lib db" and "find_run (app, run) db = Some r" and "r_status r \<noteq> Run_Queued"
  shows "\<exists>e. ClaimRun lib app echo run token started expires db = (db, Inl e)"
proof -
  have "\<not> claimable_where lib (app, run, echo) started x" if "x \<in> set (db_runs db)" for x
  proof
    assume c: "claimable_where lib (app, run, echo) started x"
    then have "run_key x = (app, run)" by (simp add: claimable_where_def run_ref_of_def run_key_def)
    then have "find_run (app, run) db = Some x"
      using that echo_db_okD(2)[OF assms(1)] by (simp add: find_run_def select_key_Some)
    then show False using assms(2,3) c by (simp add: claimable_where_def)
  qed
  then have "find (claimable_where lib (app, run, echo) started) (db_runs db) = None"
    by (auto simp: find_None_iff)
  then show ?thesis by (simp add: ClaimRun_def)
qed

lemma history_not_queued:
  assumes "run_history r r'" and "r_status r \<noteq> Run_Queued"
  shows "r_status r' \<noteq> Run_Queued"
proof -
  have "abs_run_step\<^sup>*\<^sup>* (abs_run r) a \<Longrightarrow> a \<noteq> Abs_Run_Queued" for a
  proof (induction rule: rtranclp_induct)
    case base
    then show ?case using assms(2) by (simp add: abs_run_queued)
  next
    case (step a b)
    then show ?case by (cases a) auto
  qed
  then show ?thesis using assms(1) by (auto simp: run_history_def simp flip: abs_run_queued)
qed

section \<open>The end of a Run\<close>

text \<open>The two operations that end a Run under its lease.\<close>

datatype end_op =
    End_Complete run_status echo_status run_output public_error
  | End_Retry run_record public_error

fun end_run :: "run_lib \<Rightarrow> end_op \<Rightarrow> run_record \<Rightarrow> instant \<Rightarrow> echo_db \<Rightarrow> echo_db \<times> unit go_result" where
  "end_run lib (End_Complete rs es out failure) r at db = CompleteRun lib r rs es out failure at db"
| "end_run lib (End_Retry nxt failure) r at db = RetryRun lib r nxt failure at db"

fun end_write :: "end_op \<Rightarrow> run_record \<Rightarrow> instant \<Rightarrow> run_write" where
  "end_write (End_Complete rs es out failure) r at =
     U_Complete (run_ref_of r) (r_lease_token r) rs (recorded_output rs out) (recorded_failure rs failure) at"
| "end_write (End_Retry nxt failure) r at =
     U_Retry (run_ref_of r) (r_lease_token r) (PublicEcho (pe_code failure)) at"

lemma end_run_shape:
  assumes "end_run lib op r at db = (db', u)"
  shows "(db' = db \<and> (\<exists>e. u = Inl e)) \<or>
         (u = Inr () \<and> run_write_ok (end_write op r at) \<and>
          (\<exists>db1. write_runs lib (end_write op r at) db = Some (db1, 1) \<and> run_atoms lib db1 db'))"
proof (cases op)
  case (End_Complete rs es out failure)
  then have "CompleteRun lib r rs es out failure at db = (db', u)" using assms by simp
  then show ?thesis
  proof (cases rule: CompleteRun_cases)
    case child
    then show ?thesis using End_Complete validateCompletion_Inr by auto
  next
    case (root db1)
    have v: "run_terminal rs" "es \<noteq> Echo_Running"
      using validateCompletion_Inr[OF root(2)] by auto
    then show ?thesis
      using root End_Complete update_echoes_atom[OF root(5) closing_ended] by auto
  qed simp
next
  case (End_Retry nxt failure)
  then have "RetryRun lib r nxt failure at db = (db', u)" using assms by simp
  then show ?thesis
  proof (cases rule: RetryRun_cases)
    case (retried e db1)
    then show ?thesis using End_Retry insertRun_atom[OF retried(8,2)] by auto
  qed simp
qed

lemma end_write_where: "run_where lib (end_write op r at) x \<longleftrightarrow> holds_lease (run_ref_of r) (r_lease_token r) x"
  by (cases op) auto

lemma end_write_terminal:
  "run_write_ok (end_write op r at) \<Longrightarrow> run_terminal (r_status (run_set (end_write op r at) x))"
  by (cases op) (auto simp: ended_def)

lemma holds_lease_key: "holds_lease (run_ref_of v) token r \<Longrightarrow> run_key r = run_key v"
  by (auto simp: holds_lease_def run_ref_of_def run_key_def)

text \<open>After the end the row is terminal, for good.\<close>

lemma end_run_terminal:
  assumes "end_run lib op r at db = (db', Inr ())" and "echo_db_ok lib db"
  shows "\<exists>x. find_run (run_key r) db' = Some x \<and> run_terminal (r_status x)"
proof -
  obtain db1 where ok: "run_write_ok (end_write op r at)"
    and w: "write_runs lib (end_write op r at) db = Some (db1, 1)" and a: "run_atoms lib db1 db'"
    using end_run_shape[OF assms(1)] by auto
  have "0 < affected (run_where lib (end_write op r at)) (db_runs db)"
    using w by (auto simp: write_runs_Some)
  then obtain y where y: "y \<in> set (db_runs db)" "run_where lib (end_write op r at) y"
    by (auto simp: affected_pos_iff)
  then have key: "run_key y = run_key r"
    by (simp add: end_write_where holds_lease_key)
  then have "find_run (run_key r) db = Some y"
    using y echo_db_okD(2)[OF assms(2)] by (simp add: find_run_def select_key_Some)
  then have f: "find_run (run_key r) db1 = Some (run_set (end_write op r at) y)"
    using w y by (auto simp: write_runs_Some find_run_def select_update_where)
  obtain x where "find_run (run_key r) db' = Some x" "run_history (run_set (end_write op r at) y) x"
    using run_atoms_history[OF a f] by blast
  moreover have "run_terminal (r_status (run_set (end_write op r at) y))"
    by (rule end_write_terminal[OF ok])
  ultimately show ?thesis by (auto simp: run_history_def)
qed

lemma terminal_refuses_end:
  assumes "echo_db_ok lib db" and "find_run (run_key r) db = Some x" and "run_terminal (r_status x)"
  shows "\<exists>e. end_run lib op r at db = (db, Inl e)"
proof -
  have "\<not> holds_lease (run_ref_of r) (r_lease_token r) y" if "y \<in> set (db_runs db)" for y
  proof
    assume h: "holds_lease (run_ref_of r) (r_lease_token r) y"
    then have "find_run (run_key r) db = Some y"
      using that echo_db_okD(2)[OF assms(1)] by (simp add: find_run_def select_key_Some holds_lease_key)
    then show False using assms(2,3) h by (simp add: holds_lease_def)
  qed
  then have "affected (run_where lib (end_write op r at)) (db_runs db) = 0"
    by (simp add: affected_0_iff end_write_where)
  moreover obtain db' u where e: "end_run lib op r at db = (db', u)" by (cases "end_run lib op r at db")
  ultimately show ?thesis
    using end_run_shape[OF e] e by (auto simp: write_runs_Some)
qed

section \<open>A concrete Run\<close>

definition sample_run_lib :: run_lib where
  "sample_run_lib =
     \<lparr>rl_driver = millisecond_driver, rl_json_array = (\<lambda>s. True), rl_marshal = (\<lambda>gs. Inr ''[]''),
      rl_unmarshal = (\<lambda>s. Some [])\<rparr>"

definition sample_echo :: "string \<Rightarrow> echo_record" where
  "sample_echo echo =
     \<lparr>e_id = echo, e_app_id = ''app'', e_input_message = ''hello'', e_status = Echo_Running,
      e_final_message = [], e_result = no_output, e_error_code = [], e_error_message = No_Message,
      e_created_at = second, e_completed_at = None\<rparr>"

definition sample_run :: "string \<Rightarrow> string \<Rightarrow> run_record" where
  "sample_run echo run =
     \<lparr>r_id = run, r_group_id = run, r_app_id = ''app'', r_echo_id = echo, r_parent_id = [],
      r_origin_call_id = [], r_session_id = [], r_user_id = [], r_message_id = [], r_channel = [],
      r_attempt = 1, r_status = Run_Queued, r_executor_id = ''exec'', r_config_revision = ''rev'',
      r_protocol_version = Version, r_executor_config = ''{}'', r_input_payload = ''hello'',
      r_input_content_type = ''text/plain'', r_context_digest = [], r_context_sources = [],
      r_max_steps = 4, r_max_capability_calls = 4, r_max_execution_units = 100,
      r_max_output_bytes = 1000, r_max_cost = 0, r_execution_timeout_ms = 1000,
      r_used_execution_units = 0, r_used_cost = 0, r_used_retries = 0, r_deadline = 90 * second,
      r_available_at = second, r_lease_token = [], r_lease_expires = None, r_last_sequence = 0,
      r_grants = [], r_recoverable_state = ''{}'', r_result = no_output, r_error_code = [],
      r_error_message = No_Message, r_created_at = second, r_started_at = None, r_completed_at = None\<rparr>"

definition sample_fingerprint :: string where
  "sample_fingerprint = replicate 64 (CHR ''a'')"

definition create_sample :: "string \<Rightarrow> string \<Rightarrow> echo_db \<Rightarrow> echo_db \<times> (string \<times> bool) go_result" where
  "create_sample echo run =
     CreateEchoRunIdempotentLimited sample_run_lib ''key'' sample_fingerprint (sample_echo echo)
       (sample_run echo run) 8"

lemma json_valid_samples: "json_valid ''{}''" "json_valid ''[]''"
  by (code_simp, code_simp)

lemma plain_text: "ValidContentType ''text/plain''"
proof -
  have "utf8_valid ''text/plain''" by code_simp
  moreover have "list_all (\<lambda>c. \<not> (code c < 32 \<or> code c = 127)) ''text/plain''" by code_simp
  ultimately show ?thesis unfolding ValidContentType_def validText_def by simp
qed

lemma sample_key: "ValidateKey ''key'' = Inr ()" by code_simp

lemma sample_run_valid:
  assumes "stable_mixed run" and "echo \<noteq> []"
  shows "validateNewRun (sample_echo echo) (sample_run echo run) = Inr ()"
  using assms json_valid_samples plain_text
  by (simp add: validateNewRun_Inr new_run_bounds_def new_run_fresh_def new_run_inputs_def
      validCanonicalGrants_def no_output_def sample_run_def sample_echo_def duration_defs Version_def)

lemma sample_run_row: "run_row_check sample_run_lib (run_row_of (sample_run echo run) ''[]'')"
  by (simp add: run_row_check_def run_row_of_def sample_run_def sample_run_lib_def millisecond_driver_def
      no_output_def code_def)

lemma sample_echo_row: "echo_row_check (echo_row_of (sample_echo echo))"
  by (simp add: echo_row_check_def echo_row_of_def sample_echo_def no_output_def)

lemma run_sample_ids: "stable_mixed ''run-1''" "stable_mixed ''run-2''"
  by (simp_all add: stable_mixed_def char_class_defs mixed_tail_def)

lemma sample_fp: "length sample_fingerprint = 64" "sql_length sample_fingerprint = 64"
  by (simp_all add: sample_fingerprint_def sql_length_plain code_def)

definition sample_request :: request_row where
  "sample_request = \<lparr>cq_app_id = ''app'', cq_key = ''key'', cq_fingerprint = sample_fingerprint,
     cq_echo_id = ''echo-1'', cq_created_at = second\<rparr>"

definition db_created :: echo_db where
  "db_created =
     \<lparr>db_echoes = [echo_row_of (sample_echo ''echo-1'')],
      db_runs = [run_row_of (sample_run ''echo-1'' ''run-1'') ''[]''], db_events = [],
      db_requests = [sample_request], db_audit = []\<rparr>"

lemma sample_keys:
  "echo_key (echo_row_of (sample_echo echo)) = (''app'', echo)"
  "run_key (run_row_of (sample_run echo run) g) = (''app'', run)"
  "r_parent_id (run_row_of (sample_run echo run) g) = None"
  "origin_key (run_row_of (sample_run echo run) g) = None"
  "r_app_id (run_row_of (sample_run echo run) g) = ''app''"
  "r_echo_id (run_row_of (sample_run echo run) g) = echo"
  "run_budget_ok (run_row_of (sample_run echo run) g)"
  "r_status (run_row_of (sample_run echo run) g) = Run_Queued"
  "r_grants (sample_run echo run) = []" "r_parent_id (sample_run echo run) = []"
  by (simp_all add: echo_key_def echo_row_of_def sample_echo_def run_key_def run_row_of_def sample_run_def
      origin_key_def run_budget_ok_def)

lemma sample_echo_sel:
  "e_app_id (sample_echo e) = ''app''" "e_id (sample_echo e) = e"
  "e_input_message (sample_echo e) = ''hello''" "e_status (sample_echo e) = Echo_Running"
  "e_created_at (sample_echo e) = second"
  by (simp_all add: sample_echo_def)

lemma create_sample_ok: "create_sample ''echo-1'' ''run-1'' empty_db = (db_created, Inr (''echo-1'', True))"
  unfolding create_sample_def CreateEchoRunIdempotentLimited_def
  by (simp add: sample_key sample_fp sample_echo_sel sample_keys sample_run_valid run_sample_ids empty_db_def
      select_key_def count_runs_def affected_def insertEchoRun_def exec_insert_def sample_echo_row
      insertRun_def sample_run_lib_def[THEN arg_cong[of _ _ rl_marshal]] insert_run_row_def find_run_def
      find_echo_def sample_run_row insert_request_def request_row_check_def request_key_def db_created_def
      sample_request_def)

definition claim_sample :: "string \<Rightarrow> echo_db \<Rightarrow> echo_db \<times> run_record go_result" where
  "claim_sample token =
     ClaimRun sample_run_lib ''app'' ''echo-1'' ''run-1'' token (2 * second) (17 * second)"

definition claimed_row :: run_row where
  "claimed_row = run_set (U_Claim (''app'', ''run-1'', ''echo-1'') ''token-a'' (2 * second) (17 * second))
     (run_row_of (sample_run ''echo-1'' ''run-1'') ''[]'')"

definition db_claimed :: echo_db where
  "db_claimed = db_created\<lparr>db_runs := [claimed_row]\<rparr>"

definition claimed_run :: run_record where
  "claimed_run =
     (stored_sources (sample_run ''echo-1'' ''run-1''))\<lparr>r_status := Run_Running,
       r_lease_token := ''token-a'', r_started_at := Some (2 * second), r_lease_expires := Some (17 * second)\<rparr>"

lemma sample_query:
  "stable_mixed run \<Longrightarrow> echo \<noteq> [] \<Longrightarrow>
     queryRun sample_run_lib (run_row_of (sample_run echo run) ''[]'') = Inr (stored_sources (sample_run echo run))"
  by (rule queryRun_row_of[OF sample_run_valid]) (simp_all add: sample_run_lib_def sample_run_def)

lemma claimed_row_check: "run_row_check sample_run_lib claimed_row \<and> run_budget_ok claimed_row"
  by (simp add: claimed_row_def run_row_check_def run_budget_ok_def run_row_of_def sample_run_def
      sample_run_lib_def millisecond_driver_def no_output_def code_def)

lemma claim_sample_ok: "claim_sample ''token-a'' db_created = (db_claimed, Inr claimed_run)"
proof -
  let ?r = "run_row_of (sample_run ''echo-1'' ''run-1'') ''[]''"
  let ?w = "U_Claim (''app'', ''run-1'', ''echo-1'') ''token-a'' (2 * second) (17 * second)"
  have ref: "run_ref_of ?r = (''app'', ''run-1'', ''echo-1'')"
    by (simp add: run_ref_of_def run_row_of_def sample_run_def)
  have runs: "db_runs db_created = [?r]" by (simp add: db_created_def)
  have id: "r_id (stored_sources (sample_run ''echo-1'' ''run-1'')) = ''run-1''"
    by (simp add: stored_sources_def sample_run_def)
  have query: "queryRun sample_run_lib ?r = Inr (stored_sources (sample_run ''echo-1'' ''run-1''))"
    by (rule sample_query) (simp_all add: run_sample_ids)
  have "claimable_where sample_run_lib (''app'', ''run-1'', ''echo-1'') (2 * second) ?r"
    using ref by (simp add: claimable_where_def run_row_of_def sample_run_def sample_run_lib_def
        millisecond_driver_def duration_defs)
  moreover have "write_runs sample_run_lib ?w db_created = Some (db_claimed, 1)"
    using claimed_row_check ref
    by (simp add: write_runs_Some db_created_def db_claimed_def claimed_row_def affected_def update_where_def
        sample_keys)
  ultimately show ?thesis
    unfolding claim_sample_def ClaimRun_def
    by (simp add: runs query id claimed_run_def)
qed

section \<open>Guarantees\<close>

lemma db_created_step: "run_step sample_run_lib empty_db db_created"
  using create_sample_ok unfolding create_sample_def by (rule run_step.create)

lemma db_created_ok: "echo_db_ok sample_run_lib db_created"
  using run_steps_ok[OF r_into_rtranclp[of "run_step sample_run_lib", OF db_created_step]] by simp

lemma db_claimed_step: "run_step sample_run_lib db_created db_claimed"
  using claim_sample_ok unfolding claim_sample_def by (rule run_step.claim)

lemma db_claimed_ok: "echo_db_ok sample_run_lib db_claimed"
  using run_steps_ok[OF r_into_rtranclp[of "run_step sample_run_lib", OF db_claimed_step] db_created_ok] .

lemma reachable_store:
  assumes "(run_step lib)\<^sup>*\<^sup>* empty_db db"
  shows "distinct (map run_key (db_runs db))" and "distinct (map group_key (db_runs db))"
    and "\<forall>r \<in> set (db_runs db).
           run_row_check lib r \<and> (r_status r = Run_Running \<longleftrightarrow> r_lease_token r \<noteq> None) \<and>
           r_lease_token r \<noteq> Some [] \<and> r_used_execution_units r \<le> r_max_execution_units r \<and>
           (r_max_cost r = 0 \<or> r_used_cost r \<le> r_max_cost r) \<and>
           find_echo (r_app_id r, r_echo_id r) db \<noteq> None \<and>
           (\<forall>p. r_parent_id r = Some p \<longrightarrow> find_run (r_app_id r, p) db \<noteq> None)"
    and "\<forall>e \<in> set (db_echoes db). echo_sequences (echo_key e) db = {1..<e_next_sequence e}"
proof -
  have ok: "echo_db_ok lib db" using run_steps_ok[OF assms] by simp
  show "distinct (map run_key (db_runs db))" by (rule echo_db_okD(2)[OF ok])
  show "distinct (map group_key (db_runs db))" using ok by (simp add: echo_db_ok_def)
  show "\<forall>e \<in> set (db_echoes db). echo_sequences (echo_key e) db = {1..<e_next_sequence e}"
    using ok by (simp add: echo_db_ok_def events_numbered_def)
  have "0 \<le> r_max_cost r" if "run_row_check lib r" for r
    using that by (simp add: run_row_check_def)
  then show "\<forall>r \<in> set (db_runs db).
      run_row_check lib r \<and> (r_status r = Run_Running \<longleftrightarrow> r_lease_token r \<noteq> None) \<and>
      r_lease_token r \<noteq> Some [] \<and> r_used_execution_units r \<le> r_max_execution_units r \<and>
      (r_max_cost r = 0 \<or> r_used_cost r \<le> r_max_cost r) \<and>
      find_echo (r_app_id r, r_echo_id r) db \<noteq> None \<and>
      (\<forall>p. r_parent_id r = Some p \<longrightarrow> find_run (r_app_id r, p) db \<noteq> None)"
    using echo_db_okD(3,4)[OF ok] unfolding run_row_valid_def run_budget_ok_def run_links_ok_def
    by (fastforce split: option.splits)
qed

text \<open>C16: the detailed store implements the abstract life cycle of a Run: through any interleaving of
  operations a stored Run stays stored, everything fixed at its creation (identity, parent, attempt,
  configuration, limits, grants, input, deadline) stays as it was, its status follows queued, running
  under one token, ended, its sequence number and usage only grow, and once ended it never changes.\<close>

theorem run_lifecycle_refined:
  assumes "(run_step lib)\<^sup>*\<^sup>* db db'" and "find_run k db = Some r"
  shows "\<exists>r'. find_run k db' = Some r' \<and> run_frozen r' = run_frozen r \<and>
           abs_run_step\<^sup>*\<^sup>* (abs_run r) (abs_run r') \<and> usage_le r r' \<and>
           (run_terminal (r_status r) \<longrightarrow> r' = r)"
  using run_steps_history[OF assms] by (simp add: run_history_def)

theorem run_lifecycle_refined_witness:
  "\<exists>r'. find_run (''app'', ''run-1'') db_claimed = Some r' \<and>
        abs_run_step\<^sup>*\<^sup>* Abs_Run_Queued (abs_run r')"
  using run_lifecycle_refined[OF r_into_rtranclp[of "run_step sample_run_lib", OF db_claimed_step],
      of "(''app'', ''run-1'')" "run_row_of (sample_run ''echo-1'' ''run-1'') ''[]''"]
  by (auto simp: db_created_def find_run_def select_key_def sample_keys abs_run_def)

text \<open>C17: a Run is claimed at most once: after one caller has claimed it, whatever happens in between,
  every later claim of the same Run, with any token, is refused and changes nothing.\<close>

theorem run_claimed_once:
  assumes "echo_db_ok lib db" and "ClaimRun lib app echo run token started expires db = (db1, Inr v)"
    and "(run_step lib)\<^sup>*\<^sup>* db1 db2"
  shows "\<exists>e. ClaimRun lib app echo' run token' started' expires' db2 = (db2, Inl e)"
proof -
  have steps: "(run_step lib)\<^sup>*\<^sup>* db db1"
    using assms(2) by (blast intro: run_step.claim)
  then have ok: "echo_db_ok lib db2"
    using run_steps_ok assms(1,3) by blast
  obtain row where "find_run (app, run) db1 = Some (run_set (U_Claim (app, run, echo) token started expires) row)"
    using ClaimRun_Inr[OF assms(2,1)] by blast
  then obtain r where "find_run (app, run) db2 = Some r" and "r_status r \<noteq> Run_Queued"
    using run_steps_history[OF assms(3)] history_not_queued by fastforce
  then show ?thesis by (rule ClaimRun_refused[OF ok])
qed

theorem run_claimed_once_witness:
  "\<exists>e. claim_sample ''token-b'' db_claimed = (db_claimed, Inl e)"
  unfolding claim_sample_def
  by (rule run_claimed_once[OF db_created_ok claim_sample_ok[unfolded claim_sample_def] rtranclp.rtrancl_refl])

text \<open>A Run ends at most once: after a completion or a retry has succeeded, whatever happens in
  between, every further completion or retry of the same Run, with any lease, is refused and changes
  nothing.\<close>

theorem run_ended_once:
  assumes "echo_db_ok lib db" and "end_run lib op r at db = (db1, Inr ())"
    and "(run_step lib)\<^sup>*\<^sup>* db1 db2" and "run_key r' = run_key r"
  shows "\<exists>e. end_run lib op' r' at' db2 = (db2, Inl e)"
proof -
  have step: "run_step lib db db1"
    using assms(2) by (cases op) (auto intro: run_step.complete run_step.retry)
  have ok: "echo_db_ok lib db2"
    using run_steps_ok[OF converse_rtranclp_into_rtranclp[OF step assms(3)] assms(1)] .
  obtain x where x: "find_run (run_key r) db1 = Some x" "run_terminal (r_status x)"
    using end_run_terminal[OF assms(2,1)] by blast
  then have "find_run (run_key r') db2 = Some x"
    using run_steps_history[OF assms(3) x(1)] assms(4) by (auto simp: run_history_def)
  then show ?thesis using terminal_refuses_end[OF ok] x(2) by blast
qed

definition sample_output :: run_output where
  "sample_output = \<lparr>out_content_type = ''text/plain'', out_data = ''done''\<rparr>"

definition completed_row :: run_row where
  "completed_row =
     run_set (U_Complete (run_ref_of claimed_run) ''token-a'' Run_Succeeded sample_output no_error (3 * second))
       claimed_row"

definition db_completed :: echo_db where
  "db_completed =
     db_claimed\<lparr>db_runs := [completed_row],
       db_echoes := [echo_ended Echo_Succeeded sample_output [] No_Message (3 * second)
                       (echo_row_of (sample_echo ''echo-1''))]\<rparr>"

definition complete_sample :: "echo_db \<Rightarrow> echo_db \<times> unit go_result" where
  "complete_sample =
     CompleteRun sample_run_lib claimed_run Run_Succeeded Echo_Succeeded sample_output no_error (3 * second)"

lemma claimed_run_sel:
  "r_app_id claimed_run = ''app''" "r_id claimed_run = ''run-1''" "r_echo_id claimed_run = ''echo-1''"
  "r_parent_id claimed_run = []" "r_lease_token claimed_run = ''token-a''"
  "run_ref_of claimed_run = (''app'', ''run-1'', ''echo-1'')" "run_ref_of claimed_row = (''app'', ''run-1'', ''echo-1'')"
  "r_status claimed_row = Run_Running" "r_lease_token claimed_row = Some ''token-a''"
  by (simp_all add: claimed_run_def stored_sources_def sample_run_def run_ref_of_def claimed_row_def run_row_of_def)

lemma complete_sample_ok: "complete_sample db_claimed = (db_completed, Inr ())"
proof -
  let ?w = "U_Complete (run_ref_of claimed_run) ''token-a'' Run_Succeeded sample_output no_error (3 * second)"
  have "run_row_check sample_run_lib completed_row \<and> run_budget_ok completed_row"
    using claimed_row_check
    by (simp add: completed_row_def run_row_check_def run_budget_ok_def ended_def give_up_lease_def
        sample_output_def code_def split: option.splits)
  then have w: "write_runs sample_run_lib ?w db_claimed = Some (db_claimed\<lparr>db_runs := [completed_row]\<rparr>, 1)"
    by (simp add: write_runs_Some db_claimed_def completed_row_def affected_def update_where_def
        holds_lease_def claimed_run_sel)
  have e: "update_echoes (open_echo_where ''app'' ''echo-1'')
      (echo_ended Echo_Succeeded sample_output [] No_Message (3 * second))
      (db_claimed\<lparr>db_runs := [completed_row]\<rparr>) = Some (db_completed, 1)"
    by (simp add: update_echoes_Some db_claimed_def db_created_def db_completed_def affected_def update_where_def
        open_echo_where_def echo_row_of_def sample_echo_def echo_row_check_def echo_ended_def sample_output_def
        code_def)
  show ?thesis
    unfolding complete_sample_def CompleteRun_def Let_def
    using w e by (simp add: validateCompletion_def claimed_run_sel recorded_failure_def recorded_output_def
        sample_output_def no_error_def)
qed

theorem run_ended_once_witness: "\<exists>e. complete_sample db_completed = (db_completed, Inl e)"
proof -
  have "end_run sample_run_lib (End_Complete Run_Succeeded Echo_Succeeded sample_output no_error) claimed_run
      (3 * second) db_claimed = (db_completed, Inr ())"
    using complete_sample_ok by (simp add: complete_sample_def)
  from run_ended_once[OF db_claimed_ok this rtranclp.rtrancl_refl refl,
      of "End_Complete Run_Succeeded Echo_Succeeded sample_output no_error" "3 * second"]
  show ?thesis by (simp add: complete_sample_def)
qed

end
