(* ===== verification/Run_Recovery.thy ===== *)
theory Run_Recovery
  imports Run_Guarantees
begin

text \<open>
  Whole operations of the Echo and Run store: idempotent creation under the queue limit, completion of
  a Run together with its Echo, cancellation of the queue, the reconciliation of abandoned Runs at
  start-up, the refusal to retry a child Run, and the event log as a reader sees it.
\<close>

section \<open>Creation\<close>

definition creation_args_ok ::
  "string \<Rightarrow> string \<Rightarrow> echo_record \<Rightarrow> run_record \<Rightarrow> int \<Rightarrow> bool" where
  "creation_args_ok key fp e r n \<longleftrightarrow>
     ValidateKey key = Inr () \<and> length fp = 64 \<and> 0 \<le> n \<and> n \<le> 100000 \<and>
     e_app_id e \<noteq> [] \<and> e_id e \<noteq> [] \<and> e_input_message e \<noteq> [] \<and> e_status e = Echo_Running \<and>
     e_created_at e \<noteq> 0 \<and> r_parent_id r = [] \<and> validateNewRun e r = Inr ()"

lemma Create_eq:
  "creation_args_ok key fp e r n \<Longrightarrow>
     CreateEchoRunIdempotentLimited lib key fp e r n db =
       (case select_key request_key (e_app_id e, key) (db_requests db) of
          Some q \<Rightarrow> if cq_fingerprint q \<noteq> fp then (db, idem_fail Idem_KeyConflict)
                    else (db, Inr (cq_echo_id q, False))
        | None \<Rightarrow>
            if 0 < n \<and> n \<le> int (count_runs (pending_where (e_app_id e)) db) then (db, echo_fail Run_QueueFull)
            else (case insertEchoRun lib e r db of
                Inl x \<Rightarrow> (db, Inl x)
              | Inr db1 \<Rightarrow>
                  (case insert_request \<lparr>cq_app_id = e_app_id e, cq_key = key, cq_fingerprint = fp,
                          cq_echo_id = e_id e, cq_created_at = e_created_at e\<rparr> db1 of
                     None \<Rightarrow> (db, Inl constraint_error)
                   | Some db2 \<Rightarrow> (db2, Inr (e_id e, True)))))"
  unfolding CreateEchoRunIdempotentLimited_def creation_args_ok_def
  by (simp cong: option.case_cong sum.case_cong if_cong)

lemma Create_args:
  "CreateEchoRunIdempotentLimited lib key fp e r n db = (db', Inr v) \<Longrightarrow> creation_args_ok key fp e r n"
  unfolding CreateEchoRunIdempotentLimited_def creation_args_ok_def
  by (auto split: if_splits sum.splits)

lemma Create_created:
  assumes "CreateEchoRunIdempotentLimited lib key fp e r n db = (db', Inr (x, True))"
  obtains g where "x = e_id e" and "creation_args_ok key fp e r n"
    and "rl_marshal lib (r_grants r) = Inr g"
    and "\<not> (0 < n \<and> n \<le> int (count_runs (pending_where (e_app_id e)) db))"
    and "db' = db\<lparr>db_echoes := db_echoes db @ [echo_row_of e], db_runs := db_runs db @ [run_row_of r g],
           db_requests := db_requests db @ [\<lparr>cq_app_id = e_app_id e, cq_key = key, cq_fingerprint = fp,
             cq_echo_id = e_id e, cq_created_at = e_created_at e\<rparr>]\<rparr>"
    and "select_key request_key (e_app_id e, key) (db_requests db) = None"
    and "run_key (run_row_of r g) \<notin> set (map run_key (db_runs db))"
proof -
  note args = Create_args[OF assms]
  show thesis
    using assms args that unfolding Create_eq[OF args] insertEchoRun_def insertRun_def insert_run_row_def
      insert_request_def find_run_None
    by (auto simp: exec_insert_Some split: option.splits if_splits sum.splits)
qed

text \<open>C18: an Echo is created once per idempotency key: after a creation has succeeded, whatever happens
  in between, a later creation of the same App with the same key changes nothing; it returns the Echo of
  the first call when the fingerprint is the same and is refused as a key conflict otherwise.\<close>

theorem echo_created_once:
  assumes "CreateEchoRunIdempotentLimited lib key fp e r n db = (db1, Inr (echo, True))"
    and "(run_step lib)\<^sup>*\<^sup>* db1 db2"
    and "creation_args_ok key fp' e' r' n'" and "e_app_id e' = e_app_id e"
  shows "CreateEchoRunIdempotentLimited lib key fp' e' r' n' db2 =
           (db2, if fp' = fp then Inr (echo, False) else idem_fail Idem_KeyConflict)"
proof -
  let ?q = "\<lparr>cq_app_id = e_app_id e, cq_key = key, cq_fingerprint = fp, cq_echo_id = e_id e,
             cq_created_at = e_created_at e\<rparr>"
  have x: "echo = e_id e \<and> db_requests db1 = db_requests db @ [?q] \<and>
      select_key request_key (e_app_id e, key) (db_requests db) = None"
    by (rule Create_created[OF assms(1)]) simp
  then have "select_key request_key (e_app_id e, key) (db_requests db1) = Some ?q"
    by (simp add: select_key_append request_key_def)
  then have "select_key request_key (e_app_id e', key) (db_requests db2) = Some ?q"
    using run_steps_request[OF assms(2)] assms(4) by simp
  then show ?thesis
    using x by (simp add: Create_eq[OF assms(3)])
qed

lemma sample_creation_args:
  "stable_mixed run \<Longrightarrow> echo \<noteq> [] \<Longrightarrow>
     creation_args_ok ''key'' sample_fingerprint (sample_echo echo) (sample_run echo run) 8"
  by (simp add: creation_args_ok_def sample_key sample_fp sample_echo_sel sample_run_valid sample_keys)

theorem echo_created_once_witness:
  "create_sample ''echo-2'' ''run-2'' db_created = (db_created, Inr (''echo-1'', False))"
  using echo_created_once[OF create_sample_ok[unfolded create_sample_def] rtranclp.rtrancl_refl
      sample_creation_args[of "''run-2''" "''echo-2''"]]
  by (simp add: create_sample_def run_sample_ids sample_echo_sel)

text \<open>The queue limit holds: a creation that adds an Echo leaves the App with at most the configured
  number of queued and running Runs.\<close>

theorem queue_limit_respected:
  assumes "CreateEchoRunIdempotentLimited lib key fp e r n db = (db', Inr (echo, True))" and "0 < n"
  shows "int (count_runs (pending_where (e_app_id e)) db') \<le> n"
  by (rule Create_created[OF assms(1)])
    (use assms(2) in \<open>simp add: count_runs_def affected_def\<close>)

theorem queue_limit_respected_witness: "count_runs (pending_where ''app'') db_created \<le> 8"
  using queue_limit_respected[OF create_sample_ok[unfolded create_sample_def]] by (simp add: sample_echo_sel)

text \<open>A Run reads back as it was created: with a JSON encoding of its grants that decodes to them and
  fits the column, \<open>GetRun\<close> after the creation returns every field of the record, with the missing
  context sources as the empty object.\<close>

theorem created_run_reads_back:
  assumes "CreateEchoRunIdempotentLimited lib key fp e r n db = (db', Inr (echo, True))"
    and "\<And>g. rl_marshal lib (r_grants r) = Inr g \<Longrightarrow> rl_unmarshal lib g = Some (r_grants r) \<and> length g \<le> 65536"
  shows "GetRun lib (r_app_id r) (r_id r) db' = Inr (stored_sources r)"
proof (rule Create_created[OF assms(1)])
  fix g
  assume args: "creation_args_ok key fp e r n" and g: "rl_marshal lib (r_grants r) = Inr g"
    and fresh: "run_key (run_row_of r g) \<notin> set (map run_key (db_runs db))"
    and db': "db' = db\<lparr>db_echoes := db_echoes db @ [echo_row_of e], db_runs := db_runs db @ [run_row_of r g],
           db_requests := db_requests db @ [\<lparr>cq_app_id = e_app_id e, cq_key = key, cq_fingerprint = fp,
             cq_echo_id = e_id e, cq_created_at = e_created_at e\<rparr>]\<rparr>"
  have v: "validateNewRun e r = Inr ()" using args by (simp add: creation_args_ok_def)
  then have "r_app_id r \<noteq> []" "r_id r \<noteq> []"
    by (auto simp: validateNewRun_Inr stable_mixed_def)
  moreover have key: "run_key (run_row_of r g) = (r_app_id r, r_id r)"
    by (simp add: run_key_def run_row_of_def)
  then have "find_run (r_app_id r, r_id r) db' = Some (run_row_of r g)"
    using select_key_append_new[OF fresh] by (simp add: find_run_def db')
  moreover have "queryRun lib (run_row_of r g) = Inr (stored_sources r)"
    using assms(2)[OF g] by (intro queryRun_row_of[OF v]) auto
  ultimately show ?thesis by (simp add: GetRun_def)
qed

theorem created_run_reads_back_witness:
  "GetRun sample_run_lib ''app'' ''run-1'' db_created = Inr (stored_sources (sample_run ''echo-1'' ''run-1''))"
  using created_run_reads_back[OF create_sample_ok[unfolded create_sample_def]]
  by (simp add: sample_run_lib_def sample_run_def)

section \<open>Completion\<close>

lemma validateCompletion_pair:
  "validateCompletion r rs es at = Inr () \<Longrightarrow>
     (rs, es) \<in> {(Run_Succeeded, Echo_Succeeded), (Run_Failed, Echo_Failed), (Run_Timed_Out, Echo_Failed),
       (Run_Cancelled, Echo_Cancelled)}"
  by (auto simp: validateCompletion_def split: if_splits)

lemma completed_run_held:
  assumes "write_runs lib (U_Complete (run_ref_of r) token rs out err at) db = Some (db', 1)" and "echo_db_ok lib db"
  shows "\<exists>y. find_run (run_key r) db = Some y \<and> r_status y = Run_Running \<and> r_lease_token y = Some token \<and>
           holds_lease (run_ref_of r) token y"
proof -
  have "0 < affected (run_where lib (U_Complete (run_ref_of r) token rs out err at)) (db_runs db)"
    using assms(1) by (auto simp: write_runs_Some)
  then obtain y where y: "y \<in> set (db_runs db)" "holds_lease (run_ref_of r) token y"
    by (auto simp: affected_pos_iff)
  then show ?thesis
    using echo_db_okD(2)[OF assms(2)] by (auto simp: find_run_def select_key_Some holds_lease_key holds_lease_def)
qed

lemma completed_run_row:
  assumes "write_runs lib (U_Complete (run_ref_of r) token rs out err at) db = Some (db', 1)" and "echo_db_ok lib db"
  shows "\<exists>x. find_run (run_key r) db' = Some x \<and> r_status x = rs \<and> r_lease_token x = None \<and>
           r_result x = out \<and> text_of (r_error_code x) = pe_code err \<and>
           message_of (r_error_message x) = pe_message err"
proof -
  let ?w = "U_Complete (run_ref_of r) token rs out err at"
  obtain y where y: "find_run (run_key r) db = Some y" "holds_lease (run_ref_of r) token y"
    using completed_run_held[OF assms] by blast
  then have "find_run (run_key r) db' = Some (run_set ?w y)"
    using assms(1) by (auto simp: write_runs_Some find_run_def select_update_where simp del: run_set.simps)
  then show ?thesis by (simp add: ended_def give_up_lease_def text_of_def message_of_def)
qed

lemma closed_echo:
  assumes "update_echoes (open_echo_where app echo) (echo_ended es out c m at) db = Some (db', 1)"
    and "distinct (map echo_key (db_echoes db))"
  shows "\<exists>e. select_key echo_key (app, echo) (db_echoes db) = Some e \<and> e_status e = Echo_Running \<and>
           select_key echo_key (app, echo) (db_echoes db') = Some (echo_ended es out c m at e)"
proof -
  have key: "echo_key (echo_ended es out c m at e) = echo_key e" for e
    by (simp add: echo_ended_def echo_key_def)
  have "0 < affected (open_echo_where app echo) (db_echoes db)" using assms(1) by (auto simp: update_echoes_Some)
  then obtain e where e: "e \<in> set (db_echoes db)" "open_echo_where app echo e"
    by (auto simp: affected_pos_iff)
  then have "select_key echo_key (app, echo) (db_echoes db) = Some e"
    using assms(2) by (simp add: select_key_Some open_echo_where_def echo_key_def)
  moreover from this have "select_key echo_key (app, echo) (db_echoes db') = Some (echo_ended es out c m at e)"
    using assms(1) e(2) by (auto simp: update_echoes_Some select_update_where key)
  ultimately show ?thesis using e(2) by (simp add: open_echo_where_def)
qed

text \<open>C19: a completion is atomic: either it fails and nothing changes, or the Run, which was running under
  the caller's lease, has ended with the given status and without a lease and, when it is a root Run,
  its Echo, which was running, has ended with the same result and error and with the status that
  belongs to the Run's: succeeded with succeeded, cancelled with cancelled, failed with failed or timed
  out. A child Run leaves the Echoes alone.\<close>

theorem completion_atomic:
  assumes "CompleteRun lib r rs es out failure at db = (db', u)" and "echo_db_ok lib db"
  shows "(db' = db \<and> (\<exists>e. u = Inl e)) \<or>
    (u = Inr () \<and>
     (rs, es) \<in> {(Run_Succeeded, Echo_Succeeded), (Run_Failed, Echo_Failed), (Run_Timed_Out, Echo_Failed),
       (Run_Cancelled, Echo_Cancelled)} \<and>
     (\<exists>x0. find_run (run_key r) db = Some x0 \<and> r_status x0 = Run_Running \<and> r_lease_token x0 = Some (r_lease_token r)) \<and>
     (\<exists>x. find_run (run_key r) db' = Some x \<and> r_status x = rs \<and> r_lease_token x = None \<and>
        (if r_parent_id r = [] then
           \<exists>e e'. find_echo (r_app_id r, r_echo_id r) db = Some e \<and> e_status e = Echo_Running \<and>
               find_echo (r_app_id r, r_echo_id r) db' = Some e' \<and> e_status e' = es \<and>
               e' = echo_ended es (r_result x) (text_of (r_error_code x)) (message_of (r_error_message x)) at e
         else db_echoes db' = db_echoes db)))"
  using assms(1)
proof (cases rule: CompleteRun_cases)
  case child
  then show ?thesis
    using completed_run_row[OF child(4) assms(2)] completed_run_held[OF child(4) assms(2)]
      validateCompletion_pair[OF child(2)] by (auto simp: write_runs_Some)
next
  case (root db1)
  obtain x where x: "find_run (run_key r) db1 = Some x" "r_status x = rs" "r_lease_token x = None"
      "r_result x = recorded_output rs out" "text_of (r_error_code x) = pe_code (recorded_failure rs failure)"
      "message_of (r_error_message x) = pe_message (recorded_failure rs failure)"
    using completed_run_row[OF root(4) assms(2)] by blast
  have same: "db_echoes db1 = db_echoes db" using root(4) by (auto simp: write_runs_Some)
  have runs: "db_runs db' = db_runs db1" using root(5) by (auto simp: update_echoes_Some)
  obtain e where e: "find_echo (r_app_id r, r_echo_id r) db = Some e" "e_status e = Echo_Running"
    "find_echo (r_app_id r, r_echo_id r) db' = Some (echo_ended es (recorded_output rs out)
        (pe_code (recorded_failure rs failure)) (pe_message (recorded_failure rs failure)) at e)"
    using closed_echo[OF root(5)] echo_db_okD(1)[OF assms(2)] same by (auto simp: find_echo_def)
  show ?thesis
    using root x e runs completed_run_held[OF root(4) assms(2)] validateCompletion_pair[OF root(2)]
    by (auto simp: find_run_def echo_ended_def)
qed simp

theorem completion_atomic_witness:
  "\<exists>x. find_run (''app'', ''run-1'') db_completed = Some x \<and> r_status x = Run_Succeeded"
  using completion_atomic[OF complete_sample_ok[unfolded complete_sample_def] db_claimed_ok]
  by (auto simp: run_key_def claimed_run_sel)

section \<open>The event log\<close>

lemma echo_events_numbered:
  assumes "echo_db_ok lib db" and "e \<in> set (db_echoes db)" and "echo_key e = (app, echo)"
  shows "map ev_sequence (echo_events app echo db) = [1..int (length (echo_events app echo db))]"
proof -
  let ?vs = "filter (\<lambda>v. ev_app_id v = app \<and> ev_echo_id v = echo) (db_events db)"
  let ?xs = "map ev_sequence (echo_events app echo db)"
  have "distinct (map event_key ?vs)"
    using assms(1) by (simp add: echo_db_ok_def distinct_map_filter)
  then have "inj_on ev_sequence (set ?vs)" "distinct ?vs"
    by (auto simp: distinct_map inj_on_def event_key_def)
  then have d: "distinct ?xs"
    by (simp add: echo_events_def distinct_map)
  have "set ?xs = echo_sequences (echo_key e) db"
    by (auto simp: echo_events_def echo_sequences_def assms(3))
  also have "\<dots> = {1..<e_next_sequence e}"
    using assms(1,2) by (simp add: echo_db_ok_def events_numbered_def)
  finally have st: "set ?xs = {1..<e_next_sequence e}" .
  have pos: "0 < e_next_sequence e"
    using echo_db_okD(5)[OF assms(1,2)] by (simp add: echo_row_check_def)
  have "length ?xs = card {1..<e_next_sequence e}"
    using d st distinct_card by metis
  then have n: "e_next_sequence e = int (length ?xs) + 1" using pos by simp
  have "sorted ?xs" by (simp add: echo_events_def)
  then show ?thesis
    using d st n by (intro sorted_distinct_set_unique) auto
qed

text \<open>C20: a reader sees the events of an Echo numbered 1, 2, 3 and so on without a gap or a repetition, in
  every database the store can reach.\<close>

theorem echo_events_gap_free:
  assumes "(run_step lib)\<^sup>*\<^sup>* empty_db db" and "GetEcho app echo db = Inr (e, vs)"
  shows "map ev_sequence vs = map word_of_int [1..int (length vs)]"
proof -
  have ok: "echo_db_ok lib db" using run_steps_ok[OF assms(1)] by simp
  obtain row where "find_echo (app, echo) db = Some row"
    and vs: "vs = map event_of_row (echo_events app echo db)"
    using assms(2) by (auto simp: GetEcho_def split: if_splits option.splits)
  then have "row \<in> set (db_echoes db)" "echo_key row = (app, echo)"
    by (auto simp: find_echo_def dest: select_keyD)
  note n = echo_events_numbered[OF ok this]
  have "map ev_sequence vs = map word_of_int (map ev_sequence (echo_events app echo db))"
    by (simp add: vs event_of_row_def comp_def)
  then show ?thesis by (simp add: n) (simp add: vs)
qed

definition sample_event :: "string \<Rightarrow> echo_event" where
  "sample_event body =
     \<lparr>ev_app_id = ''app'', ev_echo_id = ''echo-1'', ev_run_id = ''run-1'', ev_sequence = 0,
      ev_type = ''output.delta'', ev_payload = body, ev_created_at = 2 * second\<rparr>"

definition append_sample :: "string \<Rightarrow> echo_db \<Rightarrow> echo_db \<times> echo_event go_result" where
  "append_sample body = AppendEchoEvent sample_run_lib None (sample_event body)"

definition logged_db :: "int \<Rightarrow> string list \<Rightarrow> echo_db" where
  "logged_db n bodies =
     db_claimed\<lparr>db_echoes := [(echo_row_of (sample_echo ''echo-1''))\<lparr>e_next_sequence := n\<rparr>],
       db_events := map (\<lambda>(k, b). event_row_of (sample_event b) k) (zip [1..n - 1] bodies)\<rparr>"

lemma append_sample_ok:
  "append_sample ''{}'' db_claimed = (logged_db 2 [''{}''], Inr ((sample_event ''{}'')\<lparr>ev_sequence := 1\<rparr>))"
  "append_sample ''[]'' (logged_db 2 [''{}'']) =
     (logged_db 3 [''{}'', ''[]''], Inr ((sample_event ''[]'')\<lparr>ev_sequence := 2\<rparr>))"
  unfolding append_sample_def AppendEchoEvent_def
  using json_valid_samples claimed_run_sel
  by (simp_all add: sample_event_def logged_db_def db_claimed_def db_created_def count_runs_def affected_def
      event_run_where_def find_echo_def select_key_def sample_keys claimed_row_def run_row_of_def sample_run_def
      echo_key_def echo_row_of_def sample_echo_def update_echoes_def exec_update_def echo_row_check_def
      no_output_def update_where_def insert_event_def exec_insert_def event_row_of_def event_row_check_def
      event_key_def sample_run_lib_def millisecond_driver_def upto.simps)

theorem echo_events_gap_free_witness:
  "\<exists>e vs. GetEcho ''app'' ''echo-1'' (logged_db 3 [''{}'', ''[]'']) = Inr (e, vs) \<and>
          map ev_sequence vs = [1, 2]"
proof -
  let ?db = "logged_db 3 [''{}'', ''[]'']"
  have "run_step sample_run_lib db_claimed (logged_db 2 [''{}''])"
    and "run_step sample_run_lib (logged_db 2 [''{}'']) ?db"
    using append_sample_ok unfolding append_sample_def by (auto intro: run_step.append_event)
  then have steps: "(run_step sample_run_lib)\<^sup>*\<^sup>* empty_db ?db"
    using db_created_step db_claimed_step by (meson converse_rtranclp_into_rtranclp rtranclp.rtrancl_refl)
  obtain e vs where g: "GetEcho ''app'' ''echo-1'' ?db = Inr (e, vs)" and "length vs = 2"
    by (simp add: GetEcho_def find_echo_def select_key_def logged_db_def echo_key_def echo_row_of_def
        sample_echo_def echo_events_def event_row_of_def sample_event_def upto.simps)
  then show ?thesis using echo_events_gap_free[OF steps g] by (simp add: upto.simps)
qed

end
