(* ===== verification/Run_Reconcile.thy ===== *)
theory Run_Reconcile
  imports Run_Recovery
begin

text \<open>
  The operations that work on many Runs at once: cancellation of the queue, and the reconciliation of
  Runs a crash left running. The last section shows two behaviours of the code that follow from its
  statements: a child Run can never be retried, and a child that outlives its Echo keeps the
  reconciliation from ever succeeding.
\<close>

section \<open>Cancellation of the queue\<close>

lemma write_runs_row:
  assumes "write_runs lib w db = Some (db', n)" and "r' \<in> set (db_runs db')"
  obtains r where "r \<in> set (db_runs db)" and "r' = (if run_where lib w r then run_set w r else r)"
proof -
  have "r' \<in> set (update_where (run_where lib w) (run_set w) (db_runs db))"
    using assms by (auto simp: write_runs_Some)
  then show thesis using that by (auto simp: update_where_def)
qed

lemma update_echoes_row:
  assumes "update_echoes P f db = Some (db', n)" and "e' \<in> set (db_echoes db')"
  obtains e where "e \<in> set (db_echoes db)" and "e' = (if P e then f e else e)"
proof -
  have "e' \<in> set (update_where P f (db_echoes db))"
    using assms by (auto simp: update_echoes_Some)
  then show thesis using that by (auto simp: update_where_def)
qed

definition echo_has_run :: "run_status \<Rightarrow> echo_db \<Rightarrow> echo_row \<Rightarrow> bool" where
  "echo_has_run st db e \<longleftrightarrow> (\<exists>r \<in> set (db_runs db). echo_run_where (e_app_id e) (e_id e) st r)"

lemma count_runs_pos: "0 < count_runs P db \<longleftrightarrow> (\<exists>r \<in> set (db_runs db). P r)"
  by (simp add: count_runs_def affected_pos_iff)

lemma CancelQueuedRuns_done:
  assumes "CancelQueuedRuns lib app at db = (db', Inr ())"
  shows "\<forall>r \<in> set (db_runs db'). r_app_id r = app \<longrightarrow> r_status r \<noteq> Run_Queued"
    and "\<forall>r \<in> set (db_runs db). r_status r \<noteq> Run_Queued \<longrightarrow> r \<in> set (db_runs db')"
    and "\<forall>e \<in> set (db_echoes db'). e_app_id e = app \<longrightarrow> e_status e = Echo_Running \<longrightarrow>
           \<not> echo_has_run Run_Queued db e \<or> echo_has_run Run_Running db e"
proof -
  let ?err = "PublicEcho ''cancelled''"
  obtain db1 n m where e: "update_echoes (cancellable_where app db) (echo_cancelled ?err at) db = Some (db1, n)"
    and w: "write_runs lib (U_Cancel_App app ?err at) db1 = Some (db', m)"
    using assms unfolding CancelQueuedRuns_def Let_def by (auto split: if_splits option.splits)
  have same: "db_runs db1 = db_runs db" "db_echoes db' = db_echoes db1"
    using e w by (auto simp: update_echoes_Some write_runs_Some)
  show "\<forall>r \<in> set (db_runs db'). r_app_id r = app \<longrightarrow> r_status r \<noteq> Run_Queued"
  proof
    fix r assume "r \<in> set (db_runs db')"
    then show "r_app_id r = app \<longrightarrow> r_status r \<noteq> Run_Queued"
      by (rule write_runs_row[OF w]) (auto simp: ended_def)
  qed
  show "\<forall>r \<in> set (db_runs db). r_status r \<noteq> Run_Queued \<longrightarrow> r \<in> set (db_runs db')"
    using w same(1) by (auto simp: write_runs_Some update_where_def image_iff)
  show "\<forall>e \<in> set (db_echoes db'). e_app_id e = app \<longrightarrow> e_status e = Echo_Running \<longrightarrow>
           \<not> echo_has_run Run_Queued db e \<or> echo_has_run Run_Running db e"
  proof
    fix e assume "e \<in> set (db_echoes db')"
    then have "e \<in> set (db_echoes db1)" by (simp add: same)
    then show "e_app_id e = app \<longrightarrow> e_status e = Echo_Running \<longrightarrow>
           \<not> echo_has_run Run_Queued db e \<or> echo_has_run Run_Running db e"
      by (rule update_echoes_row[OF e])
        (auto simp: cancellable_where_def echo_cancelled_def echo_has_run_def count_runs_pos
          count_runs_def affected_0_iff)
  qed
qed

text \<open>Stopping cancels the whole queue: after \<open>CancelQueuedRuns\<close> no Run of the App is queued, the
  Runs that were running are untouched, and every Echo of the App that is still running had no queued Run
  before or has a running one.\<close>

theorem queue_cancelled:
  assumes "CancelQueuedRuns lib app at db = (db', Inr ())"
  shows "(\<forall>r \<in> set (db_runs db'). r_app_id r = app \<longrightarrow> r_status r \<noteq> Run_Queued) \<and>
    (\<forall>r \<in> set (db_runs db). r_status r \<noteq> Run_Queued \<longrightarrow> r \<in> set (db_runs db')) \<and>
    (\<forall>e \<in> set (db_echoes db'). e_app_id e = app \<longrightarrow> e_status e = Echo_Running \<longrightarrow>
       \<not> echo_has_run Run_Queued db e \<or> echo_has_run Run_Running db e)"
  using CancelQueuedRuns_done[OF assms] by blast

section \<open>Reconciliation\<close>

lemma fail_each_rows:
  assumes "fail_each lib app now rs db = Inr db'" and "\<forall>r \<in> set rs. r_status r = Run_Running"
  shows "db_echoes db' = db_echoes db \<and>
    (\<forall>r \<in> set (db_runs db'). (r \<in> set (db_runs db) \<or> r_status r = Run_Failed) \<and>
       (r_app_id r = app \<and> r_status r = Run_Running \<longrightarrow> r_id r \<notin> r_id ` set rs))"
  using assms
proof (induction rs arbitrary: db)
  case (Cons x rs)
  let ?err = "PublicEcho ''recovery_failed''"
  obtain db1 n where w: "write_runs lib (U_Fail app (r_id x) (r_status x) ?err now) db = Some (db1, n)"
    and f: "fail_each lib app now rs db1 = Inr db'"
    using Cons.prems(1) by (auto split: option.splits)
  have IH: "db_echoes db' = db_echoes db1"
      "\<forall>r \<in> set (db_runs db'). (r \<in> set (db_runs db1) \<or> r_status r = Run_Failed) \<and>
         (r_app_id r = app \<and> r_status r = Run_Running \<longrightarrow> r_id r \<notin> r_id ` set rs)"
    using Cons.IH[OF f] Cons.prems(2) by auto
  have row: "(r \<in> set (db_runs db) \<or> r_status r = Run_Failed) \<and>
      (r_app_id r = app \<and> r_status r = Run_Running \<longrightarrow> r_id r \<noteq> r_id x)" if "r \<in> set (db_runs db1)" for r
    using that Cons.prems(2) by (auto elim!: write_runs_row[OF w] simp: ended_def split: if_splits)
  have "db_echoes db1 = db_echoes db" using w by (auto simp: write_runs_Some)
  then show ?case using IH row by fastforce
qed auto

definition open_echoes :: "echo_db \<Rightarrow> (string \<times> string) set" where
  "open_echoes db = echo_key ` {e \<in> set (db_echoes db). e_status e = Echo_Running}"

definition echo_active :: "string \<Rightarrow> string \<Rightarrow> echo_db \<Rightarrow> bool" where
  "echo_active app echo db \<longleftrightarrow>
     (\<exists>r \<in> set (db_runs db). r_app_id r = app \<and> r_echo_id r = echo \<and> run_active (r_status r))"

lemma closing_update:
  assumes "update_echoes (open_echo_where app echo) (echo_ended es out c m at) db = Some (db', n)"
    and "es \<noteq> Echo_Running"
  shows "open_echoes db' = open_echoes db - {(app, echo)}" and "n \<noteq> 0 \<Longrightarrow> (app, echo) \<in> open_echoes db"
proof -
  have db': "db_echoes db' = update_where (open_echo_where app echo) (echo_ended es out c m at) (db_echoes db)"
    and n: "n = affected (open_echo_where app echo) (db_echoes db)"
    using assms(1) by (auto simp: update_echoes_Some)
  have "{e \<in> set (db_echoes db'). e_status e = Echo_Running} =
      {e \<in> set (db_echoes db). e_status e = Echo_Running \<and> echo_key e \<noteq> (app, echo)}"
    using assms(2) by (auto simp: db' set_update_where open_echo_where_def echo_ended_def echo_key_def)
  then show "open_echoes db' = open_echoes db - {(app, echo)}"
    by (auto simp: open_echoes_def)
  show "(app, echo) \<in> open_echoes db" if nz: "n \<noteq> 0"
  proof -
    obtain e where "e \<in> set (db_echoes db)" "open_echo_where app echo e"
      using nz n affected_pos_iff[of "open_echo_where app echo" "db_echoes db"] by auto
    then show ?thesis by (force simp: open_echoes_def open_echo_where_def echo_key_def)
  qed
qed

lemma finalize_Inr:
  assumes "finalizeEchoFromRun app echo at db = Inr db'"
  shows "db_runs db' = db_runs db \<and> open_echoes db' \<subseteq> open_echoes db \<and>
    (echo_active app echo db \<or> ((app, echo) \<in> open_echoes db \<and> (app, echo) \<notin> open_echoes db'))"
proof -
  obtain root where root: "first_by created_order (root_where app echo) db = Some root"
    using assms by (auto simp: finalizeEchoFromRun_def split: option.splits)
  show ?thesis
  proof (cases "count_runs (\<lambda>r. group_where app echo (r_group_id root) r \<and> run_active (r_status r)) db = 0")
    case False
    then obtain r where "r \<in> set (db_runs db)" "group_where app echo (r_group_id root) r" "run_active (r_status r)"
      using count_runs_pos[of "\<lambda>r. group_where app echo (r_group_id root) r \<and> run_active (r_status r)" db] by auto
    then have "echo_active app echo db" by (auto simp: echo_active_def group_where_def)
    moreover have "db' = db" using assms False root by (simp add: finalizeEchoFromRun_def Let_def)
    ultimately show ?thesis by simp
  next
    case True
    then obtain x es c m n where v: "echo_verdict x = Some (es, c, m)"
      and u: "update_echoes (open_echo_where app echo) (echo_ended es (r_result x) c m at) db = Some (db', n)"
      and n: "n = 1"
      using assms root unfolding finalizeEchoFromRun_def Let_def by (auto split: if_splits option.splits)
    have "es \<noteq> Echo_Running"
      using v by (auto simp: echo_verdict_def Let_def split: run_status.splits list.splits)
    note c = closing_update[OF u this]
    have "db_runs db' = db_runs db" using u by (auto simp: update_echoes_Some)
    then show ?thesis using c n by auto
  qed
qed

lemma reconcile_each_Inr:
  assumes "reconcile_each app now seen rs db = Inr db'"
  shows "db_runs db' = db_runs db \<and> open_echoes db' \<subseteq> open_echoes db \<and>
    (\<forall>r \<in> set rs. r_echo_id r \<notin> seen \<longrightarrow>
       echo_active app (r_echo_id r) db \<or>
       ((app, r_echo_id r) \<in> open_echoes db \<and> (app, r_echo_id r) \<notin> open_echoes db'))"
  using assms
proof (induction rs arbitrary: db seen)
  case (Cons x rs)
  show ?case
  proof (cases "r_echo_id x \<in> seen")
    case True
    then show ?thesis using Cons by auto
  next
    case False
    then obtain db1 where f: "finalizeEchoFromRun app (r_echo_id x) now db = Inr db1"
      and r: "reconcile_each app now (insert (r_echo_id x) seen) rs db1 = Inr db'"
      using Cons.prems by (auto split: sum.splits)
    note F = finalize_Inr[OF f] and R = Cons.IH[OF r]
    have active: "echo_active a b db1 = echo_active a b db" for a b
      using F by (simp add: echo_active_def)
    show ?thesis using F R unfolding active by (auto 4 3)
  qed
qed auto

lemma FailAbandonedRuns_Inr:
  assumes "FailAbandonedRuns lib app at db = (db', Inr k)"
  obtains db1 where "fail_each lib app at (abandoned_runs app db) db = Inr db1"
    and "reconcile_each app at {} (abandoned_runs app db) db1 = Inr db'"
    and "k = int (length (abandoned_runs app db))"
  using assms unfolding FailAbandonedRuns_def Let_def
  by (auto simp: and_then_def split: if_splits sum.splits)

lemma FailAbandonedRuns_Inl: "FailAbandonedRuns lib app at db = (db', Inl e) \<Longrightarrow> db' = db"
  unfolding FailAbandonedRuns_def Let_def by (auto split: if_splits sum.splits)

lemma set_abandoned: "set (abandoned_runs app db) = {r \<in> set (db_runs db). r_app_id r = app \<and> r_status r = Run_Running}"
  by (auto simp: abandoned_runs_def)

lemma FailAbandonedRuns_done:
  assumes "FailAbandonedRuns lib app at db = (db', Inr k)"
  shows "\<forall>r \<in> set (db_runs db'). r_app_id r = app \<longrightarrow> r_status r \<noteq> Run_Running"
    and "\<forall>r \<in> set (db_runs db'). r \<in> set (db_runs db) \<or> r_status r = Run_Failed"
    and "\<forall>r \<in> set (db_runs db). r_app_id r = app \<and> r_status r = Run_Running \<longrightarrow>
           (app, r_echo_id r) \<notin> open_echoes db' \<or>
           (\<exists>q \<in> set (db_runs db'). echo_run_where app (r_echo_id r) Run_Queued q)"
    and "k = int (length (filter (\<lambda>r. r_app_id r = app \<and> r_status r = Run_Running) (db_runs db)))"
proof -
  let ?rs = "abandoned_runs app db"
  obtain db1 where f: "fail_each lib app at ?rs db = Inr db1" and r: "reconcile_each app at {} ?rs db1 = Inr db'"
    and k: "k = int (length ?rs)"
    using FailAbandonedRuns_Inr[OF assms] by blast
  have F: "\<forall>r \<in> set (db_runs db1). (r \<in> set (db_runs db) \<or> r_status r = Run_Failed) \<and>
       (r_app_id r = app \<and> r_status r = Run_Running \<longrightarrow> r_id r \<notin> r_id ` set ?rs)"
    using fail_each_rows[OF f] by (auto simp: set_abandoned)
  note R = reconcile_each_Inr[OF r]
  have none: "r_status x \<noteq> Run_Running" if "x \<in> set (db_runs db1)" "r_app_id x = app" for x
    using F that by (auto simp: set_abandoned)
  show "\<forall>r \<in> set (db_runs db'). r_app_id r = app \<longrightarrow> r_status r \<noteq> Run_Running"
    using none R by simp
  show "\<forall>r \<in> set (db_runs db'). r \<in> set (db_runs db) \<or> r_status r = Run_Failed"
    using F R by simp
  show "k = int (length (filter (\<lambda>r. r_app_id r = app \<and> r_status r = Run_Running) (db_runs db)))"
    using k by (simp add: abandoned_runs_def)
  have "echo_active app echo db1 \<Longrightarrow> \<exists>q \<in> set (db_runs db'). echo_run_where app echo Run_Queued q" for echo
    using none R by (fastforce simp: echo_active_def run_active_def echo_run_where_def)
  then show "\<forall>r \<in> set (db_runs db). r_app_id r = app \<and> r_status r = Run_Running \<longrightarrow>
           (app, r_echo_id r) \<notin> open_echoes db' \<or>
           (\<exists>q \<in> set (db_runs db'). echo_run_where app (r_echo_id r) Run_Queued q)"
    using R by (auto simp: set_abandoned)
qed

text \<open>A reconciliation that succeeds leaves nothing running: no Run of the App is running any more, no
  Run was touched but those, and the Echo of every abandoned Run has ended unless it still has a queued
  Run; the count it returns is the number of Runs it failed.\<close>

theorem reconciliation_complete:
  assumes "FailAbandonedRuns lib app at db = (db', Inr k)"
  shows "(\<forall>r \<in> set (db_runs db'). r_app_id r = app \<longrightarrow> r_status r \<noteq> Run_Running) \<and>
    (\<forall>r \<in> set (db_runs db'). r \<in> set (db_runs db) \<or> r_status r = Run_Failed) \<and>
    (\<forall>r \<in> set (db_runs db). r_app_id r = app \<and> r_status r = Run_Running \<longrightarrow>
       (app, r_echo_id r) \<notin> open_echoes db' \<or>
       (\<exists>q \<in> set (db_runs db'). echo_run_where app (r_echo_id r) Run_Queued q)) \<and>
    (k = int (length (filter (\<lambda>r. r_app_id r = app \<and> r_status r = Run_Running) (db_runs db))))"
  using FailAbandonedRuns_done[OF assms] by blast

section \<open>A child that outlives its Echo\<close>

text \<open>C21: a child Run that outlives its Echo blocks recovery for good: when an Echo of the App has ended, has
  no queued Run and still has a running one (a child whose root has completed) at a crash, every
  reconciliation fails and changes nothing, so the next start finds the same state.\<close>

theorem abandoned_child_blocks_recovery:
  assumes "r \<in> set (db_runs db)" and "r_app_id r = app" and "r_status r = Run_Running"
    and "(app, r_echo_id r) \<notin> open_echoes db"
    and "\<forall>q \<in> set (db_runs db). \<not> echo_run_where app (r_echo_id r) Run_Queued q"
  shows "\<exists>e. FailAbandonedRuns lib app at db = (db, Inl e)"
proof (cases "FailAbandonedRuns lib app at db")
  case (Pair db' u)
  show ?thesis
  proof (cases u)
    case (Inl e)
    then show ?thesis using Pair FailAbandonedRuns_Inl by blast
  next
    case (Inr k)
    let ?rs = "abandoned_runs app db"
    obtain db1 where f: "fail_each lib app at ?rs db = Inr db1" and rc: "reconcile_each app at {} ?rs db1 = Inr db'"
      using FailAbandonedRuns_Inr[OF Pair[unfolded Inr]] by blast
    have F: "db_echoes db1 = db_echoes db" "\<forall>r \<in> set (db_runs db1). (r \<in> set (db_runs db) \<or> r_status r = Run_Failed) \<and>
       (r_app_id r = app \<and> r_status r = Run_Running \<longrightarrow> r_id r \<notin> r_id ` set ?rs)"
      using fail_each_rows[OF f] by (auto simp: set_abandoned)
    have "\<not> echo_active app (r_echo_id r) db1"
      using F(2) assms(5) by (fastforce simp: echo_active_def run_active_def echo_run_where_def set_abandoned)
    moreover have "(app, r_echo_id r) \<notin> open_echoes db1"
      using assms(4) F(1) by (simp add: open_echoes_def)
    moreover have "r \<in> set ?rs" using assms by (simp add: set_abandoned)
    ultimately show ?thesis using reconcile_each_Inr[OF rc] by blast
  qed
qed

definition sample_child :: run_record where
  "sample_child = (sample_run ''echo-1'' ''run-2'')\<lparr>r_parent_id := ''run-1'', r_origin_call_id := ''call-1''\<rparr>"

definition child_row :: run_row where
  "child_row = run_row_of sample_child ''[]''"

definition claimed_child_row :: run_row where
  "claimed_child_row =
     run_set (U_Claim (''app'', ''run-2'', ''echo-1'') ''token-c'' (4 * second) (19 * second)) child_row"

definition db_orphaned :: echo_db where
  "db_orphaned = db_completed\<lparr>db_runs := [completed_row, claimed_child_row]\<rparr>"

lemma child_sel:
  "r_app_id child_row = ''app''" "r_echo_id child_row = ''echo-1''" "r_id child_row = ''run-2''"
  "r_status child_row = Run_Queued" "run_ref_of child_row = (''app'', ''run-2'', ''echo-1'')"
  "r_parent_id child_row = Some ''run-1''" "r_available_at child_row = second"
  by (simp_all add: child_row_def run_row_of_def sample_child_def sample_run_def run_ref_of_def)

lemma child_rows_check: "run_row_check sample_run_lib child_row \<and> run_budget_ok child_row"
  "run_row_check sample_run_lib claimed_child_row \<and> run_budget_ok claimed_child_row"
  by (simp_all add: claimed_child_row_def child_row_def run_row_check_def run_budget_ok_def run_row_of_def
      sample_child_def sample_run_def sample_run_lib_def millisecond_driver_def no_output_def code_def)

lemma orphan_not_open: "open_echoes db_orphaned = {}"
  by (simp add: open_echoes_def db_orphaned_def db_completed_def echo_ended_def)

theorem abandoned_child_blocks_recovery_witness:
  "\<exists>e. FailAbandonedRuns sample_run_lib ''app'' (100 * second) db_orphaned = (db_orphaned, Inl e)"
proof (rule abandoned_child_blocks_recovery[of claimed_child_row])
  have runs: "db_runs db_orphaned = [completed_row, claimed_child_row]"
    by (simp add: db_orphaned_def)
  then show "claimed_child_row \<in> set (db_runs db_orphaned)" by simp
  show "r_app_id claimed_child_row = ''app''" "r_status claimed_child_row = Run_Running"
    by (simp_all add: claimed_child_row_def child_sel)
  show "(''app'', r_echo_id claimed_child_row) \<notin> open_echoes db_orphaned"
    by (simp add: orphan_not_open)
  show "\<forall>q \<in> set (db_runs db_orphaned). \<not> echo_run_where ''app'' (r_echo_id claimed_child_row) Run_Queued q"
    by (simp add: runs echo_run_where_def completed_row_def claimed_child_row_def ended_def)
qed

text \<open>The state of the witness is one the store reaches: the child is created and claimed while the root
  runs, and then the root completes.\<close>

definition db_with_child :: echo_db where
  "db_with_child = db_claimed\<lparr>db_runs := [claimed_row, child_row]\<rparr>"

lemma create_child_ok:
  "CreateChildRun sample_run_lib (3 * second) claimed_run sample_child 4 db_claimed = (db_with_child, Inr ())"
proof -
  have v: "validateNewRun e sample_child = Inr ()"
    if "e_app_id e = ''app''" "e_id e = ''echo-1''" for e :: echo_record
    using that run_sample_ids json_valid_samples plain_text
    by (simp add: validateNewRun_Inr new_run_bounds_def new_run_fresh_def new_run_inputs_def sample_child_def
        validCanonicalGrants_def no_output_def sample_run_def duration_defs Version_def)
      (simp add: stable_mixed_def char_class_defs mixed_tail_def)
  have sel: "r_app_id sample_child = ''app''" "r_echo_id sample_child = ''echo-1''"
    "r_parent_id sample_child = ''run-1''" "r_origin_call_id sample_child = ''call-1''"
    by (simp_all add: sample_child_def sample_run_def)
  have echo: "find_echo (''app'', ''echo-1'') db_claimed = Some (echo_row_of (sample_echo ''echo-1''))"
    "e_status (echo_row_of (sample_echo ''echo-1'')) = Echo_Running"
    by (simp_all add: find_echo_def select_key_def db_claimed_def db_created_def sample_keys)
      (simp add: echo_row_of_def sample_echo_def)
  have parent: "parent_holds sample_run_lib (3 * second) claimed_run claimed_row"
    by (simp add: parent_holds_def claimed_run_sel)
      (simp add: claimed_row_def run_row_of_def sample_run_def sample_run_lib_def millisecond_driver_def duration_defs)
  have keys: "run_key claimed_row = (''app'', ''run-1'')" "run_key child_row = (''app'', ''run-2'')"
    "group_key child_row \<noteq> group_key claimed_row" "origin_key claimed_row = None" "r_parent_id claimed_row = None"
    by (simp_all add: run_key_def group_key_def origin_key_def claimed_row_def child_row_def run_row_of_def
        sample_child_def sample_run_def)
  have "insert_run_row sample_run_lib child_row db_claimed = Some db_with_child"
    using child_rows_check keys echo
    by (simp add: insert_run_row_def find_run_def select_key_def db_claimed_def child_sel db_with_child_def
        origin_key_def)
  then show ?thesis
    using v sel echo parent keys
    by (simp add: CreateChildRun_def claimed_run_sel insertChildRunGuarded_def child_row_def[symmetric]
        count_runs_def affected_def child_where_def db_claimed_def[THEN arg_cong[of _ _ db_runs]]
        sample_run_lib_def[THEN arg_cong[of _ _ rl_marshal]])
qed

lemma claim_child_ok:
  "ClaimRun sample_run_lib ''app'' ''echo-1'' ''run-2'' ''token-c'' (4 * second) (19 * second) db_with_child =
     (db_claimed\<lparr>db_runs := [claimed_row, claimed_child_row]\<rparr>,
      Inr ((stored_sources sample_child)\<lparr>r_status := Run_Running, r_lease_token := ''token-c'',
        r_started_at := Some (4 * second), r_lease_expires := Some (19 * second)\<rparr>))"
proof -
  let ?ref = "(''app'', ''run-2'', ''echo-1'')"
  have q: "queryRun sample_run_lib child_row = Inr (stored_sources sample_child)"
    by (simp add: queryRun_def child_row_def run_row_of_def sample_child_def sample_run_def sample_run_lib_def
        text_of_def message_of_def stored_sources_def no_output_def validCanonicalGrants_def)
  have id: "r_id (stored_sources sample_child) = ''run-2''"
    by (simp add: stored_sources_def sample_child_def sample_run_def)
  have c: "claimable_where sample_run_lib ?ref (4 * second) child_row"
    "\<not> claimable_where sample_run_lib ?ref (4 * second) claimed_row"
    by (simp_all add: claimable_where_def child_sel claimed_run_sel sample_run_lib_def millisecond_driver_def
        duration_defs)
  have w: "write_runs sample_run_lib (U_Claim ?ref ''token-c'' (4 * second) (19 * second)) db_with_child =
      Some (db_claimed\<lparr>db_runs := [claimed_row, claimed_child_row]\<rparr>, 1)"
    using child_rows_check(2)
    by (simp add: write_runs_Some db_with_child_def claimed_child_row_def affected_def update_where_def child_sel
        claimed_run_sel)
  have runs: "db_runs db_with_child = [claimed_row, child_row]" by (simp add: db_with_child_def)
  show ?thesis
    unfolding ClaimRun_def using c w by (simp add: runs q id)
qed

lemma complete_root_ok:
  "complete_sample (db_claimed\<lparr>db_runs := [claimed_row, claimed_child_row]\<rparr>) = (db_orphaned, Inr ())"
proof -
  let ?db = "db_claimed\<lparr>db_runs := [claimed_row, claimed_child_row]\<rparr>"
  let ?w = "U_Complete (run_ref_of claimed_run) ''token-a'' Run_Succeeded sample_output no_error (3 * second)"
  let ?out = "echo_ended Echo_Succeeded sample_output [] No_Message (3 * second)"
  have "run_ref_of claimed_child_row = (''app'', ''run-2'', ''echo-1'')"
    by (simp add: claimed_child_row_def run_ref_of_def child_sel)
  moreover have "run_row_check sample_run_lib completed_row \<and> run_budget_ok completed_row"
    using claimed_row_check
    by (simp add: completed_row_def run_row_check_def run_budget_ok_def ended_def give_up_lease_def
        sample_output_def code_def split: option.splits)
  ultimately have w: "write_runs sample_run_lib ?w ?db = Some (db_claimed\<lparr>db_runs := [completed_row, claimed_child_row]\<rparr>, 1)"
    by (simp add: write_runs_Some db_claimed_def completed_row_def affected_def update_where_def
        holds_lease_def claimed_run_sel)
  have e: "update_echoes (open_echo_where ''app'' ''echo-1'') ?out
      (db_claimed\<lparr>db_runs := [completed_row, claimed_child_row]\<rparr>) = Some (db_orphaned, 1)"
    by (simp add: update_echoes_Some db_claimed_def db_created_def db_orphaned_def db_completed_def affected_def
        update_where_def open_echo_where_def echo_row_of_def sample_echo_def echo_row_check_def echo_ended_def
        sample_output_def code_def)
  show ?thesis
    unfolding complete_sample_def CompleteRun_def Let_def
    using w e by (simp add: validateCompletion_def claimed_run_sel recorded_failure_def recorded_output_def
        sample_output_def no_error_def)
qed

lemma db_orphaned_reachable: "(run_step sample_run_lib)\<^sup>*\<^sup>* empty_db db_orphaned"
proof -
  have "run_step sample_run_lib db_claimed db_with_child"
    using create_child_ok by (rule run_step.create_child)
  moreover have "run_step sample_run_lib db_with_child (db_claimed\<lparr>db_runs := [claimed_row, claimed_child_row]\<rparr>)"
    using claim_child_ok by (rule run_step.claim)
  moreover have "run_step sample_run_lib (db_claimed\<lparr>db_runs := [claimed_row, claimed_child_row]\<rparr>) db_orphaned"
    using complete_root_ok unfolding complete_sample_def by (rule run_step.complete)
  ultimately show ?thesis
    using db_created_step db_claimed_step by (meson converse_rtranclp_into_rtranclp rtranclp.rtrancl_refl)
qed

section \<open>A child is never retried\<close>

text \<open>The retry of a child inserts a second row with the parent and call of the first, which
  \<open>UNIQUE(app_id,parent_run_id,origin_call_id)\<close> forbids.\<close>

lemma child_retry_refused:
  assumes "find_run (run_key cur) db = Some row" and "r_parent_id row = Some p" and "p \<noteq> []"
    and "r_parent_id nxt = p" and "r_origin_call_id nxt = r_origin_call_id row"
  shows "\<exists>e. RetryRun lib cur nxt failure at db = (db, Inl e)"
proof (cases "RetryRun lib cur nxt failure at db")
  case (Pair db' u)
  then show ?thesis
  proof (cases rule: RetryRun_cases)
    case (retried e db1)
    let ?w = "U_Retry (run_ref_of cur) (r_lease_token cur) (PublicEcho (pe_code failure)) at"
    obtain g where i: "insert_run_row lib (run_row_of nxt g) db1 = Some db'"
      using retried(8) by (auto simp: insertRun_def split: sum.splits option.splits)
    have "r_app_id row = r_app_id cur"
      using assms(1) by (auto simp: find_run_def run_key_def dest: select_keyD)
    obtain row' where "find_run (run_key cur) db1 = Some row'" and frozen: "run_frozen row' = run_frozen row"
      using run_atom_evolves[OF run_atom.runs[OF retried(7)] assms(1)] by (auto simp: run_evolves_def)
    then have row': "row' \<in> set (db_runs db1)" "run_frozen row' = run_frozen row"
      by (auto simp: find_run_def dest: select_keyD)
    have "origin_key row' = Some (r_app_id cur, p, r_origin_call_id row)"
      using run_frozen_eqD(3)[OF row'(2)] assms(2) \<open>r_app_id row = r_app_id cur\<close> by (simp add: origin_key_def)
    moreover have "origin_key (run_row_of nxt g) = Some (r_app_id cur, p, r_origin_call_id row)"
      using assms(3-5) retried(5) by (simp add: origin_key_def run_row_of_def)
    ultimately have "origin_key (run_row_of nxt g) \<in> set (map origin_key (db_runs db1))"
      using row'(1) by (metis image_eqI set_map)
    moreover have "origin_key (run_row_of nxt g) \<noteq> None"
      using assms(3,4) by (simp add: origin_key_def run_row_of_def)
    ultimately show ?thesis using i by (auto simp: insert_run_row_def split: if_splits)
  qed (use Pair in auto)
qed

theorem queue_cancelled_witness:
  "\<exists>db'. CancelQueuedRuns sample_run_lib ''app'' (4 * second) db_with_child = (db', Inr ()) \<and>
         (\<forall>r \<in> set (db_runs db'). r_app_id r = ''app'' \<longrightarrow> r_status r \<noteq> Run_Queued)"
proof -
  let ?err = "PublicEcho ''cancelled''"
  have e: "\<not> cancellable_where ''app'' db_with_child (echo_row_of (sample_echo ''echo-1''))"
    by (simp add: cancellable_where_def count_runs_def affected_def db_with_child_def echo_run_where_def
        claimed_run_sel) (simp add: claimed_row_def run_row_of_def sample_run_def echo_row_of_def sample_echo_def)
  have echoes: "db_echoes db_with_child = [echo_row_of (sample_echo ''echo-1'')]"
    by (simp add: db_with_child_def db_claimed_def db_created_def)
  have "update_echoes (cancellable_where ''app'' db_with_child) (echo_cancelled ?err (4 * second)) db_with_child =
      Some (db_with_child, 0)"
    using e by (simp add: update_echoes_Some echoes affected_def update_where_def)
  moreover have "\<exists>db' n. write_runs sample_run_lib (U_Cancel_App ''app'' ?err (4 * second)) db_with_child = Some (db', n)"
    using child_rows_check(1)
    by (simp add: write_runs_Some db_with_child_def claimed_run_sel child_sel ended_def run_row_check_def
        run_budget_ok_def split: option.splits)
  ultimately obtain db' where "CancelQueuedRuns sample_run_lib ''app'' (4 * second) db_with_child = (db', Inr ())"
    by (auto simp: CancelQueuedRuns_def Let_def)
  then show ?thesis using queue_cancelled by blast
qed

theorem reconciliation_complete_witness:
  "\<exists>db' k. FailAbandonedRuns sample_run_lib ''app'' (20 * second) db_claimed = (db', Inr k) \<and> k = 1 \<and>
         (\<forall>r \<in> set (db_runs db'). r_app_id r = ''app'' \<longrightarrow> r_status r \<noteq> Run_Running)"
proof -
  let ?err = "PublicEcho ''recovery_failed''"
  let ?row = "run_set (U_Fail ''app'' ''run-1'' Run_Running ?err (20 * second)) claimed_row"
  have sel: "r_app_id claimed_row = ''app''" "r_id claimed_row = ''run-1''" "r_echo_id claimed_row = ''echo-1''"
    "r_parent_id claimed_row = None" "r_group_id claimed_row = ''run-1''"
    by (simp_all add: claimed_row_def run_row_of_def sample_run_def)
  have rs: "abandoned_runs ''app'' db_claimed = [claimed_row]"
    by (simp add: abandoned_runs_def db_claimed_def sel claimed_run_sel)
  have w: "write_runs sample_run_lib (U_Fail ''app'' ''run-1'' Run_Running ?err (20 * second)) db_claimed =
      Some (db_claimed\<lparr>db_runs := [?row]\<rparr>, 1)"
    using claimed_row_check
    by (simp add: write_runs_Some db_claimed_def affected_def update_where_def sel claimed_run_sel ended_def
        give_up_lease_def run_row_check_def run_budget_ok_def no_output_def split: option.splits)
  have row: "r_app_id ?row = ''app''" "r_echo_id ?row = ''echo-1''" "r_parent_id ?row = None"
    "r_group_id ?row = ''run-1''" "r_status ?row = Run_Failed" "r_result ?row = no_output"
    by (simp_all add: sel ended_def give_up_lease_def)
  have "\<exists>db'. finalizeEchoFromRun ''app'' ''echo-1'' (20 * second) (db_claimed\<lparr>db_runs := [?row]\<rparr>) = Inr db'"
    using row
    by (simp add: finalizeEchoFromRun_def first_by_def root_where_def Let_def count_runs_def affected_def
        run_active_def group_where_def echo_verdict_def update_echoes_def exec_update_def db_claimed_def
        db_created_def open_echo_where_def echo_row_of_def sample_echo_def echo_ended_def echo_row_check_def
        no_output_def del: run_set.simps)
  then obtain db' where "FailAbandonedRuns sample_run_lib ''app'' (20 * second) db_claimed = (db', Inr 1)"
    using w by (auto simp: FailAbandonedRuns_def Let_def rs sel claimed_run_sel simp del: run_set.simps)
  then show ?thesis using reconciliation_complete by blast
qed

end
