(* ===== verification/Cap_Registry.thy ===== *)
theory Cap_Registry
  imports Capability
begin

text \<open>
  \<open>internal/kernel/registry/registry.go\<close>: the registry of capabilities, published in batches. The map is
  the list of its entries with distinct ids. A handler is of any type \<open>'h\<close>, a compiled schema of
  any type \<open>'c\<close>; the version parser (a third-party library behind \<open>packagecontract\<close>) and the schema
  compiler and validator of package \<open>strictschema\<close> are parameters.
\<close>

section \<open>Data\<close>

record 'h registration =
  rg_spec :: capability_spec
  rg_handler :: "'h option"

record ('h, 'c) registered =
  rd_spec :: capability_spec
  rd_handler :: 'h
  rd_schema :: 'c

type_synonym ('h, 'c) registry = "('h, 'c) registered list"

definition NewRegistry :: "('h, 'c) registry" where
  "NewRegistry = []"

definition entry_id :: "('h, 'c) registered \<Rightarrow> string" where
  "entry_id e = cs_id (rd_spec e)"

definition lookup_entry :: "('h, 'c) registry \<Rightarrow> string \<Rightarrow> ('h, 'c) registered option" where
  "lookup_entry reg i = find (\<lambda>e. entry_id e = i) reg"

abbreviation reg_error :: "registry_error \<Rightarrow> go_error + 'a" where
  "reg_error e \<equiv> Inl (Wrapped (Sentinel (Registry_E e)))"

section \<open>Operations\<close>

definition validateCapabilitySpec :: "(string \<Rightarrow> bool) \<Rightarrow> capability_spec \<Rightarrow> 'h option \<Rightarrow> unit go_result" where
  "validateCapabilitySpec valid_version spec handler =
     (if \<not> is_stable_id (cs_id spec) then reg_error Reg_InvalidSpec
      else if \<not> valid_version (cs_version spec) then reg_error Reg_InvalidSpec
      else if handler = None then reg_error Reg_InvalidSpec
      else if ValidateAuthorizationSpec (cs_authorization spec) \<noteq> Inr () then reg_error Reg_InvalidSpec
      else if ValidateExecutionSpec (cs_execution spec) \<noteq> Inr () then reg_error Reg_InvalidSpec
      else Inr ())"

text \<open>The first loop of \<open>RegisterBatch\<close>; \<open>seen\<close> holds the ids of the batch so far.\<close>

fun prepare_batch ::
  "(string \<Rightarrow> bool) \<Rightarrow> (string \<Rightarrow> string \<Rightarrow> 'c go_result) \<Rightarrow> string list \<Rightarrow> 'h registration list
     \<Rightarrow> ('h, 'c) registered list go_result" where
  "prepare_batch valid_version compile seen [] = Inr []"
| "prepare_batch valid_version compile seen (r # rs) =
     (case validateCapabilitySpec valid_version (rg_spec r) (rg_handler r) of
        Inl e \<Rightarrow> Inl e
      | Inr _ \<Rightarrow>
        if cs_id (rg_spec r) \<in> set seen then reg_error Reg_DuplicateID
        else (case compile (''capability.'' @ cs_id (rg_spec r)) (cs_input_schema (rg_spec r)) of
                Inl _ \<Rightarrow> reg_error Reg_InvalidSpec
              | Inr schema \<Rightarrow>
                  (case prepare_batch valid_version compile (cs_id (rg_spec r) # seen) rs of
                     Inl e \<Rightarrow> Inl e
                   | Inr prepared \<Rightarrow>
                       Inr (\<lparr>rd_spec = rg_spec r, rd_handler = the (rg_handler r), rd_schema = schema\<rparr>
                              # prepared))))"

definition RegisterBatch ::
  "(string \<Rightarrow> bool) \<Rightarrow> (string \<Rightarrow> string \<Rightarrow> 'c go_result) \<Rightarrow> 'h registration list \<Rightarrow> ('h, 'c) registry
     \<Rightarrow> ('h, 'c) registry \<times> unit go_result" where
  "RegisterBatch valid_version compile rs reg =
     (if length rs = 0 then (reg, Inl (Sentinel (Registry_E Reg_InvalidSpec)))
      else case prepare_batch valid_version compile [] rs of
        Inl e \<Rightarrow> (reg, Inl e)
      | Inr prepared \<Rightarrow>
          if list_ex (\<lambda>e. lookup_entry reg (entry_id e) \<noteq> None) prepared
          then (reg, reg_error Reg_DuplicateID)
          else (reg @ prepared, Inr ()))"

definition Register ::
  "(string \<Rightarrow> bool) \<Rightarrow> (string \<Rightarrow> string \<Rightarrow> 'c go_result) \<Rightarrow> 'h registration \<Rightarrow> ('h, 'c) registry
     \<Rightarrow> ('h, 'c) registry \<times> unit go_result" where
  "Register valid_version compile r reg = RegisterBatch valid_version compile [r] reg"

definition ResolveCapability :: "('h, 'c) registry \<Rightarrow> string \<Rightarrow> (capability_spec \<times> 'h) go_result" where
  "ResolveCapability reg i =
     (case lookup_entry reg i of
        None \<Rightarrow> reg_error Reg_CapabilityNotFound
      | Some e \<Rightarrow> Inr (rd_spec e, rd_handler e))"

definition validatePayload :: "('c \<Rightarrow> string \<Rightarrow> unit go_result) \<Rightarrow> 'c \<Rightarrow> string \<Rightarrow> unit go_result" where
  "validatePayload validate schema payload =
     (case validate schema payload of
        Inl _ \<Rightarrow> Inl (Sentinel (Registry_E Reg_SchemaValidation))
      | Inr _ \<Rightarrow> Inr ())"

definition ValidateCapabilityInput ::
  "('c \<Rightarrow> string \<Rightarrow> unit go_result) \<Rightarrow> ('h, 'c) registry \<Rightarrow> string \<Rightarrow> string \<Rightarrow> unit go_result" where
  "ValidateCapabilityInput validate reg i payload =
     (case lookup_entry reg i of
        None \<Rightarrow> reg_error Reg_CapabilityNotFound
      | Some e \<Rightarrow> validatePayload validate (rd_schema e) payload)"

definition Capabilities :: "('h, 'c) registry \<Rightarrow> capability_spec list" where
  "Capabilities reg = sort_key cs_id (map rd_spec reg)"

section \<open>The invariant\<close>

definition entry_ok :: "(string \<Rightarrow> bool) \<Rightarrow> (string \<Rightarrow> string \<Rightarrow> 'c go_result) \<Rightarrow> ('h, 'c) registered \<Rightarrow> bool" where
  "entry_ok valid_version compile e \<longleftrightarrow>
     is_stable_id (entry_id e) \<and> valid_version (cs_version (rd_spec e)) \<and>
     ValidateAuthorizationSpec (cs_authorization (rd_spec e)) = Inr () \<and>
     ValidateExecutionSpec (cs_execution (rd_spec e)) = Inr () \<and>
     compile (''capability.'' @ entry_id e) (cs_input_schema (rd_spec e)) = Inr (rd_schema e)"

definition capability_registry_ok ::
  "(string \<Rightarrow> bool) \<Rightarrow> (string \<Rightarrow> string \<Rightarrow> 'c go_result) \<Rightarrow> ('h, 'c) registry \<Rightarrow> bool" where
  "capability_registry_ok valid_version compile reg \<longleftrightarrow>
     distinct (map entry_id reg) \<and> list_all (entry_ok valid_version compile) reg"

lemma lookup_entry_Some:
  "distinct (map entry_id reg) \<Longrightarrow> lookup_entry reg i = Some e \<longleftrightarrow> e \<in> set reg \<and> entry_id e = i"
  unfolding lookup_entry_def by (induction reg) (auto simp: image_iff)

lemma lookup_entry_None: "lookup_entry reg i = None \<longleftrightarrow> i \<notin> entry_id ` set reg"
  unfolding lookup_entry_def by (auto simp: find_None_iff)

lemma prepare_batch_ok:
  "prepare_batch valid_version compile seen rs = Inr prepared \<Longrightarrow>
     distinct (map entry_id prepared) \<and> set (map entry_id prepared) \<inter> set seen = {} \<and>
     list_all (entry_ok valid_version compile) prepared \<and>
     list_all2 (\<lambda>r e. rd_spec e = rg_spec r \<and> rg_handler r = Some (rd_handler e)) rs prepared"
proof (induction rs arbitrary: seen prepared)
  case (Cons r rs)
  from Cons.prems obtain schema rest where
    v: "validateCapabilitySpec valid_version (rg_spec r) (rg_handler r) = Inr ()"
    and n: "cs_id (rg_spec r) \<notin> set seen"
    and c: "compile (''capability.'' @ cs_id (rg_spec r)) (cs_input_schema (rg_spec r)) = Inr schema"
    and rest: "prepare_batch valid_version compile (cs_id (rg_spec r) # seen) rs = Inr rest"
    and p: "prepared = \<lparr>rd_spec = rg_spec r, rd_handler = the (rg_handler r), rd_schema = schema\<rparr> # rest"
    by (auto split: sum.splits if_splits)
  have "rg_handler r \<noteq> None"
    "entry_ok valid_version compile \<lparr>rd_spec = rg_spec r, rd_handler = the (rg_handler r), rd_schema = schema\<rparr>"
    using v c by (auto simp: validateCapabilitySpec_def entry_ok_def entry_id_def split: if_splits)
  then show ?case
    using Cons.IH[OF rest] p n by (auto simp: entry_id_def)
qed simp

text \<open>A batch is published as a whole or not at all.\<close>

lemma RegisterBatch_cases:
  assumes "RegisterBatch valid_version compile rs reg = (reg', r)"
  obtains (refused) e where "r = Inl e" and "reg' = reg"
  | (published) prepared where "r = Inr ()" and "reg' = reg @ prepared" and "rs \<noteq> []"
      and "prepare_batch valid_version compile [] rs = Inr prepared"
      and "\<And>e. e \<in> set prepared \<Longrightarrow> lookup_entry reg (entry_id e) = None"
proof (cases r)
  case (Inl e)
  moreover have "reg' = reg"
    using assms Inl by (auto simp: RegisterBatch_def split: if_splits sum.splits)
  ultimately show thesis using refused by blast
next
  case (Inr u)
  then obtain prepared where "prepare_batch valid_version compile [] rs = Inr prepared" "rs \<noteq> []"
    "\<not> list_ex (\<lambda>e. lookup_entry reg (entry_id e) \<noteq> None) prepared" "reg' = reg @ prepared"
    using assms by (auto simp: RegisterBatch_def split: if_splits sum.splits)
  then show thesis using published Inr by (auto simp: list_ex_iff)
qed

lemma RegisterBatch_ok:
  assumes "RegisterBatch valid_version compile rs reg = (reg', r)" and "capability_registry_ok valid_version compile reg"
  shows "capability_registry_ok valid_version compile reg'"
  using assms(1)
proof (cases rule: RegisterBatch_cases)
  case (published prepared)
  from published(4) have "distinct (map entry_id prepared)" "list_all (entry_ok valid_version compile) prepared"
    using prepare_batch_ok by blast+
  moreover have "entry_id ` set reg \<inter> entry_id ` set prepared = {}"
    using published(5) lookup_entry_None by fastforce
  ultimately show ?thesis
    using assms(2) published(2) by (simp add: capability_registry_ok_def)
qed (use assms in simp)

lemma distinct_sort_key: "distinct (map f xs) \<Longrightarrow> distinct (map f (sort_key k xs))"
  by (simp add: distinct_map)

text \<open>Registration is atomic and never overwrites: a batch either leaves the registry as it was, or
  makes every capability of the batch resolvable to its own specification and handler while all others
  resolve as before; the registry keeps distinct ids, valid specifications and schemas compiled from
  them, and lists every capability once, in strictly increasing order of id.\<close>

theorem register_batch_atomic:
  assumes "RegisterBatch valid_version compile rs reg = (reg', res)"
    and "capability_registry_ok valid_version compile reg"
  shows "capability_registry_ok valid_version compile reg' \<and>
    (case res of
       Inl _ \<Rightarrow> reg' = reg
     | Inr _ \<Rightarrow>
         (\<forall>r \<in> set rs. \<exists>h. rg_handler r = Some h \<and> ResolveCapability reg' (cs_id (rg_spec r)) = Inr (rg_spec r, h) \<and>
            ResolveCapability reg (cs_id (rg_spec r)) = reg_error Reg_CapabilityNotFound) \<and>
         (\<forall>i. i \<notin> cs_id ` rg_spec ` set rs \<longrightarrow> ResolveCapability reg' i = ResolveCapability reg i)) \<and>
    strictly_increasing cs_id (Capabilities reg') \<and> set (Capabilities reg') = rd_spec ` set reg'"
proof -
  have ok: "capability_registry_ok valid_version compile reg'"
    using RegisterBatch_ok[OF assms] .
  then have d: "distinct (map entry_id reg')"
    by (simp add: capability_registry_ok_def)
  then have "distinct (map cs_id (map rd_spec reg'))"
    by (simp add: entry_id_def[abs_def] comp_def)
  then have "distinct (map cs_id (Capabilities reg'))"
    unfolding Capabilities_def by (rule distinct_sort_key)
  then have list: "strictly_increasing cs_id (Capabilities reg') \<and> set (Capabilities reg') = rd_spec ` set reg'"
    by (intro conjI sorted_strict_if_distinct) (simp_all add: Capabilities_def)
  show ?thesis
    using assms(1)
  proof (cases rule: RegisterBatch_cases)
    case refused
    then show ?thesis using ok list by simp
  next
    case (published prepared)
    have all2: "list_all2 (\<lambda>r e. rd_spec e = rg_spec r \<and> rg_handler r = Some (rd_handler e)) rs prepared"
      using prepare_batch_ok[OF published(4)] by simp
    have each: "\<exists>e \<in> set prepared. rd_spec e = rg_spec r \<and> rg_handler r = Some (rd_handler e)" if "r \<in> set rs" for r
      using all2 that by (induction rule: list_all2_induct) auto
    have origin: "\<exists>r \<in> set rs. rd_spec e = rg_spec r" if "e \<in> set prepared" for e
      using all2 that by (induction rule: list_all2_induct) auto
    have new: "\<exists>h. rg_handler r = Some h \<and> ResolveCapability reg' (cs_id (rg_spec r)) = Inr (rg_spec r, h) \<and>
        ResolveCapability reg (cs_id (rg_spec r)) = reg_error Reg_CapabilityNotFound" if "r \<in> set rs" for r
    proof -
      obtain e where e: "e \<in> set prepared" "rd_spec e = rg_spec r" "rg_handler r = Some (rd_handler e)"
        using each[OF \<open>r \<in> set rs\<close>] by blast
      then have "lookup_entry reg' (cs_id (rg_spec r)) = Some e" "lookup_entry reg (cs_id (rg_spec r)) = None"
        using d published(2) published(5)[OF e(1)] e by (simp_all add: lookup_entry_Some entry_id_def)
      then show ?thesis using e by (simp add: ResolveCapability_def)
    qed
    have old: "ResolveCapability reg' i = ResolveCapability reg i" if "i \<notin> cs_id ` rg_spec ` set rs" for i
    proof -
      have "find (\<lambda>e. entry_id e = i) prepared = None"
        using that origin by (fastforce simp: find_None_iff entry_id_def)
      then have "lookup_entry reg' i = lookup_entry reg i"
        unfolding lookup_entry_def published(2) by (induction reg) auto
      then show ?thesis by (simp add: ResolveCapability_def)
    qed
    show ?thesis using ok list published(1) new old by simp
  qed
qed

definition sample_capability :: capability_spec where
  "sample_capability =
     \<lparr>cs_id = ''note.write'', cs_version = ''1.0.0'', cs_name = ''n'', cs_description = ''d'', cs_input_schema = ''{}'',
      cs_authorization = \<lparr>as_resource_type = ''note'', as_resource_id_from = ''/id'', as_principal = ''current_user''\<rparr>,
      cs_execution = \<lparr>es_effect_target = ''external'', es_replay = ''never'', es_confirmation_floor = ''required''\<rparr>\<rparr>"

lemma sample_batch:
  "RegisterBatch (\<lambda>_. True) (\<lambda>_ _. Inr ()) [\<lparr>rg_spec = sample_capability, rg_handler = Some h\<rparr>] [] =
     ([\<lparr>rd_spec = sample_capability, rd_handler = h, rd_schema = ()\<rparr>], Inr ())"
proof -
  have "is_stable_id ''note.write''" "is_stable_id ''note''"
    by code_simp+
  then have "validateCapabilitySpec (\<lambda>_. True) sample_capability (Some h) = Inr ()"
    by (simp add: validateCapabilitySpec_def sample_capability_def ValidateAuthorizationSpec_def
        ValidateExecutionSpec_def capability_names)
  then show ?thesis
    by (simp add: RegisterBatch_def lookup_entry_def)
qed

theorem register_batch_atomic_witness:
  "\<exists>h. ResolveCapability [\<lparr>rd_spec = sample_capability, rd_handler = (), rd_schema = ()\<rparr>] ''note.write'' =
     Inr (sample_capability, h)"
proof -
  have "capability_registry_ok (\<lambda>_. True) (\<lambda>_ _. Inr ()) ([] :: (unit, unit) registry)"
    by (simp add: capability_registry_ok_def)
  from register_batch_atomic[OF sample_batch this] show ?thesis
    by (auto simp: sample_capability_def)
qed

end
