(* ===== verification/App_Config.thy ===== *)
theory App_Config
  imports Capability Go_Json Idempotency
begin

text \<open>
  \<open>internal/kernel/appconfig/appconfig.go\<close>: the configuration of an App, its normal form and revision,
  verification, and the policy snapshot the dispatcher decides by. \<open>json.Marshal\<close> of the revision
  input and SHA-256 are parameters.
\<close>

section \<open>Data\<close>

record app_config =
  ac_app_id :: string
  ac_revision :: string
  ac_generation :: u64
  ac_enabled :: bool
  ac_executor_id :: string
  ac_executor_config :: string
  ac_max_steps :: u32
  ac_max_capability_calls :: u32
  ac_max_execution_units :: u64
  ac_max_output_bytes :: u64
  ac_max_cost :: u64
  ac_execution_timeout :: duration
  ac_grants :: "grant list"
  ac_created_at :: instant
  ac_updated_at :: instant

record policy_snapshot =
  ps_app_id :: string
  ps_revision :: string
  ps_generation :: u64
  ps_enabled :: bool
  ps_grants :: "grant list"

record revision_input =
  ri_app_id :: string
  ri_enabled :: bool
  ri_executor_id :: string
  ri_executor_config :: string
  ri_max_steps :: u32
  ri_max_capability_calls :: u32
  ri_max_execution_units :: u64
  ri_max_output_bytes :: u64
  ri_max_cost :: u64
  ri_execution_timeout_ms :: int
  ri_grants :: "grant list"

type_synonym revision_encoder = "revision_input \<Rightarrow> string go_result"

abbreviation config_invalid :: "go_error + 'a" where
  "config_invalid \<equiv> Inl (Sentinel (Appconfig_E Config_Invalid))"

section \<open>\<open>strings.TrimSpace\<close>\<close>

text \<open>The UTF-8 encodings of the characters of \<open>unicode.IsSpace\<close>.\<close>

definition space_encodings :: "string list" where
  "space_encodings =
     map (\<lambda>b. [char_of (b :: nat)]) [9, 10, 11, 12, 13, 32] @
     map (map char_of) ([[194, 133], [194, 160], [225, 154, 128], [226, 128, 168], [226, 128, 169],
        [226, 128, 175], [226, 129, 159], [227, 128, 128]] :: nat list list) @
     map (\<lambda>b. [char_of (226 :: nat), char_of (128 :: nat), char_of b]) [128..<139 :: nat]"

definition leading_space :: "string list \<Rightarrow> string \<Rightarrow> string option" where
  "leading_space encodings s = find (\<lambda>e. e \<noteq> [] \<and> take (length e) s = e) encodings"

function trim_left :: "string list \<Rightarrow> string \<Rightarrow> string" where
  "trim_left encodings s =
     (case leading_space encodings s of None \<Rightarrow> s | Some e \<Rightarrow> trim_left encodings (drop (length e) s))"
  by pat_completeness auto
termination
proof (relation "measure (\<lambda>(_, s). length s)")
  fix encodings s e
  assume "leading_space encodings s = Some e"
  then have "e \<noteq> []" "take (length e) s = e"
    by (auto simp: leading_space_def find_Some_iff)
  then show "((encodings, drop (length e) s), encodings, s) \<in> measure (\<lambda>(_, s). length s)"
    by (cases s) auto
qed simp

declare trim_left.simps [simp del]

definition TrimSpace :: "string \<Rightarrow> string" where
  "TrimSpace s = rev (trim_left (map rev space_encodings) (rev (trim_left space_encodings s)))"

section \<open>Grants\<close>

text \<open>\<open>validGrants\<close>; \<open>prev\<close> is the id of the grant before.\<close>

fun valid_grants_from :: "string option \<Rightarrow> string \<Rightarrow> grant list \<Rightarrow> bool" where
  "valid_grants_from prev app [] = True"
| "valid_grants_from prev app (g # gs) =
     (g_app_id g = app \<and> (case prev of None \<Rightarrow> True | Some p \<Rightarrow> p < g_id g) \<and>
      is_ok (NormalizeGrant g) \<and> valid_grants_from (Some (g_id g)) app gs)"

definition validGrants :: "string \<Rightarrow> grant list \<Rightarrow> bool" where
  "validGrants app gs = valid_grants_from None app gs"

fun normalize_each :: "string \<Rightarrow> grant list \<Rightarrow> grant list go_result" where
  "normalize_each app [] = Inr []"
| "normalize_each app (g # gs) =
     (case NormalizeGrant g of
        Inl _ \<Rightarrow> config_invalid
      | Inr n \<Rightarrow>
          if g_app_id n \<noteq> app then config_invalid
          else and_then (normalize_each app gs) (\<lambda>ns. Inr (n # ns)))"

definition normalizeGrants :: "string \<Rightarrow> grant list \<Rightarrow> grant list go_result" where
  "normalizeGrants app gs =
     and_then (normalize_each app gs)
       (\<lambda>ns. let sorted = sort_key g_id ns in if \<not> validGrants app sorted then config_invalid else Inr sorted)"

section \<open>Validation, normal form and verification\<close>

definition ValidateConfig :: "app_config \<Rightarrow> unit go_result" where
  "ValidateConfig c =
     (if \<not> app_id_pattern (ac_app_id c) \<or> \<not> app_id_pattern (ac_executor_id c) \<or>
         length (ac_executor_config c) = 0 \<or> 65536 < length (ac_executor_config c) \<or>
         \<not> json_valid (ac_executor_config c) \<or>
         ac_max_steps c < 1 \<or> 64 < ac_max_steps c \<or>
         ac_max_capability_calls c < 1 \<or> 256 < ac_max_capability_calls c \<or>
         ac_max_execution_units c < 1 \<or> 1000000000 < ac_max_execution_units c \<or>
         ac_max_output_bytes c < 1 \<or> 262144 < ac_max_output_bytes c \<or>
         1000000000000000 < ac_max_cost c \<or>
         ac_execution_timeout c < 100 * millisecond \<or> 5 * minute < ac_execution_timeout c \<or>
         256 < length (ac_grants c) \<or> \<not> validGrants (ac_app_id c) (ac_grants c)
      then config_invalid else Inr ())"

definition revision_input_of :: "app_config \<Rightarrow> revision_input" where
  "revision_input_of c =
     \<lparr>ri_app_id = ac_app_id c, ri_enabled = ac_enabled c, ri_executor_id = ac_executor_id c,
      ri_executor_config = ac_executor_config c, ri_max_steps = ac_max_steps c,
      ri_max_capability_calls = ac_max_capability_calls c, ri_max_execution_units = ac_max_execution_units c,
      ri_max_output_bytes = ac_max_output_bytes c, ri_max_cost = ac_max_cost c,
      ri_execution_timeout_ms = go_div (ac_execution_timeout c) millisecond, ri_grants = ac_grants c\<rparr>"

definition NormalizeConfig :: "revision_encoder \<Rightarrow> (string \<Rightarrow> string) \<Rightarrow> app_config \<Rightarrow> app_config go_result" where
  "NormalizeConfig marshal sha256 c =
     (let c1 = c\<lparr>ac_app_id := TrimSpace (ac_app_id c), ac_executor_id := TrimSpace (ac_executor_id c),
                 ac_executor_config :=
                   (if length (ac_executor_config c) = 0 then ''{}'' else ac_executor_config c)\<rparr>
      in if 256 < length (ac_grants c1) then config_invalid
         else case normalizeGrants (ac_app_id c1) (ac_grants c1) of
           Inl e \<Rightarrow> Inl e
         | Inr gs \<Rightarrow>
             let c2 = c1\<lparr>ac_grants := gs\<rparr> in
             (case ValidateConfig c2 of
                Inl e \<Rightarrow> Inl e
              | Inr _ \<Rightarrow>
                  (case marshal (revision_input_of c2) of
                     Inl e \<Rightarrow> Inl (Joined [Sentinel (Appconfig_E Config_Invalid), e])
                   | Inr encoded \<Rightarrow> Inr (c2\<lparr>ac_revision := hex_bytes (sha256 encoded)\<rparr>))))"

definition ValidateRevision :: "string \<Rightarrow> unit go_result" where
  "ValidateRevision r = (if length r \<noteq> 64 \<or> \<not> list_all is_hex_lower r then config_invalid else Inr ())"

definition VerifyConfig ::
  "revision_encoder \<Rightarrow> (string \<Rightarrow> string) \<Rightarrow> app_config \<Rightarrow> string \<Rightarrow> string \<Rightarrow> unit go_result" where
  "VerifyConfig marshal sha256 c app revision =
     (if ac_app_id c \<noteq> app then config_invalid
      else if revision \<noteq> [] \<and> ac_revision c \<noteq> revision then config_invalid
      else (case NormalizeConfig marshal sha256 c of
              Inl _ \<Rightarrow> config_invalid
            | Inr n \<Rightarrow> if ac_revision n \<noteq> ac_revision c then config_invalid else Inr ()))"

definition VerifyCurrent :: "revision_encoder \<Rightarrow> (string \<Rightarrow> string) \<Rightarrow> app_config \<Rightarrow> string \<Rightarrow> unit go_result" where
  "VerifyCurrent marshal sha256 c app =
     (if ac_generation c = 0 then config_invalid else VerifyConfig marshal sha256 c app [])"

section \<open>Policy snapshots\<close>

definition Snapshot :: "app_config \<Rightarrow> policy_snapshot" where
  "Snapshot c =
     \<lparr>ps_app_id = ac_app_id c, ps_revision = ac_revision c, ps_generation = ac_generation c,
      ps_enabled = ac_enabled c, ps_grants = ac_grants c\<rparr>"

text \<open>\<open>unique\<close> keeps the first of each run of equal neighbours.\<close>

fun unique_run :: "string option \<Rightarrow> string list \<Rightarrow> string list" where
  "unique_run prev [] = []"
| "unique_run prev (v # vs) = (if prev = Some v then unique_run prev vs else v # unique_run (Some v) vs)"

definition CapabilityIDs :: "policy_snapshot \<Rightarrow> string list" where
  "CapabilityIDs s = unique_run None (sort (map g_capability_id (ps_grants s)))"

definition HasCapability :: "policy_snapshot \<Rightarrow> string \<Rightarrow> bool" where
  "HasCapability s i = list_ex (\<lambda>g. g_capability_id g = i) (ps_grants s)"

definition VerifySnapshot :: "policy_snapshot \<Rightarrow> string \<Rightarrow> unit go_result" where
  "VerifySnapshot s app =
     (if ps_app_id s \<noteq> app \<or> \<not> app_id_pattern (ps_app_id s) \<or> \<not> app_id_pattern (ps_revision s) \<or>
         ps_generation s = 0 \<or> 256 < length (ps_grants s) \<or> \<not> validGrants (ps_app_id s) (ps_grants s)
      then config_invalid else Inr ())"

text \<open>\<open>PersistentPolicy.Snapshot\<close>; \<open>current\<close> is what the source answers.\<close>

definition PolicySnapshot ::
  "revision_encoder \<Rightarrow> (string \<Rightarrow> string) \<Rightarrow> (string \<Rightarrow> app_config go_result) \<Rightarrow> string \<Rightarrow> policy_snapshot go_result" where
  "PolicySnapshot marshal sha256 current app =
     (case current app of
        Inl e \<Rightarrow> Inl e
      | Inr c \<Rightarrow>
          (case VerifyCurrent marshal sha256 c app of
             Inl e \<Rightarrow> Inl e
           | Inr _ \<Rightarrow> Inr (Snapshot c)))"

section \<open>The normal form\<close>

lemma trim_left_id: "\<forall>e \<in> set encodings. e \<noteq> [] \<longrightarrow> hd e \<noteq> c \<Longrightarrow> trim_left encodings (c # cs) = c # cs"
proof -
  assume a: "\<forall>e \<in> set encodings. e \<noteq> [] \<longrightarrow> hd e \<noteq> c"
  have "\<not> (e \<noteq> [] \<and> take (length e) (c # cs) = e)" if "e \<in> set encodings" for e
    using a that by (cases e) auto
  then have "leading_space encodings (c # cs) = None"
    by (simp add: leading_space_def find_None_iff)
  then show ?thesis by (subst trim_left.simps) simp
qed

lemma TrimSpace_id:
  assumes "s \<noteq> []" and "\<forall>c \<in> {hd s, last s}. 32 < code c \<and> code c < 128"
  shows "TrimSpace s = s"
proof -
  have heads: "\<forall>e \<in> set space_encodings. e \<noteq> [] \<longrightarrow> hd e \<noteq> c" if "32 < code c" "code c < 128" for c
    using that by (auto simp: space_encodings_def code_def)
  have lasts: "\<forall>e \<in> set (map rev space_encodings). e \<noteq> [] \<longrightarrow> hd e \<noteq> c" if "32 < code c" "code c < 128" for c
    using that by (auto simp: space_encodings_def code_def of_char_of)
  have "trim_left space_encodings s = s"
    using assms heads by (cases s) (simp_all add: trim_left_id)
  moreover have "trim_left (map rev space_encodings) (rev s) = rev s"
  proof (cases "rev s")
    case (Cons c cs)
    then have "s = rev cs @ [c]"
      by (metis rev.simps(2) rev_rev_ident)
    then have "last s = c" by simp
    then have "\<forall>e \<in> set (map rev space_encodings). e \<noteq> [] \<longrightarrow> hd e \<noteq> c"
      using assms(2) lasts by auto
    then show ?thesis using Cons by (simp only: trim_left_id)
  qed (use assms in simp)
  ultimately show ?thesis by (simp add: TrimSpace_def)
qed

lemma app_id_trimmed: "app_id_pattern s \<Longrightarrow> TrimSpace s = s"
proof (rule TrimSpace_id)
  assume a: "app_id_pattern s"
  then show "s \<noteq> []" by auto
  have tail: "32 < code c \<and> code c < 128" if "app_id_tail c \<or> is_lower_digit c" for c
    using that by (auto simp: app_id_tail_def is_lower_digit_def is_lower_def is_digit_def code_def)
  have "app_id_tail c \<or> is_lower_digit c" if "c \<in> set s" for c
    using a that by (cases s) (auto simp: list_all_iff)
  then show "\<forall>c \<in> {hd s, last s}. 32 < code c \<and> code c < 128"
    using tail \<open>s \<noteq> []\<close> by (metis hd_in_set insertE last_in_set singletonD)
qed

lemma valid_grants_from_iff:
  "valid_grants_from prev app gs \<longleftrightarrow>
     strictly_increasing g_id gs \<and> (case (prev, gs) of (Some p, g # _) \<Rightarrow> p < g_id g | _ \<Rightarrow> True) \<and>
     list_all (\<lambda>g. g_app_id g = app \<and> is_ok (NormalizeGrant g)) gs"
proof (induction gs arbitrary: prev)
  case (Cons g gs)
  show ?case
    unfolding valid_grants_from.simps Cons.IH by (cases gs; cases prev) auto
qed (simp split: option.split)

lemma validGrants_iff:
  "validGrants app gs \<longleftrightarrow> strictly_increasing g_id gs \<and> list_all (\<lambda>g. g_app_id g = app \<and> is_ok (NormalizeGrant g)) gs"
  by (simp add: validGrants_def valid_grants_from_iff)

lemma normalize_each_canonical:
  "normalize_each app gs = Inr ns \<Longrightarrow> list_all (\<lambda>g. canonical_grant g \<and> g_app_id g = app) ns"
  by (induction gs arbitrary: ns) (auto simp: and_then_Inr NormalizeGrant_Inr split: sum.splits if_splits)

lemma normalize_each_id:
  "list_all (\<lambda>g. canonical_grant g \<and> g_app_id g = app) ns \<Longrightarrow> normalize_each app ns = Inr ns"
  by (induction ns) (auto simp: NormalizeGrant_canonical)

lemma strictly_increasing_sorted: "strictly_increasing f xs \<Longrightarrow> sorted (map f xs)"
  by (induction xs) (auto simp: strictly_increasing_Cons intro: order.strict_implies_order)

lemma normalizeGrants_Inr:
  assumes "normalizeGrants app gs = Inr ns"
  shows "normalizeGrants app ns = Inr ns \<and> validGrants app ns \<and> length ns = length gs \<and>
    list_all (\<lambda>g. canonical_grant g \<and> g_app_id g = app) ns"
proof -
  obtain ms where ms: "normalize_each app gs = Inr ms" "ns = sort_key g_id ms" "validGrants app ns"
    using assms by (auto simp: normalizeGrants_def and_then_Inr Let_def split: if_splits)
  then have all: "list_all (\<lambda>g. canonical_grant g \<and> g_app_id g = app) ns"
    using normalize_each_canonical by (simp add: list_all_iff)
  have "length ms = length gs"
    using ms(1) by (induction gs arbitrary: ms) (auto simp: and_then_Inr split: sum.splits if_splits)
  moreover have "sort_key g_id ns = ns"
    by (simp add: ms(2) sort_key_id_if_sorted)
  ultimately show ?thesis
    using all ms by (simp add: normalizeGrants_def normalize_each_id)
qed

lemma ValidateConfig_ok:
  "ValidateConfig c = Inr () \<longleftrightarrow>
     app_id_pattern (ac_app_id c) \<and> app_id_pattern (ac_executor_id c) \<and>
     0 < length (ac_executor_config c) \<and> length (ac_executor_config c) \<le> 65536 \<and> json_valid (ac_executor_config c) \<and>
     ac_max_steps c \<noteq> 0 \<and> ac_max_steps c \<le> 64 \<and>
     ac_max_capability_calls c \<noteq> 0 \<and> ac_max_capability_calls c \<le> 256 \<and>
     ac_max_execution_units c \<noteq> 0 \<and> ac_max_execution_units c \<le> 1000000000 \<and>
     ac_max_output_bytes c \<noteq> 0 \<and> ac_max_output_bytes c \<le> 262144 \<and> ac_max_cost c \<le> 1000000000000000 \<and>
     100 * millisecond \<le> ac_execution_timeout c \<and> ac_execution_timeout c \<le> 5 * minute \<and>
     length (ac_grants c) \<le> 256 \<and> validGrants (ac_app_id c) (ac_grants c)"
  by (auto simp: ValidateConfig_def not_less)

lemma revision_input_of_revision [simp]: "revision_input_of (c\<lparr>ac_revision := r\<rparr>) = revision_input_of c"
  by (simp add: revision_input_of_def)

lemma ValidateConfig_revision [simp]: "ValidateConfig (c\<lparr>ac_revision := r\<rparr>) = ValidateConfig c"
  by (simp add: ValidateConfig_def)

lemma NormalizeConfig_Inr:
  assumes "NormalizeConfig marshal sha256 c = Inr d"
  obtains gs encoded c2 where
    "c2 = c\<lparr>ac_app_id := TrimSpace (ac_app_id c), ac_executor_id := TrimSpace (ac_executor_id c),
          ac_executor_config := (if length (ac_executor_config c) = 0 then ''{}'' else ac_executor_config c),
          ac_grants := gs\<rparr>"
    and "length (ac_grants c) \<le> 256" and "normalizeGrants (TrimSpace (ac_app_id c)) (ac_grants c) = Inr gs"
    and "ValidateConfig c2 = Inr ()" and "marshal (revision_input_of c2) = Inr encoded"
    and "d = c2\<lparr>ac_revision := hex_bytes (sha256 encoded)\<rparr>"
  using assms unfolding NormalizeConfig_def Let_def
  by (auto split: if_splits sum.splits simp: not_less)

lemma NormalizeConfig_fixed:
  assumes "NormalizeConfig marshal sha256 c = Inr d"
  shows "NormalizeConfig marshal sha256 d = Inr d" and "ValidateConfig d = Inr ()"
proof -
  obtain gs encoded c2 where
    c2: "c2 = c\<lparr>ac_app_id := TrimSpace (ac_app_id c), ac_executor_id := TrimSpace (ac_executor_id c),
          ac_executor_config := (if length (ac_executor_config c) = 0 then ''{}'' else ac_executor_config c),
          ac_grants := gs\<rparr>"
    and len: "length (ac_grants c) \<le> 256" and gs: "normalizeGrants (TrimSpace (ac_app_id c)) (ac_grants c) = Inr gs"
    and v: "ValidateConfig c2 = Inr ()" and m: "marshal (revision_input_of c2) = Inr encoded"
    and d: "d = c2\<lparr>ac_revision := hex_bytes (sha256 encoded)\<rparr>"
    using NormalizeConfig_Inr[OF assms] by metis
  show vd: "ValidateConfig d = Inr ()" using v d by simp
  have ids: "TrimSpace (ac_app_id d) = ac_app_id d" "TrimSpace (ac_executor_id d) = ac_executor_id d"
    using vd by (auto simp: ValidateConfig_ok intro: app_id_trimmed)
  have nonempty: "ac_executor_config d \<noteq> []" "length (ac_grants d) \<le> 256"
    using vd by (auto simp: ValidateConfig_ok)
  have "normalizeGrants (ac_app_id d) (ac_grants d) = Inr (ac_grants d)"
    using normalizeGrants_Inr[OF gs] c2 d by simp
  then have "NormalizeConfig marshal sha256 d =
      (case ValidateConfig d of
         Inl e \<Rightarrow> Inl e
       | Inr _ \<Rightarrow>
           (case marshal (revision_input_of d) of
              Inl e \<Rightarrow> Inl (Joined [Sentinel (Appconfig_E Config_Invalid), e])
            | Inr encoded \<Rightarrow> Inr (d\<lparr>ac_revision := hex_bytes (sha256 encoded)\<rparr>)))"
    using ids nonempty by (simp add: NormalizeConfig_def Let_def)
  then show "NormalizeConfig marshal sha256 d = Inr d"
    using vd m d by simp
qed

lemma unique_run_set: "set (unique_run prev vs) \<union> set_option prev = set vs \<union> set_option prev"
proof (induction vs arbitrary: prev)
  case (Cons v vs)
  show ?case
    using Cons[of prev] Cons[of "Some v"] by auto
qed simp

lemma hex_digit_lower: "is_lower_digit (hex_digit n)"
proof -
  have "list_all is_lower_digit ''0123456789abcdef''"
    by code_simp
  then show ?thesis
    unfolding list_all_length hex_digit_def by simp
qed

lemma hex_revision: "length (sha256 x) = 32 \<Longrightarrow> app_id_pattern (hex_bytes (sha256 x))"
proof -
  assume len: "length (sha256 x) = 32"
  have "\<forall>c \<in> set (hex_bytes (sha256 x)). is_lower_digit c"
    by (auto simp: hex_bytes_def hex_digit_lower)
  then show ?thesis
    using len length_hex_bytes[of "sha256 x"]
    by (cases "hex_bytes (sha256 x)") (auto simp: list_all_iff app_id_tail_def)
qed

text \<open>Normalisation has a unique result: it is idempotent, and what it returns passes validation, the
  check of its own revision, and, at a positive generation, verification as the current configuration
  and as a policy snapshot, which grants exactly the listed capabilities. With a 32-byte hash.\<close>

theorem normalized_config_verifies:
  assumes "NormalizeConfig marshal sha256 c = Inr d" and "\<forall>x. length (sha256 x) = 32" and "ac_generation d \<noteq> 0"
  shows "NormalizeConfig marshal sha256 d = Inr d \<and> ValidateConfig d = Inr () \<and>
    VerifyConfig marshal sha256 d (ac_app_id d) (ac_revision d) = Inr () \<and>
    PolicySnapshot marshal sha256 (\<lambda>_. Inr d) (ac_app_id d) = Inr (Snapshot d) \<and>
    VerifySnapshot (Snapshot d) (ac_app_id d) = Inr () \<and>
    (HasCapability (Snapshot d) i \<longleftrightarrow> i \<in> set (CapabilityIDs (Snapshot d)))"
proof -
  have n: "NormalizeConfig marshal sha256 d = Inr d" and v: "ValidateConfig d = Inr ()"
    using NormalizeConfig_fixed[OF assms(1)] by auto
  have verify: "VerifyConfig marshal sha256 d (ac_app_id d) r = Inr ()" if "r = [] \<or> r = ac_revision d" for r
    using n that by (auto simp: VerifyConfig_def)
  have "app_id_pattern (ac_revision d)"
    using NormalizeConfig_Inr[OF assms(1)] assms(2) hex_revision by (metis (no_types, lifting) app_config.select_convs(2) app_config.surjective app_config.update_convs(2))
  then have snap: "VerifySnapshot (Snapshot d) (ac_app_id d) = Inr ()"
    using v assms(3) by (auto simp: VerifySnapshot_def Snapshot_def ValidateConfig_ok)
  have "HasCapability (Snapshot d) i \<longleftrightarrow> i \<in> set (CapabilityIDs (Snapshot d))"
    using unique_run_set[of None] by (auto simp: HasCapability_def CapabilityIDs_def list_ex_iff)
  then show ?thesis
    using n v verify snap assms(3) by (simp add: PolicySnapshot_def VerifyCurrent_def)
qed

definition sample_config :: app_config where
  "sample_config =
     \<lparr>ac_app_id = ''app'', ac_revision = [], ac_generation = 1, ac_enabled = True, ac_executor_id = ''exec'',
      ac_executor_config = [], ac_max_steps = 8, ac_max_capability_calls = 16, ac_max_execution_units = 100,
      ac_max_output_bytes = 1024, ac_max_cost = 0, ac_execution_timeout = minute, ac_grants = [],
      ac_created_at = 0, ac_updated_at = 0\<rparr>"

lemma sample_config_normal:
  "NormalizeConfig (\<lambda>_. Inr []) (\<lambda>_. replicate 32 CHR 0x00) sample_config =
     Inr (sample_config\<lparr>ac_executor_config := ''{}'', ac_revision := hex_bytes (replicate 32 CHR 0x00)\<rparr>)"
proof -
  have a: "app_id_pattern ''app''" "app_id_pattern ''exec''"
    by (simp_all add: app_id_tail_def char_class_defs)
  let ?c = "sample_config\<lparr>ac_executor_config := ''{}''\<rparr>"
  have t: "100 * millisecond \<le> minute" "minute \<le> 5 * minute"
    by (simp_all add: duration_defs)
  have "ValidateConfig ?c = Inr ()"
    unfolding ValidateConfig_ok
    by (simp add: sample_config_def a t json_valid_object validGrants_def word_le_nat_alt del: app_id_pattern.simps)
  moreover have "TrimSpace ''app'' = ''app''" "TrimSpace ''exec'' = ''exec''"
    using a app_id_trimmed by blast+
  ultimately show ?thesis
    by (simp add: NormalizeConfig_def sample_config_def normalizeGrants_def validGrants_def Let_def)
qed

theorem normalized_config_verifies_witness:
  "let d = sample_config\<lparr>ac_executor_config := ''{}'', ac_revision := hex_bytes (replicate 32 CHR 0x00)\<rparr> in
     VerifySnapshot (Snapshot d) (ac_app_id d) = Inr ()"
  using normalized_config_verifies[OF sample_config_normal] by (simp add: sample_config_def Let_def)

end
