(* ===== verification/Authorization.thy ===== *)
theory Authorization
  imports Capability Go_Json
begin

text \<open>
  \<open>internal/kernel/authorization/authorization.go\<close>: the authorization decision of one capability
  call. The JSON decoder of the payload, the relationship checker and the wall clock are arguments.
\<close>

section \<open>Data\<close>

record auth_request =
  rq_app_id :: string
  rq_principal :: string
  rq_run_id :: string
  rq_capability_id :: string
  rq_payload :: string
  rq_now :: instant
  rq_calls_used :: u32
  rq_cost_used :: u64

record auth_decision =
  ad_grant :: grant
  ad_require_idempotency :: bool
  ad_require_confirmation :: bool

text \<open>A checker answers for a principal, a relation, a resource type and a resource.\<close>

type_synonym relationship_checker = "string \<Rightarrow> string \<Rightarrow> string \<Rightarrow> string \<Rightarrow> bool go_result"

section \<open>The resource of a call\<close>

fun split_on :: "char \<Rightarrow> string \<Rightarrow> string list" where
  "split_on c [] = [[]]"
| "split_on c (x # xs) =
     (if x = c then [] # split_on c xs
      else (case split_on c xs of [] \<Rightarrow> [[x]] | p # ps \<Rightarrow> (x # p) # ps))"

text \<open>\<open>strings.ReplaceAll\<close> of a two-character pattern.\<close>

fun replace2 :: "char \<Rightarrow> char \<Rightarrow> char \<Rightarrow> string \<Rightarrow> string" where
  "replace2 a b c (x # y # zs) =
     (if x = a \<and> y = b then c # replace2 a b c zs else x # replace2 a b c (y # zs))"
| "replace2 a b c xs = xs"

definition unescape_part :: "string \<Rightarrow> string" where
  "unescape_part part = replace2 (CHR ''~'') (CHR ''0'') (CHR ''~'') (replace2 (CHR ''~'') (CHR ''1'') (CHR ''/'') part)"

definition trim_slash :: "string \<Rightarrow> string" where
  "trim_slash s = (case s of c # cs \<Rightarrow> if c = CHR ''/'' then cs else s | [] \<Rightarrow> [])"

abbreviation invalid_resource :: "go_error" where
  "invalid_resource \<equiv> Sentinel (Authorization_E Auth_InvalidResource)"

fun walk_pointer :: "string list \<Rightarrow> json \<Rightarrow> json go_result" where
  "walk_pointer [] v = Inr v"
| "walk_pointer (p # ps) v =
     (case v of
        J_Object members \<Rightarrow>
          (case map_of members (unescape_part p) of
             None \<Rightarrow> Inl (Wrapped invalid_resource)
           | Some v' \<Rightarrow> walk_pointer ps v')
      | _ \<Rightarrow> Inl invalid_resource)"

definition resourceID :: "json_decoder \<Rightarrow> string \<Rightarrow> string \<Rightarrow> string go_result" where
  "resourceID decode pointer payload =
     (if pointer = [] then Inr []
      else case decode payload of
        Inl e \<Rightarrow> Inl (Joined [invalid_resource, e])
      | Inr value \<Rightarrow>
          (case walk_pointer (split_on (CHR ''/'') (trim_slash pointer)) value of
             Inl e \<Rightarrow> Inl e
           | Inr v \<Rightarrow>
               (case v of
                  J_String r \<Rightarrow> if r = [] \<or> \<not> is_stable_id r then Inl invalid_resource else Inr r
                | _ \<Rightarrow> Inl invalid_resource)))"

section \<open>The decision\<close>

text \<open>The conditions under which the loop of \<open>Authorize\<close> passes over a normalised grant.\<close>

definition grant_skipped :: "capability_spec \<Rightarrow> auth_request \<Rightarrow> string \<Rightarrow> grant \<Rightarrow> bool" where
  "grant_skipped spec rq rid g \<longleftrightarrow>
     g_app_id g \<noteq> rq_app_id rq \<or> g_capability_id g \<noteq> rq_capability_id rq \<or>
     (g_principal g \<noteq> rq_principal rq \<and> g_principal g \<noteq> PrincipalAny) \<or>
     (\<not> is_zero (g_not_before g) \<and> before (rq_now rq) (g_not_before g)) \<or>
     after (rq_now rq) (g_expires_at g) \<or>
     (g_audience g \<noteq> [] \<and> g_audience g \<noteq> rq_run_id rq) \<or>
     (rs_type (g_resource g) \<noteq> as_resource_type (cs_authorization spec) \<and> rs_type (g_resource g) \<noteq> ''any'') \<or>
     (0 < length (rs_ids (g_resource g)) \<and> rid \<notin> set (rs_ids (g_resource g)))"

definition budget_exhausted :: "auth_request \<Rightarrow> grant \<Rightarrow> bool" where
  "budget_exhausted rq g \<longleftrightarrow>
     g_max_calls g \<le> rq_calls_used rq \<or> (g_max_cost g \<noteq> 0 \<and> g_max_cost g \<le> rq_cost_used rq)"

definition decide_by :: "capability_spec \<Rightarrow> grant \<Rightarrow> auth_decision" where
  "decide_by spec g =
     \<lparr>ad_grant = g,
      ad_require_idempotency =
        (es_replay (cs_execution spec) = ReplayIdempotencyKey \<or> es_replay (cs_execution spec) = ReplayNever),
      ad_require_confirmation = (es_confirmation_floor (cs_execution spec) = ConfirmationRequired)\<rparr>"

abbreviation denied :: "go_error" where
  "denied \<equiv> Sentinel (Authorization_E Auth_Denied)"

fun authorize_loop ::
  "relationship_checker option \<Rightarrow> capability_spec \<Rightarrow> auth_request \<Rightarrow> string \<Rightarrow> grant list
     \<Rightarrow> auth_decision go_result" where
  "authorize_loop rel spec rq rid [] = Inl denied"
| "authorize_loop rel spec rq rid (candidate # rest) =
     (case NormalizeGrant candidate of
        Inl _ \<Rightarrow> authorize_loop rel spec rq rid rest
      | Inr g \<Rightarrow>
        if grant_skipped spec rq rid g then authorize_loop rel spec rq rid rest
        else if rs_relation (g_resource g) \<noteq> [] then
          (case rel of
             None \<Rightarrow> Inl (Joined [denied, Sentinel (Authorization_E Auth_RelationshipUnavailable)])
           | Some chk \<Rightarrow>
               if rid = [] then authorize_loop rel spec rq rid rest
               else (case chk (rq_principal rq) (rs_relation (g_resource g)) (rs_type (g_resource g)) rid of
                       Inl _ \<Rightarrow> Inl (Joined [denied, Sentinel (Authorization_E Auth_RelationshipUnavailable)])
                     | Inr allowed \<Rightarrow>
                         if \<not> allowed then authorize_loop rel spec rq rid rest
                         else if budget_exhausted rq g then authorize_loop rel spec rq rid rest
                         else Inr (decide_by spec g)))
        else if budget_exhausted rq g then authorize_loop rel spec rq rid rest
        else Inr (decide_by spec g))"

text \<open>\<open>wall\<close> is \<open>time.Now()\<close>, used when the request carries no instant.\<close>

definition effective_request :: "instant \<Rightarrow> auth_request \<Rightarrow> auth_request" where
  "effective_request wall rq = (if is_zero (rq_now rq) then rq\<lparr>rq_now := wall\<rparr> else rq)"

definition Authorize ::
  "json_decoder \<Rightarrow> instant \<Rightarrow> relationship_checker option \<Rightarrow> capability_spec \<Rightarrow> auth_request \<Rightarrow> grant list
     \<Rightarrow> auth_decision go_result" where
  "Authorize decode wall rel spec rq grants =
     (case ValidateAuthorizationSpec (cs_authorization spec) of
        Inl e \<Rightarrow> Inl (Joined [denied, e])
      | Inr _ \<Rightarrow>
        if as_principal (cs_authorization spec) = PrincipalCurrentUser \<and> rq_principal rq = ''public''
          then Inl (Joined [denied, Sentinel (Authorization_E Auth_PrincipalRequired)])
        else (case resourceID decode (as_resource_id_from (cs_authorization spec)) (rq_payload rq) of
                Inl e \<Rightarrow> Inl (Joined [denied, e])
              | Inr rid \<Rightarrow>
                  (case ValidateExecutionSpec (cs_execution spec) of
                     Inl e \<Rightarrow> Inl (Joined [denied, e])
                   | Inr _ \<Rightarrow> authorize_loop rel spec (effective_request wall rq) rid grants)))"

section \<open>What a grant covers\<close>

type_synonym grant_request = "relationship_checker option \<times> capability_spec \<times> auth_request \<times> string"

text \<open>The loop stops at a grant and allows the call exactly under this condition.\<close>

definition grant_covers :: "grant \<Rightarrow> grant_request \<Rightarrow> bool" where
  "grant_covers g a = (case a of (rel, spec, rq, rid) \<Rightarrow>
     \<not> grant_skipped spec rq rid g \<and>
     (rs_relation (g_resource g) = [] \<or>
        (rid \<noteq> [] \<and> (\<exists>chk. rel = Some chk \<and>
           chk (rq_principal rq) (rs_relation (g_resource g)) (rs_type (g_resource g)) rid = Inr True))) \<and>
     \<not> budget_exhausted rq g)"

text \<open>A grant that needs a relation nobody can answer for ends the loop.\<close>

definition grant_blocks :: "grant \<Rightarrow> grant_request \<Rightarrow> bool" where
  "grant_blocks g a = (case a of (rel, spec, rq, rid) \<Rightarrow>
     \<not> grant_skipped spec rq rid g \<and> rs_relation (g_resource g) \<noteq> [] \<and>
     (case rel of
        None \<Rightarrow> True
      | Some chk \<Rightarrow> rid \<noteq> [] \<and>
          \<not> is_ok (chk (rq_principal rq) (rs_relation (g_resource g)) (rs_type (g_resource g)) rid)))"

lemma authorize_loop_Cons:
  "authorize_loop rel spec rq rid (c # rest) =
     (case NormalizeGrant c of
        Inl _ \<Rightarrow> authorize_loop rel spec rq rid rest
      | Inr g \<Rightarrow>
          if grant_covers g (rel, spec, rq, rid) then Inr (decide_by spec g)
          else if grant_blocks g (rel, spec, rq, rid)
            then Inl (Joined [denied, Sentinel (Authorization_E Auth_RelationshipUnavailable)])
          else authorize_loop rel spec rq rid rest)"
proof (cases "NormalizeGrant c")
  case (Inr g)
  show ?thesis
  proof (cases rel)
    case None
    then show ?thesis using Inr by (simp add: grant_covers_def grant_blocks_def)
  next
    case (Some chk)
    then show ?thesis
      using Inr by (cases "chk (rq_principal rq) (rs_relation (g_resource g)) (rs_type (g_resource g)) rid")
        (simp_all add: grant_covers_def grant_blocks_def)
  qed
qed simp

declare authorize_loop.simps(2) [simp del] authorize_loop_Cons [simp]

lemma authorize_loop_sound:
  "authorize_loop rel spec rq rid grants = Inr d \<Longrightarrow>
     \<exists>c g. c \<in> set grants \<and> NormalizeGrant c = Inr g \<and> grant_covers g (rel, spec, rq, rid) \<and> d = decide_by spec g"
proof (induction grants)
  case (Cons c rest)
  show ?case
  proof (cases "authorize_loop rel spec rq rid rest = Inr d")
    case True
    then show ?thesis using Cons.IH by auto
  next
    case False
    then obtain g where "NormalizeGrant c = Inr g" "grant_covers g (rel, spec, rq, rid)" "d = decide_by spec g"
      using Cons.prems by (auto split: sum.splits if_splits)
    then show ?thesis by auto
  qed
qed simp

lemma authorize_loop_denied:
  "authorize_loop rel spec rq rid grants = Inl e \<Longrightarrow> err_is e (Authorization_E Auth_Denied)"
  by (induction grants) (auto split: sum.splits if_splits)

text \<open>A grant in the list that covers the request is enough when no grant blocks.\<close>

lemma authorize_loop_complete:
  assumes "c \<in> set grants" and "NormalizeGrant c = Inr g" and "grant_covers g (rel, spec, rq, rid)"
    and "\<And>c h. c \<in> set grants \<Longrightarrow> NormalizeGrant c = Inr h \<Longrightarrow> \<not> grant_blocks h (rel, spec, rq, rid)"
  shows "\<exists>d. authorize_loop rel spec rq rid grants = Inr d"
  using assms(1,4)
proof (induction grants)
  case (Cons b rest)
  have rest: "\<exists>d. authorize_loop rel spec rq rid rest = Inr d" if "c \<noteq> b"
  proof -
    have "c \<in> set rest" using Cons.prems(1) that by simp
    moreover have "\<not> grant_blocks h (rel, spec, rq, rid)" if "a \<in> set rest" "NormalizeGrant a = Inr h" for a h
      using Cons.prems(2)[of a h] that by simp
    ultimately show ?thesis using Cons.IH by blast
  qed
  show ?case
  proof (cases "NormalizeGrant b")
    case (Inl e)
    then have "c \<noteq> b" using assms(2) by auto
    then show ?thesis using rest Inl by simp
  next
    case (Inr h)
    then have "\<not> grant_blocks h (rel, spec, rq, rid)" using Cons.prems(2)[of b h] by simp
    moreover have "grant_covers h (rel, spec, rq, rid)" if "b = c"
      using that assms(2,3) Inr by simp
    ultimately show ?thesis using rest Inr by auto
  qed
qed simp

lemma not_skipped:
  "\<not> grant_skipped spec rq rid g \<longleftrightarrow>
     g_app_id g = rq_app_id rq \<and> g_capability_id g = rq_capability_id rq \<and>
     (g_principal g = rq_principal rq \<or> g_principal g = PrincipalAny) \<and>
     (g_not_before g = 0 \<or> g_not_before g \<le> rq_now rq) \<and> rq_now rq \<le> g_expires_at g \<and>
     (g_audience g = [] \<or> g_audience g = rq_run_id rq) \<and>
     (rs_type (g_resource g) = as_resource_type (cs_authorization spec) \<or> rs_type (g_resource g) = ''any'') \<and>
     (rs_ids (g_resource g) = [] \<or> rid \<in> set (rs_ids (g_resource g)))"
  unfolding grant_skipped_def by (simp add: not_less) blast

lemma not_exhausted:
  "\<not> budget_exhausted rq g \<longleftrightarrow>
     rq_calls_used rq < g_max_calls g \<and> (g_max_cost g = 0 \<or> rq_cost_used rq < g_max_cost g)"
  unfolding budget_exhausted_def by (simp add: not_le)

lemma skipped_subset:
  assumes "GrantSubset c p" and "0 \<le> g_not_before p" and "\<not> grant_skipped spec rq rid c"
  shows "\<not> grant_skipped spec rq rid p"
proof -
  note s = assms(1)[unfolded GrantSubset_iff] and n = assms(3)[unfolded not_skipped]
  have "g_not_before p = 0 \<or> g_not_before p \<le> rq_now rq"
  proof (cases "g_not_before p = 0")
    case False
    then have "g_not_before p \<le> g_not_before c" "g_not_before c \<noteq> 0"
      using s assms(2) by auto
    then show ?thesis using n by simp
  qed simp
  moreover have "g_audience p = [] \<or> g_audience p = rq_run_id rq"
    using s n by metis
  moreover have "rs_ids (g_resource p) = [] \<or> rid \<in> set (rs_ids (g_resource p))"
    using s n by (meson subsetD)
  moreover have "rq_now rq \<le> g_expires_at p"
    using s n by (meson order.trans)
  ultimately show ?thesis
    unfolding not_skipped using s n by metis
qed

lemma exhausted_subset:
  assumes "GrantSubset c p" and "\<not> budget_exhausted rq c"
  shows "\<not> budget_exhausted rq p"
proof -
  note s = assms(1)[unfolded GrantSubset_iff] and n = assms(2)[unfolded not_exhausted]
  have "rq_calls_used rq < g_max_calls p"
    using s n by (meson order.strict_trans2)
  moreover have "g_max_cost p = 0 \<or> rq_cost_used rq < g_max_cost p"
    using s n by (meson order.strict_trans2)
  ultimately show ?thesis by (simp add: not_exhausted)
qed

interpretation grant_attenuation: attenuation grant_covers
proof
  fix c p req
  assume "0 \<le> g_not_before p" and sub: "GrantSubset c p" and cov: "grant_covers c req"
  obtain rel spec rq rid where req: "req = (rel, spec, rq, rid)" by (cases req)
  have "rs_relation (g_resource c) = rs_relation (g_resource p)" "rs_type (g_resource c) = rs_type (g_resource p)"
    using sub by (simp_all add: GrantSubset_iff)
  then show "grant_covers p req"
    using cov skipped_subset[OF sub \<open>0 \<le> g_not_before p\<close>] exhausted_subset[OF sub]
    unfolding req grant_covers_def prod.case by metis
qed

section \<open>Properties\<close>

text \<open>C5: a decision to allow is sound: it names one of the grants given, up to the order of its resource
  ids, and this grant is for the app, the capability and the principal of the request (or for any
  principal), is valid at the instant of the request, is addressed to nobody or to this Run, is for
  the resource type of the capability (or any) and for the resource named by the payload (or all), has
  its relation, if it asks for one, confirmed by the checker, and has calls and cost left. The
  obligations of the decision are those of the capability's execution spec.\<close>

theorem authorize_sound:
  assumes "Authorize decode wall rel spec rq grants = Inr d"
    and "now = (if rq_now rq = 0 then wall else rq_now rq)"
  shows "\<exists>c rid. c \<in> set grants \<and>
    ad_grant d = c\<lparr>g_resource := (g_resource c)\<lparr>rs_ids := sort (rs_ids (g_resource c))\<rparr>\<rparr> \<and>
    resourceID decode (as_resource_id_from (cs_authorization spec)) (rq_payload rq) = Inr rid \<and>
    g_app_id c = rq_app_id rq \<and> g_capability_id c = rq_capability_id rq \<and>
    g_principal c \<in> {rq_principal rq, ''any''} \<and>
    (g_not_before c = 0 \<or> g_not_before c \<le> now) \<and> now \<le> g_expires_at c \<and>
    (g_audience c = [] \<or> g_audience c = rq_run_id rq) \<and>
    rs_type (g_resource c) \<in> {as_resource_type (cs_authorization spec), ''any''} \<and>
    (rs_ids (g_resource c) = [] \<or> rid \<in> set (rs_ids (g_resource c))) \<and>
    (rs_relation (g_resource c) = [] \<or>
       rid \<noteq> [] \<and> (\<exists>check_relation. rel = Some check_relation \<and>
         check_relation (rq_principal rq) (rs_relation (g_resource c)) (rs_type (g_resource c)) rid = Inr True)) \<and>
    rq_calls_used rq < g_max_calls c \<and> (g_max_cost c = 0 \<or> rq_cost_used rq < g_max_cost c) \<and>
    (as_principal (cs_authorization spec) = PrincipalCurrentUser \<longrightarrow> rq_principal rq \<noteq> ''public'') \<and>
    (ad_require_idempotency d \<longleftrightarrow> es_replay (cs_execution spec) \<noteq> ReplaySafe) \<and>
    (ad_require_confirmation d \<longleftrightarrow> es_confirmation_floor (cs_execution spec) = ConfirmationRequired)"
proof -
  obtain rid where rid: "resourceID decode (as_resource_id_from (cs_authorization spec)) (rq_payload rq) = Inr rid"
    and valid: "ValidateExecutionSpec (cs_execution spec) = Inr ()"
    and loop: "authorize_loop rel spec (effective_request wall rq) rid grants = Inr d"
    and user: "as_principal (cs_authorization spec) = PrincipalCurrentUser \<longrightarrow> rq_principal rq \<noteq> ''public''"
    using assms(1) by (auto simp: Authorize_def split: sum.splits if_splits)
  have "es_replay (cs_execution spec) \<in> {ReplaySafe, ReplayIdempotencyKey, ReplayNever}"
    using valid by (auto simp: ValidateExecutionSpec_def split: if_splits)
  then have replay: "(es_replay (cs_execution spec) = ReplayIdempotencyKey \<or> es_replay (cs_execution spec) = ReplayNever) \<longleftrightarrow>
      es_replay (cs_execution spec) \<noteq> ReplaySafe"
    by (auto simp: capability_names)
  obtain c where c: "c \<in> set grants" and d: "d = decide_by spec (c\<lparr>g_resource := (g_resource c)\<lparr>rs_ids := sort (rs_ids (g_resource c))\<rparr>\<rparr>)"
    and covers: "grant_covers (c\<lparr>g_resource := (g_resource c)\<lparr>rs_ids := sort (rs_ids (g_resource c))\<rparr>\<rparr>) (rel, spec, effective_request wall rq, rid)"
    using authorize_loop_sound[OF loop] by (auto simp: NormalizeGrant_Inr)
  have "effective_request wall rq = rq\<lparr>rq_now := now\<rparr>"
    using assms(2) by (simp add: effective_request_def)
  moreover have "sort xs = [] \<longleftrightarrow> xs = []" for xs :: "string list"
    by (metis length_sort length_0_conv)
  ultimately show ?thesis
    using c d covers rid user replay
    by (intro exI[of _ c] exI[of _ rid])
      (simp add: decide_by_def grant_covers_def not_skipped not_exhausted PrincipalAny_def)
qed

text \<open>C6: attenuation: whatever call a narrowed grant covers, the grant it was narrowed from covers as
  well, at every instant and every use of the budgets, so delegation never adds authority.\<close>

theorem narrowed_grant_attenuates:
  assumes "NarrowGrant parent requested = Inr g" and "0 \<le> g_not_before parent"
    and "grant_covers g (rel, spec, rq, rid)"
  shows "\<exists>p. NormalizeGrant parent = Inr p \<and> grant_covers p (rel, spec, rq, rid)"
  using assms by (rule grant_attenuation.narrowed_covers)

text \<open>Authority is closed downwards along any chain of delegations: every grant of the chain covers
  only what its root covers.\<close>

theorem delegation_chain_bounded:
  assumes "canonical_grant root" and "delegated root gs" and "\<forall>g \<in> set (root # gs). 0 \<le> g_not_before g"
    and "g \<in> set gs" and "grant_covers g (rel, spec, rq, rid)"
  shows "grant_covers root (rel, spec, rq, rid)"
  using assms by (rule grant_attenuation.chain_covers)

text \<open>A refusal is always an \<open>ErrDenied\<close> for \<open>errors.Is\<close>, and with valid specs a call some grant
  covers is allowed unless a grant needs a relation nobody can answer for.\<close>

theorem authorize_complete:
  assumes "ValidateAuthorizationSpec (cs_authorization spec) = Inr ()"
    and "ValidateExecutionSpec (cs_execution spec) = Inr ()"
    and "as_principal (cs_authorization spec) = PrincipalCurrentUser \<Longrightarrow> rq_principal rq \<noteq> ''public''"
    and "resourceID decode (as_resource_id_from (cs_authorization spec)) (rq_payload rq) = Inr rid"
    and "c \<in> set grants" and "NormalizeGrant c = Inr g"
    and "grant_covers g (rel, spec, effective_request wall rq, rid)"
    and "\<And>c h. c \<in> set grants \<Longrightarrow> NormalizeGrant c = Inr h \<Longrightarrow>
           \<not> grant_blocks h (rel, spec, effective_request wall rq, rid)"
  shows "(\<exists>d. Authorize decode wall rel spec rq grants = Inr d) \<and>
    (\<forall>rq2 grants2 e. Authorize decode wall rel spec rq2 grants2 = Inl e \<longrightarrow>
       err_is e (Authorization_E Auth_Denied))"
proof
  have "\<exists>d. authorize_loop rel spec (effective_request wall rq) rid grants = Inr d"
    using assms(5-8) by (rule authorize_loop_complete)
  then show "\<exists>d. Authorize decode wall rel spec rq grants = Inr d"
    using assms(1-4) by (auto simp: Authorize_def)
  show "\<forall>rq2 grants2 e. Authorize decode wall rel spec rq2 grants2 = Inl e \<longrightarrow>
      err_is e (Authorization_E Auth_Denied)"
    by (auto simp: Authorize_def dest: authorize_loop_denied split: sum.splits if_splits)
qed

section \<open>A concrete decision\<close>

definition sample_spec :: capability_spec where
  "sample_spec =
     \<lparr>cs_id = ''doc.read'', cs_version = ''1'', cs_name = ''n'', cs_description = [], cs_input_schema = ''{}'',
      cs_authorization = \<lparr>as_resource_type = ''doc'', as_resource_id_from = [], as_principal = ''any''\<rparr>,
      cs_execution = \<lparr>es_effect_target = ''none'', es_replay = ''safe'', es_confirmation_floor = ''policy''\<rparr>\<rparr>"

definition sample_grant :: "u32 \<Rightarrow> grant" where
  "sample_grant calls =
     \<lparr>g_id = ''g'', g_app_id = ''app'', g_principal = ''any'', g_capability_id = ''doc.read'',
      g_resource = \<lparr>rs_type = ''doc'', rs_ids = [], rs_relation = []\<rparr>, g_not_before = 0,
      g_expires_at = 100, g_max_calls = calls, g_max_cost = 0, g_audience = [], g_delegable = True,
      g_max_depth = 1, g_policy_revision = ''r''\<rparr>"

definition sample_request :: auth_request where
  "sample_request =
     \<lparr>rq_app_id = ''app'', rq_principal = ''user'', rq_run_id = ''run'', rq_capability_id = ''doc.read'',
      rq_payload = [], rq_now = 5, rq_calls_used = 0, rq_cost_used = 0\<rparr>"

lemma sample_ids: "is_stable_id ''g''" "is_stable_id ''app''" "is_stable_id ''doc.read''" "is_stable_id ''doc''"
  by code_simp+

lemma sample_canonical: "calls \<noteq> 0 \<Longrightarrow> canonical_grant (sample_grant calls)"
  by (simp add: canonical_grant_def sample_grant_def sample_ids)

lemma sample_covers: "0 < calls \<Longrightarrow> grant_covers (sample_grant calls) (None, sample_spec, sample_request, [])"
  by (simp add: grant_covers_def not_skipped not_exhausted)
    (simp add: sample_grant_def sample_spec_def sample_request_def PrincipalAny_def)

lemma sample_specs:
  "ValidateAuthorizationSpec (cs_authorization sample_spec) = Inr ()"
  "ValidateExecutionSpec (cs_execution sample_spec) = Inr ()"
  "resourceID decode (as_resource_id_from (cs_authorization sample_spec)) (rq_payload sample_request) = Inr []"
  "effective_request wall sample_request = sample_request"
  by (simp_all add: ValidateAuthorizationSpec_def ValidateExecutionSpec_def sample_spec_def sample_ids
      capability_names resourceID_def effective_request_def sample_request_def)

lemma sample_narrow: "NarrowGrant (sample_grant 5) (sample_grant 2) = Inr (sample_grant 2)"
proof -
  have "GrantSubset (sample_grant 2) (sample_grant 5)"
    by (simp add: GrantSubset_iff sample_grant_def word_le_nat_alt)
  then show ?thesis
    by (simp add: NarrowGrant_Inr NormalizeGrant_canonical sample_canonical)
qed

theorem authorize_complete_witness:
  "\<exists>d. Authorize (\<lambda>_. Inr J_Null) 7 None sample_spec sample_request [sample_grant 2] = Inr d"
  using authorize_complete[of sample_spec sample_request "\<lambda>_. Inr J_Null" "[]" "sample_grant 2" "[sample_grant 2]"
      "sample_grant 2" None 7]
  by (simp add: sample_specs NormalizeGrant_canonical sample_canonical sample_covers)
    (simp add: sample_spec_def PrincipalCurrentUser_def grant_blocks_def sample_grant_def)

theorem authorize_sound_witness:
  "\<exists>d. Authorize (\<lambda>_. Inr J_Null) 7 None sample_spec sample_request [sample_grant 2] = Inr d \<and>
       ad_grant d = sample_grant 2"
proof -
  have "authorize_loop None sample_spec sample_request [] [sample_grant 2] = Inr (decide_by sample_spec (sample_grant 2))"
    by (simp add: NormalizeGrant_canonical sample_canonical sample_covers)
  then have "Authorize (\<lambda>_. Inr J_Null) 7 None sample_spec sample_request [sample_grant 2] =
      Inr (decide_by sample_spec (sample_grant 2))"
    by (simp add: Authorize_def sample_specs) (simp add: sample_spec_def PrincipalCurrentUser_def)
  from authorize_sound[OF this refl] this show ?thesis
    by (auto simp: sample_grant_def)
qed

theorem narrowed_grant_attenuates_witness:
  "\<exists>p. NormalizeGrant (sample_grant 5) = Inr p \<and> grant_covers p (None, sample_spec, sample_request, [])"
  using narrowed_grant_attenuates[OF sample_narrow] sample_covers[of 2] by (simp add: sample_grant_def)

theorem delegation_chain_bounded_witness:
  "grant_covers (sample_grant 5) (None, sample_spec, sample_request, [])"
  using delegation_chain_bounded[of "sample_grant 5" "[sample_grant 2]" "sample_grant 2"] sample_covers[of 2]
    sample_narrow sample_canonical[of 5]
  by (simp add: sample_grant_def)

end
