(* ===== verification/Confirmation.thy ===== *)
theory Confirmation
  imports Capability Idempotency Go_Json
begin

text \<open>
  \<open>internal/kernel/confirmation\<close> (\<open>confirmation.go\<close> and \<open>service.go\<close>) with the canonical digest
  of \<open>internal/jsonutil/jsonutil.go\<close>: the record of a confirmation, its validation, the service over
  its store port and the verification rule of the dispatcher. The locale \<open>confirmation_port\<close> states
  what the service relies on of the port; \<open>Confirmation_Store\<close> interprets it.
\<close>

section \<open>Data\<close>

datatype conf_status = Conf_Waiting | Conf_Approved | Conf_Is_Rejected | Conf_Is_Expired | Conf_Is_Revoked
  | Conf_Other string

record confirmation =
  c_app_id :: string
  c_id :: string
  c_echo_id :: string
  c_run_id :: string
  c_call_id :: string
  c_capability_id :: string
  c_effect_target :: string
  c_idempotency_key :: string
  c_argument_digest :: string
  c_status :: conf_status
  c_expires_at :: instant
  c_confirmed_by :: string
  c_decided_at :: "instant option"
  c_created_at :: instant

record request_spec =
  sp_capability_id :: string
  sp_execution :: execution_spec
  sp_idempotency_key :: string

text \<open>\<open>runtime.ConfirmationRequest\<close>.\<close>

record confirmation_request =
  cr_app_id :: string
  cr_echo_id :: string
  cr_run_id :: string
  cr_confirmation_id :: string
  cr_capability_id :: string
  cr_effect_target :: string
  cr_idempotency_key :: string

type_synonym conf_key = "string \<times> string"

definition conf_key_of :: "confirmation \<Rightarrow> conf_key" where
  "conf_key_of c = (c_app_id c, c_id c)"

definition DefaultLifetime :: duration where "DefaultLifetime = 30 * minute"
definition maxIDBytes :: nat where "maxIDBytes = 256"
definition maxArgumentBytes :: nat where "maxArgumentBytes = 262144"

section \<open>The digest of the arguments\<close>

text \<open>
  \<open>jsonutil.CanonicalJSON\<close> and \<open>CanonicalDigest\<close>: decode, encode again, hash. Decoder, encoder and
  hash are arguments.
\<close>

definition CanonicalJSON :: "json_decoder \<Rightarrow> (json \<Rightarrow> string go_result) \<Rightarrow> string \<Rightarrow> string go_result" where
  "CanonicalJSON decode encode payload =
     (if length payload = 0 then encode (J_Object [])
      else and_then (decode payload) encode)"

definition CanonicalDigest ::
  "json_decoder \<Rightarrow> (json \<Rightarrow> string go_result) \<Rightarrow> (string \<Rightarrow> string) \<Rightarrow> string \<Rightarrow> string go_result" where
  "CanonicalDigest decode encode sha256 payload =
     and_then (CanonicalJSON decode encode payload) (\<lambda>c. Inr (sha256 c))"

abbreviation conf_invalid :: "go_error + 'a" where
  "conf_invalid \<equiv> Inl (Wrapped (Sentinel (Confirmation_E Conf_InvalidRequest)))"

definition Digest ::
  "json_decoder \<Rightarrow> (json \<Rightarrow> string go_result) \<Rightarrow> (string \<Rightarrow> string) \<Rightarrow> string \<Rightarrow> string go_result" where
  "Digest decode encode sha256 arguments =
     (if maxArgumentBytes < length arguments then conf_invalid
      else (case CanonicalDigest decode encode sha256 arguments of
              Inl _ \<Rightarrow> conf_invalid
            | Inr h \<Rightarrow> Inr (hex_bytes h)))"

section \<open>Validation\<close>

definition ValidateStatus :: "conf_status \<Rightarrow> unit go_result" where
  "ValidateStatus st = (case st of Conf_Other _ \<Rightarrow> conf_invalid | _ \<Rightarrow> Inr ())"

definition ValidateEffectTarget :: "string \<Rightarrow> unit go_result" where
  "ValidateEffectTarget v = (if v = EffectState \<or> v = EffectExternal then Inr () else conf_invalid)"

definition ValidateArgumentDigest :: "string \<Rightarrow> unit go_result" where
  "ValidateArgumentDigest v =
     (if length v \<noteq> 64 \<or> \<not> list_all is_hex_lower v then conf_invalid else Inr ())"

definition validID :: "string \<Rightarrow> bool" where
  "validID v \<longleftrightarrow> v \<noteq> [] \<and> length v \<le> maxIDBytes \<and> utf8_valid v \<and> stable_mixed_uncapped v"

definition ValidateRequest :: "confirmation_request \<Rightarrow> unit go_result" where
  "ValidateRequest r =
     (if cr_app_id r = [] \<or> cr_echo_id r = [] \<or> cr_run_id r = [] \<or> cr_confirmation_id r = []
        then conf_fail Conf_InvalidRequest
      else if maxIDBytes < length (cr_confirmation_id r) then conf_fail Conf_InvalidRequest
      else if \<not> validID (cr_capability_id r) then conf_fail Conf_InvalidRequest
      else if ValidateEffectTarget (cr_effect_target r) \<noteq> Inr () then conf_fail Conf_InvalidRequest
      else if ValidateKey (cr_idempotency_key r) \<noteq> Inr () then conf_fail Conf_InvalidRequest
      else Inr ())"

definition ValidateConfirmation :: "confirmation \<Rightarrow> unit go_result" where
  "ValidateConfirmation c =
     (if \<not> validID (c_app_id c) \<or> \<not> validID (c_id c) \<or> \<not> validID (c_echo_id c) \<or>
         \<not> validID (c_run_id c) \<or> \<not> validID (c_call_id c) then conf_fail Conf_InvalidRequest
      else if \<not> validID (c_capability_id c) then conf_fail Conf_InvalidRequest
      else if ValidateEffectTarget (c_effect_target c) \<noteq> Inr () \<or> ValidateKey (c_idempotency_key c) \<noteq> Inr ()
        then conf_fail Conf_InvalidRequest
      else if ValidateArgumentDigest (c_argument_digest c) \<noteq> Inr () then conf_fail Conf_InvalidRequest
      else if ValidateStatus (c_status c) \<noteq> Inr () then conf_fail Conf_InvalidRequest
      else if is_zero (c_created_at c) \<or> is_zero (c_expires_at c) \<or> \<not> after (c_expires_at c) (c_created_at c)
        then conf_fail Conf_InvalidRequest
      else if (c_status c = Conf_Waiting \<and> c_decided_at c \<noteq> None) \<or>
              (c_status c \<noteq> Conf_Waiting \<and> (case c_decided_at c of None \<Rightarrow> True | Some d \<Rightarrow> is_zero d))
        then conf_fail Conf_InvalidRequest
      else if (c_status c = Conf_Approved \<or> c_status c = Conf_Is_Rejected) \<and> c_confirmed_by c = []
        then conf_fail Conf_InvalidRequest
      else Inr ())"

section \<open>The store port and the service\<close>

record 's conf_port =
  cp_create :: "confirmation \<Rightarrow> 's \<Rightarrow> 's \<times> unit go_result"
  cp_get :: "string \<Rightarrow> string \<Rightarrow> 's \<Rightarrow> confirmation go_result"
  cp_decide :: "string \<Rightarrow> string \<Rightarrow> conf_status \<Rightarrow> string \<Rightarrow> instant \<Rightarrow> 's \<Rightarrow> 's \<times> (confirmation \<times> bool) go_result"
  cp_revoke :: "string \<Rightarrow> string \<Rightarrow> instant \<Rightarrow> 's \<Rightarrow> 's \<times> (confirmation \<times> bool) go_result"
  cp_expire :: "string \<Rightarrow> string \<Rightarrow> instant \<Rightarrow> 's \<Rightarrow> 's \<times> (confirmation \<times> bool) go_result"
  cp_expire_due :: "string \<Rightarrow> instant \<Rightarrow> 's \<Rightarrow> 's \<times> int go_result"
  cp_revoke_run :: "string \<Rightarrow> string \<Rightarrow> instant \<Rightarrow> 's \<Rightarrow> 's \<times> int go_result"

definition effectiveExpiry :: "instant \<Rightarrow> instant \<Rightarrow> instant go_result" where
  "effectiveExpiry expires now =
     (if is_zero expires then Inr (now + DefaultLifetime)
      else if \<not> after expires now then conf_invalid else Inr expires)"

text \<open>\<open>Service.Request\<close>; \<open>new_id\<close> is the identifier drawn, \<open>digest\<close> the function above.\<close>

definition ServiceRequest ::
  "'s conf_port \<Rightarrow> (string \<Rightarrow> string go_result) \<Rightarrow> instant \<Rightarrow> string
     \<Rightarrow> string \<Rightarrow> string \<Rightarrow> string \<Rightarrow> string \<Rightarrow> request_spec \<Rightarrow> string \<Rightarrow> instant
     \<Rightarrow> 's \<Rightarrow> 's \<times> confirmation go_result" where
  "ServiceRequest port digest now new_id app echo run call spec arguments expires s =
     (case digest arguments of
        Inl e \<Rightarrow> (s, Inl e)
      | Inr d \<Rightarrow>
     (case effectiveExpiry expires now of
        Inl e \<Rightarrow> (s, Inl e)
      | Inr expiry \<Rightarrow>
        let c = \<lparr>c_app_id = app, c_id = new_id, c_echo_id = echo, c_run_id = run, c_call_id = call,
                 c_capability_id = sp_capability_id spec,
                 c_effect_target = es_effect_target (sp_execution spec),
                 c_idempotency_key = sp_idempotency_key spec, c_argument_digest = d,
                 c_status = Conf_Waiting, c_expires_at = expiry, c_confirmed_by = [],
                 c_decided_at = None, c_created_at = now\<rparr>
        in (case ValidateConfirmation c of
              Inl e \<Rightarrow> (s, Inl e)
            | Inr _ \<Rightarrow>
                (case cp_create port c s of
                   (s', Inl e) \<Rightarrow> (s', Inl e)
                 | (s', Inr _) \<Rightarrow> (s', Inr c)))))"

definition ServiceDecide ::
  "'s conf_port \<Rightarrow> string \<Rightarrow> string \<Rightarrow> conf_status \<Rightarrow> string \<Rightarrow> instant \<Rightarrow> 's \<Rightarrow> 's \<times> confirmation go_result" where
  "ServiceDecide port app cid decision by_whom decided s =
     (if decision \<noteq> Conf_Approved \<and> decision \<noteq> Conf_Is_Rejected then (s, conf_invalid)
      else if app = [] \<or> cid = [] \<or> by_whom = [] \<or> is_zero decided then (s, conf_fail Conf_InvalidRequest)
      else case cp_decide port app cid decision by_whom decided s of
        (s', Inl e) \<Rightarrow> (s', Inl e)
      | (s', Inr (c, transitioned)) \<Rightarrow>
          if transitioned then (s', Inr c)
          else if \<not> after (c_expires_at c) decided \<or> c_status c = Conf_Is_Expired then (s', conf_fail Conf_Expired)
          else if c_status c = Conf_Is_Revoked then (s', conf_fail Conf_Revoked)
          else if c_status c = Conf_Approved \<and> decision = Conf_Approved then (s', Inr c)
          else if c_status c = Conf_Is_Rejected \<and> decision = Conf_Is_Rejected then (s', Inr c)
          else (s', conf_fail Conf_AlreadyDecided))"

definition ServiceRevoke ::
  "'s conf_port \<Rightarrow> string \<Rightarrow> string \<Rightarrow> instant \<Rightarrow> 's \<Rightarrow> 's \<times> confirmation go_result" where
  "ServiceRevoke port app cid now s =
     (if app = [] \<or> cid = [] \<or> is_zero now then (s, conf_fail Conf_InvalidRequest)
      else case cp_revoke port app cid now s of
        (s', Inl e) \<Rightarrow> (s', Inl e)
      | (s', Inr (c, transitioned)) \<Rightarrow>
          if transitioned then (s', Inr c)
          else if \<not> after (c_expires_at c) now \<or> c_status c = Conf_Is_Expired then (s', conf_fail Conf_Expired)
          else if c_status c = Conf_Is_Revoked then (s', Inr c)
          else if c_status c = Conf_Is_Rejected then (s', conf_fail Conf_AlreadyDecided)
          else (s', conf_fail Conf_InvalidTransition))"

definition ServiceExpire ::
  "'s conf_port \<Rightarrow> string \<Rightarrow> string \<Rightarrow> instant \<Rightarrow> 's \<Rightarrow> 's \<times> confirmation go_result" where
  "ServiceExpire port app cid now s =
     (if app = [] \<or> cid = [] \<or> is_zero now then (s, conf_fail Conf_InvalidRequest)
      else case cp_expire port app cid now s of
        (s', Inl e) \<Rightarrow> (s', Inl e)
      | (s', Inr (c, transitioned)) \<Rightarrow>
          if transitioned then (s', Inr c)
          else (case c_status c of
                  Conf_Is_Expired \<Rightarrow> (s', Inr c)
                | Conf_Is_Revoked \<Rightarrow> (s', conf_fail Conf_Revoked)
                | Conf_Is_Rejected \<Rightarrow> (s', conf_fail Conf_AlreadyDecided)
                | _ \<Rightarrow> (s', conf_fail Conf_InvalidTransition)))"

definition ServiceExpireDue :: "'s conf_port \<Rightarrow> string \<Rightarrow> instant \<Rightarrow> 's \<Rightarrow> 's \<times> int go_result" where
  "ServiceExpireDue port app now s =
     (if app = [] \<or> is_zero now then (s, conf_fail Conf_InvalidRequest)
      else cp_expire_due port app now s)"

definition ServiceRevokeRun :: "'s conf_port \<Rightarrow> string \<Rightarrow> string \<Rightarrow> instant \<Rightarrow> 's \<Rightarrow> 's \<times> int go_result" where
  "ServiceRevokeRun port app run now s =
     (if app = [] \<or> run = [] \<or> is_zero now then (s, conf_fail Conf_InvalidRequest)
      else cp_revoke_run port app run now s)"

text \<open>\<open>Resolve\<close> returns the record beside the error: the error is the second component.\<close>

definition Resolve ::
  "'s conf_port \<Rightarrow> instant \<Rightarrow> string \<Rightarrow> string \<Rightarrow> 's \<Rightarrow> confirmation option \<times> go_error option" where
  "Resolve port now app cid s =
     (case cp_get port app cid s of
        Inl e \<Rightarrow> (None, Some e)
      | Inr c \<Rightarrow>
          if c_status c = Conf_Is_Expired \<or>
             ((c_status c = Conf_Waiting \<or> c_status c = Conf_Approved) \<and> \<not> after (c_expires_at c) now)
          then (Some c, Some (Sentinel (Confirmation_E Conf_Expired)))
          else (Some c, None))"

definition verifyRecord :: "confirmation \<Rightarrow> confirmation_request \<Rightarrow> instant \<Rightarrow> unit go_result" where
  "verifyRecord c r now =
     (if c_app_id c \<noteq> cr_app_id r \<or> c_capability_id c \<noteq> cr_capability_id r \<or> c_echo_id c \<noteq> cr_echo_id r \<or>
         c_run_id c \<noteq> cr_run_id r \<or> c_effect_target c \<noteq> cr_effect_target r \<or>
         c_idempotency_key c \<noteq> cr_idempotency_key r then conf_fail Conf_ScopeMismatch
      else if \<not> after (c_expires_at c) now then conf_fail Conf_Expired
      else (case c_status c of
              Conf_Approved \<Rightarrow> Inr ()
            | Conf_Is_Expired \<Rightarrow> conf_fail Conf_Expired
            | Conf_Is_Revoked \<Rightarrow> conf_fail Conf_Revoked
            | _ \<Rightarrow> conf_fail Conf_NotApproved))"

definition VerifyConfirmation :: "'s conf_port \<Rightarrow> instant \<Rightarrow> confirmation_request \<Rightarrow> 's \<Rightarrow> unit go_result" where
  "VerifyConfirmation port now r s =
     (case ValidateRequest r of
        Inl e \<Rightarrow> Inl e
      | Inr _ \<Rightarrow>
          (case cp_get port (cr_app_id r) (cr_confirmation_id r) s of
             Inl e \<Rightarrow> Inl e
           | Inr c \<Rightarrow> verifyRecord c r now))"

lemma verifyRecord_Inr:
  "verifyRecord c r now = Inr () \<longleftrightarrow>
     c_status c = Conf_Approved \<and> now < c_expires_at c \<and> c_app_id c = cr_app_id r \<and>
     c_capability_id c = cr_capability_id r \<and> c_echo_id c = cr_echo_id r \<and> c_run_id c = cr_run_id r \<and>
     c_effect_target c = cr_effect_target r \<and> c_idempotency_key c = cr_idempotency_key r"
  by (auto simp: verifyRecord_def split: conf_status.splits)

section \<open>The contract of the store port\<close>

text \<open>
  \<open>look s k\<close> is the record a read of \<open>k\<close> finds; \<open>evolves\<close> relates the stores before and after
  any operations of any callers. A confirmation leaves waiting only by a decision or an
  invalidation, and approved only by an invalidation; the three end states stay.
\<close>

definition invalid_for_good :: "conf_status \<Rightarrow> bool" where
  "invalid_for_good st \<longleftrightarrow> st = Conf_Is_Rejected \<or> st = Conf_Is_Expired \<or> st = Conf_Is_Revoked"

locale confirmation_port =
  fixes port :: "'s conf_port"
    and look :: "'s \<Rightarrow> conf_key \<Rightarrow> confirmation option"
    and evolves :: "'s \<Rightarrow> 's \<Rightarrow> bool"
    and good :: "'s \<Rightarrow> bool"
  assumes evolves_good: "evolves s s' \<Longrightarrow> good s \<Longrightarrow> good s'"
    and get_finds: "cp_get port app cid s = Inr c \<Longrightarrow> look s (app, cid) = Some c"
    and ends_stay: "evolves s s' \<Longrightarrow> good s \<Longrightarrow> look s k = Some c \<Longrightarrow> invalid_for_good (c_status c) \<Longrightarrow>
          look s' k = Some c"
    and decide_evolves: "cp_decide port app cid st who at s = (s', x) \<Longrightarrow> evolves s s'"
    and revoke_evolves: "cp_revoke port app cid at s = (s', x) \<Longrightarrow> evolves s s'"
    and expire_evolves: "cp_expire port app cid at s = (s', x) \<Longrightarrow> evolves s s'"
    and decide_returns: "good s \<Longrightarrow> cp_decide port app cid st who at s = (s', Inr (c, moved)) \<Longrightarrow>
          look s' (app, cid) = Some c \<and> (moved \<longrightarrow> c_status c = st)"
    and revoke_returns: "good s \<Longrightarrow> cp_revoke port app cid at s = (s', Inr (c, moved)) \<Longrightarrow>
          look s' (app, cid) = Some c \<and> (moved \<longrightarrow> c_status c = Conf_Is_Revoked)"
    and expire_returns: "good s \<Longrightarrow> cp_expire port app cid at s = (s', Inr (c, moved)) \<Longrightarrow>
          look s' (app, cid) = Some c \<and> (moved \<longrightarrow> c_status c = Conf_Is_Expired)"
begin

lemma verified_approved:
  assumes "VerifyConfirmation port now r s = Inr ()"
  shows "\<exists>c. look s (cr_app_id r, cr_confirmation_id r) = Some c \<and> verifyRecord c r now = Inr ()"
  using assms get_finds by (fastforce simp: VerifyConfirmation_def split: sum.splits)

lemma ended_never_verifies:
  assumes "good s" and "evolves s s'" and "look s (cr_app_id r, cr_confirmation_id r) = Some c"
    and "invalid_for_good (c_status c)"
  shows "VerifyConfirmation port now r s' \<noteq> Inr ()"
proof
  assume "VerifyConfirmation port now r s' = Inr ()"
  then obtain c' where "look s' (cr_app_id r, cr_confirmation_id r) = Some c'" "c_status c' = Conf_Approved"
    using verified_approved[of now r s'] by (auto simp: verifyRecord_Inr)
  then show False
    using ends_stay[OF assms(2,1,3,4)] assms(4) by (simp add: invalid_for_good_def)
qed

lemma ServiceRevoke_ends:
  assumes "good s" and "ServiceRevoke port app cid now s = (s', Inr c)"
  shows "look s' (app, cid) = Some c \<and> c_status c = Conf_Is_Revoked"
  using assms revoke_returns by (fastforce simp: ServiceRevoke_def split: if_splits prod.splits sum.splits)

lemma ServiceExpire_ends:
  assumes "good s" and "ServiceExpire port app cid now s = (s', Inr c)"
  shows "look s' (app, cid) = Some c \<and> c_status c = Conf_Is_Expired"
  using assms expire_returns
  by (fastforce simp: ServiceExpire_def split: if_splits prod.splits sum.splits conf_status.splits)

lemma ServiceDecide_agrees:
  assumes "good s" and "ServiceDecide port app cid st who at s = (s', Inr c)"
  shows "look s' (app, cid) = Some c \<and> c_status c = st \<and> st \<in> {Conf_Approved, Conf_Is_Rejected}"
  using assms decide_returns by (fastforce simp: ServiceDecide_def split: if_splits prod.splits sum.splits)

lemma revoked_never_verifies:
  assumes "good s" and "ServiceRevoke port (cr_app_id r) (cr_confirmation_id r) now s = (s1, Inr c)"
    and "evolves s1 s2"
  shows "VerifyConfirmation port later r s2 \<noteq> Inr ()"
proof -
  have "evolves s s1 \<or> s1 = s"
    using assms(2) revoke_evolves by (auto simp: ServiceRevoke_def split: if_splits prod.splits sum.splits)
  then have "good s1" using assms(1) evolves_good by blast
  then show ?thesis
    using ended_never_verifies[OF _ assms(3)] ServiceRevoke_ends[OF assms(1,2)]
    by (simp add: invalid_for_good_def)
qed

end

end
