(* ===== verification/Confirmation_Store.thy ===== *)
theory Confirmation_Store
  imports Confirmation Sql_Table
begin

text \<open>
  \<open>internal/storage/sqlite/confirmation_store.go\<close> over table \<open>confirmations\<close> of \<open>schema.sql\<close>: the
  store operations, their interleavings as a labelled step relation, the interpretation of the store
  port of package confirmation, and the guarantees of the confirmation service on this store.
\<close>

section \<open>The table\<close>

type_synonym conf_table = "confirmation list"

definition conf_row_check :: "sql_driver \<Rightarrow> confirmation \<Rightarrow> bool" where
  "conf_row_check drv c \<longleftrightarrow>
     (c_effect_target c = ''governed_state'' \<or> c_effect_target c = ''external'') \<and>
     1 \<le> sql_length (c_idempotency_key c) \<and> sql_length (c_idempotency_key c) \<le> 128 \<and>
     sql_length (c_argument_digest c) = 64 \<and>
     (case c_status c of Conf_Other _ \<Rightarrow> False | _ \<Rightarrow> True) \<and>
     julianday drv (c_created_at c) < julianday drv (c_expires_at c) \<and>
     ((c_status c = Conf_Waiting \<and> c_decided_at c = None) \<or>
      (c_status c \<noteq> Conf_Waiting \<and> c_decided_at c \<noteq> None))"

definition conf_table_ok :: "sql_driver \<Rightarrow> conf_table \<Rightarrow> bool" where
  "conf_table_ok drv = table_ok (conf_row_check drv) conf_key_of"

section \<open>The store operations\<close>

text \<open>The insert leaves \<open>confirmed_by\<close> at its default and \<open>decided_at\<close> NULL; \<open>references\<close> tells whether
  the Echo and the Run of the foreign keys exist.\<close>

definition conf_row_of :: "confirmation \<Rightarrow> confirmation" where
  "conf_row_of c = c\<lparr>c_confirmed_by := [], c_decided_at := None\<rparr>"

definition ConfCreate ::
  "sql_driver \<Rightarrow> (confirmation \<Rightarrow> bool) \<Rightarrow> confirmation \<Rightarrow> conf_table \<Rightarrow> conf_table \<times> unit go_result" where
  "ConfCreate drv references c t =
     (case ValidateConfirmation c of
        Inl e \<Rightarrow> (t, Inl e)
      | Inr _ \<Rightarrow>
        if c_status c \<noteq> Conf_Waiting \<or> c_decided_at c \<noteq> None \<or> c_confirmed_by c \<noteq> [] then (t, conf_invalid)
        else
          (case exec_insert (\<lambda>r. conf_row_check drv r \<and> references r) conf_key_of (conf_row_of c) t of
             None \<Rightarrow>
               if isUniqueConstraint constraint_error then (t, conf_fail Conf_Duplicate)
               else (t, Inl constraint_error)
           | Some t' \<Rightarrow> (t', Inr ())))"

definition ConfGet :: "string \<Rightarrow> string \<Rightarrow> conf_table \<Rightarrow> confirmation go_result" where
  "ConfGet app cid t =
     (if app = [] \<or> cid = [] then conf_fail Conf_InvalidRequest
      else case select_key conf_key_of (app, cid) t of
        None \<Rightarrow> conf_fail Conf_NotFound
      | Some c \<Rightarrow> Inr c)"

text \<open>The \<open>WHERE\<close> and \<open>SET\<close> clauses.\<close>

definition open_status :: "confirmation \<Rightarrow> bool" where
  "open_status c \<longleftrightarrow> c_status c = Conf_Waiting \<or> c_status c = Conf_Approved"

datatype conf_write =
    CW_Decide conf_key conf_status string instant
  | CW_Revoke conf_key instant
  | CW_Expire conf_key instant
  | CW_Expire_Due string instant
  | CW_Revoke_Run string string instant

fun conf_where :: "sql_driver \<Rightarrow> conf_write \<Rightarrow> confirmation \<Rightarrow> bool" where
  "conf_where drv (CW_Decide k st who at) c =
     (conf_key_of c = k \<and> c_status c = Conf_Waiting \<and> julianday drv at \<le> julianday drv (c_expires_at c))"
| "conf_where drv (CW_Revoke k at) c =
     (conf_key_of c = k \<and> open_status c \<and> julianday drv at \<le> julianday drv (c_expires_at c))"
| "conf_where drv (CW_Expire k at) c = (conf_key_of c = k \<and> open_status c)"
| "conf_where drv (CW_Expire_Due app now) c =
     (c_app_id c = app \<and> open_status c \<and> julianday drv (c_expires_at c) \<le> julianday drv now)"
| "conf_where drv (CW_Revoke_Run app run now) c = (c_app_id c = app \<and> c_run_id c = run \<and> open_status c)"

fun conf_set :: "conf_write \<Rightarrow> confirmation \<Rightarrow> confirmation" where
  "conf_set (CW_Decide k st who at) c = c\<lparr>c_status := st, c_confirmed_by := who, c_decided_at := Some at\<rparr>"
| "conf_set (CW_Revoke k at) c = c\<lparr>c_status := Conf_Is_Revoked, c_decided_at := Some at\<rparr>"
| "conf_set (CW_Expire k at) c = c\<lparr>c_status := Conf_Is_Expired, c_decided_at := Some at\<rparr>"
| "conf_set (CW_Expire_Due app now) c = c\<lparr>c_status := Conf_Is_Expired, c_decided_at := Some now\<rparr>"
| "conf_set (CW_Revoke_Run app run now) c = c\<lparr>c_status := Conf_Is_Revoked, c_decided_at := Some now\<rparr>"

definition conf_update :: "sql_driver \<Rightarrow> conf_write \<Rightarrow> conf_table \<Rightarrow> (conf_table \<times> nat) option" where
  "conf_update drv w t = exec_update (conf_row_check drv) (conf_where drv w) (conf_set w) t"

text \<open>A single-record write reads the record back and says whether it was this write that moved it.\<close>

definition conf_write_one ::
  "sql_driver \<Rightarrow> conf_write \<Rightarrow> string \<Rightarrow> string \<Rightarrow> conf_table \<Rightarrow> conf_table \<times> (confirmation \<times> bool) go_result" where
  "conf_write_one drv w app cid t =
     (case conf_update drv w t of
        None \<Rightarrow> (t, Inl constraint_error)
      | Some (t', n) \<Rightarrow> (t', and_then (ConfGet app cid t') (\<lambda>c. Inr (c, n = 1))))"

definition ConfDecide ::
  "sql_driver \<Rightarrow> string \<Rightarrow> string \<Rightarrow> conf_status \<Rightarrow> string \<Rightarrow> instant \<Rightarrow> conf_table
     \<Rightarrow> conf_table \<times> (confirmation \<times> bool) go_result" where
  "ConfDecide drv app cid st who at t =
     (if app = [] \<or> cid = [] \<or> (st \<noteq> Conf_Approved \<and> st \<noteq> Conf_Is_Rejected) \<or> who = [] \<or> is_zero at
      then (t, conf_fail Conf_InvalidRequest)
      else conf_write_one drv (CW_Decide (app, cid) st who at) app cid t)"

definition ConfRevoke ::
  "sql_driver \<Rightarrow> string \<Rightarrow> string \<Rightarrow> instant \<Rightarrow> conf_table \<Rightarrow> conf_table \<times> (confirmation \<times> bool) go_result" where
  "ConfRevoke drv app cid at t =
     (if app = [] \<or> cid = [] \<or> is_zero at then (t, conf_fail Conf_InvalidRequest)
      else conf_write_one drv (CW_Revoke (app, cid) at) app cid t)"

definition ConfExpire ::
  "sql_driver \<Rightarrow> string \<Rightarrow> string \<Rightarrow> instant \<Rightarrow> conf_table \<Rightarrow> conf_table \<times> (confirmation \<times> bool) go_result" where
  "ConfExpire drv app cid at t =
     (if app = [] \<or> cid = [] \<or> is_zero at then (t, conf_fail Conf_InvalidRequest)
      else conf_write_one drv (CW_Expire (app, cid) at) app cid t)"

definition ConfExpireDue :: "sql_driver \<Rightarrow> string \<Rightarrow> instant \<Rightarrow> conf_table \<Rightarrow> conf_table \<times> int go_result" where
  "ConfExpireDue drv app now t =
     (if app = [] \<or> is_zero now then (t, conf_fail Conf_InvalidRequest)
      else case conf_update drv (CW_Expire_Due app now) t of
        None \<Rightarrow> (t, Inl constraint_error)
      | Some (t', n) \<Rightarrow> (t', Inr (int n)))"

definition ConfRevokeRun ::
  "sql_driver \<Rightarrow> string \<Rightarrow> string \<Rightarrow> instant \<Rightarrow> conf_table \<Rightarrow> conf_table \<times> int go_result" where
  "ConfRevokeRun drv app run now t =
     (if app = [] \<or> run = [] \<or> is_zero now then (t, conf_fail Conf_InvalidRequest)
      else case conf_update drv (CW_Revoke_Run app run now) t of
        None \<Rightarrow> (t, Inl constraint_error)
      | Some (t', n) \<Rightarrow> (t', Inr (int n)))"

definition sqlite_conf_port :: "sql_driver \<Rightarrow> (confirmation \<Rightarrow> bool) \<Rightarrow> conf_table conf_port" where
  "sqlite_conf_port drv references =
     \<lparr>cp_create = ConfCreate drv references, cp_get = ConfGet, cp_decide = ConfDecide drv,
      cp_revoke = ConfRevoke drv, cp_expire = ConfExpire drv, cp_expire_due = ConfExpireDue drv,
      cp_revoke_run = ConfRevokeRun drv\<rparr>"

section \<open>Labelled interleavings\<close>

text \<open>A step is the creation of a record or one of the writes, labelled by it.\<close>

datatype conf_event = Ev_Create confirmation | Ev_Write conf_write | Ev_None

inductive conf_step ::
  "sql_driver \<Rightarrow> (confirmation \<Rightarrow> bool) \<Rightarrow> conf_event \<Rightarrow> conf_table \<Rightarrow> conf_table \<Rightarrow> bool" for drv references where
  create: "ConfCreate drv references c t = (t', Inr ()) \<Longrightarrow> conf_step drv references (Ev_Create c) t t'"
| update: "conf_update drv w t = Some (t', n) \<Longrightarrow> conf_step drv references (Ev_Write w) t t'"
| none: "conf_step drv references Ev_None t t"

inductive conf_trace ::
  "sql_driver \<Rightarrow> (confirmation \<Rightarrow> bool) \<Rightarrow> conf_event list \<Rightarrow> conf_table \<Rightarrow> conf_table \<Rightarrow> bool" for drv references where
  empty: "conf_trace drv references [] t t"
| extend: "conf_trace drv references evs t t' \<Longrightarrow> conf_step drv references ev t' t'' \<Longrightarrow>
    conf_trace drv references (evs @ [ev]) t t''"

definition conf_evolves :: "sql_driver \<Rightarrow> (confirmation \<Rightarrow> bool) \<Rightarrow> conf_table \<Rightarrow> conf_table \<Rightarrow> bool" where
  "conf_evolves drv references t t' \<longleftrightarrow> (\<exists>evs. conf_trace drv references evs t t')"

lemma conf_trace_single: "conf_step drv references ev t t' \<Longrightarrow> conf_trace drv references [ev] t t'"
  using conf_trace.extend[OF conf_trace.empty] by fastforce

lemma conf_evolves_refl [simp]: "conf_evolves drv references t t"
  unfolding conf_evolves_def using conf_trace.empty by blast

lemma conf_set_key [simp]: "conf_key_of (conf_set w c) = conf_key_of c"
  by (cases w) (simp_all add: conf_key_of_def)

lemma conf_where_open: "conf_where drv w c \<Longrightarrow> open_status c"
  by (cases w) (auto simp: open_status_def)

lemma conf_row_of_key [simp]: "conf_key_of (conf_row_of c) = conf_key_of c"
  by (simp add: conf_key_of_def conf_row_of_def)

lemma ConfCreate_done:
  assumes "ConfCreate drv references c t = (t', Inr ())"
  shows "ValidateConfirmation c = Inr () \<and> c_status c = Conf_Waiting \<and> c_confirmed_by c = [] \<and>
    exec_insert (\<lambda>r. conf_row_check drv r \<and> references r) conf_key_of (conf_row_of c) t = Some t'"
  using assms by (auto simp: ConfCreate_def split: sum.splits if_splits option.splits)

lemma conf_update_select:
  "conf_update drv w t = Some (t', n) \<Longrightarrow>
     select_key conf_key_of k t' =
       map_option (\<lambda>c. if conf_where drv w c then conf_set w c else c) (select_key conf_key_of k t)"
  by (simp add: conf_update_def exec_update_Some select_update_where)

lemma conf_step_ok: "conf_step drv references ev t t' \<Longrightarrow> conf_table_ok drv t \<Longrightarrow> conf_table_ok drv t'"
proof (induction rule: conf_step.induct)
  case (create c t t')
  then show ?case
    using ConfCreate_done by (fastforce simp: conf_table_ok_def exec_insert_Some table_ok_def)
next
  case (update w t t' n)
  then show ?case
    using exec_update_ok[of "conf_row_check drv" conf_key_of t "conf_where drv w" "conf_set w" t' n]
    by (simp add: conf_table_ok_def conf_update_def)
qed simp

lemma conf_trace_ok: "conf_trace drv references evs t t' \<Longrightarrow> conf_table_ok drv t \<Longrightarrow> conf_table_ok drv t'"
  by (induction rule: conf_trace.induct) (auto intro: conf_step_ok)

lemma conf_step_ends:
  "conf_step drv references ev t t' \<Longrightarrow> select_key conf_key_of k t = Some c \<Longrightarrow> invalid_for_good (c_status c) \<Longrightarrow>
     select_key conf_key_of k t' = Some c"
proof (induction rule: conf_step.induct)
  case (create c0 t t')
  then show ?case
    using ConfCreate_done by (fastforce simp: exec_insert_Some select_key_append)
next
  case (update w t t' n)
  then have "\<not> conf_where drv w c"
    by (auto simp: invalid_for_good_def open_status_def dest!: conf_where_open)
  then show ?case using update by (simp add: conf_update_select)
qed simp

lemma conf_trace_ends:
  "conf_trace drv references evs t t' \<Longrightarrow> select_key conf_key_of k t = Some c \<Longrightarrow> invalid_for_good (c_status c) \<Longrightarrow>
     select_key conf_key_of k t' = Some c"
  by (induction rule: conf_trace.induct) (auto dest: conf_step_ends)

section \<open>The store implements the port\<close>

lemma conf_write_one_evolves:
  "conf_write_one drv w app cid t = (t', x) \<Longrightarrow> conf_evolves drv references t t'"
  unfolding conf_evolves_def
  by (auto simp: conf_write_one_def split: option.splits intro: conf_trace_single conf_step.update conf_trace.empty)

lemma conf_write_one_returns:
  assumes "conf_table_ok drv t" and "conf_write_one drv w app cid t = (t', Inr (c, moved))"
    and "\<And>r. conf_where drv w r \<Longrightarrow> conf_key_of r = (app, cid)"
  shows "select_key conf_key_of (app, cid) t' = Some c \<and> (moved \<longrightarrow> (\<exists>r. c = conf_set w r))"
proof -
  obtain n where u: "conf_update drv w t = Some (t', n)" and got: "ConfGet app cid t' = Inr c" and m: "moved \<longleftrightarrow> n = 1"
    using assms(2) by (auto simp: conf_write_one_def and_then_Inr split: option.splits prod.splits)
  have sel: "select_key conf_key_of (app, cid) t' = Some c"
    using got by (auto simp: ConfGet_def split: if_splits option.splits)
  moreover have "\<exists>r. c = conf_set w r" if moved
  proof -
    have d: "distinct (map conf_key_of t)"
      using assms(1) by (simp add: conf_table_ok_def table_ok_def)
    have "0 < affected (conf_where drv w) t"
      using u that m by (simp add: conf_update_def exec_update_Some)
    then obtain r where "r \<in> set t" "conf_where drv w r"
      unfolding affected_pos_iff by blast
    then have "select_key conf_key_of (app, cid) t' = Some (conf_set w r)"
      using conf_update_select[OF u, of "(app, cid)"] select_key_Some[OF d, of "(app, cid)" r] assms(3) by simp
    then show ?thesis using sel by auto
  qed
  ultimately show ?thesis by blast
qed

interpretation conf_store: confirmation_port "sqlite_conf_port drv references"
  "\<lambda>t k. select_key conf_key_of k t" "conf_evolves drv references" "conf_table_ok drv" for drv references
proof (unfold_locales, goal_cases)
  case (1 s s')
  then show ?case using conf_trace_ok by (auto simp: conf_evolves_def)
next
  case (2 app cid s c)
  then show ?case by (auto simp: sqlite_conf_port_def ConfGet_def split: if_splits option.splits)
next
  case (3 s s' k c)
  then show ?case using conf_trace_ends[of drv references _ s s' k c] by (auto simp: conf_evolves_def)
next
  case (4 app cid st who at s s' x)
  then show ?case
    by (auto simp: sqlite_conf_port_def ConfDecide_def split: if_splits intro: conf_write_one_evolves)
next
  case (5 app cid at s s' x)
  then show ?case
    by (auto simp: sqlite_conf_port_def ConfRevoke_def split: if_splits intro: conf_write_one_evolves)
next
  case (6 app cid at s s' x)
  then show ?case
    by (auto simp: sqlite_conf_port_def ConfExpire_def split: if_splits intro: conf_write_one_evolves)
next
  case (7 s app cid st who at s' c moved)
  then have "conf_write_one drv (CW_Decide (app, cid) st who at) app cid s = (s', Inr (c, moved))"
    by (auto simp: sqlite_conf_port_def ConfDecide_def split: if_splits)
  from conf_write_one_returns[OF 7(1) this] show ?case by auto
next
  case (8 s app cid at s' c moved)
  then have "conf_write_one drv (CW_Revoke (app, cid) at) app cid s = (s', Inr (c, moved))"
    by (auto simp: sqlite_conf_port_def ConfRevoke_def split: if_splits)
  from conf_write_one_returns[OF 8(1) this] show ?case by auto
next
  case (9 s app cid at s' c moved)
  then have "conf_write_one drv (CW_Expire (app, cid) at) app cid s = (s', Inr (c, moved))"
    by (auto simp: sqlite_conf_port_def ConfExpire_def split: if_splits)
  from conf_write_one_returns[OF 9(1) this] show ?case by auto
qed

section \<open>Facts on traces\<close>

text \<open>The fields that bind a confirmation to one effect.\<close>

definition same_scope :: "confirmation \<Rightarrow> confirmation \<Rightarrow> bool" where
  "same_scope c d \<longleftrightarrow>
     conf_key_of c = conf_key_of d \<and> c_echo_id c = c_echo_id d \<and> c_run_id c = c_run_id d \<and>
     c_call_id c = c_call_id d \<and> c_capability_id c = c_capability_id d \<and>
     c_effect_target c = c_effect_target d \<and> c_idempotency_key c = c_idempotency_key d \<and>
     c_argument_digest c = c_argument_digest d \<and> c_expires_at c = c_expires_at d"

lemma same_scope_set [simp]: "same_scope (conf_set w c) d \<longleftrightarrow> same_scope c d"
  by (cases w) (simp_all add: same_scope_def conf_key_of_def)

definition explained :: "conf_event list \<Rightarrow> confirmation \<Rightarrow> bool" where
  "explained evs c \<longleftrightarrow>
     (\<exists>d. Ev_Create d \<in> set evs \<and> same_scope c d) \<and>
     (c_status c = Conf_Approved \<longrightarrow>
        (\<exists>who at. Ev_Write (CW_Decide (conf_key_of c) Conf_Approved who at) \<in> set evs))"

lemma explained_more: "explained evs c \<Longrightarrow> explained (evs @ [ev]) c"
  by (auto simp: explained_def)

lemma explained_write:
  assumes "explained evs c" and "conf_where drv w c"
  shows "explained (evs @ [Ev_Write w]) (conf_set w c)"
proof -
  have "\<exists>d. Ev_Create d \<in> set evs \<and> same_scope (conf_set w c) d"
    using assms(1) by (auto simp: explained_def)
  moreover have "\<exists>who at. w = CW_Decide (conf_key_of c) Conf_Approved who at"
    if "c_status (conf_set w c) = Conf_Approved"
    using that assms(2) by (cases w) auto
  ultimately show ?thesis
    unfolding explained_def by auto
qed

lemma conf_trace_explained:
  "conf_trace drv references evs t t' \<Longrightarrow> t = [] \<Longrightarrow> c \<in> set t' \<Longrightarrow> explained evs c"
proof (induction arbitrary: c rule: conf_trace.induct)
  case (extend evs t t' ev t'')
  from extend.hyps(2) show ?case
  proof (cases rule: conf_step.cases)
    case (create d)
    then have "t'' = t' @ [conf_row_of d]" "c_status d = Conf_Waiting"
      using ConfCreate_done by (fastforce simp: exec_insert_Some)+
    moreover have "explained (evs @ [ev]) (conf_row_of d)"
      using create calculation(2)
      by (auto simp: explained_def conf_row_of_def same_scope_def conf_key_of_def)
    ultimately show ?thesis
      using extend explained_more by auto
  next
    case (update w n)
    then have "t'' = update_where (conf_where drv w) (conf_set w) t'"
      by (simp add: conf_update_def exec_update_Some)
    then show ?thesis
      using extend explained_more explained_write update(1) by (auto simp: set_update_where)
  next
    case none
    then show ?thesis using extend explained_more by auto
  qed
qed simp

section \<open>A concrete confirmation\<close>

definition sample_conf :: confirmation where
  "sample_conf =
     \<lparr>c_app_id = ''app'', c_id = ''c1'', c_echo_id = ''e'', c_run_id = ''r'', c_call_id = ''call'',
      c_capability_id = ''mail.send'', c_effect_target = ''external'', c_idempotency_key = ''k'',
      c_argument_digest = replicate 64 (CHR ''a''), c_status = Conf_Waiting, c_expires_at = minute,
      c_confirmed_by = [], c_decided_at = None, c_created_at = second\<rparr>"

definition sample_conf_request :: confirmation_request where
  "sample_conf_request =
     \<lparr>cr_app_id = ''app'', cr_echo_id = ''e'', cr_run_id = ''r'', cr_confirmation_id = ''c1'',
      cr_capability_id = ''mail.send'', cr_effect_target = ''external'', cr_idempotency_key = ''k''\<rparr>"

definition approved_conf :: confirmation where
  "approved_conf = conf_set (CW_Decide (''app'', ''c1'') Conf_Approved ''u'' (2 * second)) sample_conf"

lemma approved_conf_fields:
  "c_status approved_conf = Conf_Approved" "conf_key_of approved_conf = (''app'', ''c1'')"
  "c_expires_at approved_conf = minute" "c_app_id approved_conf = ''app''" "c_run_id approved_conf = ''r''"
  by (simp_all add: approved_conf_def sample_conf_def conf_key_of_def)

lemma sample_conf_request_ok: "ValidateRequest sample_conf_request = Inr ()"
  by code_simp

lemma sample_conf_valid: "ValidateConfirmation sample_conf = Inr ()"
  by code_simp

lemma sample_conf_check: "conf_row_check millisecond_driver sample_conf"
  by code_simp

lemma approved_conf_check: "conf_row_check millisecond_driver approved_conf"
  by code_simp

lemma approved_table_ok: "conf_table_ok millisecond_driver [approved_conf]"
  using approved_conf_check by (simp add: conf_table_ok_def table_ok_def)

abbreviation sample_conf_port :: "conf_table conf_port" where
  "sample_conf_port \<equiv> sqlite_conf_port millisecond_driver (\<lambda>_. True)"

lemma sample_conf_get: "cp_get sample_conf_port ''app'' ''c1'' [approved_conf] = Inr approved_conf"
  by (simp add: sqlite_conf_port_def ConfGet_def select_key_def approved_conf_fields)

lemma approved_verifies:
  "VerifyConfirmation sample_conf_port (3 * second) sample_conf_request [approved_conf] = Inr ()"
proof -
  have "verifyRecord approved_conf sample_conf_request (3 * second) = Inr ()"
    by (simp add: verifyRecord_Inr approved_conf_def sample_conf_def sample_conf_request_def minute_def)
  then show ?thesis
    using sample_conf_get by (simp add: VerifyConfirmation_def sample_conf_request_ok)
      (simp add: sample_conf_request_def)
qed

lemma sample_conf_trace:
  "conf_trace millisecond_driver (\<lambda>_. True)
     [Ev_Create sample_conf, Ev_Write (CW_Decide (''app'', ''c1'') Conf_Approved ''u'' (2 * second))] [] [approved_conf]"
proof -
  have "conf_row_of sample_conf = sample_conf"
    by (simp add: conf_row_of_def sample_conf_def)
  then have "ConfCreate millisecond_driver (\<lambda>_. True) sample_conf [] = ([sample_conf], Inr ())"
    using sample_conf_check
    by (simp add: ConfCreate_def sample_conf_valid exec_insert_def) (simp add: sample_conf_def)
  moreover have "conf_where millisecond_driver (CW_Decide (''app'', ''c1'') Conf_Approved ''u'' (2 * second)) sample_conf"
    by code_simp
  then have "conf_update millisecond_driver (CW_Decide (''app'', ''c1'') Conf_Approved ''u'' (2 * second)) [sample_conf] =
      Some ([approved_conf], 1)"
    using approved_conf_check
    by (simp add: conf_update_def exec_update_def update_where_def affected_def approved_conf_def del: conf_where.simps)
  ultimately show ?thesis
    using conf_trace.extend[OF conf_trace_single[OF conf_step.create] conf_step.update] by fastforce
qed

section \<open>Properties\<close>

text \<open>C7: no effect without an approval: a verification that passes in any reachable store was preceded
  by the creation of a confirmation with exactly the requested scope and by a decision approving it,
  and the record is approved and unexpired at that instant.\<close>

theorem verification_needs_approval:
  assumes "conf_trace drv references evs [] t"
    and "VerifyConfirmation (sqlite_conf_port drv references) now r t = Inr ()"
  shows "(\<exists>who at. Ev_Write (CW_Decide (cr_app_id r, cr_confirmation_id r) Conf_Approved who at) \<in> set evs) \<and>
    (\<exists>d. Ev_Create d \<in> set evs \<and> conf_key_of d = (cr_app_id r, cr_confirmation_id r) \<and>
         c_echo_id d = cr_echo_id r \<and> c_run_id d = cr_run_id r \<and> c_capability_id d = cr_capability_id r \<and>
         c_effect_target d = cr_effect_target r \<and> c_idempotency_key d = cr_idempotency_key r \<and>
         now < c_expires_at d)"
proof -
  obtain c where c: "select_key conf_key_of (cr_app_id r, cr_confirmation_id r) t = Some c"
    and v: "verifyRecord c r now = Inr ()"
    using conf_store.verified_approved[OF assms(2)] by blast
  then have "explained evs c" and key: "conf_key_of c = (cr_app_id r, cr_confirmation_id r)"
    using conf_trace_explained[OF assms(1)] select_keyD[OF c] by simp_all
  moreover have "c_status c = Conf_Approved"
    using v by (simp add: verifyRecord_Inr)
  ultimately obtain d who at where "Ev_Create d \<in> set evs" "same_scope c d"
    and "Ev_Write (CW_Decide (conf_key_of c) Conf_Approved who at) \<in> set evs"
    unfolding explained_def by blast
  moreover have "conf_key_of d = (cr_app_id r, cr_confirmation_id r)" "c_echo_id d = cr_echo_id r"
    "c_run_id d = cr_run_id r" "c_capability_id d = cr_capability_id r" "c_effect_target d = cr_effect_target r"
    "c_idempotency_key d = cr_idempotency_key r" "now < c_expires_at d"
    using v key \<open>same_scope c d\<close> by (simp_all add: verifyRecord_Inr same_scope_def)
  ultimately show ?thesis
    unfolding key by blast
qed

theorem verification_needs_approval_witness:
  "\<exists>who at. Ev_Write (CW_Decide (''app'', ''c1'') Conf_Approved who at) \<in>
     set [Ev_Create sample_conf, Ev_Write (CW_Decide (''app'', ''c1'') Conf_Approved ''u'' (2 * second))]"
  using verification_needs_approval[OF sample_conf_trace approved_verifies]
  by (simp add: sample_conf_request_def)

text \<open>An invalidation is final: once a confirmation has been revoked, expired or rejected, no
  operation of anybody makes a verification of it pass again.\<close>

theorem invalidated_never_verifies:
  assumes "conf_table_ok drv t" and "conf_evolves drv references t t'"
    and "select_key conf_key_of (cr_app_id r, cr_confirmation_id r) t = Some c"
    and "c_status c \<in> {Conf_Is_Rejected, Conf_Is_Expired, Conf_Is_Revoked}"
  shows "VerifyConfirmation (sqlite_conf_port drv references) now r t' \<noteq> Inr ()"
  using conf_store.ended_never_verifies[OF assms(1,2,3)] assms(4) by (auto simp: invalid_for_good_def)

theorem invalidated_never_verifies_witness:
  "VerifyConfirmation sample_conf_port (3 * second) sample_conf_request
     [conf_set (CW_Revoke (''app'', ''c1'') (3 * second)) approved_conf] \<noteq> Inr ()"
proof (rule invalidated_never_verifies)
  show "conf_table_ok millisecond_driver [conf_set (CW_Revoke (''app'', ''c1'') (3 * second)) approved_conf]"
    using approved_conf_check by (simp add: conf_table_ok_def table_ok_def conf_row_check_def approved_conf_def sample_conf_def)
  show "conf_evolves millisecond_driver (\<lambda>_. True)
      [conf_set (CW_Revoke (''app'', ''c1'') (3 * second)) approved_conf]
      [conf_set (CW_Revoke (''app'', ''c1'') (3 * second)) approved_conf]"
    by simp
  show "select_key conf_key_of (cr_app_id sample_conf_request, cr_confirmation_id sample_conf_request)
      [conf_set (CW_Revoke (''app'', ''c1'') (3 * second)) approved_conf] =
      Some (conf_set (CW_Revoke (''app'', ''c1'') (3 * second)) approved_conf)"
    by (simp add: select_key_def conf_key_of_def approved_conf_def sample_conf_def sample_conf_request_def)
qed simp

text \<open>A decision is recorded once: after a decision has succeeded, repeating it before the expiry
  returns the same record and changes nothing, and the opposite decision is refused as already
  decided.\<close>

theorem decision_idempotent:
  assumes "conf_table_ok drv t"
    and "ServiceDecide (sqlite_conf_port drv references) app cid st who at t = (t1, Inr c)"
    and "who2 \<noteq> []" and "at2 \<noteq> 0" and "at2 < c_expires_at c"
    and "st2 \<in> {Conf_Approved, Conf_Is_Rejected}"
  shows "ServiceDecide (sqlite_conf_port drv references) app cid st2 who2 at2 t1 =
           (t1, if st2 = st then Inr c else conf_fail Conf_AlreadyDecided)"
proof -
  have c: "select_key conf_key_of (app, cid) t1 = Some c" "c_status c = st" "st \<in> {Conf_Approved, Conf_Is_Rejected}"
    using conf_store.ServiceDecide_agrees[OF assms(1,2)] by blast+
  have ids: "app \<noteq> []" "cid \<noteq> []"
    using assms(2) by (auto simp: ServiceDecide_def split: if_splits)
  have "conf_table_ok drv t1"
  proof -
    have "conf_evolves drv references t t1"
      using assms(2) conf_store.decide_evolves conf_evolves_refl
      by (fastforce simp: ServiceDecide_def split: if_splits prod.splits sum.splits)
    then show ?thesis using conf_store.evolves_good assms(1) by blast
  qed
  then have "distinct (map conf_key_of t1)"
    by (simp add: conf_table_ok_def table_ok_def)
  then have "r = c" if "r \<in> set t1" "conf_key_of r = (app, cid)" for r
    using that c(1) by (metis option.inject select_key_Some)
  then have "affected (conf_where drv (CW_Decide (app, cid) st2 who2 at2)) t1 = 0"
    using c(2,3) by (auto simp: affected_0_iff)
  then have "conf_update drv (CW_Decide (app, cid) st2 who2 at2) t1 = Some (t1, 0)"
    using affected_0_iff[of "conf_where drv (CW_Decide (app, cid) st2 who2 at2)" t1]
    by (auto simp: conf_update_def exec_update_Some update_where_none)
  then have "cp_decide (sqlite_conf_port drv references) app cid st2 who2 at2 t1 = (t1, Inr (c, False))"
    using assms(3,4,6) ids c(1)
    by (auto simp: sqlite_conf_port_def ConfDecide_def conf_write_one_def ConfGet_def)
  then show ?thesis
    using assms(3-6) ids c(2,3) by (auto simp: ServiceDecide_def)
qed

theorem decision_idempotent_witness:
  "\<exists>e. ServiceDecide sample_conf_port ''app'' ''c1'' Conf_Is_Rejected ''v'' (4 * second) [approved_conf] =
     ([approved_conf], Inl e)"
proof -
  have "conf_where millisecond_driver (CW_Decide (''app'', ''c1'') Conf_Approved ''u'' (2 * second)) approved_conf = False"
    by (simp add: approved_conf_fields)
  then have "ServiceDecide sample_conf_port ''app'' ''c1'' Conf_Approved ''u'' (2 * second) [approved_conf] =
      ([approved_conf], Inr approved_conf)"
    by (simp add: ServiceDecide_def sqlite_conf_port_def ConfDecide_def conf_write_one_def conf_update_def
        exec_update_def update_where_def affected_def ConfGet_def select_key_def approved_conf_fields minute_def)
  from decision_idempotent[OF approved_table_ok this, of "''v''" "4 * second" Conf_Is_Rejected] show ?thesis
    by (simp add: approved_conf_fields minute_def)
qed

text \<open>Cancelling a Run closes its confirmations: after \<open>RevokeRun\<close> no verification for that Run
  passes, at any later time, as long as no new confirmation is created.\<close>

theorem revoked_run_closed:
  assumes "conf_table_ok drv t"
    and "ServiceRevokeRun (sqlite_conf_port drv references) app run now t = (t1, Inr n)"
    and "cr_app_id r = app" and "cr_run_id r = run"
  shows "VerifyConfirmation (sqlite_conf_port drv references) later r t1 \<noteq> Inr ()"
proof
  assume "VerifyConfirmation (sqlite_conf_port drv references) later r t1 = Inr ()"
  then obtain c where c: "select_key conf_key_of (cr_app_id r, cr_confirmation_id r) t1 = Some c"
    and v: "verifyRecord c r later = Inr ()"
    using conf_store.verified_approved by blast
  have "t1 = update_where (conf_where drv (CW_Revoke_Run app run now)) (conf_set (CW_Revoke_Run app run now)) t"
    using assms(2) by (auto simp: ServiceRevokeRun_def sqlite_conf_port_def ConfRevokeRun_def conf_update_def
        exec_update_Some split: if_splits option.splits)
  then have "c \<in> set (update_where (conf_where drv (CW_Revoke_Run app run now)) (conf_set (CW_Revoke_Run app run now)) t)"
    using select_keyD[OF c] by simp
  then show False
    using v assms(3,4) by (auto simp: verifyRecord_Inr set_update_where open_status_def)
qed

theorem revoked_run_closed_witness:
  "VerifyConfirmation sample_conf_port (3 * second) sample_conf_request
     (fst (ServiceRevokeRun sample_conf_port ''app'' ''r'' (2 * second) [approved_conf])) \<noteq> Inr ()"
proof -
  have "conf_row_check millisecond_driver (conf_set (CW_Revoke_Run ''app'' ''r'' (2 * second)) approved_conf)"
    using approved_conf_check by (simp add: conf_row_check_def approved_conf_def)
  then have "\<exists>t1. ServiceRevokeRun sample_conf_port ''app'' ''r'' (2 * second) [approved_conf] = (t1, Inr 1)"
    by (simp add: ServiceRevokeRun_def sqlite_conf_port_def ConfRevokeRun_def conf_update_def exec_update_def
        affected_def approved_conf_fields open_status_def)
  then show ?thesis
    using revoked_run_closed[OF approved_table_ok] by (auto simp: sample_conf_request_def)
qed

text \<open>Verification does not look at the argument digest or the call of the record: a confirmation
  of one call passes for every other call and every other argument of its scope.\<close>

theorem verification_ignores_arguments:
  "verifyRecord (c\<lparr>c_argument_digest := d, c_call_id := call\<rparr>) r now = verifyRecord c r now"
  by (simp add: verifyRecord_def)

end
