(* ===== verification/Idempotency_Store.thy ===== *)
theory Idempotency_Store
  imports Idempotency
begin

text \<open>
  \<open>internal/storage/sqlite/idempotency_store.go\<close>: the table of idempotency records with the
  \<open>CHECK\<close> constraints of \<open>schema.sql\<close>, the three store operations, their interleavings as a step
  relation, and the interpretation of the store port of package idempotency.
\<close>

section \<open>The table of idempotency records\<close>

text \<open>The \<open>CHECK\<close> constraints of \<open>schema.sql\<close> for \<open>idempotency_records\<close>.\<close>

definition idem_row_check :: "idem_record \<Rightarrow> bool" where
  "idem_row_check r \<longleftrightarrow>
     sql_length (op_fingerprint r) = 64 \<and>
     (case ir_result r of None \<Rightarrow> True | Some b \<Rightarrow> length b \<le> 262144) \<and>
     (case ir_status r of
        Idem_Executing \<Rightarrow> ir_result r = None \<and> ir_error_code r = [] \<and>
          ir_completed r = None \<and> ir_expires r = None
      | Idem_Succeeded \<Rightarrow> ir_result r \<noteq> None \<and> ir_error_code r = [] \<and>
          ir_completed r \<noteq> None \<and> ir_expires r \<noteq> None
      | Idem_Failed \<Rightarrow> ir_result r = None \<and> ir_error_code r = ''operation_failed'' \<and>
          ir_completed r \<noteq> None \<and> ir_expires r \<noteq> None
      | Idem_Other _ \<Rightarrow> False)"

type_synonym idem_table = "idem_record list"

definition idem_table_ok :: "idem_table \<Rightarrow> bool" where
  "idem_table_ok = table_ok idem_row_check idem_key_of"

section \<open>The store operations\<close>

definition new_idem_row :: "claim \<Rightarrow> instant \<Rightarrow> idem_record" where
  "new_idem_row c now =
     \<lparr>op_app_id = op_app_id c, op_scope = op_scope c, op_key = op_key c,
      op_fingerprint = op_fingerprint c, op_owner_id = op_owner_id c, ir_status = Idem_Executing,
      ir_lease_token = cl_lease_token c, ir_lease_expires = cl_lease_expires c, ir_result = None,
      ir_error_code = [], ir_created = now, ir_completed = None, ir_expires = None\<rparr>"

text \<open>Scanning a row: an empty blob is read into a nil slice.\<close>

definition scan_idem :: "idem_record \<Rightarrow> idem_record" where
  "scan_idem r = (if ir_result r = Some [] then r\<lparr>ir_result := None\<rparr> else r)"

definition GetIdempotent :: "string \<Rightarrow> string \<Rightarrow> string \<Rightarrow> idem_table \<Rightarrow> idem_record go_result" where
  "GetIdempotent app scope key t =
     (if app = [] \<or> scope = [] \<or> ValidateKey key \<noteq> Inr () then idem_fail Idem_InvalidRequest
      else case select_key idem_key_of (app, scope, key) t of
        None \<Rightarrow> idem_fail Idem_RecordNotFound
      | Some r \<Rightarrow> Inr (scan_idem r))"

text \<open>The insert of \<open>BeginIdempotent\<close> and what it makes of the record it reads back.\<close>

definition begin_insert :: "claim \<Rightarrow> instant \<Rightarrow> idem_table \<Rightarrow> (idem_table \<times> nat) option" where
  "begin_insert c now t = exec_insert_ignore idem_row_check idem_key_of (new_idem_row c now) t"

definition begin_read :: "claim \<Rightarrow> nat \<Rightarrow> idem_table \<Rightarrow> (idem_record \<times> bool) go_result" where
  "begin_read c n t =
     and_then (GetIdempotent (op_app_id c) (op_scope c) (op_key c) t) (\<lambda>r.
       if op_fingerprint r \<noteq> op_fingerprint c then idem_fail Idem_KeyConflict else Inr (r, n = 1))"

definition BeginIdempotent ::
  "claim \<Rightarrow> instant \<Rightarrow> idem_table \<Rightarrow> idem_table \<times> (idem_record \<times> bool) go_result" where
  "BeginIdempotent c now t =
     (if \<not> begin_guard c now then (t, idem_fail Idem_InvalidRequest)
      else case begin_insert c now t of
        None \<Rightarrow> (t, Inl constraint_error)
      | Some (t', n) \<Rightarrow> (t', begin_read c n t'))"

definition complete_args_ok ::
  "claim \<Rightarrow> idem_status \<Rightarrow> string \<Rightarrow> string \<Rightarrow> instant \<Rightarrow> instant \<Rightarrow> bool" where
  "complete_args_ok c st res ecode completed expires \<longleftrightarrow>
     \<not> (\<not> valid_operation c \<or> cl_lease_token c = [] \<or> is_zero completed \<or> \<not> after expires completed \<or>
        (st \<noteq> Idem_Succeeded \<and> st \<noteq> Idem_Failed) \<or>
        (st = Idem_Succeeded \<and> ecode \<noteq> []) \<or>
        (st = Idem_Failed \<and> (length res \<noteq> 0 \<or> ecode \<noteq> ''operation_failed'')))"

type_synonym completion = "claim \<times> idem_status \<times> string option \<times> string \<times> instant \<times> instant"

fun complete_where :: "sql_driver \<Rightarrow> completion \<Rightarrow> idem_record \<Rightarrow> bool" where
  "complete_where drv (c, st, res, ecode, completed, expires) r =
     (idem_key_of r = idem_key_of c \<and> op_fingerprint r = op_fingerprint c \<and>
      op_owner_id r = op_owner_id c \<and> ir_status r = Idem_Executing \<and>
      ir_lease_token r = cl_lease_token c \<and> julianday drv completed \<le> julianday drv (ir_lease_expires r))"

fun complete_set :: "completion \<Rightarrow> idem_record \<Rightarrow> idem_record" where
  "complete_set (c, st, res, ecode, completed, expires) r =
     r\<lparr>ir_status := st, ir_result := res, ir_error_code := ecode,
       ir_completed := Some completed, ir_expires := Some expires\<rparr>"

definition CompleteIdempotent ::
  "sql_driver \<Rightarrow> claim \<Rightarrow> idem_status \<Rightarrow> string \<Rightarrow> string \<Rightarrow> instant \<Rightarrow> instant \<Rightarrow> idem_table
     \<Rightarrow> idem_table \<times> unit go_result" where
  "CompleteIdempotent drv c st res ecode completed expires t =
     (if \<not> complete_args_ok c st res ecode completed expires then (t, idem_fail Idem_InvalidRequest)
      else
        let stored = (if st = Idem_Succeeded then bind_bytes drv res else None);
            a = (c, st, stored, ecode, completed, expires)
        in case exec_update idem_row_check (complete_where drv a) (complete_set a) t of
             None \<Rightarrow> (t, Inl constraint_error)
           | Some (t', n) \<Rightarrow> if n \<noteq> 1 then (t', idem_fail Idem_LeaseLost) else (t', Inr ()))"

section \<open>The port and its interleavings\<close>

definition look_idem :: "idem_table \<Rightarrow> idem_key \<Rightarrow> idem_record option" where
  "look_idem t k = map_option scan_idem (select_key idem_key_of k t)"

definition sqlite_idem_port :: "sql_driver \<Rightarrow> idem_table idem_port" where
  "sqlite_idem_port drv =
     \<lparr>port_begin = BeginIdempotent, port_get = GetIdempotent, port_complete = CompleteIdempotent drv\<rparr>"

lemma sqlite_idem_port_simps [simp]:
  "port_begin (sqlite_idem_port drv) = BeginIdempotent"
  "port_get (sqlite_idem_port drv) = GetIdempotent"
  "port_complete (sqlite_idem_port drv) = CompleteIdempotent drv"
  by (simp_all add: sqlite_idem_port_def)

text \<open>One statement of one caller; the reads leave the table as it is.\<close>

inductive idem_step :: "sql_driver \<Rightarrow> idem_table \<Rightarrow> idem_table \<Rightarrow> bool" for drv where
  insert: "begin_guard c now \<Longrightarrow> begin_insert c now t = Some (t', n) \<Longrightarrow> idem_step drv t t'"
| complete: "CompleteIdempotent drv c st res ec ct et t = (t', r) \<Longrightarrow> idem_step drv t t'"

definition idem_evolves :: "sql_driver \<Rightarrow> idem_table \<Rightarrow> idem_table \<Rightarrow> bool" where
  "idem_evolves drv = (idem_step drv)\<^sup>*\<^sup>*"

section \<open>Facts on the statements\<close>

definition terminal_completion :: "completion \<Rightarrow> bool" where
  "terminal_completion a = (case a of (c, st, _) \<Rightarrow> st \<noteq> Idem_Executing)"

lemma idem_key_complete_set [simp]: "idem_key_of (complete_set a r) = idem_key_of r"
  by (cases a) (simp add: idem_key_of_def)

interpretation idem_completion: lease_release idem_key_of "\<lambda>a. idem_key_of (fst a)"
  "\<lambda>a r. terminal_completion a \<and> complete_where drv a r" complete_set "\<lambda>r. ir_status r = Idem_Executing"
  for drv
  by unfold_locales (auto simp: terminal_completion_def)

lemma CompleteIdempotent_cases:
  assumes "CompleteIdempotent drv c st res ec ct et t = (t', r)"
  obtains
    (unchanged) e where "r = Inl e" and "t' = t"
  | (stored) a where "r = Inr ()" and "fst a = c" and "fst (snd a) = st" and "terminal_completion a"
      and "complete_args_ok c st res ec ct et"
      and "a = (c, st, (if st = Idem_Succeeded then bind_bytes drv res else None), ec, ct, et)"
      and "exec_update idem_row_check (complete_where drv a) (complete_set a) t = Some (t', 1)"
  | (lost) a where "r = Inl (Sentinel (Idempotency_E Idem_LeaseLost))" and "fst a = c"
      and "terminal_completion a"
      and "exec_update idem_row_check (complete_where drv a) (complete_set a) t = Some (t', affected (complete_where drv a) t)"
      and "affected (complete_where drv a) t \<noteq> 1"
proof (cases "complete_args_ok c st res ec ct et")
  case False
  then show thesis using assms unchanged by (auto simp: CompleteIdempotent_def)
next
  case True
  let ?a = "(c, st, (if st = Idem_Succeeded then bind_bytes drv res else None), ec, ct, et)"
  have tm: "terminal_completion ?a"
    using True by (auto simp: complete_args_ok_def terminal_completion_def)
  show thesis
  proof (cases "exec_update idem_row_check (complete_where drv ?a) (complete_set ?a) t")
    case None
    then show thesis using assms True unchanged by (auto simp: CompleteIdempotent_def Let_def)
  next
    case (Some x)
    obtain u n where x: "x = (u, n)" by (cases x)
    then have n: "n = affected (complete_where drv ?a) t"
      using Some by (simp add: exec_update_Some)
    show thesis
    proof (cases "n = 1")
      case True
      then show thesis
        using assms Some x tm \<open>complete_args_ok c st res ec ct et\<close>
        by (intro stored[of ?a]) (auto simp: CompleteIdempotent_def Let_def)
    next
      case False
      then show thesis
        using assms Some x n tm True
        by (intro lost[of ?a]) (auto simp: CompleteIdempotent_def Let_def)
    qed
  qed
qed

lemma idem_table_okD:
  "idem_table_ok t \<Longrightarrow> distinct (map idem_key_of t)"
  "idem_table_ok t \<Longrightarrow> r \<in> set t \<Longrightarrow> idem_row_check r"
  by (auto simp: idem_table_ok_def table_ok_def list_all_iff)

lemma complete_update_ok:
  assumes "exec_update idem_row_check (complete_where drv a) (complete_set a) t = Some (t', n)"
    and "idem_table_ok t"
  shows "idem_table_ok t'"
  using exec_update_ok[OF _ assms(1), of idem_key_of] assms(2) by (simp add: idem_table_ok_def)

lemma CompleteIdempotent_ok:
  "CompleteIdempotent drv c st res ec ct et t = (t', r) \<Longrightarrow> idem_table_ok t \<Longrightarrow> idem_table_ok t'"
  by (erule CompleteIdempotent_cases) (auto dest: complete_update_ok)

lemma idem_step_ok: "idem_step drv t t' \<Longrightarrow> idem_table_ok t \<Longrightarrow> idem_table_ok t'"
  by (induction rule: idem_step.induct)
    (auto simp: idem_table_ok_def begin_insert_def dest: exec_insert_ignore_ok
      CompleteIdempotent_ok[unfolded idem_table_ok_def])

lemma complete_update_keeps:
  assumes "exec_update idem_row_check (complete_where drv a) (complete_set a) t = Some (t', n)"
    and "select_key idem_key_of k t = Some q"
  shows "\<exists>q'. select_key idem_key_of k t' = Some q' \<and> op_fingerprint q' = op_fingerprint q \<and>
              (ir_status q \<noteq> Idem_Executing \<longrightarrow> q' = q)"
proof -
  have "select_key idem_key_of k t' =
      map_option (\<lambda>r. if complete_where drv a r then complete_set a r else r) (select_key idem_key_of k t)"
    using assms(1) by (simp add: exec_update_Some select_update_where)
  then show ?thesis
    using assms(2) by (cases a) auto
qed

lemma idem_step_keeps:
  "idem_step drv t t' \<Longrightarrow> select_key idem_key_of k t = Some q \<Longrightarrow>
     \<exists>q'. select_key idem_key_of k t' = Some q' \<and> op_fingerprint q' = op_fingerprint q \<and>
          (ir_status q \<noteq> Idem_Executing \<longrightarrow> q' = q)"
proof (induction rule: idem_step.induct)
  case (insert c now t t' n)
  then show ?case
    by (auto simp: begin_insert_def exec_insert_ignore_def select_key_append split: if_splits)
next
  case (complete c st res ec ct et t t' r)
  from complete(1) show ?case
    by (rule CompleteIdempotent_cases) (use complete(2) complete_update_keeps in blast)+
qed

lemma idem_evolves_ok: "idem_evolves drv t t' \<Longrightarrow> idem_table_ok t \<Longrightarrow> idem_table_ok t'"
  unfolding idem_evolves_def by (induction rule: rtranclp_induct) (auto intro: idem_step_ok)

lemma idem_evolves_keeps:
  "idem_evolves drv t t' \<Longrightarrow> select_key idem_key_of k t = Some q \<Longrightarrow>
     \<exists>q'. select_key idem_key_of k t' = Some q' \<and> op_fingerprint q' = op_fingerprint q \<and>
          (ir_status q \<noteq> Idem_Executing \<longrightarrow> q' = q)"
  unfolding idem_evolves_def
proof (induction rule: rtranclp_induct)
  case (step u v)
  then show ?case using idem_step_keeps by fastforce
qed simp

lemma scan_idem_sel [simp]:
  "op_fingerprint (scan_idem q) = op_fingerprint q" "ir_status (scan_idem q) = ir_status q"
  "record_bytes (scan_idem q) = record_bytes q" "ir_lease_expires (scan_idem q) = ir_lease_expires q"
  by (auto simp: scan_idem_def record_bytes_def)

lemma BeginIdempotent_cases:
  assumes "BeginIdempotent c now t = (t', x)"
  obtains (refused) e where "x = Inl e" and "t' = t"
  | (ran) n where "begin_guard c now" and "begin_insert c now t = Some (t', n)" and "x = begin_read c n t'"
  using assms by (auto simp: BeginIdempotent_def split: if_splits option.splits)

lemma begin_guard_get:
  assumes "begin_guard c now"
  shows "GetIdempotent (op_app_id c) (op_scope c) (op_key c) t =
           (case look_idem t (idem_key_of c) of None \<Rightarrow> idem_fail Idem_RecordNotFound | Some r \<Rightarrow> Inr r)"
  using assms
  by (auto simp: GetIdempotent_def begin_guard_def valid_operation_iff look_idem_def idem_key_of_def
      split: option.splits)

lemma begin_known:
  assumes "idem_table_ok t" and "begin_guard c now" and "look_idem t (idem_key_of c) = Some q"
  shows "BeginIdempotent c now t =
           (t, if op_fingerprint q = op_fingerprint c then Inr (q, False)
               else if idem_row_check (new_idem_row c now) then idem_fail Idem_KeyConflict
               else Inl constraint_error)"
proof -
  from assms(3) obtain q0 where q0: "select_key idem_key_of (idem_key_of c) t = Some q0" "q = scan_idem q0"
    by (auto simp: look_idem_def)
  then have mem: "q0 \<in> set t" "idem_key_of q0 = idem_key_of c"
    using select_keyD by fastforce+
  then have "idem_row_check q0"
    using assms(1) idem_table_okD(2) by blast
  then have chk: "op_fingerprint q = op_fingerprint c \<Longrightarrow> idem_row_check (new_idem_row c now)"
    using q0(2) by (auto simp: idem_row_check_def new_idem_row_def)
  have dup: "idem_key_of (new_idem_row c now) \<in> idem_key_of ` set t"
    using mem by (metis idem_key_of_def image_eqI new_idem_row_def operation.select_convs(1-3))
  show ?thesis
    using assms(2,3) chk dup
    by (auto simp: BeginIdempotent_def begin_insert_def exec_insert_ignore_def begin_read_def begin_guard_get)
qed

section \<open>The store implements the port\<close>

lemma idem_step_begin: "BeginIdempotent c now t = (t', x) \<Longrightarrow> idem_evolves drv t t'"
  unfolding idem_evolves_def
  by (erule BeginIdempotent_cases) (auto intro: idem_step.insert)

lemma idem_step_complete: "CompleteIdempotent drv c st res ec ct et t = (t', x) \<Longrightarrow> idem_evolves drv t t'"
  unfolding idem_evolves_def by (auto intro: idem_step.complete)

lemma begin_claimed:
  assumes "BeginIdempotent c now t = (t', Inr (r, True))"
  shows "look_idem t (idem_key_of c) = None \<and> (\<exists>q. look_idem t' (idem_key_of c) = Some q)"
  using assms
proof (cases rule: BeginIdempotent_cases)
  case (ran n)
  have key: "idem_key_of (new_idem_row c now) = idem_key_of c"
    by (simp add: idem_key_of_def new_idem_row_def)
  have "n = 1"
    using ran(3)[symmetric] by (auto simp: begin_read_def and_then_Inr split: if_splits)
  then have t': "t' = t @ [new_idem_row c now]" and new: "idem_key_of c \<notin> set (map idem_key_of t)"
    using ran(2) key by (auto simp: begin_insert_def exec_insert_ignore_def split: if_splits)
  then show ?thesis
    using select_key_append_new[of idem_key_of "new_idem_row c now" t] key
    by (simp add: look_idem_def select_key_None)
qed simp

lemma complete_stored:
  assumes "idem_table_ok t" and "CompleteIdempotent drv c st res ec ct et t = (t', Inr ())"
  shows "\<exists>q. select_key idem_key_of (idem_key_of c) t = Some q \<and> op_fingerprint q = op_fingerprint c \<and>
             op_owner_id q = op_owner_id c \<and> ir_lease_token q = cl_lease_token c \<and>
             ir_status q = Idem_Executing \<and> julianday drv ct \<le> julianday drv (ir_lease_expires q) \<and>
             st \<in> {Idem_Succeeded, Idem_Failed} \<and>
             select_key idem_key_of (idem_key_of c) t' = Some (complete_set
               (c, st, (if st = Idem_Succeeded then bind_bytes drv res else None), ec, ct, et) q)"
  using assms(2)
proof (cases rule: CompleteIdempotent_cases)
  case (stored a)
  have "distinct (map idem_key_of t)"
    using assms(1) idem_table_okD(1) by blast
  moreover have guard: "(\<lambda>r. terminal_completion a \<and> complete_where drv a r) = complete_where drv a"
    using stored(4) by simp
  moreover have "affected (complete_where drv a) t = 1" and t': "t' = update_where (complete_where drv a) (complete_set a) t"
    using stored(7) by (simp_all add: exec_update_Some)
  ultimately obtain q where "select_key idem_key_of (idem_key_of c) t = Some q"
    and "complete_where drv a q"
    and "select_key idem_key_of (idem_key_of c) t' = Some (complete_set a q)"
    using idem_completion.one_row[of t a drv] stored(2) unfolding guard t' by (metis (no_types, lifting))
  moreover have "st \<in> {Idem_Succeeded, Idem_Failed}"
    using stored(5) by (auto simp: complete_args_ok_def)
  ultimately show ?thesis
    using stored(6) by auto
qed simp_all

interpretation idem_store: idempotency_port "sqlite_idem_port drv" look_idem "idem_evolves drv" idem_table_ok
  for drv
proof (unfold_locales, goal_cases)
  case (4 s s' k q)
  then show ?case
    using idem_evolves_keeps[OF 4(1), of k] by (auto simp: look_idem_def)
next
  case (10 s c st res ec ct et s')
  then obtain q where "select_key idem_key_of (idem_key_of c) s' = Some (complete_set
        (c, st, (if st = Idem_Succeeded then bind_bytes drv res else None), ec, ct, et) q)"
      "op_fingerprint q = op_fingerprint c" "st \<in> {Idem_Succeeded, Idem_Failed}"
    using complete_stored by fastforce
  then show ?case
    by (auto simp: look_idem_def record_bytes_def scan_idem_def bind_bytes_def split: if_splits)
qed (auto simp: idem_evolves_def dest: begin_claimed
    idem_evolves_ok[unfolded idem_evolves_def] begin_known
    idem_step_begin[unfolded idem_evolves_def] idem_step_complete[unfolded idem_evolves_def])

section \<open>A concrete run\<close>

definition sample_operation :: operation where
  "sample_operation =
     \<lparr>op_app_id = ''app'', op_scope = ''web.invoke'', op_key = ''k1'',
      op_fingerprint = replicate 64 (CHR ''a''), op_owner_id = ''web''\<rparr>"

definition sample_surroundings :: "instant \<Rightarrow> 's surroundings" where
  "sample_surroundings now =
     \<lparr>su_token = ''t'' , su_deadline = None, su_now = now, su_completed = now + second,
      su_meanwhile = (\<lambda>s. s), su_wait_now = now, su_waits = []\<rparr>"

definition count_effect :: "nat \<Rightarrow> nat \<times> string \<times> go_error option" where
  "count_effect n = (n + 1, ''ok'', None)"

definition sample_run :: "instant \<Rightarrow> idem_table \<Rightarrow> nat \<Rightarrow> idem_table \<times> nat \<times> exec_return option" where
  "sample_run now = Execute NewManager (sqlite_idem_port millisecond_driver) (sample_surroundings now)
     sample_operation (Some count_effect)"

definition sample_claim :: "instant \<Rightarrow> claim" where
  "sample_claim now = make_claim sample_operation ''t'' (now + 2 * minute)"

lemma sample_valid: "ValidateOperation sample_operation = Inr ()" by code_simp

lemma sample_guard: "begin_guard (sample_claim 1) 1" by code_simp

lemma sample_row: "idem_row_check (new_idem_row (sample_claim 1) 1)" by code_simp

lemma sample_args: "complete_args_ok (sample_claim 1) Idem_Succeeded ''ok'' [] (1 + second) (1 + second + m_retention NewManager)" by code_simp

lemma lease_NewManager: "lease_end NewManager None t = t + 2 * minute"
  by (simp add: lease_end_def NewManager_def)

lemma idem_key_new: "idem_key_of (new_idem_row c t) = idem_key_of c" by (simp add: idem_key_of_def new_idem_row_def)

lemma sample_begin:
  "BeginIdempotent (sample_claim 1) 1 [] =
     ([new_idem_row (sample_claim 1) 1], Inr (new_idem_row (sample_claim 1) 1, True))"
  using begin_guard_get[OF sample_guard]
  by (simp add: BeginIdempotent_def sample_guard sample_row begin_insert_def exec_insert_ignore_def begin_read_def look_idem_def select_key_def idem_key_new scan_idem_def)
   (simp add: new_idem_row_def)

lemma sample_where: "complete_where millisecond_driver (sample_claim 1, st, res, ec, 1 + second, et) (new_idem_row (sample_claim 1) 1)"
  by (simp add: idem_key_new) (simp add: new_idem_row_def millisecond_driver_def sample_claim_def make_claim_def second_def minute_def millisecond_def)

lemma sample_set: "idem_row_check (complete_set (c, Idem_Succeeded, Some ''ok'', [], ct, et) (new_idem_row (sample_claim 1) 1))"
  using sample_row by (simp add: idem_row_check_def new_idem_row_def)

lemma sample_complete: "\<exists>t. CompleteIdempotent millisecond_driver (sample_claim 1) Idem_Succeeded ''ok'' [] (1 + second) (1 + second + m_retention NewManager) [new_idem_row (sample_claim 1) 1] = (t, Inr ())"
  by (simp add: CompleteIdempotent_def Let_def sample_args exec_update_def affected_def bind_bytes_def sample_where sample_set del: complete_where.simps complete_set.simps)

lemma sample_finish: "snd (finish_execution NewManager (sqlite_idem_port millisecond_driver) (sample_claim 1) (1 + second) ''ok'' None [new_idem_row (sample_claim 1) 1])
  = (''ok'', False, None)"
  using sample_complete by (auto simp: finish_execution_def idem_limits)

lemma sample_first: "snd (sample_run 1 [] 0) = (1, Some (''ok'', False, None))"
  using sample_finish sample_begin
  by (cases "finish_execution NewManager (sqlite_idem_port millisecond_driver) (sample_claim 1) (1 + second) ''ok'' None [new_idem_row (sample_claim 1) 1]")
   (simp add: sample_run_def Execute_def Let_def sample_valid sample_surroundings_def lease_NewManager count_effect_def sample_claim_def minute_def second_def millisecond_def)

lemma sample_meanwhile: "idem_evolves drv t (su_meanwhile (sample_surroundings now) t)"
  by (simp add: sample_surroundings_def idem_evolves_def)

section \<open>Properties\<close>

text \<open>Two calls of one operation that overlap: the second begins while the first still holds its claim.\<close>

definition sample_call :: "(idem_table, nat) exec_call" where
  "sample_call = \<lparr>xc_manager = NewManager, xc_surroundings = sample_surroundings 1, xc_operation = sample_operation,
     xc_effect = Some count_effect\<rparr>"

lemma sample_begins:
  "execute_begin NewManager (sqlite_idem_port millisecond_driver) (sample_surroundings 1) sample_operation True [] =
     ([new_idem_row (sample_claim 1) 1], Ph_Claimed (sample_claim 1))"
  using sample_begin
  by (simp add: execute_begin_def Let_def sample_valid sample_surroundings_def lease_NewManager sample_claim_def minute_def second_def millisecond_def)

lemma sample_overlap:
  "\<exists>x. (exec_step (sqlite_idem_port millisecond_driver) (idem_evolves millisecond_driver) [sample_call, sample_call])\<^sup>*\<^sup>*
     (exec_start [sample_call, sample_call] [] 0) x \<and> xs_runs x = [0] \<and> xs_world x = 1"
proof -
  let ?step = "exec_step (sqlite_idem_port millisecond_driver) (idem_evolves millisecond_driver) [sample_call, sample_call]"
  let ?x0 = "exec_start [sample_call, sample_call] [] 0"
  define x1 where "x1 = ?x0\<lparr>xs_store := [new_idem_row (sample_claim 1) 1], xs_phases := (xs_phases ?x0)[0 := Ph_Claimed (sample_claim 1)]\<rparr>"
  have 1: "?step ?x0 x1" unfolding x1_def
    by (rule exec_step.begin_block) (simp_all add: exec_start_def sample_call_def sample_begins)
  obtain s2 p2 where b: "execute_begin NewManager (sqlite_idem_port millisecond_driver) (sample_surroundings 1) sample_operation True
      [new_idem_row (sample_claim 1) 1] = (s2, p2)" by fastforce
  define x2 where "x2 = x1\<lparr>xs_store := s2, xs_phases := (xs_phases x1)[1 := p2]\<rparr>"
  have 2: "?step x1 x2" unfolding x2_def
    by (rule exec_step.begin_block) (use b in \<open>simp_all add: x1_def exec_start_def sample_call_def\<close>)
  define x3 where "x3 = x2\<lparr>xs_world := 1, xs_phases := (xs_phases x2)[0 := Ph_Ran (sample_claim 1) ''ok'' None], xs_runs := xs_runs x2 @ [0]\<rparr>"
  have 3: "?step x2 x3" unfolding x3_def
    by (rule exec_step.run_block) (simp_all add: x2_def x1_def exec_start_def sample_call_def count_effect_def)
  have "?step\<^sup>*\<^sup>* ?x0 x3" by (rule rtranclp.rtrancl_into_rtrancl[OF rtranclp.rtrancl_into_rtrancl[OF r_into_rtranclp[of ?step, OF 1] 2] 3])
  moreover have "xs_runs x3 = [0]" "xs_world x3 = 1" by (simp_all add: x3_def x2_def x1_def exec_start_def)
  ultimately show ?thesis by blast
qed

text \<open>C1: of any number of calls of \<open>Execute\<close> against the SQLite store that overlap in any way, with whatever other
  callers do to the store at any time, no two run their operations under one idempotency key.\<close>

theorem idempotent_effect_at_most_once:
  assumes "idem_table_ok t"
    and "(exec_step (sqlite_idem_port drv) (idem_evolves drv) calls)\<^sup>*\<^sup>* (exec_start calls t w) x"
  shows "distinct (map (\<lambda>i. idem_key_of (xc_operation (calls ! i))) (xs_runs x))"
  using idem_store.overlapping_at_most_once[OF assms] by (simp add: call_key_def[abs_def])

theorem idempotent_effect_at_most_once_witness:
  "\<exists>x. (exec_step (sqlite_idem_port millisecond_driver) (idem_evolves millisecond_driver) [sample_call, sample_call])\<^sup>*\<^sup>*
     (exec_start [sample_call, sample_call] [] 0) x \<and> xs_runs x = [0] \<and>
     distinct (map (\<lambda>i. idem_key_of (xc_operation ([sample_call, sample_call] ! i))) (xs_runs x))"
  using sample_overlap idempotent_effect_at_most_once[of "[]" millisecond_driver "[sample_call, sample_call]" 0]
  by (fastforce simp: idem_table_ok_def)

text \<open>Once a call of \<open>Execute\<close> has returned a result it computed, every later call of the same
  operation that passes validation returns that result as a replay and runs nothing.\<close>

theorem idempotent_success_replays:
  assumes "idem_table_ok t" and "\<And>t. idem_evolves drv t (su_meanwhile su1 t)"
    and "Execute m (sqlite_idem_port drv) su1 op1 f1 t w = (t1, w1, Some (res, False, None))"
    and "idem_evolves drv t1 t2"
    and "idem_key_of op2 = idem_key_of op1" and "op_fingerprint op2 = op_fingerprint op1"
    and "begin_guard (make_claim op2 (su_token su2) (lease_end m (su_deadline su2) (su_now su2))) (su_now su2)"
  shows "Execute m (sqlite_idem_port drv) su2 op2 (Some f2) t2 w2 = (t2, w2, Some (res, True, None))"
  using assms by (rule idem_store.success_replays)


theorem idempotent_success_replays_witness:
  "snd (sample_run 5 (fst (sample_run 1 [] 0)) 7) = (7, Some (''ok'', True, None))"
proof -
  obtain t1 w1 where first: "sample_run 1 [] 0 = (t1, w1, Some (''ok'', False, None))"
    using sample_first by (metis prod.collapse snd_conv)
  have "begin_guard (make_claim sample_operation ''t'' (lease_end NewManager None 5)) 5"
    by code_simp
  then have "Execute NewManager (sqlite_idem_port millisecond_driver) (sample_surroundings 5)
      sample_operation (Some count_effect) t1 7 = (t1, 7, Some (''ok'', True, None))"
    using first
    by (intro idempotent_success_replays[where t = "[]" and ?su1.0 = "sample_surroundings 1"
          and ?op1.0 = sample_operation and ?f1.0 = "Some count_effect" and w = 0 and ?w1.0 = w1 and ?t1.0 = t1])
      (auto simp: sample_run_def idem_table_ok_def idem_evolves_def sample_surroundings_def)
  then show ?thesis
    unfolding first fst_conv by (simp add: sample_run_def)
qed

text \<open>The records keep the schema's constraints and their primary key under every statement, and a
  record in a terminal state is never changed again.\<close>

theorem idempotency_table_invariant:
  assumes "idem_evolves drv t t'" and "idem_table_ok t"
  shows "idem_table_ok t' \<and>
    (\<forall>k q. select_key idem_key_of k t = Some q \<longrightarrow> ir_status q \<noteq> Idem_Executing \<longrightarrow>
       select_key idem_key_of k t' = Some q)"
  using idem_evolves_ok[OF assms] idem_evolves_keeps[OF assms(1)] by fastforce

theorem idempotency_table_invariant_witness:
  "idem_table_ok (fst (sample_run 1 [] 0))"
proof -
  obtain t1 w1 ret1 where first: "sample_run 1 [] 0 = (t1, w1, ret1)"
    by (metis prod.collapse)
  have "idem_evolves millisecond_driver [] t1"
    using idem_store.Execute_evolves[OF sample_meanwhile first[unfolded sample_run_def]] .
  from idempotency_table_invariant[OF this] show ?thesis
    by (simp add: first idem_table_ok_def)
qed

end
