(* ===== verification/Dispatcher.thy ===== *)
theory Dispatcher
  imports Cap_Registry App_Config Authorization Confirmation_Store Idempotency_Store
begin

text \<open>
  \<open>internal/kernel/runtime/dispatcher.go\<close> and \<open>internal/kernel/contracts/context.go\<close>: the request
  context, and the one chain of checks every capability call passes before its handler runs. The
  registry, the app policy, the idempotency manager and the confirmation verifier are the ones of the
  other theories; a handler is a function on a world of any type. Clock readings and the error of the
  context are arguments.
\<close>

section \<open>The request context\<close>

record request_context =
  rc_app_id :: string
  rc_echo_id :: string
  rc_request_id :: string
  rc_trace_id :: string
  rc_user_id :: string
  rc_session_id :: string
  rc_run_id :: string
  rc_parent_run_id :: string
  rc_call_id :: string
  rc_call_depth :: u16
  rc_deadline :: instant
  rc_idempotency_key :: string
  rc_confirmation_id :: string
  rc_protocol_version :: string
  rc_capability_id :: string
  rc_call_chain :: "string list"
  rc_calls_used :: u32
  rc_cost_used :: u64
  rc_lease_token :: string
  rc_run_grants :: "grant list"

definition ValidateContext :: "instant \<Rightarrow> request_context \<Rightarrow> unit go_result" where
  "ValidateContext now c =
     (if rc_app_id c = [] then Inl (Sentinel (Contracts_E Contracts_MissingAppID))
      else if rc_echo_id c = [] then Inl (Sentinel (Contracts_E Contracts_MissingEchoID))
      else if rc_request_id c = [] then Inl (Sentinel (Contracts_E Contracts_MissingRequestID))
      else if \<not> is_zero (rc_deadline c) \<and> \<not> before now (rc_deadline c)
        then Inl (Sentinel (Contracts_E Contracts_DeadlineExceeded))
      else Inr ())"

definition NextCall :: "request_context \<Rightarrow> request_context" where
  "NextCall c = c\<lparr>rc_call_depth := rc_call_depth c + 1\<rparr>"

section \<open>The dispatcher\<close>

type_synonym 'w handler = "request_context \<Rightarrow> string \<Rightarrow> 'w \<Rightarrow> 'w \<times> string \<times> go_error option"

record ('s, 'w, 'c) dispatcher =
  d_registry :: "('w handler, 'c) registry"
  d_policy :: "(string \<Rightarrow> policy_snapshot go_result) option"
  d_confirmations :: "(confirmation_request \<Rightarrow> unit go_result) option"
  d_idempotency :: "'s idem_port option"
  d_relationships :: "relationship_checker option"
  d_max_depth :: u16

text \<open>The library functions the dispatcher uses, and what surrounds one call.\<close>

record 'c dispatch_lib =
  dl_validate :: "'c \<Rightarrow> string \<Rightarrow> unit go_result"
  dl_decode :: json_decoder
  dl_encode :: "json \<Rightarrow> string go_result"
  dl_sha256 :: "string \<Rightarrow> string"

record 's call_surroundings = "'s surroundings" +
  cs_ctx_err :: "go_error option"
  cs_validated_at :: instant
  cs_authorized_at :: instant

definition NewDispatcher ::
  "('w handler, 'c) registry \<Rightarrow> (string \<Rightarrow> policy_snapshot go_result) option \<Rightarrow> u16 \<Rightarrow>
     (confirmation_request \<Rightarrow> unit go_result) option \<Rightarrow> 's idem_port option \<Rightarrow> relationship_checker option
     \<Rightarrow> ('s, 'w, 'c) dispatcher" where
  "NewDispatcher reg policy max_depth confirmations store rel =
     \<lparr>d_registry = reg, d_policy = policy, d_confirmations = confirmations, d_idempotency = store,
      d_relationships = rel, d_max_depth = (if max_depth = 0 then 16 else max_depth)\<rparr>"

definition principal :: "string \<Rightarrow> string" where
  "principal user = (if user = [] then ''public'' else user)"

definition dispatch_validate ::
  "('s, 'w, 'c) dispatcher \<Rightarrow> go_error option \<Rightarrow> instant \<Rightarrow> request_context \<Rightarrow> unit go_result" where
  "dispatch_validate d ctx_err now rq =
     (case ctx_err of
        Some e \<Rightarrow> Inl e
      | None \<Rightarrow>
          (case ValidateContext now rq of
             Inl e \<Rightarrow> Inl e
           | Inr _ \<Rightarrow>
               if d_max_depth d \<le> rc_call_depth rq
               then Inl (Wrapped (Sentinel (Dispatcher_E Disp_CallDepthExceeded)))
               else Inr ()))"

definition policySnapshot :: "('s, 'w, 'c) dispatcher \<Rightarrow> request_context \<Rightarrow> policy_snapshot go_result" where
  "policySnapshot d rq =
     (case d_policy d of
        None \<Rightarrow> disp_fail Disp_AppPolicyUnavailable
      | Some policy \<Rightarrow>
          (case policy (rc_app_id rq) of
             Inl e \<Rightarrow> Inl (Joined [Sentinel (Dispatcher_E Disp_AppPolicyUnavailable), e])
           | Inr s \<Rightarrow>
               if VerifySnapshot s (rc_app_id rq) \<noteq> Inr () then disp_fail Disp_AppPolicyUnavailable
               else if \<not> ps_enabled s then disp_fail Disp_CapabilityDisabled
               else Inr s))"

definition requireRunGrant :: "request_context \<Rightarrow> string \<Rightarrow> unit go_result" where
  "requireRunGrant rq cap =
     (if rc_run_id rq = [] then Inr ()
      else if list_ex (\<lambda>g. g_capability_id g = cap) (rc_run_grants rq) then Inr ()
      else Inl (Wrapped (Sentinel (Dispatcher_E Disp_CapabilityDisabled))))"

definition callFingerprint ::
  "'c dispatch_lib \<Rightarrow> request_context \<Rightarrow> string \<Rightarrow> string \<Rightarrow> string \<Rightarrow> string go_result" where
  "callFingerprint lib rq target version payload =
     (case CanonicalJSON (dl_decode lib) (dl_encode lib) payload of
        Inl e \<Rightarrow> Inl (Wrapped e)
      | Inr canonical \<Rightarrow>
          Inr (hex_bytes (dl_sha256 lib
            (target @ [CHR 0x00] @ version @ [CHR 0x00] @ rc_app_id rq @ [CHR 0x00] @ rc_user_id rq @ [CHR 0x00] @
             rc_run_id rq @ [CHR 0x00] @ canonical))))"

definition childRequest ::
  "'c dispatch_lib \<Rightarrow> request_context \<Rightarrow> string \<Rightarrow> string \<Rightarrow> string \<Rightarrow> (request_context \<times> string) go_result" where
  "childRequest lib rq target version payload =
     (case callFingerprint lib rq target version payload of
        Inl e \<Rightarrow> Inl e
      | Inr fp \<Rightarrow>
          if fp \<in> set (rc_call_chain rq) then Inl (Wrapped (Sentinel (Dispatcher_E Disp_CycleDetected)))
          else Inr ((NextCall rq)\<lparr>rc_call_chain := rc_call_chain rq @ [fp]\<rparr>, fp))"

definition authorization_request :: "request_context \<Rightarrow> string \<Rightarrow> string \<Rightarrow> instant \<Rightarrow> auth_request" where
  "authorization_request rq cap payload now =
     \<lparr>rq_app_id = rc_app_id rq, rq_principal = principal (rc_user_id rq), rq_run_id = rc_run_id rq,
      rq_capability_id = cap, rq_payload = payload, rq_now = now, rq_calls_used = rc_calls_used rq,
      rq_cost_used = rc_cost_used rq\<rparr>"

definition confirmation_request_of :: "request_context \<Rightarrow> capability_spec \<Rightarrow> confirmation_request" where
  "confirmation_request_of rq spec =
     \<lparr>cr_app_id = rc_app_id rq, cr_echo_id = rc_echo_id rq, cr_run_id = rc_run_id rq,
      cr_confirmation_id = rc_confirmation_id rq, cr_capability_id = cs_id spec,
      cr_effect_target = es_effect_target (cs_execution spec), cr_idempotency_key = rc_idempotency_key rq\<rparr>"

text \<open>The effect checks of \<open>route\<close> after a positive decision.\<close>

definition effect_checks ::
  "('s, 'w, 'c) dispatcher \<Rightarrow> request_context \<Rightarrow> capability_spec \<Rightarrow> auth_decision \<Rightarrow> unit go_result" where
  "effect_checks d rq spec decision =
     (if ad_require_idempotency decision \<and> rc_idempotency_key rq = []
        then Inl (Wrapped (Sentinel (Dispatcher_E Disp_IdempotencyKeyRequired)))
      else if ad_require_confirmation decision then
        (if rc_confirmation_id rq = [] then Inl (Wrapped (Sentinel (Dispatcher_E Disp_ConfirmationRequired)))
         else case d_confirmations d of
           None \<Rightarrow> Inl (Wrapped (Sentinel (Dispatcher_E Disp_ConfirmationRequired)))
         | Some verifier \<Rightarrow>
             if verifier (confirmation_request_of rq spec) \<noteq> Inr ()
             then Inl (Wrapped (Sentinel (Dispatcher_E Disp_ConfirmationRequired)))
             else Inr ())
      else Inr ())"

record 'w governed =
  gv_spec :: capability_spec
  gv_handler :: "'w handler"
  gv_decision :: auth_decision
  gv_child :: request_context
  gv_fingerprint :: string

text \<open>\<open>route\<close> up to the call of the handler.\<close>

definition govern ::
  "'c dispatch_lib \<Rightarrow> ('s, 'w, 'c) dispatcher \<Rightarrow> 's call_surroundings \<Rightarrow> request_context \<Rightarrow> string \<Rightarrow> string
     \<Rightarrow> 'w governed go_result" where
  "govern lib d su rq cap payload =
     (case dispatch_validate d (cs_ctx_err su) (cs_validated_at su) rq of
        Inl e \<Rightarrow> Inl e
      | Inr _ \<Rightarrow>
     (case policySnapshot d rq of
        Inl e \<Rightarrow> Inl e
      | Inr policy \<Rightarrow>
     (case requireRunGrant rq cap of
        Inl e \<Rightarrow> Inl e
      | Inr _ \<Rightarrow>
     (case ResolveCapability (d_registry d) cap of
        Inl e \<Rightarrow> Inl e
      | Inr (spec, handler) \<Rightarrow>
     (case ValidateCapabilityInput (dl_validate lib) (d_registry d) (cs_id spec) payload of
        Inl e \<Rightarrow> Inl e
      | Inr _ \<Rightarrow>
     (case Authorize (dl_decode lib) (cs_authorized_at su) (d_relationships d) spec
             (authorization_request rq (cs_id spec) payload (cs_authorized_at su)) (ps_grants policy) of
        Inl e \<Rightarrow> Inl e
      | Inr decision \<Rightarrow>
     (case effect_checks d rq spec decision of
        Inl e \<Rightarrow> Inl e
      | Inr _ \<Rightarrow>
     (case childRequest lib rq (cs_id spec) (cs_version spec) payload of
        Inl e \<Rightarrow> Inl e
      | Inr (child, fp) \<Rightarrow>
          Inr \<lparr>gv_spec = spec, gv_handler = handler, gv_decision = decision,
               gv_child = child\<lparr>rc_capability_id := cs_id spec\<rparr>, gv_fingerprint = fp\<rparr>))))))))"

definition call_operation :: "request_context \<Rightarrow> string \<Rightarrow> string \<Rightarrow> string \<Rightarrow> operation" where
  "call_operation rq target version fp =
     \<lparr>op_app_id = rc_app_id rq, op_scope = ''runtime.capability/'' @ target @ ''/'' @ version,
      op_key = rc_idempotency_key rq, op_fingerprint = fp, op_owner_id = rc_request_id rq\<rparr>"

definition invokeHandler ::
  "('s, 'w, 'c) dispatcher \<Rightarrow> 's call_surroundings \<Rightarrow> request_context \<Rightarrow> string \<Rightarrow> string \<Rightarrow> bool \<Rightarrow> string \<Rightarrow>
     ('w \<Rightarrow> 'w \<times> string \<times> go_error option) \<Rightarrow> 's \<Rightarrow> 'w \<Rightarrow> 's \<times> 'w \<times> exec_return option" where
  "invokeHandler d su rq target version require fp handler s w =
     (if \<not> require then
        (let (w', result, err) = handler w in (s, w', Some (result, False, err)))
      else case d_idempotency d of
        None \<Rightarrow> (s, w, Some ([], False, Some (Sentinel (Dispatcher_E Disp_IdempotencyUnavailable))))
      | Some port \<Rightarrow>
          Execute NewManager port (surroundings.truncate su) (call_operation rq target version fp) (Some handler) s w)"

text \<open>\<open>route\<close>: \<open>None\<close> while it waits for another execution under the same key.\<close>

definition route ::
  "'c dispatch_lib \<Rightarrow> ('s, 'w, 'c) dispatcher \<Rightarrow> 's call_surroundings \<Rightarrow> request_context \<Rightarrow> string \<Rightarrow> string
     \<Rightarrow> 's \<Rightarrow> 'w \<Rightarrow> 's \<times> 'w \<times> string go_result option" where
  "route lib d su rq cap payload s w =
     (case govern lib d su rq cap payload of
        Inl e \<Rightarrow> (s, w, Some (Inl e))
      | Inr gv \<Rightarrow>
          (case invokeHandler d su rq (cs_id (gv_spec gv)) (cs_version (gv_spec gv))
                  (ad_require_idempotency (gv_decision gv)) (gv_fingerprint gv)
                  (gv_handler gv (gv_child gv) payload) s w of
             (s', w', r) \<Rightarrow>
               (s', w', map_option (\<lambda>(result, replayed, err).
                           case err of Some e \<Rightarrow> Inl e | None \<Rightarrow> Inr result) r)))"

text \<open>
  The execution under an idempotency key that \<open>route\<close> makes of a request, when the capability demands one; the
  dispatchers of several requests may differ.
\<close>

type_synonym ('s, 'w, 'c) dispatch_request =
  "'c dispatch_lib \<times> ('s, 'w, 'c) dispatcher \<times> 's call_surroundings \<times> request_context \<times> string \<times> string"

definition dispatches ::
  "'s idem_port \<Rightarrow> ('s, 'w, 'c) dispatch_request \<Rightarrow> 'w governed \<Rightarrow> ('s, 'w) exec_call \<Rightarrow> bool" where
  "dispatches port q gv c \<longleftrightarrow> (case q of (lib, d, su, rq, cap, payload) \<Rightarrow>
     d_idempotency d = Some port \<and> govern lib d su rq cap payload = Inr gv \<and> ad_require_idempotency (gv_decision gv) \<and>
     c = \<lparr>xc_manager = NewManager, xc_surroundings = surroundings.truncate su,
          xc_operation = call_operation rq (cs_id (gv_spec gv)) (cs_version (gv_spec gv)) (gv_fingerprint gv),
          xc_effect = Some (gv_handler gv (gv_child gv) payload)\<rparr>)"

lemma dispatches_route:
  assumes "dispatches port (lib, d, su, rq, cap, payload) gv c"
  shows "route lib d su rq cap payload s w =
     (case Execute (xc_manager c) port (xc_surroundings c) (xc_operation c) (xc_effect c) s w of (s', w', r) \<Rightarrow>
        (s', w', map_option (\<lambda>(result, replayed, err). case err of Some e \<Rightarrow> Inl e | None \<Rightarrow> Inr result) r))"
  using assms by (simp add: dispatches_def route_def invokeHandler_def)

section \<open>What a governed call has passed\<close>

definition passed ::
  "'c dispatch_lib \<Rightarrow> ('s, 'w, 'c) dispatcher \<Rightarrow> 's call_surroundings \<Rightarrow> request_context \<Rightarrow> string \<Rightarrow> string
     \<Rightarrow> 'w governed \<Rightarrow> bool" where
  "passed lib d su rq cap payload gv \<longleftrightarrow>
     cs_ctx_err su = None \<and> ValidateContext (cs_validated_at su) rq = Inr () \<and> rc_call_depth rq < d_max_depth d \<and>
     (\<exists>policy snap. d_policy d = Some policy \<and> policy (rc_app_id rq) = Inr snap \<and>
        VerifySnapshot snap (rc_app_id rq) = Inr () \<and> ps_enabled snap \<and>
        Authorize (dl_decode lib) (cs_authorized_at su) (d_relationships d) (gv_spec gv)
          (authorization_request rq (cs_id (gv_spec gv)) payload (cs_authorized_at su)) (ps_grants snap) =
          Inr (gv_decision gv)) \<and>
     (rc_run_id rq = [] \<or> cap \<in> g_capability_id ` set (rc_run_grants rq)) \<and>
     ResolveCapability (d_registry d) cap = Inr (gv_spec gv, gv_handler gv) \<and>
     ValidateCapabilityInput (dl_validate lib) (d_registry d) (cs_id (gv_spec gv)) payload = Inr () \<and>
     (ad_require_idempotency (gv_decision gv) \<longrightarrow> rc_idempotency_key rq \<noteq> []) \<and>
     (ad_require_confirmation (gv_decision gv) \<longrightarrow> rc_confirmation_id rq \<noteq> [] \<and>
        (\<exists>verifier. d_confirmations d = Some verifier \<and> verifier (confirmation_request_of rq (gv_spec gv)) = Inr ())) \<and>
     callFingerprint lib rq (cs_id (gv_spec gv)) (cs_version (gv_spec gv)) payload = Inr (gv_fingerprint gv) \<and>
     gv_fingerprint gv \<notin> set (rc_call_chain rq) \<and>
     gv_child gv = (NextCall rq)\<lparr>rc_call_chain := rc_call_chain rq @ [gv_fingerprint gv],
                                 rc_capability_id := cs_id (gv_spec gv)\<rparr>"

lemma dispatch_validate_Inr:
  "dispatch_validate d e now rq = Inr () \<longleftrightarrow> e = None \<and> ValidateContext now rq = Inr () \<and> rc_call_depth rq < d_max_depth d"
  by (auto simp: dispatch_validate_def not_le split: option.splits sum.splits)

lemma policySnapshot_Inr:
  "policySnapshot d rq = Inr s \<longleftrightarrow>
     (\<exists>policy. d_policy d = Some policy \<and> policy (rc_app_id rq) = Inr s) \<and>
     VerifySnapshot s (rc_app_id rq) = Inr () \<and> ps_enabled s"
  by (auto simp: policySnapshot_def split: option.splits sum.splits if_splits)

lemma requireRunGrant_Inr:
  "requireRunGrant rq cap = Inr () \<longleftrightarrow> rc_run_id rq = [] \<or> cap \<in> g_capability_id ` set (rc_run_grants rq)"
  by (auto simp: requireRunGrant_def list_ex_iff)

lemma effect_checks_Inr:
  "effect_checks d rq spec dec = Inr () \<longleftrightarrow>
     (ad_require_idempotency dec \<longrightarrow> rc_idempotency_key rq \<noteq> []) \<and>
     (ad_require_confirmation dec \<longrightarrow> rc_confirmation_id rq \<noteq> [] \<and>
        (\<exists>verifier. d_confirmations d = Some verifier \<and> verifier (confirmation_request_of rq spec) = Inr ()))"
  by (auto simp: effect_checks_def split: option.splits)

lemma childRequest_Inr:
  "childRequest lib rq target version payload = Inr (child, fp) \<longleftrightarrow>
     callFingerprint lib rq target version payload = Inr fp \<and> fp \<notin> set (rc_call_chain rq) \<and>
     child = (NextCall rq)\<lparr>rc_call_chain := rc_call_chain rq @ [fp]\<rparr>"
  by (auto simp: childRequest_def split: sum.splits)

lemma govern_Inr: "govern lib d su rq cap payload = Inr gv \<longleftrightarrow> passed lib d su rq cap payload gv"
proof
  assume "govern lib d su rq cap payload = Inr gv"
  then show "passed lib d su rq cap payload gv"
    unfolding govern_def passed_def
    by (auto split: sum.splits prod.splits
        simp: dispatch_validate_Inr policySnapshot_Inr requireRunGrant_Inr effect_checks_Inr childRequest_Inr)
next
  assume "passed lib d su rq cap payload gv"
  then show "govern lib d su rq cap payload = Inr gv"
    unfolding passed_def govern_def
    by (auto split: sum.split
        simp: dispatch_validate_Inr[THEN iffD2] policySnapshot_Inr[THEN iffD2] requireRunGrant_Inr[THEN iffD2] effect_checks_Inr[THEN iffD2]
          childRequest_def)
qed

lemma route_ungoverned: "govern lib d su rq cap payload = Inl e \<Longrightarrow> route lib d su rq cap payload s w = (s, w, Some (Inl e))"
  by (simp add: route_def)

text \<open>C11: no effect without governance: if a call changes the world or the idempotency store, or returns
  a result, then the context was live and complete and below the depth limit, the App's policy snapshot
  was verified and enabled, the capability is among the Run's frozen grants (when there is a Run),
  registered and given a payload of its schema, a grant of the current policy authorizes exactly this
  principal, capability and payload, an idempotency key and an accepted confirmation were there when
  demanded, and the call is not already active in its own call chain. Otherwise nothing changes and an
  error is returned.\<close>

theorem dispatch_governed:
  "case route lib d su rq cap payload s w of
     (s', w', ret) \<Rightarrow>
       (\<exists>gv. passed lib d su rq cap payload gv) \<or> (s' = s \<and> w' = w \<and> (\<exists>e. ret = Some (Inl e)))"
proof (cases "govern lib d su rq cap payload")
  case (Inl e)
  then show ?thesis by (simp add: route_ungoverned)
next
  case (Inr gv)
  then have "passed lib d su rq cap payload gv"
    by (simp add: govern_Inr)
  then show ?thesis by (auto split: prod.split)
qed

section \<open>Nested calls\<close>

text \<open>A handler that calls on with the context it was given; \<open>n\<close> counts the calls.\<close>

inductive nested ::
  "'c dispatch_lib \<Rightarrow> ('s, 'w, 'c) dispatcher \<Rightarrow> request_context \<Rightarrow> nat \<Rightarrow> request_context \<Rightarrow> bool" for lib d rq where
  outermost: "nested lib d rq 0 rq"
| inner: "nested lib d rq n m \<Longrightarrow> govern lib d su m cap payload = Inr gv \<Longrightarrow> nested lib d rq (Suc n) (gv_child gv)"

lemma unat_next: "(x :: u16) < y \<Longrightarrow> unat (x + 1) = unat x + 1 \<and> unat (x + 1) \<le> unat y"
proof -
  assume "x < y"
  then have "unat x < unat y" by (simp add: word_less_nat_alt)
  moreover have "unat y < 2 ^ 16" using unsigned_less[of y] by simp
  ultimately have "unat (x + 1) = unat x + 1"
    by (simp add: unat_word_ariths)
  then show ?thesis using \<open>unat x < unat y\<close> by simp
qed

text \<open>C12: calls made by handlers with the context they were given always end: their depth grows by one per
  call and never wraps or exceeds the limit, no call in the chain repeats another with the same target,
  caller and payload, and App, user, Run, deadline and the Run's frozen grants never change.\<close>

theorem nested_calls_bounded:
  assumes "nested lib d rq n m"
  shows "n \<le> unat (d_max_depth d) \<and> unat (rc_call_depth m) = unat (rc_call_depth rq) + n \<and>
    (n = 0 \<or> unat (rc_call_depth m) \<le> unat (d_max_depth d)) \<and>
    length (rc_call_chain m) = length (rc_call_chain rq) + n \<and>
    (distinct (rc_call_chain rq) \<longrightarrow> distinct (rc_call_chain m)) \<and>
    rc_app_id m = rc_app_id rq \<and> rc_user_id m = rc_user_id rq \<and> rc_run_id m = rc_run_id rq \<and>
    rc_deadline m = rc_deadline rq \<and> rc_run_grants m = rc_run_grants rq"
  using assms
proof (induction rule: nested.induct)
  case (inner n m su cap payload gv)
  have p: "rc_call_depth m < d_max_depth d" "gv_fingerprint gv \<notin> set (rc_call_chain m)"
    "gv_child gv = (NextCall m)\<lparr>rc_call_chain := rc_call_chain m @ [gv_fingerprint gv], rc_capability_id := cs_id (gv_spec gv)\<rparr>"
    using inner(2) by (auto simp: govern_Inr passed_def)
  then have "unat (rc_call_depth (gv_child gv)) = unat (rc_call_depth m) + 1"
    "unat (rc_call_depth (gv_child gv)) \<le> unat (d_max_depth d)"
    using unat_next[OF p(1)] by (simp_all add: NextCall_def)
  then show ?case
    using inner.IH p(2,3) by (auto simp: NextCall_def)
qed simp

section \<open>Side effects across the stores\<close>

text \<open>C13: of any number of requests, through whatever dispatchers over one SQLite store, with whatever payloads and
  policies, overlapping in any way and with whatever other callers do to the store, no two run their handlers that
  have one App, one capability in one version and one idempotency key, where the capability demands idempotency.
  The executions are those that \<open>route\<close> makes of the requests.\<close>

theorem side_effect_dispatched_once:
  assumes "idem_table_ok t" and "length calls = length requests"
    and "\<And>i. i < length requests \<Longrightarrow> dispatches (sqlite_idem_port drv) (requests ! i) (gv i) (calls ! i)"
    and "(exec_step (sqlite_idem_port drv) (idem_evolves drv) calls)\<^sup>*\<^sup>* (exec_start calls t w) x"
    and "p < length (xs_runs x)" and "requests ! (xs_runs x ! p) = (lib1, d1, su1, rq1, cap1, payload1)"
    and "q < length (xs_runs x)" and "requests ! (xs_runs x ! q) = (lib2, d2, su2, rq2, cap2, payload2)"
    and "rc_app_id rq2 = rc_app_id rq1" and "rc_idempotency_key rq2 = rc_idempotency_key rq1"
    and "cs_id (gv_spec (gv (xs_runs x ! q))) = cs_id (gv_spec (gv (xs_runs x ! p)))"
    and "cs_version (gv_spec (gv (xs_runs x ! q))) = cs_version (gv_spec (gv (xs_runs x ! p)))"
  shows "p = q"
proof -
  have bound: "xs_runs x ! p < length requests" "xs_runs x ! q < length requests"
    using exec_runs_bound[OF assms(4)] assms(2,5,7) by auto
  have "idem_key_of (xc_operation (calls ! (xs_runs x ! p))) = idem_key_of (xc_operation (calls ! (xs_runs x ! q)))"
    using assms(3)[OF bound(1)] assms(3)[OF bound(2)] assms(6,8-12)
    by (simp add: dispatches_def call_operation_def idem_key_of_def)
  moreover have "distinct (map (call_key calls) (xs_runs x))"
    using idem_store.overlapping_at_most_once[OF assms(1,4)] .
  ultimately show ?thesis
    using assms(5,7) by (auto simp: distinct_conv_nth call_key_def[abs_def])
qed

lemma Authorize_decides:
  assumes "Authorize decode wall rel spec rq grants = Inr dec"
  shows "\<exists>g. dec = decide_by spec g"
proof -
  obtain rid where "authorize_loop rel spec (effective_request wall rq) rid grants = Inr dec"
    using assms by (auto simp: Authorize_def split: sum.splits if_splits)
  then show ?thesis
    using authorize_loop_sound by blast
qed

text \<open>C14: with the confirmation service over the SQLite table as its verifier, the dispatcher lets a call
  that demands confirmation take effect only if the table holds an approved, unexpired confirmation
  under the id the call carries, bound to the same App, Echo, Run, capability, effect target and
  idempotency key.\<close>

theorem effect_needs_confirmation:
  assumes "d_confirmations d = Some (\<lambda>r. VerifyConfirmation (sqlite_conf_port drv references) now r ct)"
    and "route lib d su rq cap payload s w = (s', w', ret)" and "w' \<noteq> w"
    and "ResolveCapability (d_registry d) cap = Inr (spec, h)"
    and "es_confirmation_floor (cs_execution spec) = ConfirmationRequired"
  shows "\<exists>c. select_key conf_key_of (rc_app_id rq, rc_confirmation_id rq) ct = Some c \<and>
    c_status c = Conf_Approved \<and> now < c_expires_at c \<and> c_echo_id c = rc_echo_id rq \<and> c_run_id c = rc_run_id rq \<and>
    c_capability_id c = cs_id spec \<and> c_effect_target c = es_effect_target (cs_execution spec) \<and>
    c_idempotency_key c = rc_idempotency_key rq"
proof -
  obtain gv where gv: "passed lib d su rq cap payload gv"
    using assms(2,3) by (cases "govern lib d su rq cap payload") (auto simp: govern_Inr route_ungoverned)
  have spec: "gv_spec gv = spec"
    using gv assms(4) by (auto simp: passed_def)
  obtain wall areq gs where "Authorize (dl_decode lib) wall (d_relationships d) spec areq gs = Inr (gv_decision gv)"
    using gv spec unfolding passed_def by blast
  then have "\<exists>g. gv_decision gv = decide_by spec g"
    by (rule Authorize_decides)
  then have "ad_require_confirmation (gv_decision gv)"
    using assms(5) by (auto simp: decide_by_def)
  then have v: "VerifyConfirmation (sqlite_conf_port drv references) now (confirmation_request_of rq spec) ct = Inr ()"
    using gv assms(1) spec by (auto simp: passed_def)
  from conf_store.verified_approved[OF v] show ?thesis
    by (auto simp: verifyRecord_Inr confirmation_request_of_def)
qed

lemma run_grants_sel [simp]:
  "ValidateContext now (rq\<lparr>rc_run_grants := grants\<rparr>) = ValidateContext now rq"
  "callFingerprint lib (rq\<lparr>rc_run_grants := grants\<rparr>) target version payload = callFingerprint lib rq target version payload"
  "confirmation_request_of (rq\<lparr>rc_run_grants := grants\<rparr>) spec = confirmation_request_of rq spec"
  "authorization_request (rq\<lparr>rc_run_grants := grants\<rparr>) cap payload now = authorization_request rq cap payload now"
  "NextCall (rq\<lparr>rc_run_grants := grants\<rparr>) = (NextCall rq)\<lparr>rc_run_grants := grants\<rparr>"
  by (simp_all add: ValidateContext_def callFingerprint_def confirmation_request_of_def authorization_request_def
      NextCall_def cong: sum.case_cong)

text \<open>The Run's frozen grants limit a call only by their capability ids: two contexts that differ only in
  them, with the same ids, pass and fail the same checks with the same decision. Narrower resources,
  budgets, time windows or relations of a Run's frozen grants are not enforced.\<close>

theorem run_grants_bind_ids_only:
  assumes "g_capability_id ` set grants = g_capability_id ` set (rc_run_grants rq)"
  shows "(\<forall>gv. govern lib d su rq cap payload = Inr gv \<longrightarrow>
      govern lib d su (rq\<lparr>rc_run_grants := grants\<rparr>) cap payload =
        Inr (gv\<lparr>gv_child := (gv_child gv)\<lparr>rc_run_grants := grants\<rparr>\<rparr>))"
proof (intro allI impI)
  fix gv assume "govern lib d su rq cap payload = Inr gv"
  then have "passed lib d su rq cap payload gv"
    by (simp add: govern_Inr)
  then have "passed lib d su (rq\<lparr>rc_run_grants := grants\<rparr>) cap payload
      (gv\<lparr>gv_child := (gv_child gv)\<lparr>rc_run_grants := grants\<rparr>\<rparr>)"
    using assms unfolding passed_def by simp
  then show "govern lib d su (rq\<lparr>rc_run_grants := grants\<rparr>) cap payload =
      Inr (gv\<lparr>gv_child := (gv_child gv)\<lparr>rc_run_grants := grants\<rparr>\<rparr>)"
    by (simp add: govern_Inr)
qed

section \<open>A concrete call\<close>

definition call_grant :: grant where
  "call_grant =
     \<lparr>g_id = ''g1'', g_app_id = ''app'', g_principal = ''user'', g_capability_id = ''note.write'',
      g_resource = \<lparr>rs_type = ''note'', rs_ids = [''n1''], rs_relation = []\<rparr>, g_not_before = 0,
      g_expires_at = minute, g_max_calls = 5, g_max_cost = 0, g_audience = [], g_delegable = False,
      g_max_depth = 0, g_policy_revision = ''rev''\<rparr>"

definition call_policy :: policy_snapshot where
  "call_policy =
     \<lparr>ps_app_id = ''app'', ps_revision = ''rev'', ps_generation = 1, ps_enabled = True, ps_grants = [call_grant]\<rparr>"

definition call_conf :: confirmation where
  "call_conf =
     \<lparr>c_app_id = ''app'', c_id = ''c1'', c_echo_id = ''e1'', c_run_id = ''r1'', c_call_id = ''call1'',
      c_capability_id = ''note.write'', c_effect_target = ''external'', c_idempotency_key = ''k1'',
      c_argument_digest = replicate 64 (CHR ''a''), c_status = Conf_Approved, c_expires_at = minute,
      c_confirmed_by = ''u'', c_decided_at = Some second, c_created_at = second\<rparr>"

definition call_context :: request_context where
  "call_context =
     \<lparr>rc_app_id = ''app'', rc_echo_id = ''e1'', rc_request_id = ''q1'', rc_trace_id = [], rc_user_id = ''user'',
      rc_session_id = [], rc_run_id = ''r1'', rc_parent_run_id = [], rc_call_id = ''call1'', rc_call_depth = 0,
      rc_deadline = 0, rc_idempotency_key = ''k1'', rc_confirmation_id = ''c1'', rc_protocol_version = [],
      rc_capability_id = [], rc_call_chain = [], rc_calls_used = 0, rc_cost_used = 0, rc_lease_token = [],
      rc_run_grants = [call_grant]\<rparr>"

definition call_lib :: "unit dispatch_lib" where
  "call_lib =
     \<lparr>dl_validate = (\<lambda>_ _. Inr ()), dl_decode = (\<lambda>_. Inr (J_Object [(''id'', J_String ''n1'')])),
      dl_encode = (\<lambda>_. Inr []), dl_sha256 = (\<lambda>_. replicate 32 CHR 0x00)\<rparr>"

definition call_handler :: "nat handler" where
  "call_handler rq payload n = (n + 1, ''ok'', None)"

definition call_verifier :: "confirmation_request \<Rightarrow> unit go_result" where
  "call_verifier r = VerifyConfirmation (sqlite_conf_port millisecond_driver (\<lambda>_. True)) (2 * second) r [call_conf]"

definition call_dispatcher :: "(idem_table, nat, unit) dispatcher" where
  "call_dispatcher = NewDispatcher
     [\<lparr>rd_spec = sample_capability, rd_handler = call_handler, rd_schema = ()\<rparr>]
     (Some (\<lambda>_. Inr call_policy)) 0 (Some call_verifier) (Some (sqlite_idem_port millisecond_driver)) None"

definition call_surroundings_at :: "instant \<Rightarrow> idem_table call_surroundings" where
  "call_surroundings_at now =
     \<lparr>su_token = ''t'' , su_deadline = None, su_now = now, su_completed = now + second,
      su_meanwhile = (\<lambda>s. s), su_wait_now = now, su_waits = [],
      cs_ctx_err = None, cs_validated_at = now, cs_authorized_at = now\<rparr>"

definition call_fingerprint :: string where
  "call_fingerprint = hex_bytes (replicate 32 CHR 0x00)"

definition call_governed :: "nat governed" where
  "call_governed =
     \<lparr>gv_spec = sample_capability, gv_handler = call_handler, gv_decision = decide_by sample_capability call_grant,
      gv_child = (NextCall call_context)\<lparr>rc_call_chain := [call_fingerprint], rc_capability_id := ''note.write''\<rparr>,
      gv_fingerprint = call_fingerprint\<rparr>"

lemma call_ids:
  "is_stable_id ''g1''" "is_stable_id ''app''" "is_stable_id ''note.write''" "is_stable_id ''note''" "is_stable_id ''n1''"
  "app_id_pattern ''app''" "app_id_pattern ''rev''"
  by code_simp+

lemma call_grant_canonical: "canonical_grant call_grant"
  by (simp add: canonical_grant_def call_grant_def call_ids)

lemma call_policy_ok: "VerifySnapshot call_policy ''app'' = Inr ()"
  using NormalizeGrant_canonical[OF call_grant_canonical]
  by (simp add: VerifySnapshot_def call_policy_def call_ids validGrants_def del: app_id_pattern.simps)
    (simp add: call_grant_def)

lemma call_specs:
  "ValidateAuthorizationSpec (cs_authorization sample_capability) = Inr ()"
  "ValidateExecutionSpec (cs_execution sample_capability) = Inr ()"
  by (simp_all add: ValidateAuthorizationSpec_def ValidateExecutionSpec_def sample_capability_def call_ids capability_names)

lemma call_resource: "resourceID (dl_decode call_lib) ''/id'' payload = Inr ''n1''"
proof -
  have "split_on (CHR ''/'') (trim_slash ''/id'') = [''id'']" "unescape_part ''id'' = ''id''"
    by code_simp+
  then show ?thesis
    by (simp add: resourceID_def call_lib_def call_ids)
qed

lemma call_authorized:
  assumes "0 < now" and "now \<le> minute"
  shows "Authorize (dl_decode call_lib) now None sample_capability
     (authorization_request call_context ''note.write'' payload now) [call_grant] = Inr (decide_by sample_capability call_grant)"
proof -
  let ?rq = "authorization_request call_context ''note.write'' payload now"
  have eff: "effective_request now ?rq = ?rq"
    using assms by (simp add: effective_request_def authorization_request_def)
  have "grant_covers call_grant (None, sample_capability, ?rq, ''n1'')"
    using assms by (simp add: grant_covers_def not_skipped not_exhausted)
      (simp add: call_grant_def authorization_request_def call_context_def sample_capability_def principal_def)
  then have "authorize_loop None sample_capability ?rq ''n1'' [call_grant] = Inr (decide_by sample_capability call_grant)"
    by (simp add: NormalizeGrant_canonical call_grant_canonical)
  moreover have "as_resource_id_from (cs_authorization sample_capability) = ''/id''" "rq_principal ?rq = ''user''"
    by (simp_all add: sample_capability_def authorization_request_def call_context_def principal_def)
  ultimately show ?thesis
    by (simp add: Authorize_def call_specs call_resource eff)
qed

lemma call_verified: "call_verifier (confirmation_request_of call_context sample_capability) = Inr ()"
proof -
  let ?r = "confirmation_request_of call_context sample_capability"
  have r: "?r = \<lparr>cr_app_id = ''app'', cr_echo_id = ''e1'', cr_run_id = ''r1'', cr_confirmation_id = ''c1'',
      cr_capability_id = ''note.write'', cr_effect_target = ''external'', cr_idempotency_key = ''k1''\<rparr>"
    by (simp add: confirmation_request_of_def call_context_def sample_capability_def)
  have "ValidateRequest ?r = Inr ()"
    unfolding r by code_simp
  moreover have "verifyRecord call_conf ?r (2 * second) = Inr ()"
    by (simp add: verifyRecord_Inr r) (simp add: call_conf_def minute_def)
  moreover have "cp_get (sqlite_conf_port millisecond_driver (\<lambda>_. True)) ''app'' ''c1'' [call_conf] = Inr call_conf"
    by (simp add: sqlite_conf_port_def ConfGet_def select_key_def call_conf_def conf_key_of_def)
  ultimately show ?thesis
    by (simp add: call_verifier_def VerifyConfirmation_def) (simp add: r)
qed

lemma call_dispatcher_sel [simp]:
  "d_registry call_dispatcher = [\<lparr>rd_spec = sample_capability, rd_handler = call_handler, rd_schema = ()\<rparr>]"
  "d_policy call_dispatcher = Some (\<lambda>_. Inr call_policy)" "d_confirmations call_dispatcher = Some call_verifier"
  "d_idempotency call_dispatcher = Some (sqlite_idem_port millisecond_driver)"
  "d_relationships call_dispatcher = None" "d_max_depth call_dispatcher = 16"
  by (simp_all add: call_dispatcher_def NewDispatcher_def)

lemma call_surroundings_sel [simp]:
  "cs_ctx_err (call_surroundings_at now) = None" "cs_validated_at (call_surroundings_at now) = now"
  "cs_authorized_at (call_surroundings_at now) = now" "su_meanwhile (call_surroundings_at now) = (\<lambda>s. s)"
  by (simp_all add: call_surroundings_at_def)

lemma call_resolves: "ResolveCapability (d_registry call_dispatcher) ''note.write'' = Inr (sample_capability, call_handler)"
  by (simp add: ResolveCapability_def lookup_entry_def entry_id_def) (simp add: sample_capability_def)

lemma call_passed:
  assumes "0 < now" and "now \<le> minute"
  shows "passed call_lib call_dispatcher (call_surroundings_at now) call_context ''note.write'' payload call_governed"
proof -
  have ids: "cs_id sample_capability = ''note.write''" "rc_app_id call_context = ''app''" "rc_run_id call_context = ''r1''"
    by (simp_all add: sample_capability_def call_context_def)
  have "ValidateContext now call_context = Inr ()" "rc_call_depth call_context < 16"
    "''note.write'' \<in> g_capability_id ` set (rc_run_grants call_context)" "rc_idempotency_key call_context \<noteq> []"
    "rc_confirmation_id call_context \<noteq> []" "rc_call_chain call_context = []"
    by (simp_all add: ValidateContext_def call_context_def call_grant_def word_less_nat_alt)
  moreover have "ValidateCapabilityInput (dl_validate call_lib) (d_registry call_dispatcher) ''note.write'' payload = Inr ()"
    by (simp add: ValidateCapabilityInput_def lookup_entry_def entry_id_def ids validatePayload_def call_lib_def)
  moreover have "callFingerprint call_lib call_context ''note.write'' (cs_version sample_capability) payload = Inr call_fingerprint"
    by (simp add: callFingerprint_def CanonicalJSON_def call_lib_def call_fingerprint_def)
  moreover have "ps_enabled call_policy" "ps_grants call_policy = [call_grant]"
    by (simp_all add: call_policy_def)
  ultimately show ?thesis
    using assms call_policy_ok call_resolves call_verified call_authorized[of now payload]
    unfolding passed_def by (simp add: call_governed_def ids)
qed

lemma call_governs:
  "0 < now \<Longrightarrow> now \<le> minute \<Longrightarrow>
     govern call_lib call_dispatcher (call_surroundings_at now) call_context ''note.write'' payload = Inr call_governed"
  by (simp add: govern_Inr call_passed)

definition call_claim :: claim where
  "call_claim = make_claim (call_operation call_context ''note.write'' ''1.0.0'' call_fingerprint) ''t'' (second + 2 * minute)"

lemma call_begin: "\<exists>t r. BeginIdempotent call_claim second [] = (t, Inr (r, True))"
proof -
  have g: "begin_guard call_claim second" and row: "idem_row_check (new_idem_row call_claim second)"
    by code_simp+
  show ?thesis
    using begin_guard_get[OF g]
    by (simp add: BeginIdempotent_def g row begin_insert_def exec_insert_ignore_def begin_read_def look_idem_def
        select_key_def idem_key_new scan_idem_def) (simp add: new_idem_row_def)
qed

lemma call_effect:
  "fst (snd (route call_lib call_dispatcher (call_surroundings_at second) call_context ''note.write'' payload [] n)) = n + 1"
proof -
  let ?op = "call_operation call_context ''note.write'' ''1.0.0'' call_fingerprint"
  obtain t r where b: "BeginIdempotent call_claim second [] = (t, Inr (r, True))"
    using call_begin by blast
  have "ValidateOperation ?op = Inr ()"
    by code_simp
  moreover have su: "surroundings.truncate (call_surroundings_at second) = sample_surroundings second"
    by (simp add: surroundings.truncate_def call_surroundings_at_def sample_surroundings_def)
  moreover have "second < second + 2 * minute"
    by simp
  ultimately have "fst (snd (Execute NewManager (sqlite_idem_port millisecond_driver) (sample_surroundings second) ?op
      (Some (call_handler c payload)) [] n)) = n + 1" for c
    using b by (simp add: Execute_def Let_def sample_surroundings_def lease_NewManager call_handler_def call_claim_def[symmetric]
        split: prod.split)
  moreover have "ad_require_idempotency (decide_by sample_capability call_grant)" "second \<le> minute"
    by (simp_all add: decide_by_def sample_capability_def capability_names minute_def)
  moreover have "cs_id sample_capability = ''note.write''" "cs_version sample_capability = ''1.0.0''"
    by (simp_all add: sample_capability_def)
  ultimately show ?thesis
    by (simp add: route_def call_governs invokeHandler_def call_governed_def su case_prod_beta)
qed

theorem nested_calls_bounded_witness:
  "unat (rc_call_depth (gv_child call_governed)) = 1 \<and> distinct (rc_call_chain (gv_child call_governed))"
proof -
  have n: "nested call_lib call_dispatcher call_context (Suc 0) (gv_child call_governed)"
    by (rule nested.inner[OF nested.outermost call_governs[of second]]) (simp_all add: minute_def)
  show ?thesis
    using nested_calls_bounded[OF n] by (simp add: call_context_def)
qed

definition governed_request :: "(idem_table, nat, unit) dispatch_request" where
  "governed_request = (call_lib, call_dispatcher, call_surroundings_at second, call_context, ''note.write'', [])"

definition governed_call :: "(idem_table, nat) exec_call" where
  "governed_call = \<lparr>xc_manager = NewManager, xc_surroundings = sample_surroundings second,
     xc_operation = call_operation call_context ''note.write'' ''1.0.0'' call_fingerprint,
     xc_effect = Some (gv_handler call_governed (gv_child call_governed) [])\<rparr>"

lemma governed_dispatches: "dispatches (sqlite_idem_port millisecond_driver) governed_request call_governed governed_call"
proof -
  have "surroundings.truncate (call_surroundings_at second) = sample_surroundings second"
    by (simp add: surroundings.truncate_def call_surroundings_at_def sample_surroundings_def)
  moreover have "ad_require_idempotency (gv_decision call_governed)"
    by (simp add: call_governed_def decide_by_def sample_capability_def capability_names)
  moreover have "cs_id (gv_spec call_governed) = ''note.write''" "cs_version (gv_spec call_governed) = ''1.0.0''"
    "gv_fingerprint call_governed = call_fingerprint"
    by (simp_all add: call_governed_def sample_capability_def)
  ultimately show ?thesis
    by (simp add: dispatches_def governed_request_def governed_call_def call_governs minute_def)
qed

lemma governed_begins:
  "\<exists>s. execute_begin NewManager (sqlite_idem_port millisecond_driver) (sample_surroundings second)
     (call_operation call_context ''note.write'' ''1.0.0'' call_fingerprint) True [] = (s, Ph_Claimed call_claim)"
proof -
  have "ValidateOperation (call_operation call_context ''note.write'' ''1.0.0'' call_fingerprint) = Inr ()" by code_simp
  moreover have "second < second + 2 * minute" by simp
  ultimately show ?thesis
    using call_begin by (auto simp: execute_begin_def Let_def sample_surroundings_def lease_NewManager call_claim_def[symmetric])
qed

theorem side_effect_dispatched_once_witness:
  "\<exists>x. (exec_step (sqlite_idem_port millisecond_driver) (idem_evolves millisecond_driver) [governed_call, governed_call])\<^sup>*\<^sup>*
     (exec_start [governed_call, governed_call] [] 0) x \<and> xs_runs x = [0] \<and> \<not> 1 < length (xs_runs x)"
proof -
  let ?calls = "[governed_call, governed_call]"
  let ?step = "exec_step (sqlite_idem_port millisecond_driver) (idem_evolves millisecond_driver) ?calls"
  let ?x0 = "exec_start ?calls [] 0"
  obtain s where s: "execute_begin NewManager (sqlite_idem_port millisecond_driver) (sample_surroundings second)
      (call_operation call_context ''note.write'' ''1.0.0'' call_fingerprint) True [] = (s, Ph_Claimed call_claim)"
    using governed_begins by blast
  define x1 where "x1 = ?x0\<lparr>xs_store := s, xs_phases := (xs_phases ?x0)[0 := Ph_Claimed call_claim]\<rparr>"
  have 1: "?step ?x0 x1" unfolding x1_def
    by (rule exec_step.begin_block) (use s in \<open>simp_all add: exec_start_def governed_call_def\<close>)
  obtain w' result err where f: "the (xc_effect (?calls ! 0)) (xs_world x1) = (w', result, err)"
    by (metis prod_cases3)
  define x2 where "x2 = x1\<lparr>xs_world := w', xs_phases := (xs_phases x1)[0 := Ph_Ran call_claim result err], xs_runs := xs_runs x1 @ [0]\<rparr>"
  have 2: "?step x1 x2" unfolding x2_def
    by (rule exec_step.run_block[OF _ _ f]) (simp_all add: x1_def exec_start_def)
  have steps: "?step\<^sup>*\<^sup>* ?x0 x2" by (rule rtranclp.rtrancl_into_rtrancl[OF r_into_rtranclp[of ?step, OF 1] 2])
  have d: "dispatches (sqlite_idem_port millisecond_driver) ([governed_request, governed_request] ! i) call_governed (?calls ! i)"
    if "i < length [governed_request, governed_request]" for i
    using that governed_dispatches by (cases i) (auto simp: less_Suc_eq)
  have "xs_runs x2 = [0]" by (simp add: x2_def x1_def exec_start_def)
  moreover have "\<not> 1 < length (xs_runs x2)"
  proof
    assume more: "1 < length (xs_runs x2)"
    have "i < 2" if "i \<in> set (xs_runs x2)" for i using exec_runs_bound[OF steps that] by simp
    then have "[governed_request, governed_request] ! (xs_runs x2 ! k) = governed_request" if "k < length (xs_runs x2)" for k
      using nth_mem[OF that] by (fastforce simp: less_Suc_eq numeral_2_eq_2)
    then have r: "[governed_request, governed_request] ! (xs_runs x2 ! k) =
        (call_lib, call_dispatcher, call_surroundings_at second, call_context, ''note.write'', [])" if "k < length (xs_runs x2)" for k
      using that by (simp add: governed_request_def)
    have "(0::nat) = 1"
      by (rule side_effect_dispatched_once[OF _ _ d steps _ r _ r]) (use more in \<open>auto simp: idem_table_ok_def\<close>)
    then show False by simp
  qed
  ultimately show ?thesis using steps by blast
qed

theorem effect_needs_confirmation_witness:
  "\<exists>c. select_key conf_key_of (''app'', ''c1'') [call_conf] = Some c \<and> c_status c = Conf_Approved"
proof -
  let ?r = "route call_lib call_dispatcher (call_surroundings_at second) call_context ''note.write'' [] [] 0"
  have r: "?r = (fst ?r, fst (snd ?r), snd (snd ?r))"
    by simp
  have w: "fst (snd ?r) \<noteq> 0"
    using call_effect[of "[]" 0] by simp
  have v: "d_confirmations call_dispatcher =
      Some (\<lambda>r. VerifyConfirmation (sqlite_conf_port millisecond_driver (\<lambda>_. True)) (2 * second) r [call_conf])"
    by (simp add: call_verifier_def[abs_def])
  have "es_confirmation_floor (cs_execution sample_capability) = ConfirmationRequired"
    "rc_app_id call_context = ''app''" "rc_confirmation_id call_context = ''c1''"
    by (simp_all add: sample_capability_def capability_names call_context_def)
  then show ?thesis
    using effect_needs_confirmation[OF v r w call_resolves] by auto
qed

theorem run_grants_bind_ids_only_witness:
  "\<exists>gv. govern call_lib call_dispatcher (call_surroundings_at second)
     (call_context\<lparr>rc_run_grants := [call_grant\<lparr>g_resource := \<lparr>rs_type = ''note'', rs_ids = [''n2''], rs_relation = []\<rparr>,
        g_max_calls := 1\<rparr>]\<rparr>) ''note.write'' [] = Inr gv"
proof -
  let ?g = "call_grant\<lparr>g_resource := \<lparr>rs_type = ''note'', rs_ids = [''n2''], rs_relation = []\<rparr>, g_max_calls := 1\<rparr>"
  have same: "g_capability_id ` set [?g] = g_capability_id ` set (rc_run_grants call_context)"
    by (simp add: call_context_def)
  have "second \<le> minute" by (simp add: minute_def)
  then show ?thesis
    using run_grants_bind_ids_only[OF same, of call_lib call_dispatcher "call_surroundings_at second" "''note.write''" "[]"]
      call_governs[of second "[]"] by auto
qed

end
