(* ===== verification/Go_Text.thy ===== *)
theory Go_Text
  imports Ident
begin

text \<open>
  Runes of a Go string. \<open>[]rune(s)\<close> reads UTF-8 and takes every byte that starts no valid sequence for
  one replacement character; a rune is kept here as its encoding, so \<open>string(runes)\<close> is \<open>concat\<close> and
  \<open>utf8.RuneCountInString\<close> the number of runes.
\<close>

definition replacement_rune :: string where
  "replacement_rune = [CHR 0xEF, CHR 0xBF, CHR 0xBD]"

text \<open>The number of bytes of the valid sequence at the head of a string, 0 if there is none.\<close>

definition rune_width :: "string \<Rightarrow> nat" where
  "rune_width s =
     (case s of
        [] \<Rightarrow> 0
      | a # t \<Rightarrow>
          let x = code a in
          if x < 128 then 1
          else if 194 \<le> x \<and> x \<le> 223 \<and> (case t of b # _ \<Rightarrow> cont b | _ \<Rightarrow> False) then 2
          else if 224 \<le> x \<and> x \<le> 239 \<and>
              (case t of
                 b # c # _ \<Rightarrow> cont b \<and> cont c \<and> (x = 224 \<longrightarrow> 160 \<le> code b) \<and> (x = 237 \<longrightarrow> code b \<le> 159)
               | _ \<Rightarrow> False) then 3
          else if 240 \<le> x \<and> x \<le> 244 \<and>
              (case t of
                 b # c # d # _ \<Rightarrow>
                   cont b \<and> cont c \<and> cont d \<and> (x = 240 \<longrightarrow> 144 \<le> code b) \<and> (x = 244 \<longrightarrow> code b \<le> 143)
               | _ \<Rightarrow> False) then 4
          else 0)"

function runes :: "string \<Rightarrow> string list" where
  "runes [] = []"
| "runes (a # t) =
     (let w = rune_width (a # t) in
      if w = 0 then replacement_rune # runes t else take w (a # t) # runes (drop (w - 1) t))"
  by pat_completeness auto
termination
  by (relation "measure length") auto

definition rune_count :: "string \<Rightarrow> nat" where
  "rune_count s = length (runes s)"

definition take_runes :: "nat \<Rightarrow> string \<Rightarrow> string" where
  "take_runes n s = concat (take n (runes s))"

text \<open>\<open>%d\<close> of a natural number.\<close>

fun decimal :: "nat \<Rightarrow> string" where
  "decimal n = (if n < 10 then [char_of (48 + n)] else decimal (n div 10) @ [char_of (48 + n mod 10)])"

declare decimal.simps [simp del]

text \<open>A rune: one valid sequence and nothing else.\<close>

definition is_rune :: "string \<Rightarrow> bool" where
  "is_rune r \<longleftrightarrow> r \<noteq> [] \<and> rune_width r = length r"

lemma rune_width_append: "is_rune r \<Longrightarrow> rune_width (r @ s) = length r"
  unfolding is_rune_def rune_width_def Let_def
  by (auto split: list.splits if_splits)

lemma rune_width_take: "rune_width s \<noteq> 0 \<Longrightarrow> is_rune (take (rune_width s) s)"
  unfolding is_rune_def rune_width_def Let_def
  by (auto split: list.splits if_splits)

lemma replacement_is_rune: "is_rune replacement_rune"
  by code_simp

lemma runes_append: "is_rune r \<Longrightarrow> runes (r @ s) = r # runes s"
proof -
  assume r: "is_rune r"
  then obtain a t where at: "r = a # t" by (cases r) (auto simp: is_rune_def)
  have "rune_width (a # t @ s) = Suc (length t)" using rune_width_append[OF r, of s] at by simp
  then show ?thesis by (simp add: at)
qed

lemma runes_are_runes: "r \<in> set (runes s) \<Longrightarrow> is_rune r"
proof (induction s rule: runes.induct)
  case (2 a t)
  then show ?case
    using replacement_is_rune rune_width_take[of "a # t"]
    by (auto simp: Let_def split: if_splits simp del: take_Suc_Cons)
qed simp

lemma runes_concat: "\<forall>r \<in> set rs. is_rune r \<Longrightarrow> runes (concat rs) = rs"
  by (induction rs) (simp_all add: runes_append)

lemma runes_take: "runes (take_runes n s) = take n (runes s)"
  unfolding take_runes_def by (rule runes_concat) (use runes_are_runes in_set_takeD in metis)

lemma rune_count_take: "rune_count (take_runes n s) = min n (rune_count s)"
  by (simp add: rune_count_def runes_take min.commute)

lemma rune_count_append_runes: "rune_count (concat rs @ s) = length rs + rune_count s" if "\<forall>r \<in> set rs. is_rune r"
  using that by (induction rs) (simp_all add: rune_count_def runes_append)

lemma utf8_valid_width:
  assumes "utf8_valid (a # t)"
  shows "rune_width (a # t) \<noteq> 0 \<and> utf8_valid (drop (rune_width (a # t) - 1) t)"
proof -
  consider "code a < 128" | "194 \<le> code a" "code a \<le> 223" | "224 \<le> code a" "code a \<le> 239"
    | "240 \<le> code a" "code a \<le> 244"
    using assms by (auto simp: Let_def split: if_splits)
  then show ?thesis
  proof cases
    case 1
    then show ?thesis using assms by (simp add: rune_width_def)
  next
    case 2
    then obtain b s where "t = b # s" "cont b" "utf8_valid s"
      using assms by (cases t) auto
    then show ?thesis using 2 by (simp add: rune_width_def)
  next
    case 3
    then obtain b c s where "t = b # c # s" "cont b" "cont c" "utf8_valid s"
      "code a = 224 \<longrightarrow> 160 \<le> code b" "code a = 237 \<longrightarrow> code b \<le> 159"
      using assms by (cases t; cases "tl t") (auto simp: Let_def)
    then show ?thesis using 3 by (simp add: rune_width_def)
  next
    case 4
    then obtain b c d s where "t = b # c # d # s" "cont b" "cont c" "cont d" "utf8_valid s"
      "code a = 240 \<longrightarrow> 144 \<le> code b" "code a = 244 \<longrightarrow> code b \<le> 143"
      using assms by (cases t; cases "tl t"; cases "tl (tl t)") (auto simp: Let_def)
    then show ?thesis using 4 by (simp add: rune_width_def)
  qed
qed

lemma runes_valid: "utf8_valid s \<Longrightarrow> concat (runes s) = s"
proof (induction s rule: runes.induct)
  case (2 a t)
  let ?w = "rune_width (a # t)"
  have w: "?w \<noteq> 0" "utf8_valid (drop (?w - 1) t)"
    using utf8_valid_width[OF 2(3)] by auto
  then have "concat (runes (drop (?w - 1) t)) = drop (?w - 1) t"
    using 2(2) by simp
  moreover have "take ?w (a # t) @ drop (?w - 1) t = a # t"
    using w(1) by (cases ?w) simp_all
  ultimately show ?case using w(1) by (simp add: Let_def)
qed simp

lemma ascii_runes: "ascii s \<Longrightarrow> runes s = map (\<lambda>c. [c]) s"
  by (induction s) (auto simp: ascii_def rune_width_def)

end
