(* ===== verification/Child_Run.thy ===== *)
theory Child_Run
  imports Dispatcher Run_Reconcile Go_Text
begin

text \<open>
  \<open>internal/kernel/childrun/childrun.go\<close>: the governed capabilities \<open>run.create_child\<close> and
  \<open>run.get_child_status\<close>. Their store and the source of the App configuration are ports; the strict
  JSON decoder of the payloads and the JSON encoder of the replies are parameters, and so are the
  clock reading and the two UUIDs of a call. The locale \<open>child_store\<close> states what the handlers rely on
  of the store; it is interpreted on the SQLite model.
\<close>

section \<open>Data\<close>

definition MaxChildren :: int where "MaxChildren = 4"
definition maxTaskBytes :: nat where "maxTaskBytes = 16384"

abbreviation child_fail :: "childrun_error \<Rightarrow> go_error + 'a" where
  "child_fail e \<equiv> Inl (Sentinel (Childrun_E e))"

record child_request =
  ch_task :: string
  ch_grants :: "grant list"
  ch_max_steps :: u32
  ch_max_capability_calls :: u32
  ch_max_execution_units :: u64
  ch_max_output_bytes :: u64
  ch_max_cost :: u64
  ch_timeout_ms :: u32

record 's child_port =
  cp_get :: "string \<Rightarrow> string \<Rightarrow> 's \<Rightarrow> run_record go_result"
  cp_create :: "run_record \<Rightarrow> run_record \<Rightarrow> int \<Rightarrow> 's \<Rightarrow> 's \<times> unit go_result"

record 's child_service =
  sv_store :: "'s child_port"
  sv_policy :: "string \<Rightarrow> app_config go_result"

text \<open>What \<open>run.get_child_status\<close> answers: the error of a Run that has one, the result of one that
  succeeded.\<close>

record child_status =
  st_run_id :: string
  st_status :: run_status
  st_error :: "(string \<times> message) option"
  st_result :: "run_output option"

record child_lib =
  cl_request :: "string \<Rightarrow> child_request option"
  cl_child_id :: "string \<Rightarrow> string option"
  cl_created :: "string \<Rightarrow> run_status \<Rightarrow> string go_result"
  cl_status :: "child_status \<Rightarrow> string go_result"
  cl_revision :: revision_encoder
  cl_sha256 :: "string \<Rightarrow> string"

section \<open>The capabilities\<close>

definition createSpec :: capability_spec where
  \<open>createSpec =
     \<lparr>cs_id = ''run.create_child'', cs_version = ''1.0.0'',
      cs_name = [CHR 0xE5, CHR 0x88, CHR 0x9B, CHR 0xE5, CHR 0xBB, CHR 0xBA, CHR 0xE5, CHR 0xAD, CHR 0x90] @ '' Run'',
      cs_description = [CHR 0xE5, CHR 0x88, CHR 0x9B, CHR 0xE5, CHR 0xBB, CHR 0xBA, CHR 0xE4, CHR 0xB8, CHR 0x80] @
        [CHR 0xE4, CHR 0xB8, CHR 0xAA, CHR 0xE7, CHR 0x94, CHR 0xB1] @
        '' Core '' @
        [CHR 0xE6, CHR 0x8C, CHR 0x81, CHR 0xE4, CHR 0xB9, CHR 0x85, CHR 0xE5, CHR 0x8C, CHR 0x96] @
        [CHR 0xE3, CHR 0x80, CHR 0x81, CHR 0xE7, CHR 0x8B, CHR 0xAC, CHR 0xE7, CHR 0xAB, CHR 0x8B] @
        [CHR 0xE8, CHR 0xB0, CHR 0x83, CHR 0xE5, CHR 0xBA, CHR 0xA6, CHR 0xE5, CHR 0x92, CHR 0x8C] @
        [CHR 0xE5, CHR 0x8F, CHR 0xAF, CHR 0xE5, CHR 0x8F, CHR 0x96, CHR 0xE6, CHR 0xB6, CHR 0x88] @
        [CHR 0xE7, CHR 0x9A, CHR 0x84, CHR 0xE7, CHR 0x9B, CHR 0xB4, CHR 0xE6, CHR 0x8E, CHR 0xA5] @
        '' child Run'',
      cs_input_schema = ''{"type":"object","required":["task","capability_grants","max_steps","max_capability_calls","'' @
        ''max_execution_units","max_output_bytes","max_cost_microusd","timeout_ms"],"additionalPropert'' @
        ''ies":false,"properties":{"task":{"type":"string","minLength":1,"maxLength":16384},"capabilit'' @
        ''y_grants":{"type":"array","maxItems":64,"items":{"type":"object","required":["id","app_id","'' @
        ''principal","capability_id","resource","expires_at","max_calls","max_cost_microusd","delegabl'' @
        ''e","max_delegation_depth","policy_revision"],"additionalProperties":false,"properties":{"id"'' @
        '':{"type":"string"},"app_id":{"type":"string"},"principal":{"type":"string"},"capability_id":'' @
        ''{"type":"string"},"resource":{"type":"object","required":["type"],"additionalProperties":fal'' @
        ''se,"properties":{"type":{"type":"string"},"ids":{"type":"array","items":{"type":"string"}},"'' @
        ''relation":{"type":"string"}}},"not_before":{"type":["string","null"]},"expires_at":{"type":"'' @
        ''string"},"max_calls":{"type":"integer","minimum":1},"max_cost_microusd":{"type":"integer","m'' @
        ''inimum":0},"audience":{"type":"string"},"delegable":{"type":"boolean"},"max_delegation_depth'' @
        ''":{"type":"integer","minimum":0},"policy_revision":{"type":"string"}}}},"max_steps":{"type":'' @
        ''"integer","minimum":1},"max_capability_calls":{"type":"integer","minimum":1},"max_execution_'' @
        ''units":{"type":"integer","minimum":1},"max_output_bytes":{"type":"integer","minimum":1},"max'' @
        ''_cost_microusd":{"type":"integer","minimum":0},"timeout_ms":{"type":"integer","minimum":100}'' @
        ''}}'',
      cs_authorization = \<lparr>as_resource_type = ''run'', as_resource_id_from = [], as_principal = []\<rparr>,
      cs_execution = \<lparr>es_effect_target = EffectState, es_replay = ReplayIdempotencyKey,
        es_confirmation_floor = ConfirmationPolicy\<rparr>\<rparr>\<close>

definition statusSpec :: capability_spec where
  \<open>statusSpec =
     \<lparr>cs_id = ''run.get_child_status'', cs_version = ''1.0.0'',
      cs_name = [CHR 0xE8, CHR 0xAF, CHR 0xBB, CHR 0xE5, CHR 0x8F, CHR 0x96, CHR 0xE5, CHR 0xAD, CHR 0x90] @ '' Run '' @
        [CHR 0xE7, CHR 0x8A, CHR 0xB6, CHR 0xE6, CHR 0x80, CHR 0x81],
      cs_description = [CHR 0xE8, CHR 0xAF, CHR 0xBB, CHR 0xE5, CHR 0x8F, CHR 0x96, CHR 0xE5, CHR 0xBD, CHR 0x93] @
        [CHR 0xE5, CHR 0x89, CHR 0x8D] @
        '' root Run '' @
        [CHR 0xE7, CHR 0x9B, CHR 0xB4, CHR 0xE6, CHR 0x8E, CHR 0xA5] @
        '' child '' @
        [CHR 0xE7, CHR 0x9A, CHR 0x84, CHR 0xE6, CHR 0x8C, CHR 0x81, CHR 0xE4, CHR 0xB9, CHR 0x85] @
        [CHR 0xE7, CHR 0x8A, CHR 0xB6, CHR 0xE6, CHR 0x80, CHR 0x81, CHR 0xE5, CHR 0x92, CHR 0x8C] @
        [CHR 0xE7, CHR 0xBB, CHR 0x93, CHR 0xE6, CHR 0x9E, CHR 0x9C],
      cs_input_schema = ''{"type":"object","required":["child_run_id"],"additionalProperties":false,"properties":{"chi'' @
        ''ld_run_id":{"type":"string","minLength":1,"maxLength":128}}}'',
      cs_authorization = \<lparr>as_resource_type = ''run'', as_resource_id_from = ''/child_run_id'', as_principal = []\<rparr>,
      cs_execution = \<lparr>es_effect_target = EffectNone, es_replay = ReplaySafe,
        es_confirmation_floor = ConfirmationPolicy\<rparr>\<rparr>\<close>

section \<open>Attenuation\<close>

definition named_candidate :: "string \<Rightarrow> nat \<Rightarrow> grant \<Rightarrow> grant" where
  "named_candidate audience i g =
     (let g' = g\<lparr>g_audience := audience\<rparr> in
      if g_id g' = [] then g'\<lparr>g_id := ''grant-'' @ audience @ ''-'' @ decimal i\<rparr> else g')"

definition policy_allows :: "grant list \<Rightarrow> string \<Rightarrow> grant \<Rightarrow> bool" where
  "policy_allows policy cap narrowed =
     list_ex (\<lambda>q. g_capability_id q = cap \<and> is_ok (NarrowGrant q narrowed)) policy"

text \<open>The inner loops: the first parent grant of the capability that narrows to the candidate and whose
  narrowing some grant of the policy allows.\<close>

fun match_parent :: "grant list \<Rightarrow> grant \<Rightarrow> grant list \<Rightarrow> grant option" where
  "match_parent [] candidate policy = None"
| "match_parent (p # ps) candidate policy =
     (if g_capability_id p \<noteq> g_capability_id candidate then match_parent ps candidate policy
      else case NarrowGrant p candidate of
        Inl _ \<Rightarrow> match_parent ps candidate policy
      | Inr narrowed \<Rightarrow>
          if policy_allows policy (g_capability_id candidate) narrowed then Some narrowed
          else match_parent ps candidate policy)"

fun attenuate_each :: "string \<Rightarrow> nat \<Rightarrow> grant list \<Rightarrow> grant list \<Rightarrow> grant list \<Rightarrow> grant list go_result" where
  "attenuate_each audience i parent policy [] = Inr []"
| "attenuate_each audience i parent policy (g # gs) =
     (let candidate = named_candidate audience i g in
      case match_parent parent candidate policy of
        None \<Rightarrow> child_fail Child_GrantDenied
      | Some narrowed \<Rightarrow>
          if g_capability_id candidate = ''run.create_child'' then child_fail Child_GrantDenied
          else and_then (attenuate_each audience (i + 1) parent policy gs) (\<lambda>rest. Inr (narrowed # rest)))"

fun equal_neighbours :: "grant list \<Rightarrow> bool" where
  "equal_neighbours (g # h # gs) = (g_id h = g_id g \<or> equal_neighbours (h # gs))"
| "equal_neighbours _ = False"

definition attenuateGrants ::
  "child_lib \<Rightarrow> 's child_service \<Rightarrow> string \<Rightarrow> run_record \<Rightarrow> grant list \<Rightarrow> string \<Rightarrow> grant list go_result" where
  "attenuateGrants lib sv app parent requested audience =
     (case sv_policy sv app of
        Inl _ \<Rightarrow> child_fail Child_GrantDenied
      | Inr config \<Rightarrow>
        if VerifyCurrent (cl_revision lib) (cl_sha256 lib) config app \<noteq> Inr () \<or> \<not> ac_enabled config
          then child_fail Child_GrantDenied
        else if 64 < length requested then child_fail Child_GrantDenied
        else case attenuate_each audience 0 (r_grants parent) (ac_grants config) requested of
          Inl e \<Rightarrow> Inl e
        | Inr grants \<Rightarrow>
            let sorted_grants = sort_key g_id grants in
            if equal_neighbours sorted_grants then child_fail Child_GrantDenied else Inr sorted_grants)"

section \<open>Creation\<close>

definition request_complete :: "child_request \<Rightarrow> bool" where
  "request_complete i \<longleftrightarrow>
     \<not> (length (ch_task i) = 0 \<or> maxTaskBytes < length (ch_task i) \<or> ch_max_steps i = 0 \<or>
        ch_max_capability_calls i = 0 \<or> ch_max_execution_units i = 0 \<or> ch_max_output_bytes i = 0 \<or>
        ch_timeout_ms i < 100)"

text \<open>The budgets of the request against what the parent has left.\<close>

definition budgets_fit :: "run_record \<Rightarrow> child_request \<Rightarrow> bool" where
  "budgets_fit parent i \<longleftrightarrow>
     (let remaining_units = r_max_execution_units parent - r_used_execution_units parent;
          cost_limited = (r_max_cost parent \<noteq> 0);
          remaining_cost = (if cost_limited then r_max_cost parent - r_used_cost parent else r_max_cost parent) in
      \<not> (r_max_execution_units parent < r_used_execution_units parent) \<and>
      \<not> (cost_limited \<and> r_max_cost parent < r_used_cost parent) \<and>
      \<not> (r_max_steps parent < ch_max_steps i \<or> r_max_capability_calls parent < ch_max_capability_calls i \<or>
         remaining_units < ch_max_execution_units i \<or> r_max_output_bytes parent < ch_max_output_bytes i \<or>
         r_execution_timeout_ms parent < ch_timeout_ms i \<or>
         (cost_limited \<and> (ch_max_cost i = 0 \<or> remaining_cost < ch_max_cost i)) \<or>
         (\<not> cost_limited \<and> ch_max_cost i \<noteq> 0)))"

definition child_record ::
  "run_record \<Rightarrow> child_request \<Rightarrow> string \<Rightarrow> string \<Rightarrow> string \<Rightarrow> grant list \<Rightarrow> instant \<Rightarrow> instant \<Rightarrow> run_record" where
  "child_record parent i child_id group_id call_id grants deadline now =
     \<lparr>r_id = child_id, r_group_id = group_id, r_app_id = r_app_id parent, r_echo_id = r_echo_id parent,
      r_parent_id = r_id parent, r_origin_call_id = call_id, r_session_id = r_session_id parent,
      r_user_id = r_user_id parent, r_message_id = r_message_id parent, r_channel = r_channel parent,
      r_attempt = 1, r_status = Run_Queued, r_executor_id = r_executor_id parent,
      r_config_revision = r_config_revision parent, r_protocol_version = r_protocol_version parent,
      r_executor_config = r_executor_config parent, r_input_payload = ch_task i,
      r_input_content_type = ''text/plain; charset=utf-8'', r_context_digest = [], r_context_sources = [],
      r_max_steps = ch_max_steps i, r_max_capability_calls = ch_max_capability_calls i,
      r_max_execution_units = ch_max_execution_units i, r_max_output_bytes = ch_max_output_bytes i,
      r_max_cost = ch_max_cost i, r_execution_timeout_ms = ch_timeout_ms i,
      r_used_execution_units = 0, r_used_cost = 0, r_used_retries = 0, r_deadline = deadline,
      r_available_at = now, r_lease_token = [], r_lease_expires = None, r_last_sequence = 0,
      r_grants = grants, r_recoverable_state = ''{}'', r_result = no_output, r_error_code = [],
      r_error_message = No_Message, r_created_at = now, r_started_at = None, r_completed_at = None\<rparr>"

definition CreateChild ::
  "child_lib \<Rightarrow> 's child_service \<Rightarrow> instant \<Rightarrow> string \<Rightarrow> string \<Rightarrow> request_context \<Rightarrow> string \<Rightarrow> 's
     \<Rightarrow> 's \<times> string go_result" where
  "CreateChild lib sv now child_uuid group_uuid rq payload s =
     (case cl_request lib payload of
        None \<Rightarrow> (s, child_fail Child_InvalidRequest)
      | Some i \<Rightarrow>
        if \<not> request_complete i then (s, child_fail Child_InvalidRequest)
        else if rc_run_id rq = [] \<or> rc_lease_token rq = [] \<or> rc_call_id rq = []
          then (s, child_fail Child_InvalidRequest)
        else case cp_get (sv_store sv) (rc_app_id rq) (rc_run_id rq) s of
          Inl e \<Rightarrow> (s, Inl e)
        | Inr parent \<Rightarrow>
          if r_parent_id parent \<noteq> [] \<or> r_echo_id parent \<noteq> rc_echo_id rq \<or> r_status parent \<noteq> Run_Running \<or>
             r_lease_token parent \<noteq> rc_lease_token rq then (s, child_fail Child_NotRoot)
          else if \<not> after (r_deadline parent) now then (s, Inl (Sentinel (Context_E Ctx_DeadlineExceeded)))
          else let child_id = ''run-'' @ child_uuid in
          (case attenuateGrants lib sv (rc_app_id rq) parent (ch_grants i) child_id of
             Inl e \<Rightarrow> (s, Inl e)
           | Inr grants \<Rightarrow>
             if \<not> budgets_fit parent i then (s, child_fail Child_InvalidRequest)
             else let deadline = now + uint (ch_timeout_ms i) * millisecond in
             if after deadline (r_deadline parent) then (s, child_fail Child_InvalidRequest)
             else if \<not> after deadline now then (s, Inl (Sentinel (Context_E Ctx_DeadlineExceeded)))
             else let child = child_record parent i child_id (''run-'' @ group_uuid) (rc_call_id rq) grants
                                deadline now in
             (case cp_create (sv_store sv) parent child MaxChildren s of
                (s', Inl e) \<Rightarrow> (s', Inl e)
              | (s', Inr _) \<Rightarrow> (s', cl_created lib (r_id child) (r_status child)))))"

definition statusHandler ::
  "child_lib \<Rightarrow> 's child_service \<Rightarrow> request_context \<Rightarrow> string \<Rightarrow> 's \<Rightarrow> string go_result" where
  "statusHandler lib sv rq payload s =
     (case cl_child_id lib payload of
        None \<Rightarrow> child_fail Child_InvalidRequest
      | Some child_id \<Rightarrow>
        if child_id = [] \<or> rc_run_id rq = [] then child_fail Child_InvalidRequest
        else case cp_get (sv_store sv) (rc_app_id rq) child_id s of
          Inl e \<Rightarrow> Inl e
        | Inr child \<Rightarrow>
          if r_parent_id child \<noteq> rc_run_id rq \<or> r_app_id child \<noteq> rc_app_id rq
            then child_fail Child_GrantDenied
          else cl_status lib
            \<lparr>st_run_id = r_id child, st_status = r_status child,
             st_error = (if r_error_code child \<noteq> [] then Some (r_error_code child, r_error_message child) else None),
             st_result = (if r_status child = Run_Succeeded then Some (r_result child) else None)\<rparr>)"

section \<open>Registration\<close>

definition as_handler :: "(request_context \<Rightarrow> string \<Rightarrow> 'w \<Rightarrow> 'w \<times> string go_result) \<Rightarrow> 'w handler" where
  "as_handler f rq payload w =
     (case f rq payload w of (w', Inl e) \<Rightarrow> (w', [], Some e) | (w', Inr reply) \<Rightarrow> (w', reply, None))"

definition RegisterChildRuns ::
  "(string \<Rightarrow> bool) \<Rightarrow> (string \<Rightarrow> string \<Rightarrow> 'c go_result) \<Rightarrow> child_lib \<Rightarrow> 's child_service \<Rightarrow>
     (request_context \<Rightarrow> instant \<times> string \<times> string) \<Rightarrow> ('s handler, 'c) registry
     \<Rightarrow> ('s handler, 'c) registry \<times> unit go_result" where
  "RegisterChildRuns valid_version compile lib sv draws reg =
     RegisterBatch valid_version compile
       [\<lparr>rg_spec = createSpec, rg_handler = Some (as_handler (\<lambda>rq payload s.
            case draws rq of (now, child_uuid, group_uuid) \<Rightarrow> CreateChild lib sv now child_uuid group_uuid rq payload s))\<rparr>,
        \<lparr>rg_spec = statusSpec, rg_handler = Some (as_handler (\<lambda>rq payload s. (s, statusHandler lib sv rq payload s)))\<rparr>]
       reg"

end
