(* ===== verification/Child_Guarantees.thy ===== *)
theory Child_Guarantees
  imports Child_Run
begin

text \<open>
  What the child Run capabilities guarantee: a child Run's grants cover only what a grant of its parent
  and a grant of the current policy cover, its budgets and deadline lie within what its parent has left,
  children have no children, a parent has at most \<open>MaxChildren\<close> active ones, and the status capability
  shows a child to its own parent only.
\<close>

section \<open>Attenuation\<close>

definition child_grant_ok :: "string \<Rightarrow> grant list \<Rightarrow> grant list \<Rightarrow> grant \<Rightarrow> bool" where
  "child_grant_ok audience parent policy g \<longleftrightarrow>
     g_audience g = audience \<and> g_capability_id g \<noteq> ''run.create_child'' \<and>
     (\<exists>p \<in> set parent. \<exists>c. NarrowGrant p c = Inr g) \<and> (\<exists>q \<in> set policy. NarrowGrant q g = Inr g)"

lemma narrowed_fields:
  "NarrowGrant p c = Inr g \<Longrightarrow>
     canonical_grant g \<and> g_audience g = g_audience c \<and> g_capability_id g = g_capability_id c"
  by (auto simp: NarrowGrant_Inr NormalizeGrant_Inr)

lemma narrow_canonical: "canonical_grant g \<Longrightarrow> NarrowGrant q g = Inr h \<Longrightarrow> h = g"
  by (auto simp: NarrowGrant_Inr NormalizeGrant_canonical)

lemma match_parent_Some:
  "match_parent ps c policy = Some g \<Longrightarrow>
     (\<exists>p \<in> set ps. NarrowGrant p c = Inr g) \<and> (\<exists>q \<in> set policy. NarrowGrant q g = Inr g)"
proof (induction ps)
  case (Cons p ps)
  show ?case
  proof (cases "match_parent ps c policy = Some g")
    case False
    then have n: "NarrowGrant p c = Inr g" and "policy_allows policy (g_capability_id c) g"
      using Cons.prems by (auto split: if_splits sum.splits)
    then obtain q where "q \<in> set policy" "is_ok (NarrowGrant q g)"
      by (auto simp: policy_allows_def list_ex_iff)
    then show ?thesis
      using n narrow_canonical narrowed_fields[OF n] by (cases "NarrowGrant q g") auto
  qed (use Cons.IH in auto)
qed simp

lemma attenuate_each_Inr:
  "attenuate_each audience i parent policy gs = Inr ns \<Longrightarrow> \<forall>g \<in> set ns. child_grant_ok audience parent policy g"
proof (induction gs arbitrary: i ns)
  case (Cons g gs)
  let ?c = "named_candidate audience i g"
  obtain n rest where n: "match_parent parent ?c policy = Some n"
    and "g_capability_id ?c \<noteq> ''run.create_child''"
    and rest: "attenuate_each audience (i + 1) parent policy gs = Inr rest" and ns: "ns = n # rest"
    using Cons.prems by (auto simp: and_then_Inr Let_def split: option.splits if_splits)
  moreover have "g_audience ?c = audience" by (simp add: named_candidate_def Let_def)
  moreover obtain p where "p \<in> set parent" "NarrowGrant p ?c = Inr n"
    using match_parent_Some[OF n] by auto
  ultimately have "child_grant_ok audience parent policy n"
    using match_parent_Some[OF n] narrowed_fields[of p ?c n] by (auto simp: child_grant_ok_def)
  then show ?case using Cons.IH[OF rest] ns by simp
qed simp

lemma no_equal_neighbours:
  "sorted (map g_id gs) \<Longrightarrow> \<not> equal_neighbours gs \<Longrightarrow> strictly_increasing g_id gs"
  by (induction gs rule: equal_neighbours.induct) auto

lemma attenuateGrants_Inr:
  assumes "attenuateGrants lib sv app parent requested audience = Inr grants"
  obtains config where "sv_policy sv app = Inr config" and "ac_enabled config"
    and "VerifyCurrent (cl_revision lib) (cl_sha256 lib) config app = Inr ()"
    and "\<forall>g \<in> set grants. child_grant_ok audience (r_grants parent) (ac_grants config) g"
    and "strictly_increasing g_id grants"
proof -
  obtain config ns where c: "sv_policy sv app = Inr config" "ac_enabled config"
      "VerifyCurrent (cl_revision lib) (cl_sha256 lib) config app = Inr ()"
    and ns: "attenuate_each audience 0 (r_grants parent) (ac_grants config) requested = Inr ns"
    and g: "grants = sort_key g_id ns" "\<not> equal_neighbours grants"
    using assms by (auto simp: attenuateGrants_def Let_def split: sum.splits if_splits)
  have "sorted (map g_id grants)" by (simp add: g)
  then show thesis
    using that[OF c] attenuate_each_Inr[OF ns] no_equal_neighbours g by simp
qed

text \<open>Whatever call the grant \<open>g\<close> covers is covered by the grant \<open>p\<close>; the zero time as the start of \<open>p\<close> means
  that it has none, and no grant starts before it.\<close>

definition grant_within :: "grant \<Rightarrow> grant \<Rightarrow> bool" where
  "grant_within p g \<longleftrightarrow>
     (0 \<le> g_not_before p \<longrightarrow> (\<forall>a. grant_covers g a \<longrightarrow> (\<exists>n. NormalizeGrant p = Inr n \<and> grant_covers n a)))"

lemma narrowed_within: "NarrowGrant p c = Inr g \<Longrightarrow> grant_within p g"
  unfolding grant_within_def using grant_attenuation.narrowed_covers by fastforce

lemma child_grant_within:
  "child_grant_ok audience parent policy g \<Longrightarrow>
     g_audience g = audience \<and> g_capability_id g \<noteq> ''run.create_child'' \<and>
     (\<exists>p \<in> set parent. grant_within p g) \<and> (\<exists>q \<in> set policy. grant_within q g)"
  unfolding child_grant_ok_def using narrowed_within by blast

lemma child_audience_ids: "is_stable_id ''run-2''"
  by code_simp

definition grant_config :: app_config where
  "grant_config =
     sample_config\<lparr>ac_grants := [sample_grant 5], ac_executor_config := ''{}'',
       ac_revision := hex_bytes (replicate 32 CHR 0x00)\<rparr>"

definition grant_lib :: child_lib where
  "grant_lib =
     \<lparr>cl_request = (\<lambda>_. None), cl_child_id = Some, cl_created = (\<lambda>i st. Inr i), cl_status = (\<lambda>st. Inr (st_run_id st)),
      cl_revision = (\<lambda>_. Inr []), cl_sha256 = (\<lambda>_. replicate 32 CHR 0x00)\<rparr>"

lemma grant_config_verified: "VerifyCurrent (cl_revision grant_lib) (cl_sha256 grant_lib) grant_config ''app'' = Inr ()"
proof -
  have a: "app_id_pattern ''app''" "app_id_pattern ''exec''"
    by (simp_all add: app_id_tail_def char_class_defs)
  have t: "100 * millisecond \<le> minute" "minute \<le> 5 * minute" "TrimSpace ''app'' = ''app''" "TrimSpace ''exec'' = ''exec''"
    using app_id_trimmed a by (simp_all add: duration_defs)
  have n: "NormalizeGrant (sample_grant 5) = Inr (sample_grant 5)"
    by (simp add: NormalizeGrant_canonical sample_canonical)
  have g: "validGrants ''app'' [sample_grant 5]" "normalizeGrants ''app'' [sample_grant 5] = Inr [sample_grant 5]"
    using n by (simp_all add: validGrants_def normalizeGrants_def) (simp_all add: sample_grant_def)
  have v: "ValidateConfig grant_config = Inr ()"
    unfolding ValidateConfig_ok using g(1)
    by (simp add: grant_config_def sample_config_def a t json_valid_object word_le_nat_alt del: app_id_pattern.simps)
  have "NormalizeConfig (cl_revision grant_lib) (cl_sha256 grant_lib) grant_config = Inr grant_config"
    using g(2) v t by (simp add: NormalizeConfig_def grant_config_def sample_config_def grant_lib_def Let_def)
  then show ?thesis
    by (simp add: VerifyCurrent_def VerifyConfig_def) (simp add: grant_config_def sample_config_def)
qed

definition child_grant :: grant where
  "child_grant = (sample_grant 2)\<lparr>g_audience := ''run-2''\<rparr>"

definition grant_service :: "'s child_port \<Rightarrow> 's child_service" where
  "grant_service port = \<lparr>sv_store = port, sv_policy = (\<lambda>_. Inr grant_config)\<rparr>"

lemma child_grant_narrowed: "NarrowGrant (sample_grant 5) child_grant = Inr child_grant"
  "NarrowGrant (sample_grant 5) ((sample_grant 2)\<lparr>g_audience := ''run-2''\<rparr>) = Inr child_grant"
proof -
  have "canonical_grant child_grant"
    by (simp add: canonical_grant_def child_grant_def sample_grant_def Authorization.sample_ids child_audience_ids)
  moreover have "GrantSubset child_grant (sample_grant 5)"
    by (simp add: GrantSubset_iff child_grant_def sample_grant_def word_le_nat_alt)
  ultimately show "NarrowGrant (sample_grant 5) child_grant = Inr child_grant"
    by (simp add: NarrowGrant_Inr NormalizeGrant_canonical sample_canonical)
  then show "NarrowGrant (sample_grant 5) ((sample_grant 2)\<lparr>g_audience := ''run-2''\<rparr>) = Inr child_grant"
    by (simp add: child_grant_def)
qed

lemma sample_attenuation:
  "attenuateGrants grant_lib (grant_service port) ''app'' (claimed_run\<lparr>r_grants := [sample_grant 5]\<rparr>)
     [sample_grant 2] ''run-2'' = Inr [child_grant]"
proof -
  have c: "named_candidate ''run-2'' 0 (sample_grant 2) = child_grant"
    by (simp add: named_candidate_def child_grant_def sample_grant_def)
  have cap: "g_capability_id child_grant = ''doc.read''" "g_capability_id (sample_grant 5) = ''doc.read''"
    by (simp_all add: child_grant_def sample_grant_def)
  have "ac_grants grant_config = [sample_grant 5]" "ac_enabled grant_config"
    by (simp_all add: grant_config_def sample_config_def)
  then show ?thesis
    using child_grant_narrowed(1) c cap grant_config_verified
    by (simp add: attenuateGrants_def grant_service_def policy_allows_def)
qed

section \<open>The interface of the store\<close>

text \<open>
  What the handlers rely on: a Run is found under its own key, a created child reads back, and a refused
  creation leaves the store as it was. \<open>faithful\<close> says which children survive the encoding of their
  grants.
\<close>

locale child_store =
  fixes get :: "string \<Rightarrow> string \<Rightarrow> 's \<Rightarrow> run_record go_result"
    and create :: "run_record \<Rightarrow> run_record \<Rightarrow> int \<Rightarrow> 's \<Rightarrow> 's \<times> unit go_result"
    and faithful :: "run_record \<Rightarrow> bool"
  assumes get_key: "get app run s = Inr r \<Longrightarrow> r_app_id r = app \<and> r_id r = run"
    and created_reads: "faithful c \<Longrightarrow> create p c n s = (s', Inr ()) \<Longrightarrow>
      get (r_app_id c) (r_id c) s' = Inr (stored_sources c)"
    and refused_keeps: "create p c n s = (s', Inl e) \<Longrightarrow> s' = s"
begin

definition port :: "'s child_port" where
  "port = \<lparr>cp_get = get, cp_create = create\<rparr>"

lemma CreateChild_Inr:
  assumes "CreateChild lib \<lparr>sv_store = port, sv_policy = policy\<rparr> now child_uuid group_uuid rq payload s = (s', Inr reply)"
  obtains i parent grants where "cl_request lib payload = Some i" and "request_complete i"
    and "get (rc_app_id rq) (rc_run_id rq) s = Inr parent" and "rc_run_id rq \<noteq> []"
    and "r_parent_id parent = []" and "r_echo_id parent = rc_echo_id rq" and "r_status parent = Run_Running"
    and "r_lease_token parent = rc_lease_token rq" and "now < r_deadline parent"
    and "attenuateGrants lib \<lparr>sv_store = port, sv_policy = policy\<rparr> (rc_app_id rq) parent (ch_grants i)
           (''run-'' @ child_uuid) = Inr grants"
    and "budgets_fit parent i" and "now + uint (ch_timeout_ms i) * millisecond \<le> r_deadline parent"
    and "create parent (child_record parent i (''run-'' @ child_uuid) (''run-'' @ group_uuid) (rc_call_id rq) grants
           (now + uint (ch_timeout_ms i) * millisecond) now) MaxChildren s = (s', Inr ())"
  using assms that unfolding CreateChild_def
  by (auto simp: port_def Let_def split: option.splits if_splits sum.splits prod.splits)

lemma CreateChild_Inl:
  assumes "CreateChild lib \<lparr>sv_store = port, sv_policy = policy\<rparr> now child_uuid group_uuid rq payload s = (s', Inl e)"
    and "\<And>i st e. cl_created lib i st \<noteq> Inl e"
  shows "s' = s"
  using assms refused_keeps unfolding CreateChild_def
  by (auto simp: port_def Let_def split: option.splits if_splits sum.splits prod.splits)

lemma child_status:
  assumes "CreateChild lib \<lparr>sv_store = port, sv_policy = policy\<rparr> now child_uuid group_uuid rq payload s = (s', Inr reply)"
    and "\<And>parent i grants c. get (rc_app_id rq) (rc_run_id rq) s = Inr parent \<Longrightarrow> cl_request lib payload = Some i \<Longrightarrow>
      attenuateGrants lib \<lparr>sv_store = port, sv_policy = policy\<rparr> (rc_app_id rq) parent (ch_grants i)
        (''run-'' @ child_uuid) = Inr grants \<Longrightarrow> r_grants c = grants \<Longrightarrow> faithful c"
    and "cl_child_id lib question = Some (''run-'' @ child_uuid)"
    and "rc_app_id asking = rc_app_id rq" and "rc_run_id asking \<noteq> []"
  shows "statusHandler lib \<lparr>sv_store = port, sv_policy = policy\<rparr> asking question s' =
    (if rc_run_id asking = rc_run_id rq
     then cl_status lib \<lparr>st_run_id = ''run-'' @ child_uuid, st_status = Run_Queued, st_error = None, st_result = None\<rparr>
     else child_fail Child_GrantDenied)"
proof (rule CreateChild_Inr[OF assms(1)])
  fix i parent grants
  let ?c = "child_record parent i (''run-'' @ child_uuid) (''run-'' @ group_uuid) (rc_call_id rq) grants
      (now + uint (ch_timeout_ms i) * millisecond) now"
  assume g: "get (rc_app_id rq) (rc_run_id rq) s = Inr parent" and i: "cl_request lib payload = Some i"
    and a: "attenuateGrants lib \<lparr>sv_store = port, sv_policy = policy\<rparr> (rc_app_id rq) parent (ch_grants i)
        (''run-'' @ child_uuid) = Inr grants"
    and c: "create parent ?c MaxChildren s = (s', Inr ())"
  have "faithful ?c" using assms(2)[OF g i a] by (simp add: child_record_def)
  then have "get (rc_app_id rq) (''run-'' @ child_uuid) s' = Inr (stored_sources ?c)"
    using created_reads[OF _ c] get_key[OF g] by (simp add: child_record_def)
  then show ?thesis
    using assms(3-5) get_key[OF g]
    by (simp add: statusHandler_def port_def stored_sources_def child_record_def)
qed

end

section \<open>The SQLite store\<close>

definition sqlite_child_port :: "run_lib \<Rightarrow> instant \<Rightarrow> echo_db child_port" where
  "sqlite_child_port lib now = \<lparr>cp_get = GetRun lib, cp_create = (\<lambda>p c n db. CreateChildRun lib now p c n db)\<rparr>"

definition grants_survive :: "run_lib \<Rightarrow> run_record \<Rightarrow> bool" where
  "grants_survive lib r \<longleftrightarrow>
     (\<forall>g. rl_marshal lib (r_grants r) = Inr g \<longrightarrow> rl_unmarshal lib g = Some (r_grants r) \<and> length g \<le> 65536)"

lemma CreateChildRun_Inr:
  assumes "CreateChildRun lib now p c n db = (db', Inr ())"
  obtains e m where "validateNewRun e c = Inr ()" and "rl_marshal lib (r_grants c) = Inr m"
    and "db' = db\<lparr>db_runs := db_runs db @ [run_row_of c m]\<rparr>"
    and "run_key (run_row_of c m) \<notin> set (map run_key (db_runs db))"
    and "int (count_runs (child_where (r_app_id p) (r_id p)) db) < n"
    and "\<exists>row \<in> set (db_runs db). parent_holds lib now p row"
    and "r_parent_id c = r_id p" and "r_app_id c = r_app_id p"
  using assms that unfolding CreateChildRun_def insertChildRunGuarded_def insert_run_row_def
  by (auto simp: find_run_None list_ex_iff not_le split: if_splits sum.splits option.splits)

lemma GetRun_key: "GetRun lib app run db = Inr r \<Longrightarrow> r_app_id r = app \<and> r_id r = run"
  by (auto simp: GetRun_def find_run_def run_key_def queryRun_def dest!: select_keyD
      split: if_splits option.splits sum.splits)

lemma child_reads_back:
  assumes "grants_survive lib c" and "CreateChildRun lib now p c n db = (db', Inr ())"
  shows "GetRun lib (r_app_id c) (r_id c) db' = Inr (stored_sources c)"
proof (rule CreateChildRun_Inr[OF assms(2)])
  fix e m
  assume v: "validateNewRun e c = Inr ()" and m: "rl_marshal lib (r_grants c) = Inr m"
    and fresh: "run_key (run_row_of c m) \<notin> set (map run_key (db_runs db))"
    and db': "db' = db\<lparr>db_runs := db_runs db @ [run_row_of c m]\<rparr>"
  have "find_run (run_key (run_row_of c m)) db' = Some (run_row_of c m)"
    using select_key_append_new[OF fresh] by (simp add: find_run_def db')
  moreover have "queryRun lib (run_row_of c m) = Inr (stored_sources c)"
    using assms(1) m by (intro queryRun_row_of[OF v]) (auto simp: grants_survive_def)
  moreover have "r_app_id c \<noteq> []" "r_id c \<noteq> []"
    using v by (auto simp: validateNewRun_Inr stable_mixed_def)
  ultimately show ?thesis by (simp add: GetRun_def run_key_def run_row_of_def)
qed

interpretation sqlite_children: child_store "GetRun lib" "\<lambda>p c n db. CreateChildRun lib now p c n db" "grants_survive lib"
  for lib now
proof
  show "GetRun lib app run s = Inr r \<Longrightarrow> r_app_id r = app \<and> r_id r = run" for app run s r
    by (rule GetRun_key)
  show "grants_survive lib c \<Longrightarrow> CreateChildRun lib now p c n s = (s', Inr ()) \<Longrightarrow>
      GetRun lib (r_app_id c) (r_id c) s' = Inr (stored_sources c)" for p c n s s'
    by (rule child_reads_back)
  show "CreateChildRun lib now p c n s = (s', Inl e) \<Longrightarrow> s' = s" for p c n s s' e
    unfolding CreateChildRun_def by (auto split: if_splits sum.splits option.splits)
qed

lemma sqlite_children_port: "sqlite_children.port lib now = sqlite_child_port lib now"
  by (simp add: sqlite_children.port_def sqlite_child_port_def)

section \<open>The grants of a stored child\<close>

text \<open>C26: a child Run never gains authority: every grant in the Run that \<open>CreateChild\<close> stores is for that Run
  alone, does not allow it to create children itself, and covers only calls that a grant of its parent
  covers and that a grant of the App's verified and enabled current policy covers, whatever grants were
  asked for. A start before the zero time, which no grant has, is left out.\<close>

theorem child_grants_attenuated:
  assumes "CreateChild lib \<lparr>sv_store = sqlite_child_port rlib clock, sv_policy = policy\<rparr> now child_uuid group_uuid
      rq payload db = (db', Inr reply)"
  shows "\<exists>parent config c m. GetRun rlib (rc_app_id rq) (rc_run_id rq) db = Inr parent \<and>
    policy (rc_app_id rq) = Inr config \<and> ac_enabled config \<and>
    VerifyCurrent (cl_revision lib) (cl_sha256 lib) config (rc_app_id rq) = Inr () \<and>
    db' = db\<lparr>db_runs := db_runs db @ [run_row_of c m]\<rparr> \<and> rl_marshal rlib (r_grants c) = Inr m \<and>
    r_id c = ''run-'' @ child_uuid \<and> r_parent_id c = r_id parent \<and>
    (\<forall>g \<in> set (r_grants c). g_audience g = r_id c \<and> g_capability_id g \<noteq> ''run.create_child'' \<and>
       (\<exists>p \<in> set (r_grants parent). grant_within p g) \<and> (\<exists>q \<in> set (ac_grants config). grant_within q g))"
proof (rule sqlite_children.CreateChild_Inr[of lib rlib clock policy, unfolded sqlite_children_port, OF assms(1)])
  fix i parent grants
  let ?c = "child_record parent i (''run-'' @ child_uuid) (''run-'' @ group_uuid) (rc_call_id rq) grants
      (now + uint (ch_timeout_ms i) * millisecond) now"
  assume p: "GetRun rlib (rc_app_id rq) (rc_run_id rq) db = Inr parent"
    and a: "attenuateGrants lib \<lparr>sv_store = sqlite_child_port rlib clock, sv_policy = policy\<rparr> (rc_app_id rq) parent
      (ch_grants i) (''run-'' @ child_uuid) = Inr grants"
    and created: "CreateChildRun rlib clock parent ?c MaxChildren db = (db', Inr ())"
  obtain m where m: "db' = db\<lparr>db_runs := db_runs db @ [run_row_of ?c m]\<rparr>" "rl_marshal rlib (r_grants ?c) = Inr m"
      "r_parent_id ?c = r_id parent"
    by (rule CreateChildRun_Inr[OF created]) auto
  have c: "r_grants ?c = grants" "r_id ?c = ''run-'' @ child_uuid" by (simp_all add: child_record_def)
  obtain config where config: "policy (rc_app_id rq) = Inr config" "ac_enabled config"
      "VerifyCurrent (cl_revision lib) (cl_sha256 lib) config (rc_app_id rq) = Inr ()"
    and g: "\<forall>g \<in> set grants. child_grant_ok (''run-'' @ child_uuid) (r_grants parent) (ac_grants config) g"
    by (rule attenuateGrants_Inr[OF a]) simp
  show ?thesis
    by (rule exI[of _ parent], rule exI[of _ config], rule exI[of _ ?c], rule exI[of _ m])
      (use p config m c g child_grant_within in \<open>simp, blast?\<close>)
qed

section \<open>Containment\<close>

lemma word_diff_le: "(b :: 'a::len word) \<le> a \<Longrightarrow> x \<le> a - b \<longleftrightarrow> unat x + unat b \<le> unat a"
  by (simp add: word_le_nat_alt unat_sub) (simp add: le_diff_conv2 word_le_nat_alt)

definition within_parent :: "run_record \<Rightarrow> run_record \<Rightarrow> bool" where
  "within_parent parent c \<longleftrightarrow>
     r_max_steps c \<le> r_max_steps parent \<and> r_max_capability_calls c \<le> r_max_capability_calls parent \<and>
     unat (r_max_execution_units c) + unat (r_used_execution_units parent) \<le> unat (r_max_execution_units parent) \<and>
     r_max_output_bytes c \<le> r_max_output_bytes parent \<and>
     r_execution_timeout_ms c \<le> r_execution_timeout_ms parent \<and>
     (if r_max_cost parent = 0 then r_max_cost c = 0
      else r_max_cost c \<noteq> 0 \<and> unat (r_max_cost c) + unat (r_used_cost parent) \<le> unat (r_max_cost parent)) \<and>
     r_deadline c \<le> r_deadline parent"

lemma child_contained:
  assumes "budgets_fit parent i" and "deadline \<le> r_deadline parent"
  shows "within_parent parent (child_record parent i child_id group_id call_id grants deadline now)"
  using assms unfolding budgets_fit_def within_parent_def child_record_def Let_def
  by (auto simp: not_less word_diff_le)

text \<open>C27: a child Run stays within its parent: it is created only for a root Run that is running under the
  caller's lease; its step, call, output and time limits are at most the parent's, its execution units
  and cost are at most what the parent has not used yet, its deadline is not later, and the parent then
  has at most \<open>MaxChildren\<close> queued or running children.\<close>

theorem child_run_contained:
  assumes "CreateChild lib \<lparr>sv_store = sqlite_child_port rlib clock, sv_policy = policy\<rparr> now child_uuid group_uuid
      rq payload db = (db', Inr reply)"
  shows "\<exists>parent c m. GetRun rlib (rc_app_id rq) (rc_run_id rq) db = Inr parent \<and> r_parent_id parent = [] \<and>
    r_status parent = Run_Running \<and> r_lease_token parent = rc_lease_token rq \<and> r_parent_id c = r_id parent \<and>
    db' = db\<lparr>db_runs := db_runs db @ [run_row_of c m]\<rparr> \<and> within_parent parent c \<and>
    int (count_runs (child_where (r_app_id parent) (r_id parent)) db') \<le> MaxChildren"
proof (rule sqlite_children.CreateChild_Inr[of lib rlib clock policy, unfolded sqlite_children_port, OF assms(1)])
  fix i parent grants
  let ?c = "child_record parent i (''run-'' @ child_uuid) (''run-'' @ group_uuid) (rc_call_id rq) grants
      (now + uint (ch_timeout_ms i) * millisecond) now"
  assume a: "GetRun rlib (rc_app_id rq) (rc_run_id rq) db = Inr parent" "r_parent_id parent = []"
      "r_status parent = Run_Running" "r_lease_token parent = rc_lease_token rq"
    and fit: "budgets_fit parent i" "now + uint (ch_timeout_ms i) * millisecond \<le> r_deadline parent"
    and created: "CreateChildRun rlib clock parent ?c MaxChildren db = (db', Inr ())"
  obtain m where m: "db' = db\<lparr>db_runs := db_runs db @ [run_row_of ?c m]\<rparr>" "r_parent_id ?c = r_id parent"
    and n: "int (count_runs (child_where (r_app_id parent) (r_id parent)) db) < MaxChildren"
    by (rule CreateChildRun_Inr[OF created]) auto
  have "int (count_runs (child_where (r_app_id parent) (r_id parent)) db') \<le> MaxChildren"
    using n by (simp add: m(1) count_runs_def affected_def)
  then show ?thesis
    using a m child_contained[OF fit] by blast
qed

text \<open>The parent of a child reads its status right after the creation: queued, without an error or a
  result. To every other Run of the App the capability refuses it.\<close>

theorem child_status_readable:
  assumes "CreateChild lib \<lparr>sv_store = sqlite_child_port rlib clock, sv_policy = policy\<rparr> now child_uuid group_uuid
      rq payload db = (db', Inr reply)"
    and "\<And>parent i grants c. GetRun rlib (rc_app_id rq) (rc_run_id rq) db = Inr parent \<Longrightarrow> cl_request lib payload = Some i \<Longrightarrow>
      attenuateGrants lib \<lparr>sv_store = sqlite_child_port rlib clock, sv_policy = policy\<rparr> (rc_app_id rq) parent
        (ch_grants i) (''run-'' @ child_uuid) = Inr grants \<Longrightarrow> r_grants c = grants \<Longrightarrow> grants_survive rlib c"
    and "cl_child_id lib question = Some (''run-'' @ child_uuid)"
    and "rc_app_id asking = rc_app_id rq" and "rc_run_id asking \<noteq> []"
  shows "statusHandler lib \<lparr>sv_store = sqlite_child_port rlib clock, sv_policy = policy\<rparr> asking question db' =
    (if rc_run_id asking = rc_run_id rq
     then cl_status lib \<lparr>st_run_id = ''run-'' @ child_uuid, st_status = Run_Queued, st_error = None, st_result = None\<rparr>
     else child_fail Child_GrantDenied)"
  using assms by (rule sqlite_children.child_status[of lib rlib clock policy, unfolded sqlite_children_port])

section \<open>A concrete child\<close>

definition child_input :: child_request where
  "child_input =
     \<lparr>ch_task = ''look'', ch_grants = [], ch_max_steps = 2, ch_max_capability_calls = 1,
      ch_max_execution_units = 50, ch_max_output_bytes = 500, ch_max_cost = 0, ch_timeout_ms = 1000\<rparr>"

definition child_call :: request_context where
  "child_call =
     \<lparr>rc_app_id = ''app'', rc_echo_id = ''echo-1'', rc_request_id = ''rq-1'', rc_trace_id = [], rc_user_id = [],
      rc_session_id = [], rc_run_id = ''run-1'', rc_parent_run_id = [], rc_call_id = ''call-1'', rc_call_depth = 1,
      rc_deadline = 0, rc_idempotency_key = ''call-1'', rc_confirmation_id = [], rc_protocol_version = Version,
      rc_capability_id = ''run.create_child'', rc_call_chain = [], rc_calls_used = 0, rc_cost_used = 0,
      rc_lease_token = ''token-a'', rc_run_grants = []\<rparr>"

definition child_samples :: child_lib where
  "child_samples = grant_lib\<lparr>cl_request := (\<lambda>_. Some child_input)\<rparr>"

definition new_child :: run_record where
  "new_child = child_record claimed_run child_input ''run-2'' ''run-9'' ''call-1'' [] (4 * second) (3 * second)"

definition db_child_created :: echo_db where
  "db_child_created = db_claimed\<lparr>db_runs := [claimed_row, run_row_of new_child ''[]'']\<rparr>"

lemma parent_read: "GetRun sample_run_lib ''app'' ''run-1'' db_claimed = Inr claimed_run"
proof -
  have "queryRun sample_run_lib claimed_row = Inr claimed_run"
    by (simp add: queryRun_def claimed_row_def run_row_of_def sample_run_def sample_run_lib_def text_of_def
        message_of_def stored_sources_def no_output_def validCanonicalGrants_def claimed_run_def)
  moreover have "run_key claimed_row = (''app'', ''run-1'')"
    by (simp add: run_key_def claimed_row_def run_row_of_def sample_run_def)
  ultimately show ?thesis
    by (simp add: GetRun_def find_run_def select_key_def db_claimed_def)
qed

lemma new_child_sel:
  "r_app_id new_child = ''app''" "r_echo_id new_child = ''echo-1''" "r_parent_id new_child = ''run-1''"
  "r_origin_call_id new_child = ''call-1''" "r_grants new_child = []" "r_id new_child = ''run-2''"
  "r_status new_child = Run_Queued"
  by (simp_all add: new_child_def child_record_def claimed_run_sel)

lemma new_child_valid: "e_app_id e = ''app'' \<Longrightarrow> e_id e = ''echo-1'' \<Longrightarrow> validateNewRun e new_child = Inr ()"
proof -
  have "ValidContentType ''text/plain; charset=utf-8''" "stable_mixed ''run-9''"
    by code_simp+
  moreover have "stable_mixed ''call-1''" by code_simp
  moreover assume "e_app_id e = ''app''" "e_id e = ''echo-1''"
  ultimately show ?thesis
    using run_sample_ids json_valid_samples
    by (simp add: validateNewRun_Inr new_run_bounds_def new_run_fresh_def new_run_inputs_def new_child_def
        child_record_def child_input_def claimed_run_def stored_sources_def
        validCanonicalGrants_def no_output_def sample_run_def duration_defs Version_def word_le_nat_alt)
qed

lemma new_child_created:
  "CreateChildRun sample_run_lib (3 * second) claimed_run new_child MaxChildren db_claimed = (db_child_created, Inr ())"
proof -
  let ?row = "run_row_of new_child ''[]''"
  have echo: "find_echo (''app'', ''echo-1'') db_claimed = Some (echo_row_of (sample_echo ''echo-1''))"
    "e_status (echo_row_of (sample_echo ''echo-1'')) = Echo_Running"
    by (simp_all add: find_echo_def select_key_def db_claimed_def db_created_def sample_keys)
      (simp add: echo_row_of_def sample_echo_def)
  have parent: "parent_holds sample_run_lib (3 * second) claimed_run claimed_row"
    by (simp add: parent_holds_def claimed_run_sel)
      (simp add: claimed_row_def run_row_of_def sample_run_def sample_run_lib_def millisecond_driver_def duration_defs)
  have keys: "run_key claimed_row = (''app'', ''run-1'')" "run_key ?row = (''app'', ''run-2'')"
    "group_key ?row \<noteq> group_key claimed_row" "origin_key claimed_row = None" "r_parent_id claimed_row = None"
    "r_app_id ?row = ''app''" "r_echo_id ?row = ''echo-1''" "r_parent_id ?row = Some ''run-1''"
    by (simp_all add: run_key_def group_key_def origin_key_def claimed_row_def new_child_def run_row_of_def
        child_record_def sample_run_def claimed_run_sel)
  have check: "run_row_check sample_run_lib ?row \<and> run_budget_ok ?row"
    by (simp add: new_child_def run_row_check_def run_budget_ok_def run_row_of_def child_record_def child_input_def
        claimed_run_def stored_sources_def sample_run_def sample_run_lib_def millisecond_driver_def no_output_def code_def)
  have "insert_run_row sample_run_lib ?row db_claimed = Some db_child_created"
    using check keys echo
    by (simp add: insert_run_row_def find_run_def select_key_def db_claimed_def db_child_created_def origin_key_def)
  then show ?thesis
    using new_child_valid new_child_sel echo parent keys
    by (simp add: CreateChildRun_def claimed_run_sel insertChildRunGuarded_def MaxChildren_def
        count_runs_def affected_def child_where_def db_claimed_def[THEN arg_cong[of _ _ db_runs]]
        sample_run_lib_def[THEN arg_cong[of _ _ rl_marshal]])
qed

lemma child_sample_ok:
  "CreateChild child_samples \<lparr>sv_store = sqlite_child_port sample_run_lib (3 * second), sv_policy = (\<lambda>_. Inr grant_config)\<rparr>
     (3 * second) ''2'' ''9'' child_call [] db_claimed = (db_child_created, Inr ''run-2'')"
proof -
  have g: "attenuateGrants child_samples \<lparr>sv_store = port, sv_policy = (\<lambda>_. Inr grant_config)\<rparr> ''app'' r [] audience = Inr []"
    for port :: "echo_db child_port" and r audience
    using grant_config_verified
    by (simp add: attenuateGrants_def child_samples_def) (simp add: grant_config_def sample_config_def)
  have fit: "budgets_fit claimed_run child_input" "request_complete child_input"
    by (simp_all add: budgets_fit_def child_input_def claimed_run_def stored_sources_def sample_run_def
        word_le_nat_alt word_less_nat_alt request_complete_def maxTaskBytes_def)
  have c: "child_record claimed_run child_input ''run-2'' ''run-9'' ''call-1'' [] (4 * second) (3 * second) = new_child"
    by (simp add: new_child_def)
  have parent: "r_echo_id claimed_run = ''echo-1''" "r_status claimed_run = Run_Running" "r_deadline claimed_run = 90 * second"
    by (simp_all add: claimed_run_def stored_sources_def sample_run_def)
  have time: "3 * second + uint (ch_timeout_ms child_input) * millisecond = 4 * second"
    by (simp add: child_input_def duration_defs)
  have fields: "rc_app_id child_call = ''app''" "rc_run_id child_call = ''run-1''" "rc_call_id child_call = ''call-1''"
    "rc_lease_token child_call = ''token-a''" "rc_echo_id child_call = ''echo-1''" "ch_grants child_input = []"
    "cl_request child_samples [] = Some child_input" "cl_created child_samples = (\<lambda>i st. Inr i)"
    by (simp_all add: child_call_def child_input_def child_samples_def grant_lib_def)
  have order: "3 * second < 90 * second" "4 * second \<le> 90 * second" "3 * second < 4 * second"
    by (simp_all add: duration_defs)
  show ?thesis
    unfolding CreateChild_def
    using fit new_child_created parent time fields order c
    by (simp add: sqlite_child_port_def parent_read claimed_run_sel g new_child_sel not_less)
qed

theorem child_run_contained_witness:
  "\<exists>c m. db_child_created = db_claimed\<lparr>db_runs := db_runs db_claimed @ [run_row_of c m]\<rparr> \<and> within_parent claimed_run c"
proof -
  obtain parent c m where "GetRun sample_run_lib ''app'' ''run-1'' db_claimed = Inr parent"
    and "db_child_created = db_claimed\<lparr>db_runs := db_runs db_claimed @ [run_row_of c m]\<rparr>" and "within_parent parent c"
    using child_run_contained[OF child_sample_ok] by (auto simp: child_call_def)
  then show ?thesis by (auto simp: parent_read)
qed

text \<open>The same parent with a grant, and a request that asks for a part of it.\<close>

definition granting_lib :: run_lib where
  "granting_lib = sample_run_lib\<lparr>rl_unmarshal := (\<lambda>_. Some [sample_grant 5])\<rparr>"

definition granting_samples :: child_lib where
  "granting_samples = grant_lib\<lparr>cl_request := (\<lambda>_. Some (child_input\<lparr>ch_grants := [sample_grant 2]\<rparr>))\<rparr>"

definition granting_parent :: run_record where
  "granting_parent = claimed_run\<lparr>r_grants := [sample_grant 5]\<rparr>"

definition granted_child :: run_record where
  "granted_child = new_child\<lparr>r_grants := [child_grant]\<rparr>"

lemma granting_parent_read: "GetRun granting_lib ''app'' ''run-1'' db_claimed = Inr granting_parent"
proof -
  have "validCanonicalGrants [sample_grant 5] MaxCapabilities"
    using sample_canonical[of 5] by (simp add: validCanonicalGrants_iff MaxCapabilities_def)
  then have "queryRun granting_lib claimed_row = Inr granting_parent"
    by (simp add: queryRun_def claimed_row_def run_row_of_def sample_run_def granting_lib_def text_of_def
        message_of_def stored_sources_def no_output_def claimed_run_def granting_parent_def)
  moreover have "run_key claimed_row = (''app'', ''run-1'')"
    by (simp add: run_key_def claimed_row_def run_row_of_def sample_run_def)
  ultimately show ?thesis
    by (simp add: GetRun_def find_run_def select_key_def db_claimed_def)
qed

lemma child_grant_canonical: "canonical_grant child_grant"
  using child_grant_narrowed(1) narrowed_fields by blast

lemma granted_child_created:
  "CreateChildRun granting_lib (3 * second) granting_parent granted_child MaxChildren db_claimed = (db_child_created, Inr ())"
proof -
  have "validCanonicalGrants [child_grant] 64"
    using child_grant_canonical by (simp add: validCanonicalGrants_iff)
  then have valid: "validateNewRun e granted_child = Inr ()" if "e_app_id e = ''app''" "e_id e = ''echo-1''" for e
    using new_child_valid[OF that] that
    by (simp add: validateNewRun_Inr granted_child_def new_run_fresh_def new_run_inputs_def new_run_bounds_def)
  have lib: "rl_driver granting_lib = rl_driver sample_run_lib" "rl_json_array granting_lib = rl_json_array sample_run_lib"
    by (simp_all add: granting_lib_def)
  have same: "insert_run_row granting_lib = insert_run_row sample_run_lib" "parent_holds granting_lib = parent_holds sample_run_lib"
    by (simp_all add: lib fun_eq_iff insert_run_row_def parent_holds_def run_row_check_def split: option.split)
  have row: "run_row_of granted_child ''[]'' = run_row_of new_child ''[]''"
    by (simp add: granted_child_def run_row_of_def)
  have holds: "parent_holds sample_run_lib at granting_parent = parent_holds sample_run_lib at claimed_run" for at
    by (simp add: fun_eq_iff parent_holds_def granting_parent_def split: option.split)
  have m: "rl_marshal granting_lib gs = Inr ''[]''" "rl_marshal sample_run_lib gs = Inr ''[]''" for gs
    by (simp_all add: granting_lib_def sample_run_lib_def)
  have sel: "r_parent_id granting_parent = r_parent_id claimed_run" "r_app_id granting_parent = r_app_id claimed_run" "r_id granting_parent = r_id claimed_run"
    "r_echo_id granting_parent = r_echo_id claimed_run" "r_lease_token granting_parent = r_lease_token claimed_run"
    "r_app_id granted_child = r_app_id new_child" "r_echo_id granted_child = r_echo_id new_child"
    "r_parent_id granted_child = r_parent_id new_child" "r_origin_call_id granted_child = r_origin_call_id new_child"
    "r_status granted_child = r_status new_child" "r_created_at granted_child = r_created_at new_child"
    by (simp_all add: granting_parent_def granted_child_def)
  show ?thesis
    using new_child_created valid new_child_valid
    by (simp add: CreateChildRun_def insertChildRunGuarded_def same row holds m sel new_child_sel
        split: if_splits option.splits sum.splits) auto
qed


lemma granted_sample_ok:
  "CreateChild granting_samples \<lparr>sv_store = sqlite_child_port granting_lib (3 * second), sv_policy = (\<lambda>_. Inr grant_config)\<rparr>
     (3 * second) ''2'' ''9'' child_call [] db_claimed = (db_child_created, Inr ''run-2'')"
proof -
  let ?i = "child_input\<lparr>ch_grants := [sample_grant 2]\<rparr>"
  have "cl_revision granting_samples = cl_revision grant_lib" "cl_sha256 granting_samples = cl_sha256 grant_lib"
    by (simp_all add: granting_samples_def)
  then have "attenuateGrants granting_samples (grant_service port) = attenuateGrants grant_lib (grant_service port)" for port :: "echo_db child_port"
    by (intro ext) (simp only: attenuateGrants_def)
  then have g: "attenuateGrants granting_samples \<lparr>sv_store = port, sv_policy = (\<lambda>_. Inr grant_config)\<rparr> ''app'' granting_parent
      [sample_grant 2] ''run-2'' = Inr [child_grant]" for port :: "echo_db child_port"
    using sample_attenuation[of port] by (simp add: granting_parent_def grant_service_def)
  have fit: "budgets_fit granting_parent ?i" "request_complete ?i"
    by (simp_all add: budgets_fit_def child_input_def granting_parent_def claimed_run_def stored_sources_def sample_run_def
        word_le_nat_alt word_less_nat_alt request_complete_def maxTaskBytes_def)
  have c: "child_record granting_parent ?i ''run-2'' ''run-9'' ''call-1'' [child_grant] (4 * second) (3 * second) = granted_child"
    by (simp add: granted_child_def new_child_def child_record_def granting_parent_def)
  have parent: "r_echo_id granting_parent = ''echo-1''" "r_status granting_parent = Run_Running"
    "r_deadline granting_parent = 90 * second" "r_parent_id granting_parent = []" "r_lease_token granting_parent = ''token-a''"
    by (simp_all add: granting_parent_def claimed_run_def stored_sources_def sample_run_def)
  have time: "3 * second + uint (ch_timeout_ms ?i) * millisecond = 4 * second"
    by (simp add: child_input_def duration_defs)
  have fields: "rc_app_id child_call = ''app''" "rc_run_id child_call = ''run-1''" "rc_call_id child_call = ''call-1''"
    "rc_lease_token child_call = ''token-a''" "rc_echo_id child_call = ''echo-1''"
    "cl_request granting_samples [] = Some ?i" "cl_created granting_samples = (\<lambda>i st. Inr i)"
    by (simp_all add: child_call_def granting_samples_def grant_lib_def)
  have order: "3 * second < 90 * second" "4 * second \<le> 90 * second" "3 * second < 4 * second"
    by (simp_all add: duration_defs)
  show ?thesis
    unfolding CreateChild_def
    using fit granted_child_created parent time fields order c
    by (simp add: sqlite_child_port_def granting_parent_read g not_less)
      (simp add: granted_child_def new_child_sel)
qed

theorem child_grants_attenuated_witness:
  "\<exists>c m. db_child_created = db_claimed\<lparr>db_runs := db_runs db_claimed @ [run_row_of c m]\<rparr> \<and> r_id c = ''run-2'' \<and>
     rl_marshal granting_lib (r_grants c) = Inr m"
  using child_grants_attenuated[OF granted_sample_ok] by auto

theorem child_status_readable_witness:
  "statusHandler child_samples \<lparr>sv_store = sqlite_child_port sample_run_lib (3 * second),
     sv_policy = (\<lambda>_. Inr grant_config)\<rparr> child_call ''run-2'' db_child_created = Inr ''run-2'' \<and>
   statusHandler child_samples \<lparr>sv_store = sqlite_child_port sample_run_lib (3 * second),
     sv_policy = (\<lambda>_. Inr grant_config)\<rparr> (child_call\<lparr>rc_run_id := ''run-3''\<rparr>) ''run-2'' db_child_created =
     child_fail Child_GrantDenied"
proof -
  have e: "grants_survive sample_run_lib c"
    if "attenuateGrants child_samples sv app parent (ch_grants i) audience = Inr grants"
      "cl_request child_samples [] = Some i" "r_grants c = grants"
    for sv :: "echo_db child_service" and app parent i audience grants c
    using that
    by (auto simp: attenuateGrants_def child_samples_def child_input_def grants_survive_def sample_run_lib_def Let_def
        split: sum.splits if_splits)
  have q: "cl_child_id child_samples ''run-2'' = Some (''run-'' @ ''2'')" "cl_status child_samples = (\<lambda>st. Inr (st_run_id st))"
    by (simp_all add: child_samples_def grant_lib_def)
  note read = child_status_readable[OF child_sample_ok _ q(1)]
  show ?thesis
    using read[of child_call] read[of "child_call\<lparr>rc_run_id := ''run-3''\<rparr>"] e
    by (simp add: q(2) child_call_def)
qed

end
