(* ===== verification/Orchestrator.thy ===== *)
theory Orchestrator
  imports Dispatcher Run_Reconcile Backoff Go_Text
begin

text \<open>
  \<open>internal/kernel/echo/orchestrator.go\<close> outside the executor session: the configuration, the creation
  of an Echo from the App's current configuration, the check of a claimed Run against the revision it
  was created under, the projection of the capabilities, and the ways a Run ends: completion, failure
  and retry. The store ports are one record of operations on a world of any type; \<open>sqlite_run_ports\<close>
  is the model of the SQLite store. UUIDs and clock readings are arguments; logs and metrics are not
  modelled.
\<close>

section \<open>Configuration\<close>

record orch_config =
  oc_app_id :: string
  oc_run_timeout :: duration
  oc_lease :: duration
  oc_max_attempts :: u32
  oc_retry_base :: duration
  oc_retry_max :: duration
  oc_queue_capacity :: int

text \<open>\<open>NewOrchestrator\<close>; \<open>None\<close> is the panic on a negative lease. Missing ports, a missing source and
  a context budget out of range are further panics, of arguments that are not modelled.\<close>

definition NewOrchestrator :: "orch_config \<Rightarrow> orch_config option" where
  "NewOrchestrator c =
     (let c1 = c\<lparr>oc_run_timeout := (if oc_run_timeout c = 0 then 90 * second else oc_run_timeout c),
                oc_lease := (if oc_lease c = 0 then 15 * second else oc_lease c)\<rparr> in
      if oc_lease c1 \<le> 0 then None
      else Some (c1\<lparr>oc_max_attempts := (if oc_max_attempts c = 0 then 1 else oc_max_attempts c),
                    oc_retry_base := (if oc_retry_base c = 0 then 500 * millisecond else oc_retry_base c),
                    oc_retry_max := (if oc_retry_max c = 0 then 5 * second else oc_retry_max c),
                    oc_queue_capacity := (if oc_queue_capacity c = 0 then 128 else oc_queue_capacity c)\<rparr>))"

section \<open>Ports\<close>

record app_source =
  src_current :: "string \<Rightarrow> app_config go_result"
  src_revision :: "string \<Rightarrow> string \<Rightarrow> app_config go_result"
  src_policy :: "string \<Rightarrow> policy_snapshot go_result"

record orch_lib =
  ol_revision :: revision_encoder
  ol_sha256 :: "string \<Rightarrow> string"

record 's run_ports =
  rp_create :: "string \<Rightarrow> string \<Rightarrow> echo_record \<Rightarrow> run_record \<Rightarrow> int \<Rightarrow> 's \<Rightarrow> 's \<times> (string \<times> bool) go_result"
  rp_claim :: "string \<Rightarrow> string \<Rightarrow> string \<Rightarrow> string \<Rightarrow> instant \<Rightarrow> instant \<Rightarrow> 's \<Rightarrow> 's \<times> run_record go_result"
  rp_renew :: "run_record \<Rightarrow> instant \<Rightarrow> instant \<Rightarrow> 's \<Rightarrow> 's \<times> unit go_result"
  rp_advance :: "run_record \<Rightarrow> u64 \<Rightarrow> 's \<Rightarrow> 's \<times> unit go_result"
  rp_usage :: "run_record \<Rightarrow> u64 \<Rightarrow> u64 \<Rightarrow> u64 \<Rightarrow> u32 \<Rightarrow> 's \<Rightarrow> 's \<times> unit go_result"
  rp_context :: "run_record \<Rightarrow> string \<Rightarrow> string \<Rightarrow> 's \<Rightarrow> 's \<times> unit go_result"
  rp_retry :: "run_record \<Rightarrow> run_record \<Rightarrow> public_error \<Rightarrow> instant \<Rightarrow> 's \<Rightarrow> 's \<times> unit go_result"
  rp_complete :: "run_record \<Rightarrow> run_status \<Rightarrow> echo_status \<Rightarrow> run_output \<Rightarrow> public_error \<Rightarrow> instant \<Rightarrow> 's
     \<Rightarrow> 's \<times> unit go_result"
  rp_abandon :: "string \<Rightarrow> instant \<Rightarrow> 's \<Rightarrow> 's \<times> int go_result"
  rp_queued :: "string \<Rightarrow> int \<Rightarrow> 's \<Rightarrow> 's \<times> run_record list go_result"
  rp_runnable :: "string \<Rightarrow> instant \<Rightarrow> int \<Rightarrow> 's \<Rightarrow> 's \<times> run_record list go_result"
  rp_cancel :: "string \<Rightarrow> string \<Rightarrow> instant \<Rightarrow> 's \<Rightarrow> 's \<times> bool go_result"
  rp_cancel_all :: "string \<Rightarrow> instant \<Rightarrow> 's \<Rightarrow> 's \<times> unit go_result"
  rp_append :: "echo_event \<Rightarrow> 's \<Rightarrow> 's \<times> echo_event go_result"
  rp_audit :: "string \<Rightarrow> string \<Rightarrow> string \<Rightarrow> string \<Rightarrow> string \<Rightarrow> string \<Rightarrow> bool \<Rightarrow> public_error \<Rightarrow> duration \<Rightarrow> 's
     \<Rightarrow> 's \<times> unit go_result"

text \<open>\<open>clock\<close> is what the store itself reads; events are appended under a context without cancellation.\<close>

definition sqlite_run_ports :: "run_lib \<Rightarrow> instant \<Rightarrow> echo_db run_ports" where
  "sqlite_run_ports lib clock =
     \<lparr>rp_create = (\<lambda>key fp e r n db. CreateEchoRunIdempotentLimited lib key fp e r n db),
      rp_claim = (\<lambda>app echo run token started expires db. ClaimRun lib app echo run token started expires db),
      rp_renew = (\<lambda>r at expires db. RenewRunLease lib r at expires db),
      rp_advance = (\<lambda>r sq db. AdvanceRunExecutorSequence lib r sq db),
      rp_usage = (\<lambda>r sq units cost retries db. AdvanceRunExecutorSequenceWithUsage lib r sq units cost retries db),
      rp_context = (\<lambda>r digest sources db. SetRunContext lib r digest sources db),
      rp_retry = (\<lambda>cur nxt failure at db. RetryRun lib cur nxt failure at db),
      rp_complete = (\<lambda>r rs es out failure at db. CompleteRun lib r rs es out failure at db),
      rp_abandon = (\<lambda>app now db. FailAbandonedRuns lib app now db),
      rp_queued = (\<lambda>app limit db. ListQueuedRuns lib clock app limit db),
      rp_runnable = (\<lambda>app now limit db. ListRunnableRuns lib clock app now limit db),
      rp_cancel = (\<lambda>app echo at db. CancelQueuedRun lib app echo at db),
      rp_cancel_all = (\<lambda>app at db. CancelQueuedRuns lib app at db),
      rp_append = (\<lambda>v db. AppendEchoEvent lib None v db),
      rp_audit = (\<lambda>call run echo app cap body success failure took db.
        RecordCapabilityCall lib clock call run echo app cap body success failure took db)\<rparr>"

section \<open>App configurations\<close>

definition currentAppConfig :: "orch_lib \<Rightarrow> app_source \<Rightarrow> string \<Rightarrow> app_config go_result" where
  "currentAppConfig lib src app =
     and_then (src_current src app) (\<lambda>c.
       and_then (VerifyCurrent (ol_revision lib) (ol_sha256 lib) c app) (\<lambda>_. Inr c))"

definition appConfigRevision :: "orch_lib \<Rightarrow> app_source \<Rightarrow> string \<Rightarrow> string \<Rightarrow> app_config go_result" where
  "appConfigRevision lib src app revision =
     and_then (src_revision src app revision) (\<lambda>c.
       and_then (VerifyConfig (ol_revision lib) (ol_sha256 lib) c app revision) (\<lambda>_. Inr c))"

text \<open>\<open>uint32(config.ExecutionTimeout.Milliseconds())\<close>.\<close>

definition timeout_ms :: "app_config \<Rightarrow> u32" where
  "timeout_ms c = word_of_int (go_div (ac_execution_timeout c) millisecond)"

definition runMatchesAppConfig :: "run_record \<Rightarrow> app_config \<Rightarrow> bool" where
  "runMatchesAppConfig r c \<longleftrightarrow>
     r_config_revision r = ac_revision c \<and> r_executor_id r = ac_executor_id c \<and>
     0 < r_max_steps r \<and> r_max_steps r \<le> ac_max_steps c \<and>
     0 < r_max_capability_calls r \<and> r_max_capability_calls r \<le> ac_max_capability_calls c \<and>
     0 < r_max_execution_units r \<and> r_max_execution_units r \<le> ac_max_execution_units c \<and>
     0 < r_max_output_bytes r \<and> r_max_output_bytes r \<le> ac_max_output_bytes c \<and>
     r_max_cost r \<le> ac_max_cost c \<and>
     0 < r_execution_timeout_ms r \<and> r_execution_timeout_ms r \<le> timeout_ms c"

section \<open>Creation\<close>

record run_request =
  rr_message :: string
  rr_idempotency_key :: string
  rr_session_id :: string
  rr_user_id :: string
  rr_message_id :: string
  rr_channel :: string

definition new_echo :: "string \<Rightarrow> string \<Rightarrow> string \<Rightarrow> instant \<Rightarrow> echo_record" where
  "new_echo app echo_id message now =
     \<lparr>e_id = echo_id, e_app_id = app, e_input_message = message, e_status = Echo_Running,
      e_final_message = [], e_result = no_output, e_error_code = [], e_error_message = No_Message,
      e_created_at = now, e_completed_at = None\<rparr>"

definition new_root_run ::
  "orch_config \<Rightarrow> app_config \<Rightarrow> policy_snapshot \<Rightarrow> run_request \<Rightarrow> string \<Rightarrow> string \<Rightarrow> instant \<Rightarrow> run_record" where
  "new_root_run cfg app policy rq echo_id run_id now =
     \<lparr>r_id = run_id, r_group_id = run_id, r_app_id = oc_app_id cfg, r_echo_id = echo_id, r_parent_id = [],
      r_origin_call_id = [], r_session_id = rr_session_id rq, r_user_id = rr_user_id rq,
      r_message_id = rr_message_id rq, r_channel = rr_channel rq, r_attempt = 1, r_status = Run_Queued,
      r_executor_id = ac_executor_id app, r_config_revision = ac_revision app, r_protocol_version = Version,
      r_executor_config = ac_executor_config app, r_input_payload = rr_message rq,
      r_input_content_type = ''text/plain; charset=utf-8'', r_context_digest = [], r_context_sources = [],
      r_max_steps = ac_max_steps app, r_max_capability_calls = ac_max_capability_calls app,
      r_max_execution_units = ac_max_execution_units app, r_max_output_bytes = ac_max_output_bytes app,
      r_max_cost = ac_max_cost app, r_execution_timeout_ms = timeout_ms app,
      r_used_execution_units = 0, r_used_cost = 0, r_used_retries = 0,
      r_deadline = now + oc_run_timeout cfg, r_available_at = now, r_lease_token = [],
      r_lease_expires = None, r_last_sequence = 0, r_grants = ps_grants policy, r_recoverable_state = ''{}'',
      r_result = no_output, r_error_code = [], r_error_message = No_Message, r_created_at = now,
      r_started_at = None, r_completed_at = None\<rparr>"

abbreviation config_unavailable :: "go_error \<Rightarrow> go_error + 'a" where
  "config_unavailable e \<equiv> Inl (Joined [Sentinel (Orchestrator_E Orch_AppConfigUnavailable), e])"

definition CreateIdempotent ::
  "orch_lib \<Rightarrow> app_source \<Rightarrow> 's run_ports \<Rightarrow> orch_config \<Rightarrow> string \<Rightarrow> string \<Rightarrow> instant \<Rightarrow> run_request \<Rightarrow> 's
     \<Rightarrow> 's \<times> (string \<times> bool) go_result" where
  "CreateIdempotent lib src ports cfg echo_id run_id now rq s =
     (if rr_message rq = [] then (s, orch_fail Orch_EmptyMessage)
      else if 4000 < rune_count (rr_message rq) then (s, orch_fail Orch_MessageTooLong)
      else case ValidateKey (rr_idempotency_key rq) of
        Inl e \<Rightarrow> (s, Inl e)
      | Inr _ \<Rightarrow>
     (case currentAppConfig lib src (oc_app_id cfg) of
        Inl e \<Rightarrow> (s, config_unavailable e)
      | Inr app \<Rightarrow>
        if \<not> ac_enabled app then (s, orch_fail Orch_AppDisabled)
        else case src_policy src (oc_app_id cfg) of
          Inl e \<Rightarrow> (s, config_unavailable e)
        | Inr policy \<Rightarrow>
          (case VerifySnapshot policy (oc_app_id cfg) of
             Inl e \<Rightarrow> (s, config_unavailable e)
           | Inr _ \<Rightarrow>
             if \<not> ps_enabled policy then (s, orch_fail Orch_AppDisabled)
             else rp_create ports (rr_idempotency_key rq) (Fingerprint (ol_sha256 lib) [rr_message rq])
                    (new_echo (oc_app_id cfg) echo_id (rr_message rq) now)
                    (new_root_run cfg app policy rq echo_id run_id now) (oc_queue_capacity cfg) s)))"

section \<open>Recovery and cancellation\<close>

definition Recoverable :: "'s run_ports \<Rightarrow> orch_config \<Rightarrow> instant \<Rightarrow> 's \<Rightarrow> 's \<times> run_record list go_result" where
  "Recoverable ports cfg now s =
     (case rp_abandon ports (oc_app_id cfg) now s of
        (s1, Inl e) \<Rightarrow> (s1, Inl e)
      | (s1, Inr _) \<Rightarrow> rp_queued ports (oc_app_id cfg) 1000 s1)"

definition Runnable :: "'s run_ports \<Rightarrow> orch_config \<Rightarrow> instant \<Rightarrow> int \<Rightarrow> 's \<Rightarrow> 's \<times> run_record list go_result" where
  "Runnable ports cfg now limit s = rp_runnable ports (oc_app_id cfg) now limit s"

definition CancelEcho :: "'s run_ports \<Rightarrow> orch_config \<Rightarrow> instant \<Rightarrow> string \<Rightarrow> 's \<Rightarrow> 's \<times> bool go_result" where
  "CancelEcho ports cfg now echo s = rp_cancel ports (oc_app_id cfg) echo now s"

definition CancelAllQueued :: "'s run_ports \<Rightarrow> orch_config \<Rightarrow> instant \<Rightarrow> 's \<Rightarrow> 's \<times> unit go_result" where
  "CancelAllQueued ports cfg now s = rp_cancel_all ports (oc_app_id cfg) now s"

section \<open>The capabilities of a Run\<close>

definition projectCapabilities ::
  "('h, 'c) registry \<Rightarrow> policy_snapshot \<Rightarrow> run_record \<Rightarrow> proto_capability list" where
  "projectCapabilities reg policy r =
     map (\<lambda>spec. \<lparr>pc_id = cs_id spec, pc_version = cs_version spec, pc_name = cs_name spec,
            pc_description = cs_description spec, pc_input_schema = cs_input_schema spec, pc_unknown = []\<rparr>)
       (filter (\<lambda>spec. HasCapability policy (cs_id spec) \<and> cs_id spec \<in> g_capability_id ` set (r_grants r))
         (Capabilities reg))"

definition capabilityVersions :: "proto_capability list \<Rightarrow> string list" where
  "capabilityVersions cs = map (\<lambda>c. pc_id c @ ''@'' @ pc_version c) cs"

section \<open>The ends of a Run\<close>

definition completeRun ::
  "'s run_ports \<Rightarrow> instant \<Rightarrow> run_record \<Rightarrow> run_status \<Rightarrow> echo_status \<Rightarrow> run_output \<Rightarrow> public_error \<Rightarrow> 's
     \<Rightarrow> 's \<times> go_error option" where
  "completeRun ports now r rs es out err s =
     (case rp_complete ports r rs es out err now s of
        (s', Inl e) \<Rightarrow> (s', Some e)
      | (s', Inr _) \<Rightarrow> (s', None))"

definition canRetry :: "orch_config \<Rightarrow> run_record \<Rightarrow> public_error \<Rightarrow> bool \<Rightarrow> bool" where
  "canRetry cfg r err safe \<longleftrightarrow> pe_retryable err \<and> safe \<and> r_attempt r < oc_max_attempts cfg"

definition run_jitter_byte :: "(string \<Rightarrow> string) \<Rightarrow> run_record \<Rightarrow> nat" where
  "run_jitter_byte sha256 r = (case sha256 (r_id r) of [] \<Rightarrow> 0 | b # _ \<Rightarrow> code b)"

definition runRetryDelay :: "orch_config \<Rightarrow> (string \<Rightarrow> string) \<Rightarrow> run_record \<Rightarrow> duration" where
  "runRetryDelay cfg sha256 r =
     jittered (retry_loop (oc_retry_max cfg) (unat (r_attempt r) - 1) (oc_retry_base cfg))
       (run_jitter_byte sha256 r)"

definition next_attempt :: "orch_config \<Rightarrow> (string \<Rightarrow> string) \<Rightarrow> string \<Rightarrow> instant \<Rightarrow> run_record \<Rightarrow> run_record" where
  "next_attempt cfg sha256 run_id now r =
     (let available = now + runRetryDelay cfg sha256 r in
      r\<lparr>r_id := run_id, r_attempt := r_attempt r + 1, r_status := Run_Queued,
        r_deadline := available + oc_run_timeout cfg, r_available_at := available, r_lease_token := [],
        r_lease_expires := None, r_last_sequence := 0, r_recoverable_state := ''{}'', r_context_digest := [],
        r_context_sources := ''{}'', r_error_code := [], r_error_message := No_Message, r_created_at := now,
        r_started_at := None, r_completed_at := None, r_used_execution_units := 0, r_used_cost := 0,
        r_used_retries := 0\<rparr>)"

definition retryRun ::
  "orch_config \<Rightarrow> (string \<Rightarrow> string) \<Rightarrow> 's run_ports \<Rightarrow> string \<Rightarrow> instant \<Rightarrow> run_record \<Rightarrow> public_error \<Rightarrow> 's
     \<Rightarrow> 's \<times> go_error option" where
  "retryRun cfg sha256 ports run_id now r failure s =
     (case rp_retry ports r (next_attempt cfg sha256 run_id now r) failure now s of
        (s', Inl e) \<Rightarrow> (s', Some e)
      | (s', Inr _) \<Rightarrow> (s', None))"

text \<open>What a way of ending draws: the UUID of a next attempt and the readings of the clock.\<close>

record ending_draw =
  ed_run_id :: string
  ed_retry_at :: instant
  ed_complete_at :: instant

definition failPublic ::
  "orch_config \<Rightarrow> (string \<Rightarrow> string) \<Rightarrow> 's run_ports \<Rightarrow> ending_draw \<Rightarrow> run_record \<Rightarrow> public_error \<Rightarrow> bool \<Rightarrow> 's
     \<Rightarrow> 's \<times> go_error option" where
  "failPublic cfg sha256 ports ed r err safe s =
     (if canRetry cfg r err safe then
        (case retryRun cfg sha256 ports (ed_run_id ed) (ed_retry_at ed) r err s of
           (s1, None) \<Rightarrow> (s1, Some (Sentinel (Echo_E Run_RetryScheduled)))
         | (s1, Some e) \<Rightarrow>
             (case completeRun ports (ed_complete_at ed) r Run_Failed Echo_Failed no_output err s1 of
                (s2, terminal) \<Rightarrow> (s2, join_errors (Some e) terminal)))
      else completeRun ports (ed_complete_at ed) r Run_Failed Echo_Failed no_output err s)"

definition failRun ::
  "orch_config \<Rightarrow> (string \<Rightarrow> string) \<Rightarrow> 's run_ports \<Rightarrow> ending_draw \<Rightarrow> run_record \<Rightarrow> string \<Rightarrow> bool \<Rightarrow> 's
     \<Rightarrow> 's \<times> go_error option" where
  "failRun cfg sha256 ports ed r c safe s = failPublic cfg sha256 ports ed r (PublicEcho c) safe s"

end
