(* ===== verification/Session_Model.thy ===== *)
theory Session_Model
  imports Ident Go_Error Authorization
begin

text \<open>
  \<open>internal/kernel/session/model.go\<close>: sessions with their members and platform bindings, messages with a
  reference to their content, attachments, and the validators. A session error is one of
  \<open>session_error\<close>, the sentinels of \<open>model.go\<close> and \<open>port.go\<close>; a result of this package is a sum over
  \<open>session_failure\<close>, in which \<open>Other_Failure\<close> carries the errors of other packages.
\<close>

section \<open>Errors\<close>

datatype session_error =
    Sess_Invalid | Sess_NotFound | Sess_InvalidMessage | Sess_MessageNotFound | Sess_InvalidAttachment
  | Sess_AttachmentNotFound | Sess_InvalidTransition | Sess_InvalidBlobRef | Sess_Exists
  | Sess_MessageConflict | Sess_ContentBlob | Sess_BlobNotFound | Sess_BlobTooLarge

datatype session_failure = Sess session_error | Other_Failure go_error

type_synonym 'a sess_result = "session_failure + 'a"

abbreviation sess_fail :: "session_error \<Rightarrow> session_failure + 'a" where
  "sess_fail e \<equiv> Inl (Sess e)"

section \<open>Data\<close>

definition SessionTypeDirect :: string where "SessionTypeDirect = ''direct''"
definition SessionTypeGroup :: string where "SessionTypeGroup = ''group''"
definition SessionTypeSystem :: string where "SessionTypeSystem = ''system''"
definition MessageTypeText :: string where "MessageTypeText = ''text''"
definition MessageTypeImage :: string where "MessageTypeImage = ''image''"
definition MessageTypeFile :: string where "MessageTypeFile = ''file''"
definition MessageTypeSystem :: string where "MessageTypeSystem = ''system''"
definition MessageTypeEvent :: string where "MessageTypeEvent = ''event''"
definition ContentModeInline :: string where "ContentModeInline = ''inline''"
definition ContentModeBlob :: string where "ContentModeBlob = ''blob''"
definition MemberRoleOwner :: string where "MemberRoleOwner = ''owner''"
definition MemberRoleAdmin :: string where "MemberRoleAdmin = ''admin''"
definition MemberRoleMember :: string where "MemberRoleMember = ''member''"

definition MaxInlineContentBytes :: int where "MaxInlineContentBytes = 262144"
definition MaxMessageContentBytes :: int where "MaxMessageContentBytes = 16777216"
definition MaxAttachmentBytes :: int where "MaxAttachmentBytes = 16777216"
definition MaxMembersPerSession :: nat where "MaxMembersPerSession = 1024"
definition MaxBindingsPerSession :: nat where "MaxBindingsPerSession = 32"
definition MaxHistoryQueryLimit :: int where "MaxHistoryQueryLimit = 1000"
definition MaxBlobIDLength :: nat where "MaxBlobIDLength = 256"
definition MaxPlatformMessageIDLength :: nat where "MaxPlatformMessageIDLength = 256"

lemmas session_names = SessionTypeDirect_def SessionTypeGroup_def SessionTypeSystem_def MessageTypeText_def
  MessageTypeImage_def MessageTypeFile_def MessageTypeSystem_def MessageTypeEvent_def ContentModeInline_def
  ContentModeBlob_def MemberRoleOwner_def MemberRoleAdmin_def MemberRoleMember_def
lemmas session_limits = MaxInlineContentBytes_def MaxMessageContentBytes_def MaxAttachmentBytes_def
  MaxMembersPerSession_def MaxBindingsPerSession_def MaxHistoryQueryLimit_def MaxBlobIDLength_def
  MaxPlatformMessageIDLength_def

record member =
  mb_user_id :: string
  mb_role :: string
  mb_joined_at :: instant

record platform_binding =
  pb_platform :: string
  pb_platform_id :: string
  pb_bound_at :: instant

record session =
  sn_app_id :: string
  sn_id :: string
  sn_type :: string
  sn_members :: "member list"
  sn_bindings :: "platform_binding list"
  sn_created_at :: instant
  sn_updated_at :: instant

record content_ref =
  ct_mode :: string
  ct_blob_id :: string
  ct_size :: int

record message_record =
  mg_app_id :: string
  mg_session_id :: string
  mg_id :: string
  mg_sender :: string
  mg_type :: string
  mg_content_ref :: content_ref
  mg_reply_to :: string
  mg_platform_id :: string
  mg_created_at :: instant
  mg_edited_at :: "instant option"
  mg_deleted_at :: "instant option"

record attachment_ref =
  af_filename :: string
  af_mime_type :: string
  af_size :: int
  af_blob_id :: string

record attachment =
  at_app_id :: string
  at_id :: string
  at_session_id :: string
  at_message_id :: string
  at_uploader :: string
  at_ref :: attachment_ref
  at_created_at :: instant

record message_edit =
  me_app_id :: string
  me_session_id :: string
  me_message_id :: string
  me_content_ref :: content_ref
  me_edited_at :: instant

record message_query =
  mq_sender :: string
  mq_descending :: bool
  mq_limit :: int

section \<open>Identifiers\<close>

definition ValidBlobID :: "string \<Rightarrow> bool" where
  "ValidBlobID v \<longleftrightarrow>
     v \<noteq> [] \<and> length v \<le> MaxBlobIDLength \<and> utf8_valid v \<and>
     list_all (\<lambda>seg. seg \<noteq> [] \<and> seg \<noteq> ''.'' \<and> seg \<noteq> ''..'' \<and> stable_mixed_uncapped seg)
       (split_on (CHR ''/'') v)"

definition ValidPlatformMessageID :: "string \<Rightarrow> bool" where
  "ValidPlatformMessageID v \<longleftrightarrow>
     v = [] \<or> length v \<le> MaxPlatformMessageIDLength \<and> utf8_valid v \<and> stable_mixed_uncapped v"

text \<open>\<open>mimeTypePattern\<close>: two non-empty parts of letters, digits, dots, plus and minus signs.\<close>

definition mime_char :: "char \<Rightarrow> bool" where
  "mime_char c \<longleftrightarrow> is_alnum c \<or> c = CHR ''.'' \<or> c = CHR ''+'' \<or> c = CHR ''-''"

definition mime_type_pattern :: "string \<Rightarrow> bool" where
  "mime_type_pattern s \<longleftrightarrow>
     (case split_on (CHR ''/'') s of
        [a, b] \<Rightarrow> a \<noteq> [] \<and> b \<noteq> [] \<and> list_all mime_char a \<and> list_all mime_char b
      | _ \<Rightarrow> False)"

definition validFilename :: "string \<Rightarrow> bool" where
  "validFilename v \<longleftrightarrow>
     v \<noteq> [] \<and> length v \<le> 256 \<and> utf8_valid v \<and> v \<noteq> ''.'' \<and> v \<noteq> ''..'' \<and>
     list_all (\<lambda>c. c \<noteq> CHR ''/'' \<and> code c \<noteq> 92 \<and> code c \<noteq> 0 \<and> code c \<noteq> 13 \<and> code c \<noteq> 10) v"

section \<open>Validation\<close>

definition ValidateContentRef :: "content_ref \<Rightarrow> unit sess_result" where
  "ValidateContentRef ref =
     (if ct_mode ref = ContentModeInline then
        (if ct_blob_id ref \<noteq> [] \<or> ct_size ref \<le> 0 \<or> MaxInlineContentBytes < ct_size ref
         then sess_fail Sess_InvalidMessage else Inr ())
      else if ct_mode ref = ContentModeBlob then
        (if \<not> ValidBlobID (ct_blob_id ref) \<or> ct_size ref \<le> 0 \<or> MaxMessageContentBytes < ct_size ref
         then sess_fail Sess_InvalidMessage else Inr ())
      else sess_fail Sess_InvalidMessage)"

text \<open>The two loops of \<open>ValidateSession\<close>, with the keys seen so far.\<close>

fun members_ok :: "string set \<Rightarrow> member list \<Rightarrow> bool" where
  "members_ok seen [] = True"
| "members_ok seen (m # ms) =
     (valid_stable_id (mb_user_id m) \<and> \<not> is_zero (mb_joined_at m) \<and>
      mb_role m \<in> {MemberRoleOwner, MemberRoleAdmin, MemberRoleMember} \<and>
      mb_user_id m \<notin> seen \<and> members_ok (insert (mb_user_id m) seen) ms)"

definition binding_key :: "platform_binding \<Rightarrow> string" where
  "binding_key b = pb_platform b @ [CHR 0x1F] @ pb_platform_id b"

fun bindings_ok :: "string set \<Rightarrow> platform_binding list \<Rightarrow> bool" where
  "bindings_ok seen [] = True"
| "bindings_ok seen (b # bs) =
     (length (pb_platform b) \<le> 64 \<and> is_stable_id (pb_platform b) \<and> ValidPlatformMessageID (pb_platform_id b) \<and>
      pb_platform_id b \<noteq> [] \<and> \<not> is_zero (pb_bound_at b) \<and>
      binding_key b \<notin> seen \<and> bindings_ok (insert (binding_key b) seen) bs)"

definition ValidateSession :: "session \<Rightarrow> unit sess_result" where
  "ValidateSession s =
     (if \<not> valid_stable_id (sn_app_id s) \<or> \<not> valid_stable_id (sn_id s) then sess_fail Sess_Invalid
      else if sn_type s \<notin> {SessionTypeDirect, SessionTypeGroup, SessionTypeSystem} then sess_fail Sess_Invalid
      else if MaxMembersPerSession < length (sn_members s) \<or> MaxBindingsPerSession < length (sn_bindings s)
        then sess_fail Sess_Invalid
      else if is_zero (sn_created_at s) \<or> is_zero (sn_updated_at s) \<or> before (sn_updated_at s) (sn_created_at s)
        then sess_fail Sess_Invalid
      else if \<not> members_ok {} (sn_members s) then sess_fail Sess_Invalid
      else if \<not> bindings_ok {} (sn_bindings s) then sess_fail Sess_Invalid
      else Inr ())"

definition ValidateMessage :: "message_record \<Rightarrow> unit sess_result" where
  "ValidateMessage m =
     (if \<not> valid_stable_id (mg_app_id m) \<or> \<not> valid_stable_id (mg_session_id m) \<or>
         \<not> valid_stable_id (mg_id m) \<or> \<not> valid_stable_id (mg_sender m) then sess_fail Sess_InvalidMessage
      else if mg_type m \<notin> {MessageTypeText, MessageTypeImage, MessageTypeFile, MessageTypeSystem, MessageTypeEvent}
        then sess_fail Sess_InvalidMessage
      else if ValidateContentRef (mg_content_ref m) \<noteq> Inr () then sess_fail Sess_InvalidMessage
      else if mg_reply_to m \<noteq> [] \<and> \<not> valid_stable_id (mg_reply_to m) then sess_fail Sess_InvalidMessage
      else if \<not> ValidPlatformMessageID (mg_platform_id m) then sess_fail Sess_InvalidMessage
      else if is_zero (mg_created_at m) then sess_fail Sess_InvalidMessage
      else Inr ())"

definition ValidateMessageEdit :: "message_edit \<Rightarrow> unit sess_result" where
  "ValidateMessageEdit e =
     (if \<not> valid_stable_id (me_app_id e) \<or> \<not> valid_stable_id (me_session_id e) \<or> \<not> valid_stable_id (me_message_id e)
        then sess_fail Sess_InvalidMessage
      else if ValidateContentRef (me_content_ref e) \<noteq> Inr () then sess_fail Sess_InvalidMessage
      else if is_zero (me_edited_at e) then sess_fail Sess_InvalidMessage
      else Inr ())"

definition ValidateMessageQuery :: "message_query \<Rightarrow> unit sess_result" where
  "ValidateMessageQuery q =
     (if mq_sender q \<noteq> [] \<and> \<not> valid_stable_id (mq_sender q) then sess_fail Sess_InvalidMessage
      else if mq_limit q < 1 \<or> MaxHistoryQueryLimit < mq_limit q then sess_fail Sess_InvalidMessage
      else Inr ())"

definition ValidateAttachmentRef :: "attachment_ref \<Rightarrow> unit sess_result" where
  "ValidateAttachmentRef ref =
     (if af_size ref \<le> 0 \<or> MaxAttachmentBytes < af_size ref \<or> \<not> ValidBlobID (af_blob_id ref)
        then sess_fail Sess_InvalidAttachment
      else if \<not> validFilename (af_filename ref) then sess_fail Sess_InvalidAttachment
      else if 128 < length (af_mime_type ref) \<or> \<not> utf8_valid (af_mime_type ref) \<or>
              \<not> mime_type_pattern (af_mime_type ref) then sess_fail Sess_InvalidAttachment
      else Inr ())"

definition ValidateAttachment :: "attachment \<Rightarrow> unit sess_result" where
  "ValidateAttachment a =
     (if \<not> valid_stable_id (at_app_id a) \<or> \<not> valid_stable_id (at_session_id a) \<or>
         \<not> valid_stable_id (at_id a) \<or> \<not> valid_stable_id (at_uploader a) then sess_fail Sess_InvalidAttachment
      else if at_message_id a \<noteq> [] \<and> \<not> valid_stable_id (at_message_id a) then sess_fail Sess_InvalidAttachment
      else if ValidateAttachmentRef (at_ref a) \<noteq> Inr () then sess_fail Sess_InvalidAttachment
      else if is_zero (at_created_at a) then sess_fail Sess_InvalidAttachment
      else Inr ())"

section \<open>Facts\<close>

lemma members_ok_iff:
  "members_ok seen ms \<longleftrightarrow>
     (\<forall>m \<in> set ms. valid_stable_id (mb_user_id m) \<and> mb_joined_at m \<noteq> 0 \<and>
        mb_role m \<in> {MemberRoleOwner, MemberRoleAdmin, MemberRoleMember}) \<and>
     distinct (map mb_user_id ms) \<and> mb_user_id ` set ms \<inter> seen = {}"
  by (induction ms arbitrary: seen) auto

lemma bindings_ok_iff:
  "bindings_ok seen bs \<longleftrightarrow>
     (\<forall>b \<in> set bs. length (pb_platform b) \<le> 64 \<and> is_stable_id (pb_platform b) \<and>
        ValidPlatformMessageID (pb_platform_id b) \<and> pb_platform_id b \<noteq> [] \<and> pb_bound_at b \<noteq> 0) \<and>
     distinct (map binding_key bs) \<and> binding_key ` set bs \<inter> seen = {}"
  by (induction bs arbitrary: seen) auto

end
