(* ===== verification/Go_Encode.thy ===== *)
theory Go_Encode
  imports Go_Text Go_Json
begin

text \<open>
  \<open>json.Marshal\<close> of strings, arrays and objects, with the HTML escaping that it has by default, and the
  proof that what it writes is accepted by \<open>json.Valid\<close>. An object is the list of its fields in the
  order of the Go struct; a field left out by \<open>omitempty\<close> is left out of the list.
\<close>

section \<open>Encoder\<close>

definition backslash :: char where "backslash = CHR 0x5C"
definition double_quote :: char where "double_quote = CHR 0x22"

definition json_hex :: "nat \<Rightarrow> char" where
  "json_hex n = char_of (if n < 10 then 48 + n else 87 + n)"

text \<open>One byte below 128.\<close>

definition json_byte :: "char \<Rightarrow> string" where
  "json_byte c =
     (let x = code c in
      if x = 92 \<or> x = 34 then [backslash, c]
      else if x = 8 then [backslash, CHR ''b'']
      else if x = 12 then [backslash, CHR ''f'']
      else if x = 10 then [backslash, CHR ''n'']
      else if x = 13 then [backslash, CHR ''r'']
      else if x = 9 then [backslash, CHR ''t'']
      else if x < 32 \<or> c = CHR ''<'' \<or> c = CHR ''>'' \<or> c = CHR ''&''
        then backslash # ''u00'' @ [json_hex (x div 16), json_hex (x mod 16)]
      else [c])"

text \<open>One valid sequence; the line separators U+2028 and U+2029 are escaped.\<close>

definition json_rune :: "string \<Rightarrow> string" where
  "json_rune r =
     (case r of
        [c] \<Rightarrow> json_byte c
      | _ \<Rightarrow>
          if r = [CHR 0xE2, CHR 0x80, CHR 0xA8] then backslash # ''u2028''
          else if r = [CHR 0xE2, CHR 0x80, CHR 0xA9] then backslash # ''u2029''
          else r)"

function json_chars :: "string \<Rightarrow> string" where
  "json_chars [] = []"
| "json_chars (a # t) =
     (let w = rune_width (a # t) in
      if w = 0 then (backslash # ''ufffd'') @ json_chars t
      else json_rune (take w (a # t)) @ json_chars (drop (w - 1) t))"
  by pat_completeness auto
termination
  by (relation "measure length") auto

definition json_quote :: "string \<Rightarrow> string" where
  "json_quote s = double_quote # json_chars s @ [double_quote]"

fun joined :: "string list \<Rightarrow> string" where
  "joined [] = []"
| "joined [v] = v"
| "joined (v # vs) = v @ CHR '','' # joined vs"

definition json_array :: "string list \<Rightarrow> string" where
  "json_array vs = CHR ''['' # joined vs @ [CHR '']'']"

definition json_field :: "string \<times> string \<Rightarrow> string" where
  "json_field f = (case f of (k, v) \<Rightarrow> json_quote k @ CHR '':'' # v)"

definition json_object :: "(string \<times> string) list \<Rightarrow> string" where
  "json_object fs = CHR ''{'' # joined (map json_field fs) @ [CHR ''}'']"

text \<open>\<open>omitempty\<close> on a string field.\<close>

definition optional_field :: "string \<Rightarrow> string \<Rightarrow> (string \<times> string) list" where
  "optional_field k v = (if v = [] then [] else [(k, json_quote v)])"

text \<open>\<open>omitempty\<close> on an int field that is never negative.\<close>

definition optional_number :: "string \<Rightarrow> nat \<Rightarrow> (string \<times> string) list" where
  "optional_number k n = (if n = 0 then [] else [(k, decimal n)])"

text \<open>Base64 with padding, in which a non-nil byte slice is written.\<close>

definition base64_digit :: "nat \<Rightarrow> char" where
  "base64_digit n =
     char_of (if n < 26 then 65 + n else if n < 52 then 71 + n else if n < 62 then n - 4
              else if n = 62 then 43 else 47)"

fun base64 :: "string \<Rightarrow> string" where
  "base64 [] = []"
| "base64 [a] =
     [base64_digit (code a div 4), base64_digit (code a mod 4 * 16), CHR ''='', CHR ''='']"
| "base64 [a, b] =
     [base64_digit (code a div 4), base64_digit (code a mod 4 * 16 + code b div 16),
      base64_digit (code b mod 16 * 4), CHR ''='']"
| "base64 (a # b # c # s) =
     base64_digit (code a div 4) # base64_digit (code a mod 4 * 16 + code b div 16) #
     base64_digit (code b mod 16 * 4 + code c div 64) # base64_digit (code c mod 64) # base64 s"

definition json_bytes :: "string \<Rightarrow> string" where
  "json_bytes s = (if s = [] then ''null'' else double_quote # base64 s @ [double_quote])"

definition json_bool :: "bool \<Rightarrow> string" where
  "json_bool b = (if b then ''true'' else ''false'')"

section \<open>What is written is valid JSON\<close>

lemma code_char_of: "n < 256 \<Longrightarrow> code (char_of n) = n"
  by (simp add: code_def)

lemma char_eq_code: "c = d \<longleftrightarrow> code c = code d"
  by (simp add: code_def)

lemma json_hex_hex: "n < 16 \<Longrightarrow> is_hex (json_hex n)"
  by (auto simp: is_hex_def is_hex_lower_def is_digit_def json_hex_def code_char_of)

lemma scan_string_run:
  "list_all (\<lambda>c. code c \<noteq> 34 \<and> code c \<noteq> 92 \<and> 32 \<le> code c) s \<Longrightarrow> scan (In_String, ps) s = Some (In_String, ps)"
  by (induction s) auto

lemma scan_json_byte: "scan (In_String, ps) (json_byte c) = Some (In_String, ps)"
proof -
  have q: "code double_quote = 34" "code backslash = 92"
    by (simp_all add: double_quote_def backslash_def code_def)
  have h: "is_hex (json_hex (code c div 16))" "is_hex (json_hex (code c mod 16))"
  proof -
    have "code c < 256" by (simp add: code_def)
    then show "is_hex (json_hex (code c div 16))" by (intro json_hex_hex) simp
    show "is_hex (json_hex (code c mod 16))" by (intro json_hex_hex) simp
  qed
  have z: "is_hex (CHR ''0'')" by code_simp
  have u: "code (CHR ''u'') = 117" "code (CHR ''b'') = 98" by (simp_all add: code_def)
  show ?thesis
    unfolding json_byte_def Let_def using h z q u by simp
qed

lemma rune_bytes:
  assumes "is_rune r" "1 < length r"
  shows "list_all (\<lambda>c. code c \<noteq> 34 \<and> code c \<noteq> 92 \<and> 32 \<le> code c) r"
  using assms unfolding is_rune_def rune_width_def Let_def
  by (auto split: list.splits if_splits simp: cont_def)

lemma scan_escapes:
  "scan (In_String, ps) (backslash # ''u2028'') = Some (In_String, ps)"
  "scan (In_String, ps) (backslash # ''u2029'') = Some (In_String, ps)"
  "scan (In_String, ps) (backslash # ''ufffd'') = Some (In_String, ps)"
  by (simp_all add: backslash_def code_def is_hex_def is_hex_lower_def is_digit_def)

lemma scan_json_rune:
  assumes "is_rune r"
  shows "scan (In_String, ps) (json_rune r) = Some (In_String, ps)"
proof (cases "length r = 1")
  case True
  then obtain c where "r = [c]" by (cases r) auto
  then show ?thesis by (simp add: json_rune_def scan_json_byte)
next
  case False
  then have l: "1 < length r" using assms by (cases r) (auto simp: is_rune_def)
  then have "json_rune r = r \<or> json_rune r = backslash # ''u2028'' \<or> json_rune r = backslash # ''u2029''"
    by (auto simp: json_rune_def split: list.splits)
  then show ?thesis
    using scan_string_run[OF rune_bytes[OF assms l]] scan_escapes(1,2)[of ps] by (elim disjE) simp_all
qed

lemma scan_json_chars: "scan (In_String, ps) (json_chars s) = Some (In_String, ps)"
proof (induction s rule: json_chars.induct)
  case (2 a t)
  let ?w = "rune_width (a # t)"
  show ?case
  proof (cases "?w = 0")
    case True
    have "json_chars (a # t) = (backslash # ''ufffd'') @ json_chars t" using True by simp
    then show ?thesis
      by (simp only: scan_append scan_escapes option.case 2(1)[OF refl True])
  next
    case False
    then show ?thesis
      using 2(2)[OF refl False] scan_json_rune[OF rune_width_take[OF False]]
      by (simp add: scan_append Let_def del: scan.simps take_Suc_Cons)
  qed
qed simp

definition opens_string :: "scan_state \<Rightarrow> bool" where
  "opens_string st \<longleftrightarrow> st \<in> {Begin_Value, Begin_Value_Or_Empty, Begin_String, Begin_String_Or_Empty}"

lemma scan_json_quote: "opens_string st \<Longrightarrow> scan (st, ps) (json_quote s) = Some (End_Value, ps)"
  unfolding opens_string_def json_quote_def
  by (auto simp: scan_append scan_json_chars begin_value_def begin_string_def double_quote_def is_space_def code_def)

text \<open>A value that may stand inside \<open>ps\<close> when \<open>d\<close> more levels fit.\<close>

definition json_value :: "nat \<Rightarrow> string \<Rightarrow> bool" where
  "json_value d s \<longleftrightarrow>
     (\<forall>ps. length ps + d \<le> max_nesting_depth \<longrightarrow> ps \<noteq> [] \<longrightarrow>
        scan (Begin_Value, ps) s = Some (End_Value, ps) \<and> scan (Begin_Value_Or_Empty, ps) s = Some (End_Value, ps))"

lemma json_value_quote: "json_value d (json_quote s)"
  unfolding json_value_def by (simp add: scan_json_quote opens_string_def)

lemma json_value_mono: "json_value d s \<Longrightarrow> d \<le> d' \<Longrightarrow> json_value d' s"
  unfolding json_value_def by auto

lemma scan_field:
  assumes "json_value d v" "length ps + d < max_nesting_depth" "st = Begin_String \<or> st = Begin_String_Or_Empty"
  shows "scan (st, Object_Key # ps) (json_field (k, v)) = Some (End_Value, Object_Value # ps)"
  using assms scan_json_quote[of st "Object_Key # ps" k] unfolding json_value_def
  by (auto simp: json_field_def scan_append end_value_def opens_string_def is_space_def code_def)

lemma scan_fields:
  assumes "\<forall>f \<in> set fs. json_value d (snd f)" "length ps + d < max_nesting_depth" "fs \<noteq> []"
    "st = Begin_String \<or> st = Begin_String_Or_Empty"
  shows "scan (st, Object_Key # ps) (joined (map json_field fs)) = Some (End_Value, Object_Value # ps)"
  using assms
proof (induction fs arbitrary: st rule: induct_list012)
  case (2 f)
  then show ?case using scan_field[of d "snd f" ps st "fst f"] by simp
next
  case (3 f g fs)
  have "scan (st, Object_Key # ps) (json_field f) = Some (End_Value, Object_Value # ps)"
    using 3 scan_field[of d "snd f" ps st "fst f"] by simp
  moreover have "scan (Begin_String, Object_Key # ps) (joined (map json_field (g # fs))) = Some (End_Value, Object_Value # ps)"
    using 3 by simp
  ultimately show ?case by (simp add: scan_append end_value_def is_space_def code_def)
qed simp

lemma scan_object:
  assumes "\<forall>f \<in> set fs. json_value d (snd f)" "length ps + d < max_nesting_depth"
    "st = Begin_Value \<or> st = Begin_Value_Or_Empty"
  shows "scan (st, ps) (json_object fs) = Some (if ps = [] then End_Top else End_Value, ps)"
proof -
  have b: "begin_value ps (CHR ''{'') = Some (Begin_String_Or_Empty, Object_Key # ps)"
    using assms(2) by (simp add: begin_value_def push_state_def is_space_def code_def)
  have o: "scan (st, ps) (CHR ''{'' # s) = scan (Begin_String_Or_Empty, Object_Key # ps) s" for s
    using assms(3) b by (auto simp: is_space_def code_def)
  have c: "end_value (Object_Value # ps) (CHR ''}'') = Some (if ps = [] then End_Top else End_Value, ps)"
    by (simp add: end_value_def pop_state_def is_space_def code_def)
  show ?thesis
  proof (cases "fs = []")
    case True
    have "end_value (Object_Value # ps) (CHR ''}'') = Some (if ps = [] then End_Top else End_Value, ps)" by (rule c)
    then have "scan (Begin_String_Or_Empty, Object_Key # ps) ''}'' = Some (if ps = [] then End_Top else End_Value, ps)"
      by (simp add: is_space_def code_def)
    then show ?thesis using True by (simp add: json_object_def o del: scan.simps(2))
  next
    case False
    then show ?thesis
      using scan_fields[OF assms(1,2) False, of Begin_String_Or_Empty]
      unfolding json_object_def append_Cons o by (cases "ps = []") (use c in \<open>simp_all add: scan_append\<close>)
  qed
qed

lemma json_value_object:
  assumes "\<forall>f \<in> set fs. json_value d (snd f)"
  shows "json_value (Suc d) (json_object fs)"
  unfolding json_value_def using scan_object[OF assms] by simp

lemma json_valid_object_text:
  assumes "\<forall>f \<in> set fs. json_value d (snd f)" "d < max_nesting_depth"
  shows "json_valid (json_object fs)"
  using scan_object[of fs d "[]" Begin_Value] assms by (simp add: json_valid_def scan_eof_def)

lemma scan_items:
  assumes "\<forall>v \<in> set vs. json_value d v" "length ps + d < max_nesting_depth" "vs \<noteq> []"
    "st = Begin_Value \<or> st = Begin_Value_Or_Empty"
  shows "scan (st, Array_Value # ps) (joined vs) = Some (End_Value, Array_Value # ps)"
  using assms
proof (induction vs arbitrary: st rule: induct_list012)
  case (2 v)
  then show ?case by (auto simp: json_value_def)
next
  case (3 v w vs)
  have "scan (st, Array_Value # ps) v = Some (End_Value, Array_Value # ps)"
    using 3 by (auto simp: json_value_def)
  moreover have "scan (Begin_Value, Array_Value # ps) (joined (w # vs)) = Some (End_Value, Array_Value # ps)"
    using 3 by simp
  ultimately show ?case by (simp add: scan_append end_value_def is_space_def code_def)
qed simp

lemma json_value_array:
  assumes "\<forall>v \<in> set vs. json_value d v"
  shows "json_value (Suc d) (json_array vs)"
proof -
  have "scan (st, ps) (json_array vs) = Some (End_Value, ps)"
    if ps: "length ps + Suc d \<le> max_nesting_depth" "ps \<noteq> []" and st: "st = Begin_Value \<or> st = Begin_Value_Or_Empty"
    for ps st
  proof -
    have b: "begin_value ps (CHR ''['') = Some (Begin_Value_Or_Empty, Array_Value # ps)"
      using ps by (simp add: begin_value_def push_state_def is_space_def code_def)
    have o: "scan (st, ps) (CHR ''['' # s) = scan (Begin_Value_Or_Empty, Array_Value # ps) s" for s
      using st b by (auto simp: is_space_def code_def)
    have c: "end_value (Array_Value # ps) (CHR '']'') = Some (End_Value, ps)"
      using ps(2) by (simp add: end_value_def pop_state_def is_space_def code_def)
    show ?thesis
    proof (cases "vs = []")
      case True
      then show ?thesis by (simp add: json_array_def o del: scan.simps(2)) (simp add: c is_space_def code_def)
    next
      case False
      then show ?thesis
        using scan_items[OF assms _ False, of ps Begin_Value_Or_Empty] ps(1)
        by (simp add: json_array_def o scan_append del: scan.simps(2)) (simp add: c)
    qed
  qed
  then show ?thesis unfolding json_value_def by blast
qed

end
