(* ===== verification/Context_Assembly.thy ===== *)
theory Context_Assembly
  imports Session_Model Executor_Protocol App_Config Go_Encode
begin

text \<open>
  \<open>internal/kernel/contextasm/contextasm.go\<close>: the assembly of an execution context from the messages of
  a session. Lengths and counters are HOL numbers, the budget's fields Go ints. SHA-256 and the RFC 3339
  text of a time are arguments (\<open>context_lib\<close>); the time's JSON encoding fails for a year out of range.
  The history source is the port \<open>history_source\<close>.
\<close>

section \<open>Data\<close>

datatype context_failure =
    Context_Invalid_Input | Context_Budget_Exceeded | Context_Source session_failure | Context_Encoding go_error

type_synonym 'a context_result = "context_failure + 'a"

record history_source =
  hs_list :: "string \<Rightarrow> string \<Rightarrow> message_query \<Rightarrow> message_record list sess_result"
  hs_content :: "message_record \<Rightarrow> string sess_result"

record budget =
  bg_max_messages :: int
  bg_max_chars :: int
  bg_max_total :: int
  bg_max_age :: duration
  bg_max_bytes :: int

record history_entry =
  he_message_id :: string
  he_type :: string
  he_sender :: string
  he_content :: string
  he_created_at :: instant
  he_sha :: string

record history =
  hi_entries :: "history_entry list"
  hi_trimmed :: nat
  hi_total :: nat
  hi_truncated :: nat
  hi_version :: string

record source_version =
  sv_version :: string
  sv_count :: nat
  sv_chars :: nat
  sv_trimmed :: nat

record sources =
  so_config :: source_version
  so_history :: source_version
  so_capabilities :: source_version

record snapshot =
  cx_payload :: string
  cx_digest :: string
  cx_sources :: sources
  cx_history :: history

record context_input =
  in_app_id :: string
  in_session_id :: string
  in_message_id :: string
  in_config_revision :: string
  in_channel :: string
  in_content_type :: string
  in_payload :: string
  in_capabilities :: "string list"
  in_now :: instant

text \<open>\<open>xl_sha256\<close> is the hexadecimal digest, \<open>xl_time_json\<close> the JSON text of a time, \<open>xl_time_text\<close>
  its RFC 3339 text with nanoseconds in UTC.\<close>

record context_lib =
  xl_sha256 :: "string \<Rightarrow> string"
  xl_time_json :: "instant \<Rightarrow> string go_result"
  xl_time_text :: "instant \<Rightarrow> string"

definition context_schema :: string where "context_schema = ''ailuo.context.v1''"

section \<open>Budget\<close>

definition DefaultBudget :: budget where
  "DefaultBudget =
     \<lparr>bg_max_messages = 20, bg_max_chars = 2000, bg_max_total = 12000, bg_max_age = 0, bg_max_bytes = 65536\<rparr>"

definition normalizeBudget :: "budget \<Rightarrow> budget" where
  "normalizeBudget b =
     \<lparr>bg_max_messages = (if bg_max_messages b = 0 then bg_max_messages DefaultBudget else bg_max_messages b),
      bg_max_chars = (if bg_max_chars b = 0 then bg_max_chars DefaultBudget else bg_max_chars b),
      bg_max_total = (if bg_max_total b = 0 then bg_max_total DefaultBudget else bg_max_total b),
      bg_max_age = bg_max_age b,
      bg_max_bytes = (if bg_max_bytes b = 0 then bg_max_bytes DefaultBudget else bg_max_bytes b)\<rparr>"

definition validateBudget :: "budget \<Rightarrow> bool" where
  "validateBudget b \<longleftrightarrow>
     \<not> (bg_max_messages b < 1 \<or> 1000 < bg_max_messages b \<or>
        bg_max_chars b < 1 \<or> 65536 < bg_max_chars b \<or>
        bg_max_total b < 1 \<or> 1048576 < bg_max_total b \<or>
        bg_max_bytes b < 1 \<or> 65536 < bg_max_bytes b \<or>
        bg_max_age b \<noteq> 0 \<and> bg_max_age b < second)"

text \<open>\<open>New\<close>, for a source that is not nil; \<open>None\<close> is its error.\<close>

definition new_assembler :: "budget \<Rightarrow> budget option" where
  "new_assembler b = (let n = normalizeBudget b in if validateBudget n then Some n else None)"

section \<open>Input\<close>

definition validateInput :: "context_input \<Rightarrow> unit context_result" where
  "validateInput i =
     (if \<not> valid_stable_id (in_app_id i) then Inl Context_Invalid_Input
      else if in_session_id i \<noteq> [] \<and> \<not> valid_stable_id (in_session_id i) then Inl Context_Invalid_Input
      else if in_message_id i \<noteq> [] \<and> \<not> valid_stable_id (in_message_id i) then Inl Context_Invalid_Input
      else if TrimSpace (in_config_revision i) = [] then Inl Context_Invalid_Input
      else if \<not> ValidContentType (in_content_type i) then Inl Context_Invalid_Input
      else if length (in_payload i) = 0 \<or> MaxInputPayloadBytes < length (in_payload i) then Inl Context_Invalid_Input
      else if is_zero (in_now i) then Inl Context_Invalid_Input
      else if list_ex (\<lambda>c. c = [] \<or> 256 < length c \<or> \<not> utf8_valid c) (in_capabilities i)
        then Inl Context_Invalid_Input
      else Inr ())"

section \<open>Digests\<close>

definition nullable_array :: "string list \<Rightarrow> string" where
  "nullable_array vs = (if vs = [] then ''null'' else json_array (map json_quote vs))"

definition digest_entry :: "context_lib \<Rightarrow> history_entry \<Rightarrow> string" where
  "digest_entry lib e =
     json_object
       [(''message_id'', json_quote (he_message_id e)), (''type'', json_quote (he_type e)),
        (''content_sha256'', json_quote (he_sha e)),
        (''created_at'', json_quote (xl_time_text lib (he_created_at e)))]"

definition digestEntries :: "context_lib \<Rightarrow> history_entry list \<Rightarrow> string" where
  "digestEntries lib es = json_array (map (digest_entry lib) es)"

definition computeHistoryVersion :: "context_lib \<Rightarrow> history_entry list \<Rightarrow> string" where
  "computeHistoryVersion lib es = xl_sha256 lib (digestEntries lib es)"

definition stringListVersion :: "context_lib \<Rightarrow> string list \<Rightarrow> string" where
  "stringListVersion lib vs = xl_sha256 lib (nullable_array vs)"

definition computeDigest :: "context_lib \<Rightarrow> context_input \<Rightarrow> history \<Rightarrow> string" where
  "computeDigest lib i h =
     xl_sha256 lib
       (json_object
          ([(''app_id'', json_quote (in_app_id i)), (''config_revision'', json_quote (in_config_revision i))] @
           optional_field ''channel'' (in_channel i) @
           [(''input_content_type'', json_quote (in_content_type i)),
            (''input_sha256'', json_quote (xl_sha256 lib (in_payload i))),
            (''history'', digestEntries lib (hi_entries h)),
            (''capabilities'', nullable_array (sort (in_capabilities i)))]))"

section \<open>History\<close>

text \<open>The UTF-8 bytes of the labels.\<close>

definition utf8_text :: "nat list \<Rightarrow> string" where
  "utf8_text bs = map char_of bs"

definition senderLabel :: "string \<Rightarrow> string" where
  "senderLabel t =
     (if t = MessageTypeImage
        then utf8_text [0xE5, 0x9B, 0xBE, 0xE7, 0x89, 0x87, 0xE6, 0xB6, 0x88, 0xE6, 0x81, 0xAF]
      else if t = MessageTypeFile
        then utf8_text [0xE6, 0x96, 0x87, 0xE4, 0xBB, 0xB6, 0xE6, 0xB6, 0x88, 0xE6, 0x81, 0xAF]
      else if t = MessageTypeSystem \<or> t = MessageTypeEvent
        then utf8_text [0xE7, 0xB3, 0xBB, 0xE7, 0xBB, 0x9F, 0xE6, 0xB6, 0x88, 0xE6, 0x81, 0xAF]
      else utf8_text [0xE7, 0x94, 0xA8, 0xE6, 0x88, 0xB7])"

text \<open>\<open>None\<close> is a message left out: its content has gone since the listing.\<close>

definition buildEntry ::
  "context_lib \<Rightarrow> history_source \<Rightarrow> budget \<Rightarrow> message_record \<Rightarrow> (history_entry \<times> nat) option context_result" where
  "buildEntry lib src b m =
     (let entry = \<lparr>he_message_id = mg_id m, he_type = mg_type m, he_sender = senderLabel (mg_type m),
                   he_content = [], he_created_at = mg_created_at m, he_sha = []\<rparr> in
      if mg_type m \<noteq> MessageTypeText then Inr (Some (entry, 0))
      else case hs_content src m of
          Inl e \<Rightarrow> if e = Sess Sess_MessageNotFound then Inr None else Inl (Context_Source e)
        | Inr content \<Rightarrow>
            let n = rune_count content; kept = nat (bg_max_chars b) in
            Inr (Some (entry\<lparr>he_sha := xl_sha256 lib content, he_content := take_runes kept content\<rparr>,
                       if bg_max_chars b < int n then n - kept else 0)))"

fun build_entries ::
  "context_lib \<Rightarrow> history_source \<Rightarrow> budget \<Rightarrow> message_record list \<Rightarrow> (history_entry list \<times> nat) context_result"
where
  "build_entries lib src b [] = Inr ([], 0)"
| "build_entries lib src b (m # ms) =
     (case buildEntry lib src b m of
        Inl e \<Rightarrow> Inl e
      | Inr found \<Rightarrow>
          (case build_entries lib src b ms of
             Inl e \<Rightarrow> Inl e
           | Inr (es, n) \<Rightarrow>
               Inr (case found of None \<Rightarrow> (es, n) | Some (e, k) \<Rightarrow> (e # es, k + n))))"

definition totalChars :: "history_entry list \<Rightarrow> nat" where
  "totalChars es = sum_list (map (\<lambda>e. rune_count (he_content e)) es)"

text \<open>The two trimming loops: the entries kept and the number dropped, oldest first.\<close>

fun trim_messages :: "int \<Rightarrow> history_entry list \<Rightarrow> nat \<Rightarrow> history_entry list \<times> nat" where
  "trim_messages n [] k = ([], k)"
| "trim_messages n (e # es) k =
     (if n < int (length (e # es)) then trim_messages n es (Suc k) else (e # es, k))"

fun trim_chars :: "int \<Rightarrow> history_entry list \<Rightarrow> nat \<Rightarrow> history_entry list \<times> nat" where
  "trim_chars n [] k = ([], k)"
| "trim_chars n (e # es) k =
     (if n < int (totalChars (e # es)) then trim_chars n es (Suc k) else (e # es, k))"

definition history_candidate :: "budget \<Rightarrow> context_input \<Rightarrow> message_record \<Rightarrow> bool" where
  "history_candidate b i m \<longleftrightarrow>
     mg_id m \<noteq> in_message_id i \<and> \<not> (0 < bg_max_age b \<and> bg_max_age b < in_now i - mg_created_at m)"

definition assembleHistory ::
  "context_lib \<Rightarrow> history_source \<Rightarrow> budget \<Rightarrow> context_input \<Rightarrow> history context_result" where
  "assembleHistory lib src b i =
     (if in_session_id i = [] then
        Inr \<lparr>hi_entries = [], hi_trimmed = 0, hi_total = 0, hi_truncated = 0, hi_version = computeHistoryVersion lib []\<rparr>
      else case hs_list src (in_app_id i) (in_session_id i)
                  \<lparr>mq_sender = [], mq_descending = True, mq_limit = bg_max_messages b + 1\<rparr> of
          Inl e \<Rightarrow> Inl (Context_Source e)
        | Inr messages \<Rightarrow>
            (case build_entries lib src b (rev (filter (history_candidate b i) messages)) of
               Inl e \<Rightarrow> Inl e
             | Inr (es, truncated) \<Rightarrow>
                 let (es1, k1) = trim_messages (bg_max_messages b) es 0;
                     (es2, k2) = trim_chars (bg_max_total b) es1 k1 in
                 Inr \<lparr>hi_entries = es2, hi_trimmed = k2, hi_total = totalChars es2, hi_truncated = truncated,
                      hi_version = computeHistoryVersion lib es2\<rparr>))"

definition dropOldest :: "context_lib \<Rightarrow> history \<Rightarrow> history" where
  "dropOldest lib h =
     (case hi_entries h of
        [] \<Rightarrow> h
      | dropped # es \<Rightarrow>
          h\<lparr>hi_entries := es, hi_trimmed := Suc (hi_trimmed h),
            hi_total := hi_total h - rune_count (he_content dropped), hi_version := computeHistoryVersion lib es\<rparr>)"

section \<open>Payload\<close>

definition entry_json :: "context_lib \<Rightarrow> history_entry \<Rightarrow> string go_result" where
  "entry_json lib e =
     and_then (xl_time_json lib (he_created_at e)) (\<lambda>time.
       Inr (json_object
         [(''MessageID'', json_quote (he_message_id e)), (''Type'', json_quote (he_type e)),
          (''Sender'', json_quote (he_sender e)), (''Content'', json_quote (he_content e)),
          (''CreatedAt'', time), (''ContentSHA'', json_quote (he_sha e))]))"

fun entries_json :: "context_lib \<Rightarrow> history_entry list \<Rightarrow> string list go_result" where
  "entries_json lib [] = Inr []"
| "entries_json lib (e # es) = and_then (entry_json lib e) (\<lambda>t. and_then (entries_json lib es) (\<lambda>ts. Inr (t # ts)))"

definition context_block :: "string \<Rightarrow> string \<Rightarrow> string" where
  "context_block kind payload = json_object [(''type'', json_quote kind), (''payload'', payload)]"

definition renderContext :: "context_lib \<Rightarrow> context_input \<Rightarrow> history \<Rightarrow> string go_result" where
  "renderContext lib i h =
     (let metadata = context_block ''execution.metadata'' (json_object (optional_field ''channel'' (in_channel i)));
          envelope = (\<lambda>blocks. json_object
            [(''schema_version'', json_quote context_schema), (''blocks'', json_array blocks)]) in
      if hi_entries h = [] then Inr (envelope [metadata])
      else and_then (entries_json lib (hi_entries h)) (\<lambda>ts.
             Inr (envelope [metadata,
               context_block ''conversation.history'' (json_object [(''entries'', json_array ts)])])))"

section \<open>Assembly\<close>

definition buildSources :: "context_lib \<Rightarrow> context_input \<Rightarrow> history \<Rightarrow> sources" where
  "buildSources lib i h =
     \<lparr>so_config = \<lparr>sv_version = in_config_revision i, sv_count = 1, sv_chars = 0, sv_trimmed = 0\<rparr>,
      so_history = \<lparr>sv_version = hi_version h, sv_count = length (hi_entries h), sv_chars = hi_total h,
                    sv_trimmed = hi_trimmed h\<rparr>,
      so_capabilities = \<lparr>sv_version = stringListVersion lib (sort (in_capabilities i)),
                         sv_count = length (in_capabilities i), sv_chars = 0, sv_trimmed = 0\<rparr>\<rparr>"

definition source_json :: "source_version \<Rightarrow> string" where
  "source_json v =
     json_object
       ((''version'', json_quote (sv_version v)) #
        optional_number ''count'' (sv_count v) @ optional_number ''chars'' (sv_chars v) @
        optional_number ''trimmed'' (sv_trimmed v))"

definition SourcesJSON :: "snapshot \<Rightarrow> string" where
  "SourcesJSON s =
     (let v = cx_sources s in
      json_object [(''config'', source_json (so_config v)), (''history'', source_json (so_history v)),
                   (''capabilities'', source_json (so_capabilities v))])"

text \<open>The loop of \<open>Assemble\<close>: the oldest entry goes until the payload fits or none is left.\<close>

function fit_payload :: "context_lib \<Rightarrow> budget \<Rightarrow> context_input \<Rightarrow> history \<Rightarrow> (string \<times> history) go_result" where
  "fit_payload lib b i h =
     (case renderContext lib i h of
        Inl e \<Rightarrow> Inl e
      | Inr payload \<Rightarrow>
          if bg_max_bytes b < int (length payload) \<and> hi_entries h \<noteq> []
          then fit_payload lib b i (dropOldest lib h)
          else Inr (payload, h))"
  by pat_completeness auto
termination
  by (relation "measure (\<lambda>(lib, b, i, h). length (hi_entries h))") (auto simp: dropOldest_def split: list.splits)

declare fit_payload.simps [simp del]

definition Assemble ::
  "context_lib \<Rightarrow> history_source \<Rightarrow> budget \<Rightarrow> context_input \<Rightarrow> snapshot context_result" where
  "Assemble lib src b i =
     (case validateInput i of
        Inl e \<Rightarrow> Inl e
      | Inr _ \<Rightarrow>
          (case assembleHistory lib src b i of
             Inl e \<Rightarrow> Inl e
           | Inr h \<Rightarrow>
               (case fit_payload lib b i h of
                  Inl e \<Rightarrow> Inl (Context_Encoding e)
                | Inr (payload, h') \<Rightarrow>
                    if bg_max_bytes b < int (length payload) then Inl Context_Budget_Exceeded
                    else Inr \<lparr>cx_payload = payload, cx_digest = computeDigest lib i h',
                              cx_sources = buildSources lib i h', cx_history = h'\<rparr>)))"

end
