(* ===== verification/Context_Guarantees.thy ===== *)
theory Context_Guarantees
  imports Context_Assembly
begin

text \<open>
  What an assembled context promises: its history is the longest run of newest messages that fits the
  budget, whatever the order in which the code's loops shorten it; the payload is valid JSON within the
  byte limit; and no entry stands for a message outside the listing, the current one or one too old.
\<close>

section \<open>Reference definition\<close>

text \<open>One predicate for the three limits, and the longest suffix that satisfies it.\<close>

definition payload_fits :: "context_lib \<Rightarrow> budget \<Rightarrow> context_input \<Rightarrow> history_entry list \<Rightarrow> bool" where
  "payload_fits lib b i es =
     (case renderContext lib i \<lparr>hi_entries = es, hi_trimmed = 0, hi_total = 0, hi_truncated = 0, hi_version = []\<rparr> of
        Inl _ \<Rightarrow> False
      | Inr payload \<Rightarrow> int (length payload) \<le> bg_max_bytes b)"

definition history_fits :: "context_lib \<Rightarrow> budget \<Rightarrow> context_input \<Rightarrow> history_entry list \<Rightarrow> bool" where
  "history_fits lib b i es \<longleftrightarrow>
     int (length es) \<le> bg_max_messages b \<and> int (totalChars es) \<le> bg_max_total b \<and> payload_fits lib b i es"

fun longest_suffix :: "('a list \<Rightarrow> bool) \<Rightarrow> 'a list \<Rightarrow> 'a list" where
  "longest_suffix P [] = []"
| "longest_suffix P (x # xs) = (if P (x # xs) then x # xs else longest_suffix P xs)"

lemma longest_suffix_holds: "P [] \<Longrightarrow> P (longest_suffix P xs)"
  by (induction xs) auto

lemma longest_suffix_drop: "longest_suffix P xs = drop (length xs - length (longest_suffix P xs)) xs"
proof (induction xs)
  case (Cons x xs)
  have "length (longest_suffix P xs) \<le> length xs" using Cons by (metis diff_le_self length_drop)
  then show ?case using Cons by (simp add: Suc_diff_le)
qed simp

lemma longest_suffix_conj:
  assumes "\<And>x xs. Q (x # xs) \<Longrightarrow> Q xs" "Q []"
  shows "longest_suffix (\<lambda>ys. Q ys \<and> R ys) xs = longest_suffix R (longest_suffix Q xs)"
  using assms by (induction xs) (auto elim: longest_suffix.elims)

lemma longest_suffix_absorb:
  assumes "\<And>x xs. Q (x # xs) \<Longrightarrow> Q xs" "Q xs"
  shows "longest_suffix (\<lambda>ys. Q ys \<and> R ys) xs = longest_suffix R xs"
  using assms by (induction xs) auto

section \<open>The loops\<close>

lemma trim_messages_suffix:
  "0 \<le> n \<Longrightarrow> trim_messages n es k =
     (longest_suffix (\<lambda>ys. int (length ys) \<le> n) es,
      k + (length es - length (longest_suffix (\<lambda>ys. int (length ys) \<le> n) es)))"
proof (induction es arbitrary: k)
  case (Cons e es)
  have "length (longest_suffix (\<lambda>ys. int (length ys) \<le> n) es) \<le> length es"
    using longest_suffix_drop[of _ es] by (metis diff_le_self length_drop)
  then show ?case using Cons by (simp add: not_less Suc_diff_le)
qed simp

lemma trim_chars_suffix:
  "trim_chars n es k =
     (longest_suffix (\<lambda>ys. int (totalChars ys) \<le> n) es,
      k + (length es - length (longest_suffix (\<lambda>ys. int (totalChars ys) \<le> n) es)))"
proof (induction es arbitrary: k)
  case (Cons e es)
  have "length (longest_suffix (\<lambda>ys. int (totalChars ys) \<le> n) es) \<le> length es"
    using longest_suffix_drop[of _ es] by (metis diff_le_self length_drop)
  then show ?case using Cons by (simp add: not_less Suc_diff_le)
qed simp

lemma render_entries_only: "hi_entries h = hi_entries h' \<Longrightarrow> renderContext lib i h = renderContext lib i h'"
  by (simp only: renderContext_def)

text \<open>An accurate history: its counter is the sum over its entries, its version that of its entries.\<close>

definition accurate :: "context_lib \<Rightarrow> history \<Rightarrow> bool" where
  "accurate lib h \<longleftrightarrow> hi_total h = totalChars (hi_entries h) \<and> hi_version h = computeHistoryVersion lib (hi_entries h)"

lemma dropOldest_accurate: "accurate lib h \<Longrightarrow> accurate lib (dropOldest lib h)"
  by (auto simp: accurate_def dropOldest_def totalChars_def split: list.splits)

lemma fit_payload_suffix:
  "accurate lib h \<Longrightarrow> fit_payload lib b i h = Inr (payload, h') \<Longrightarrow> int (length payload) \<le> bg_max_bytes b \<Longrightarrow>
     accurate lib h' \<and> renderContext lib i h' = Inr payload \<and>
     hi_entries h' = longest_suffix (payload_fits lib b i) (hi_entries h)"
proof (induction lib b i h arbitrary: payload h' rule: fit_payload.induct)
  case (1 lib b i h)
  obtain p where p: "renderContext lib i h = Inr p"
    using 1(3) by (cases "renderContext lib i h") (simp_all add: fit_payload.simps[of lib b i h])
  have pf: "payload_fits lib b i (hi_entries h) \<longleftrightarrow> int (length p) \<le> bg_max_bytes b"
    using p render_entries_only[of h "\<lparr>hi_entries = hi_entries h, hi_trimmed = 0, hi_total = 0, hi_truncated = 0, hi_version = []\<rparr>" lib i]
    by (simp add: payload_fits_def)
  show ?case
  proof (cases "bg_max_bytes b < int (length p) \<and> hi_entries h \<noteq> []")
    case True
    then obtain e es where es: "hi_entries h = e # es" by (cases "hi_entries h") auto
    then have d: "hi_entries (dropOldest lib h) = es" by (simp add: dropOldest_def)
    have "fit_payload lib b i (dropOldest lib h) = Inr (payload, h')"
      using 1(3) p True by (simp add: fit_payload.simps[of lib b i h])
    from 1(1)[OF p True dropOldest_accurate[OF 1(2)] this 1(4)]
    show ?thesis using d es pf True by simp
  next
    case False
    then have "payload = p" "h' = h" using 1(3) p by (auto simp: fit_payload.simps[of lib b i h])
    then show ?thesis using 1 p pf by (cases "hi_entries h") auto
  qed
qed

section \<open>Equivalence with the reference\<close>

text \<open>The entries that the candidates of a listing give, oldest first.\<close>

definition candidate_entries ::
  "context_lib \<Rightarrow> history_source \<Rightarrow> budget \<Rightarrow> context_input \<Rightarrow> history_entry list context_result" where
  "candidate_entries lib src b i =
     (if in_session_id i = [] then Inr []
      else case hs_list src (in_app_id i) (in_session_id i)
                  \<lparr>mq_sender = [], mq_descending = True, mq_limit = bg_max_messages b + 1\<rparr> of
          Inl e \<Rightarrow> Inl (Context_Source e)
        | Inr messages \<Rightarrow>
            (case build_entries lib src b (rev (filter (history_candidate b i) messages)) of
               Inl e \<Rightarrow> Inl e | Inr (es, _) \<Rightarrow> Inr es))"

lemma new_assembler_bounds:
  "new_assembler b0 = Some b \<Longrightarrow>
     1 \<le> bg_max_messages b \<and> 1 \<le> bg_max_chars b \<and> 1 \<le> bg_max_total b \<and> 1 \<le> bg_max_bytes b \<and> bg_max_bytes b \<le> 65536"
  by (auto simp: new_assembler_def validateBudget_def Let_def split: if_splits)

lemma assembleHistory_suffix:
  assumes "assembleHistory lib src b i = Inr h" "1 \<le> bg_max_messages b" "1 \<le> bg_max_total b"
  obtains es where "candidate_entries lib src b i = Inr es" "accurate lib h"
    "hi_entries h = longest_suffix (\<lambda>ys. int (length ys) \<le> bg_max_messages b \<and> int (totalChars ys) \<le> bg_max_total b) es"
proof (cases "in_session_id i = []")
  case True
  then show ?thesis using assms that[of "[]"] by (auto simp: assembleHistory_def candidate_entries_def accurate_def totalChars_def)
next
  case False
  let ?Q = "\<lambda>ys :: history_entry list. int (length ys) \<le> bg_max_messages b"
  let ?R = "\<lambda>ys. int (totalChars ys) \<le> bg_max_total b"
  obtain ms es n where ms: "hs_list src (in_app_id i) (in_session_id i)
        \<lparr>mq_sender = [], mq_descending = True, mq_limit = bg_max_messages b + 1\<rparr> = Inr ms"
    and es: "build_entries lib src b (rev (filter (history_candidate b i) ms)) = Inr (es, n)"
    using assms(1) False by (auto simp: assembleHistory_def split: sum.splits)
  have "hi_entries h = longest_suffix ?R (longest_suffix ?Q es)" "accurate lib h"
    using assms False ms es
    by (auto simp: assembleHistory_def trim_messages_suffix trim_chars_suffix accurate_def Let_def)
  moreover have "longest_suffix ?R (longest_suffix ?Q es) = longest_suffix (\<lambda>ys. ?Q ys \<and> ?R ys) es"
    by (rule longest_suffix_conj[symmetric]) (use assms in auto)
  ultimately show ?thesis using that[of es] False ms es by (simp add: candidate_entries_def)
qed

lemma Assemble_parts:
  assumes "Assemble lib src b i = Inr s"
  obtains h where "validateInput i = Inr ()" "assembleHistory lib src b i = Inr h"
    "fit_payload lib b i h = Inr (cx_payload s, cx_history s)" "int (length (cx_payload s)) \<le> bg_max_bytes b"
    "cx_digest s = computeDigest lib i (cx_history s)" "cx_sources s = buildSources lib i (cx_history s)"
  using assms by (auto simp: Assemble_def split: sum.splits if_splits)

lemma assembled_suffix:
  assumes "new_assembler b0 = Some b" "Assemble lib src b i = Inr s"
  obtains es where "candidate_entries lib src b i = Inr es"
    "hi_entries (cx_history s) = longest_suffix (history_fits lib b i) es"
    "accurate lib (cx_history s)" "renderContext lib i (cx_history s) = Inr (cx_payload s)"
proof -
  note bounds = new_assembler_bounds[OF assms(1)]
  from assms(2) obtain h where h: "assembleHistory lib src b i = Inr h"
      "fit_payload lib b i h = Inr (cx_payload s, cx_history s)" "int (length (cx_payload s)) \<le> bg_max_bytes b"
    by (rule Assemble_parts)
  let ?Q = "\<lambda>ys. int (length ys) \<le> bg_max_messages b \<and> int (totalChars ys) \<le> bg_max_total b"
  from h(1) bounds obtain es where es: "candidate_entries lib src b i = Inr es" "accurate lib h"
      "hi_entries h = longest_suffix ?Q es" by (elim assembleHistory_suffix) auto
  have f: "accurate lib (cx_history s)" "renderContext lib i (cx_history s) = Inr (cx_payload s)"
      "hi_entries (cx_history s) = longest_suffix (payload_fits lib b i) (hi_entries h)"
    using fit_payload_suffix[OF es(2) h(2,3)] by auto
  have "longest_suffix (payload_fits lib b i) (longest_suffix ?Q es) = longest_suffix (\<lambda>ys. ?Q ys \<and> payload_fits lib b i ys) es"
    by (rule longest_suffix_conj[symmetric]) (use bounds in \<open>auto simp: totalChars_def\<close>)
  then show ?thesis using that[OF es(1) _ f(1,2)] f(3) es(3) by (simp add: history_fits_def[abs_def] conj_assoc)
qed

text \<open>C28: 
  The three loops of the assembly (by count, by characters with a running total, and by the size of the
  rendered payload) keep exactly the longest run of newest messages that satisfies all limits at once.
\<close>

theorem context_keeps_longest_history:
  assumes "new_assembler b0 = Some b" "Assemble lib src b i = Inr s"
  shows "\<exists>es. candidate_entries lib src b i = Inr es \<and>
    hi_entries (cx_history s) = longest_suffix (history_fits lib b i) es"
  by (rule assembled_suffix[OF assms]) blast

text \<open>A session of four messages under a budget that leaves room for the text of the last two.\<close>

definition sample_context_lib :: context_lib where
  "sample_context_lib =
     \<lparr>xl_sha256 = (\<lambda>s. decimal (length s)), xl_time_json = (\<lambda>t. Inr (json_quote (decimal (nat t)))),
      xl_time_text = (\<lambda>t. decimal (nat t))\<rparr>"

definition sample_said :: "string \<Rightarrow> string \<Rightarrow> instant \<Rightarrow> message_record" where
  "sample_said mid kind at =
     \<lparr>mg_app_id = ''app'', mg_session_id = ''s1'', mg_id = mid, mg_sender = ''u1'', mg_type = kind,
      mg_content_ref = \<lparr>ct_mode = ContentModeInline, ct_blob_id = [], ct_size = 4\<rparr>, mg_reply_to = [],
      mg_platform_id = [], mg_created_at = at, mg_edited_at = None, mg_deleted_at = None\<rparr>"

definition sample_history :: history_source where
  "sample_history =
     \<lparr>hs_list = (\<lambda>app sid q. Inr
        [sample_said ''m4'' ''text'' 40, sample_said ''m3'' ''text'' 30, sample_said ''m2'' ''image'' 20, sample_said ''m1'' ''text'' 10]),
      hs_content = (\<lambda>m. Inr (mg_id m @ '': hello''))\<rparr>"

definition sample_budget :: budget where
  "sample_budget = \<lparr>bg_max_messages = 3, bg_max_chars = 5, bg_max_total = 9, bg_max_age = 0, bg_max_bytes = 0\<rparr>"

definition sample_input :: context_input where
  "sample_input =
     \<lparr>in_app_id = ''app'', in_session_id = ''s1'', in_message_id = ''m4'', in_config_revision = ''r1'', in_channel = ''web'',
      in_content_type = ''text/plain'', in_payload = ''hi'', in_capabilities = [''b@1'', ''a@1''], in_now = 50\<rparr>"

definition sample_kept :: history where
  "sample_kept =
     \<lparr>hi_entries =
        [\<lparr>he_message_id = ''m2'', he_type = ''image'', he_sender = senderLabel ''image'', he_content = [],
          he_created_at = 20, he_sha = []\<rparr>,
         \<lparr>he_message_id = ''m3'', he_type = ''text'', he_sender = senderLabel ''text'', he_content = ''m3: h'',
          he_created_at = 30, he_sha = ''9''\<rparr>],
      hi_trimmed = 1, hi_total = 5, hi_truncated = 8,
      hi_version = computeHistoryVersion sample_context_lib
        [\<lparr>he_message_id = ''m2'', he_type = ''image'', he_sender = senderLabel ''image'', he_content = [],
          he_created_at = 20, he_sha = []\<rparr>,
         \<lparr>he_message_id = ''m3'', he_type = ''text'', he_sender = senderLabel ''text'', he_content = ''m3: h'',
          he_created_at = 30, he_sha = ''9''\<rparr>]\<rparr>"

abbreviation sample_limits :: budget where
  "sample_limits \<equiv> sample_budget\<lparr>bg_max_bytes := 65536\<rparr>"

lemma sample_history_kept:
  "assembleHistory sample_context_lib sample_history sample_limits sample_input = Inr sample_kept"
  by code_simp

lemma sample_rendered:
  "case renderContext sample_context_lib sample_input sample_kept of
     Inl _ \<Rightarrow> False | Inr p \<Rightarrow> int (length p) \<le> bg_max_bytes sample_limits"
  by code_simp

lemma sample_input_valid: "validateInput sample_input = Inr ()"
  by code_simp

lemma sample_new: "new_assembler sample_budget = Some sample_limits"
  by (simp add: new_assembler_def normalizeBudget_def validateBudget_def sample_budget_def DefaultBudget_def Let_def)

lemma sample_snapshot:
  obtains s where "Assemble sample_context_lib sample_history sample_limits sample_input = Inr s"
    "map he_message_id (hi_entries (cx_history s)) = [''m2'', ''m3'']"
proof -
  obtain p where p: "renderContext sample_context_lib sample_input sample_kept = Inr p"
      "int (length p) \<le> bg_max_bytes sample_limits"
    using sample_rendered by (auto split: sum.splits)
  then have "fit_payload sample_context_lib sample_limits sample_input sample_kept = Inr (p, sample_kept)"
    by (simp add: fit_payload.simps)
  then show thesis
    using that p sample_history_kept sample_input_valid by (simp add: Assemble_def) (simp add: sample_kept_def)
qed

theorem context_keeps_longest_history_witness:
  "\<exists>s es. Assemble sample_context_lib sample_history sample_limits sample_input = Inr s \<and>
     map he_message_id (hi_entries (cx_history s)) = [''m2'', ''m3''] \<and>
     hi_entries (cx_history s) =
       longest_suffix (history_fits sample_context_lib sample_limits sample_input) es"
proof -
  obtain s where s: "Assemble sample_context_lib sample_history sample_limits sample_input = Inr s"
      "map he_message_id (hi_entries (cx_history s)) = [''m2'', ''m3'']"
    by (rule sample_snapshot)
  from context_keeps_longest_history[OF sample_new s(1)] obtain es where
    "hi_entries (cx_history s) = longest_suffix (history_fits sample_context_lib sample_limits sample_input) es" by blast
  with s show ?thesis by (intro exI[of _ s] exI[of _ es] conjI)
qed

section \<open>The payload\<close>

text \<open>What \<open>encoding/json\<close> promises of a time: a JSON value.\<close>

definition time_encoder :: "context_lib \<Rightarrow> bool" where
  "time_encoder lib \<longleftrightarrow> (\<forall>t s. xl_time_json lib t = Inr s \<longrightarrow> json_value 0 s)"

lemma entry_json_value: "time_encoder lib \<Longrightarrow> entry_json lib e = Inr s \<Longrightarrow> json_value 1 s"
  unfolding entry_json_def time_encoder_def
  by (auto simp: and_then_Inr json_value_quote intro!: json_value_object[of _ 0, simplified])

lemma entries_json_values: "time_encoder lib \<Longrightarrow> entries_json lib es = Inr ts \<Longrightarrow> \<forall>t \<in> set ts. json_value 1 t"
  by (induction es arbitrary: ts) (auto simp: and_then_Inr dest: entry_json_value[simplified])

lemma context_block_value: "json_value d payload \<Longrightarrow> json_value (Suc d) (context_block kind payload)"
  unfolding context_block_def by (rule json_value_object) (simp add: json_value_quote)

lemma rendered_valid:
  assumes "time_encoder lib" "renderContext lib i h = Inr payload"
  shows "json_valid payload"
proof -
  have metadata: "json_value 5 (context_block ''execution.metadata'' (json_object (optional_field ''channel'' (in_channel i))))"
    by (rule json_value_mono[OF context_block_value[of 1]])
      (use json_value_object[of "optional_field ''channel'' (in_channel i)" 0] in \<open>simp_all add: optional_field_def json_value_quote\<close>)
  have envelope: "json_valid (json_object [(''schema_version'', json_quote context_schema), (''blocks'', json_array blocks)])"
    if "\<forall>v \<in> set blocks. json_value 5 v" for blocks
    by (rule json_valid_object_text[of _ 6]) (use json_value_array[OF that] in \<open>simp_all add: json_value_quote max_nesting_depth_def\<close>)
  have history: "json_value 5 (context_block ''conversation.history'' (json_object [(''entries'', json_array ts)]))"
    if "\<forall>t \<in> set ts. json_value 1 t" for ts
    by (rule json_value_mono[OF context_block_value[OF json_value_object[of _ 2]]])
      (use json_value_array[OF that] in \<open>simp_all add: numeral_2_eq_2\<close>)
  show ?thesis
    using assms metadata envelope history entries_json_values[OF assms(1)]
    by (auto simp: renderContext_def Let_def and_then_Inr split: if_splits)
qed

lemma context_payload_fits:
  assumes "new_assembler b0 = Some b" "Assemble lib src b i = Inr s"
  shows "validPayload (Some \<lparr>pl_content_type = ''application/ailuo.context+json'', pl_data = cx_payload s, pl_unknown = []\<rparr>)
    False MaxContextPayloadBytes"
proof -
  have "int (length (cx_payload s)) \<le> bg_max_bytes b" using assms(2) by (rule Assemble_parts)
  then have "length (cx_payload s) \<le> 65536" using new_assembler_bounds[OF assms(1)] by simp
  moreover have "ValidContentType ''application/ailuo.context+json''" by code_simp
  moreover obtain es where "renderContext lib i (cx_history s) = Inr (cx_payload s)"
    using assms by (elim assembled_suffix)
  then have "cx_payload s \<noteq> []"
    by (auto simp: renderContext_def json_object_def Let_def and_then_Inr split: if_splits)
  ultimately show ?thesis
    by (auto simp: validPayload_def MaxContextPayloadBytes_def)
qed

text \<open>
  The payload handed to the executor satisfies what the start frame's validator asks of a context
  payload, and it is valid JSON. The sender of the frame relies on both.
\<close>

theorem context_payload_accepted:
  assumes "new_assembler b0 = Some b" "time_encoder lib" "Assemble lib src b i = Inr s"
  shows "json_valid (cx_payload s) \<and>
    validPayload (Some \<lparr>pl_content_type = ''application/ailuo.context+json'', pl_data = cx_payload s, pl_unknown = []\<rparr>)
      False MaxContextPayloadBytes"
proof -
  obtain es where "renderContext lib i (cx_history s) = Inr (cx_payload s)"
    using assms by (elim assembled_suffix)
  then show ?thesis
    using rendered_valid[OF assms(2)] context_payload_fits[OF assms(1,3)] by blast
qed

theorem context_payload_accepted_witness:
  "\<exists>s. Assemble sample_context_lib sample_history sample_limits sample_input = Inr s \<and>
     json_valid (cx_payload s)"
proof -
  have "time_encoder sample_context_lib"
    by (auto simp: time_encoder_def sample_context_lib_def json_value_quote)
  then show ?thesis
    using context_payload_accepted[OF sample_new] by (rule_tac sample_snapshot) blast
qed

end
