(* ===== verification/Audit_Payload.thy ===== *)
theory Audit_Payload
  imports Go_Text Go_Json Idempotency "HOL-Library.Sublist"
begin

text \<open>
  \<open>internal/observe/audit.go\<close> and the key test of \<open>logger.go\<close>: what of the arguments of a capability
  call may enter the audit record. The JSON decoder and encoder and SHA-256 are parameters.
\<close>

definition redactedValue :: string where
  "redactedValue = ''['' @ [CHR 0xE5, CHR 0xB7, CHR 0xB2, CHR 0xE8, CHR 0x84, CHR 0xB1, CHR 0xE6, CHR 0x95, CHR 0x8F] @ '']''"

definition privateFieldNames :: "string list" where
  "privateFieldNames =
     [''arguments'', ''body'', ''content'', ''input_message'', ''message_body'', ''messages'',
      ''model_message'', ''output_message'', ''payload'', ''prompt'', ''response_body'',
      ''result_message'', ''child_result'', ''task'', ''error'', ''reason'', ''tool_arguments'',
      ''tool_result'', ''user_message'']"

text \<open>
  \<open>strings.ToLower\<close> as the tests of \<open>isSensitiveKey\<close> see it: besides the ASCII letters only U+0130 and
  U+212A lower to an ASCII letter; every other rune stays outside ASCII, where no test looks.
\<close>

definition lower_rune :: "string \<Rightarrow> string" where
  "lower_rune r =
     (if r = [CHR 0xC4, CHR 0xB0] then ''i''
      else if r = [CHR 0xE2, CHR 0x84, CHR 0xAA] then ''k''
      else map (\<lambda>c. if is_upper c then char_of (code c + 32) else c) r)"

definition normalized_key :: "string \<Rightarrow> string" where
  "normalized_key key =
     concat (map lower_rune (runes (map (\<lambda>c. if c = CHR ''-'' then CHR ''_'' else c) key)))"

definition isSensitiveKey :: "string \<Rightarrow> bool" where
  "isSensitiveKey key \<longleftrightarrow>
     (let n = normalized_key key in
      n \<in> set privateFieldNames \<or> prefix ''raw_'' n \<or>
      list_ex (\<lambda>s. suffix s n)
        [''_arguments'', ''_body'', ''_content'', ''_messages'', ''_payload'', ''_prompt''] \<or>
      list_ex (\<lambda>m. sublist m n)
        [''password'', ''passwd'', ''secret'', ''token'', ''api_key'', ''authorization'', ''cookie'', ''credential''])"

definition truncated_mark :: string where
  "truncated_mark = [CHR 0xE2, CHR 0x80, CHR 0xA6] @ ''['' @ [CHR 0xE5, CHR 0xB7, CHR 0xB2, CHR 0xE6, CHR 0x88, CHR 0xAA, CHR 0xE6, CHR 0x96, CHR 0xAD] @ '']''"

definition truncate_text :: "string \<Rightarrow> nat \<Rightarrow> string" where
  "truncate_text value max_length =
     (if rune_count value \<le> max_length then value else take_runes max_length value @ truncated_mark)"

fun sanitizeJSONValue :: "json \<Rightarrow> json" where
  "sanitizeJSONValue (J_Object members) =
     J_Object (map (\<lambda>(k, v). (k, if isSensitiveKey k then J_String redactedValue else sanitizeJSONValue v)) members)"
| "sanitizeJSONValue (J_Array vs) = J_Array (map sanitizeJSONValue vs)"
| "sanitizeJSONValue (J_String s) = J_String (truncate_text s 4096)"
| "sanitizeJSONValue v = v"

record audit_lib =
  al_decode :: json_decoder
  al_encode :: "json \<Rightarrow> string go_result"
  al_sha256 :: "string \<Rightarrow> string"

definition encoded_or_empty :: "string go_result \<Rightarrow> string" where
  "encoded_or_empty r = (case r of Inl _ \<Rightarrow> [] | Inr s \<Rightarrow> s)"

definition auditSummary :: "audit_lib \<Rightarrow> string \<Rightarrow> string \<Rightarrow> string" where
  "auditSummary lib payload reason =
     encoded_or_empty (al_encode lib (J_Object
       [(''sha256'', J_String (hex_bytes (al_sha256 lib payload))),
        ([CHR 0xE5, CHR 0x8E, CHR 0x9F, CHR 0xE5, CHR 0xA7, CHR 0x8B, CHR 0xE5, CHR 0xAD, CHR 0x97, CHR 0xE8, CHR 0x8A, CHR 0x82, CHR 0xE6, CHR 0x95, CHR 0xB0], J_Number (decimal (length payload))),
        ([CHR 0xE6, CHR 0x91, CHR 0x98, CHR 0xE8, CHR 0xA6, CHR 0x81, CHR 0xE5, CHR 0x8E, CHR 0x9F, CHR 0xE5, CHR 0x9B, CHR 0xA0], J_String reason)]))"

definition SanitizeAuditJSON :: "audit_lib \<Rightarrow> string \<Rightarrow> int \<Rightarrow> string" where
  "SanitizeAuditJSON lib payload max_bytes =
     (let limit = (if max_bytes \<le> 0 then 8192 else max_bytes) in
      case al_decode lib payload of
        Inl _ \<Rightarrow> auditSummary lib payload ''invalid_json''
      | Inr v \<Rightarrow>
          (case al_encode lib (sanitizeJSONValue v) of
             Inl _ \<Rightarrow> auditSummary lib payload ''encode_failed''
           | Inr encoded \<Rightarrow>
               if limit < int (length encoded) then auditSummary lib payload ''too_large'' else encoded))"

section \<open>Redaction\<close>

text \<open>Redacted throughout: under every sensitive key stands the placeholder, and no string is longer than
  4096 runes and the mark.\<close>

fun redacted :: "json \<Rightarrow> bool" where
  "redacted (J_Object members) \<longleftrightarrow>
     list_all (\<lambda>(k, v). if isSensitiveKey k then v = J_String redactedValue else redacted v) members"
| "redacted (J_Array vs) \<longleftrightarrow> list_all redacted vs"
| "redacted (J_String s) \<longleftrightarrow> rune_count s \<le> 4096 + rune_count truncated_mark"
| "redacted v \<longleftrightarrow> True"

lemma truncate_text_count: "rune_count (truncate_text s n) \<le> n + rune_count truncated_mark"
proof -
  have "rune_count (take_runes n s @ t) = min n (rune_count s) + rune_count t" for t
    using rune_count_append_runes[of "take n (runes s)" t] runes_are_runes
    by (simp add: take_runes_def rune_count_def min.commute) (metis in_set_takeD)
  then show ?thesis by (auto simp: truncate_text_def)
qed

lemma sanitize_redacts: "redacted (sanitizeJSONValue v)"
  by (induction v rule: sanitizeJSONValue.induct) (auto simp: list_all_iff truncate_text_count)

text \<open>An audit payload never shows what its key marks as sensitive: it is the encoding, within the limit,
  of the arguments with the placeholder under every sensitive key at every depth and with every string
  cut, or a summary that holds only their digest and length.\<close>

theorem audit_payload_redacted:
  "(\<exists>v. al_encode lib v = Inr (SanitizeAuditJSON lib payload max_bytes) \<and> redacted v \<and>
      int (length (SanitizeAuditJSON lib payload max_bytes)) \<le> (if max_bytes \<le> 0 then 8192 else max_bytes)) \<or>
   (\<exists>reason. SanitizeAuditJSON lib payload max_bytes = auditSummary lib payload reason)"
proof (cases "al_decode lib payload")
  case (Inr v)
  then show ?thesis
    using sanitize_redacts[of v]
    by (cases "al_encode lib (sanitizeJSONValue v)") (auto simp: SanitizeAuditJSON_def Let_def)
qed (auto simp: SanitizeAuditJSON_def)

end
