(* ===== verification/Run_Session.thy ===== *)
theory Run_Session
  imports Orchestrator Context_Guarantees Audit_Payload
begin

text \<open>
  \<open>internal/kernel/echo/orchestrator.go\<close>, the executor session: \<open>RunQueued\<close>, \<open>executeClaimedRun\<close> with its
  frame loop, and \<open>renewLease\<close>. The store ports work on a world of any type, which may carry the steps of
  other processes. What the session draws from its surroundings (received frames, readings of the context
  error, the outcome of a send or of the event callback, clock readings) is a list of \<open>turn\<close>s, one per
  frame; the loop consumes it and stops at the first turn that ends the Run. Logs, spans and metrics are
  not modelled.
\<close>

section \<open>Surroundings\<close>

datatype receive = Got frame | End_Of_Stream | Recv_Error go_error

text \<open>One emission of an event: the clock, and what the callback returns for the appended event (\<open>None\<close>
  also when there is no callback).\<close>

record emit_draw =
  em_at :: instant
  em_result :: "go_error option"

record 'i turn =
  tn_recv :: receive
  tn_recv_ctx :: "context_error option"
  tn_renewal :: "go_error option"
  tn_advance_ctx :: "context_error option"
  tn_call :: 'i
  tn_call_ctx :: "context_error option"
  tn_send :: "go_error option"
  tn_send_ctx :: "context_error option"
  tn_emit :: emit_draw
  tn_emit_ctx :: "context_error option"
  tn_end :: ending_draw

record start_draw =
  sd_started :: emit_draw
  sd_assembled_at :: instant
  sd_context_ctx :: "context_error option"
  sd_context :: emit_draw
  sd_context_emit_ctx :: "context_error option"
  sd_open :: "go_error option"
  sd_trace_id :: string
  sd_span_id :: string
  sd_send :: "go_error option"
  sd_running :: emit_draw
  sd_running_ctx :: "context_error option"
  sd_end :: ending_draw

text \<open>The orchestrator. \<open>rn_resolve\<close> looks a capability up in the registry, \<open>rn_size\<close> is \<open>proto.Size\<close>,
  \<open>rn_text\<close> the text of a public message, \<open>rn_invoke\<close> stands for \<open>invokeCapability\<close>.\<close>

record ('i, 'w) run_env =
  rn_config :: orch_config
  rn_lib :: orch_lib
  rn_source :: app_source
  rn_ports :: "'w run_ports"
  rn_project :: "policy_snapshot \<Rightarrow> run_record \<Rightarrow> proto_capability list"
  rn_resolve :: "string \<Rightarrow> capability_spec go_result"
  rn_context_lib :: context_lib
  rn_history :: history_source
  rn_budget :: budget
  rn_assembly_error :: "context_failure \<Rightarrow> go_error"
  rn_size :: "frame \<Rightarrow> nat"
  rn_text :: "message \<Rightarrow> string"
  rn_invoke :: "run_record \<Rightarrow> capability_call \<Rightarrow> u32 \<Rightarrow> 'i \<Rightarrow> 'w \<Rightarrow> 'w \<times> capability_result"

section \<open>Events\<close>

datatype run_event =
    Echo_Started
  | Context_Assembled snapshot nat
  | Run_Started
  | Run_Completed run_output
  | Run_Reported_Failed public_error
  | Call_Completed capability_result
  | Output_Delta run_output

fun event_type :: "run_event \<Rightarrow> string" where
  "event_type Echo_Started = ''echo.started''"
| "event_type (Context_Assembled s n) = ''run.context''"
| "event_type Run_Started = ''run.started''"
| "event_type (Run_Completed out) = ''run.completed''"
| "event_type (Run_Reported_Failed e) = ''run.failed''"
| "event_type (Call_Completed r) = ''capability.completed''"
| "event_type (Output_Delta out) = ''output.delta''"

text \<open>\<open>outputEventPayload\<close>; a Go map is encoded with its keys in order.\<close>

definition outputEventPayload :: "run_output \<Rightarrow> string" where
  "outputEventPayload out =
     json_object [(''content_type'', json_quote (out_content_type out)), (''data'', json_bytes (out_data out))]"

fun event_payload :: "('i, 'w) run_env \<Rightarrow> run_record \<Rightarrow> run_event \<Rightarrow> string" where
  "event_payload env r Echo_Started = json_object [(''app_id'', json_quote (oc_app_id (rn_config env)))]"
| "event_payload env r (Context_Assembled s n) =
     json_object
       [(''capability_count'', decimal n), (''config_revision'', json_quote (r_config_revision r)),
        (''digest'', json_quote (cx_digest s)), (''history_chars'', decimal (hi_total (cx_history s))),
        (''history_count'', decimal (length (hi_entries (cx_history s)))),
        (''history_trimmed'', decimal (hi_trimmed (cx_history s)))]"
| "event_payload env r Run_Started =
     json_object [(''attempt'', decimal (unat (r_attempt r))), (''run_id'', json_quote (r_id r))]"
| "event_payload env r (Run_Completed out) = outputEventPayload out"
| "event_payload env r (Run_Reported_Failed e) =
     json_object
       [(''attempt'', decimal (unat (r_attempt r))), (''code'', json_quote (pe_code e)),
        (''message'', json_quote (rn_text env (pe_message e))), (''retryable'', json_bool (pe_retryable e))]"
| "event_payload env r (Call_Completed res) =
     json_object
       [(''call_id'', json_quote (res_call_id res)), (''capability_id'', json_quote (res_capability_id res)),
        (''success'', json_bool (res_success res))]"
| "event_payload env r (Output_Delta out) = outputEventPayload out"

text \<open>\<open>emitEvent\<close>: a child Run tells nothing to the stream of its Echo.\<close>

definition emitEvent ::
  "('i, 'w) run_env \<Rightarrow> run_record \<Rightarrow> emit_draw \<Rightarrow> run_event \<Rightarrow> 'w \<Rightarrow> 'w \<times> go_error option" where
  "emitEvent env r ed ev w =
     (if r_parent_id r \<noteq> [] then (w, None)
      else case rp_append (rn_ports env)
             \<lparr>ev_app_id = oc_app_id (rn_config env), ev_echo_id = r_echo_id r, ev_run_id = r_id r, ev_sequence = 0,
              ev_type = event_type ev, ev_payload = event_payload env r ev, ev_created_at = em_at ed\<rparr> w of
          (w', Inl e) \<Rightarrow> (w', Some e)
        | (w', Inr _) \<Rightarrow> (w', em_result ed))"

section \<open>Ways to end\<close>

text \<open>\<open>errors.Join\<close>.\<close>

definition join_all :: "go_error option list \<Rightarrow> go_error option" where
  "join_all es = (case List.map_filter (\<lambda>e. e) es of [] \<Rightarrow> None | xs \<Rightarrow> Some (Joined xs))"

definition end_failed ::
  "('i, 'w) run_env \<Rightarrow> ending_draw \<Rightarrow> run_record \<Rightarrow> go_error option list \<Rightarrow> string \<Rightarrow> bool \<Rightarrow> 'w
     \<Rightarrow> 'w \<times> go_error option" where
  "end_failed env ed r errs c safe w =
     (case failRun (rn_config env) (ol_sha256 (rn_lib env)) (rn_ports env) ed r c safe w of
        (w', e) \<Rightarrow> (w', join_all (errs @ [e])))"

definition end_cancelled ::
  "('i, 'w) run_env \<Rightarrow> ending_draw \<Rightarrow> run_record \<Rightarrow> 'w \<Rightarrow> 'w \<times> go_error option" where
  "end_cancelled env ed r w =
     (case completeRun (rn_ports env) (ed_complete_at ed) r Run_Cancelled Echo_Cancelled no_output
             (PublicEcho ''cancelled'') w of
        (w', e) \<Rightarrow> (w', join_all [Some (Sentinel (Context_E Ctx_Canceled)), e]))"

definition end_timed_out ::
  "('i, 'w) run_env \<Rightarrow> ending_draw \<Rightarrow> run_record \<Rightarrow> 'w \<Rightarrow> 'w \<times> go_error option" where
  "end_timed_out env ed r w =
     (case completeRun (rn_ports env) (ed_complete_at ed) r Run_Timed_Out Echo_Failed no_output
             (PublicEcho ''deadline_exceeded'') w of
        (w', e) \<Rightarrow> (w', join_all [Some (Sentinel (Context_E Ctx_DeadlineExceeded)), e]))"

text \<open>After an error: a context that is done goes first; at some places only its cancellation does.\<close>

definition end_interrupted ::
  "('i, 'w) run_env \<Rightarrow> ending_draw \<Rightarrow> run_record \<Rightarrow> context_error option \<Rightarrow> go_error \<Rightarrow> string \<Rightarrow> bool \<Rightarrow> 'w
     \<Rightarrow> 'w \<times> go_error option" where
  "end_interrupted env ed r ctx err c safe w =
     (case ctx of
        Some Ctx_Canceled \<Rightarrow> end_cancelled env ed r w
      | Some Ctx_DeadlineExceeded \<Rightarrow> end_timed_out env ed r w
      | None \<Rightarrow> end_failed env ed r [Some err] c safe w)"

definition end_unless_cancelled ::
  "('i, 'w) run_env \<Rightarrow> ending_draw \<Rightarrow> run_record \<Rightarrow> context_error option \<Rightarrow> go_error \<Rightarrow> string \<Rightarrow> bool \<Rightarrow> 'w
     \<Rightarrow> 'w \<times> go_error option" where
  "end_unless_cancelled env ed r ctx err c safe w =
     (if ctx = Some Ctx_Canceled then end_cancelled env ed r w
      else end_failed env ed r [Some err] c safe w)"

section \<open>The state of a session\<close>

record session_state =
  ss_run :: run_record
  ss_final :: run_output
  ss_failure :: "public_error option"
  ss_accepted :: bool
  ss_usage :: bool
  ss_expected :: u64
  ss_kernel :: u64
  ss_seen :: "string list"
  ss_counts :: "string \<Rightarrow> u32"
  ss_safe :: bool
  ss_output :: u64

definition new_session :: "run_record \<Rightarrow> session_state" where
  "new_session r =
     \<lparr>ss_run = r, ss_final = no_output, ss_failure = None, ss_accepted = False, ss_usage = False,
      ss_expected = r_last_sequence r + 1, ss_kernel = 1, ss_seen = [], ss_counts = (\<lambda>_. 0), ss_safe = True,
      ss_output = 0\<rparr>"

datatype 'w step_result = Continue session_state 'w | Return 'w "go_error option"

definition step_return :: "'w \<times> go_error option \<Rightarrow> 'w step_result" where
  "step_return r = Return (fst r) (snd r)"

section \<open>A receive that fails\<close>

definition recv_failed ::
  "('i, 'w) run_env \<Rightarrow> 'i turn \<Rightarrow> session_state \<Rightarrow> go_error option \<Rightarrow> 'w \<Rightarrow> 'w \<times> go_error option" where
  "recv_failed env t ss recv_error w =
     (let r = ss_run ss; ed = tn_end t in
      if tn_recv_ctx t = Some Ctx_Canceled then
        (case tn_renewal t of
           Some e \<Rightarrow> end_failed env ed r [Some e] ''lease_lost'' (ss_safe ss) w
         | None \<Rightarrow> end_cancelled env ed r w)
      else if tn_recv_ctx t = Some Ctx_DeadlineExceeded then end_timed_out env ed r w
      else if recv_error = None \<and> 0 < length (out_data (ss_final ss)) then
        (case emitEvent env r (tn_emit t) (Run_Completed (ss_final ss)) w of
           (w1, Some e) \<Rightarrow> end_failed env ed r [Some e] ''event_delivery_failed'' (ss_safe ss) w1
         | (w1, None) \<Rightarrow>
             completeRun (rn_ports env) (ed_complete_at ed) r Run_Succeeded Echo_Succeeded (ss_final ss) no_error w1)
      else case (recv_error, ss_failure ss) of
        (None, Some failure) \<Rightarrow>
          (case (if canRetry (rn_config env) r failure (ss_safe ss) then (w, None)
                 else emitEvent env r (tn_emit t) (Run_Reported_Failed failure) w) of
             (w1, event_error) \<Rightarrow>
               (case failPublic (rn_config env) (ol_sha256 (rn_lib env)) (rn_ports env) ed r failure (ss_safe ss) w1 of
                  (w2, e) \<Rightarrow>
                    (w2, join_all [Some (Wrapped (Sentinel (Orchestrator_E Orch_ExecutorRunFailed))), e, event_error])))
      | _ \<Rightarrow>
          (let err = (case recv_error of None \<Rightarrow> Sentinel (Orchestrator_E Orch_NoFinalResult) | Some e \<Rightarrow> e) in
           end_failed env ed r [Some (Wrapped err)] ''executor_stream_failed'' (ss_safe ss) w))"

section \<open>Admission of a frame\<close>

abbreviation unexpected :: "go_error + 'a" where
  "unexpected \<equiv> Inl (Sentinel (Protocol_E Proto_UnexpectedFrame))"

definition admit_body :: "session_state \<Rightarrow> frame \<Rightarrow> unit go_result" where
  "admit_body ss f =
     (let r = ss_run ss in
      case fr_body f of
        Some (Body_Accepted a) \<Rightarrow> if ss_accepted ss then unexpected else ValidateRunAccepted f
      | Some (Body_Call c) \<Rightarrow>
          if \<not> ss_accepted ss then unexpected
          else and_then (ValidateCapabilityCall (Some c)) (\<lambda>_.
                 if unat (r_max_capability_calls r) \<le> length (ss_seen ss) then orch_fail Orch_CapabilityBudgetExceeded
                 else if cl_call_id c \<in> set (ss_seen ss) then Inl (Sentinel (Protocol_E Proto_DuplicateCall))
                 else Inr ())
      | Some (Body_Delta d) \<Rightarrow> if \<not> ss_accepted ss then unexpected else ValidateOutputDelta (Some d)
      | Some (Body_Final d) \<Rightarrow>
          if \<not> ss_accepted ss then unexpected
          else if \<not> ss_usage ss then unexpected
          else ValidateFinalResult (Some d)
      | Some (Body_Failure x) \<Rightarrow> if \<not> ss_accepted ss then unexpected else ValidateRunFailure (Some x)
      | Some (Body_Usage u) \<Rightarrow>
          if \<not> ss_accepted ss then unexpected
          else ValidateResourceUsage (Some u) (r_used_execution_units r) (r_used_cost r) (r_used_retries r)
                 (r_max_execution_units r) (r_max_cost r)
      | _ \<Rightarrow> unexpected)"

definition admit_frame :: "('i, 'w) run_env \<Rightarrow> session_state \<Rightarrow> frame \<Rightarrow> unit go_result" where
  "admit_frame env ss f =
     (let r = ss_run ss in
      if 0 < length (out_data (ss_final ss)) \<or> ss_failure ss \<noteq> None then unexpected
      else and_then (ValidateInboundEnvelope (rn_size env) f (r_echo_id r) (r_id r) (ss_expected ss)) (\<lambda>_.
             admit_body ss f))"

definition rejection_code :: "go_error \<Rightarrow> string" where
  "rejection_code e =
     (if err_is e (Orchestrator_E Orch_CapabilityBudgetExceeded) then ''budget_exceeded'' else ''protocol_violation'')"

text \<open>The call identifiers are recorded when the frame is admitted.\<close>

definition seen_after :: "session_state \<Rightarrow> frame \<Rightarrow> session_state" where
  "seen_after ss f =
     (case fr_body f of Some (Body_Call c) \<Rightarrow> ss\<lparr>ss_seen := cl_call_id c # ss_seen ss\<rparr> | _ \<Rightarrow> ss)"

section \<open>Advance of the stored sequence\<close>

definition advance_run :: "('i, 'w) run_env \<Rightarrow> run_record \<Rightarrow> frame \<Rightarrow> 'w \<Rightarrow> 'w \<times> unit go_result" where
  "advance_run env r f w =
     (case fr_body f of
        Some (Body_Usage u) \<Rightarrow>
          rp_usage (rn_ports env) r (fr_sequence f) (ru_execution_units u) (ru_cost u) (ru_retries u) w
      | _ \<Rightarrow> rp_advance (rn_ports env) r (fr_sequence f) w)"

definition advanced :: "session_state \<Rightarrow> frame \<Rightarrow> session_state" where
  "advanced ss f =
     (let r = (ss_run ss)\<lparr>r_last_sequence := fr_sequence f\<rparr>;
          r' = (case fr_body f of
                  Some (Body_Usage u) \<Rightarrow>
                    r\<lparr>r_used_execution_units := ru_execution_units u, r_used_cost := ru_cost u,
                      r_used_retries := ru_retries u\<rparr>
                | _ \<Rightarrow> r) in
      ss\<lparr>ss_run := r', ss_expected := ss_expected ss + 1\<rparr>)"

section \<open>Effect of a frame\<close>

definition outputFromPayload :: "payload option \<Rightarrow> run_output" where
  "outputFromPayload p =
     (case p of None \<Rightarrow> no_output | Some m \<Rightarrow> \<lparr>out_content_type = pl_content_type m, out_data = pl_data m\<rparr>)"

definition safe_after :: "('i, 'w) run_env \<Rightarrow> session_state \<Rightarrow> capability_call \<Rightarrow> bool" where
  "safe_after env ss c =
     (case rn_resolve env (cl_capability_id c) of
        Inl _ \<Rightarrow> ss_safe ss
      | Inr spec \<Rightarrow> if es_replay (cs_execution spec) \<noteq> ReplaySafe then False else ss_safe ss)"

definition result_frame :: "session_state \<Rightarrow> capability_result \<Rightarrow> frame" where
  "result_frame ss res =
     \<lparr>fr_echo_id = r_echo_id (ss_run ss), fr_run_id = r_id (ss_run ss), fr_sequence = ss_kernel ss,
      fr_body = Some (Body_Result res), fr_unknown = []\<rparr>"

definition act_call ::
  "('i, 'w) run_env \<Rightarrow> 'i turn \<Rightarrow> session_state \<Rightarrow> capability_call \<Rightarrow> 'w \<Rightarrow> 'w step_result" where
  "act_call env t ss0 c w =
     (let r = ss_run ss0; cap = cl_capability_id c; ed = tn_end t; safe = safe_after env ss0 c in
      case rn_invoke env r c (ss_counts ss0 cap) (tn_call t) w of
        (w1, res) \<Rightarrow>
          let ss = ss0\<lparr>ss_safe := safe, ss_counts := (ss_counts ss0)(cap := ss_counts ss0 cap + 1)\<rparr> in
          if tn_call_ctx t = Some Ctx_Canceled then step_return (end_cancelled env ed r w1)
          else if tn_call_ctx t = Some Ctx_DeadlineExceeded then step_return (end_timed_out env ed r w1)
          else let ss1 = ss\<lparr>ss_kernel := ss_kernel ss + 1\<rparr>; out = result_frame ss1 res in
            case ValidateCapabilityResultFrame (rn_size env) out (r_echo_id r) (r_id r) (ss_kernel ss1) of
              Inl e \<Rightarrow> step_return (end_failed env ed r [Some e] ''protocol_violation'' safe w1)
            | Inr _ \<Rightarrow>
                (case tn_send t of
                   Some e \<Rightarrow>
                     step_return (end_unless_cancelled env ed r (tn_send_ctx t) (Wrapped e) ''executor_stream_failed'' safe w1)
                 | None \<Rightarrow>
                     (case emitEvent env r (tn_emit t) (Call_Completed res) w1 of
                        (w2, Some e) \<Rightarrow>
                          step_return (end_unless_cancelled env ed r (tn_emit_ctx t) e ''event_delivery_failed'' safe w2)
                      | (w2, None) \<Rightarrow> Continue ss1 w2)))"

definition act_delta ::
  "('i, 'w) run_env \<Rightarrow> 'i turn \<Rightarrow> session_state \<Rightarrow> output_message \<Rightarrow> 'w \<Rightarrow> 'w step_result" where
  "act_delta env t ss d w =
     (let r = ss_run ss; out = outputFromPayload (om_payload d); n = word_of_nat (length (out_data out)) :: u64 in
      if r_max_output_bytes r - ss_output ss < n then
        step_return (end_failed env (tn_end t) r [Some (Sentinel (Orchestrator_E Orch_OutputBudgetExceeded))]
                     ''budget_exceeded'' False w)
      else
        let ss1 = ss\<lparr>ss_output := ss_output ss + n\<rparr> in
        case emitEvent env r (tn_emit t) (Output_Delta out) w of
          (w1, Some e) \<Rightarrow>
            step_return (end_unless_cancelled env (tn_end t) r (tn_emit_ctx t) e ''event_delivery_failed'' (ss_safe ss) w1)
        | (w1, None) \<Rightarrow> Continue ss1 w1)"

definition act_final ::
  "('i, 'w) run_env \<Rightarrow> 'i turn \<Rightarrow> session_state \<Rightarrow> output_message \<Rightarrow> 'w \<Rightarrow> 'w step_result" where
  "act_final env t ss d w =
     (let r = ss_run ss; out = outputFromPayload (om_payload d) in
      if r_max_output_bytes r < word_of_nat (length (out_data out)) then
        step_return (end_failed env (tn_end t) r [Some (Sentinel (Orchestrator_E Orch_OutputBudgetExceeded))]
                     ''budget_exceeded'' False w)
      else Continue (ss\<lparr>ss_final := out\<rparr>) w)"

definition act_frame ::
  "('i, 'w) run_env \<Rightarrow> 'i turn \<Rightarrow> session_state \<Rightarrow> frame \<Rightarrow> 'w \<Rightarrow> 'w step_result" where
  "act_frame env t ss f w =
     (case fr_body f of
        Some (Body_Accepted _) \<Rightarrow> Continue (ss\<lparr>ss_accepted := True\<rparr>) w
      | Some (Body_Call c) \<Rightarrow> act_call env t ss c w
      | Some (Body_Delta d) \<Rightarrow> act_delta env t ss d w
      | Some (Body_Final d) \<Rightarrow> act_final env t ss d w
      | Some (Body_Failure x) \<Rightarrow> Continue (ss\<lparr>ss_failure := Some (PublicExecutor (rf_code x) (rf_retryable x))\<rparr>) w
      | Some (Body_Usage _) \<Rightarrow> Continue (ss\<lparr>ss_usage := True\<rparr>) w
      | _ \<Rightarrow> Continue ss w)"

section \<open>The loop\<close>

definition got_frame ::
  "('i, 'w) run_env \<Rightarrow> 'i turn \<Rightarrow> session_state \<Rightarrow> frame \<Rightarrow> 'w \<Rightarrow> 'w step_result" where
  "got_frame env t ss f w =
     (let r = ss_run ss in
      case admit_frame env ss f of
        Inl e \<Rightarrow> step_return (end_failed env (tn_end t) r [Some e] (rejection_code e) (ss_safe ss) w)
      | Inr _ \<Rightarrow>
          let ss1 = seen_after ss f in
          (case advance_run env r f w of
             (w1, Inl e) \<Rightarrow>
               step_return (end_interrupted env (tn_end t) r (tn_advance_ctx t) e ''internal_error'' (ss_safe ss) w1)
           | (w1, Inr _) \<Rightarrow> act_frame env t (advanced ss1 f) f w1))"

definition run_turn :: "('i, 'w) run_env \<Rightarrow> 'i turn \<Rightarrow> session_state \<Rightarrow> 'w \<Rightarrow> 'w step_result" where
  "run_turn env t ss w =
     (case tn_recv t of
        Got f \<Rightarrow> got_frame env t ss f w
      | End_Of_Stream \<Rightarrow> step_return (recv_failed env t ss None w)
      | Recv_Error e \<Rightarrow> step_return (recv_failed env t ss (Some e) w))"

text \<open>\<open>Continue\<close>: the session is still open after these turns.\<close>

fun run_loop :: "('i, 'w) run_env \<Rightarrow> 'i turn list \<Rightarrow> session_state \<Rightarrow> 'w \<Rightarrow> 'w step_result" where
  "run_loop env [] ss w = Continue ss w"
| "run_loop env (t # ts) ss w =
     (case run_turn env t ss w of
        Continue ss' w' \<Rightarrow> run_loop env ts ss' w'
      | Return w' e \<Rightarrow> Return w' e)"

section \<open>The start\<close>

definition context_request ::
  "('i, 'w) run_env \<Rightarrow> start_draw \<Rightarrow> run_record \<Rightarrow> proto_capability list \<Rightarrow> context_input" where
  "context_request env sd r capabilities =
     \<lparr>in_app_id = oc_app_id (rn_config env), in_session_id = r_session_id r, in_message_id = r_message_id r,
      in_config_revision = r_config_revision r, in_channel = r_channel r, in_content_type = r_input_content_type r,
      in_payload = r_input_payload r, in_capabilities = capabilityVersions capabilities, in_now = sd_assembled_at sd\<rparr>"

definition start_frame ::
  "('i, 'w) run_env \<Rightarrow> start_draw \<Rightarrow> run_record \<Rightarrow> proto_capability list \<Rightarrow> snapshot \<Rightarrow> frame" where
  "start_frame env sd r capabilities snap =
     \<lparr>fr_echo_id = r_echo_id r, fr_run_id = r_id r, fr_sequence = 1,
      fr_body = Some (Body_Start
        \<lparr>sr_app_id = oc_app_id (rn_config env),
         sr_input_payload = Some \<lparr>pl_content_type = r_input_content_type r, pl_data = r_input_payload r, pl_unknown = []\<rparr>,
         sr_capabilities = map Some capabilities, sr_max_steps = r_max_steps r, sr_protocol_version = Version,
         sr_max_capability_calls = r_max_capability_calls r, sr_trace_id = sd_trace_id sd,
         sr_parent_span_id = sd_span_id sd, sr_parent_run_id = r_parent_id r,
         sr_context_payload =
           Some \<lparr>pl_content_type = ''application/ailuo.context+json'', pl_data = cx_payload snap, pl_unknown = []\<rparr>,
         sr_max_execution_units = r_max_execution_units r, sr_max_output_bytes = r_max_output_bytes r,
         sr_max_cost = r_max_cost r,
         sr_executor_config =
           Some \<lparr>pl_content_type = ''application/json'', pl_data = r_executor_config r, pl_unknown = []\<rparr>,
         sr_unknown = []\<rparr>),
      fr_unknown = []\<rparr>"

text \<open>From the assembled context to the first receive.\<close>

definition open_session ::
  "('i, 'w) run_env \<Rightarrow> start_draw \<Rightarrow> run_record \<Rightarrow> proto_capability list \<Rightarrow> snapshot \<Rightarrow> 'w \<Rightarrow> 'w step_result" where
  "open_session env sd r capabilities snap w =
     (let ed = sd_end sd; out = start_frame env sd r capabilities snap in
      case sd_open sd of
        Some e \<Rightarrow> step_return (end_failed env ed r [Some (Wrapped e)] ''executor_unavailable'' True w)
      | None \<Rightarrow>
     (case ValidateStartFrame (rn_size env) out of
        Inl e \<Rightarrow> step_return (end_failed env ed r [Some e] ''protocol_violation'' True w)
      | Inr _ \<Rightarrow>
     (case sd_send sd of
        Some e \<Rightarrow> step_return (end_failed env ed r [Some (Wrapped e)] ''executor_start_failed'' True w)
      | None \<Rightarrow>
     (case emitEvent env r (sd_running sd) Run_Started w of
        (w1, Some e) \<Rightarrow>
          step_return (end_interrupted env ed r (sd_running_ctx sd) e ''event_delivery_failed'' True w1)
      | (w1, None) \<Rightarrow> Continue (new_session r) w1))))"

definition context_session ::
  "('i, 'w) run_env \<Rightarrow> start_draw \<Rightarrow> run_record \<Rightarrow> proto_capability list \<Rightarrow> 'w \<Rightarrow> 'w step_result" where
  "context_session env sd r capabilities w =
     (let ed = sd_end sd in
      case Assemble (rn_context_lib env) (rn_history env) (rn_budget env) (context_request env sd r capabilities) of
        Inl e \<Rightarrow> step_return (end_failed env ed r [Some (rn_assembly_error env e)] ''context_unavailable'' True w)
      | Inr snap \<Rightarrow>
     (case rp_context (rn_ports env) r (cx_digest snap) (SourcesJSON snap) w of
        (w1, Inl e) \<Rightarrow>
          step_return (end_unless_cancelled env ed r (sd_context_ctx sd) e ''internal_error'' True w1)
      | (w1, Inr _) \<Rightarrow>
     (case emitEvent env r (sd_context sd) (Context_Assembled snap (length capabilities)) w1 of
        (w2, Some e) \<Rightarrow>
          step_return (end_unless_cancelled env ed r (sd_context_emit_ctx sd) e ''event_delivery_failed'' True w2)
      | (w2, None) \<Rightarrow> open_session env sd r capabilities snap w2)))"

definition policy_session ::
  "('i, 'w) run_env \<Rightarrow> start_draw \<Rightarrow> run_record \<Rightarrow> 'w \<Rightarrow> 'w step_result" where
  "policy_session env sd r w =
     (let ed = sd_end sd; app = oc_app_id (rn_config env);
          unavailable = Some (Sentinel (Orchestrator_E Orch_AppConfigUnavailable)) in
      case src_policy (rn_source env) app of
        Inl e \<Rightarrow> step_return (end_failed env ed r [unavailable, Some e] ''app_policy_unavailable'' True w)
      | Inr policy \<Rightarrow>
     (case VerifySnapshot policy app of
        Inl e \<Rightarrow> step_return (end_failed env ed r [unavailable, Some e] ''app_policy_unavailable'' True w)
      | Inr _ \<Rightarrow>
        if \<not> ps_enabled policy
        then step_return (end_failed env ed r [Some (Sentinel (Orchestrator_E Orch_AppDisabled))] ''app_disabled'' False w)
        else context_session env sd r (rn_project env policy r) w))"

definition start_session ::
  "('i, 'w) run_env \<Rightarrow> start_draw \<Rightarrow> run_record \<Rightarrow> 'w \<Rightarrow> 'w step_result" where
  "start_session env sd r w =
     (let ed = sd_end sd in
      case emitEvent env r (sd_started sd) Echo_Started w of
        (w1, Some e) \<Rightarrow> step_return (end_failed env ed r [Some e] ''event_delivery_failed'' True w1)
      | (w1, None) \<Rightarrow> policy_session env sd r w1)"

definition config_refused ::
  "('i, 'w) run_env \<Rightarrow> start_draw \<Rightarrow> run_record \<Rightarrow> go_error option \<Rightarrow> 'w \<Rightarrow> 'w \<times> go_error option" where
  "config_refused env sd r err w =
     (case completeRun (rn_ports env) (ed_complete_at (sd_end sd)) r Run_Failed Echo_Failed no_output
             (PublicEcho ''recovery_failed'') w of
        (w', e) \<Rightarrow> (w', join_all [Some (Sentinel (Orchestrator_E Orch_RunConfigUnavailable)), err, e]))"

definition executeClaimedRun ::
  "('i, 'w) run_env \<Rightarrow> start_draw \<Rightarrow> 'i turn list \<Rightarrow> run_record \<Rightarrow> 'w \<Rightarrow> 'w step_result" where
  "executeClaimedRun env sd ts r w =
     (case appConfigRevision (rn_lib env) (rn_source env) (oc_app_id (rn_config env)) (r_config_revision r) of
        Inl e \<Rightarrow> step_return (config_refused env sd r (Some e) w)
      | Inr app \<Rightarrow>
          if \<not> runMatchesAppConfig r app \<or> r_protocol_version r \<noteq> Version
          then step_return (config_refused env sd r None w)
          else case start_session env sd r w of
              Return w' e \<Rightarrow> Return w' e
            | Continue ss w' \<Rightarrow> run_loop env ts ss w')"

text \<open>\<open>RunQueued\<close>: the claim under a fresh lease token. The time of the claim starts the lease.\<close>

definition RunQueued ::
  "('i, 'w) run_env \<Rightarrow> string \<Rightarrow> instant \<Rightarrow> start_draw \<Rightarrow> 'i turn list \<Rightarrow> run_record \<Rightarrow> 'w \<Rightarrow> 'w step_result" where
  "RunQueued env token started sd ts r w =
     (let app = oc_app_id (rn_config env); mismatch = Sentinel (Orchestrator_E Orch_RunInputMismatch) in
      if r_app_id r \<noteq> app \<or> r_id r = [] \<or> r_echo_id r = [] \<or> r_status r \<noteq> Run_Queued \<or>
         length (r_input_payload r) = 0 \<or> r_input_content_type r = [] then Return w (Some mismatch)
      else case rp_claim (rn_ports env) app (r_echo_id r) (r_id r) token started
                  (started + oc_lease (rn_config env)) w of
          (w1, Inl e) \<Rightarrow> Return w1 (Some e)
        | (w1, Inr claimed) \<Rightarrow>
            if r_id claimed \<noteq> r_id r then Return w1 (Some mismatch)
            else if r_input_payload claimed \<noteq> r_input_payload r \<or>
                    r_input_content_type claimed \<noteq> r_input_content_type r
              then step_return (end_failed env (sd_end sd) claimed [Some mismatch] ''recovery_failed'' False w1)
            else executeClaimedRun env sd ts claimed w1)"

section \<open>Renewal of the lease\<close>

definition renewal_interval :: "orch_config \<Rightarrow> duration" where
  "renewal_interval cfg = (let i = go_div (oc_lease cfg) 3 in if i \<le> 0 then millisecond else i)"

definition renewal_budget :: "orch_config \<Rightarrow> duration" where
  "renewal_budget cfg =
     (let b = wrap64 (oc_lease cfg + renewal_interval cfg) in if b < oc_lease cfg then oc_lease cfg else b)"

text \<open>The ticks of \<open>renewLease\<close> until one fails, with the error that it leaves for the session and
  after which it cancels the Run.\<close>

fun renewLease ::
  "('i, 'w) run_env \<Rightarrow> run_record \<Rightarrow> instant list \<Rightarrow> 'w \<Rightarrow> 'w \<times> go_error option" where
  "renewLease env r [] w = (w, None)"
| "renewLease env r (at # ats) w =
     (case rp_renew (rn_ports env) r at (at + oc_lease (rn_config env)) w of
        (w', Inl e) \<Rightarrow> (w', Some e)
      | (w', Inr _) \<Rightarrow> renewLease env r ats w')"

end
