(* ===== verification/Run_Invocation.thy ===== *)
theory Run_Invocation
  imports Run_Session
begin

text \<open>
  \<open>internal/kernel/echo/orchestrator.go\<close>, \<open>invokeCapability\<close> and \<open>invokeCapabilityOnce\<close>: a capability call of the
  executor, made once per Run and call identifier through the idempotency manager, governed by the
  dispatcher and recorded in the audit log. The two idempotency scopes, that of executor calls and that of
  capability effects, are disjoint parts of the state. \<open>proto.Marshal\<close>, \<open>proto.Unmarshal\<close> and the message
  texts are arguments.
\<close>

text \<open>What surrounds one call. The context of a Run always has a deadline, so a wait that outlasts the
  readings given ends with it.\<close>

record ('s, 't) call_draw =
  ca_outer :: "'s surroundings"
  ca_inner :: "'t call_surroundings"
  ca_request_id :: string
  ca_trace_id :: string
  ca_deadline :: "instant option"
  ca_started :: instant
  ca_finished :: instant

record ('s, 't, 'c, 'w) invoker =
  iv_app_id :: string
  iv_store :: "'s idem_port"
  iv_dispatcher :: "('t, 'w, 'c) dispatcher"
  iv_lib :: "'c dispatch_lib"
  iv_audit_lib :: audit_lib
  iv_ports :: "'w run_ports"
  iv_text :: "message \<Rightarrow> string"
  iv_marshal :: "capability_result \<Rightarrow> string go_result"
  iv_unmarshal :: "string \<Rightarrow> capability_result option"

definition failed_result :: "('s, 't, 'c, 'w) invoker \<Rightarrow> capability_call \<Rightarrow> public_error \<Rightarrow> capability_result" where
  "failed_result iv c failure =
     \<lparr>res_call_id = cl_call_id c, res_capability_id = cl_capability_id c, res_success = False, res_payload = [],
      res_error_code = pe_code failure, res_error_message = iv_text iv (pe_message failure), res_unknown = []\<rparr>"

definition call_deadline :: "('s, 't) call_draw \<Rightarrow> instant" where
  "call_deadline ca =
     (let d = ca_started ca + 30 * second in
      case ca_deadline ca of None \<Rightarrow> d | Some x \<Rightarrow> if before x d then x else d)"

definition call_request ::
  "('s, 't, 'c, 'w) invoker \<Rightarrow> ('s, 't) call_draw \<Rightarrow> run_record \<Rightarrow> capability_call \<Rightarrow> u32 \<Rightarrow> request_context" where
  "call_request iv ca r c used =
     \<lparr>rc_app_id = iv_app_id iv, rc_echo_id = r_echo_id r, rc_request_id = ca_request_id ca,
      rc_trace_id = ca_trace_id ca, rc_user_id = r_user_id r, rc_session_id = r_session_id r, rc_run_id = r_id r,
      rc_parent_run_id = r_parent_id r, rc_call_id = cl_call_id c, rc_call_depth = 0,
      rc_deadline = call_deadline ca, rc_idempotency_key = cl_call_id c, rc_confirmation_id = [],
      rc_protocol_version = Version, rc_capability_id = [], rc_call_chain = [], rc_calls_used = used,
      rc_cost_used = r_used_cost r, rc_lease_token = r_lease_token r, rc_run_grants = r_grants r\<rparr>"

definition invokeCapabilityOnce ::
  "('s, 't, 'c, 'w) invoker \<Rightarrow> ('s, 't) call_draw \<Rightarrow> run_record \<Rightarrow> capability_call \<Rightarrow> u32 \<Rightarrow> 't \<times> 'w
     \<Rightarrow> ('t \<times> 'w) \<times> capability_result" where
  "invokeCapabilityOnce iv ca r c used tw =
     (case route (iv_lib iv) (iv_dispatcher iv) (ca_inner ca) (call_request iv ca r c used) (cl_capability_id c)
             (cl_payload c) (fst tw) (snd tw) of
        (t1, w1, ret) \<Rightarrow>
          let answer = (case ret of None \<Rightarrow> Inl (Sentinel (Context_E Ctx_DeadlineExceeded)) | Some a \<Rightarrow> a);
              failure = (case answer of Inl e \<Rightarrow> PublicCapability (Some e) | Inr _ \<Rightarrow> no_error);
              result = (case answer of
                  Inl _ \<Rightarrow> failed_result iv c failure
                | Inr payload \<Rightarrow>
                    \<lparr>res_call_id = cl_call_id c, res_capability_id = cl_capability_id c, res_success = True,
                     res_payload = payload, res_error_code = [], res_error_message = [], res_unknown = []\<rparr>);
              body = SanitizeAuditJSON (iv_audit_lib iv) (cl_payload c) 8192
          in (case rp_audit (iv_ports iv) (cl_call_id c) (r_id r) (r_echo_id r) (iv_app_id iv) (cl_capability_id c) body
                     (res_success result) failure (ca_finished ca - ca_started ca) w1 of
                (w2, audited) \<Rightarrow>
                  ((t1, w2),
                   if audited \<noteq> Inr () \<and> res_success result then failed_result iv c (PublicEcho ''internal_error'')
                   else result)))"

definition executor_operation ::
  "('s, 't, 'c, 'w) invoker \<Rightarrow> run_record \<Rightarrow> capability_call \<Rightarrow> operation" where
  "executor_operation iv r c =
     \<lparr>op_app_id = iv_app_id iv, op_scope = ''executor.call/'' @ r_id r, op_key = cl_call_id c,
      op_fingerprint = Fingerprint (dl_sha256 (iv_lib iv)) [r_id r, cl_capability_id c, cl_payload c],
      op_owner_id = r_id r @ '':'' @ cl_call_id c\<rparr>"

definition invokeCapability ::
  "('s, 't, 'c, 'w) invoker \<Rightarrow> run_record \<Rightarrow> capability_call \<Rightarrow> u32 \<Rightarrow> ('s, 't) call_draw \<Rightarrow> 's \<times> 't \<times> 'w
     \<Rightarrow> ('s \<times> 't \<times> 'w) \<times> capability_result" where
  "invokeCapability iv r c used ca stw =
     (if cl_call_id c = [] \<or> 128 < length (cl_call_id c) \<or> ValidateKey (cl_call_id c) \<noteq> Inr ()
      then (stw, failed_result iv c (PublicExecutor ''protocol_violation'' False))
      else case Execute NewManager (iv_store iv) (ca_outer ca) (executor_operation iv r c)
                  (Some (\<lambda>tw. case invokeCapabilityOnce iv ca r c used tw of
                     (tw', result) \<Rightarrow>
                       (case iv_marshal iv result of
                          Inl e \<Rightarrow> (tw', [], Some e)
                        | Inr encoded \<Rightarrow> (tw', encoded, None))))
                  (fst stw) (snd stw) of
          (s', tw', ret) \<Rightarrow>
            ((s', tw'),
             (case ret of
                None \<Rightarrow> failed_result iv c (PublicCapability (Some (Sentinel (Context_E Ctx_DeadlineExceeded))))
              | Some (encoded, replayed, Some e) \<Rightarrow> failed_result iv c (PublicCapability (Some e))
              | Some (encoded, replayed, None) \<Rightarrow>
                  (case iv_unmarshal iv encoded of
                     None \<Rightarrow> failed_result iv c (PublicEcho ''protocol_violation'')
                   | Some result \<Rightarrow> result))))"

section \<open>One effect per call\<close>

lemma executor_key: "idem_key_of (executor_operation iv r c') = idem_key_of (executor_operation iv r c)"
  if "cl_call_id c' = cl_call_id c"
  using that by (simp add: executor_operation_def idem_key_of_def)

text \<open>C25: 
  However often a Run repeats a call identifier, with whatever capability and payload and whatever other
  callers do to the store meanwhile, at most one of the calls reaches the dispatcher: the state behind it
  changes at most once.
\<close>

theorem executor_call_once:
  assumes "idem_table_ok s" "iv_store iv = sqlite_idem_port drv"
    and "\<And>t. idem_evolves drv t (su_meanwhile (ca_outer ca1) t)"
    and "\<And>t. idem_evolves drv t (su_meanwhile (ca_outer ca2) t)"
    and "cl_call_id c2 = cl_call_id c1" "r_id r2 = r_id r1"
    and "invokeCapability iv r1 c1 n1 ca1 (s, tw) = ((s1, tw1), res1)" and "idem_evolves drv s1 s2"
    and "invokeCapability iv r2 c2 n2 ca2 (s2, tw1) = ((s3, tw2), res2)" and "tw1 \<noteq> tw"
  shows "tw2 = tw1"
proof -
  let ?f = "\<lambda>r c n ca tw. case invokeCapabilityOnce iv ca r c n tw of
      (tw', result) \<Rightarrow> (case iv_marshal iv result of Inl e \<Rightarrow> (tw', [], Some e) | Inr encoded \<Rightarrow> (tw', encoded, None))"
  let ?ok = "\<lambda>c. \<not> (cl_call_id c = [] \<or> 128 < length (cl_call_id c) \<or> ValidateKey (cl_call_id c) \<noteq> Inr ())"
  have ok: "?ok c1" using assms(7,10) by (auto simp: invokeCapability_def split: if_splits)
  then have ok2: "?ok c2" using assms(5) by simp
  obtain ret1 where e1: "Execute NewManager (sqlite_idem_port drv) (ca_outer ca1) (executor_operation iv r1 c1)
      (Some (?f r1 c1 n1 ca1)) s tw = (s1, tw1, ret1)"
    using assms(7) ok unfolding invokeCapability_def assms(2) by (auto split: prod.splits)
  obtain ret2 where e2: "Execute NewManager (sqlite_idem_port drv) (ca_outer ca2) (executor_operation iv r2 c2)
      (Some (?f r2 c2 n2 ca2)) s2 tw1 = (s3, tw2, ret2)"
    using assms(9) ok2 unfolding invokeCapability_def assms(2) by (auto split: prod.splits)
  have key: "idem_key_of (executor_operation iv r2 c2) = idem_key_of (executor_operation iv r1 c1)"
    using assms(5,6) by (simp add: executor_operation_def idem_key_of_def)
  show ?thesis
    by (rule idem_store.at_most_once[OF assms(1,3,4) key e1 assms(8) e2 assms(10)])
qed

end
