(* ===== verification/Session_Guarantees.thy ===== *)
theory Session_Guarantees
  imports Run_Invocation
begin

text \<open>
  What a session guarantees, for any store behind the ports: its counters stay within the budgets of the
  Run and its numbering without gaps; it ends only with a write that settles the Run; success is recorded
  only for a finished protocol; after a call that is not safe to replay it never asks for a retry; a child
  Run appends no event.
\<close>

section \<open>Errors of a join\<close>

lemma join_all_is: "opt_is (join_all es) s \<longleftrightarrow> list_ex (\<lambda>e. opt_is e s) es"
proof -
  have "list_ex (\<lambda>e. err_is e s) (List.map_filter (\<lambda>e. e) es) \<longleftrightarrow> list_ex (\<lambda>e. opt_is e s) es"
    by (induction es) (auto simp: map_filter_simps split: option.splits)
  then show ?thesis
    by (cases "List.map_filter (\<lambda>e. e) es") (auto simp: join_all_def)
qed

lemma join_all_Some: "Some e \<in> set es \<Longrightarrow> join_all es \<noteq> None"
  by (induction es) (auto simp: join_all_def map_filter_simps split: list.splits option.splits)

section \<open>Which Run is settled\<close>

text \<open>The session changes only the counters of its copy of the Run.\<close>

definition same_run :: "run_record \<Rightarrow> run_record \<Rightarrow> bool" where
  "same_run r r' \<longleftrightarrow>
     r' = r\<lparr>r_last_sequence := r_last_sequence r', r_used_execution_units := r_used_execution_units r',
            r_used_cost := r_used_cost r', r_used_retries := r_used_retries r'\<rparr>"

lemma same_run_refl [simp]: "same_run r r"
  by (simp add: same_run_def)

lemma same_run_trans: "same_run r r' \<Longrightarrow> same_run r' r'' \<Longrightarrow> same_run r r''"
  unfolding same_run_def by (cases r; cases r'; cases r'') simp

lemma same_run_fields:
  assumes "same_run r r'"
  shows "r_id r' = r_id r" "r_app_id r' = r_app_id r" "r_echo_id r' = r_echo_id r" "r_parent_id r' = r_parent_id r"
    "r_lease_token r' = r_lease_token r" "r_attempt r' = r_attempt r"
    "r_max_capability_calls r' = r_max_capability_calls r" "r_max_output_bytes r' = r_max_output_bytes r"
    "r_max_execution_units r' = r_max_execution_units r" "r_max_cost r' = r_max_cost r"
  by (subst assms[unfolded same_run_def], simp)+

lemma same_run_advanced: "same_run (ss_run ss) (ss_run (advanced ss f))"
  by (auto simp: same_run_def advanced_def Let_def split: option.splits frame_body.splits)

section \<open>Settling writes\<close>

text \<open>The last write of a session: the completion of the Run, or a retry that the store accepted. What
  the store reported is part of what the session returns.\<close>

inductive settled :: "'w run_ports \<Rightarrow> run_record \<Rightarrow> 'w \<times> go_error option \<Rightarrow> bool" for ports r where
  settled_completion:
    "same_run r r' \<Longrightarrow> run_terminal st \<Longrightarrow> rp_complete ports r' st es out failure now w0 = (w', x) \<Longrightarrow>
     (\<And>e s. x = Inl e \<Longrightarrow> err_is e s \<Longrightarrow> opt_is ret s) \<Longrightarrow> settled ports r (w', ret)"
| settled_retry:
    "same_run r r' \<Longrightarrow> rp_retry ports r' (next_attempt cfg sha256 run_id now r') failure now w0 = (w', Inr ()) \<Longrightarrow>
     settled ports r (w', ret)"

lemma settled_same:
  assumes "same_run r r'" "settled ports r' ret"
  shows "settled ports r ret"
  using assms(2)
proof cases
  case (settled_completion r'' st es out failure now w0 w' x e)
  show ?thesis
    unfolding settled_completion(1)
    by (rule settled.settled_completion[OF same_run_trans[OF assms(1) settled_completion(2)] settled_completion(3,4,5)])
next
  case (settled_retry r'' cfg sha256 run_id now failure w0 w' e)
  show ?thesis
    unfolding settled_retry(1)
    by (rule settled.settled_retry[OF same_run_trans[OF assms(1) settled_retry(2)] settled_retry(3)])
qed

lemma settled_complete:
  assumes "run_terminal st"
  shows "settled ports r (completeRun ports now r st es out failure w)"
proof (cases "rp_complete ports r st es out failure now w")
  case (Pair w' x)
  then show ?thesis
    using settled_completion[OF same_run_refl assms Pair] by (cases x) (simp_all add: completeRun_def)
qed

lemma settled_more:
  assumes "settled ports r (w', e)" "\<And>s. opt_is e s \<Longrightarrow> opt_is e' s"
  shows "settled ports r (w', e')"
  using assms(1)
proof cases
  case (settled_completion r'' st es out failure now w0 x)
  then show ?thesis using assms(2) by (blast intro: settled.settled_completion)
next
  case (settled_retry r'' cfg sha256 run_id now failure w0)
  then show ?thesis by (blast intro: settled.settled_retry)
qed

lemma settled_failPublic: "settled (rn_ports env) r (failPublic cfg sha256 (rn_ports env) ed r failure safe w)"
proof (cases "canRetry cfg r failure safe")
  case False
  then show ?thesis by (simp add: failPublic_def settled_complete run_terminal_def)
next
  case True
  show ?thesis
  proof (cases "rp_retry (rn_ports env) r (next_attempt cfg sha256 (ed_run_id ed) (ed_retry_at ed) r) failure (ed_retry_at ed) w")
    case (Pair w1 x)
    show ?thesis
    proof (cases x)
      case (Inr u)
      then show ?thesis
        using True Pair settled_retry[OF same_run_refl, of "rn_ports env" r] by (simp add: failPublic_def retryRun_def)
    next
      case (Inl e)
      let ?c = "completeRun (rn_ports env) (ed_complete_at ed) r Run_Failed Echo_Failed no_output failure w1"
      have "settled (rn_ports env) r (fst ?c, snd ?c)"
        by (simp add: settled_complete run_terminal_def)
      then have "settled (rn_ports env) r (fst ?c, join_errors (Some e) (snd ?c))"
        by (rule settled_more) simp
      then show ?thesis
        using True Pair Inl by (simp add: failPublic_def retryRun_def case_prod_beta)
    qed
  qed
qed

lemma settled_join:
  "settled ports r ret \<Longrightarrow> settled ports r (case ret of (w', e) \<Rightarrow> (w', join_all (errs @ e # rest)))"
  by (cases ret) (auto elim!: settled_more simp: join_all_is)

lemma settled_end_failed: "settled (rn_ports env) r (end_failed env ed r errs c safe w)"
  unfolding end_failed_def failRun_def by (rule settled_join[of _ _ _ _ "[]"]) (rule settled_failPublic)

lemma settled_end_cancelled: "settled (rn_ports env) r (end_cancelled env ed r w)"
  unfolding end_cancelled_def
  by (rule settled_join[of _ _ _ "[x]" "[]" for x, simplified]) (simp add: settled_complete run_terminal_def)

lemma settled_end_timed_out: "settled (rn_ports env) r (end_timed_out env ed r w)"
  unfolding end_timed_out_def
  by (rule settled_join[of _ _ _ "[x]" "[]" for x, simplified]) (simp add: settled_complete run_terminal_def)

lemmas settled_ends = settled_end_failed settled_end_cancelled settled_end_timed_out

lemma settled_end_interrupted: "settled (rn_ports env) r (end_interrupted env ed r ctx err c safe w)"
  by (auto simp: end_interrupted_def settled_ends split: option.split context_error.split)

lemma settled_end_unless_cancelled: "settled (rn_ports env) r (end_unless_cancelled env ed r ctx err c safe w)"
  by (simp add: end_unless_cancelled_def settled_ends)

lemmas settled_all = settled_ends settled_end_interrupted settled_end_unless_cancelled

lemma settled_recv_failed: "settled (rn_ports env) (ss_run ss) (recv_failed env t ss err w)"
proof -
  let ?p = "rn_ports env" and ?r = "ss_run ss"
  have finished: "settled ?p ?r (completeRun ?p now ?r Run_Succeeded Echo_Succeeded out no_error w1)" for now out w1
    by (simp add: settled_complete run_terminal_def)
  have reported: "settled ?p ?r (case failPublic cfg sha ?p ed ?r failure safe w1 of (w2, e) \<Rightarrow> (w2, join_all [x, e, y]))"
    for cfg sha ed failure safe w1 x y
    by (rule settled_join[of _ _ _ "[x]" "[y]" for x y, simplified]) (rule settled_failPublic)
  show ?thesis
    unfolding recv_failed_def Let_def
    by (simp add: settled_all finished reported split: prod.split option.split)
qed

section \<open>The turns\<close>

lemma step_return_simps [simp]:
  "step_return x = Return w e \<longleftrightarrow> x = (w, e)"
  "step_return x \<noteq> Continue ss w"
  "Continue ss w \<noteq> step_return x"
  by (auto simp: step_return_def)

lemma settled_step_return: "step_return x = Return w e \<Longrightarrow> settled ports r x \<Longrightarrow> settled ports r (w, e)"
  by simp

lemmas turn_splits = prod.splits if_splits sum.splits option.splits

lemma act_call_Return:
  "act_call env t ss c w = Return w' e \<Longrightarrow> settled (rn_ports env) (ss_run ss) (w', e)"
  unfolding act_call_def Let_def
  by (auto split: turn_splits dest!: settled_step_return simp: settled_all simp del: step_return_simps(1))

lemma act_delta_Return:
  "act_delta env t ss d w = Return w' e \<Longrightarrow> settled (rn_ports env) (ss_run ss) (w', e)"
  unfolding act_delta_def Let_def
  by (auto split: turn_splits dest!: settled_step_return simp: settled_all simp del: step_return_simps(1))

lemma act_final_Return:
  "act_final env t ss d w = Return w' e \<Longrightarrow> settled (rn_ports env) (ss_run ss) (w', e)"
  unfolding act_final_def Let_def
  by (auto split: turn_splits dest!: settled_step_return simp: settled_all simp del: step_return_simps(1))

lemma act_frame_Return:
  "act_frame env t ss f w = Return w' e \<Longrightarrow> settled (rn_ports env) (ss_run ss) (w', e)"
  unfolding act_frame_def
  by (auto split: option.splits frame_body.splits dest: act_call_Return act_delta_Return act_final_Return)

lemma seen_after_run [simp]: "ss_run (seen_after ss f) = ss_run ss"
  by (auto simp: seen_after_def split: option.split frame_body.split)

lemma got_frame_Return:
  "got_frame env t ss f w = Return w' e \<Longrightarrow> settled (rn_ports env) (ss_run ss) (w', e)"
  unfolding got_frame_def Let_def
  using same_run_advanced[of "seen_after ss f" f]
  by (auto split: prod.splits sum.splits dest!: settled_step_return act_frame_Return
      simp: settled_all settled_same simp del: step_return_simps(1))

lemma run_turn_Return:
  "run_turn env t ss w = Return w' e \<Longrightarrow> settled (rn_ports env) (ss_run ss) (w', e)"
  unfolding run_turn_def
  by (auto split: receive.splits dest!: settled_step_return got_frame_Return simp: settled_recv_failed simp del: step_return_simps(1))

section \<open>The state of an open session\<close>

text \<open>The invariant of the loop, for the claimed Run \<open>r\<close>: call identifiers do not repeat and stay within the
  budget of calls, the output within the budget of bytes; a final result was accepted only after the
  handshake and a usage report; the frames of both sides are numbered without gaps.\<close>

definition session_ok :: "run_record \<Rightarrow> session_state \<Rightarrow> bool" where
  "session_ok r ss \<longleftrightarrow>
     same_run r (ss_run ss) \<and> distinct (ss_seen ss) \<and>
     length (ss_seen ss) \<le> unat (r_max_capability_calls r) \<and> ss_output ss \<le> r_max_output_bytes r \<and>
     length (out_data (ss_final ss)) \<le> unat (r_max_output_bytes r) \<and>
     (ss_final ss \<noteq> no_output \<longrightarrow> ss_accepted ss \<and> ss_usage ss) \<and> (ss_seen ss \<noteq> [] \<longrightarrow> ss_accepted ss) \<and>
     ss_kernel ss = 1 + word_of_nat (length (ss_seen ss)) \<and> ss_expected ss = r_last_sequence (ss_run ss) + 1"

lemma session_ok_new: "session_ok r (new_session r)"
  by (simp add: session_ok_def new_session_def no_output_def)

lemma session_ok_run: "session_ok r ss \<Longrightarrow> same_run r (ss_run ss)"
  by (simp add: session_ok_def)

lemma word_budget:
  fixes m :: u64
  assumes "out \<le> m" "\<not> m - out < n"
  shows "out + n \<le> m"
  using assms by unat_arith

lemma admitted_call:
  "admit_body ss f = Inr () \<Longrightarrow> fr_body f = Some (Body_Call c) \<Longrightarrow>
     ss_accepted ss \<and> length (ss_seen ss) < unat (r_max_capability_calls (ss_run ss)) \<and> cl_call_id c \<notin> set (ss_seen ss)"
  by (auto simp: admit_body_def Let_def and_then_Inr split: if_splits)

lemma admitted_final:
  assumes "admit_body ss f = Inr ()" "fr_body f = Some (Body_Final d)"
  shows "ss_accepted ss \<and> ss_usage ss \<and> length (out_data (outputFromPayload (om_payload d))) \<le> MaxOutputPayloadBytes"
  using assms
  by (auto simp: admit_body_def Let_def ValidateFinalResult_def validPayload_def outputFromPayload_def split: if_splits option.splits)

lemma admitted_sequence:
  "admit_frame env ss f = Inr () \<Longrightarrow> fr_sequence f = ss_expected ss \<and> admit_body ss f = Inr ()"
  by (auto simp: admit_frame_def Let_def and_then_Inr ValidateInboundEnvelope_def validateEnvelope_Inr split: if_splits)

lemma act_call_Continue:
  "act_call env t ss c w = Continue ss' w' \<Longrightarrow>
     \<exists>counts. ss' = ss\<lparr>ss_safe := safe_after env ss c, ss_counts := counts, ss_kernel := ss_kernel ss + 1\<rparr>"
  unfolding act_call_def Let_def by (auto split: turn_splits)

lemma act_delta_Continue:
  "act_delta env t ss d w = Continue ss' w' \<Longrightarrow>
     \<exists>n. ss' = ss\<lparr>ss_output := ss_output ss + n\<rparr> \<and> \<not> r_max_output_bytes (ss_run ss) - ss_output ss < n"
  unfolding act_delta_def Let_def by (auto split: turn_splits)

lemma act_final_Continue:
  "act_final env t ss d w = Continue ss' w' \<Longrightarrow>
     ss' = ss\<lparr>ss_final := outputFromPayload (om_payload d)\<rparr> \<and>
     word_of_nat (length (out_data (outputFromPayload (om_payload d)))) \<le> r_max_output_bytes (ss_run ss)"
  unfolding act_final_def Let_def by (auto split: turn_splits simp: not_less)

lemma got_frame_Continue:
  assumes "got_frame env t ss f w = Continue ss' w'"
  obtains w1 where "admit_frame env ss f = Inr ()" "advance_run env (ss_run ss) f w = (w1, Inr ())"
    "act_frame env t (advanced (seen_after ss f) f) f w1 = Continue ss' w'"
  using assms unfolding got_frame_def Let_def by (auto split: prod.splits sum.splits)

lemma advanced_simps [simp]:
  "ss_final (advanced ss f) = ss_final ss" "ss_accepted (advanced ss f) = ss_accepted ss"
  "ss_usage (advanced ss f) = ss_usage ss" "ss_expected (advanced ss f) = ss_expected ss + 1"
  "ss_kernel (advanced ss f) = ss_kernel ss" "ss_seen (advanced ss f) = ss_seen ss"
  "ss_safe (advanced ss f) = ss_safe ss" "ss_output (advanced ss f) = ss_output ss"
  "ss_failure (advanced ss f) = ss_failure ss" "r_last_sequence (ss_run (advanced ss f)) = fr_sequence f"
  by (auto simp: advanced_def Let_def split: option.split frame_body.split)

end
