(* ===== verification/Session_Loop.thy ===== *)
theory Session_Loop
  imports Session_Guarantees
begin

text \<open>
  The frame loop as a whole: its invariant, how it ends, which frames it has heard, and what success means.
\<close>

section \<open>The invariant is kept\<close>

lemma session_ok_advanced:
  assumes "session_ok r ss" "fr_sequence f = ss_expected ss"
  shows "session_ok r (advanced ss f)"
  using assms same_run_trans[OF session_ok_run[OF assms(1)] same_run_advanced[of ss f]]
  unfolding session_ok_def by simp

lemma final_within:
  fixes m :: u64
  assumes "n \<le> MaxOutputPayloadBytes" "word_of_nat n \<le> m"
  shows "n \<le> unat m"
proof -
  have "unat (word_of_nat n :: u64) = n"
    using assms(1) by (simp add: unat_of_nat MaxOutputPayloadBytes_def)
  then show ?thesis using assms(2) by (simp add: word_le_nat_alt)
qed

lemma act_frame_ok:
  assumes ok: "session_ok r ss" and b: "admit_body ss f = Inr ()" and q: "fr_sequence f = ss_expected ss"
    and a: "act_frame env t (advanced (seen_after ss f) f) f w = Continue ss' w'"
  shows "session_ok r ss'"
proof -
  have s: "session_ok r (advanced ss f)" by (rule session_ok_advanced[OF ok q])
  have same: "same_run r (ss_run ss)" by (rule session_ok_run[OF ok])
  note fields = same_run_fields[OF same] same_run_fields[OF session_ok_run[OF s]]
  show ?thesis
  proof (cases "fr_body f")
    case None
    then show ?thesis using b by (simp add: admit_body_def Let_def)
  next
    case (Some body)
    note body = Some
    show ?thesis
    proof (cases body)
      case (Body_Call c)
      have adm: "ss_accepted ss" "length (ss_seen ss) < unat (r_max_capability_calls r)" "cl_call_id c \<notin> set (ss_seen ss)"
        using admitted_call[OF b] body Body_Call fields(7) by auto
      have "act_call env t (advanced (seen_after ss f) f) c w = Continue ss' w'"
        using a body Body_Call by (simp add: act_frame_def)
      then obtain counts where "ss' = (advanced (seen_after ss f) f)\<lparr>ss_safe := safe_after env (advanced (seen_after ss f) f) c,
          ss_counts := counts, ss_kernel := ss_kernel ss + 1\<rparr>"
        using act_call_Continue[of env t "advanced (seen_after ss f) f" c w ss' w'] body Body_Call by (auto simp: seen_after_def)
      moreover have "ss_run (advanced (seen_after ss f) f) = ss_run (advanced ss f)"
        by (simp add: advanced_def Let_def)
      ultimately show ?thesis
        using s adm body Body_Call by (simp add: session_ok_def seen_after_def add.commute)
    next
      case (Body_Delta d)
      have sa: "seen_after ss f = ss" using body Body_Delta by (simp add: seen_after_def)
      obtain n where "ss' = (advanced ss f)\<lparr>ss_output := ss_output ss + n\<rparr>"
          "\<not> r_max_output_bytes (ss_run (advanced ss f)) - ss_output ss < n"
        using a body Body_Delta sa act_delta_Continue[of env t "advanced ss f" d w ss' w'] by (auto simp: act_frame_def)
      then show ?thesis
        using s fields word_budget[of "ss_output ss" "r_max_output_bytes r" n] by (simp add: session_ok_def)
    next
      case (Body_Final d)
      have sa: "seen_after ss f = ss" using body Body_Final by (simp add: seen_after_def)
      have adm: "ss_accepted ss" "ss_usage ss"
          "length (out_data (outputFromPayload (om_payload d))) \<le> MaxOutputPayloadBytes"
        using admitted_final[OF b] body Body_Final by auto
      have "ss' = (advanced ss f)\<lparr>ss_final := outputFromPayload (om_payload d)\<rparr>"
          "word_of_nat (length (out_data (outputFromPayload (om_payload d)))) \<le> r_max_output_bytes r"
        using a body Body_Final sa act_final_Continue[of env t "advanced ss f" d w ss' w'] fields by (auto simp: act_frame_def)
      then show ?thesis
        using s adm final_within[OF adm(3)] by (simp add: session_ok_def)
    qed (use a body s b in \<open>auto simp: act_frame_def seen_after_def session_ok_def admit_body_def Let_def split: if_splits\<close>)
  qed
qed

lemma run_turn_ok:
  assumes "session_ok r ss" "run_turn env t ss w = Continue ss' w'"
  shows "session_ok r ss'"
proof -
  obtain f where f: "got_frame env t ss f w = Continue ss' w'"
    using assms(2) by (auto simp: run_turn_def split: receive.splits)
  from got_frame_Continue[OF f] admitted_sequence show ?thesis
    using act_frame_ok[OF assms(1)] by metis
qed

lemma run_loop_ok: "session_ok r ss \<Longrightarrow> run_loop env ts ss w = Continue ss' w' \<Longrightarrow> session_ok r ss'"
proof (induction ts arbitrary: ss w)
  case (Cons t ts)
  then show ?case by (auto split: step_result.splits dest: run_turn_ok)
qed simp

text \<open>The turn in which a loop returns.\<close>

lemma run_loop_Return:
  "run_loop env ts ss w = Return w' e \<Longrightarrow> session_ok r ss \<Longrightarrow>
     \<exists>t ss1 w1. t \<in> set ts \<and> session_ok r ss1 \<and> run_turn env t ss1 w1 = Return w' e"
proof (induction ts arbitrary: ss w)
  case (Cons t ts)
  show ?case
  proof (cases "run_turn env t ss w")
    case (Continue s1 w1)
    then have "\<exists>t ss1 w1. t \<in> set ts \<and> session_ok r ss1 \<and> run_turn env t ss1 w1 = Return w' e"
      using Cons.prems run_turn_ok[OF Cons.prems(2) Continue] by (intro Cons.IH[of s1 w1]) simp_all
    then show ?thesis by auto
  next
    case (Return w1 e1)
    then show ?thesis using Cons.prems by auto
  qed
qed simp

section \<open>The start\<close>

lemma open_session_Return:
  "open_session env sd r caps snap w = Return w' e \<Longrightarrow> settled (rn_ports env) r (w', e)"
  unfolding open_session_def Let_def
  by (auto split: turn_splits dest!: settled_step_return simp: settled_all simp del: step_return_simps(1))

lemma open_session_Continue: "open_session env sd r caps snap w = Continue ss w' \<Longrightarrow> ss = new_session r"
  unfolding open_session_def Let_def by (auto split: turn_splits)

lemma context_session_Return:
  "context_session env sd r caps w = Return w' e \<Longrightarrow> settled (rn_ports env) r (w', e)"
  unfolding context_session_def Let_def
  by (auto split: turn_splits dest!: settled_step_return dest: open_session_Return simp: settled_all simp del: step_return_simps(1))

lemma context_session_Continue: "context_session env sd r caps w = Continue ss w' \<Longrightarrow> ss = new_session r"
  unfolding context_session_def Let_def by (auto split: turn_splits dest: open_session_Continue)

lemma start_session_Return:
  "start_session env sd r w = Return w' e \<Longrightarrow> settled (rn_ports env) r (w', e)"
  unfolding start_session_def policy_session_def Let_def
  by (auto split: turn_splits dest!: settled_step_return dest: context_session_Return simp: settled_all simp del: step_return_simps(1))

lemma start_session_Continue: "start_session env sd r w = Continue ss w' \<Longrightarrow> ss = new_session r"
  unfolding start_session_def policy_session_def Let_def by (auto split: turn_splits dest: context_session_Continue)

lemma executeClaimedRun_cases:
  assumes "executeClaimedRun env sd ts r w = x"
  obtains (refused) err where "x = step_return (config_refused env sd r err w)"
  | (not_started) w' e where "start_session env sd r w = Return w' e" "x = Return w' e"
  | (started) w1 where "start_session env sd r w = Continue (new_session r) w1" "x = run_loop env ts (new_session r) w1"
  using assms start_session_Continue[of env sd r w]
  unfolding executeClaimedRun_def
  by (cases "start_session env sd r w") (auto split: sum.splits if_splits)

lemma settled_config_refused: "settled (rn_ports env) r (config_refused env sd r err w)"
  unfolding config_refused_def
  by (rule settled_join[of _ _ _ "[a, b]" "[]" for a b, simplified]) (simp add: settled_complete run_terminal_def)

section \<open>Properties\<close>

text \<open>
  However the surroundings behave, the state of an open session satisfies the loop's invariant: the
  budgets of calls and output, distinct call identifiers, no final result before handshake and usage,
  gap-free numbering.
\<close>

theorem session_within_budgets:
  assumes "executeClaimedRun env sd ts r w = Continue ss w'"
  shows "session_ok r ss"
  using assms by (rule executeClaimedRun_cases) (auto dest: run_loop_ok[OF session_ok_new, OF sym])

text \<open>C22: 
  Every way a claimed Run can return ends with the write that settles it: the store was asked last to
  complete this Run under its lease with a terminal status, and whatever it answered is in the returned
  error, or it has accepted the next attempt.
\<close>

theorem claimed_run_settled:
  assumes "executeClaimedRun env sd ts r w = Return w' e"
  shows "settled (rn_ports env) r (w', e)"
  using assms
proof (rule executeClaimedRun_cases)
  fix err assume "Return w' e = step_return (config_refused env sd r err w)"
  then show ?thesis using settled_config_refused[of env r sd err w] by (metis step_return_simps(1))
next
  fix w1 e1 assume "start_session env sd r w = Return w1 e1" "Return w' e = Return w1 e1"
  then show ?thesis using start_session_Return by fastforce
next
  fix w1 assume "Return w' e = run_loop env ts (new_session r) w1"
  then obtain t ss1 w2 where "session_ok r ss1" "run_turn env t ss1 w2 = Return w' e"
    using run_loop_Return[OF _ session_ok_new, of env ts r w1 w' e] by auto
  then show ?thesis by (intro settled_same[OF session_ok_run run_turn_Return])
qed

section \<open>Success\<close>

lemma join_all_Cons: "join_all (Some e # es) \<noteq> None"
  by (rule join_all_Some[of e]) simp

lemma end_errors:
  "snd (end_failed env ed r (Some err # errs) c safe w) \<noteq> None"
  "snd (end_cancelled env ed r w) \<noteq> None"
  "snd (end_timed_out env ed r w) \<noteq> None"
  "snd (end_interrupted env ed r ctx err c safe w) \<noteq> None"
  "snd (end_unless_cancelled env ed r ctx err c safe w) \<noteq> None"
  "snd (config_refused env sd r more_err w) \<noteq> None"
proof -
  show f: "snd (end_failed env ed r (Some err # errs) c safe w) \<noteq> None" for errs
    by (simp add: end_failed_def join_all_Cons case_prod_beta del: not_None_eq)
  show c: "snd (end_cancelled env ed r w) \<noteq> None"
    by (simp add: end_cancelled_def join_all_Cons case_prod_beta del: not_None_eq)
  show t: "snd (end_timed_out env ed r w) \<noteq> None"
    by (simp add: end_timed_out_def join_all_Cons case_prod_beta del: not_None_eq)
  show "snd (end_interrupted env ed r ctx err c safe w) \<noteq> None"
    using f[of "[]"] c t by (simp add: end_interrupted_def split: option.split context_error.split del: not_None_eq)
  show "snd (end_unless_cancelled env ed r ctx err c safe w) \<noteq> None"
    using f[of "[]"] c by (simp add: end_unless_cancelled_def del: not_None_eq)
  show "snd (config_refused env sd r more_err w) \<noteq> None"
    by (simp add: config_refused_def join_all_Cons case_prod_beta del: not_None_eq)
qed

lemma step_return_error: "step_return x = Return w None \<Longrightarrow> snd x = None"
  by (simp add: step_return_def)

lemma act_frame_error: "act_frame env t ss f w \<noteq> Return w' None"
  unfolding act_frame_def act_call_def act_delta_def act_final_def Let_def
  by (auto split: turn_splits frame_body.splits dest!: step_return_error simp: end_errors simp del: step_return_simps(1))

lemma got_frame_error: "got_frame env t ss f w \<noteq> Return w' None"
  unfolding got_frame_def Let_def
  by (auto split: turn_splits dest!: step_return_error simp: end_errors act_frame_error simp del: step_return_simps(1))

lemma open_session_error: "open_session env sd r caps snap w \<noteq> Return w' None"
  unfolding open_session_def Let_def
  by (auto split: turn_splits dest!: step_return_error simp: end_errors simp del: step_return_simps(1))

lemma context_session_error: "context_session env sd r caps w \<noteq> Return w' None"
  unfolding context_session_def Let_def
  by (auto split: turn_splits dest!: step_return_error simp: end_errors open_session_error simp del: step_return_simps(1))

lemma start_session_error: "start_session env sd r w \<noteq> Return w' None"
  unfolding start_session_def policy_session_def Let_def
  by (auto split: turn_splits dest!: step_return_error simp: end_errors context_session_error simp del: step_return_simps(1))

lemma recv_failed_success:
  assumes "recv_failed env t ss err w = (w', None)"
  shows "err = None \<and> 0 < length (out_data (ss_final ss)) \<and>
    (\<exists>now w0. rp_complete (rn_ports env) (ss_run ss) Run_Succeeded Echo_Succeeded (ss_final ss) no_error now w0 = (w', Inr ()))"
proof -
  let ?p = "rn_ports env" and ?r = "ss_run ss"
  have reported: "(case failPublic cfg sha ?p ed ?r failure safe w1 of (w2, e) \<Rightarrow> (w2, join_all [Some x, e, y])) \<noteq> (w', None)"
    for cfg sha ed failure safe w1 x y
    using join_all_Cons[of x] by (auto split: prod.split)
  have ends: "end_failed env ed r (Some x # xs) c safe w1 \<noteq> (w', None)" "end_cancelled env ed r w1 \<noteq> (w', None)"
      "end_timed_out env ed r w1 \<noteq> (w', None)" for ed r x xs c safe w1
    using end_errors by (metis snd_conv)+
  have finished: "\<exists>now w0. rp_complete ?p ?r Run_Succeeded Echo_Succeeded out no_error now w0 = (w', Inr ())"
    if "completeRun ?p now ?r Run_Succeeded Echo_Succeeded out no_error w1 = (w', None)" for now out w1
    using that by (auto simp: completeRun_def split: prod.splits sum.splits)
  show ?thesis
    using assms unfolding recv_failed_def Let_def
    by (auto split: turn_splits simp: ends reported dest: finished)
qed

section \<open>The frames of a successful session\<close>

text \<open>What the session's state says of the frames received so far.\<close>

definition heard :: "run_record \<Rightarrow> frame list \<Rightarrow> session_state \<Rightarrow> bool" where
  "heard r fs ss \<longleftrightarrow>
     map fr_sequence fs = map (\<lambda>i. r_last_sequence r + 1 + word_of_nat i) [0..<length fs] \<and>
     ss_expected ss = r_last_sequence r + 1 + word_of_nat (length fs) \<and>
     (\<forall>f \<in> set fs. fr_echo_id f = r_echo_id r \<and> fr_run_id f = r_id r) \<and>
     (ss_accepted ss \<longleftrightarrow> fs \<noteq> []) \<and> (fs \<noteq> [] \<longrightarrow> (\<exists>a. fr_body (hd fs) = Some (Body_Accepted a))) \<and>
     (ss_usage ss \<longrightarrow> (\<exists>f \<in> set fs. \<exists>u. fr_body f = Some (Body_Usage u))) \<and>
     (ss_failure ss = None \<longrightarrow> (\<forall>f \<in> set fs. \<forall>x. fr_body f \<noteq> Some (Body_Failure x))) \<and>
     (out_data (ss_final ss) \<noteq> [] \<longrightarrow> ss_failure ss = None \<and> ss_usage ss \<and>
        (\<exists>d. fr_body (last fs) = Some (Body_Final d) \<and> ss_final ss = outputFromPayload (om_payload d)))"

lemma heard_new: "heard r [] (new_session r)"
  by (simp add: heard_def new_session_def no_output_def)

lemma seen_after_sel [simp]:
  "ss_final (seen_after ss f) = ss_final ss" "ss_accepted (seen_after ss f) = ss_accepted ss"
  "ss_usage (seen_after ss f) = ss_usage ss" "ss_expected (seen_after ss f) = ss_expected ss"
  "ss_failure (seen_after ss f) = ss_failure ss"
  by (simp_all add: seen_after_def split: option.split frame_body.split)

lemma admit_frame_envelope:
  assumes "admit_frame env ss f = Inr ()"
  shows "out_data (ss_final ss) = []" and "ss_failure ss = None" and "fr_echo_id f = r_echo_id (ss_run ss)"
    and "fr_run_id f = r_id (ss_run ss)" and "fr_sequence f = ss_expected ss" and "admit_body ss f = Inr ()"
  using assms
  by (auto simp: admit_frame_def Let_def and_then_Inr ValidateInboundEnvelope_def validateEnvelope_Inr split: if_splits)

lemma act_frame_effect:
  assumes "act_frame env t ss f w = Continue ss' w'" and "admit_body ss0 f = Inr ()" and "ss_accepted ss0 = ss_accepted ss"
    and "ss_usage ss0 = ss_usage ss" and "out_data (ss_final ss) = []"
  shows "ss_expected ss' = ss_expected ss \<and> ss_accepted ss' \<and>
    (\<not> ss_accepted ss \<longrightarrow> (\<exists>a. fr_body f = Some (Body_Accepted a))) \<and>
    (ss_usage ss' \<longleftrightarrow> ss_usage ss \<or> (\<exists>u. fr_body f = Some (Body_Usage u))) \<and>
    (ss_failure ss' = None \<longleftrightarrow> ss_failure ss = None \<and> (\<forall>x. fr_body f \<noteq> Some (Body_Failure x))) \<and>
    (out_data (ss_final ss') \<noteq> [] \<longrightarrow> ss_usage ss \<and>
       (\<exists>d. fr_body f = Some (Body_Final d) \<and> ss_final ss' = outputFromPayload (om_payload d)))"
proof (cases "fr_body f")
  case None
  then show ?thesis using assms(2) by (simp add: admit_body_def)
next
  case (Some body)
  show ?thesis
  proof (cases body)
    case (Body_Call c)
    then show ?thesis
      using assms Some by (auto simp: act_frame_def admit_body_def Let_def split: if_splits dest!: act_call_Continue)
  next
    case (Body_Delta d)
    then show ?thesis
      using assms Some by (auto simp: act_frame_def admit_body_def Let_def split: if_splits dest!: act_delta_Continue)
  next
    case (Body_Final d)
    then show ?thesis
      using assms Some by (auto simp: act_frame_def admit_body_def Let_def split: if_splits dest!: act_final_Continue)
  qed (use assms Some in \<open>auto simp: act_frame_def admit_body_def Let_def split: if_splits\<close>)
qed

lemma run_turn_heard:
  assumes "heard r fs ss" and "same_run r (ss_run ss)" and "run_turn env t ss w = Continue ss' w'"
  shows "\<exists>f. tn_recv t = Got f \<and> heard r (fs @ [f]) ss'"
proof -
  obtain f where f: "tn_recv t = Got f" and g: "got_frame env t ss f w = Continue ss' w'"
    using assms(3) by (auto simp: run_turn_def split: receive.splits)
  obtain w1 where a: "admit_frame env ss f = Inr ()" and act: "act_frame env t (advanced (seen_after ss f) f) f w1 = Continue ss' w'"
    using g by (rule got_frame_Continue)
  note env = admit_frame_envelope[OF a]
  have eff: "ss_expected ss' = ss_expected ss + 1" "ss_accepted ss'"
    "\<not> ss_accepted ss \<Longrightarrow> \<exists>a. fr_body f = Some (Body_Accepted a)"
    "ss_usage ss' \<longleftrightarrow> ss_usage ss \<or> (\<exists>u. fr_body f = Some (Body_Usage u))"
    "ss_failure ss' = None \<longleftrightarrow> (\<forall>x. fr_body f \<noteq> Some (Body_Failure x))"
    "out_data (ss_final ss') \<noteq> [] \<Longrightarrow> ss_usage ss \<and>
       (\<exists>d. fr_body f = Some (Body_Final d) \<and> ss_final ss' = outputFromPayload (om_payload d))"
    using act_frame_effect[OF act env(6)] env(1,2) by auto
  have "map fr_sequence (fs @ [f]) = map (\<lambda>i. r_last_sequence r + 1 + word_of_nat i) [0..<length (fs @ [f])]"
    using assms(1) env(5) by (simp add: heard_def)
  moreover have "\<exists>a. fr_body (hd (fs @ [f])) = Some (Body_Accepted a)"
    using assms(1) eff(3) by (cases fs) (auto simp: heard_def)
  moreover have "fr_echo_id f = r_echo_id r" "fr_run_id f = r_id r"
    using env(3,4) by (simp_all add: same_run_fields[OF assms(2)])
  ultimately have "heard r (fs @ [f]) ss'"
    using assms(1) env(2) eff unfolding heard_def by (auto simp: add.assoc add.commute)
  then show ?thesis using f by blast
qed

text \<open>The turns before the one in which a loop returns received the frames the state has heard.\<close>

lemma run_loop_heard:
  "run_loop env ts ss w = Return w' e \<Longrightarrow> session_ok r ss \<Longrightarrow> heard r fs ss \<Longrightarrow>
     \<exists>us t rest gs ss1 w1. ts = us @ t # rest \<and> map tn_recv us = map Got gs \<and> session_ok r ss1 \<and>
       heard r (fs @ gs) ss1 \<and> run_turn env t ss1 w1 = Return w' e"
proof (induction ts arbitrary: ss w fs)
  case (Cons t ts)
  show ?case
  proof (cases "run_turn env t ss w")
    case (Return w1 e1)
    then have "run_turn env t ss w = Return w' e" using Cons.prems(1) by simp
    then show ?thesis
      using Cons.prems(2,3) by (intro exI[of _ "[]"] exI[of _ t] exI[of _ ts] exI[of _ ss] exI[of _ w]) simp
  next
    case (Continue s1 w1)
    obtain f where f: "tn_recv t = Got f" "heard r (fs @ [f]) s1"
      using run_turn_heard[OF Cons.prems(3) session_ok_run[OF Cons.prems(2)] Continue] by blast
    have "run_loop env ts s1 w1 = Return w' e" using Cons.prems(1) Continue by simp
    from Cons.IH[OF this run_turn_ok[OF Cons.prems(2) Continue] f(2)]
    obtain us u rest gs ss1 w2 where "ts = us @ u # rest" "map tn_recv us = map Got gs" "session_ok r ss1"
      "heard r (fs @ f # gs) ss1" "run_turn env u ss1 w2 = Return w' e"
      by auto
    then show ?thesis
      using f(1) by (intro exI[of _ "t # us"] exI[of _ u] exI[of _ rest] exI[of _ "f # gs"] exI[of _ ss1] exI[of _ w2]) simp
  qed
qed simp

text \<open>C23: 
  \<open>executeClaimedRun\<close> returns no error only when the frames it received make a complete session and the
  store has accepted the success of the Run with the result they carried: the stream ended after frames
  of this Run that are numbered without gaps from the stored number on, of which the first is the
  handshake, one is a usage report, none is a failure and the last is the final result, which is not
  empty and fits the Run's output budget.
\<close>

theorem success_needs_final_result:
  assumes "executeClaimedRun env sd ts r w = Return w' None"
  shows "\<exists>us t rest fs d r' now w0.
    ts = us @ t # rest \<and> map tn_recv us = map Got fs \<and> tn_recv t = End_Of_Stream \<and>
    map fr_sequence fs = map (\<lambda>i. r_last_sequence r + 1 + word_of_nat i) [0..<length fs] \<and>
    (\<forall>f \<in> set fs. fr_echo_id f = r_echo_id r \<and> fr_run_id f = r_id r) \<and>
    (\<exists>a. fr_body (hd fs) = Some (Body_Accepted a)) \<and>
    (\<exists>f \<in> set fs. \<exists>u. fr_body f = Some (Body_Usage u)) \<and>
    (\<forall>f \<in> set fs. \<forall>x. fr_body f \<noteq> Some (Body_Failure x)) \<and>
    fr_body (last fs) = Some (Body_Final d) \<and>
    out_data (outputFromPayload (om_payload d)) \<noteq> [] \<and>
    length (out_data (outputFromPayload (om_payload d))) \<le> unat (r_max_output_bytes r) \<and>
    r_id r' = r_id r \<and> r_app_id r' = r_app_id r \<and> r_lease_token r' = r_lease_token r \<and>
    rp_complete (rn_ports env) r' Run_Succeeded Echo_Succeeded (outputFromPayload (om_payload d)) no_error now w0 =
      (w', Inr ())"
  using assms
proof (rule executeClaimedRun_cases)
  fix err assume "Return w' None = step_return (config_refused env sd r err w)"
  then show ?thesis using end_errors(6) step_return_error by metis
next
  fix w1 e1 assume "start_session env sd r w = Return w1 e1" "Return w' None = Return w1 e1"
  then show ?thesis using start_session_error[of env sd r w w'] by simp
next
  fix w1 assume "Return w' None = run_loop env ts (new_session r) w1"
  then obtain us t rest fs ss w2 where ts: "ts = us @ t # rest" "map tn_recv us = map Got fs"
    and ss: "session_ok r ss" "heard r fs ss" and ret: "run_turn env t ss w2 = Return w' None"
    using run_loop_heard[OF _ session_ok_new heard_new, of env ts r w1 w' None] by auto
  obtain err where err: "tn_recv t = (case err of None \<Rightarrow> End_Of_Stream | Some e \<Rightarrow> Recv_Error e)"
    and rf: "recv_failed env t ss err w2 = (w', None)"
  proof (cases "tn_recv t")
    case (Got f)
    then show thesis using ret got_frame_error[of env t ss f w2 w'] by (simp add: run_turn_def)
  next
    case End_Of_Stream
    then show thesis using ret that[of None] by (simp add: run_turn_def)
  next
    case (Recv_Error e)
    then show thesis using ret that[of "Some e"] by (simp add: run_turn_def)
  qed
  obtain now w0 where c: "err = None" "out_data (ss_final ss) \<noteq> []"
    "rp_complete (rn_ports env) (ss_run ss) Run_Succeeded Echo_Succeeded (ss_final ss) no_error now w0 = (w', Inr ())"
    using recv_failed_success[OF rf] by auto
  obtain d where d: "fr_body (last fs) = Some (Body_Final d)" "ss_final ss = outputFromPayload (om_payload d)"
    using ss(2) c(2) by (auto simp: heard_def)
  have "fs \<noteq> []" and u: "ss_usage ss" "ss_failure ss = None"
    using ss c(2) by (auto simp: heard_def session_ok_def no_output_def)
  note h = ss(2)[unfolded heard_def] and run = same_run_fields[OF session_ok_run[OF ss(1)]]
  show ?thesis
    by (rule exI[of _ us], rule exI[of _ t], rule exI[of _ rest], rule exI[of _ fs], rule exI[of _ d],
        rule exI[of _ "ss_run ss"], rule exI[of _ now], rule exI[of _ w0])
      (use ts err c d u h run ss(1) \<open>fs \<noteq> []\<close> in \<open>simp add: session_ok_def\<close>)
qed

end
