(* ===== verification/Session_Independence.thy ===== *)
theory Session_Independence
  imports Session_Loop
begin

text \<open>
  Two statements about what a session can no longer do, as independence of a port: exchanging the port for
  any other leaves the whole run of the session the same.
\<close>

definition with_retry ::
  "('i, 'w) run_env \<Rightarrow> (run_record \<Rightarrow> run_record \<Rightarrow> public_error \<Rightarrow> instant \<Rightarrow> 'w \<Rightarrow> 'w \<times> unit go_result) \<Rightarrow> ('i, 'w) run_env"
where
  "with_retry env f = env\<lparr>rn_ports := (rn_ports env)\<lparr>rp_retry := f\<rparr>\<rparr>"

definition with_append ::
  "('i, 'w) run_env \<Rightarrow> (echo_event \<Rightarrow> 'w \<Rightarrow> 'w \<times> echo_event go_result) \<Rightarrow> ('i, 'w) run_env" where
  "with_append env f = env\<lparr>rn_ports := (rn_ports env)\<lparr>rp_append := f\<rparr>\<rparr>"

lemma exchanged_sel [simp]:
  "rn_config (with_retry env f) = rn_config env" "rn_config (with_append env g) = rn_config env"
  "rn_lib (with_retry env f) = rn_lib env" "rn_lib (with_append env g) = rn_lib env"
  "rn_source (with_append env g) = rn_source env" "rn_project (with_append env g) = rn_project env"
  "rn_context_lib (with_append env g) = rn_context_lib env" "rn_history (with_append env g) = rn_history env"
  "rn_budget (with_append env g) = rn_budget env" "rn_assembly_error (with_append env g) = rn_assembly_error env"
  "rn_resolve (with_retry env f) = rn_resolve env" "rn_resolve (with_append env g) = rn_resolve env"
  "rn_size (with_retry env f) = rn_size env" "rn_size (with_append env g) = rn_size env"
  "rn_text (with_retry env f) = rn_text env" "rn_text (with_append env g) = rn_text env"
  "rn_invoke (with_retry env f) = rn_invoke env" "rn_invoke (with_append env g) = rn_invoke env"
  "rn_ports (with_retry env f) = (rn_ports env)\<lparr>rp_retry := f\<rparr>"
  "rn_ports (with_append env g) = (rn_ports env)\<lparr>rp_append := g\<rparr>"
  by (simp_all add: with_retry_def with_append_def)

lemma event_payload_exchanged [simp]:
  "event_payload (with_retry env f) r ev = event_payload env r ev"
  "event_payload (with_append env g) r ev = event_payload env r ev"
  by (cases ev; simp)+

lemma admit_exchanged [simp]:
  "admit_frame (with_retry env f) ss fr = admit_frame env ss fr"
  "admit_frame (with_append env g) ss fr = admit_frame env ss fr"
  "safe_after (with_retry env f) ss c = safe_after env ss c"
  "safe_after (with_append env g) ss c = safe_after env ss c"
  by (simp_all add: admit_frame_def safe_after_def Let_def)

lemma advance_exchanged [simp]:
  "advance_run (with_retry env f) r fr w = advance_run env r fr w"
  "advance_run (with_append env g) r fr w = advance_run env r fr w"
  by (simp_all add: advance_run_def split: option.split frame_body.split)

lemma completeRun_exchanged [simp]:
  "completeRun (ports\<lparr>rp_retry := f\<rparr>) now r st es out failure w = completeRun ports now r st es out failure w"
  "completeRun (ports\<lparr>rp_append := g\<rparr>) now r st es out failure w = completeRun ports now r st es out failure w"
  by (simp_all add: completeRun_def)

section \<open>No retry after an unsafe call\<close>

lemma unsafe_ends [simp]:
  "failPublic cfg sha256 (ports\<lparr>rp_retry := f\<rparr>) ed r failure False w = failPublic cfg sha256 ports ed r failure False w"
  "end_failed (with_retry env f) ed r errs c False w = end_failed env ed r errs c False w"
  "end_cancelled (with_retry env f) ed r w = end_cancelled env ed r w"
  "end_timed_out (with_retry env f) ed r w = end_timed_out env ed r w"
  "end_interrupted (with_retry env f) ed r ctx err c False w = end_interrupted env ed r ctx err c False w"
  "end_unless_cancelled (with_retry env f) ed r ctx err c False w = end_unless_cancelled env ed r ctx err c False w"
  "emitEvent (with_retry env f) r em ev w = emitEvent env r em ev w"
proof -
  show p: "failPublic cfg sha256 (ports\<lparr>rp_retry := f\<rparr>) ed r failure False w = failPublic cfg sha256 ports ed r failure False w"
    for cfg sha256 ports ed r failure w
    by (simp add: failPublic_def canRetry_def)
  show f: "end_failed (with_retry env f) ed r errs c False w = end_failed env ed r errs c False w" for errs
    by (simp add: end_failed_def failRun_def p)
  show c: "end_cancelled (with_retry env f) ed r w = end_cancelled env ed r w"
    by (simp add: end_cancelled_def)
  show t: "end_timed_out (with_retry env f) ed r w = end_timed_out env ed r w"
    by (simp add: end_timed_out_def)
  show "end_interrupted (with_retry env f) ed r ctx err c False w = end_interrupted env ed r ctx err c False w"
    by (simp add: end_interrupted_def f c t split: option.split context_error.split)
  show "end_unless_cancelled (with_retry env f) ed r ctx err c False w = end_unless_cancelled env ed r ctx err c False w"
    by (simp add: end_unless_cancelled_def f c)
  show "emitEvent (with_retry env f) r em ev w = emitEvent env r em ev w"
    by (simp add: emitEvent_def)
qed

lemma safe_after_unsafe [simp]: "\<not> ss_safe ss \<Longrightarrow> safe_after env ss c = False"
  by (simp add: safe_after_def split: sum.split)

lemma act_frame_unsafe:
  "\<not> ss_safe ss \<Longrightarrow> act_frame (with_retry env f) t ss fr w = act_frame env t ss fr w"
  by (simp add: act_frame_def act_call_def act_delta_def act_final_def Let_def
      split: option.split frame_body.split prod.split sum.split)

lemma seen_after_safe [simp]: "ss_safe (seen_after ss fr) = ss_safe ss"
  by (simp add: seen_after_def split: option.split frame_body.split)

lemma run_turn_unsafe:
  "\<not> ss_safe ss \<Longrightarrow> run_turn (with_retry env f) t ss w = run_turn env t ss w"
  by (simp add: run_turn_def got_frame_def recv_failed_def act_frame_unsafe canRetry_def Let_def
      split: receive.split option.split prod.split sum.split)

lemma act_frame_stays_unsafe:
  "\<not> ss_safe ss \<Longrightarrow> act_frame env t ss fr w = Continue ss' w' \<Longrightarrow> \<not> ss_safe ss'"
  by (auto simp: act_frame_def split: option.splits frame_body.splits
      dest!: act_call_Continue act_delta_Continue act_final_Continue)

lemma run_turn_stays_unsafe:
  assumes "\<not> ss_safe ss" "run_turn env t ss w = Continue ss' w'"
  shows "\<not> ss_safe ss'"
proof -
  obtain f where f: "got_frame env t ss f w = Continue ss' w'"
    using assms(2) by (auto simp: run_turn_def split: receive.splits)
  obtain w1 where "act_frame env t (advanced (seen_after ss f) f) f w1 = Continue ss' w'"
    using f by (rule got_frame_Continue)
  then show ?thesis using assms(1) by (auto dest!: act_frame_stays_unsafe[rotated])
qed

lemma run_loop_unsafe:
  "\<not> ss_safe ss \<Longrightarrow> run_loop (with_retry env f) ts ss w = run_loop env ts ss w"
proof (induction ts arbitrary: ss w)
  case (Cons t ts)
  then show ?case
    by (simp add: run_turn_unsafe) (auto split: step_result.split dest: run_turn_stays_unsafe)
qed simp

lemma act_call_unsafe:
  "\<not> safe_after env ss c \<Longrightarrow> act_call (with_retry env f) t ss c w = act_call env t ss c w"
  by (simp add: act_call_def Let_def split: prod.split sum.split option.split)

lemma safe_after_cong [simp]:
  "safe_after env (advanced (seen_after ss g) g) c = safe_after env ss c"
  by (simp add: safe_after_def split: sum.split)

lemma run_turn_call:
  assumes "tn_recv t = Got g" "fr_body g = Some (Body_Call c)" "admit_frame env ss g = Inr ()"
    and "advance_run env (ss_run ss) g w = (w1, Inr ())"
  shows "run_turn env t ss w = act_call env t (advanced (seen_after ss g) g) c w1"
  using assms by (simp add: run_turn_def got_frame_def act_frame_def Let_def)

text \<open>C24: 
  Once a call of a capability that is not safe to replay has been admitted and its frame counted in the
  store, the session never schedules an automatic retry, however it goes on: from that turn on, failures
  of the call itself, of sending its result and of its event included, the store's retry operation has no
  influence on the session.
\<close>

theorem unsafe_call_never_retried:
  assumes "tn_recv t = Got g" "fr_body g = Some (Body_Call c)" "admit_frame env ss g = Inr ()"
    and "advance_run env (ss_run ss) g w = (w1, Inr ())"
    and "rn_resolve env (cl_capability_id c) = Inr spec" "es_replay (cs_execution spec) \<noteq> ReplaySafe"
  shows "run_loop (with_retry env retry) (t # ts) ss w = run_loop env (t # ts) ss w"
proof -
  have unsafe: "\<not> safe_after env ss c"
    using assms(5,6) by (simp add: safe_after_def)
  have turn: "run_turn (with_retry env retry) t ss w = run_turn env t ss w"
    using run_turn_call[OF assms(1-4)] run_turn_call[OF assms(1,2), of "with_retry env retry" ss w w1] assms(3,4) unsafe
    by (simp add: act_call_unsafe)
  have "\<not> ss_safe ss'" if "run_turn env t ss w = Continue ss' w'" for ss' w'
    using that unsafe unfolding run_turn_call[OF assms(1-4)] by (auto dest!: act_call_Continue)
  then show ?thesis
    by (simp add: turn run_loop_unsafe split: step_result.split)
qed

section \<open>A child Run is silent\<close>

lemma emitEvent_child: "r_parent_id r \<noteq> [] \<Longrightarrow> emitEvent env r em ev w = (w, None)"
  by (simp add: emitEvent_def)

lemma append_ends [simp]:
  "failPublic cfg sha256 (ports\<lparr>rp_append := g\<rparr>) ed r failure safe w = failPublic cfg sha256 ports ed r failure safe w"
  "end_failed (with_append env g) ed r errs c safe w = end_failed env ed r errs c safe w"
  "end_cancelled (with_append env g) ed r w = end_cancelled env ed r w"
  "end_timed_out (with_append env g) ed r w = end_timed_out env ed r w"
  "end_interrupted (with_append env g) ed r ctx err c safe w = end_interrupted env ed r ctx err c safe w"
  "end_unless_cancelled (with_append env g) ed r ctx err c safe w = end_unless_cancelled env ed r ctx err c safe w"
  "config_refused (with_append env g) sd r err' w = config_refused env sd r err' w"
proof -
  show p: "failPublic cfg sha256 (ports\<lparr>rp_append := g\<rparr>) ed r failure safe w = failPublic cfg sha256 ports ed r failure safe w"
    for cfg sha256 ports ed r failure w
    by (simp add: failPublic_def retryRun_def)
  show f: "end_failed (with_append env g) ed r errs c safe w = end_failed env ed r errs c safe w" for errs
    by (simp add: end_failed_def failRun_def p)
  show c: "end_cancelled (with_append env g) ed r w = end_cancelled env ed r w"
    by (simp add: end_cancelled_def)
  show t: "end_timed_out (with_append env g) ed r w = end_timed_out env ed r w"
    by (simp add: end_timed_out_def)
  show "end_interrupted (with_append env g) ed r ctx err c safe w = end_interrupted env ed r ctx err c safe w"
    by (simp add: end_interrupted_def f c t split: option.split context_error.split)
  show "end_unless_cancelled (with_append env g) ed r ctx err c safe w = end_unless_cancelled env ed r ctx err c safe w"
    by (simp add: end_unless_cancelled_def f c)
  show "config_refused (with_append env g) sd r err' w = config_refused env sd r err' w"
    by (simp add: config_refused_def)
qed

lemma parent_advanced [simp]: "r_parent_id (ss_run (advanced ss f)) = r_parent_id (ss_run ss)"
  by (simp add: same_run_fields[OF same_run_advanced])

lemma act_frame_child:
  "r_parent_id (ss_run ss) \<noteq> [] \<Longrightarrow> act_frame (with_append env g) t ss f w = act_frame env t ss f w"
  by (simp add: act_frame_def act_call_def act_delta_def act_final_def emitEvent_child Let_def
      split: option.split frame_body.split prod.split sum.split)

lemma run_turn_child:
  "r_parent_id (ss_run ss) \<noteq> [] \<Longrightarrow> run_turn (with_append env g) t ss w = run_turn env t ss w"
  by (simp add: run_turn_def got_frame_def recv_failed_def act_frame_child emitEvent_child Let_def
      split: receive.split option.split prod.split sum.split)

lemma run_loop_child:
  "session_ok r ss \<Longrightarrow> r_parent_id r \<noteq> [] \<Longrightarrow> run_loop (with_append env g) ts ss w = run_loop env ts ss w"
proof (induction ts arbitrary: ss w)
  case (Cons t ts)
  have "r_parent_id (ss_run ss) \<noteq> []"
    using Cons.prems by (simp add: same_run_fields[OF session_ok_run])
  then show ?case
    using Cons run_turn_ok[OF Cons.prems(1), of env t w]
    by (simp add: run_turn_child split: step_result.split)
qed simp

lemma start_session_child:
  "r_parent_id r \<noteq> [] \<Longrightarrow> start_session (with_append env g) sd r w = start_session env sd r w"
  by (simp add: start_session_def policy_session_def context_session_def open_session_def emitEvent_child
      context_request_def start_frame_def Let_def split: option.split prod.split sum.split)

text \<open>
  A child Run tells its Echo nothing: the event log has no influence on its execution, so no event is
  appended and no failure of an event can end it.
\<close>

theorem child_run_silent:
  assumes "r_parent_id r \<noteq> []"
  shows "executeClaimedRun (with_append env g) sd ts r w = executeClaimedRun env sd ts r w"
proof (cases "start_session env sd r w")
  case (Continue ss w1)
  then have "ss = new_session r" by (rule start_session_Continue)
  then show ?thesis
    using Continue run_loop_child[OF session_ok_new assms, of env g ts w1]
    by (simp add: executeClaimedRun_def start_session_child[OF assms] split: sum.split)
next
  case (Return w1 e)
  then show ?thesis by (simp add: executeClaimedRun_def start_session_child[OF assms] split: sum.split)
qed

end
