(* ===== verification/Orchestrator_Guarantees.thy ===== *)
theory Orchestrator_Guarantees
  imports Session_Guarantees Child_Run
begin

text \<open>
  The check that a claimed Run passes against the configuration revision it was created under, and the
  delay before the next attempt. A Run descends from a configuration as a root Run created from it, as the
  next attempt of a Run that descends from it, or as a child of such a Run while it executes.
\<close>

inductive descends :: "orch_config \<Rightarrow> app_config \<Rightarrow> run_record \<Rightarrow> bool" for cfg c where
  root: "descends cfg c (new_root_run cfg c policy rq echo_id run_id now)"
| attempt: "descends cfg c r \<Longrightarrow> descends cfg c (next_attempt cfg sha256 run_id now r)"
| child: "descends cfg c p \<Longrightarrow> same_run p p' \<Longrightarrow> request_complete i \<Longrightarrow> budgets_fit p' i \<Longrightarrow>
    descends cfg c (child_record p' i child_id group_id call_id grants deadline now)"

text \<open>What a verified configuration says of the numbers of the check.\<close>

lemma verified_limits:
  assumes "VerifyConfig marshal sha256 c app revision = Inr ()"
  shows "0 < ac_max_steps c" "0 < ac_max_capability_calls c" "0 < ac_max_execution_units c"
    "0 < ac_max_output_bytes c" "0 < timeout_ms c"
proof -
  obtain n where "NormalizeConfig marshal sha256 c = Inr n"
    using assms by (auto simp: VerifyConfig_def split: if_splits sum.splits)
  then obtain c2 gs where c2: "ValidateConfig c2 = Inr ()"
    "c2 = c\<lparr>ac_app_id := TrimSpace (ac_app_id c), ac_executor_id := TrimSpace (ac_executor_id c),
       ac_executor_config := (if length (ac_executor_config c) = 0 then ''{}'' else ac_executor_config c),
       ac_grants := gs\<rparr>"
    by (elim NormalizeConfig_Inr) blast
  then have t: "100 * millisecond \<le> ac_execution_timeout c" "ac_execution_timeout c \<le> 5 * minute"
    and "ac_max_steps c \<noteq> 0" "ac_max_capability_calls c \<noteq> 0" "ac_max_execution_units c \<noteq> 0" "ac_max_output_bytes c \<noteq> 0"
    by (simp_all add: ValidateConfig_ok)
  then show "0 < ac_max_steps c" "0 < ac_max_capability_calls c" "0 < ac_max_execution_units c" "0 < ac_max_output_bytes c"
    by (simp_all add: word_neq_0_conv)
  let ?ms = "ac_execution_timeout c div millisecond"
  have ms: "1 \<le> ?ms" "?ms \<le> 300000"
    using t by (simp_all add: duration_defs)
  have "uint (timeout_ms c) = ?ms"
    using ms t by (simp add: timeout_ms_def go_div_nonneg duration_defs uint_word_of_int take_bit_int_eq_self)
  then show "0 < timeout_ms c" using ms(1) by (simp add: word_less_alt)
qed

lemma budgets_fit_le:
  assumes "budgets_fit p i" "request_complete i"
  shows "0 < ch_max_steps i" "ch_max_steps i \<le> r_max_steps p" "0 < ch_max_capability_calls i"
    "ch_max_capability_calls i \<le> r_max_capability_calls p" "0 < ch_max_execution_units i"
    "ch_max_execution_units i \<le> r_max_execution_units p" "0 < ch_max_output_bytes i"
    "ch_max_output_bytes i \<le> r_max_output_bytes p" "ch_max_cost i \<le> r_max_cost p" "0 < ch_timeout_ms i"
    "ch_timeout_ms i \<le> r_execution_timeout_ms p"
proof -
  have sub: "x \<le> a" if "\<not> a < b" "\<not> a - b < x" for a b x :: u64
    using that by unat_arith
  note facts = assms[unfolded budgets_fit_def request_complete_def Let_def]
  show "ch_max_execution_units i \<le> r_max_execution_units p" "ch_max_cost i \<le> r_max_cost p"
    using facts sub by (auto split: if_splits)
  show "0 < ch_timeout_ms i" using facts by (auto simp: word_less_nat_alt not_less)
qed (use assms in \<open>auto simp: budgets_fit_def request_complete_def Let_def not_less word_neq_0_conv\<close>)

text \<open>
  The check after the claim never refuses a Run for its own history: every Run that descends from a
  verified configuration through any number of retries and delegations passes it against that
  configuration, so \<open>recovery_failed\<close> means that the stored Run or the configuration has changed.
\<close>

theorem descendants_match_config:
  assumes "VerifyConfig marshal sha256 c app revision = Inr ()" "descends cfg c r"
  shows "runMatchesAppConfig r c"
  using assms(2)
proof induction
  case (root policy rq echo_id run_id now)
  then show ?case using verified_limits[OF assms(1)] by (simp add: runMatchesAppConfig_def new_root_run_def)
next
  case (attempt r sha256 run_id now)
  then show ?case by (simp add: runMatchesAppConfig_def next_attempt_def Let_def)
next
  case (child p p' i child_id group_id call_id grants deadline now)
  have "runMatchesAppConfig p' c"
    using child.IH child.hyps(2) by (subst same_run_def[THEN iffD1, OF child.hyps(2)]) (simp add: runMatchesAppConfig_def)
  then show ?case
    using budgets_fit_le[OF child.hyps(4,3)] by (auto simp: runMatchesAppConfig_def child_record_def)
qed

text \<open>
  The delay of a retry has a closed form: the base delay doubled per attempt and capped, but never below
  the base, with a jitter of at most a fifth either way drawn from the identifier. No product overflows.
\<close>

theorem retry_delay_closed:
  assumes "0 < oc_retry_base cfg" "oc_retry_base cfg < 2 ^ 52" "oc_retry_max cfg < 2 ^ 52"
  shows "runRetryDelay cfg sha256 r =
    max (oc_retry_base cfg) (min (oc_retry_max cfg) (oc_retry_base cfg * 2 ^ (unat (r_attempt r) - 1)))
      * jitterPermille (run_jitter_byte sha256 r) div 1000"
proof -
  have "run_jitter_byte sha256 r < 256"
    by (auto simp: run_jitter_byte_def code_def split: list.split)
  moreover have "retry_loop (oc_retry_max cfg) (unat (r_attempt r) - 1) (oc_retry_base cfg) =
      max (oc_retry_base cfg) (min (oc_retry_max cfg) (oc_retry_base cfg * 2 ^ (unat (r_attempt r) - 1)))"
    using assms by (intro retry_loop_closed) simp_all
  ultimately show ?thesis
    unfolding runRetryDelay_def using assms by (subst jittered_value) (simp_all add: max_def min_def)
qed

end
