(* ===== verification/Session_Samples.thy ===== *)
theory Session_Samples
  imports Session_Independence Orchestrator_Guarantees
begin

text \<open>
  A concrete session over a store that only counts its writes: a root Run without capabilities whose
  executor accepts, reports its usage, sends a final result and closes the stream.
\<close>

definition counting :: "'a \<Rightarrow> nat \<Rightarrow> nat \<times> 'a go_result" where
  "counting x w = (w + 1, Inr x)"

definition counting_ports :: "nat run_ports" where
  "counting_ports =
     \<lparr>rp_create = (\<lambda>key fp e r n. counting ([], True)), rp_claim = (\<lambda>app echo run token at ex. counting (sample_run echo run)),
      rp_renew = (\<lambda>r at ex. counting ()), rp_advance = (\<lambda>r q. counting ()),
      rp_usage = (\<lambda>r q units cost retries. counting ()), rp_context = (\<lambda>r d s. counting ()),
      rp_retry = (\<lambda>r nxt e at. counting ()), rp_complete = (\<lambda>r st es out e at. counting ()),
      rp_abandon = (\<lambda>app at. counting 0), rp_queued = (\<lambda>app n. counting []),
      rp_runnable = (\<lambda>app at n. counting []), rp_cancel = (\<lambda>app echo at. counting True),
      rp_cancel_all = (\<lambda>app at. counting ()), rp_append = (\<lambda>ev. counting ev),
      rp_audit = (\<lambda>call run echo app cap body ok e took. counting ())\<rparr>"

definition session_config :: app_config where
  "session_config =
     sample_config\<lparr>ac_executor_config := ''{}'', ac_revision := hex_bytes (replicate 32 CHR 0x00)\<rparr>"

definition session_run :: run_record where
  "session_run =
     (sample_run ''echo-1'' ''run-1'')\<lparr>r_config_revision := ac_revision session_config, r_max_cost := 0\<rparr>"

definition session_source :: app_source where
  "session_source =
     \<lparr>src_current = (\<lambda>_. Inr session_config), src_revision = (\<lambda>_ _. Inr session_config),
      src_policy = (\<lambda>_. Inr \<lparr>ps_app_id = ''app'', ps_revision = ''r1'', ps_generation = 1, ps_enabled = True, ps_grants = []\<rparr>)\<rparr>"

definition session_orch_config :: orch_config where
  "session_orch_config =
     \<lparr>oc_app_id = ''app'', oc_run_timeout = 90 * second, oc_lease = 15 * second, oc_max_attempts = 1,
      oc_retry_base = second, oc_retry_max = second, oc_queue_capacity = 8\<rparr>"

definition replay_spec :: "string \<Rightarrow> capability_spec" where
  "replay_spec replay = sample_spec\<lparr>cs_execution := (cs_execution sample_spec)\<lparr>es_replay := replay\<rparr>\<rparr>"

definition session_env :: "(unit, nat) run_env" where
  "session_env =
     \<lparr>rn_config = session_orch_config,
      rn_lib = \<lparr>ol_revision = (\<lambda>_. Inr []), ol_sha256 = (\<lambda>_. replicate 32 CHR 0x00)\<rparr>, rn_source = session_source,
      rn_ports = counting_ports, rn_project = projectCapabilities ([] :: (unit, unit) registry),
      rn_resolve = (\<lambda>cap. Inr (replay_spec ReplayNever)), rn_context_lib = sample_context_lib,
      rn_history = sample_history, rn_budget = sample_limits,
      rn_assembly_error = (\<lambda>_. Opaque_Error ''context''), rn_size = (\<lambda>_. 0), rn_text = (\<lambda>_. ''failed''),
      rn_invoke = (\<lambda>r c n i w. (w,
        \<lparr>res_call_id = cl_call_id c, res_capability_id = cl_capability_id c, res_success = True, res_payload = ''{}'',
         res_error_code = [], res_error_message = [], res_unknown = []\<rparr>))\<rparr>"

definition quiet :: emit_draw where "quiet = \<lparr>em_at = second, em_result = None\<rparr>"
definition sample_ending :: ending_draw where
  "sample_ending = \<lparr>ed_run_id = ''run-2'', ed_retry_at = second, ed_complete_at = second\<rparr>"

definition sample_start :: start_draw where
  "sample_start =
     \<lparr>sd_started = quiet, sd_assembled_at = second, sd_context_ctx = None, sd_context = quiet, sd_context_emit_ctx = None,
      sd_open = None, sd_trace_id = [], sd_span_id = [], sd_send = None, sd_running = quiet, sd_running_ctx = None,
      sd_end = sample_ending\<rparr>"

definition sample_turn :: "receive \<Rightarrow> unit turn" where
  "sample_turn x =
     \<lparr>tn_recv = x, tn_recv_ctx = None, tn_renewal = None, tn_advance_ctx = None, tn_call = (), tn_call_ctx = None,
      tn_send = None, tn_send_ctx = None, tn_emit = quiet, tn_emit_ctx = None, tn_end = sample_ending\<rparr>"

definition sample_frame :: "u64 \<Rightarrow> frame_body \<Rightarrow> frame" where
  "sample_frame n b =
     \<lparr>fr_echo_id = ''echo-1'', fr_run_id = ''run-1'', fr_sequence = n, fr_body = Some b, fr_unknown = []\<rparr>"

definition sample_call :: capability_call where
  "sample_call = \<lparr>cl_call_id = ''call-1'', cl_capability_id = ''cap.one'', cl_payload = ''{}'', cl_unknown = []\<rparr>"

definition greeting :: payload where
  "greeting = \<lparr>pl_content_type = ''text/plain'', pl_data = ''done'', pl_unknown = []\<rparr>"

definition sample_turns :: "unit turn list" where
  "sample_turns =
     [sample_turn (Got (sample_frame 1 (Body_Accepted \<lparr>ra_protocol_version = Version, ra_unknown = []\<rparr>))),
      sample_turn (Got (sample_frame 2 (Body_Call sample_call))),
      sample_turn (Got (sample_frame 3 (Body_Usage \<lparr>ru_execution_units = 5, ru_cost = 0, ru_retries = 0, ru_unknown = []\<rparr>))),
      sample_turn (Got (sample_frame 4 (Body_Final \<lparr>om_payload = Some greeting, om_unknown = []\<rparr>))),
      sample_turn End_Of_Stream]"

section \<open>The start\<close>

lemma session_config_read: "appConfigRevision (rn_lib session_env) session_source ''app'' (ac_revision session_config) = Inr session_config"
proof -
  let ?d = "sample_config\<lparr>ac_executor_config := ''{}'', ac_revision := hex_bytes (replicate 32 CHR 0x00)\<rparr>"
  have "NormalizeConfig (\<lambda>_. Inr []) (\<lambda>_. replicate 32 CHR 0x00) ?d = Inr ?d"
    using NormalizeConfig_fixed[OF sample_config_normal] by simp
  then show ?thesis
    by (simp add: appConfigRevision_def session_env_def session_source_def session_config_def VerifyConfig_def)
      (simp add: sample_config_def)
qed

lemma session_run_matches: "runMatchesAppConfig session_run session_config \<and> r_protocol_version session_run = Version"
  by (simp add: runMatchesAppConfig_def session_run_def session_config_def sample_run_def sample_config_def timeout_ms_def
      go_div_nonneg duration_defs word_le_nat_alt)

lemma session_policy: "VerifySnapshot \<lparr>ps_app_id = ''app'', ps_revision = ''r1'', ps_generation = 1, ps_enabled = True, ps_grants = []\<rparr> ''app'' = Inr ()"
  by (simp add: VerifySnapshot_def validGrants_def app_id_tail_def char_class_defs)

abbreviation session_input :: context_input where
  "session_input \<equiv> context_request session_env sample_start session_run []"

abbreviation session_history :: history where
  "session_history \<equiv>
     \<lparr>hi_entries = [], hi_trimmed = 0, hi_total = 0, hi_truncated = 0,
      hi_version = computeHistoryVersion sample_context_lib []\<rparr>"

lemma session_input_fields:
  "session_input =
     \<lparr>in_app_id = ''app'', in_session_id = [], in_message_id = [], in_config_revision = hex_bytes (replicate 32 CHR 0x00),
      in_channel = [], in_content_type = ''text/plain'', in_payload = ''hello'', in_capabilities = [], in_now = second\<rparr>"
  by (simp add: context_request_def session_env_def session_orch_config_def session_run_def session_config_def
      sample_run_def sample_start_def capabilityVersions_def)

lemma session_input_valid: "validateInput session_input = Inr ()"
  unfolding session_input_fields by code_simp

lemma session_rendered:
  "case renderContext sample_context_lib session_input session_history of
     Inl _ \<Rightarrow> False | Inr p \<Rightarrow> int (length p) \<le> bg_max_bytes sample_limits"
  unfolding session_input_fields by code_simp

lemma session_assembled:
  obtains snap where "Assemble sample_context_lib sample_history sample_limits session_input = Inr snap"
proof -
  obtain p where p: "renderContext sample_context_lib session_input session_history = Inr p"
      "int (length p) \<le> bg_max_bytes sample_limits"
    using session_rendered by (auto split: sum.splits)
  then have "fit_payload sample_context_lib sample_limits session_input session_history = Inr (p, session_history)"
    by (simp add: fit_payload.simps)
  moreover have "assembleHistory sample_context_lib sample_history sample_limits session_input = Inr session_history"
    by (simp add: assembleHistory_def session_input_fields)
  ultimately show thesis
    using that p(2) session_input_valid by (simp add: Assemble_def)
qed

lemma session_frame_valid:
  assumes "Assemble sample_context_lib sample_history sample_limits session_input = Inr snap"
  shows "ValidateStartFrame (rn_size session_env) (start_frame session_env sample_start session_run [] snap) = Inr ()"
proof -
  have json: "ValidContentType ''application/json''" "ValidContentType ''text/plain''" by code_simp+
  have ids: "stable_mixed ''echo-1''" "stable_mixed ''run-1''" "stable_mixed ''app''"
    by (simp_all add: stable_mixed_def char_class_defs mixed_tail_def)
  then have tokens: "validToken ''app'' MaxIdentifierBytes"
    by (simp add: validToken_128 MaxIdentifierBytes_def)
  have payloads: "validPayload (Some \<lparr>pl_content_type = ''text/plain'', pl_data = ''hello'', pl_unknown = []\<rparr>) True MaxInputPayloadBytes"
    "validPayload (Some \<lparr>pl_content_type = ''application/json'', pl_data = ''{}'', pl_unknown = []\<rparr>) False MaxExecutorConfigBytes"
    using json by (simp_all add: validPayload_def)
  have envelope: "validateEnvelope (\<lambda>_. 0) (start_frame session_env sample_start session_run [] snap) ''echo-1'' ''run-1'' 1 = Inr ()"
    using ids by (simp add: validateEnvelope_Inr start_frame_def session_run_def sample_run_def hasUnknownFields_def payload_unknown_def)
  show ?thesis
    using context_payload_fits[OF sample_new assms] payloads tokens envelope
    by (simp add: ValidateStartFrame_def start_frame_def start_bounds_ok_def session_run_def
        sample_run_def session_env_def session_orch_config_def sample_start_def del: protocol_limits)
      (simp add: protocol_limits)
qed

lemma session_started: "\<exists>w. start_session session_env sample_start session_run 0 = Continue (new_session session_run) w"
proof -
  obtain snap where snap: "Assemble sample_context_lib sample_history sample_limits session_input = Inr snap"
    by (rule session_assembled)
  have env: "rn_source session_env = session_source" "oc_app_id (rn_config session_env) = ''app''"
    "rn_context_lib session_env = sample_context_lib" "rn_history session_env = sample_history"
    "rn_budget session_env = sample_limits" "rn_ports session_env = counting_ports"
    "rn_project session_env policy r = []" for policy r
    by (simp_all add: session_env_def session_orch_config_def projectCapabilities_def Capabilities_def)
  have emit: "emitEvent session_env session_run quiet ev w = (w + 1, None)" for ev w
    by (simp add: emitEvent_def env session_run_def sample_run_def counting_ports_def counting_def quiet_def)
  have policy: "src_policy session_source app =
      Inr \<lparr>ps_app_id = ''app'', ps_revision = ''r1'', ps_generation = 1, ps_enabled = True, ps_grants = []\<rparr>" for app
    by (simp add: session_source_def)
  have draws: "sd_started sample_start = quiet" "sd_context sample_start = quiet" "sd_running sample_start = quiet"
    "sd_open sample_start = None" "sd_send sample_start = None"
    by (simp_all add: sample_start_def)
  have ctx: "rp_context counting_ports r d j w = (w + 1, Inr ())" for r d j w
    by (simp add: counting_ports_def counting_def)
  show ?thesis
    by (simp add: start_session_def policy_session_def context_session_def open_session_def env emit policy draws ctx
        session_policy snap session_frame_valid[OF snap])
qed

section \<open>The frames\<close>

lemma sample_ids_valid: "stable_mixed ''echo-1''" "stable_mixed ''run-1''"
  by (simp_all add: stable_mixed_def char_class_defs mixed_tail_def)

lemma sample_bodies_valid:
  "ValidateCapabilityCall (Some sample_call) = Inr ()"
  "ValidateFinalResult (Some \<lparr>om_payload = Some greeting, om_unknown = []\<rparr>) = Inr ()"
  "ValidateResourceUsage (Some \<lparr>ru_execution_units = 5, ru_cost = 0, ru_retries = 0, ru_unknown = []\<rparr>) 0 0 0 100 0 = Inr ()"
proof -
  have "stable_mixed ''call-1''" "stable_mixed ''cap.one''"
    by (simp_all add: stable_mixed_def char_class_defs mixed_tail_def)
  then show "ValidateCapabilityCall (Some sample_call) = Inr ()"
    using validToken_128 json_valid_object by (simp add: ValidateCapabilityCall_def sample_call_def)
  show "ValidateFinalResult (Some \<lparr>om_payload = Some greeting, om_unknown = []\<rparr>) = Inr ()"
    using plain_text by (simp add: ValidateFinalResult_def validPayload_def greeting_def)
  show "ValidateResourceUsage (Some \<lparr>ru_execution_units = 5, ru_cost = 0, ru_retries = 0, ru_unknown = []\<rparr>) 0 0 0 100 0 = Inr ()"
    by (simp add: ValidateResourceUsage_Inr word_le_nat_alt)
qed

lemma sample_result_valid:
  "ValidateCapabilityResultFrame (\<lambda>_. 0)
     \<lparr>fr_echo_id = ''echo-1'', fr_run_id = ''run-1'', fr_sequence = 2,
      fr_body = Some (Body_Result
        \<lparr>res_call_id = ''call-1'', res_capability_id = ''cap.one'', res_success = True, res_payload = ''{}'',
         res_error_code = [], res_error_message = [], res_unknown = []\<rparr>), fr_unknown = []\<rparr> ''echo-1'' ''run-1'' 2 = Inr ()"
proof -
  have "stable_mixed ''call-1''" "stable_mixed ''cap.one''"
    by (simp_all add: stable_mixed_def char_class_defs mixed_tail_def)
  then show ?thesis
    using sample_ids_valid validToken_128 json_valid_object
    by (simp add: ValidateCapabilityResultFrame_def and_then_Inr validateEnvelope_Inr hasUnknownFields_def)
qed

lemma session_env_sel:
  "rn_ports session_env = counting_ports" "rn_size session_env = (\<lambda>_. 0)"
  "rn_resolve session_env cap = Inr (replay_spec ReplayNever)"
  "rn_invoke session_env r c n i w = (w,
     \<lparr>res_call_id = cl_call_id c, res_capability_id = cl_capability_id c, res_success = True, res_payload = ''{}'',
      res_error_code = [], res_error_message = [], res_unknown = []\<rparr>)"
  by (simp_all add: session_env_def)

lemma counting_sel:
  "rp_advance counting_ports r q w = (w + 1, Inr ())" "rp_usage counting_ports r q u c n w = (w + 1, Inr ())"
  "rp_append counting_ports ev w = (w + 1, Inr ev)" "rp_complete counting_ports r st es out e at w = (w + 1, Inr ())"
  by (simp_all add: counting_ports_def counting_def)

lemma replay_never: "es_replay (cs_execution (replay_spec ReplayNever)) \<noteq> ReplaySafe"
  by (simp add: replay_spec_def ReplayNever_def ReplaySafe_def)

lemmas sample_session_defs = run_turn_def got_frame_def admit_frame_def admit_body_def advance_run_def act_frame_def
  act_call_def act_final_def safe_after_def emitEvent_def ValidateInboundEnvelope_def ValidateRunAccepted_def result_frame_def
  outputFromPayload_def seen_after_def advanced_def

definition called :: session_state where
  "called = (new_session session_run)\<lparr>ss_accepted := True, ss_run := session_run\<lparr>r_last_sequence := 2\<rparr>, ss_expected := 3,
     ss_kernel := 2, ss_seen := [''call-1''], ss_counts := (\<lambda>_. 0)(''cap.one'' := 1), ss_safe := False\<rparr>"

lemma session_run_sel:
  "r_echo_id session_run = ''echo-1''" "r_id session_run = ''run-1''" "r_parent_id session_run = []"
  "r_last_sequence session_run = 0" "r_max_capability_calls session_run = 4" "r_max_output_bytes session_run = 1000"
  "r_used_execution_units session_run = 0" "r_used_cost session_run = 0" "r_used_retries session_run = 0"
  "r_max_execution_units session_run = 100" "r_max_cost session_run = 0"
  by (simp_all add: session_run_def sample_run_def)

lemma sample_turn_sel:
  "tn_recv (sample_turn x) = x" "tn_recv_ctx (sample_turn x) = None" "tn_call_ctx (sample_turn x) = None"
  "tn_send (sample_turn x) = None" "em_result (tn_emit (sample_turn x)) = None"
  by (simp_all add: sample_turn_def quiet_def)

lemma sample_envelope:
  "validateEnvelope (\<lambda>_. 0) (sample_frame n b) ''echo-1'' ''run-1'' n = Inr ()" if "n \<noteq> 0" "\<not> body_unknown b"
  using that sample_ids_valid by (simp add: validateEnvelope_Inr sample_frame_def hasUnknownFields_def)

lemma sample_frame_sel: "fr_body (sample_frame n b) = Some b" "fr_sequence (sample_frame n b) = n"
  by (simp_all add: sample_frame_def)

lemmas sample_simps = sample_session_defs sample_turn_sel session_run_sel session_env_sel counting_sel new_session_def
  sample_envelope no_output_def sample_frame_sel Let_def

abbreviation accepted_session :: session_state where
  "accepted_session \<equiv>
     (new_session session_run)\<lparr>ss_accepted := True, ss_run := session_run\<lparr>r_last_sequence := 1\<rparr>, ss_expected := 2\<rparr>"

lemma sample_accepted:
  "run_turn session_env (sample_turn (Got (sample_frame 1 (Body_Accepted \<lparr>ra_protocol_version = Version, ra_unknown = []\<rparr>))))
     (new_session session_run) w = Continue accepted_session (w + 1)"
  by (simp add: sample_simps)

lemma sample_called:
  "run_turn session_env (sample_turn (Got (sample_frame 2 (Body_Call sample_call)))) accepted_session w = Continue called (w + 2)"
proof -
  have c: "cl_call_id sample_call = ''call-1''" "cl_capability_id sample_call = ''cap.one''" "cl_unknown sample_call = []"
    by (simp_all add: sample_call_def)
  show ?thesis
    using sample_bodies_valid(1) sample_result_valid replay_never
    by (simp add: sample_simps called_def c)
qed

lemma sample_used:
  "run_turn session_env (sample_turn (Got (sample_frame 3
       (Body_Usage \<lparr>ru_execution_units = 5, ru_cost = 0, ru_retries = 0, ru_unknown = []\<rparr>)))) called w =
     Continue (called\<lparr>ss_usage := True, ss_run := session_run\<lparr>r_last_sequence := 3, r_used_execution_units := 5\<rparr>, ss_expected := 4\<rparr>) (w + 1)"
  using sample_bodies_valid(3) by (simp add: sample_simps called_def)

lemma sample_finished:
  "run_turn session_env (sample_turn (Got (sample_frame 4 (Body_Final \<lparr>om_payload = Some greeting, om_unknown = []\<rparr>))))
     (called\<lparr>ss_usage := True, ss_run := session_run\<lparr>r_last_sequence := 3, r_used_execution_units := 5\<rparr>, ss_expected := 4\<rparr>) w =
     Continue (called\<lparr>ss_usage := True, ss_run := session_run\<lparr>r_last_sequence := 4, r_used_execution_units := 5\<rparr>, ss_expected := 5,
       ss_final := \<lparr>out_content_type = ''text/plain'', out_data = ''done''\<rparr>\<rparr>) (w + 1)"
  using sample_bodies_valid(2)
  by (simp add: sample_simps called_def greeting_def payload_unknown_def)

lemma sample_closed:
  "run_turn session_env (sample_turn End_Of_Stream)
     (called\<lparr>ss_usage := True, ss_run := session_run\<lparr>r_last_sequence := 4, r_used_execution_units := 5\<rparr>, ss_expected := 5,
       ss_final := \<lparr>out_content_type = ''text/plain'', out_data = ''done''\<rparr>\<rparr>) w = Return (w + 2) None"
  by (simp add: sample_simps called_def recv_failed_def completeRun_def step_return_def)

section \<open>Witnesses\<close>

lemma sample_executed:
  "\<exists>w. executeClaimedRun session_env sample_start (take n sample_turns) session_run 0 =
     run_loop session_env (take n sample_turns) (new_session session_run) w"
proof -
  obtain w where w: "start_session session_env sample_start session_run 0 = Continue (new_session session_run) w"
    using session_started by blast
  have "appConfigRevision (rn_lib session_env) (rn_source session_env) (oc_app_id (rn_config session_env))
      (r_config_revision session_run) = Inr session_config"
    using session_config_read by (simp add: session_run_def session_env_def session_orch_config_def)
  then show ?thesis using w session_run_matches by (auto simp: executeClaimedRun_def)
qed

theorem session_within_budgets_witness:
  "\<exists>w. executeClaimedRun session_env sample_start (take 2 sample_turns) session_run 0 = Continue called w \<and>
     session_ok session_run called"
proof -
  obtain w where w: "executeClaimedRun session_env sample_start (take 2 sample_turns) session_run 0 =
      run_loop session_env (take 2 sample_turns) (new_session session_run) w" using sample_executed by blast
  then have "executeClaimedRun session_env sample_start (take 2 sample_turns) session_run 0 = Continue called (w + 3)"
    by (simp add: sample_turns_def sample_accepted sample_called)
  from this session_within_budgets[OF this] show ?thesis by blast
qed

lemma sample_succeeds: "\<exists>w. executeClaimedRun session_env sample_start sample_turns session_run 0 = Return w None"
proof -
  obtain w where w: "executeClaimedRun session_env sample_start (take 5 sample_turns) session_run 0 =
      run_loop session_env (take 5 sample_turns) (new_session session_run) w" using sample_executed by blast
  then show ?thesis
    by (simp add: sample_turns_def sample_accepted sample_called sample_used sample_finished sample_closed)
qed

theorem claimed_run_settled_witness:
  "\<exists>w. executeClaimedRun session_env sample_start sample_turns session_run 0 = Return w None \<and>
     settled counting_ports session_run (w, None)"
  using sample_succeeds claimed_run_settled by (metis session_env_sel(1))

theorem success_needs_final_result_witness:
  "\<exists>us t rest fs d. sample_turns = us @ t # rest \<and> map tn_recv us = map Got fs \<and> tn_recv t = End_Of_Stream \<and>
     fr_body (last fs) = Some (Body_Final d) \<and> out_data (outputFromPayload (om_payload d)) \<noteq> []"
proof -
  obtain w where "executeClaimedRun session_env sample_start sample_turns session_run 0 = Return w None"
    using sample_succeeds by blast
  from success_needs_final_result[OF this] show ?thesis by blast
qed

text \<open>The result of the call cannot be sent.\<close>

definition unsent_turn :: "unit turn" where
  "unsent_turn = (sample_turn (Got (sample_frame 2 (Body_Call sample_call))))\<lparr>tn_send := Some (Opaque_Error ''reset'')\<rparr>"

theorem unsafe_call_never_retried_witness:
  "run_loop (with_retry session_env (\<lambda>r nxt e at w. (0, Inl (Opaque_Error ''refused'')))) [unsent_turn] accepted_session 5 =
   run_loop session_env [unsent_turn] accepted_session 5"
proof (rule unsafe_call_never_retried[where g = "sample_frame 2 (Body_Call sample_call)" and c = sample_call and ?w1.0 = 6])
  have c: "cl_call_id sample_call = ''call-1''" "cl_unknown sample_call = []"
    by (simp_all add: sample_call_def)
  show "admit_frame session_env accepted_session (sample_frame 2 (Body_Call sample_call)) = Inr ()"
    "advance_run session_env (ss_run accepted_session) (sample_frame 2 (Body_Call sample_call)) 5 = (6, Inr ())"
    using sample_bodies_valid(1) by (simp_all add: sample_simps c)
  show "rn_resolve session_env (cl_capability_id sample_call) = Inr (replay_spec ReplayNever)" by (simp add: session_env_sel)
qed (simp_all add: unsent_turn_def sample_turn_sel sample_frame_sel replay_never)

theorem child_run_silent_witness:
  "executeClaimedRun (with_append session_env (\<lambda>ev w. (w, Inl (Opaque_Error ''full'')))) sample_start sample_turns
     (session_run\<lparr>r_parent_id := ''run-0''\<rparr>) 0 =
   executeClaimedRun session_env sample_start sample_turns (session_run\<lparr>r_parent_id := ''run-0''\<rparr>) 0"
  by (rule child_run_silent) simp

section \<open>A concrete call\<close>

definition refusing_dispatcher :: "(idem_table, nat, unit) dispatcher" where
  "refusing_dispatcher = NewDispatcher [] None 0 None None None"

definition invoker_lib :: "unit dispatch_lib" where
  "invoker_lib = \<lparr>dl_validate = (\<lambda>_ _. Inr ()), dl_decode = (\<lambda>_. Inr J_Null), dl_encode = (\<lambda>_. Inr ''null''),
     dl_sha256 = (\<lambda>_. replicate 32 CHR 0x00)\<rparr>"

definition invoker_audit_lib :: audit_lib where
  "invoker_audit_lib = \<lparr>al_decode = (\<lambda>_. Inr J_Null), al_encode = (\<lambda>_. Inr ''null''), al_sha256 = (\<lambda>_. [])\<rparr>"

definition sample_invoker :: "(idem_table, idem_table, unit, nat) invoker" where
  "sample_invoker =
     \<lparr>iv_app_id = ''app'', iv_store = sqlite_idem_port millisecond_driver, iv_dispatcher = refusing_dispatcher,
      iv_lib = invoker_lib, iv_audit_lib = invoker_audit_lib, iv_ports = counting_ports, iv_text = (\<lambda>_. ''failed''),
      iv_marshal = (\<lambda>res. Inr (res_error_code res)), iv_unmarshal = (\<lambda>_. None)\<rparr>"

definition sample_call_draw :: "instant \<Rightarrow> (idem_table, idem_table) call_draw" where
  "sample_call_draw now =
     \<lparr>ca_outer = sample_surroundings now,
      ca_inner =
        \<lparr>su_token = ''t'', su_deadline = None, su_now = now, su_completed = now + second, su_meanwhile = (\<lambda>s. s),
         su_wait_now = now, su_waits = [], cs_ctx_err = None, cs_validated_at = now, cs_authorized_at = now\<rparr>,
      ca_request_id = ''req'', ca_trace_id = [], ca_deadline = None, ca_started = now, ca_finished = now + second\<rparr>"

definition exec_claim :: claim where
  "exec_claim = make_claim (executor_operation sample_invoker session_run sample_call) ''t'' (1 + 2 * minute)"

lemma call_operation_valid: "ValidateOperation (executor_operation sample_invoker session_run sample_call) = Inr ()"
  by code_simp

lemma exec_begin: "BeginIdempotent exec_claim 1 [] = ([new_idem_row exec_claim 1], Inr (new_idem_row exec_claim 1, True))"
proof -
  have g: "begin_guard exec_claim 1" by code_simp
  have r: "idem_row_check (new_idem_row exec_claim 1)" by code_simp
  show ?thesis
    using begin_guard_get[OF g]
    by (simp add: BeginIdempotent_def g r begin_insert_def exec_insert_ignore_def begin_read_def look_idem_def
        select_key_def idem_key_new scan_idem_def) (simp add: new_idem_row_def)
qed

lemma call_refused:
  "\<exists>x. invokeCapabilityOnce sample_invoker (sample_call_draw 1) session_run sample_call 0 ([], 0) = (([], 1), x)"
  by (simp add: invokeCapabilityOnce_def route_def govern_def policySnapshot_def dispatch_validate_def sample_invoker_def
      refusing_dispatcher_def NewDispatcher_def counting_ports_def counting_def Let_def split: sum.split if_split)

lemma call_effective:
  "fst (snd (fst (invokeCapability sample_invoker session_run sample_call 0 (sample_call_draw 1) ([], [], 0)))) = [] \<and>
   snd (snd (fst (invokeCapability sample_invoker session_run sample_call 0 (sample_call_draw 1) ([], [], 0)))) = 1"
proof -
  obtain x where x: "invokeCapabilityOnce sample_invoker (sample_call_draw 1) session_run sample_call 0 ([], 0) = (([], 1), x)"
    using call_refused by blast
  have id: "cl_call_id sample_call = ''call-1''" "ValidateKey ''call-1'' = Inr ()"
    by (simp add: sample_call_def, code_simp)
  have opens: "port_begin (sqlite_idem_port millisecond_driver) exec_claim 1 [] =
      ([new_idem_row exec_claim 1], Inr (new_idem_row exec_claim 1, True))"
    by (simp add: exec_begin)
  have store: "iv_store sample_invoker = sqlite_idem_port millisecond_driver" "iv_marshal sample_invoker x = Inr (res_error_code x)"
    "ca_outer (sample_call_draw 1) = sample_surroundings 1"
    by (simp_all add: sample_invoker_def sample_call_draw_def)
  have times: "after (1 + 2 * minute) 1" by (simp add: duration_defs after_def)
  show ?thesis
    using opens[unfolded exec_claim_def]
    by (simp add: invokeCapability_def id store Execute_def call_operation_valid sample_surroundings_def lease_NewManager
        times x Let_def split: prod.split)
qed

theorem executor_call_once_witness:
  "\<exists>s1 res1. invokeCapability sample_invoker session_run sample_call 0 (sample_call_draw 1) ([], [], 0) = ((s1, [], 1), res1) \<and>
     fst (snd (fst (invokeCapability sample_invoker session_run sample_call 1 (sample_call_draw 5) (s1, [], 1)))) = [] \<and>
     snd (snd (fst (invokeCapability sample_invoker session_run sample_call 1 (sample_call_draw 5) (s1, [], 1)))) = 1"
proof -
  obtain s1 res1 where first: "invokeCapability sample_invoker session_run sample_call 0 (sample_call_draw 1) ([], [], 0) = ((s1, [], 1), res1)"
    using call_effective by (metis prod.collapse)
  obtain s3 tw2 res2 where second:
    "invokeCapability sample_invoker session_run sample_call 1 (sample_call_draw 5) (s1, [], 1) = ((s3, tw2), res2)"
    by (metis prod.collapse)
  have "tw2 = ([], 1)"
  proof (rule executor_call_once[OF _ _ _ _ refl refl first _ second])
    show "idem_table_ok []" by (simp add: idem_table_ok_def)
    show "iv_store sample_invoker = sqlite_idem_port millisecond_driver" by (simp add: sample_invoker_def)
  qed (simp_all add: sample_call_draw_def sample_meanwhile idem_store.evolves_refl)
  then show ?thesis using first second by auto
qed

section \<open>Descendants and delays\<close>

definition sample_ask :: run_request where
  "sample_ask = \<lparr>rr_message = ''hello'', rr_idempotency_key = ''k'', rr_session_id = [], rr_user_id = [],
     rr_message_id = [], rr_channel = []\<rparr>"

lemma session_config_verified:
  "VerifyConfig (\<lambda>_. Inr []) (\<lambda>_. replicate 32 CHR 0x00) session_config ''app'' [] = Inr ()"
  using NormalizeConfig_fixed[OF sample_config_normal]
  by (simp add: session_config_def VerifyConfig_def) (simp add: sample_config_def)

theorem descendants_match_config_witness:
  "runMatchesAppConfig
     (next_attempt session_orch_config (\<lambda>_. []) ''run-2'' second
        (new_root_run session_orch_config session_config (Snapshot session_config) sample_ask ''echo-1'' ''run-1'' 0))
     session_config"
  by (rule descendants_match_config[OF session_config_verified descends.attempt[OF descends.root]])

theorem retry_delay_closed_witness: "runRetryDelay session_orch_config (\<lambda>_. []) session_run = 800 * millisecond"
  by (subst retry_delay_closed)
    (simp_all add: session_orch_config_def session_run_def sample_run_def run_jitter_byte_def jitterPermille_def duration_defs)

end
