(* ===== verification/Session_Store.thy ===== *)
theory Session_Store
  imports Session_Model Sql_Table
begin

text \<open>
  \<open>internal/storage/sqlite/session_store.go\<close> over the tables \<open>sessions\<close>, \<open>session_members\<close>,
  \<open>session_bindings\<close>, \<open>messages\<close> and \<open>attachments\<close> of \<open>schema.sql\<close>, and \<open>session/service.go\<close>. A transaction
  that fails returns the database it began with. A violated constraint is an error with the extended result
  code that SQLite gives it.
\<close>

section \<open>The database\<close>

record session_row =
  sw_app_id :: string
  sw_id :: string
  sw_type :: string
  sw_created_at :: instant
  sw_updated_at :: instant

record member_row =
  mw_app_id :: string
  mw_session_id :: string
  mw_member :: member

record binding_row =
  bw_app_id :: string
  bw_session_id :: string
  bw_binding :: platform_binding

record message_row = message_record +
  mg_content :: string

record session_db =
  sb_sessions :: "session_row list"
  sb_members :: "member_row list"
  sb_bindings :: "binding_row list"
  sb_messages :: "message_row list"
  sb_attachments :: "attachment list"

definition session_key :: "session_row \<Rightarrow> string \<times> string" where
  "session_key r = (sw_app_id r, sw_id r)"

definition member_key :: "member_row \<Rightarrow> string \<times> string \<times> string" where
  "member_key r = (mw_app_id r, mw_session_id r, mb_user_id (mw_member r))"

definition binding_row_key :: "binding_row \<Rightarrow> string \<times> string \<times> string \<times> string" where
  "binding_row_key r =
     (bw_app_id r, bw_session_id r, pb_platform (bw_binding r), pb_platform_id (bw_binding r))"

definition message_key :: "'z message_record_scheme \<Rightarrow> string \<times> string" where
  "message_key m = (mg_app_id m, mg_id m)"

text \<open>The key of \<open>messages_platform_dedup_idx\<close>, a partial index.\<close>

definition platform_key :: "'z message_record_scheme \<Rightarrow> (string \<times> string) option" where
  "platform_key m = (if mg_platform_id m = [] then None else Some (mg_app_id m, mg_platform_id m))"

definition attachment_key :: "attachment \<Rightarrow> string \<times> string" where
  "attachment_key a = (at_app_id a, at_id a)"

section \<open>Constraints\<close>

definition text_between :: "nat \<Rightarrow> nat \<Rightarrow> string \<Rightarrow> bool" where
  "text_between a b s \<longleftrightarrow> a \<le> sql_length s \<and> sql_length s \<le> b"

definition session_row_check :: "sql_driver \<Rightarrow> session_row \<Rightarrow> bool" where
  "session_row_check drv r \<longleftrightarrow>
     text_between 1 128 (sw_app_id r) \<and> text_between 1 128 (sw_id r) \<and>
     sw_type r \<in> {''direct'', ''group'', ''system''} \<and>
     julianday drv (sw_created_at r) \<le> julianday drv (sw_updated_at r)"

definition member_row_check :: "member_row \<Rightarrow> bool" where
  "member_row_check r \<longleftrightarrow>
     text_between 1 128 (mb_user_id (mw_member r)) \<and> mb_role (mw_member r) \<in> {''owner'', ''admin'', ''member''}"

definition binding_row_check :: "binding_row \<Rightarrow> bool" where
  "binding_row_check r \<longleftrightarrow>
     text_between 1 64 (pb_platform (bw_binding r)) \<and> text_between 1 256 (pb_platform_id (bw_binding r))"

definition message_row_check :: "message_row \<Rightarrow> bool" where
  "message_row_check m \<longleftrightarrow>
     text_between 1 128 (mg_app_id m) \<and> text_between 1 128 (mg_id m) \<and> text_between 1 128 (mg_session_id m) \<and>
     text_between 1 128 (mg_sender m) \<and> mg_type m \<in> {''text'', ''image'', ''file'', ''system'', ''event''} \<and>
     0 < ct_size (mg_content_ref m) \<and>
     (ct_mode (mg_content_ref m) = ''inline'' \<and> ct_blob_id (mg_content_ref m) = [] \<and>
        ct_size (mg_content_ref m) \<le> 262144 \<and> 1 \<le> length (mg_content m) \<and> int (length (mg_content m)) \<le> 262144 \<and>
        ct_size (mg_content_ref m) = int (length (mg_content m)) \<or>
      ct_mode (mg_content_ref m) = ''blob'' \<and> ct_blob_id (mg_content_ref m) \<noteq> [] \<and>
        ct_size (mg_content_ref m) \<le> 16777216 \<and> length (mg_content m) = 0)"

definition attachment_row_check :: "attachment \<Rightarrow> bool" where
  "attachment_row_check a \<longleftrightarrow>
     text_between 1 128 (at_id a) \<and> text_between 1 128 (at_session_id a) \<and> text_between 1 128 (at_message_id a) \<and>
     text_between 1 128 (at_uploader a) \<and> text_between 1 256 (af_filename (at_ref a)) \<and>
     text_between 1 128 (af_mime_type (at_ref a)) \<and> 0 < af_size (at_ref a) \<and> af_size (at_ref a) \<le> 16777216 \<and>
     text_between 1 256 (af_blob_id (at_ref a))"

text \<open>\<open>SQLITE_CONSTRAINT_CHECK\<close>, \<open>_FOREIGNKEY\<close>, \<open>_PRIMARYKEY\<close> and \<open>_UNIQUE\<close>; \<open>sql.ErrNoRows\<close>.\<close>

abbreviation check_violated :: go_error where "check_violated \<equiv> Coded_Error 275"
abbreviation reference_violated :: go_error where "reference_violated \<equiv> Coded_Error 787"
abbreviation primary_violated :: go_error where "primary_violated \<equiv> Coded_Error 1555"
abbreviation unique_violated :: go_error where "unique_violated \<equiv> Coded_Error 2067"
abbreviation no_rows :: go_error where "no_rows \<equiv> Opaque_Error ''sql: no rows in result set''"

abbreviation store_failure :: "go_error \<Rightarrow> session_failure + 'a" where
  "store_failure e \<equiv> Inl (Other_Failure (Wrapped e))"

definition isForeignKeyConstraint :: "go_error \<Rightarrow> bool" where
  "isForeignKeyConstraint e \<longleftrightarrow> err_as_code e = Some 787"

section \<open>Statements\<close>

definition find_session :: "string \<times> string \<Rightarrow> session_db \<Rightarrow> session_row option" where
  "find_session k db = select_key session_key k (sb_sessions db)"

definition find_message :: "string \<times> string \<Rightarrow> session_db \<Rightarrow> message_row option" where
  "find_message k db = select_key message_key k (sb_messages db)"

text \<open>An \<open>INSERT\<close> that refers to other rows: the \<open>CHECK\<close>s, the keys and then the references are tested.\<close>

definition insert_under ::
  "('r \<Rightarrow> bool) \<Rightarrow> ('r \<Rightarrow> 'k) \<Rightarrow> ('r \<Rightarrow> bool) \<Rightarrow> 'r \<Rightarrow> 'r list \<Rightarrow> 'r list go_result" where
  "insert_under chk key refs r t =
     (if \<not> chk r then Inl check_violated
      else if key r \<in> set (map key t) then Inl primary_violated
      else if \<not> refs r then Inl reference_violated
      else Inr (t @ [r]))"

definition insert_session :: "sql_driver \<Rightarrow> session_row \<Rightarrow> session_db \<Rightarrow> session_db go_result" where
  "insert_session drv r db =
     and_then (insert_under (session_row_check drv) session_key (\<lambda>_. True) r (sb_sessions db))
       (\<lambda>t. Inr (db\<lparr>sb_sessions := t\<rparr>))"

definition insert_member :: "string \<Rightarrow> string \<Rightarrow> member \<Rightarrow> session_db \<Rightarrow> session_db go_result" where
  "insert_member app s m db =
     and_then (insert_under member_row_check member_key (\<lambda>r. find_session (mw_app_id r, mw_session_id r) db \<noteq> None)
                 \<lparr>mw_app_id = app, mw_session_id = s, mw_member = m\<rparr> (sb_members db))
       (\<lambda>t. Inr (db\<lparr>sb_members := t\<rparr>))"

definition insert_binding :: "string \<Rightarrow> string \<Rightarrow> platform_binding \<Rightarrow> session_db \<Rightarrow> session_db go_result" where
  "insert_binding app s b db =
     and_then (insert_under binding_row_check binding_row_key
                 (\<lambda>r. find_session (bw_app_id r, bw_session_id r) db \<noteq> None)
                 \<lparr>bw_app_id = app, bw_session_id = s, bw_binding = b\<rparr> (sb_bindings db))
       (\<lambda>t. Inr (db\<lparr>sb_bindings := t\<rparr>))"

definition insert_message :: "message_row \<Rightarrow> session_db \<Rightarrow> session_db go_result" where
  "insert_message m db =
     (if message_row_check m \<and> find_message (message_key m) db = None \<and>
         platform_key m \<noteq> None \<and> platform_key m \<in> set (map platform_key (sb_messages db))
      then Inl unique_violated
      else and_then (insert_under message_row_check message_key
                       (\<lambda>r. find_session (mg_app_id r, mg_session_id r) db \<noteq> None) m (sb_messages db))
             (\<lambda>t. Inr (db\<lparr>sb_messages := t\<rparr>)))"

definition insert_attachment :: "attachment \<Rightarrow> session_db \<Rightarrow> session_db go_result" where
  "insert_attachment a db =
     and_then (insert_under attachment_row_check attachment_key
                 (\<lambda>r. find_session (at_app_id r, at_session_id r) db \<noteq> None \<and>
                      find_message (at_app_id r, at_message_id r) db \<noteq> None) a (sb_attachments db))
       (\<lambda>t. Inr (db\<lparr>sb_attachments := t\<rparr>))"

text \<open>A loop of inserts that stops at the first error.\<close>

fun insert_each :: "('a \<Rightarrow> 'd \<Rightarrow> 'd go_result) \<Rightarrow> 'a list \<Rightarrow> 'd \<Rightarrow> 'd go_result" where
  "insert_each f [] db = Inr db"
| "insert_each f (x # xs) db = and_then (f x db) (\<lambda>db'. insert_each f xs db')"

section \<open>Sessions\<close>

definition session_row_of :: "session \<Rightarrow> session_row" where
  "session_row_of s =
     \<lparr>sw_app_id = sn_app_id s, sw_id = sn_id s, sw_type = sn_type s, sw_created_at = sn_created_at s,
      sw_updated_at = sn_updated_at s\<rparr>"

definition session_members :: "string \<Rightarrow> string \<Rightarrow> session_db \<Rightarrow> member list" where
  "session_members app s db =
     sort_key mb_user_id (map mw_member (filter (\<lambda>r. mw_app_id r = app \<and> mw_session_id r = s) (sb_members db)))"

definition session_bindings :: "string \<Rightarrow> string \<Rightarrow> session_db \<Rightarrow> platform_binding list" where
  "session_bindings app s db =
     sort_key (\<lambda>b. (pb_platform b, pb_platform_id b))
       (map bw_binding (filter (\<lambda>r. bw_app_id r = app \<and> bw_session_id r = s) (sb_bindings db)))"

definition readSession :: "string \<Rightarrow> string \<Rightarrow> session_db \<Rightarrow> session option" where
  "readSession app s db =
     (case find_session (app, s) db of
        None \<Rightarrow> None
      | Some r \<Rightarrow> Some
          \<lparr>sn_app_id = sw_app_id r, sn_id = sw_id r, sn_type = sw_type r, sn_members = session_members app s db,
           sn_bindings = session_bindings app s db, sn_created_at = sw_created_at r, sn_updated_at = sw_updated_at r\<rparr>)"

text \<open>
  The keys under which members and bindings are compared. They end in the text of a time, which has no
  separator in it and determines the instant, so the instant stands beside the text before it.
\<close>

definition sessionIdentityKey :: "member \<Rightarrow> string \<times> instant" where
  "sessionIdentityKey m = (mb_user_id m @ [CHR 0x1F] @ mb_role m, mb_joined_at m)"

definition binding_identity_key :: "platform_binding \<Rightarrow> string \<times> instant" where
  "binding_identity_key b = (binding_key b, pb_bound_at b)"

text \<open>The counters of \<open>sessionsEqual\<close>: each key of the second list uses up one of the first.\<close>

fun uses_up :: "'k list \<Rightarrow> 'k list \<Rightarrow> bool" where
  "uses_up ks [] = True"
| "uses_up ks (x # xs) = (x \<in> set ks \<and> uses_up (remove1 x ks) xs)"

definition sessionsEqual :: "session \<Rightarrow> session \<Rightarrow> bool" where
  "sessionsEqual a b \<longleftrightarrow>
     sn_app_id a = sn_app_id b \<and> sn_id a = sn_id b \<and> sn_type a = sn_type b \<and>
     sn_created_at a = sn_created_at b \<and> sn_updated_at a = sn_updated_at b \<and>
     length (sn_members a) = length (sn_members b) \<and> length (sn_bindings a) = length (sn_bindings b) \<and>
     uses_up (map sessionIdentityKey (sn_members a)) (map sessionIdentityKey (sn_members b)) \<and>
     uses_up (map binding_identity_key (sn_bindings a)) (map binding_identity_key (sn_bindings b))"

definition sessionBindingsEqual :: "platform_binding list \<Rightarrow> platform_binding list \<Rightarrow> bool" where
  "sessionBindingsEqual left right \<longleftrightarrow>
     length left = length right \<and> list_all (\<lambda>b. binding_key b \<in> set (map binding_key left)) right"

definition insertSessionRelations :: "session \<Rightarrow> session_db \<Rightarrow> session_db go_result" where
  "insertSessionRelations s db =
     and_then (insert_each (insert_member (sn_app_id s) (sn_id s)) (sn_members s) db)
       (insert_each (insert_binding (sn_app_id s) (sn_id s)) (sn_bindings s))"

definition CreateSession :: "sql_driver \<Rightarrow> session \<Rightarrow> session_db \<Rightarrow> session_db \<times> unit sess_result" where
  "CreateSession drv s db =
     (case ValidateSession s of
        Inl e \<Rightarrow> (db, Inl e)
      | Inr _ \<Rightarrow>
     (case insert_session drv (session_row_of s) db of
        Inl err \<Rightarrow>
          (db, if isUniqueConstraint err
               then (case readSession (sn_app_id s) (sn_id s) db of
                       None \<Rightarrow> store_failure no_rows
                     | Some existing \<Rightarrow> if sessionsEqual existing s then Inr () else sess_fail Sess_Exists)
               else store_failure err)
      | Inr db1 \<Rightarrow>
     (case insert_each (insert_member (sn_app_id s) (sn_id s)) (sn_members s) db1 of
        Inl err \<Rightarrow> (db, store_failure err)
      | Inr db2 \<Rightarrow>
     (case insert_each (insert_binding (sn_app_id s) (sn_id s)) (sn_bindings s) db2 of
        Inl err \<Rightarrow> (db, store_failure err)
      | Inr db3 \<Rightarrow> (db3, Inr ())))))"

text \<open>
  The loop of \<open>EnsureSession\<close> over the members; \<open>existing\<close> lists the users known with their roles. The
  result tells whether a member was added.
\<close>

fun ensure_members ::
  "string \<Rightarrow> string \<Rightarrow> (string \<times> string) list \<Rightarrow> member list \<Rightarrow> session_db \<Rightarrow> (session_db \<times> bool) sess_result" where
  "ensure_members app s existing [] db = Inr (db, False)"
| "ensure_members app s existing (m # ms) db =
     (case map_of existing (mb_user_id m) of
        Some role \<Rightarrow>
          if role \<noteq> mb_role m then sess_fail Sess_Exists else ensure_members app s existing ms db
      | None \<Rightarrow>
          if MaxMembersPerSession \<le> length existing then sess_fail Sess_Invalid
          else (case insert_member app s m db of
              Inl err \<Rightarrow> if isUniqueConstraint err then sess_fail Sess_Exists else store_failure err
            | Inr db1 \<Rightarrow>
                (case ensure_members app s ((mb_user_id m, mb_role m) # existing) ms db1 of
                   Inl e \<Rightarrow> Inl e
                 | Inr (db2, _) \<Rightarrow> Inr (db2, True))))"

definition touch_session :: "sql_driver \<Rightarrow> instant \<Rightarrow> session_row \<Rightarrow> session_row" where
  "touch_session drv at r =
     (if julianday drv (sw_updated_at r) < julianday drv at then r\<lparr>sw_updated_at := at\<rparr> else r)"

definition EnsureSession :: "sql_driver \<Rightarrow> session \<Rightarrow> session_db \<Rightarrow> session_db \<times> unit sess_result" where
  "EnsureSession drv s db =
     (let app = sn_app_id s; sid = sn_id s in
      case ValidateSession s of
        Inl e \<Rightarrow> (db, Inl e)
      | Inr _ \<Rightarrow>
     (case exec_insert_ignore (session_row_check drv) session_key (session_row_of s) (sb_sessions db) of
        None \<Rightarrow> (db, store_failure check_violated)
      | Some (t, n) \<Rightarrow>
        if n = 1 then
          (case insertSessionRelations s (db\<lparr>sb_sessions := t\<rparr>) of
             Inl err \<Rightarrow> (db, store_failure err)
           | Inr db1 \<Rightarrow> (db1, Inr ()))
        else
     (case readSession app sid db of
        None \<Rightarrow> (db, store_failure no_rows)
      | Some existing \<Rightarrow>
        if sn_type existing \<noteq> sn_type s \<or> \<not> sessionBindingsEqual (sn_bindings existing) (sn_bindings s)
        then (db, sess_fail Sess_Exists)
        else
     (case ensure_members app sid (map (\<lambda>m. (mb_user_id m, mb_role m)) (sn_members existing)) (sn_members s) db of
        Inl e \<Rightarrow> (db, Inl e)
      | Inr (db1, added) \<Rightarrow>
        if \<not> added then (db1, Inr ())
        else (case exec_update (session_row_check drv) (\<lambda>r. session_key r = (app, sid))
                     (touch_session drv (sn_updated_at s)) (sb_sessions db1) of
            None \<Rightarrow> (db, store_failure check_violated)
          | Some (t', _) \<Rightarrow> (db1\<lparr>sb_sessions := t'\<rparr>, Inr ()))))))"

definition GetSession :: "string \<Rightarrow> string \<Rightarrow> session_db \<Rightarrow> session sess_result" where
  "GetSession app s db =
     (if \<not> valid_stable_id app \<or> \<not> valid_stable_id s then sess_fail Sess_NotFound
      else case readSession app s db of None \<Rightarrow> sess_fail Sess_NotFound | Some v \<Rightarrow> Inr v)"

section \<open>Messages\<close>

definition content_fits :: "content_ref \<Rightarrow> string \<Rightarrow> bool" where
  "content_fits ref content \<longleftrightarrow>
     (if ct_mode ref = ContentModeInline then length content \<noteq> 0 \<and> int (length content) = ct_size ref
      else ct_mode ref = ContentModeBlob \<and> length content = 0)"

definition message_row_of :: "message_record \<Rightarrow> string \<Rightarrow> message_row" where
  "message_row_of m content =
     \<lparr>mg_app_id = mg_app_id m, mg_session_id = mg_session_id m, mg_id = mg_id m, mg_sender = mg_sender m,
      mg_type = mg_type m, mg_content_ref = mg_content_ref m, mg_reply_to = mg_reply_to m,
      mg_platform_id = mg_platform_id m, mg_created_at = mg_created_at m, mg_edited_at = None,
      mg_deleted_at = None, mg_content = content\<rparr>"

definition message_of_row :: "message_row \<Rightarrow> message_record" where
  "message_of_row m = message_record.truncate m"

definition messageIdentityEqual :: "message_record \<Rightarrow> string \<Rightarrow> message_record \<Rightarrow> string \<Rightarrow> bool" where
  "messageIdentityEqual m content m' content' \<longleftrightarrow>
     mg_session_id m = mg_session_id m' \<and> mg_sender m = mg_sender m' \<and> mg_type m = mg_type m' \<and>
     mg_reply_to m = mg_reply_to m' \<and> mg_platform_id m = mg_platform_id m' \<and>
     ct_mode (mg_content_ref m) = ct_mode (mg_content_ref m') \<and>
     ct_blob_id (mg_content_ref m) = ct_blob_id (mg_content_ref m') \<and>
     ct_size (mg_content_ref m) = ct_size (mg_content_ref m') \<and>
     (ct_mode (mg_content_ref m) \<noteq> ContentModeInline \<or> content = content')"

definition readMessageByPlatform :: "string \<Rightarrow> string \<Rightarrow> session_db \<Rightarrow> message_row option" where
  "readMessageByPlatform app pid db = find (\<lambda>m. mg_app_id m = app \<and> mg_platform_id m = pid) (sb_messages db)"

definition CreateMessage ::
  "message_record \<Rightarrow> string \<Rightarrow> session_db \<Rightarrow> session_db \<times> (message_record \<times> bool) sess_result" where
  "CreateMessage m content db =
     (case ValidateMessage m of
        Inl e \<Rightarrow> (db, Inl e)
      | Inr _ \<Rightarrow>
        if \<not> content_fits (mg_content_ref m) content then (db, sess_fail Sess_InvalidMessage)
        else case insert_message (message_row_of m content) db of
          Inr db1 \<Rightarrow> (db1, Inr (m, True))
        | Inl err \<Rightarrow>
          (db,
           if isUniqueConstraint err then
             (case find_message (message_key m) db of
                Some existing \<Rightarrow>
                  if messageIdentityEqual (message_of_row existing) (mg_content existing) m content
                  then Inr (message_of_row existing, False) else sess_fail Sess_MessageConflict
              | None \<Rightarrow>
                  if mg_platform_id m \<noteq> [] then
                    (case readMessageByPlatform (mg_app_id m) (mg_platform_id m) db of
                       Some _ \<Rightarrow> sess_fail Sess_MessageConflict
                     | None \<Rightarrow> store_failure no_rows)
                  else store_failure err)
           else if isForeignKeyConstraint err then sess_fail Sess_NotFound
           else store_failure err))"

definition GetMessage :: "string \<Rightarrow> string \<Rightarrow> string \<Rightarrow> session_db \<Rightarrow> message_record sess_result" where
  "GetMessage app s mid db =
     (if \<not> valid_stable_id app \<or> \<not> valid_stable_id s \<or> \<not> valid_stable_id mid then sess_fail Sess_MessageNotFound
      else case find_message (app, mid) db of
        None \<Rightarrow> sess_fail Sess_MessageNotFound
      | Some m \<Rightarrow>
          if mg_session_id m \<noteq> s \<or> mg_deleted_at m \<noteq> None then sess_fail Sess_MessageNotFound
          else Inr (message_of_row m))"

text \<open>\<open>ORDER BY created_at,message_id\<close>, on the stored text of the time.\<close>

definition message_order :: "message_row \<Rightarrow> (int \<times> string) \<times> string" where
  "message_order m = (stored_time (mg_created_at m), mg_id m)"

definition visible_where :: "string \<Rightarrow> string \<Rightarrow> message_row \<Rightarrow> bool" where
  "visible_where app s m \<longleftrightarrow> mg_app_id m = app \<and> mg_session_id m = s \<and> mg_deleted_at m = None"

definition listMessages ::
  "string \<Rightarrow> string \<Rightarrow> message_query \<Rightarrow> session_db \<Rightarrow> message_record list sess_result" where
  "listMessages app s q db =
     (case ValidateMessageQuery q of
        Inl e \<Rightarrow> Inl e
      | Inr _ \<Rightarrow>
        if \<not> valid_stable_id app \<or> \<not> valid_stable_id s then sess_fail Sess_InvalidMessage
        else let found = sort_key message_order
                   (filter (\<lambda>m. visible_where app s m \<and> (mq_sender q = [] \<or> mg_sender m = mq_sender q)) (sb_messages db))
             in Inr (map message_of_row (take (nat (mq_limit q)) (if mq_descending q then rev found else found))))"

definition GetMessageContent :: "string \<Rightarrow> string \<Rightarrow> string \<Rightarrow> session_db \<Rightarrow> string sess_result" where
  "GetMessageContent app s mid db =
     (if \<not> valid_stable_id app \<or> \<not> valid_stable_id s \<or> \<not> valid_stable_id mid then sess_fail Sess_MessageNotFound
      else case find (\<lambda>m. visible_where app s m \<and> mg_id m = mid) (sb_messages db) of
        None \<Rightarrow> sess_fail Sess_MessageNotFound
      | Some m \<Rightarrow>
          if ct_mode (mg_content_ref m) = ContentModeBlob then sess_fail Sess_ContentBlob else Inr (mg_content m))"

text \<open>The two \<open>UPDATE messages\<close>.\<close>

type_synonym message_ref = "string \<times> string \<times> string"

definition message_ref_of :: "message_row \<Rightarrow> message_ref" where
  "message_ref_of m = (mg_app_id m, mg_session_id m, mg_id m)"

datatype message_write = MW_Edit message_ref content_ref string instant | MW_Recall message_ref instant

fun message_target :: "message_write \<Rightarrow> message_ref" where
  "message_target (MW_Edit k ref content at) = k"
| "message_target (MW_Recall k at) = k"

definition message_where :: "message_write \<Rightarrow> message_row \<Rightarrow> bool" where
  "message_where w m \<longleftrightarrow> message_ref_of m = message_target w \<and> mg_deleted_at m = None"

fun message_set :: "message_write \<Rightarrow> message_row \<Rightarrow> message_row" where
  "message_set (MW_Edit k ref content at) m =
     m\<lparr>mg_content_ref := ref, mg_content := content, mg_edited_at := Some at\<rparr>"
| "message_set (MW_Recall k at) m = m\<lparr>mg_deleted_at := Some at\<rparr>"

text \<open>A write that meets no row tells a missing message from a deleted one.\<close>

definition write_message :: "message_write \<Rightarrow> session_db \<Rightarrow> session_db \<times> unit sess_result" where
  "write_message w db =
     (case exec_update message_row_check (message_where w) (message_set w) (sb_messages db) of
        None \<Rightarrow> (db, store_failure check_violated)
      | Some (t, n) \<Rightarrow>
        if n = 0 then
          (db, if list_ex (\<lambda>m. message_ref_of m = message_target w) (sb_messages db)
               then sess_fail Sess_InvalidTransition else sess_fail Sess_MessageNotFound)
        else (db\<lparr>sb_messages := t\<rparr>, Inr ()))"

definition EditMessage :: "message_edit \<Rightarrow> string \<Rightarrow> session_db \<Rightarrow> session_db \<times> unit sess_result" where
  "EditMessage e content db =
     (case ValidateMessageEdit e of
        Inl err \<Rightarrow> (db, Inl err)
      | Inr _ \<Rightarrow>
        if \<not> content_fits (me_content_ref e) content then (db, sess_fail Sess_InvalidMessage)
        else write_message
               (MW_Edit (me_app_id e, me_session_id e, me_message_id e) (me_content_ref e) content (me_edited_at e)) db)"

definition RecallMessage ::
  "string \<Rightarrow> string \<Rightarrow> string \<Rightarrow> instant \<Rightarrow> session_db \<Rightarrow> session_db \<times> unit sess_result" where
  "RecallMessage app s mid at db =
     (if \<not> valid_stable_id app \<or> \<not> valid_stable_id s \<or> \<not> valid_stable_id mid \<or> is_zero at
      then (db, sess_fail Sess_InvalidMessage)
      else write_message (MW_Recall (app, s, mid) at) db)"

section \<open>Attachments\<close>

definition CreateAttachment :: "attachment \<Rightarrow> session_db \<Rightarrow> session_db \<times> unit sess_result" where
  "CreateAttachment a db =
     (case ValidateAttachment a of
        Inl e \<Rightarrow> (db, Inl e)
      | Inr _ \<Rightarrow>
     (case insert_attachment a db of
        Inr db1 \<Rightarrow> (db1, Inr ())
      | Inl err \<Rightarrow>
          (db, if isForeignKeyConstraint err
               then (if find_session (at_app_id a, at_session_id a) db = None then sess_fail Sess_NotFound
                     else sess_fail Sess_MessageNotFound)
               else store_failure err)))"

definition GetAttachment :: "string \<Rightarrow> string \<Rightarrow> string \<Rightarrow> session_db \<Rightarrow> attachment sess_result" where
  "GetAttachment app s aid db =
     (if \<not> valid_stable_id app \<or> \<not> valid_stable_id s \<or> \<not> valid_stable_id aid then sess_fail Sess_AttachmentNotFound
      else case find (\<lambda>a. attachment_key a = (app, aid) \<and> at_session_id a = s) (sb_attachments db) of
        None \<Rightarrow> sess_fail Sess_AttachmentNotFound
      | Some a \<Rightarrow> Inr a)"

section \<open>The service\<close>

text \<open>\<open>session.Service\<close> over this store and a blob store, of which it uses \<open>Get\<close>.\<close>

definition MessageContent ::
  "(string \<Rightarrow> string sess_result) \<Rightarrow> session_db \<Rightarrow> message_record \<Rightarrow> string sess_result" where
  "MessageContent blob_get db m =
     (if ct_mode (mg_content_ref m) = ContentModeInline
        then GetMessageContent (mg_app_id m) (mg_session_id m) (mg_id m) db
      else if ct_mode (mg_content_ref m) = ContentModeBlob then
        (case blob_get (ct_blob_id (mg_content_ref m)) of
           Inl e \<Rightarrow> Inl e
         | Inr content \<Rightarrow>
             if int (length content) \<noteq> ct_size (mg_content_ref m) then sess_fail Sess_InvalidBlobRef else Inr content)
      else sess_fail Sess_InvalidMessage)"

end
