(* ===== verification/Session_Tables.thy ===== *)
theory Session_Tables
  imports Session_Store
begin

text \<open>
  What the session store keeps: every operation is a sequence of inserts and guarded updates, each of which
  preserves the constraints of the schema, its references, the rows of deleted messages and the rows of
  other Apps.
\<close>

section \<open>The invariant\<close>

definition has_session :: "session_db \<Rightarrow> string \<times> string \<Rightarrow> bool" where
  "has_session db k \<longleftrightarrow> find_session k db \<noteq> None"

definition has_message :: "session_db \<Rightarrow> string \<times> string \<Rightarrow> bool" where
  "has_message db k \<longleftrightarrow> find_message k db \<noteq> None"

definition session_refs_ok :: "session_db \<Rightarrow> bool" where
  "session_refs_ok db \<longleftrightarrow>
     list_all (\<lambda>r. has_session db (mw_app_id r, mw_session_id r)) (sb_members db) \<and>
     list_all (\<lambda>r. has_session db (bw_app_id r, bw_session_id r)) (sb_bindings db) \<and>
     list_all (\<lambda>m. has_session db (mg_app_id m, mg_session_id m)) (sb_messages db) \<and>
     list_all (\<lambda>a. has_session db (at_app_id a, at_session_id a) \<and> has_message db (at_app_id a, at_message_id a))
       (sb_attachments db)"

definition session_db_ok :: "sql_driver \<Rightarrow> session_db \<Rightarrow> bool" where
  "session_db_ok drv db \<longleftrightarrow>
     table_ok (session_row_check drv) session_key (sb_sessions db) \<and>
     table_ok member_row_check member_key (sb_members db) \<and>
     table_ok binding_row_check binding_row_key (sb_bindings db) \<and>
     table_ok message_row_check message_key (sb_messages db) \<and>
     distinct (filter (\<lambda>k. k \<noteq> None) (map platform_key (sb_messages db))) \<and>
     table_ok attachment_row_check attachment_key (sb_attachments db) \<and> session_refs_ok db"

definition empty_session_db :: session_db where
  "empty_session_db = \<lparr>sb_sessions = [], sb_members = [], sb_bindings = [], sb_messages = [], sb_attachments = []\<rparr>"

lemma empty_session_db_ok: "session_db_ok drv empty_session_db"
  by (simp add: session_db_ok_def session_refs_ok_def empty_session_db_def)

section \<open>Inserts\<close>

lemma insert_under_Inr:
  "insert_under chk key refs r t = Inr t' \<longleftrightarrow> chk r \<and> key r \<notin> set (map key t) \<and> refs r \<and> t' = t @ [r]"
  by (auto simp: insert_under_def)

lemma insert_under_Inl:
  "insert_under chk key refs r t = Inl e \<longleftrightarrow>
     (\<not> chk r \<and> e = check_violated) \<or> (chk r \<and> key r \<in> set (map key t) \<and> e = primary_violated) \<or>
     (chk r \<and> key r \<notin> set (map key t) \<and> \<not> refs r \<and> e = reference_violated)"
  by (auto simp: insert_under_def)

lemma insert_session_Inr:
  "insert_session drv r db = Inr db' \<longleftrightarrow>
     session_row_check drv r \<and> find_session (session_key r) db = None \<and> db' = db\<lparr>sb_sessions := sb_sessions db @ [r]\<rparr>"
  by (auto simp: insert_session_def and_then_def insert_under_def find_session_def select_key_None split: if_splits)

lemma insert_member_Inr:
  "insert_member app s m db = Inr db' \<longleftrightarrow>
     (let r = \<lparr>mw_app_id = app, mw_session_id = s, mw_member = m\<rparr> in
      member_row_check r \<and> member_key r \<notin> set (map member_key (sb_members db)) \<and> has_session db (app, s) \<and>
      db' = db\<lparr>sb_members := sb_members db @ [r]\<rparr>)"
  by (auto simp: insert_member_def and_then_def insert_under_def has_session_def Let_def split: if_splits)

lemma insert_binding_Inr:
  "insert_binding app s b db = Inr db' \<longleftrightarrow>
     (let r = \<lparr>bw_app_id = app, bw_session_id = s, bw_binding = b\<rparr> in
      binding_row_check r \<and> binding_row_key r \<notin> set (map binding_row_key (sb_bindings db)) \<and>
      has_session db (app, s) \<and> db' = db\<lparr>sb_bindings := sb_bindings db @ [r]\<rparr>)"
  by (auto simp: insert_binding_def and_then_def insert_under_def has_session_def Let_def split: if_splits)

lemma insert_message_Inr:
  "insert_message m db = Inr db' \<longleftrightarrow>
     message_row_check m \<and> find_message (message_key m) db = None \<and>
     (platform_key m = None \<or> platform_key m \<notin> set (map platform_key (sb_messages db))) \<and>
     has_session db (mg_app_id m, mg_session_id m) \<and> db' = db\<lparr>sb_messages := sb_messages db @ [m]\<rparr>"
  by (auto simp: insert_message_def and_then_def insert_under_def has_session_def find_message_def select_key_None
      split: if_splits)

lemma insert_attachment_Inr:
  "insert_attachment a db = Inr db' \<longleftrightarrow>
     attachment_row_check a \<and> attachment_key a \<notin> set (map attachment_key (sb_attachments db)) \<and>
     has_session db (at_app_id a, at_session_id a) \<and> has_message db (at_app_id a, at_message_id a) \<and>
     db' = db\<lparr>sb_attachments := sb_attachments db @ [a]\<rparr>"
  by (auto simp: insert_attachment_def and_then_def insert_under_def has_session_def has_message_def split: if_splits)

lemmas inserts_Inr = insert_session_Inr insert_member_Inr insert_binding_Inr insert_message_Inr insert_attachment_Inr

section \<open>Writes\<close>

text \<open>One statement of the store that changed the database, labelled with the App it works for.\<close>

inductive session_write :: "sql_driver \<Rightarrow> string \<Rightarrow> session_db \<Rightarrow> session_db \<Rightarrow> bool" for drv where
  new_session_row: "insert_session drv r db = Inr db' \<Longrightarrow> session_write drv (sw_app_id r) db db'"
| new_member: "insert_member app s m db = Inr db' \<Longrightarrow> session_write drv app db db'"
| new_binding: "insert_binding app s b db = Inr db' \<Longrightarrow> session_write drv app db db'"
| new_message: "insert_message m db = Inr db' \<Longrightarrow> session_write drv (mg_app_id m) db db'"
| new_attachment: "insert_attachment a db = Inr db' \<Longrightarrow> session_write drv (at_app_id a) db db'"
| touched: "exec_update (session_row_check drv) (\<lambda>r. session_key r = (app, s)) (touch_session drv at) (sb_sessions db)
    = Some (t, n) \<Longrightarrow> session_write drv app db (db\<lparr>sb_sessions := t\<rparr>)"
| written: "exec_update message_row_check (message_where w) (message_set w) (sb_messages db) = Some (t, n) \<Longrightarrow>
    session_write drv (fst (message_target w)) db (db\<lparr>sb_messages := t\<rparr>)"

abbreviation session_writes :: "sql_driver \<Rightarrow> string \<Rightarrow> session_db \<Rightarrow> session_db \<Rightarrow> bool" where
  "session_writes drv app \<equiv> (session_write drv app)\<^sup>*\<^sup>*"

lemma touch_session_key [simp]: "session_key (touch_session drv at r) = session_key r"
  by (simp add: touch_session_def session_key_def)

lemma message_set_keys [simp]:
  "message_key (message_set w m) = message_key m" "platform_key (message_set w m) = platform_key m"
  "mg_app_id (message_set w m) = mg_app_id m" "mg_session_id (message_set w m) = mg_session_id m"
  "mg_id (message_set w m) = mg_id m" "mg_platform_id (message_set w m) = mg_platform_id m"
  by (cases w; simp add: message_key_def platform_key_def)+

text \<open>No write removes a session or a message.\<close>

lemma kept_keys:
  assumes "session_write drv app db db'"
  shows "has_session db k \<longrightarrow> has_session db' k" and "has_message db k \<longrightarrow> has_message db' k"
  using assms
  by (induction rule: session_write.induct)
    (auto simp: inserts_Inr Let_def has_session_def has_message_def find_session_def find_message_def
      exec_update_Some select_update_where select_key_append split: option.splits)

lemma refs_mono:
  assumes "\<And>k. has_session db k \<Longrightarrow> has_session db' k" "\<And>k. has_message db k \<Longrightarrow> has_message db' k"
    and "session_refs_ok db"
  shows "list_all (\<lambda>r. has_session db' (mw_app_id r, mw_session_id r)) (sb_members db)"
    and "list_all (\<lambda>r. has_session db' (bw_app_id r, bw_session_id r)) (sb_bindings db)"
    and "list_all (\<lambda>m. has_session db' (mg_app_id m, mg_session_id m)) (sb_messages db)"
    and "list_all (\<lambda>a. has_session db' (at_app_id a, at_session_id a) \<and> has_message db' (at_app_id a, at_message_id a))
           (sb_attachments db)"
  using assms by (auto simp: session_refs_ok_def list_all_iff)

lemma table_ok_snoc: "table_ok chk key t \<Longrightarrow> chk r \<Longrightarrow> key r \<notin> set (map key t) \<Longrightarrow> table_ok chk key (t @ [r])"
  by (auto simp: table_ok_def)

lemma has_update [simp]:
  "has_session (db\<lparr>sb_members := x1\<rparr>) = has_session db" "has_session (db\<lparr>sb_bindings := x2\<rparr>) = has_session db"
  "has_session (db\<lparr>sb_messages := x3\<rparr>) = has_session db" "has_session (db\<lparr>sb_attachments := x4\<rparr>) = has_session db"
  "has_message (db\<lparr>sb_sessions := x5\<rparr>) = has_message db" "has_message (db\<lparr>sb_members := x1\<rparr>) = has_message db"
  "has_message (db\<lparr>sb_bindings := x2\<rparr>) = has_message db" "has_message (db\<lparr>sb_attachments := x4\<rparr>) = has_message db"
  by (simp_all add: has_session_def has_message_def find_session_def find_message_def fun_eq_iff)

lemma written_columns:
  assumes "exec_update message_row_check (message_where w) (message_set w) t = Some (t', n)"
  shows "map platform_key t' = map platform_key t"
    and "list_all (\<lambda>m. P (mg_app_id m, mg_session_id m)) t' = list_all (\<lambda>m. P (mg_app_id m, mg_session_id m)) t"
proof -
  have t': "t' = update_where (message_where w) (message_set w) t" using assms by (simp add: exec_update_Some)
  show "map platform_key t' = map platform_key t" by (simp add: t' map_update_where)
  have "map (\<lambda>m. (mg_app_id m, mg_session_id m)) t' = map (\<lambda>m. (mg_app_id m, mg_session_id m)) t"
    by (simp add: t' map_update_where)
  from arg_cong[OF this, of "list_all P"] 
  show "list_all (\<lambda>m. P (mg_app_id m, mg_session_id m)) t' = list_all (\<lambda>m. P (mg_app_id m, mg_session_id m)) t"
    by (simp add: list.pred_map comp_def)
qed

lemma session_write_ok:
  assumes "session_write drv app db db'" "session_db_ok drv db"
  shows "session_db_ok drv db'"
proof -
  have ok: "session_refs_ok db" using assms(2) by (simp add: session_db_ok_def)
  note refs = refs_mono[OF kept_keys(1)[OF assms(1), rule_format] kept_keys(2)[OF assms(1), rule_format] ok]
  note parts = assms(2)[unfolded session_db_ok_def session_refs_ok_def]
  from assms(1) show ?thesis
  proof cases
    case (new_session_row r)
    then show ?thesis using parts refs
      by (auto simp: inserts_Inr session_db_ok_def session_refs_ok_def find_session_def select_key_None intro: table_ok_snoc)
  next
    case (new_member s m)
    then show ?thesis using parts
      by (auto simp: inserts_Inr Let_def session_db_ok_def session_refs_ok_def intro!: table_ok_snoc)
  next
    case (new_binding s b)
    then show ?thesis using parts
      by (auto simp: inserts_Inr Let_def session_db_ok_def session_refs_ok_def intro!: table_ok_snoc)
  next
    case (new_message m)
    then show ?thesis using parts refs
      by (auto simp: inserts_Inr session_db_ok_def session_refs_ok_def find_message_def select_key_None
          intro!: table_ok_snoc)
  next
    case (new_attachment a)
    then show ?thesis using parts
      by (auto simp: inserts_Inr session_db_ok_def session_refs_ok_def intro!: table_ok_snoc)
  next
    case (touched s at t n)
    then show ?thesis using parts refs exec_update_ok[OF _ touched(2), of session_key]
      by (auto simp: session_db_ok_def session_refs_ok_def)
  next
    case (written w t n)
    then show ?thesis using parts refs exec_update_ok[OF _ written(3), of message_key] written_columns(1)[OF written(3)]
        written_columns(2)[OF written(3), of "has_session db"]
      by (auto simp: session_db_ok_def session_refs_ok_def)
  qed
qed

section \<open>Operations\<close>

lemma write_then: "session_write drv app d d' \<Longrightarrow> session_writes drv app d' d'' \<Longrightarrow> session_writes drv app d d''"
  by (rule converse_rtranclp_into_rtranclp)

lemma one_write: "session_write drv app d d' \<Longrightarrow> session_writes drv app d d'"
  by (rule r_into_rtranclp)

lemma writes_then: "session_writes drv app d d' \<Longrightarrow> session_write drv app d' d'' \<Longrightarrow> session_writes drv app d d''"
  by (rule rtranclp.rtrancl_into_rtrancl)

lemma insert_each_writes:
  assumes "\<And>x d d'. f x d = Inr d' \<Longrightarrow> R d d'"
  shows "insert_each f xs d = Inr d' \<Longrightarrow> R\<^sup>*\<^sup>* d d'"
proof (induction xs arbitrary: d)
  case (Cons x xs)
  then obtain d1 where "f x d = Inr d1" "insert_each f xs d1 = Inr d'" by (auto simp: and_then_Inr)
  then show ?case using assms Cons.IH by (meson converse_rtranclp_into_rtranclp)
qed simp

lemma members_writes: "insert_each (insert_member app s) ms d = Inr d' \<Longrightarrow> session_writes drv app d d'"
  by (erule insert_each_writes[rotated]) (rule new_member)

lemma bindings_writes: "insert_each (insert_binding app s) bs d = Inr d' \<Longrightarrow> session_writes drv app d d'"
  by (erule insert_each_writes[rotated]) (rule new_binding)

lemma insertSessionRelations_writes:
  "insertSessionRelations s d = Inr d' \<Longrightarrow> session_writes drv (sn_app_id s) d d'"
  unfolding insertSessionRelations_def and_then_Inr
  by (meson members_writes bindings_writes rtranclp_trans)

lemma CreateSession_writes: "CreateSession drv s db = (db', r) \<Longrightarrow> session_writes drv (sn_app_id s) db db'"
  using new_session_row[of drv "session_row_of s" db]
  by (auto simp: CreateSession_def session_row_of_def split: sum.splits if_splits
      intro: write_then rtranclp_trans[OF members_writes bindings_writes])

lemma ensure_members_writes:
  "ensure_members app s known ms db = Inr (db', added) \<Longrightarrow> session_writes drv app db db'"
proof (induction app s known ms db arbitrary: db' added rule: ensure_members.induct)
  case (2 app s known m ms db)
  then show ?case
    by (auto split: option.splits if_splits sum.splits prod.splits
        intro: write_then[OF new_member])
qed simp

lemma exec_insert_ignore_1:
  "exec_insert_ignore chk key r t = Some (t', n) \<Longrightarrow> n = 1 \<longleftrightarrow> chk r \<and> key r \<notin> set (map key t) \<and> t' = t @ [r]"
  by (auto simp: exec_insert_ignore_def split: if_splits)

lemma ignored_insert_session:
  "exec_insert_ignore (session_row_check drv) session_key r (sb_sessions db) = Some (t, 1) \<Longrightarrow>
     insert_session drv r db = Inr (db\<lparr>sb_sessions := t\<rparr>)"
  by (auto simp: insert_session_Inr find_session_def select_key_None exec_insert_ignore_def split: if_splits)

lemma EnsureSession_writes: "EnsureSession drv s db = (db', r) \<Longrightarrow> session_writes drv (sn_app_id s) db db'"
  using new_session_row[OF ignored_insert_session, of drv "session_row_of s" db]
  by (auto simp: EnsureSession_def Let_def session_row_of_def split: sum.splits option.splits if_splits prod.splits
      intro: insertSessionRelations_writes write_then ensure_members_writes writes_then[OF ensure_members_writes touched])

lemma CreateMessage_writes: "CreateMessage m c db = (db', r) \<Longrightarrow> session_writes drv (mg_app_id m) db db'"
  using new_message[of "message_row_of m c" db]
  by (auto simp: CreateMessage_def message_row_of_def split: sum.splits if_splits)

lemma write_message_writes: "write_message w db = (db', r) \<Longrightarrow> session_writes drv (fst (message_target w)) db db'"
  by (auto simp: write_message_def intro: one_write[OF written] split: option.splits if_splits)

lemma EditMessage_writes: "EditMessage e c db = (db', r) \<Longrightarrow> session_writes drv (me_app_id e) db db'"
  using write_message_writes by (fastforce simp: EditMessage_def split: sum.splits if_splits)

lemma RecallMessage_writes: "RecallMessage app s mid at db = (db', r) \<Longrightarrow> session_writes drv app db db'"
  using write_message_writes by (fastforce simp: RecallMessage_def split: if_splits)

lemma CreateAttachment_writes: "CreateAttachment a db = (db', r) \<Longrightarrow> session_writes drv (at_app_id a) db db'"
  using new_attachment[of a db] by (auto simp: CreateAttachment_def split: sum.splits)

text \<open>One call of the store, whatever it returns, for the App that it names.\<close>

inductive session_call :: "sql_driver \<Rightarrow> string \<Rightarrow> session_db \<Rightarrow> session_db \<Rightarrow> bool" for drv where
  create_session: "CreateSession drv s db = (db', r) \<Longrightarrow> session_call drv (sn_app_id s) db db'"
| ensure_session: "EnsureSession drv s db = (db', r) \<Longrightarrow> session_call drv (sn_app_id s) db db'"
| create_message: "CreateMessage m c db = (db', r') \<Longrightarrow> session_call drv (mg_app_id m) db db'"
| edit_message: "EditMessage e c db = (db', r) \<Longrightarrow> session_call drv (me_app_id e) db db'"
| recall_message: "RecallMessage app s mid at db = (db', r) \<Longrightarrow> session_call drv app db db'"
| create_attachment: "CreateAttachment a db = (db', r) \<Longrightarrow> session_call drv (at_app_id a) db db'"

lemma session_call_writes: "session_call drv app db db' \<Longrightarrow> session_writes drv app db db'"
  by (induction rule: session_call.induct)
    (blast intro: CreateSession_writes EnsureSession_writes CreateMessage_writes EditMessage_writes
      RecallMessage_writes CreateAttachment_writes)+

text \<open>Calls of any Apps, one after the other.\<close>

abbreviation session_calls :: "sql_driver \<Rightarrow> session_db \<Rightarrow> session_db \<Rightarrow> bool" where
  "session_calls drv \<equiv> (\<lambda>db db'. \<exists>app. session_call drv app db db')\<^sup>*\<^sup>*"

lemma session_calls_keep:
  assumes "session_calls drv db db'" "P db"
    and "\<And>app d d'. session_write drv app d d' \<Longrightarrow> P d \<Longrightarrow> P d'"
  shows "P db'"
  using assms(1,2)
proof (induction rule: rtranclp_induct)
  case (step d d')
  obtain app where "session_writes drv app d d'" using step.hyps(2) session_call_writes by blast
  then show ?case using step.IH[OF step.prems] by (induction rule: rtranclp_induct) (auto intro: assms(3))
qed

lemma session_calls_ok: "session_calls drv db db' \<Longrightarrow> session_db_ok drv db \<Longrightarrow> session_db_ok drv db'"
  by (erule session_calls_keep) (auto intro: session_write_ok)

end
