(* ===== verification/Message_Guarantees.thy ===== *)
theory Message_Guarantees
  imports Session_Tables
begin

text \<open>
  The promises of \<open>session/port.go\<close> on this store: a message is created once, a recalled message is found by
  no read of the tables, though content in a blob can still be fetched with metadata read before.
\<close>

text \<open>Every reachable database satisfies the constraints and references of the schema.\<close>

theorem session_tables_invariant:
  assumes "session_calls drv empty_session_db db"
  shows "session_db_ok drv db"
  by (rule session_calls_ok[OF assms empty_session_db_ok])

section \<open>Rows that are kept\<close>

lemma select_written:
  assumes "exec_update message_row_check (message_where w) (message_set w) t = Some (t', n)"
  shows "select_key message_key k t' =
    map_option (\<lambda>m. if message_where w m then message_set w m else m) (select_key message_key k t)"
  using assms by (simp add: exec_update_Some select_update_where)

text \<open>What a write does to the row of a message: nothing, or one of the two updates.\<close>

lemma written_message:
  assumes "session_write drv app db db'" "find_message k db = Some m"
  shows "find_message k db' = Some m \<or> (\<exists>w. message_where w m \<and> find_message k db' = Some (message_set w m))"
  using assms(1)
proof cases
  case (new_message x)
  then show ?thesis using assms(2) by (simp add: insert_message_Inr find_message_def select_key_append)
next
  case (written w t n)
  then show ?thesis using assms(2) select_written[OF written(3), of k] by (auto simp: find_message_def)
qed (use assms(2) in \<open>auto simp: inserts_Inr Let_def find_message_def\<close>)

lemma found_message_kept:
  "session_write drv app db db' \<Longrightarrow> find_message k db = Some m \<Longrightarrow>
     \<exists>m'. find_message k db' = Some m' \<and> platform_key m' = platform_key m"
  by (drule (1) written_message) auto

lemma deleted_message_kept:
  "session_write drv app db db' \<Longrightarrow> find_message k db = Some m \<Longrightarrow> mg_deleted_at m \<noteq> None \<Longrightarrow>
     find_message k db' = Some m"
  by (drule (1) written_message) (auto simp: message_where_def)

lemma found_unique:
  "session_db_ok drv db \<Longrightarrow> m \<in> set (sb_messages db) \<Longrightarrow> find_message (message_key m) db = Some m"
  by (simp add: session_db_ok_def table_ok_def find_message_def select_key_Some)

lemma find_messageD: "find_message k db = Some m \<Longrightarrow> m \<in> set (sb_messages db) \<and> message_key m = k"
  unfolding find_message_def by (rule select_keyD)

section \<open>A message is created once\<close>

lemma CreateMessage_created:
  assumes "CreateMessage m c db = (db1, Inr (x, True))"
  shows "insert_message (message_row_of m c) db = Inr db1 \<and> x = m"
proof (cases "insert_message (message_row_of m c) db")
  case (Inl e)
  then show ?thesis using assms by (simp add: CreateMessage_def split: sum.splits if_splits option.splits)
next
  case (Inr d)
  then show ?thesis using assms by (simp add: CreateMessage_def split: sum.splits if_splits)
qed

lemma CreateMessage_kept:
  assumes "\<And>d. insert_message (message_row_of m c) db \<noteq> Inr d" "CreateMessage m c db = (db1, r)"
  shows "db1 = db \<and> (\<forall>x. r \<noteq> Inr (x, True))"
proof (cases "insert_message (message_row_of m c) db")
  case (Inl e)
  then show ?thesis using assms(2) by (auto simp: CreateMessage_def split: sum.splits if_splits option.splits)
qed (use assms(1) in simp)

lemma message_row_of_keys [simp]:
  "message_key (message_row_of m c) = message_key m" "platform_key (message_row_of m c) = platform_key m"
  by (simp_all add: message_row_of_def message_key_def platform_key_def)

text \<open>C29: 
  A message that was created is never created a second time, neither under its identifier nor under its
  platform identifier, whatever was called in between: the repeated call changes nothing.
\<close>

theorem message_created_once:
  assumes "CreateMessage m content db = (db1, Inr (stored, True))" and "session_calls drv db1 db2"
    and "mg_app_id m' = mg_app_id m"
    and "mg_id m' = mg_id m \<or> (mg_platform_id m' = mg_platform_id m \<and> mg_platform_id m \<noteq> [])"
    and "CreateMessage m' content' db2 = (db3, r)"
  shows "db3 = db2 \<and> (\<forall>x. r \<noteq> Inr (x, True))"
proof -
  let ?kept = "\<lambda>d. \<exists>x. find_message (message_key m) d = Some x \<and> platform_key x = platform_key m"
  have "?kept db1"
    using CreateMessage_created[OF assms(1)] by (auto simp: insert_message_Inr find_message_def select_key_append)
  then have "?kept db2"
    by (rule session_calls_keep[OF assms(2), where P = ?kept]) (metis found_message_kept)
  then obtain x where x: "find_message (message_key m) db2 = Some x" "platform_key x = platform_key m" by blast
  have "insert_message (message_row_of m' content') db2 \<noteq> Inr d" for d
  proof (cases "mg_id m' = mg_id m")
    case True
    then have "message_key m' = message_key m" using assms(3) by (simp add: message_key_def)
    then show ?thesis using x(1) by (simp add: insert_message_Inr)
  next
    case False
    then have "platform_key m' = platform_key x" "platform_key x \<noteq> None"
      using assms(3,4) x(2) by (auto simp: platform_key_def)
    then show ?thesis using find_messageD[OF x(1)] by (auto simp: insert_message_Inr)
  qed
  then show ?thesis using CreateMessage_kept assms(5) by blast
qed

section \<open>A recalled message is gone\<close>

text \<open>What a history query lists.\<close>

definition listed :: "'a list sess_result \<Rightarrow> 'a list" where
  "listed r = (case r of Inl _ \<Rightarrow> [] | Inr xs \<Rightarrow> xs)"

lemma listMessages_visible:
  "x \<in> set (listed (listMessages app s q db)) \<Longrightarrow> \<exists>m \<in> set (sb_messages db). visible_where app s m \<and> x = message_of_row m"
  by (auto simp: listed_def listMessages_def Let_def split: sum.splits if_splits dest!: in_set_takeD)

lemma message_of_row_id [simp]: "mg_id (message_of_row m) = mg_id m" "mg_app_id (message_of_row m) = mg_app_id m"
  by (simp_all add: message_of_row_def message_record.truncate_def)

lemma write_message_recalled:
  assumes "RecallMessage app s mid at db = (db1, Inr ())" "session_db_ok drv db"
  shows "\<exists>m. find_message (app, mid) db1 = Some m \<and> mg_deleted_at m \<noteq> None"
proof -
  let ?w = "MW_Recall (app, s, mid) at"
  obtain t n where u: "exec_update message_row_check (message_where ?w) (message_set ?w) (sb_messages db) = Some (t, n)"
    "n \<noteq> 0" "db1 = db\<lparr>sb_messages := t\<rparr>"
    using assms(1) by (auto simp: RecallMessage_def write_message_def split: if_splits option.splits)
  then obtain m where m: "m \<in> set (sb_messages db)" "message_where ?w m"
    by (auto simp: exec_update_Some affected_0_iff)
  then have key: "message_key m = (app, mid)" by (auto simp: message_where_def message_ref_of_def message_key_def)
  have "find_message (app, mid) db = Some m" using found_unique[OF assms(2) m(1)] key by simp
  then have "select_key message_key (app, mid) t = Some (message_set ?w m)"
    using select_written[OF u(1), of "(app, mid)"] m(2) by (simp add: find_message_def)
  then show ?thesis using u(3) by (simp add: find_message_def)
qed

lemma deleted_invisible:
  assumes "session_db_ok drv db" "find_message (app, mid) db = Some m" "mg_deleted_at m \<noteq> None"
    and "x \<in> set (sb_messages db)" "visible_where app s x"
  shows "mg_id x \<noteq> mid"
  using found_unique[OF assms(1,4)] assms(2,3,5) by (auto simp: visible_where_def message_key_def)

lemma recalled_kept:
  assumes "session_db_ok drv db" "RecallMessage app s mid at db = (db1, Inr ())" "session_calls drv db1 db2"
  shows "session_db_ok drv db2" and "\<exists>m. find_message (app, mid) db2 = Some m \<and> mg_deleted_at m \<noteq> None"
proof -
  have call: "session_call drv app db db1" by (rule recall_message[OF assms(2)])
  have "session_db_ok drv db1" using session_calls_ok[of drv db db1] call assms(1) by blast
  then show "session_db_ok drv db2" by (rule session_calls_ok[OF assms(3)])
  show "\<exists>m. find_message (app, mid) db2 = Some m \<and> mg_deleted_at m \<noteq> None"
    using write_message_recalled[OF assms(2,1)]
    by (rule session_calls_keep[OF assms(3), where P = "\<lambda>d. \<exists>m. find_message (app, mid) d = Some m \<and> mg_deleted_at m \<noteq> None"])
      (metis deleted_message_kept)
qed

text \<open>C30: 
  After a recall, and whatever is called next, the message is gone from the store's reads: \<open>GetMessage\<close> and
  \<open>GetMessageContent\<close> report it as not found in every session, \<open>ListMessages\<close> lists it nowhere, and
  \<open>MessageContent\<close> on its metadata, read before the recall, finds no inline content.
\<close>

theorem recalled_message_invisible:
  assumes "session_db_ok drv db" "RecallMessage app s mid at db = (db1, Inr ())" "session_calls drv db1 db2"
  shows "GetMessage app s' mid db2 = sess_fail Sess_MessageNotFound \<and>
    GetMessageContent app s' mid db2 = sess_fail Sess_MessageNotFound \<and>
    mid \<notin> mg_id ` set (listed (listMessages app s' q db2)) \<and>
    (mg_app_id v = app \<and> mg_id v = mid \<and> ct_mode (mg_content_ref v) = ContentModeInline \<longrightarrow>
       MessageContent blob_get db2 v = sess_fail Sess_MessageNotFound)"
proof -
  obtain m where m: "find_message (app, mid) db2 = Some m" "mg_deleted_at m \<noteq> None"
    using recalled_kept(2)[OF assms] by blast
  note hidden = deleted_invisible[OF recalled_kept(1)[OF assms] m]
  have "GetMessage app s' mid db2 = sess_fail Sess_MessageNotFound" using m by (simp add: GetMessage_def)
  moreover have content: "GetMessageContent app s2 mid db2 = sess_fail Sess_MessageNotFound" for s2
  proof -
    have "find (\<lambda>m. visible_where app s2 m \<and> mg_id m = mid) (sb_messages db2) = None"
      using hidden by (auto simp: find_None_iff)
    then show ?thesis by (simp add: GetMessageContent_def)
  qed
  moreover have "mid \<notin> mg_id ` set (listed (listMessages app s' q db2))"
    using hidden listMessages_visible by fastforce
  ultimately show ?thesis by (simp add: MessageContent_def)
qed

text \<open>
  The content of a message kept as a blob stays readable: \<open>MessageContent\<close> asks the blob store without looking
  at the message again, so on metadata read before the recall it still returns the content, though its
  comment says that the content of a deleted message cannot be read.
\<close>

theorem recalled_blob_content_readable:
  assumes "session_db_ok drv db" and "GetMessage app s mid db = Inr v" and "RecallMessage app s mid at db = (db1, Inr ())"
    and "ct_mode (mg_content_ref v) = ContentModeBlob" and "blob_get (ct_blob_id (mg_content_ref v)) = Inr content"
    and "int (length content) = ct_size (mg_content_ref v)"
  shows "GetMessage app s mid db1 = sess_fail Sess_MessageNotFound \<and> MessageContent blob_get db1 v = Inr content"
proof -
  obtain m where "find_message (app, mid) db1 = Some m" "mg_deleted_at m \<noteq> None"
    using recalled_kept(2)[OF assms(1,3) rtranclp.rtrancl_refl] by blast
  then have "GetMessage app s mid db1 = sess_fail Sess_MessageNotFound" by (simp add: GetMessage_def)
  moreover have "ContentModeBlob \<noteq> ContentModeInline" by (simp add: ContentModeBlob_def ContentModeInline_def)
  ultimately show ?thesis using assms(4-6) by (simp add: MessageContent_def)
qed

end
