(* ===== verification/Session_Readback.thy ===== *)
theory Session_Readback
  imports Message_Guarantees "HOL-Library.Multiset"
begin

text \<open>
  Sessions read back as they were created or ensured, Apps are isolated, and four statements on how the
  store departs from what its port and its comments say.
\<close>

section \<open>What the loops insert\<close>

lemma uses_up_iff: "uses_up ks xs \<longleftrightarrow> mset xs \<subseteq># mset ks"
proof (induction xs arbitrary: ks)
  case (Cons x xs)
  then show ?case by (auto simp: insert_subset_eq_iff)
qed simp

lemma sessionsEqual_mset:
  "sessionsEqual a b \<longleftrightarrow>
     sn_app_id a = sn_app_id b \<and> sn_id a = sn_id b \<and> sn_type a = sn_type b \<and>
     sn_created_at a = sn_created_at b \<and> sn_updated_at a = sn_updated_at b \<and>
     image_mset sessionIdentityKey (mset (sn_members a)) = image_mset sessionIdentityKey (mset (sn_members b)) \<and>
     image_mset binding_identity_key (mset (sn_bindings a)) = image_mset binding_identity_key (mset (sn_bindings b))"
proof -
  have uses: "length ks = length xs \<and> uses_up ks xs \<longleftrightarrow> mset ks = mset xs" for ks xs :: "(string \<times> instant) list"
    unfolding uses_up_iff by (metis mset_subset_eqD mset_subset_size size_mset subset_mset.le_less order_refl less_irrefl)
  show ?thesis
    using uses[of "map sessionIdentityKey (sn_members a)" "map sessionIdentityKey (sn_members b)"]
      uses[of "map binding_identity_key (sn_bindings a)" "map binding_identity_key (sn_bindings b)"]
    by (auto simp: sessionsEqual_def)
qed

section \<open>What the comparison keys determine\<close>

text \<open>Identifiers do not contain the separator of the keys, so an equal key means an equal member or binding.\<close>

lemma mixed_no_separator: "stable_mixed_uncapped s \<Longrightarrow> CHR 0x1F \<notin> set s"
  by (cases s) (auto simp: list_all_iff mixed_tail_def char_class_defs)

lemma stable_no_separator: "is_stable_id s \<Longrightarrow> CHR 0x1F \<notin> set s"
  using is_stable_id_chars[of s "CHR 0x1F"] by (auto simp: char_class_defs id_separator_def)

lemma roles_no_separator: "r \<in> {MemberRoleOwner, MemberRoleAdmin, MemberRoleMember} \<Longrightarrow> CHR 0x1F \<notin> set r"
  by (auto simp: session_names)

lemma member_key_eq:
  assumes "sessionIdentityKey a = sessionIdentityKey m" and "valid_stable_id (mb_user_id m)"
    and "mb_role m \<in> {MemberRoleOwner, MemberRoleAdmin, MemberRoleMember}"
  shows "a = m"
proof -
  have "CHR 0x1F \<notin> set (mb_user_id m)" "CHR 0x1F \<notin> set (mb_role m)"
    using assms(2) mixed_no_separator roles_no_separator[OF assms(3)] by (auto simp: valid_stable_id_def stable_mixed_def)
  then have "mb_user_id m = mb_user_id a \<and> mb_role m = mb_role a"
    using assms(1) append_Cons_eq_iff[of "CHR 0x1F" "mb_user_id m" "mb_role m" "mb_user_id a" "mb_role a"]
    by (simp add: sessionIdentityKey_def)
  then show ?thesis using assms(1) by (simp add: sessionIdentityKey_def)
qed

lemma binding_key_eq:
  assumes "binding_key a = binding_key b" and "is_stable_id (pb_platform b)" and "ValidPlatformMessageID (pb_platform_id b)"
  shows "pb_platform a = pb_platform b \<and> pb_platform_id a = pb_platform_id b"
proof -
  have "CHR 0x1F \<notin> set (pb_platform b)" "CHR 0x1F \<notin> set (pb_platform_id b)"
    using assms(2,3) stable_no_separator mixed_no_separator by (auto simp: ValidPlatformMessageID_def)
  then show ?thesis
    using assms(1) append_Cons_eq_iff[of "CHR 0x1F" "pb_platform b" "pb_platform_id b" "pb_platform a" "pb_platform_id a"]
    by (simp add: binding_key_def)
qed

lemma image_mset_eqD:
  assumes "image_mset k A = image_mset k B" and "\<And>a b. b \<in># B \<Longrightarrow> k a = k b \<Longrightarrow> a = b"
  shows "A = B"
  using assms
proof (induction B arbitrary: A)
  case (add b B)
  then obtain a where "a \<in># A" "k a = k b"
    by (metis image_eqI image_iff image_mset_add_mset set_image_mset union_single_eq_member)
  then have "b \<in># A" using add.prems(2)[of b a] by simp
  then obtain A' where A: "A = add_mset b A'" by (metis multi_member_split)
  then have "image_mset k A' = image_mset k B" using add.prems(1) by simp
  then show ?case using add.IH[of A'] add.prems(2) A by simp
qed simp

lemma valid_session_parts:
  assumes "ValidateSession s = Inr ()"
  shows "\<forall>m \<in> set (sn_members s). valid_stable_id (mb_user_id m) \<and>
      mb_role m \<in> {MemberRoleOwner, MemberRoleAdmin, MemberRoleMember}"
    and "\<forall>b \<in> set (sn_bindings s). is_stable_id (pb_platform b) \<and> ValidPlatformMessageID (pb_platform_id b)"
    and "distinct (map binding_key (sn_bindings s))"
  using assms by (auto simp: ValidateSession_def members_ok_iff bindings_ok_iff split: if_splits)

lemma sessionsEqual_same:
  assumes "sessionsEqual a b" and "ValidateSession b = Inr ()"
  shows "sn_app_id a = sn_app_id b \<and> sn_id a = sn_id b \<and> sn_type a = sn_type b \<and>
    sn_created_at a = sn_created_at b \<and> sn_updated_at a = sn_updated_at b \<and>
    mset (sn_members a) = mset (sn_members b) \<and> mset (sn_bindings a) = mset (sn_bindings b)"
proof -
  note v = valid_session_parts[OF assms(2)] and e = assms(1)[unfolded sessionsEqual_mset]
  have "mset (sn_members a) = mset (sn_members b)"
  proof (rule image_mset_eqD[of sessionIdentityKey])
    show "image_mset sessionIdentityKey (mset (sn_members a)) = image_mset sessionIdentityKey (mset (sn_members b))"
      using e by simp
    show "x = y" if "y \<in># mset (sn_members b)" "sessionIdentityKey x = sessionIdentityKey y" for x y
      using that v(1) by (intro member_key_eq) auto
  qed
  moreover have "x = y" if "y \<in> set (sn_bindings b)" "binding_identity_key x = binding_identity_key y" for x y
    using that v(2) binding_key_eq[of x y] by (auto simp: binding_identity_key_def)
  then have "mset (sn_bindings a) = mset (sn_bindings b)"
    using e by (intro image_mset_eqD[of binding_identity_key]) simp_all
  ultimately show ?thesis using e by simp
qed

lemma sessionBindingsEqual_same:
  assumes "sessionBindingsEqual bs (sn_bindings s)" and "ValidateSession s = Inr ()"
  shows "(\<lambda>b. (pb_platform b, pb_platform_id b)) ` set bs = (\<lambda>b. (pb_platform b, pb_platform_id b)) ` set (sn_bindings s)"
    and "length bs = length (sn_bindings s)"
proof -
  note v = valid_session_parts[OF assms(2)]
  have len: "length bs = length (sn_bindings s)" and sub: "binding_key ` set (sn_bindings s) \<subseteq> binding_key ` set bs"
    using assms(1) by (auto simp: sessionBindingsEqual_def list_all_iff)
  have fin: "finite (binding_key ` set bs)" by simp
  have "card (binding_key ` set (sn_bindings s)) = length (sn_bindings s)"
    using distinct_card[OF v(3)] by simp
  moreover have "card (binding_key ` set bs) \<le> length bs"
    by (metis card_length length_map set_map)
  ultimately have "card (binding_key ` set (sn_bindings s)) = card (binding_key ` set bs)"
    using card_mono[OF fin sub] len by linarith
  then have keys: "binding_key ` set bs = binding_key ` set (sn_bindings s)"
    using card_subset_eq[OF fin sub] by simp
  let ?p = "\<lambda>b. (pb_platform b, pb_platform_id b)"
  have eq: "?p a = ?p b" if "b \<in> set (sn_bindings s)" "binding_key a = binding_key b" for a b
    using that v(2) binding_key_eq[of a b] by simp
  show "?p ` set bs = ?p ` set (sn_bindings s)"
  proof (intro equalityI subsetI)
    fix x assume "x \<in> ?p ` set bs"
    then obtain a where a: "a \<in> set bs" "x = ?p a" by auto
    then have "binding_key a \<in> binding_key ` set (sn_bindings s)" unfolding keys[symmetric] by simp
    then obtain b where b: "b \<in> set (sn_bindings s)" "binding_key a = binding_key b" by auto
    show "x \<in> ?p ` set (sn_bindings s)" unfolding a(2) eq[OF b] using b(1) by (rule imageI)
  next
    fix x assume "x \<in> ?p ` set (sn_bindings s)"
    then obtain b where b: "b \<in> set (sn_bindings s)" "x = ?p b" by auto
    then have "binding_key b \<in> binding_key ` set bs" unfolding keys by simp
    then obtain a where a: "a \<in> set bs" "binding_key a = binding_key b" by auto
    show "x \<in> ?p ` set bs" unfolding b(2) eq[OF b(1) a(2), symmetric] using a(1) by (rule imageI)
  qed
  show "length bs = length (sn_bindings s)" by (rule len)
qed

section \<open>Rows of a new session\<close>

lemma members_inserted:
  "insert_each (insert_member app s) ms d = Inr d' \<Longrightarrow>
     d' = d\<lparr>sb_members := sb_members d @ map (\<lambda>m. \<lparr>mw_app_id = app, mw_session_id = s, mw_member = m\<rparr>) ms\<rparr>"
proof (induction ms arbitrary: d)
  case (Cons x xs)
  then obtain d1 where "insert_member app s x d = Inr d1" "insert_each (insert_member app s) xs d1 = Inr d'"
    by (auto simp: and_then_Inr)
  then show ?case using Cons.IH[of d1] by (simp add: insert_member_Inr Let_def)
qed simp

lemma bindings_inserted:
  "insert_each (insert_binding app s) bs d = Inr d' \<Longrightarrow>
     d' = d\<lparr>sb_bindings := sb_bindings d @ map (\<lambda>b. \<lparr>bw_app_id = app, bw_session_id = s, bw_binding = b\<rparr>) bs\<rparr>"
proof (induction bs arbitrary: d)
  case (Cons x xs)
  then obtain d1 where "insert_binding app s x d = Inr d1" "insert_each (insert_binding app s) xs d1 = Inr d'"
    by (auto simp: and_then_Inr)
  then show ?case using Cons.IH[of d1] by (simp add: insert_binding_Inr Let_def)
qed simp

text \<open>A session that is not there has neither members nor bindings.\<close>

lemma no_relations:
  assumes "session_db_ok drv db" "find_session (app, s) db = None"
  shows "filter (\<lambda>r. mw_app_id r = app \<and> mw_session_id r = s) (sb_members db) = []"
    and "filter (\<lambda>r. bw_app_id r = app \<and> bw_session_id r = s) (sb_bindings db) = []"
  using assms by (auto simp: session_db_ok_def session_refs_ok_def list_all_iff has_session_def filter_empty_conv)

text \<open>The database after the rows of a session have been written where it was missing.\<close>

definition with_session :: "session \<Rightarrow> session_db \<Rightarrow> session_db" where
  "with_session s db =
     db\<lparr>sb_sessions := sb_sessions db @ [session_row_of s],
       sb_members := sb_members db @
         map (\<lambda>m. \<lparr>mw_app_id = sn_app_id s, mw_session_id = sn_id s, mw_member = m\<rparr>) (sn_members s),
       sb_bindings := sb_bindings db @
         map (\<lambda>b. \<lparr>bw_app_id = sn_app_id s, bw_session_id = sn_id s, bw_binding = b\<rparr>) (sn_bindings s)\<rparr>"

lemma with_session_read:
  assumes "session_db_ok drv db" "find_session (sn_app_id s, sn_id s) db = None"
  shows "readSession (sn_app_id s) (sn_id s) (with_session s db) = Some
    (s\<lparr>sn_members := sort_key mb_user_id (sn_members s),
      sn_bindings := sort_key (\<lambda>b. (pb_platform b, pb_platform_id b)) (sn_bindings s)\<rparr>)"
  using no_relations[OF assms] assms(2)
  by (simp add: readSession_def with_session_def find_session_def select_key_append session_row_of_def session_key_def
      session_members_def session_bindings_def comp_def)

lemma sessionsEqual_sorted:
  "sessionsEqual (s\<lparr>sn_members := sort_key f (sn_members s), sn_bindings := sort_key g (sn_bindings s)\<rparr>) s"
  by (simp add: sessionsEqual_mset)

lemma CreateSession_fresh:
  assumes "insert_session drv (session_row_of s) db = Inr d" "CreateSession drv s db = (db', Inr ())"
  shows "db' = with_session s db"
proof -
  obtain d2 where "insert_each (insert_member (sn_app_id s) (sn_id s)) (sn_members s) d = Inr d2"
    "insert_each (insert_binding (sn_app_id s) (sn_id s)) (sn_bindings s) d2 = Inr db'"
    using assms by (auto simp: CreateSession_def split: sum.splits)
  then show ?thesis
    using assms(1) by (auto simp: with_session_def insert_session_Inr dest!: members_inserted bindings_inserted)
qed

lemma valid_session_ids:
  "ValidateSession s = Inr () \<Longrightarrow> valid_stable_id (sn_app_id s) \<and> valid_stable_id (sn_id s)"
  by (auto simp: ValidateSession_def split: if_splits)

lemma CreateSession_valid: "CreateSession drv s db = (db', Inr ()) \<Longrightarrow> ValidateSession s = Inr ()"
  by (auto simp: CreateSession_def split: sum.splits)

text \<open>C31: 
  A created session reads back as it was given: with its type, its times, exactly its members with their
  roles and joining times, and exactly its platform bindings with their times, each in some order; and to
  create it again succeeds without effect.
\<close>

theorem created_session_reads_back:
  assumes "session_db_ok drv db" "CreateSession drv s db = (db', Inr ())"
  shows "CreateSession drv s db' = (db', Inr ()) \<and>
    (\<exists>s'. GetSession (sn_app_id s) (sn_id s) db' = Inr s' \<and>
       sn_app_id s' = sn_app_id s \<and> sn_id s' = sn_id s \<and> sn_type s' = sn_type s \<and>
       sn_created_at s' = sn_created_at s \<and> sn_updated_at s' = sn_updated_at s \<and>
       mset (sn_members s') = mset (sn_members s) \<and> mset (sn_bindings s') = mset (sn_bindings s))"
proof (cases "insert_session drv (session_row_of s) db")
  case (Inl err)
  then obtain s' where "db' = db" "readSession (sn_app_id s) (sn_id s) db = Some s'" and e: "sessionsEqual s' s"
    using assms(2) by (auto simp: CreateSession_def split: sum.splits if_splits option.splits)
  then show ?thesis
    using assms(2) sessionsEqual_same[OF e CreateSession_valid[OF assms(2)]]
      valid_session_ids[OF CreateSession_valid[OF assms(2)]] by (auto simp: GetSession_def)
next
  case (Inr d)
  then have db': "db' = with_session s db" using assms(2) by (rule CreateSession_fresh)
  have new: "find_session (sn_app_id s, sn_id s) db = None"
    using Inr by (simp add: insert_session_Inr session_key_def session_row_of_def)
  note read = with_session_read[OF assms(1) new, folded db']
  have "insert_session drv (session_row_of s) db' = Inl primary_violated"
    using Inr[unfolded insert_session_Inr] by (simp add: db' with_session_def insert_session_def insert_under_def)
  then have "CreateSession drv s db' = (db', Inr ())"
    using CreateSession_valid[OF assms(2)] read sessionsEqual_sorted
    by (simp add: CreateSession_def isUniqueConstraint_def)
  moreover have "GetSession (sn_app_id s) (sn_id s) db' = Inr
      (s\<lparr>sn_members := sort_key mb_user_id (sn_members s),
        sn_bindings := sort_key (\<lambda>b. (pb_platform b, pb_platform_id b)) (sn_bindings s)\<rparr>)"
    using read valid_session_ids[OF CreateSession_valid[OF assms(2)]] by (simp add: GetSession_def)
  ultimately show ?thesis by simp
qed

section \<open>Ensured sessions\<close>

lemma ensure_members_spec:
  "ensure_members app s known ms db = Inr (db', added) \<Longrightarrow>
     \<exists>new. db' = db\<lparr>sb_members := sb_members db @ map (\<lambda>m. \<lparr>mw_app_id = app, mw_session_id = s, mw_member = m\<rparr>) new\<rparr> \<and>
       (\<lambda>m. (mb_user_id m, mb_role m)) ` set ms \<subseteq> set known \<union> (\<lambda>m. (mb_user_id m, mb_role m)) ` set new"
proof (induction app s known ms db arbitrary: db' added rule: ensure_members.induct)
  case (1 app s known db)
  then show ?case by (auto intro!: exI[of _ "[]"])
next
  case (2 app s known m ms db)
  show ?case
  proof (cases "map_of known (mb_user_id m)")
    case None
    then obtain d1 b where step: "insert_member app s m db = Inr d1"
      "ensure_members app s ((mb_user_id m, mb_role m) # known) ms d1 = Inr (db', b)"
      "\<not> MaxMembersPerSession \<le> length known"
      using "2.prems" by (auto split: if_splits sum.splits prod.splits)
    obtain new where new: "db' = d1\<lparr>sb_members := sb_members d1 @
        map (\<lambda>m. \<lparr>mw_app_id = app, mw_session_id = s, mw_member = m\<rparr>) new\<rparr>"
      "(\<lambda>m. (mb_user_id m, mb_role m)) ` set ms \<subseteq>
         set ((mb_user_id m, mb_role m) # known) \<union> (\<lambda>m. (mb_user_id m, mb_role m)) ` set new"
      using "2.IH"(1)[OF None step(3,1,2)] by blast
    show ?thesis
      using new step(1) by (intro exI[of _ "m # new"]) (auto simp: insert_member_Inr Let_def)
  next
    case (Some role)
    then have "role = mb_role m" "ensure_members app s known ms db = Inr (db', added)"
      using "2.prems" by (auto split: if_splits)
    with "2.IH"(2)[OF Some] map_of_SomeD[OF Some] show ?thesis by auto
  qed
qed

lemma session_row_key [simp]: "session_key (session_row_of s) = (sn_app_id s, sn_id s)"
  by (simp add: session_key_def session_row_of_def)

lemma touch_session_kept [simp]:
  "sw_type (touch_session drv at r) = sw_type r" "sw_app_id (touch_session drv at r) = sw_app_id r"
  by (simp_all add: touch_session_def)

lemma session_members_update [simp]:
  "session_members app s (db\<lparr>sb_sessions := t\<rparr>) = session_members app s db"
  "session_bindings app s (db\<lparr>sb_sessions := t\<rparr>) = session_bindings app s db"
  "session_bindings app s (db\<lparr>sb_members := ms\<rparr>) = session_bindings app s db"
  by (simp_all add: session_members_def session_bindings_def)

lemma session_members_appended:
  "set (session_members app s (db\<lparr>sb_members := sb_members db @
       map (\<lambda>m. \<lparr>mw_app_id = app, mw_session_id = s, mw_member = m\<rparr>) new\<rparr>)) =
     set (session_members app s db) \<union> set new"
  by (simp add: session_members_def filter_map comp_def del: set_filter)

lemma ignored_present:
  "exec_insert_ignore chk session_key r (sb_sessions db) = Some (t, n) \<Longrightarrow> find_session (session_key r) db = Some row \<Longrightarrow>
     t = sb_sessions db \<and> n = 0"
  using select_key_None[of session_key "session_key r" "sb_sessions db"]
  by (simp add: exec_insert_ignore_def find_session_def split: if_splits)

lemma ignored_absent:
  "exec_insert_ignore chk session_key r (sb_sessions db) = Some (t, n) \<Longrightarrow> find_session (session_key r) db = None \<Longrightarrow>
     t = sb_sessions db @ [r] \<and> n = 1"
  by (auto simp: exec_insert_ignore_def find_session_def select_key_None split: if_splits)

text \<open>C32: 
  A session that was ensured is there with the type that was asked for, is bound to exactly the platform
  identities that were asked for, each once, has every member that was asked for in the role that was
  asked for, and keeps every member that it had.
\<close>

theorem ensured_session_complete:
  assumes "session_db_ok drv db" "EnsureSession drv s db = (db', Inr ())"
  shows "\<exists>s'. GetSession (sn_app_id s) (sn_id s) db' = Inr s' \<and> sn_type s' = sn_type s \<and>
    (\<lambda>b. (pb_platform b, pb_platform_id b)) ` set (sn_bindings s') =
      (\<lambda>b. (pb_platform b, pb_platform_id b)) ` set (sn_bindings s) \<and>
    length (sn_bindings s') = length (sn_bindings s) \<and>
    (\<lambda>m. (mb_user_id m, mb_role m)) ` set (sn_members s) \<subseteq> (\<lambda>m. (mb_user_id m, mb_role m)) ` set (sn_members s') \<and>
    set (session_members (sn_app_id s) (sn_id s) db) \<subseteq> set (sn_members s')"
proof -
  let ?app = "sn_app_id s" and ?id = "sn_id s" and ?role = "\<lambda>m. (mb_user_id m, mb_role m)"
  have valid: "ValidateSession s = Inr ()"
    using assms(2) by (auto simp: EnsureSession_def Let_def split: sum.splits)
  then have ids: "valid_stable_id ?app" "valid_stable_id ?id"
    using valid_session_ids by blast+
  show ?thesis
  proof (cases "find_session (?app, ?id) db")
    case None
    then have "insertSessionRelations s (db\<lparr>sb_sessions := sb_sessions db @ [session_row_of s]\<rparr>) = Inr db'"
      using assms(2) ignored_absent[of "session_row_check drv" "session_row_of s" db] unfolding EnsureSession_def Let_def
      by (auto split: sum.splits if_splits option.splits)
    then have db': "db' = with_session s db"
      by (auto simp: insertSessionRelations_def and_then_Inr with_session_def dest!: members_inserted bindings_inserted)
    show ?thesis
      using with_session_read[OF assms(1) None, folded db'] ids no_relations(1)[OF assms(1) None]
      by (simp add: GetSession_def session_members_def)
  next
    case (Some row)
    have read: "readSession ?app ?id db = Some
        \<lparr>sn_app_id = sw_app_id row, sn_id = sw_id row, sn_type = sw_type row, sn_members = session_members ?app ?id db,
         sn_bindings = session_bindings ?app ?id db, sn_created_at = sw_created_at row, sn_updated_at = sw_updated_at row\<rparr>"
      using Some by (simp add: readSession_def)
    obtain db1 added where e: "sw_type row = sn_type s"
      "sessionBindingsEqual (session_bindings ?app ?id db) (sn_bindings s)"
      "ensure_members ?app ?id (map ?role (session_members ?app ?id db)) (sn_members s) db = Inr (db1, added)"
      "db' = db1 \<or> (\<exists>t n. exec_update (session_row_check drv) (\<lambda>r. session_key r = (?app, ?id))
         (touch_session drv (sn_updated_at s)) (sb_sessions db1) = Some (t, n) \<and> db' = db1\<lparr>sb_sessions := t\<rparr>)"
      using assms(2) read Some ignored_present[of "session_row_check drv" "session_row_of s" db] unfolding EnsureSession_def Let_def
      by (auto split: sum.splits if_splits option.splits prod.splits)
    obtain new where new: "db1 = db\<lparr>sb_members := sb_members db @
        map (\<lambda>m. \<lparr>mw_app_id = ?app, mw_session_id = ?id, mw_member = m\<rparr>) new\<rparr>"
      "?role ` set (sn_members s) \<subseteq> set (map ?role (session_members ?app ?id db)) \<union> ?role ` set new"
      using ensure_members_spec[OF e(3)] by blast
    have "\<exists>r. find_session (?app, ?id) db' = Some r \<and> sw_type r = sw_type row"
      using e(4) new(1) Some
      by (auto simp: find_session_def exec_update_Some select_update_where)
    moreover have "set (session_members ?app ?id db') = set (session_members ?app ?id db) \<union> set new"
      using e(4) new(1) by (auto simp: session_members_appended)
    moreover have "session_bindings ?app ?id db' = session_bindings ?app ?id db"
      using e(4) new(1) by auto
    moreover have "?role ` set (sn_members s) \<subseteq> ?role ` (set (session_members ?app ?id db) \<union> set new)"
      using new(2) by (simp add: image_Un)
    moreover note sessionBindingsEqual_same[OF e(2) valid]
    ultimately show ?thesis
      using e(1) ids by (auto simp: GetSession_def readSession_def simp del: image_subset_iff)
  qed
qed

section \<open>Apps are isolated\<close>

text \<open>The rows of one App.\<close>

definition app_part :: "string \<Rightarrow> session_db \<Rightarrow> session_db" where
  "app_part app db =
     \<lparr>sb_sessions = filter (\<lambda>r. sw_app_id r = app) (sb_sessions db),
      sb_members = filter (\<lambda>r. mw_app_id r = app) (sb_members db),
      sb_bindings = filter (\<lambda>r. bw_app_id r = app) (sb_bindings db),
      sb_messages = filter (\<lambda>m. mg_app_id m = app) (sb_messages db),
      sb_attachments = filter (\<lambda>a. at_app_id a = app) (sb_attachments db)\<rparr>"

lemma find_filter_conj: "find (\<lambda>x. f x = a \<and> R x) (filter (\<lambda>x. f x = a) xs) = find (\<lambda>x. f x = a \<and> R x) xs"
  by (induction xs) auto

lemma app_part_reads:
  "readSession app s (app_part app db) = readSession app s db"
  "listMessages app s q (app_part app db) = listMessages app s q db"
  "find_message (app, mid) (app_part app db) = find_message (app, mid) db"
  "GetMessageContent app s mid (app_part app db) = GetMessageContent app s mid db"
  "GetAttachment app s aid (app_part app db) = GetAttachment app s aid db"
  by (simp_all add: readSession_def find_session_def find_message_def session_members_def session_bindings_def
      listMessages_def GetMessageContent_def GetAttachment_def app_part_def select_key_def session_key_def message_key_def
      attachment_key_def visible_where_def find_filter_conj Let_def conj_assoc split: option.split sum.split)

lemma update_where_filter:
  "(\<And>r. P r \<Longrightarrow> \<not> Q r \<and> \<not> Q (f r)) \<Longrightarrow> filter Q (update_where P f t) = filter Q t"
  by (induction t) (auto simp: update_where_def)

lemma session_write_app_part:
  assumes "session_write drv app db db'" "app' \<noteq> app"
  shows "app_part app' db' = app_part app' db"
  using assms(1)
proof cases
  case (touched s at t n)
  have "filter (\<lambda>r. sw_app_id r = app') t = filter (\<lambda>r. sw_app_id r = app') (sb_sessions db)"
    using touched assms(2) by (auto simp: exec_update_Some session_key_def intro!: update_where_filter)
  then show ?thesis using touched(1) by (simp add: app_part_def)
next
  case (written w t n)
  have "filter (\<lambda>m. mg_app_id m = app') t = filter (\<lambda>m. mg_app_id m = app') (sb_messages db)"
    using written assms(2)
    by (cases w) (auto simp: exec_update_Some message_where_def message_ref_of_def intro!: update_where_filter)
  then show ?thesis using written(2) by (simp add: app_part_def)
qed (use assms(2) in \<open>auto simp: inserts_Inr Let_def app_part_def\<close>)

text \<open>What one App calls has no effect on what another App reads.\<close>

theorem session_apps_isolated:
  assumes "session_call drv app db db'" "app' \<noteq> app"
  shows "GetSession app' s db' = GetSession app' s db \<and> listMessages app' s q db' = listMessages app' s q db \<and>
    GetMessage app' s mid db' = GetMessage app' s mid db \<and>
    GetMessageContent app' s mid db' = GetMessageContent app' s mid db \<and>
    GetAttachment app' s aid db' = GetAttachment app' s aid db"
proof -
  have "app_part app' db' = app_part app' db"
    using session_call_writes[OF assms(1)]
    by (induction rule: rtranclp_induct) (auto dest: session_write_app_part[OF _ assms(2)])
  moreover have "GetSession app' s (app_part app' d) = GetSession app' s d"
    "GetMessage app' s mid (app_part app' d) = GetMessage app' s mid d" for d
    by (simp_all add: GetSession_def GetMessage_def app_part_reads)
  ultimately show ?thesis using app_part_reads(2,4,5) by metis
qed

section \<open>Departures\<close>

text \<open>
  The code prepares an answer for a message to a session that does not exist, \<open>ErrSessionNotFound\<close>, but never
  gives it: \<open>isUniqueConstraint\<close> comes first and takes the violated reference for a duplicate.
\<close>

theorem missing_session_unreported: "snd (CreateMessage m content db) \<noteq> sess_fail Sess_NotFound"
proof (cases "insert_message (message_row_of m content) db")
  case (Inl err)
  then have "isUniqueConstraint err"
    by (auto simp: insert_message_def and_then_def insert_under_def isUniqueConstraint_def split: if_splits)
  with Inl show ?thesis
    by (auto simp: CreateMessage_def ValidateMessage_def split: sum.splits option.splits)
qed (auto simp: CreateMessage_def ValidateMessage_def split: sum.splits)

text \<open>
  The port promises that a platform message delivered again returns the stored message. Under another
  message identifier the store reports a conflict, whatever the content.
\<close>

theorem platform_repeat_conflicts:
  assumes "x \<in> set (sb_messages db)" "platform_key x = platform_key m" "platform_key m \<noteq> None"
    and "find_message (message_key m) db = None"
    and "ValidateMessage m = Inr ()" "content_fits (mg_content_ref m) content"
  shows "CreateMessage m content db = (db, sess_fail Sess_MessageConflict)"
proof -
  have taken: "platform_key m \<in> set (map platform_key (sb_messages db))" using assms(1,2) by force
  obtain err where err: "insert_message (message_row_of m content) db = Inl err" "isUniqueConstraint err"
    using taken assms(3,4) that[of unique_violated] that[of check_violated]
    by (cases "message_row_check (message_row_of m content)")
      (simp_all add: insert_message_def insert_under_def isUniqueConstraint_def del: not_None_eq)
  have "readMessageByPlatform (mg_app_id m) (mg_platform_id m) db \<noteq> None"
    using assms(1-3) by (auto simp: readMessageByPlatform_def find_None_iff platform_key_def split: if_splits)
  then show ?thesis
    using err assms(3-6) by (auto simp: CreateMessage_def platform_key_def split: option.split if_splits)
qed

text \<open>\<open>ValidateAttachment\<close> lets an attachment without a message pass; the table never takes it.\<close>

theorem attachment_needs_message:
  assumes "at_message_id a = []"
  shows "\<exists>e. CreateAttachment a db = (db, Inl e)"
proof -
  have "insert_attachment a db = Inl check_violated"
    using assms by (simp add: insert_attachment_def insert_under_def attachment_row_check_def text_between_def)
  then show ?thesis by (auto simp: CreateAttachment_def split: sum.split)
qed

text \<open>
  The history is ordered by the text of the time, in which a whole second ends in \<open>Z\<close> and a fraction starts
  with a dot, which sorts before it: a message of the start of a second is listed as newer than every later
  message of the same second.
\<close>

theorem whole_second_listed_last:
  assumes "sb_messages db = [m1, m2]" "visible_where app s m1" "visible_where app s m2"
    and "mg_created_at m1 mod second = 0" "mg_created_at m1 < mg_created_at m2"
    and "mg_created_at m2 < mg_created_at m1 + second"
    and "valid_stable_id app" "valid_stable_id s" "2 \<le> n" "n \<le> 1000"
  shows "listMessages app s \<lparr>mq_sender = [], mq_descending = True, mq_limit = n\<rparr> db =
    Inr [message_of_row m1, message_of_row m2]"
proof -
  have s: "second > 0" by (simp add: second_def)
  obtain k where k: "mg_created_at m1 = second * k" using assms(4) by auto
  then have "mg_created_at m2 div second = k" using assms(5,6) s
    by (intro int_div_pos_eq[of _ _ _ "mg_created_at m2 - second * k"]) auto
  moreover have "mg_created_at m2 mod second \<noteq> 0" 
  proof -
    have "mg_created_at m2 mod second = mg_created_at m2 - second * k"
      using calculation by (simp add: minus_mult_div_eq_mod[symmetric])
    then show ?thesis using k assms(5) by simp
  qed
  ultimately have "stored_time (mg_created_at m2) < stored_time (mg_created_at m1)"
    using k s by (simp add: stored_time_def fraction_text_def less_char_def)
  then have "message_order m2 < message_order m1" by (simp add: message_order_def)
  then have "sort_key message_order [m1, m2] = [m2, m1]" by simp
  then show ?thesis
    using assms(1-3,7-10) by (auto simp: listMessages_def ValidateMessageQuery_def MaxHistoryQueryLimit_def Let_def
        eval_nat_numeral take_Cons split: nat.split)
qed

end
