(* ===== verification/Session_History.thy ===== *)
theory Session_History
  imports Session_Readback Context_Guarantees
begin

text \<open>
  The session store behind the context assembly: \<open>session.Service\<close> is the history source of the assembler, so
  what a Run is shown of its session is what the tables hold.
\<close>

lemma build_entries_from:
  "build_entries lib src b ms = Inr (es, n) \<Longrightarrow> e \<in> set es \<Longrightarrow> \<exists>m \<in> set ms. \<exists>k. buildEntry lib src b m = Inr (Some (e, k))"
proof (induction ms arbitrary: es n)
  case (Cons m ms)
  then show ?case by (auto split: sum.splits option.splits prod.splits)
qed simp

lemma longest_suffix_subset: "set (longest_suffix P xs) \<subseteq> set xs"
  by (subst longest_suffix_drop) (rule set_drop_subset)

lemma entry_of_text:
  assumes "buildEntry lib src b m = Inr (Some (e, k))"
  shows "he_message_id e = mg_id m"
    and "mg_type m = MessageTypeText \<Longrightarrow>
      \<exists>content. hs_content src m = Inr content \<and> he_content e = take_runes (nat (bg_max_chars b)) content"
  using assms by (auto simp: buildEntry_def Let_def split: if_splits sum.splits)

section \<open>The interface of the assembler\<close>

text \<open>What the assembler is promised of its source: a history query lists stored messages only.\<close>

locale history_port =
  fixes src :: history_source
    and stored :: "string \<Rightarrow> string \<Rightarrow> message_record \<Rightarrow> bool"
  assumes listed_stored: "hs_list src app s q = Inr ms \<Longrightarrow> m \<in> set ms \<Longrightarrow> stored app s m"
begin

lemma entry_stored:
  assumes "new_assembler b0 = Some b" "Assemble lib src b i = Inr s" "e \<in> set (hi_entries (cx_history s))"
  shows "\<exists>m k. stored (in_app_id i) (in_session_id i) m \<and> history_candidate b i m \<and> buildEntry lib src b m = Inr (Some (e, k))"
proof -
  obtain es where es: "candidate_entries lib src b i = Inr es" "e \<in> set es"
    using assembled_suffix[OF assms(1,2)] assms(3) longest_suffix_subset by (metis subsetD)
  then obtain ms n where ms: "hs_list src (in_app_id i) (in_session_id i)
        \<lparr>mq_sender = [], mq_descending = True, mq_limit = bg_max_messages b + 1\<rparr> = Inr ms"
    "build_entries lib src b (rev (filter (history_candidate b i) ms)) = Inr (es, n)"
    by (auto simp: candidate_entries_def split: if_splits sum.splits)
  then show ?thesis using build_entries_from[OF ms(2) es(2)] listed_stored[OF ms(1)] by auto
qed

end

section \<open>The store as a history source\<close>

definition sqlite_history :: "(string \<Rightarrow> string sess_result) \<Rightarrow> session_db \<Rightarrow> history_source" where
  "sqlite_history blob_get db =
     \<lparr>hs_list = (\<lambda>app s q. listMessages app s q db), hs_content = MessageContent blob_get db\<rparr>"

lemma GetMessageContent_row:
  assumes "GetMessageContent app s mid db = Inr content"
  shows "\<exists>m \<in> set (sb_messages db). visible_where app s m \<and> mg_id m = mid \<and> content = mg_content m"
proof -
  obtain m where "find (\<lambda>m. visible_where app s m \<and> mg_id m = mid) (sb_messages db) = Some m" "content = mg_content m"
    using assms by (auto simp: GetMessageContent_def split: if_splits option.splits)
  then show ?thesis by (auto simp: find_Some_iff)
qed

interpretation sqlite_history: history_port "sqlite_history blob_get db"
  "\<lambda>app s x. \<exists>m \<in> set (sb_messages db). visible_where app s m \<and> x = message_of_row m"
proof
  fix app s q ms m
  assume "hs_list (sqlite_history blob_get db) app s q = Inr ms" "m \<in> set ms"
  then show "\<exists>r \<in> set (sb_messages db). visible_where app s r \<and> m = message_of_row r"
    using listMessages_visible[of m app s q db] by (simp add: sqlite_history_def listed_def)
qed

text \<open>C33: 
  Every entry of the history in an assembled context is a message of the App and session of the Run that is
  in the table, not recalled and not the message being answered; and when it is an inline text message, the
  text shown is the first \<open>max_chars\<close> characters of its stored content, where a byte that is not part of valid
  UTF-8 counts as one character and is shown as the replacement character; it is the beginning of the
  content when that is valid UTF-8.
\<close>

theorem context_shows_stored_messages:
  assumes "session_db_ok drv db" "new_assembler b0 = Some b" "Assemble lib (sqlite_history blob_get db) b i = Inr s"
    and "e \<in> set (hi_entries (cx_history s))"
  shows "\<exists>m \<in> set (sb_messages db). mg_app_id m = in_app_id i \<and> mg_session_id m = in_session_id i \<and>
    mg_deleted_at m = None \<and> he_message_id e = mg_id m \<and> mg_id m \<noteq> in_message_id i \<and>
    (mg_type m = MessageTypeText \<and> ct_mode (mg_content_ref m) = ContentModeInline \<longrightarrow>
       he_content e = take_runes (nat (bg_max_chars b)) (mg_content m) \<and>
       (utf8_valid (mg_content m) \<longrightarrow> (\<exists>rest. mg_content m = he_content e @ rest)))"
proof -
  have begins: "\<exists>rest. x = take_runes n x @ rest" if "utf8_valid x" for x n
    using runes_valid[OF that] append_take_drop_id[of n "runes x"] unfolding take_runes_def by (metis concat_append)
  from sqlite_history.entry_stored[OF assms(2-4)] obtain m x k where
    x: "history_candidate b i x" "buildEntry lib (sqlite_history blob_get db) b x = Inr (Some (e, k))"
    and m: "m \<in> set (sb_messages db)" "visible_where (in_app_id i) (in_session_id i) m" "x = message_of_row m"
    by blast
  have row: "mg_id x = mg_id m" "mg_app_id x = mg_app_id m" "mg_session_id x = mg_session_id m" "mg_type x = mg_type m"
    "mg_content_ref x = mg_content_ref m" using m(3) by (simp_all add: message_of_row_def message_record.truncate_def)
  have "he_content e = take_runes (nat (bg_max_chars b)) (mg_content m)"
    if plain: "mg_type m = MessageTypeText" "ct_mode (mg_content_ref m) = ContentModeInline"
  proof -
    obtain content where c: "MessageContent blob_get db x = Inr content" "he_content e = take_runes (nat (bg_max_chars b)) content"
      using entry_of_text(2)[OF x(2)] plain row by (auto simp: sqlite_history_def)
    then have "GetMessageContent (mg_app_id m) (mg_session_id m) (mg_id m) db = Inr content"
      using plain row by (simp add: MessageContent_def)
    then obtain y where y: "y \<in> set (sb_messages db)" "visible_where (mg_app_id m) (mg_session_id m) y" "mg_id y = mg_id m"
      "content = mg_content y" using GetMessageContent_row by blast
    have "message_key y = message_key m" using y(2,3) by (simp add: message_key_def visible_where_def)
    then have "y = m" using found_unique[OF assms(1) y(1)] found_unique[OF assms(1) m(1)] by (metis option.inject)
    then show ?thesis using c(2) y(4) by simp
  qed
  moreover have "he_message_id e = mg_id m" "mg_id m \<noteq> in_message_id i"
    using x(1) entry_of_text(1)[OF x(2)] row(1) by (simp_all add: history_candidate_def)
  ultimately show ?thesis using m(1,2) begins by (auto simp: visible_where_def)
qed

end
