(* ===== verification/Session_Store_Samples.thy ===== *)
theory Session_Store_Samples
  imports Session_History
begin

text \<open>A room of one App with a member, a binding and two messages, on which the statements about the session
  store are applied.\<close>

abbreviation drv0 :: sql_driver where "drv0 \<equiv> millisecond_driver"

definition sample_room :: session where
  "sample_room =
     \<lparr>sn_app_id = ''app'', sn_id = ''s1'', sn_type = ''group'',
      sn_members = [\<lparr>mb_user_id = ''u1'', mb_role = ''owner'', mb_joined_at = 1\<rparr>],
      sn_bindings = [\<lparr>pb_platform = ''qq'', pb_platform_id = ''g1'', pb_bound_at = 1\<rparr>],
      sn_created_at = 1, sn_updated_at = 1\<rparr>"

definition sample_note :: "string \<Rightarrow> string \<Rightarrow> instant \<Rightarrow> message_record" where
  "sample_note mid pid at =
     \<lparr>mg_app_id = ''app'', mg_session_id = ''s1'', mg_id = mid, mg_sender = ''u1'', mg_type = ''text'',
      mg_content_ref = \<lparr>ct_mode = ''inline'', ct_blob_id = [], ct_size = 2\<rparr>, mg_reply_to = [],
      mg_platform_id = pid, mg_created_at = at, mg_edited_at = None, mg_deleted_at = None\<rparr>"

definition room_db :: session_db where
  "room_db = with_session sample_room empty_session_db"

definition said_db :: session_db where
  "said_db = room_db\<lparr>sb_messages := [message_row_of (sample_note ''m1'' ''p1'' 10) ''hi'']\<rparr>"

lemma room_created: "CreateSession drv0 sample_room empty_session_db = (room_db, Inr ())"
  by code_simp

lemma note_created: "CreateMessage (sample_note ''m1'' ''p1'' 10) ''hi'' room_db = (said_db, Inr (sample_note ''m1'' ''p1'' 10, True))"
  by code_simp

lemma note_recalled: "RecallMessage ''app'' ''s1'' ''m1'' 20 said_db =
    (said_db\<lparr>sb_messages := [(message_row_of (sample_note ''m1'' ''p1'' 10) ''hi'')\<lparr>mg_deleted_at := Some 20\<rparr>]\<rparr>, Inr ())"
  by code_simp

lemma room_ok: "session_db_ok drv0 room_db" "session_db_ok drv0 said_db"
proof -
  have room: "session_calls drv0 empty_session_db room_db" using create_session[OF room_created] by blast
  then have said: "session_calls drv0 empty_session_db said_db"
    using create_message[OF note_created, of drv0] by (metis (mono_tags, lifting) rtranclp.rtrancl_into_rtrancl)
  show "session_db_ok drv0 room_db" "session_db_ok drv0 said_db"
    using room said session_calls_ok empty_session_db_ok by blast+
qed

theorem session_tables_invariant_witness:
  "\<exists>db. session_calls drv0 empty_session_db db \<and> length (sb_members db) = 1 \<and> session_db_ok drv0 db"
proof -
  have "session_calls drv0 empty_session_db room_db" using create_session[OF room_created] by blast
  from session_tables_invariant[OF this] this show ?thesis
    by (intro exI[of _ room_db]) (simp add: room_db_def with_session_def empty_session_db_def sample_room_def)
qed

theorem message_created_once_witness:
  "\<exists>r. CreateMessage (sample_note ''m2'' ''p1'' 30) ''yo'' said_db = (said_db, r) \<and> (\<forall>x. r \<noteq> Inr (x, True))"
proof -
  obtain db3 r where r: "CreateMessage (sample_note ''m2'' ''p1'' 30) ''yo'' said_db = (db3, r)" by fastforce
  have "mg_platform_id (sample_note ''m2'' ''p1'' 30) = mg_platform_id (sample_note ''m1'' ''p1'' 10) \<and>
      mg_platform_id (sample_note ''m1'' ''p1'' 10) \<noteq> []"
    "mg_app_id (sample_note ''m2'' ''p1'' 30) = mg_app_id (sample_note ''m1'' ''p1'' 10)"
    by (simp_all add: sample_note_def)
  with message_created_once[OF note_created, where drv = drv0, OF rtranclp.rtrancl_refl _ _ r] r show ?thesis by blast
qed

theorem recalled_message_invisible_witness:
  "\<exists>db. RecallMessage ''app'' ''s1'' ''m1'' 20 said_db = (db, Inr ()) \<and>
     GetMessage ''app'' ''s1'' ''m1'' db = sess_fail Sess_MessageNotFound \<and>
     GetMessageContent ''app'' ''s1'' ''m1'' db = sess_fail Sess_MessageNotFound \<and>
     ''m1'' \<notin> mg_id ` set (listed (listMessages ''app'' ''s1'' \<lparr>mq_sender = [], mq_descending = False, mq_limit = 5\<rparr> db))"
  using recalled_message_invisible[OF room_ok(2) note_recalled rtranclp.rtrancl_refl] note_recalled by blast

theorem created_session_reads_back_witness:
  "CreateSession drv0 sample_room room_db = (room_db, Inr ()) \<and>
    (\<exists>s'. GetSession ''app'' ''s1'' room_db = Inr s' \<and> mset (sn_members s') = mset (sn_members sample_room))"
  using created_session_reads_back[OF empty_session_db_ok room_created] by (auto simp: sample_room_def)

text \<open>A second member comes in through an entrance that ensures the session.\<close>

definition sample_entrance :: session where
  "sample_entrance = sample_room\<lparr>sn_members := [\<lparr>mb_user_id = ''u2'', mb_role = ''member'', mb_joined_at = 7\<rparr>]\<rparr>"

lemma entrance_ensured: "snd (EnsureSession drv0 sample_entrance room_db) = Inr ()"
  by code_simp

theorem ensured_session_complete_witness:
  "\<exists>db s'. EnsureSession drv0 sample_entrance room_db = (db, Inr ()) \<and> GetSession ''app'' ''s1'' db = Inr s' \<and>
     {(''u1'', ''owner''), (''u2'', ''member'')} \<subseteq> (\<lambda>m. (mb_user_id m, mb_role m)) ` set (sn_members s')"
proof -
  obtain db where db: "EnsureSession drv0 sample_entrance room_db = (db, Inr ())"
    using entrance_ensured by (metis prod.collapse)
  let ?role = "\<lambda>m. (mb_user_id m, mb_role m)"
  have ids: "sn_app_id sample_entrance = ''app''" "sn_id sample_entrance = ''s1''"
    by (simp_all add: sample_entrance_def sample_room_def)
  obtain s' where s': "GetSession ''app'' ''s1'' db = Inr s'"
    "?role ` set (sn_members sample_entrance) \<subseteq> ?role ` set (sn_members s')"
    "set (session_members ''app'' ''s1'' room_db) \<subseteq> set (sn_members s')"
    using ensured_session_complete[OF room_ok(1) db] unfolding ids by blast
  have "session_members ''app'' ''s1'' room_db = sn_members sample_room" by code_simp
  then have "?role ` set (sn_members sample_room) \<subseteq> ?role ` set (sn_members s')" using s'(3) by (metis image_mono)
  then have "{(''u1'', ''owner''), (''u2'', ''member'')} \<subseteq> ?role ` set (sn_members s')"
    using s'(2) by (simp add: sample_entrance_def sample_room_def)
  then show ?thesis using db s'(1) by blast
qed

theorem session_apps_isolated_witness:
  "session_call drv0 ''app'' room_db said_db \<and> said_db \<noteq> room_db \<and>
    listMessages ''other'' ''s1'' \<lparr>mq_sender = [], mq_descending = False, mq_limit = 5\<rparr> said_db =
    listMessages ''other'' ''s1'' \<lparr>mq_sender = [], mq_descending = False, mq_limit = 5\<rparr> room_db"
proof -
  have call: "session_call drv0 ''app'' room_db said_db"
    using create_message[OF note_created, of drv0] by (simp add: sample_note_def)
  have "said_db \<noteq> room_db" by (simp add: said_db_def room_db_def with_session_def empty_session_db_def)
  with session_apps_isolated[OF call, of "''other''"] call show ?thesis by simp
qed

text \<open>A Run that answers \<open>m4\<close> in this room is shown what was said before.\<close>

abbreviation no_blobs :: "string \<Rightarrow> string sess_result" where
  "no_blobs \<equiv> (\<lambda>_. sess_fail Sess_BlobNotFound)"

lemma room_history:
  obtains h p where "assembleHistory sample_context_lib (sqlite_history no_blobs said_db) sample_limits sample_input = Inr h"
    "map he_message_id (hi_entries h) = [''m1'']" "renderContext sample_context_lib sample_input h = Inr p"
    "int (length p) \<le> bg_max_bytes sample_limits"
proof -
  have "case assembleHistory sample_context_lib (sqlite_history no_blobs said_db) sample_limits sample_input of
     Inl _ \<Rightarrow> False
   | Inr h \<Rightarrow> map he_message_id (hi_entries h) = [''m1''] \<and>
       (case renderContext sample_context_lib sample_input h of Inl _ \<Rightarrow> False | Inr p \<Rightarrow> int (length p) \<le> bg_max_bytes sample_limits)"
    by code_simp
  then show thesis using that by (auto split: sum.splits)
qed

theorem context_shows_stored_messages_witness:
  "\<exists>s m. Assemble sample_context_lib (sqlite_history no_blobs said_db) sample_limits sample_input = Inr s \<and>
     map he_message_id (hi_entries (cx_history s)) = [mg_id m] \<and> m \<in> set (sb_messages said_db) \<and>
     visible_where ''app'' ''s1'' m"
proof -
  obtain h p where h: "assembleHistory sample_context_lib (sqlite_history no_blobs said_db) sample_limits sample_input = Inr h"
    "map he_message_id (hi_entries h) = [''m1'']" "renderContext sample_context_lib sample_input h = Inr p"
    "int (length p) \<le> bg_max_bytes sample_limits"
    by (rule room_history)
  then have "fit_payload sample_context_lib sample_limits sample_input h = Inr (p, h)" by (simp add: fit_payload.simps)
  then obtain s where s: "Assemble sample_context_lib (sqlite_history no_blobs said_db) sample_limits sample_input = Inr s"
    "cx_history s = h" using h sample_input_valid by (simp add: Assemble_def)
  obtain e where e: "hi_entries h = [e]" using h(2) by auto
  then have "e \<in> set (hi_entries (cx_history s))" using s(2) by simp
  from context_shows_stored_messages[OF room_ok(2) sample_new s(1) this] obtain m where
    "m \<in> set (sb_messages said_db)" "visible_where ''app'' ''s1'' m" "he_message_id e = mg_id m"
    by (auto simp: sample_input_def visible_where_def)
  then show ?thesis using s e by (intro exI[of _ s] exI[of _ m]) simp
qed

end
