(* ===== verification/Pack_Model.thy ===== *)
theory Pack_Model
  imports Capability Go_Json Sql_Table
begin

text \<open>
  \<open>internal/kernel/packstore/packstore.go\<close>: scopes, documents and snapshots of the package storage, with
  the validators, and the port of its stores. The port is stated as the abstract store \<open>pack_spec\<close>, a map
  from document keys to payloads with one snapshot per namespace, and the locale \<open>document_port\<close>: an
  implementation answers as the abstract store does, or its engine fails and nothing changes.
\<close>

section \<open>Data\<close>

datatype pack_error = Pack_NotFound | Pack_InvalidScope | Pack_InvalidKey | Pack_InvalidPayload
  | Pack_InvalidSnapshot | Pack_AccessDenied

text \<open>A bare sentinel, one that \<open>fmt.Errorf\<close> has wrapped with \<open>%w\<close>, or the error of another layer.\<close>

datatype pack_failure = Pack pack_error | Pack_Wrapped pack_error | Pack_Other go_error

type_synonym 'a pack_result = "pack_failure + 'a"

abbreviation pack_fail :: "pack_error \<Rightarrow> 'a pack_result" where
  "pack_fail e \<equiv> Inl (Pack e)"

fun pack_is :: "pack_failure \<Rightarrow> pack_error \<Rightarrow> bool" where
  "pack_is (Pack e) e' = (e = e')"
| "pack_is (Pack_Wrapped e) e' = (e = e')"
| "pack_is (Pack_Other x) e' = False"

definition MaxPayloadBytes :: int where "MaxPayloadBytes = 65536"
definition MaxListLimit :: int where "MaxListLimit = 200"
definition MaxSnapshotDocs :: int where "MaxSnapshotDocs = 100000"
definition MaxSnapshotCollections :: int where "MaxSnapshotCollections = 32"

lemmas pack_limits = MaxPayloadBytes_def MaxListLimit_def MaxSnapshotDocs_def MaxSnapshotCollections_def

definition ScopeSystem :: string where "ScopeSystem = ''system''"
definition ScopeUser :: string where "ScopeUser = ''user''"

record scope =
  sc_app_id :: string
  sc_package_id :: string
  sc_namespace :: string
  sc_user_id :: string

definition scope_kind :: "scope \<Rightarrow> string" where
  "scope_kind s = (if sc_user_id s = [] then ScopeSystem else ScopeUser)"

record document =
  pd_id :: string
  pd_payload :: string

record snapshot_meta =
  sm_revision :: string
  sm_source :: string
  sm_authoritative :: bool
  sm_complete :: bool
  sm_imported_at :: instant
  sm_valid_until :: instant

text \<open>
  The two read views. \<open>Meta\<close> with \<open>MetaFound\<close> is an option, as \<open>Meta\<close> is the zero value when there is no
  snapshot; likewise \<open>Document\<close> with \<open>Found\<close>.
\<close>

record collection_read =
  lr_meta :: "snapshot_meta option"
  lr_documents :: "document list"

record document_read =
  dr_meta :: "snapshot_meta option"
  dr_document :: "document option"

text \<open>A Go map from collections to documents: an association list with distinct keys, in any order.\<close>

type_synonym collections = "(string \<times> document list) list"

section \<open>Validation\<close>

text \<open>\<open>ValidateStorage\<close> of \<open>packagecontract/format.go\<close> with its pattern of a namespace.\<close>

definition namespace_separator :: "char \<Rightarrow> bool" where
  "namespace_separator c \<longleftrightarrow> c \<in> set ''/._:-''"

fun namespace_rest :: "bool \<Rightarrow> string \<Rightarrow> bool" where
  "namespace_rest after_sep [] = (\<not> after_sep)"
| "namespace_rest after_sep (c # cs) =
     (if is_lower_digit c then namespace_rest False cs
      else \<not> after_sep \<and> namespace_separator c \<and> namespace_rest True cs)"

fun namespace_pattern :: "string \<Rightarrow> bool" where
  "namespace_pattern [] = False"
| "namespace_pattern (c # cs) = (is_lower c \<and> namespace_rest False cs)"

definition ValidateStorage :: "string \<Rightarrow> bool" where
  "ValidateStorage namespace \<longleftrightarrow> namespace_pattern namespace \<and> length namespace \<le> 128"

definition has_prefix :: "string \<Rightarrow> string \<Rightarrow> bool" where
  "has_prefix s p \<longleftrightarrow> take (length p) s = p"

definition ValidateScope :: "scope \<Rightarrow> unit pack_result" where
  "ValidateScope s =
     (if \<not> is_stable_id (sc_app_id s) \<or> \<not> is_stable_id (sc_package_id s) then pack_fail Pack_InvalidScope
      else if scope_kind s = ScopeUser \<and> \<not> stable_mixed (sc_user_id s) then pack_fail Pack_InvalidScope
      else if \<not> ValidateStorage (sc_namespace s) then pack_fail Pack_InvalidScope
      else if \<not> has_prefix (sc_namespace s) (sc_package_id s @ ''/'') then pack_fail Pack_InvalidScope
      else Inr ())"

definition ValidateCollection :: "string \<Rightarrow> unit pack_result" where
  "ValidateCollection c = (if \<not> is_stable_id c then pack_fail Pack_InvalidKey else Inr ())"

definition ValidateDocID :: "string \<Rightarrow> unit pack_result" where
  "ValidateDocID i = (if \<not> is_stable_id i then pack_fail Pack_InvalidKey else Inr ())"

definition ValidatePayload :: "string \<Rightarrow> unit pack_result" where
  "ValidatePayload p =
     (if length p = 0 \<or> MaxPayloadBytes < int (length p) then pack_fail Pack_InvalidPayload
      else if \<not> utf8_valid p \<or> \<not> json_valid p then pack_fail Pack_InvalidPayload
      else Inr ())"

definition ValidateSnapshotMeta :: "snapshot_meta \<Rightarrow> unit pack_result" where
  "ValidateSnapshotMeta m =
     (if \<not> is_stable_id (sm_revision m) \<or> sm_source m = [] \<or> 256 < length (sm_source m) \<or>
         \<not> utf8_valid (sm_source m) \<or> \<not> sm_complete m \<or> is_zero (sm_imported_at m) \<or>
         is_zero (sm_valid_until m) \<or> \<not> after (sm_valid_until m) (sm_imported_at m)
      then pack_fail Pack_InvalidSnapshot else Inr ())"

text \<open>The loop over the documents of a collection; \<open>seen\<close> are the identifiers before.\<close>

fun validate_documents :: "string list \<Rightarrow> document list \<Rightarrow> unit pack_result" where
  "validate_documents seen [] = Inr ()"
| "validate_documents seen (d # ds) =
     (if \<not> is_ok (ValidateDocID (pd_id d)) then Inl (Pack_Wrapped Pack_InvalidSnapshot)
      else if \<not> is_ok (ValidatePayload (pd_payload d)) then Inl (Pack_Wrapped Pack_InvalidSnapshot)
      else if pd_id d \<in> set seen then Inl (Pack_Wrapped Pack_InvalidSnapshot)
      else validate_documents (pd_id d # seen) ds)"

fun validate_collections :: "collections \<Rightarrow> unit pack_result" where
  "validate_collections [] = Inr ()"
| "validate_collections ((c, ds) # cs) =
     (if \<not> is_ok (ValidateCollection c) then Inl (Pack_Wrapped Pack_InvalidSnapshot)
      else if ds = [] \<or> MaxSnapshotDocs < int (length ds) then Inl (Pack_Wrapped Pack_InvalidSnapshot)
      else and_then (validate_documents [] ds) (\<lambda>_. validate_collections cs))"

definition ValidateSnapshot :: "snapshot_meta \<Rightarrow> collections \<Rightarrow> unit pack_result" where
  "ValidateSnapshot m cs =
     and_then (ValidateSnapshotMeta m) (\<lambda>_.
       if cs = [] \<or> MaxSnapshotCollections < int (length cs) then pack_fail Pack_InvalidSnapshot
       else validate_collections cs)"

lemma ValidateScope_ok:
  "ValidateScope s = Inr () \<longleftrightarrow>
     is_stable_id (sc_app_id s) \<and> is_stable_id (sc_package_id s) \<and>
     (sc_user_id s \<noteq> [] \<longrightarrow> stable_mixed (sc_user_id s)) \<and> ValidateStorage (sc_namespace s) \<and>
     has_prefix (sc_namespace s) (sc_package_id s @ ''/'')"
  by (auto simp: ValidateScope_def scope_kind_def ScopeSystem_def ScopeUser_def)

lemma Validate_key_ok [simp]:
  "ValidateCollection c = Inr u \<longleftrightarrow> is_stable_id c" "ValidateDocID i = Inr u \<longleftrightarrow> is_stable_id i"
  "is_ok (ValidateCollection c) = is_stable_id c" "is_ok (ValidateDocID i) = is_stable_id i"
  by (simp_all add: ValidateCollection_def ValidateDocID_def)

lemma ValidatePayload_ok:
  "ValidatePayload p = Inr u \<longleftrightarrow> p \<noteq> [] \<and> int (length p) \<le> MaxPayloadBytes \<and> utf8_valid p \<and> json_valid p"
  by (auto simp: ValidatePayload_def)

lemma is_ok_iff: "is_ok r \<longleftrightarrow> r = Inr ()" for r :: "'e + unit"
  by (cases r) simp_all

lemma validate_documents_ok:
  "validate_documents seen ds = Inr () \<longleftrightarrow>
     list_all (\<lambda>d. is_stable_id (pd_id d) \<and> ValidatePayload (pd_payload d) = Inr ()) ds \<and>
     distinct (map pd_id ds) \<and> set (map pd_id ds) \<inter> set seen = {}"
  by (induction ds arbitrary: seen) (auto simp: is_ok_iff)

definition snapshot_content_ok :: "collections \<Rightarrow> bool" where
  "snapshot_content_ok cs \<longleftrightarrow>
     list_all (\<lambda>(c, ds). is_stable_id c \<and> distinct (map pd_id ds) \<and>
       list_all (\<lambda>d. is_stable_id (pd_id d) \<and> ValidatePayload (pd_payload d) = Inr ()) ds) cs"

lemma validate_collections_content: "validate_collections cs = Inr () \<Longrightarrow> snapshot_content_ok cs"
  by (induction cs rule: validate_collections.induct)
    (auto simp: snapshot_content_ok_def and_then_Inr validate_documents_ok split: if_splits)

lemma ValidateSnapshot_content: "ValidateSnapshot m cs = Inr () \<Longrightarrow> snapshot_content_ok cs"
  by (auto simp: ValidateSnapshot_def and_then_Inr validate_collections_content split: if_splits)

section \<open>The abstract store\<close>

text \<open>A document is known by App, user, namespace, collection and identifier; the user is empty in the
  system scope.\<close>

type_synonym doc_place = "string \<times> string \<times> string"
type_synonym doc_key = "doc_place \<times> string \<times> string"

record pack_state =
  pt_documents :: "doc_key \<Rightarrow> string option"
  pt_snapshots :: "doc_place \<Rightarrow> snapshot_meta option"

definition empty_pack :: pack_state where
  "empty_pack = \<lparr>pt_documents = (\<lambda>_. None), pt_snapshots = (\<lambda>_. None)\<rparr>"

definition place_of :: "scope \<Rightarrow> doc_place" where
  "place_of s = (sc_app_id s, sc_user_id s, sc_namespace s)"

datatype pack_op = Op_Get scope string string | Op_Put scope string string string
  | Op_Delete scope string string | Op_List scope string int string
  | Op_Replace scope snapshot_meta collections

datatype pack_answer = A_Document document_read | A_Collection collection_read | A_Done

fun call_scope :: "pack_op \<Rightarrow> scope" where
  "call_scope (Op_Get s c i) = s"
| "call_scope (Op_Put s c i p) = s"
| "call_scope (Op_Delete s c i) = s"
| "call_scope (Op_List s c n a) = s"
| "call_scope (Op_Replace s m cs) = s"

fun call_writes :: "pack_op \<Rightarrow> bool" where
  "call_writes (Op_Get s c i) = False"
| "call_writes (Op_List s c n a) = False"
| "call_writes (Op_Put s c i p) = True"
| "call_writes (Op_Delete s c i) = True"
| "call_writes (Op_Replace s m cs) = True"

text \<open>The collections of a replacement are a Go map.\<close>

fun call_ok :: "pack_op \<Rightarrow> bool" where
  "call_ok (Op_Replace s m cs) = distinct (map fst cs)"
| "call_ok (Op_Get s c i) = True"
| "call_ok (Op_Put s c i p) = True"
| "call_ok (Op_Delete s c i) = True"
| "call_ok (Op_List s c n a) = True"

definition access_valid :: "scope \<Rightarrow> string \<Rightarrow> string \<Rightarrow> unit pack_result" where
  "access_valid s c i = and_then (ValidateScope s) (\<lambda>_. and_then (ValidateCollection c) (\<lambda>_. ValidateDocID i))"

definition list_valid :: "scope \<Rightarrow> string \<Rightarrow> int \<Rightarrow> string \<Rightarrow> unit pack_result" where
  "list_valid s c n a =
     and_then (ValidateScope s) (\<lambda>_. and_then (ValidateCollection c) (\<lambda>_.
       if n < 1 \<or> MaxListLimit < n then pack_fail Pack_InvalidKey
       else if a \<noteq> [] then ValidateDocID a else Inr ()))"

definition replace_valid :: "scope \<Rightarrow> snapshot_meta \<Rightarrow> collections \<Rightarrow> unit pack_result" where
  "replace_valid s m cs =
     (if scope_kind s \<noteq> ScopeSystem then pack_fail Pack_InvalidScope
      else and_then (ValidateScope s) (\<lambda>_. ValidateSnapshot m cs))"

definition stored_document :: "pack_state \<Rightarrow> doc_place \<Rightarrow> string \<Rightarrow> string \<Rightarrow> document option" where
  "stored_document st p c i = map_option (\<lambda>x. \<lparr>pd_id = i, pd_payload = x\<rparr>) (pt_documents st (p, c, i))"

definition visible_meta :: "pack_state \<Rightarrow> scope \<Rightarrow> snapshot_meta option" where
  "visible_meta st s = (if scope_kind s = ScopeUser then None else pt_snapshots st (place_of s))"

definition stored_ids :: "pack_state \<Rightarrow> doc_place \<Rightarrow> string \<Rightarrow> string \<Rightarrow> string list" where
  "stored_ids st p c a = sorted_list_of_set {i. pt_documents st (p, c, i) \<noteq> None \<and> a < i}"

text \<open>The documents of a snapshot, as a map.\<close>

definition snapshot_payload :: "collections \<Rightarrow> string \<Rightarrow> string \<Rightarrow> string option" where
  "snapshot_payload cs c i =
     (case map_of cs c of None \<Rightarrow> None | Some ds \<Rightarrow> map_of (map (\<lambda>d. (pd_id d, pd_payload d)) ds) i)"

definition replaced :: "doc_place \<Rightarrow> snapshot_meta \<Rightarrow> collections \<Rightarrow> pack_state \<Rightarrow> pack_state" where
  "replaced p m cs st =
     st\<lparr>pt_documents := (\<lambda>(q, c, i). if q = p then snapshot_payload cs c i else pt_documents st (q, c, i)),
        pt_snapshots := (pt_snapshots st)(p := Some m)\<rparr>"

fun pack_spec :: "pack_op \<Rightarrow> pack_state \<Rightarrow> pack_state \<times> pack_answer pack_result" where
  "pack_spec (Op_Get s c i) st =
     (st, and_then (access_valid s c i) (\<lambda>_.
            Inr (A_Document \<lparr>dr_meta = visible_meta st s, dr_document = stored_document st (place_of s) c i\<rparr>)))"
| "pack_spec (Op_Put s c i p) st =
     (case and_then (access_valid s c i) (\<lambda>_. ValidatePayload p) of
        Inl e \<Rightarrow> (st, Inl e)
      | Inr _ \<Rightarrow> (st\<lparr>pt_documents := (pt_documents st)((place_of s, c, i) \<mapsto> p)\<rparr>, Inr A_Done))"
| "pack_spec (Op_Delete s c i) st =
     (case access_valid s c i of
        Inl e \<Rightarrow> (st, Inl e)
      | Inr _ \<Rightarrow>
          if pt_documents st (place_of s, c, i) = None then (st, pack_fail Pack_NotFound)
          else (st\<lparr>pt_documents := (pt_documents st)((place_of s, c, i) := None)\<rparr>, Inr A_Done))"
| "pack_spec (Op_List s c n a) st =
     (st, and_then (list_valid s c n a) (\<lambda>_.
            Inr (A_Collection \<lparr>lr_meta = visible_meta st s,
              lr_documents = map (\<lambda>i. \<lparr>pd_id = i, pd_payload = the (pt_documents st (place_of s, c, i))\<rparr>)
                               (take (nat n) (stored_ids st (place_of s) c a))\<rparr>)))"
| "pack_spec (Op_Replace s m cs) st =
     (case replace_valid s m cs of
        Inl e \<Rightarrow> (st, Inl e)
      | Inr _ \<Rightarrow> (replaced (place_of s) m cs st, Inr A_Done))"

text \<open>What a place holds.\<close>

definition place_part :: "doc_place \<Rightarrow> pack_state \<Rightarrow> (string \<Rightarrow> string \<Rightarrow> string option) \<times> snapshot_meta option" where
  "place_part p st = ((\<lambda>c i. pt_documents st (p, c, i)), pt_snapshots st p)"

lemma place_part_kept: "place_of (call_scope op) \<noteq> p \<Longrightarrow> place_part p (fst (pack_spec op st)) = place_part p st"
  by (cases op) (auto simp: place_part_def replaced_def split: sum.splits)

text \<open>A read depends on what the place of its scope holds, and on nothing else.\<close>

lemma reads_place:
  assumes "place_part (place_of (call_scope op)) st = place_part (place_of (call_scope op)) st'" and "\<not> call_writes op"
  shows "snd (pack_spec op st) = snd (pack_spec op st')"
proof -
  have "pt_documents st (place_of (call_scope op), c, i) = pt_documents st' (place_of (call_scope op), c, i)" for c i
    using assms(1) by (auto simp: place_part_def fun_eq_iff)
  moreover have "pt_snapshots st (place_of (call_scope op)) = pt_snapshots st' (place_of (call_scope op))"
    using assms(1) by (simp add: place_part_def)
  ultimately show ?thesis
    using assms(2) by (cases op) (simp_all add: visible_meta_def stored_document_def stored_ids_def)
qed

section \<open>The port\<close>

fun engine_failed :: "'a pack_result \<Rightarrow> bool" where
  "engine_failed (Inl (Pack_Other e)) = True"
| "engine_failed (Inl (Pack e)) = False"
| "engine_failed (Inl (Pack_Wrapped e)) = False"
| "engine_failed (Inr a) = False"

text \<open>The abstract store has no engine that could fail.\<close>

lemma validators_succeed [simp]:
  "\<not> engine_failed (ValidateScope s)" "\<not> engine_failed (ValidateCollection c)" "\<not> engine_failed (ValidateDocID i)"
  "\<not> engine_failed (ValidatePayload p)" "\<not> engine_failed (ValidateSnapshotMeta m)"
  by (simp_all add: ValidateScope_def ValidateCollection_def ValidateDocID_def ValidatePayload_def ValidateSnapshotMeta_def)

lemma and_then_failed [simp]:
  "engine_failed (and_then r f) \<longleftrightarrow> engine_failed r \<or> (\<exists>x. r = Inr x \<and> engine_failed (f x))"
  for r :: "'a pack_result" and f :: "'a \<Rightarrow> 'b pack_result"
  by (cases r rule: engine_failed.cases) simp_all

lemma snapshot_succeeds [simp]: "\<not> engine_failed (ValidateSnapshot m cs)"
proof -
  have "\<not> engine_failed (validate_documents seen ds)" for seen ds
    by (induction seen ds rule: validate_documents.induct) auto
  then have "\<not> engine_failed (validate_collections cs)"
    by (induction cs rule: validate_collections.induct) auto
  then show ?thesis by (auto simp: ValidateSnapshot_def)
qed

lemma checks_succeed [simp]:
  "\<not> engine_failed (access_valid s c i)" "\<not> engine_failed (list_valid s c n a)" "\<not> engine_failed (replace_valid s m cs)"
  by (auto simp: access_valid_def list_valid_def replace_valid_def)

lemma failure_kept: "\<not> engine_failed (r :: 'a pack_result) \<Longrightarrow> r = Inl e \<Longrightarrow> \<not> engine_failed (Inl e :: 'b pack_result)"
  by (cases e) auto

lemma pack_spec_succeeds: "\<not> engine_failed (snd (pack_spec op st))"
proof (cases op)
  case (Op_Put s c i p)
  have "\<not> engine_failed (and_then (access_valid s c i) (\<lambda>_. ValidatePayload p))" by simp
  from failure_kept[OF this] show ?thesis by (auto simp: Op_Put split: sum.split)
next
  case (Op_Delete s c i)
  then show ?thesis using failure_kept[OF checks_succeed(1)] by (auto split: sum.split)
next
  case (Op_Replace s m cs)
  then show ?thesis using failure_kept[OF checks_succeed(3)] by (auto split: sum.split)
qed simp_all

text \<open>A sequence of calls, each with the time at which it is made, and its answers.\<close>

fun run_ops ::
  "(instant \<Rightarrow> pack_op \<Rightarrow> 's \<Rightarrow> 's \<times> pack_answer pack_result) \<Rightarrow> (instant \<times> pack_op) list \<Rightarrow> 's \<Rightarrow>
     's \<times> pack_answer pack_result list" where
  "run_ops step [] s = (s, [])"
| "run_ops step ((now, op) # ops) s =
     (case step now op s of (s1, r) \<Rightarrow> (case run_ops step ops s1 of (s2, rs) \<Rightarrow> (s2, r # rs)))"

locale document_port =
  fixes step :: "instant \<Rightarrow> pack_op \<Rightarrow> 's \<Rightarrow> 's \<times> pack_answer pack_result"
    and abs :: "'s \<Rightarrow> pack_state"
    and inv :: "'s \<Rightarrow> bool"
  assumes law: "inv s \<Longrightarrow> call_ok op \<Longrightarrow> step now op s = (s', r) \<Longrightarrow>
    inv s' \<and> ((abs s', r) = pack_spec op (abs s) \<or> call_writes op \<and> engine_failed r \<and> abs s' = abs s)"
begin

lemma kept: "inv s \<Longrightarrow> call_ok op \<Longrightarrow> step now op s = (s', r) \<Longrightarrow> inv s'"
  using law by blast

lemma answered:
  "inv s \<Longrightarrow> call_ok op \<Longrightarrow> step now op s = (s', r) \<Longrightarrow> \<not> engine_failed r \<Longrightarrow> pack_spec op (abs s) = (abs s', r)"
  using law by metis

lemma run_answered:
  assumes "inv s" and "list_all (\<lambda>(now, op). call_ok op) ops" and "run_ops step ops s = (s', rs)"
    and "list_all (\<lambda>r. \<not> engine_failed r) rs"
  shows "inv s' \<and> run_ops (\<lambda>_. pack_spec) ops (abs s) = (abs s', rs)"
  using assms
proof (induction ops arbitrary: s rs)
  case (Cons e ops)
  obtain now op where e: "e = (now, op)" by (cases e)
  obtain s1 r rs1 where s1: "step now op s = (s1, r)" "run_ops step ops s1 = (s', rs1)" "rs = r # rs1"
    using Cons.prems(3) by (auto simp: e split: prod.splits)
  have "inv s1" "pack_spec op (abs s) = (abs s1, r)"
    using kept[OF _ _ s1(1)] answered[OF _ _ s1(1)] Cons.prems s1(3) by (simp_all add: e)
  then show ?case using Cons.IH[OF _ _ s1(2)] Cons.prems s1(3) by (simp add: e)
qed simp

text \<open>A call touches only the place of its scope.\<close>

lemma other_places_kept:
  assumes "inv s" and "call_ok op" and "step now op s = (s', r)" and "place_of (call_scope op) \<noteq> p"
  shows "place_part p (abs s') = place_part p (abs s)"
  using law[OF assms(1-3)] place_part_kept[OF assms(4), of "abs s"] by (metis fst_conv)

text \<open>A read changes nothing, and is answered by the place of its scope.\<close>

lemma read_answered:
  "inv s \<Longrightarrow> \<not> call_writes op \<Longrightarrow> call_ok op \<Longrightarrow> step now op s = (s', r) \<Longrightarrow>
     inv s' \<and> abs s' = abs s \<and> r = snd (pack_spec op (abs s))"
  using law[of s op now s' r] by (cases op) auto

text \<open>A failed call changes nothing.\<close>

lemma failed_kept:
  assumes "inv s" and "call_ok op" and "step now op s = (s', Inl e)"
  shows "abs s' = abs s"
proof -
  have "fst (pack_spec op (abs s)) = abs s" if "snd (pack_spec op (abs s)) = Inl e"
    using that by (cases op) (auto split: sum.splits if_splits)
  then show ?thesis using law[OF assms] by (metis fst_conv snd_conv)
qed

end

text \<open>A port whose engine never fails answers as the abstract store does.\<close>

locale reliable_port = document_port step abs inv
  for step :: "instant \<Rightarrow> pack_op \<Rightarrow> 's \<Rightarrow> 's \<times> pack_answer pack_result" and abs :: "'s \<Rightarrow> pack_state"
    and inv :: "'s \<Rightarrow> bool" +
  assumes reliable: "inv s \<Longrightarrow> call_ok op \<Longrightarrow> step now op s = (s', r) \<Longrightarrow> (abs s', r) = pack_spec op (abs s)"
begin

lemma always_answered:
  assumes "inv s" and "list_all (\<lambda>(now, op). call_ok op) ops"
  obtains s' rs where "run_ops step ops s = (s', rs)" and "run_ops (\<lambda>_. pack_spec) ops (abs s) = (abs s', rs)"
proof -
  obtain s' rs where run: "run_ops step ops s = (s', rs)" by fastforce
  have "list_all (\<lambda>r. \<not> engine_failed r) rs"
    using run assms
  proof (induction ops arbitrary: s rs)
    case (Cons e ops)
    obtain now op where e: "e = (now, op)" by (cases e)
    obtain s1 r rs1 where s1: "step now op s = (s1, r)" "run_ops step ops s1 = (s', rs1)" "rs = r # rs1"
      using Cons.prems(1) by (auto simp: e split: prod.splits)
    have "inv s1" "(abs s1, r) = pack_spec op (abs s)"
      using kept[OF _ _ s1(1)] reliable[OF _ _ s1(1)] Cons.prems by (simp_all add: e)
    moreover have "\<not> engine_failed r" using calculation(2) pack_spec_succeeds[of op "abs s"] by (metis snd_conv)
    ultimately show ?case using Cons.IH[OF s1(2)] Cons.prems s1(3) by (simp add: e)
  qed simp
  then show thesis using run_answered[OF assms run] that run by blast
qed

end

end
