(* ===== verification/Pack_Store.thy ===== *)
theory Pack_Store
  imports Pack_Model
begin

text \<open>
  \<open>internal/storage/sqlite/packstore.go\<close> over the tables \<open>package_documents\<close> and \<open>package_snapshots\<close> of
  \<open>schema.sql\<close>: every method of \<open>packageDocuments\<close>. A failing transaction returns the tables it began with.
\<close>

section \<open>The tables\<close>

record doc_row =
  dw_app_id :: string
  dw_user_id :: string
  dw_namespace :: string
  dw_collection :: string
  dw_id :: string
  dw_payload :: string
  dw_updated_at :: instant

record snapshot_row =
  pw_app_id :: string
  pw_namespace :: string
  pw_meta :: snapshot_meta
  pw_current :: bool

record pack_db =
  kb_documents :: "doc_row list"
  kb_snapshots :: "snapshot_row list"

definition doc_place_of :: "doc_row \<Rightarrow> doc_place" where
  "doc_place_of r = (dw_app_id r, dw_user_id r, dw_namespace r)"

definition doc_row_key :: "doc_row \<Rightarrow> doc_key" where
  "doc_row_key r = (doc_place_of r, dw_collection r, dw_id r)"

definition snapshot_row_key :: "snapshot_row \<Rightarrow> string \<times> string \<times> string" where
  "snapshot_row_key r = (pw_app_id r, pw_namespace r, sm_revision (pw_meta r))"

definition snapshot_owner :: "snapshot_row \<Rightarrow> string \<times> string" where
  "snapshot_owner r = (pw_app_id r, pw_namespace r)"

definition doc_row_check :: "sql_driver \<Rightarrow> doc_row \<Rightarrow> bool" where
  "doc_row_check drv r \<longleftrightarrow>
     (dw_user_id r = [] \<or> sql_length (dw_user_id r) \<le> 128) \<and> sql_json_valid drv (dw_payload r) \<and>
     int (sql_length (dw_payload r)) \<le> 65536"

definition snapshot_row_check :: "snapshot_row \<Rightarrow> bool" where
  "snapshot_row_check r \<longleftrightarrow>
     1 \<le> sql_length (sm_revision (pw_meta r)) \<and> sql_length (sm_revision (pw_meta r)) \<le> 128 \<and>
     1 \<le> sql_length (sm_source (pw_meta r)) \<and> sql_length (sm_source (pw_meta r)) \<le> 256"

text \<open>\<open>package_snapshots_current_idx\<close>: a namespace has at most one current snapshot.\<close>

definition current_unique :: "snapshot_row list \<Rightarrow> bool" where
  "current_unique t \<longleftrightarrow> distinct (map snapshot_owner (filter pw_current t))"

text \<open>\<open>INSERT ... ON CONFLICT(key) DO UPDATE\<close>: the \<open>CHECK\<close>s of the inserted row come first.\<close>

definition exec_upsert ::
  "('r \<Rightarrow> bool) \<Rightarrow> ('r \<Rightarrow> 'k) \<Rightarrow> 'r \<Rightarrow> ('r \<Rightarrow> 'r) \<Rightarrow> 'r list \<Rightarrow> 'r list option" where
  "exec_upsert chk key r f t =
     (if \<not> chk r then None
      else if key r \<in> set (map key t) then map_option fst (exec_update chk (\<lambda>x. key x = key r) f t)
      else Some (t @ [r]))"

definition exec_delete :: "('r \<Rightarrow> bool) \<Rightarrow> 'r list \<Rightarrow> 'r list \<times> nat" where
  "exec_delete P t = (filter (\<lambda>r. \<not> P r) t, affected P t)"

abbreviation engine_failure :: "'a pack_result" where
  "engine_failure \<equiv> Inl (Pack_Other (Wrapped (Opaque_Error ''constraint failed'')))"

section \<open>The operations\<close>

definition readSnapshotMetaTx :: "scope \<Rightarrow> pack_db \<Rightarrow> snapshot_meta option" where
  "readSnapshotMetaTx s db =
     (if scope_kind s = ScopeUser then None
      else map_option pw_meta
        (find (\<lambda>r. pw_app_id r = sc_app_id s \<and> pw_namespace r = sc_namespace s \<and> pw_current r) (kb_snapshots db)))"

definition packageDocuments_Get :: "scope \<Rightarrow> string \<Rightarrow> string \<Rightarrow> pack_db \<Rightarrow> document_read pack_result" where
  "packageDocuments_Get s c i db =
     (case ValidateScope s of Inl e \<Rightarrow> Inl e | Inr _ \<Rightarrow>
     (case ValidateCollection c of Inl e \<Rightarrow> Inl e | Inr _ \<Rightarrow>
     (case ValidateDocID i of Inl e \<Rightarrow> Inl e | Inr _ \<Rightarrow>
      let meta = readSnapshotMetaTx s db in
      (case select_key doc_row_key (place_of s, c, i) (kb_documents db) of
         None \<Rightarrow> Inr \<lparr>dr_meta = meta, dr_document = None\<rparr>
       | Some r \<Rightarrow> Inr \<lparr>dr_meta = meta, dr_document = Some \<lparr>pd_id = i, pd_payload = dw_payload r\<rparr>\<rparr>))))"

definition doc_row_of :: "instant \<Rightarrow> scope \<Rightarrow> string \<Rightarrow> string \<Rightarrow> string \<Rightarrow> doc_row" where
  "doc_row_of now s c i p =
     \<lparr>dw_app_id = sc_app_id s, dw_user_id = sc_user_id s, dw_namespace = sc_namespace s, dw_collection = c,
      dw_id = i, dw_payload = p, dw_updated_at = now\<rparr>"

definition packageDocuments_Put ::
  "sql_driver \<Rightarrow> instant \<Rightarrow> scope \<Rightarrow> string \<Rightarrow> string \<Rightarrow> string \<Rightarrow> pack_db \<Rightarrow> pack_db \<times> unit pack_result" where
  "packageDocuments_Put drv now s c i p db =
     (case ValidateScope s of Inl e \<Rightarrow> (db, Inl e) | Inr _ \<Rightarrow>
     (case ValidateCollection c of Inl e \<Rightarrow> (db, Inl e) | Inr _ \<Rightarrow>
     (case ValidateDocID i of Inl e \<Rightarrow> (db, Inl e) | Inr _ \<Rightarrow>
     (case ValidatePayload p of Inl e \<Rightarrow> (db, Inl e) | Inr _ \<Rightarrow>
     (case exec_upsert (doc_row_check drv) doc_row_key (doc_row_of now s c i p)
             (\<lambda>r. r\<lparr>dw_payload := p, dw_updated_at := now\<rparr>) (kb_documents db) of
        None \<Rightarrow> (db, engine_failure)
      | Some t \<Rightarrow> (db\<lparr>kb_documents := t\<rparr>, Inr ()))))))"

definition packageDocuments_Delete :: "scope \<Rightarrow> string \<Rightarrow> string \<Rightarrow> pack_db \<Rightarrow> pack_db \<times> unit pack_result" where
  "packageDocuments_Delete s c i db =
     (case ValidateScope s of Inl e \<Rightarrow> (db, Inl e) | Inr _ \<Rightarrow>
     (case ValidateCollection c of Inl e \<Rightarrow> (db, Inl e) | Inr _ \<Rightarrow>
     (case ValidateDocID i of Inl e \<Rightarrow> (db, Inl e) | Inr _ \<Rightarrow>
     (case exec_delete (\<lambda>r. doc_row_key r = (place_of s, c, i)) (kb_documents db) of
        (t, n) \<Rightarrow> if n = 0 then (db, pack_fail Pack_NotFound) else (db\<lparr>kb_documents := t\<rparr>, Inr ())))))"

definition packageDocuments_List ::
  "scope \<Rightarrow> string \<Rightarrow> int \<Rightarrow> string \<Rightarrow> pack_db \<Rightarrow> collection_read pack_result" where
  "packageDocuments_List s c n a db =
     (case ValidateScope s of Inl e \<Rightarrow> Inl e | Inr _ \<Rightarrow>
     (case ValidateCollection c of Inl e \<Rightarrow> Inl e | Inr _ \<Rightarrow>
      if n < 1 \<or> MaxListLimit < n then pack_fail Pack_InvalidKey
      else if a \<noteq> [] \<and> ValidateDocID a \<noteq> Inr () then pack_fail Pack_InvalidKey
      else Inr \<lparr>lr_meta = readSnapshotMetaTx s db,
                lr_documents = map (\<lambda>r. \<lparr>pd_id = dw_id r, pd_payload = dw_payload r\<rparr>)
                  (take (nat n) (sort_key dw_id
                    (filter (\<lambda>r. doc_place_of r = place_of s \<and> dw_collection r = c \<and> a < dw_id r) (kb_documents db))))\<rparr>))"

text \<open>The two loops over the new documents.\<close>

fun insert_documents ::
  "sql_driver \<Rightarrow> instant \<Rightarrow> scope \<Rightarrow> string \<Rightarrow> document list \<Rightarrow> doc_row list \<Rightarrow> doc_row list option" where
  "insert_documents drv now s c [] t = Some t"
| "insert_documents drv now s c (d # ds) t =
     (case exec_insert (doc_row_check drv) doc_row_key (doc_row_of now s c (pd_id d) (pd_payload d)) t of
        None \<Rightarrow> None
      | Some t' \<Rightarrow> insert_documents drv now s c ds t')"

fun insert_collections ::
  "sql_driver \<Rightarrow> instant \<Rightarrow> scope \<Rightarrow> collections \<Rightarrow> doc_row list \<Rightarrow> doc_row list option" where
  "insert_collections drv now s [] t = Some t"
| "insert_collections drv now s ((c, ds) # cs) t =
     (case insert_documents drv now s c ds t of
        None \<Rightarrow> None
      | Some t' \<Rightarrow> insert_collections drv now s cs t')"

definition activate_snapshot :: "scope \<Rightarrow> snapshot_meta \<Rightarrow> snapshot_row list \<Rightarrow> snapshot_row list option" where
  "activate_snapshot s m t =
     (case exec_upsert snapshot_row_check snapshot_row_key
             \<lparr>pw_app_id = sc_app_id s, pw_namespace = sc_namespace s, pw_meta = m, pw_current = True\<rparr>
             (\<lambda>r. r\<lparr>pw_meta := m, pw_current := True\<rparr>) t of
        None \<Rightarrow> None
      | Some t' \<Rightarrow> if current_unique t' then Some t' else None)"

definition packageDocuments_ReplaceSnapshot ::
  "sql_driver \<Rightarrow> instant \<Rightarrow> scope \<Rightarrow> snapshot_meta \<Rightarrow> collections \<Rightarrow> pack_db \<Rightarrow> pack_db \<times> unit pack_result" where
  "packageDocuments_ReplaceSnapshot drv now s m cs db =
     (if scope_kind s \<noteq> ScopeSystem then (db, pack_fail Pack_InvalidScope)
      else case ValidateScope s of Inl e \<Rightarrow> (db, Inl e) | Inr _ \<Rightarrow>
     (case ValidateSnapshot m cs of Inl e \<Rightarrow> (db, Inl e) | Inr _ \<Rightarrow>
     (case exec_update snapshot_row_check
             (\<lambda>r. pw_app_id r = sc_app_id s \<and> pw_namespace r = sc_namespace s \<and> pw_current r)
             (\<lambda>r. r\<lparr>pw_current := False\<rparr>) (kb_snapshots db) of
        None \<Rightarrow> (db, engine_failure)
      | Some (idle, _) \<Rightarrow>
     (case insert_collections drv now (s\<lparr>sc_user_id := []\<rparr>) cs
             (fst (exec_delete
               (\<lambda>r. dw_app_id r = sc_app_id s \<and> dw_user_id r = [] \<and> dw_namespace r = sc_namespace s)
               (kb_documents db))) of
        None \<Rightarrow> (db, engine_failure)
      | Some docs \<Rightarrow>
     (case activate_snapshot s m idle of
        None \<Rightarrow> (db, engine_failure)
      | Some snaps \<Rightarrow> (\<lparr>kb_documents = docs, kb_snapshots = snaps\<rparr>, Inr ()))))))"

text \<open>The port of the store as one function.\<close>

fun packageDocuments :: "sql_driver \<Rightarrow> instant \<Rightarrow> pack_op \<Rightarrow> pack_db \<Rightarrow> pack_db \<times> pack_answer pack_result" where
  "packageDocuments drv now (Op_Get s c i) db =
     (db, and_then (packageDocuments_Get s c i db) (\<lambda>x. Inr (A_Document x)))"
| "packageDocuments drv now (Op_Put s c i p) db =
     (case packageDocuments_Put drv now s c i p db of (db', r) \<Rightarrow> (db', and_then r (\<lambda>_. Inr A_Done)))"
| "packageDocuments drv now (Op_Delete s c i) db =
     (case packageDocuments_Delete s c i db of (db', r) \<Rightarrow> (db', and_then r (\<lambda>_. Inr A_Done)))"
| "packageDocuments drv now (Op_List s c n a) db =
     (db, and_then (packageDocuments_List s c n a db) (\<lambda>x. Inr (A_Collection x)))"
| "packageDocuments drv now (Op_Replace s m cs) db =
     (case packageDocuments_ReplaceSnapshot drv now s m cs db of (db', r) \<Rightarrow> (db', and_then r (\<lambda>_. Inr A_Done)))"

section \<open>The abstraction\<close>

definition pack_db_ok :: "sql_driver \<Rightarrow> pack_db \<Rightarrow> bool" where
  "pack_db_ok drv db \<longleftrightarrow>
     table_ok (doc_row_check drv) doc_row_key (kb_documents db) \<and>
     table_ok snapshot_row_check snapshot_row_key (kb_snapshots db) \<and> current_unique (kb_snapshots db)"

definition empty_pack_db :: pack_db where
  "empty_pack_db = \<lparr>kb_documents = [], kb_snapshots = []\<rparr>"

definition db_documents :: "doc_row list \<Rightarrow> doc_key \<Rightarrow> string option" where
  "db_documents t k = map_option dw_payload (select_key doc_row_key k t)"

definition db_snapshots :: "snapshot_row list \<Rightarrow> doc_place \<Rightarrow> snapshot_meta option" where
  "db_snapshots t = (\<lambda>(app, user, ns). if user \<noteq> [] then None
     else map_option pw_meta (find (\<lambda>r. pw_app_id r = app \<and> pw_namespace r = ns \<and> pw_current r) t))"

definition db_pack :: "pack_db \<Rightarrow> pack_state" where
  "db_pack db = \<lparr>pt_documents = db_documents (kb_documents db), pt_snapshots = db_snapshots (kb_snapshots db)\<rparr>"

lemma empty_pack_db_ok [simp]: "pack_db_ok drv empty_pack_db" "db_pack empty_pack_db = empty_pack"
  by (auto simp: pack_db_ok_def empty_pack_db_def current_unique_def db_pack_def empty_pack_def db_documents_def
      db_snapshots_def select_key_def fun_eq_iff)

lemma readSnapshotMetaTx_visible: "readSnapshotMetaTx s db = visible_meta (db_pack db) s"
  by (auto simp: readSnapshotMetaTx_def visible_meta_def db_pack_def db_snapshots_def place_of_def scope_kind_def
      ScopeUser_def ScopeSystem_def)

lemma Get_refines:
  "and_then (packageDocuments_Get s c i db) (\<lambda>x. Inr (A_Document x)) = snd (pack_spec (Op_Get s c i) (db_pack db))"
  by (simp add: packageDocuments_Get_def access_valid_def and_then_def readSnapshotMetaTx_visible stored_document_def
      Let_def db_documents_def del: Validate_key_ok split: sum.split option.split)
    (simp add: db_pack_def db_documents_def)

text \<open>\<open>List\<close>: the selected rows are in the order of their identifiers, which are distinct.\<close>

lemma listed_ids:
  fixes p :: doc_place and c a :: string
  assumes "distinct (map doc_row_key t)"
  defines "P \<equiv> \<lambda>r. doc_place_of r = p \<and> dw_collection r = c \<and> a < dw_id r"
  shows "map dw_id (sort_key dw_id (filter P t)) =
    sorted_list_of_set {i. db_documents t (p, c, i) \<noteq> None \<and> a < i}"
    and "r \<in> set (filter P t) \<Longrightarrow> db_documents t (p, c, dw_id r) = Some (dw_payload r)"
proof -
  have "inj_on dw_id (set (filter P t))"
    using assms(1) by (auto simp: inj_on_def P_def doc_row_key_def distinct_map)
  then have d: "distinct (map dw_id (filter P t))"
    using assms(1) by (simp add: distinct_map)
  have stored: "db_documents t (p, c, i) \<noteq> None \<longleftrightarrow> (\<exists>r \<in> set t. doc_place_of r = p \<and> dw_collection r = c \<and> dw_id r = i)" for i
    using select_key_None[of doc_row_key "(p, c, i)" t] by (auto simp: db_documents_def doc_row_key_def image_iff)
  have "set (map dw_id (filter P t)) = {i. db_documents t (p, c, i) \<noteq> None \<and> a < i}"
    using stored by (auto simp: P_def)
  then have rows: "set (map dw_id (sort_key dw_id (filter P t))) = {i. db_documents t (p, c, i) \<noteq> None \<and> a < i}"
    by simp
  have "distinct (map dw_id (sort_key dw_id (filter P t)))"
    using d by (simp add: distinct_map)
  then show "map dw_id (sort_key dw_id (filter P t)) =
    sorted_list_of_set {i. db_documents t (p, c, i) \<noteq> None \<and> a < i}"
    unfolding rows[symmetric] by (simp add: sorted_list_of_set.idem_if_sorted_distinct del: set_map set_sort)
  show "db_documents t (p, c, dw_id r) = Some (dw_payload r)" if "r \<in> set (filter P t)"
    using that select_key_Some[OF assms(1), of "(p, c, dw_id r)" r]
    by (simp add: db_documents_def P_def doc_row_key_def)
qed

lemma List_refines:
  assumes "pack_db_ok drv db"
  shows "and_then (packageDocuments_List s c n a db) (\<lambda>x. Inr (A_Collection x)) =
    snd (pack_spec (Op_List s c n a) (db_pack db))"
proof -
  let ?P = "\<lambda>r. doc_place_of r = place_of s \<and> dw_collection r = c \<and> a < dw_id r"
  let ?rows = "sort_key dw_id (filter ?P (kb_documents db))"
  have d: "distinct (map doc_row_key (kb_documents db))"
    using assms by (simp add: pack_db_ok_def table_ok_def)
  have ids: "stored_ids (db_pack db) (place_of s) c a = map dw_id ?rows"
    using listed_ids(1)[OF d] by (simp add: stored_ids_def db_pack_def)
  have row: "db_documents (kb_documents db) (place_of s, c, dw_id r) = Some (dw_payload r)" if "r \<in> set ?rows" for r
    using listed_ids(2)[OF d, where p = "place_of s" and c = c and a = a] that by simp
  have docs: "map (\<lambda>i. \<lparr>pd_id = i, pd_payload = the (pt_documents (db_pack db) (place_of s, c, i))\<rparr>)
      (take k (stored_ids (db_pack db) (place_of s) c a)) =
    map (\<lambda>r. \<lparr>pd_id = dw_id r, pd_payload = dw_payload r\<rparr>) (take k ?rows)" for k
    unfolding ids take_map map_map by (rule map_cong) (auto simp: db_pack_def row simp del: set_sort dest!: in_set_takeD)
  have after: "ValidateDocID a \<noteq> Inr () \<Longrightarrow> ValidateDocID a = pack_fail Pack_InvalidKey"
    by (simp add: ValidateDocID_def split: if_splits)
  show ?thesis
    unfolding pack_spec.simps snd_conv docs using after
    by (cases "ValidateScope s"; cases "ValidateCollection c"; cases "ValidateDocID a = Inr ()")
      (simp_all add: packageDocuments_List_def list_valid_def readSnapshotMetaTx_visible del: Validate_key_ok)
qed

text \<open>\<open>Put\<close> and \<open>Delete\<close>.\<close>

lemma appended_document:
  "doc_row_key r \<notin> set (map doc_row_key t) \<Longrightarrow>
     db_documents (t @ [r]) = (db_documents t)(doc_row_key r \<mapsto> dw_payload r)"
  unfolding select_key_None[symmetric]
  by (auto simp: db_documents_def fun_eq_iff select_key_append split: option.split)

lemma upsert_documents:
  assumes "exec_upsert chk doc_row_key r f t = Some t'" and "\<And>x. doc_row_key (f x) = doc_row_key x"
    and "\<And>x. dw_payload (f x) = dw_payload r"
  shows "db_documents t' = (db_documents t)(doc_row_key r \<mapsto> dw_payload r)"
proof (cases "doc_row_key r \<in> set (map doc_row_key t)")
  case True
  then have "t' = update_where (\<lambda>x. doc_row_key x = doc_row_key r) f t"
    using assms(1) by (auto simp: exec_upsert_def exec_update_Some split: if_splits)
  moreover have "select_key doc_row_key (doc_row_key r) t \<noteq> None"
    using True by (simp add: select_key_None)
  ultimately show ?thesis
    using assms(2,3) by (auto simp: db_documents_def fun_eq_iff select_update_where map_option_case
        dest: select_keyD split: option.split)
next
  case False
  then have "t' = t @ [r]" using assms(1) by (auto simp: exec_upsert_def split: if_splits)
  then show ?thesis using appended_document[OF False] by simp
qed

lemma exec_upsert_ok:
  assumes "table_ok chk key t" and "exec_upsert chk key r f t = Some t'" and "\<And>x. key x = key r \<Longrightarrow> key (f x) = key x"
  shows "table_ok chk key t'"
proof (cases "key r \<in> set (map key t)")
  case True
  then obtain n where "exec_update chk (\<lambda>x. key x = key r) f t = Some (t', n)"
    using assms(2) by (auto simp: exec_upsert_def split: if_splits)
  then show ?thesis using exec_update_ok[OF assms(1)] assms(3) by blast
qed (use assms in \<open>auto simp: exec_upsert_def table_ok_def split: if_splits\<close>)

lemma deleted_documents:
  "db_documents (filter (\<lambda>r. \<not> P (doc_row_key r)) t) = (\<lambda>k. if P k then None else db_documents t k)"
proof
  fix k
  show "db_documents (filter (\<lambda>r. \<not> P (doc_row_key r)) t) k = (if P k then None else db_documents t k)"
    by (induction t) (auto simp: db_documents_def select_key_def)
qed

lemma table_ok_filter: "table_ok chk key t \<Longrightarrow> table_ok chk key (filter P t)"
  by (auto simp: table_ok_def list_all_iff distinct_map_filter)


section \<open>A replacement\<close>

text \<open>The inserts add the documents of the snapshot to those that are there.\<close>

definition collection_documents :: "doc_place \<Rightarrow> string \<Rightarrow> document list \<Rightarrow> doc_key \<Rightarrow> string option" where
  "collection_documents p c ds =
     (\<lambda>(q, c', i). if q = p \<and> c' = c then map_of (map (\<lambda>d. (pd_id d, pd_payload d)) ds) i else None)"

definition snapshot_documents :: "doc_place \<Rightarrow> collections \<Rightarrow> doc_key \<Rightarrow> string option" where
  "snapshot_documents p cs = (\<lambda>(q, c, i). if q = p then snapshot_payload cs c i else None)"

lemma collection_documents_Cons:
  assumes "pd_id d \<notin> pd_id ` set ds"
  shows "m ++ collection_documents p c (d # ds) = m((p, c, pd_id d) \<mapsto> pd_payload d) ++ collection_documents p c ds"
proof
  fix k :: doc_key
  obtain q c' i where k: "k = (q, c', i)" by (cases k)
  have "map_of (map (\<lambda>d. (pd_id d, pd_payload d)) ds) (pd_id d) = None"
    using assms by (auto simp: map_of_eq_None_iff)
  then show "(m ++ collection_documents p c (d # ds)) k =
    (m((p, c, pd_id d) \<mapsto> pd_payload d) ++ collection_documents p c ds) k"
    unfolding k by (cases "q = p \<and> c' = c \<and> i = pd_id d") (auto simp: collection_documents_def map_add_def split: option.split)
qed

lemma insert_documents_effect:
  assumes "insert_documents drv now s c ds t = Some t'" and "distinct (map pd_id ds)"
    and "table_ok (doc_row_check drv) doc_row_key t"
  shows "table_ok (doc_row_check drv) doc_row_key t' \<and>
    db_documents t' = db_documents t ++ collection_documents (place_of s) c ds"
  using assms
proof (induction ds arbitrary: t)
  case Nil
  then show ?case by (auto simp: collection_documents_def map_add_def fun_eq_iff)
next
  case (Cons d ds)
  let ?r = "doc_row_of now s c (pd_id d) (pd_payload d)"
  obtain t1 where t1: "exec_insert (doc_row_check drv) doc_row_key ?r t = Some t1"
    "insert_documents drv now s c ds t1 = Some t'"
    using Cons.prems(1) by (auto split: option.splits)
  have k: "doc_row_key ?r = (place_of s, c, pd_id d)" "dw_payload ?r = pd_payload d"
    by (simp_all add: doc_row_of_def doc_row_key_def doc_place_of_def place_of_def)
  have "db_documents t1 = (db_documents t)((place_of s, c, pd_id d) \<mapsto> pd_payload d)"
    using t1(1) appended_document[of ?r t] unfolding k by (auto simp: exec_insert_Some k)
  then show ?case
    using Cons.IH[OF t1(2)] Cons.prems(2) exec_insert_ok[OF Cons.prems(3) t1(1)]
    by (simp add: collection_documents_Cons fun_upd_def)
qed

lemma insert_collections_effect:
  assumes "insert_collections drv now s cs t = Some t'" and "distinct (map fst cs)" and "snapshot_content_ok cs"
    and "table_ok (doc_row_check drv) doc_row_key t"
  shows "table_ok (doc_row_check drv) doc_row_key t' \<and> db_documents t' = db_documents t ++ snapshot_documents (place_of s) cs"
  using assms
proof (induction cs arbitrary: t)
  case Nil
  then show ?case by (auto simp: snapshot_documents_def snapshot_payload_def map_add_def fun_eq_iff)
next
  case (Cons e cs)
  obtain c ds where e: "e = (c, ds)" by (cases e)
  obtain t1 where t1: "insert_documents drv now s c ds t = Some t1" "insert_collections drv now s cs t1 = Some t'"
    using Cons.prems(1) by (auto simp: e split: option.splits)
  have step: "table_ok (doc_row_check drv) doc_row_key t1 \<and>
    db_documents t1 = db_documents t ++ collection_documents (place_of s) c ds"
    using insert_documents_effect[OF t1(1)] Cons.prems by (simp add: e snapshot_content_ok_def)
  have "map_of cs c = None" using Cons.prems(2) by (auto simp: e map_of_eq_None_iff)
  then have "snapshot_documents (place_of s) (e # cs) =
    collection_documents (place_of s) c ds ++ snapshot_documents (place_of s) cs"
    by (auto simp: e snapshot_documents_def collection_documents_def snapshot_payload_def map_add_def fun_eq_iff
        split: option.split)
  then show ?case
    using Cons.IH[OF t1(2)] Cons.prems step by (simp add: snapshot_content_ok_def)
qed

text \<open>Activation leaves one current snapshot of the namespace and those of the others.\<close>

lemma current_unique_find:
  assumes "current_unique t" and "r \<in> set t" and "pw_current r"
  shows "find (\<lambda>x. pw_app_id x = pw_app_id r \<and> pw_namespace x = pw_namespace r \<and> pw_current x) t = Some r"
  using assms
proof (induction t)
  case (Cons x t)
  then show ?case by (auto simp: current_unique_def snapshot_owner_def image_iff split: if_splits)
qed simp

lemma db_snapshots_in:
  assumes "current_unique t"
  shows "db_snapshots t (app, [], ns) = Some m \<longleftrightarrow>
    (\<exists>r \<in> set t. pw_app_id r = app \<and> pw_namespace r = ns \<and> pw_current r \<and> pw_meta r = m)"
proof
  assume "db_snapshots t (app, [], ns) = Some m"
  then show "\<exists>r \<in> set t. pw_app_id r = app \<and> pw_namespace r = ns \<and> pw_current r \<and> pw_meta r = m"
    by (auto simp: db_snapshots_def find_Some_iff)
qed (use current_unique_find[OF assms] in \<open>auto simp: db_snapshots_def\<close>)

lemma activation:
  assumes idle: "exec_update snapshot_row_check
      (\<lambda>r. pw_app_id r = sc_app_id s \<and> pw_namespace r = sc_namespace s \<and> pw_current r) (\<lambda>r. r\<lparr>pw_current := False\<rparr>) t =
      Some (idle, n)"
    and act: "activate_snapshot s m idle = Some t'"
    and ok: "table_ok snapshot_row_check snapshot_row_key t" "current_unique t" and sys: "sc_user_id s = []"
  shows "table_ok snapshot_row_check snapshot_row_key t' \<and> current_unique t' \<and>
    db_snapshots t' = (db_snapshots t)(place_of s \<mapsto> m)"
proof (intro conjI ext)
  let ?new = "\<lparr>pw_app_id = sc_app_id s, pw_namespace = sc_namespace s, pw_meta = m, pw_current = True\<rparr>"
  let ?mine = "\<lambda>r. pw_app_id r = sc_app_id s \<and> pw_namespace r = sc_namespace s"
  have up: "exec_upsert snapshot_row_check snapshot_row_key ?new (\<lambda>r. r\<lparr>pw_meta := m, pw_current := True\<rparr>) idle = Some t'"
    and cu: "current_unique t'"
    using act by (auto simp: activate_snapshot_def split: option.splits if_splits)
  have idle_ok: "table_ok snapshot_row_check snapshot_row_key idle"
    using exec_update_ok[OF ok(1) idle] by (simp add: snapshot_row_key_def)
  show "current_unique t'" by (rule cu)
  show "table_ok snapshot_row_check snapshot_row_key t'"
    by (rule exec_upsert_ok[OF idle_ok up]) (auto simp: snapshot_row_key_def)
  have idle_eq: "idle = update_where (\<lambda>r. ?mine r \<and> pw_current r) (\<lambda>r. r\<lparr>pw_current := False\<rparr>) t"
    using idle by (simp add: exec_update_Some)
  have current_idle: "r \<in> set idle \<and> pw_current r \<longleftrightarrow> r \<in> set t \<and> pw_current r \<and> \<not> ?mine r" for r
    by (auto simp: idle_eq set_update_where)
  have new: "r\<lparr>pw_meta := m, pw_current := True\<rparr> = ?new" if "snapshot_row_key r = snapshot_row_key ?new" for r
    using that by (cases r) (simp add: snapshot_row_key_def)
  have current: "r \<in> set t' \<and> pw_current r \<longleftrightarrow> r \<in> set t \<and> pw_current r \<and> \<not> ?mine r \<or> r = ?new" for r
  proof (cases "snapshot_row_key ?new \<in> set (map snapshot_row_key idle)")
    case True
    then have t': "t' = update_where (\<lambda>x. snapshot_row_key x = snapshot_row_key ?new)
        (\<lambda>r. r\<lparr>pw_meta := m, pw_current := True\<rparr>) idle"
      using up by (auto simp: exec_upsert_def exec_update_Some split: if_splits)
    have "(\<lambda>r. r\<lparr>pw_meta := m, pw_current := True\<rparr>) ` {r \<in> set idle. snapshot_row_key r = snapshot_row_key ?new} = {?new}"
      using True new by (auto simp: image_iff)
    then have "r \<in> set t' \<longleftrightarrow> r \<in> set idle \<and> snapshot_row_key r \<noteq> snapshot_row_key ?new \<or> r = ?new"
      by (auto simp: t' set_update_where)
    moreover have "?mine r" if "snapshot_row_key r = snapshot_row_key ?new"
      using that by (simp add: snapshot_row_key_def)
    ultimately show ?thesis using current_idle[of r] by auto
  next
    case False
    then have "t' = idle @ [?new]" using up by (auto simp: exec_upsert_def split: if_splits)
    then show ?thesis using current_idle[of r] by auto
  qed
  define nr where new_def: "nr = ?new"
  have new_fields: "pw_app_id nr = sc_app_id s" "pw_namespace nr = sc_namespace s" "pw_meta nr = m" "pw_current nr"
    by (simp_all add: new_def)
  fix p :: doc_place
  obtain app user ns where p: "p = (app, user, ns)" by (cases p)
  have "db_snapshots t' p = Some x \<longleftrightarrow> ((db_snapshots t)(place_of s \<mapsto> m)) p = Some x" for x
  proof (cases "user = []")
    case True
    have after: "db_snapshots t' p = Some x \<longleftrightarrow>
        (\<exists>r. (r \<in> set t' \<and> pw_current r) \<and> pw_app_id r = app \<and> pw_namespace r = ns \<and> pw_meta r = x)"
      unfolding p True db_snapshots_in[OF cu] by blast
    have before: "db_snapshots t p = Some x \<longleftrightarrow>
        (\<exists>r. (r \<in> set t \<and> pw_current r) \<and> pw_app_id r = app \<and> pw_namespace r = ns \<and> pw_meta r = x)"
      unfolding p True db_snapshots_in[OF ok(2)] by blast
    show ?thesis
    proof (cases "app = sc_app_id s \<and> ns = sc_namespace s")
      case mine: True
      then have "db_snapshots t' p = Some x \<longleftrightarrow> m = x"
        unfolding after current new_def[symmetric] using new_fields by blast
      then show ?thesis using mine by (simp add: p True place_of_def sys)
    next
      case False
      then have "db_snapshots t' p = Some x \<longleftrightarrow> db_snapshots t p = Some x"
        unfolding after before current new_def[symmetric] using new_fields by blast
      then show ?thesis using False by (auto simp: p True place_of_def sys)
    qed
  qed (use sys in \<open>simp add: p db_snapshots_def place_of_def\<close>)
  then show "db_snapshots t' p = ((db_snapshots t)(place_of s \<mapsto> m)) p"
    by (metis option.exhaust)
qed

section \<open>The store implements the port\<close>

lemma Put_refines:
  assumes "pack_db_ok drv db" and "packageDocuments drv now (Op_Put s c i p) db = (db', r)"
  shows "pack_db_ok drv db' \<and> ((db_pack db', r) = pack_spec (Op_Put s c i p) (db_pack db) \<or> engine_failed r \<and> db' = db)"
proof (cases "and_then (access_valid s c i) (\<lambda>_. ValidatePayload p)")
  case (Inl e)
  then show ?thesis
    using assms by (auto simp: packageDocuments_Put_def access_valid_def and_then_def split: sum.splits simp del: Validate_key_ok)
next
  case (Inr u)
  let ?r = "doc_row_of now s c i p"
  have v: "ValidateScope s = Inr ()" "ValidateCollection c = Inr ()" "ValidateDocID i = Inr ()" "ValidatePayload p = Inr ()"
    using Inr by (simp_all add: access_valid_def and_then_Inr)
  have k: "doc_row_key ?r = (place_of s, c, i)" "dw_payload ?r = p"
    by (simp_all add: doc_row_of_def doc_row_key_def doc_place_of_def place_of_def)
  show ?thesis
  proof (cases "exec_upsert (doc_row_check drv) doc_row_key ?r (\<lambda>r. r\<lparr>dw_payload := p, dw_updated_at := now\<rparr>) (kb_documents db)")
    case None
    then show ?thesis using assms v by (auto simp: packageDocuments_Put_def)
  next
    case (Some t)
    have "table_ok (doc_row_check drv) doc_row_key t"
      using exec_upsert_ok[OF _ Some] assms(1) by (simp add: pack_db_ok_def doc_row_key_def doc_place_of_def)
    moreover have "db_documents t = (db_documents (kb_documents db))((place_of s, c, i) \<mapsto> p)"
      using upsert_documents[OF Some] by (simp add: k) (simp add: doc_row_key_def doc_place_of_def)
    ultimately show ?thesis
      using assms v Some Inr by (auto simp: packageDocuments_Put_def pack_db_ok_def db_pack_def)
  qed
qed

lemma Delete_refines:
  assumes "pack_db_ok drv db" and "packageDocuments drv now (Op_Delete s c i) db = (db', r)"
  shows "pack_db_ok drv db' \<and> (db_pack db', r) = pack_spec (Op_Delete s c i) (db_pack db)"
proof (cases "access_valid s c i")
  case (Inl e)
  then show ?thesis
    using assms by (auto simp: packageDocuments_Delete_def access_valid_def and_then_def split: sum.splits simp del: Validate_key_ok)
next
  case (Inr u)
  let ?k = "(place_of s, c, i)" and ?t = "kb_documents db"
  have v: "ValidateScope s = Inr ()" "ValidateCollection c = Inr ()" "ValidateDocID i = Inr ()"
    using Inr by (simp_all add: access_valid_def and_then_Inr)
  have absent: "affected (\<lambda>r. doc_row_key r = ?k) ?t = 0 \<longleftrightarrow> db_documents ?t ?k = None"
    using select_key_None[of doc_row_key ?k ?t] by (force simp: affected_0_iff db_documents_def)
  show ?thesis
    using assms v Inr absent deleted_documents[of "\<lambda>k. k = ?k" ?t]
    by (auto simp: packageDocuments_Delete_def exec_delete_def pack_db_ok_def db_pack_def table_ok_filter fun_upd_def
        split: if_splits)
qed

lemma Replace_refines:
  assumes "pack_db_ok drv db" and "distinct (map fst cs)"
    and "packageDocuments drv now (Op_Replace s m cs) db = (db', r)"
  shows "pack_db_ok drv db' \<and>
    ((db_pack db', r) = pack_spec (Op_Replace s m cs) (db_pack db) \<or> engine_failed r \<and> db' = db)"
proof (cases "replace_valid s m cs")
  case (Inl e)
  then show ?thesis
    using assms by (auto simp: packageDocuments_ReplaceSnapshot_def replace_valid_def and_then_def split: sum.splits if_splits)
next
  case (Inr u)
  have v: "scope_kind s = ScopeSystem" "ValidateScope s = Inr ()" "ValidateSnapshot m cs = Inr ()"
    using Inr by (auto simp: replace_valid_def and_then_Inr split: if_splits)
  then have sys: "sc_user_id s = []" "s\<lparr>sc_user_id := []\<rparr> = s"
    by (auto simp: scope_kind_def ScopeSystem_def ScopeUser_def split: if_splits)
  let ?old = "\<lambda>r. dw_app_id r = sc_app_id s \<and> dw_user_id r = [] \<and> dw_namespace r = sc_namespace s"
  let ?rest = "filter (\<lambda>r. \<not> ?old r) (kb_documents db)"
  have rest: "db_documents ?rest = (\<lambda>k. if fst k = place_of s then None else db_documents (kb_documents db) k)"
    using deleted_documents[of "\<lambda>k. fst k = place_of s" "kb_documents db"]
    by (simp add: doc_row_key_def doc_place_of_def place_of_def sys)
  show ?thesis
  proof (cases "engine_failed r")
    case True
    then have "db' = db"
      using assms(3) v by (auto simp: packageDocuments_ReplaceSnapshot_def split: option.splits prod.splits)
    then show ?thesis using True assms(1) by simp
  next
    case False
    obtain idle n docs snaps where
      idle: "exec_update snapshot_row_check (\<lambda>r. pw_app_id r = sc_app_id s \<and> pw_namespace r = sc_namespace s \<and> pw_current r)
          (\<lambda>r. r\<lparr>pw_current := False\<rparr>) (kb_snapshots db) = Some (idle, n)"
      and docs: "insert_collections drv now s cs ?rest = Some docs"
      and snaps: "activate_snapshot s m idle = Some snaps"
      and db': "db' = \<lparr>kb_documents = docs, kb_snapshots = snaps\<rparr>" "r = Inr A_Done"
      using assms(3) v False
      by (auto simp: packageDocuments_ReplaceSnapshot_def exec_delete_def sys split: option.splits prod.splits)
    have "table_ok (doc_row_check drv) doc_row_key docs \<and>
      db_documents docs = db_documents ?rest ++ snapshot_documents (place_of s) cs"
      using insert_collections_effect[OF docs assms(2) ValidateSnapshot_content[OF v(3)]] assms(1)
      by (simp add: pack_db_ok_def table_ok_filter)
    moreover have "table_ok snapshot_row_check snapshot_row_key snaps \<and> current_unique snaps \<and>
      db_snapshots snaps = (db_snapshots (kb_snapshots db))(place_of s \<mapsto> m)"
      using activation[OF idle snaps _ _ sys(1)] assms(1) by (simp add: pack_db_ok_def)
    moreover have "db_documents ?rest ++ snapshot_documents (place_of s) cs =
      (\<lambda>(q, c, i). if q = place_of s then snapshot_payload cs c i else db_documents (kb_documents db) (q, c, i))"
      unfolding rest by (auto simp: map_add_def snapshot_documents_def fun_eq_iff split: option.split)
    ultimately show ?thesis
      using Inr by (simp add: db' pack_db_ok_def db_pack_def replaced_def case_prod_beta' cong: if_cong)
  qed
qed

interpretation sqlite_documents: document_port "packageDocuments drv" db_pack "pack_db_ok drv"
proof
  fix db db' op now and r :: "pack_answer pack_result"
  assume ok: "pack_db_ok drv db" and "call_ok op" and run: "packageDocuments drv now op db = (db', r)"
  show "pack_db_ok drv db' \<and>
    ((db_pack db', r) = pack_spec op (db_pack db) \<or> call_writes op \<and> engine_failed r \<and> db_pack db' = db_pack db)"
  proof (cases op)
    case (Op_Get s c i)
    then show ?thesis using ok run Get_refines[of s c i db] by auto
  next
    case (Op_List s c n a)
    then show ?thesis using ok run List_refines[of drv db s c n a] by auto
  next
    case (Op_Put s c i p)
    then show ?thesis using Put_refines[OF ok run[unfolded Op_Put]] call_writes.simps(3) by metis
  next
    case (Op_Delete s c i)
    then show ?thesis using Delete_refines[OF ok run[unfolded Op_Delete]] by metis
  next
    case (Op_Replace s m cs)
    then show ?thesis using Replace_refines[OF ok _ run[unfolded Op_Replace]] \<open>call_ok op\<close> call_ok.simps(1) call_writes.simps(5) by metis
  qed
qed

end
