(* ===== verification/Pack_Memory.thy ===== *)
theory Pack_Memory
  imports Pack_Model "HOL-Library.AList"
begin

text \<open>
  \<open>internal/storage/memory/packstore.go\<close>: the in-memory implementation of the port, with its nested maps as
  association lists. The maps are keyed by one text made of App, user and namespace; reading creates the
  empty maps it looks into, as in the code.
\<close>

section \<open>The maps\<close>

type_synonym doc_map = "(string \<times> string) list"
type_synonym scope_map = "(string \<times> doc_map) list"

record memory_documents =
  mm_documents :: "(string \<times> scope_map) list"
  mm_snapshots :: "(string \<times> snapshot_meta) list"

definition NewDocuments :: memory_documents where
  "NewDocuments = \<lparr>mm_documents = [], mm_snapshots = []\<rparr>"

definition scope_text :: "doc_place \<Rightarrow> string" where
  "scope_text = (\<lambda>(app, user, ns). app @ [CHR 0x00] @ user @ [CHR 0x00] @ ns)"

definition scopeKey :: "scope \<Rightarrow> string" where
  "scopeKey s = scope_text (sc_app_id s, sc_user_id s, sc_namespace s)"

text \<open>The missing maps of a scope and a collection are made on the way.\<close>

definition memory_collection :: "scope \<Rightarrow> string \<Rightarrow> memory_documents \<Rightarrow> memory_documents \<times> doc_map" where
  "memory_collection s name m =
     (let by_collection = (case map_of (mm_documents m) (scopeKey s) of None \<Rightarrow> [] | Some x \<Rightarrow> x);
          found = (case map_of by_collection name of None \<Rightarrow> [] | Some x \<Rightarrow> x)
      in (m\<lparr>mm_documents := AList.update (scopeKey s)
                (if map_of by_collection name = None then AList.update name [] by_collection else by_collection)
                (mm_documents m)\<rparr>, found))"

text \<open>An assignment to an entry of that map, which the maps above share.\<close>

definition set_collection :: "scope \<Rightarrow> string \<Rightarrow> doc_map \<Rightarrow> memory_documents \<Rightarrow> memory_documents" where
  "set_collection s name x m =
     m\<lparr>mm_documents := AList.update (scopeKey s)
         (AList.update name x (case map_of (mm_documents m) (scopeKey s) of None \<Rightarrow> [] | Some y \<Rightarrow> y)) (mm_documents m)\<rparr>"

definition readMeta :: "scope \<Rightarrow> memory_documents \<Rightarrow> snapshot_meta option" where
  "readMeta s m = (if scope_kind s = ScopeUser then None else map_of (mm_snapshots m) (scopeKey s))"

section \<open>The operations\<close>

definition validateAccess :: "scope \<Rightarrow> string \<Rightarrow> string \<Rightarrow> int \<Rightarrow> string \<Rightarrow> unit pack_result" where
  "validateAccess s c i limit after_id =
     and_then (ValidateScope s) (\<lambda>_. and_then (ValidateCollection c) (\<lambda>_.
       if limit = 0 then ValidateDocID i
       else if limit < 1 \<or> MaxListLimit < limit then pack_fail Pack_InvalidKey
       else if after_id \<noteq> [] then ValidateDocID after_id else Inr ()))"

definition Documents_Get ::
  "scope \<Rightarrow> string \<Rightarrow> string \<Rightarrow> memory_documents \<Rightarrow> memory_documents \<times> document_read pack_result" where
  "Documents_Get s c i m =
     (case validateAccess s c i 0 [] of Inl e \<Rightarrow> (m, Inl e) | Inr _ \<Rightarrow>
      let meta = readMeta s m; (m1, docs) = memory_collection s c m in
      (case map_of docs i of
         None \<Rightarrow> (m1, Inr \<lparr>dr_meta = meta, dr_document = None\<rparr>)
       | Some p \<Rightarrow> (m1, Inr \<lparr>dr_meta = meta, dr_document = Some \<lparr>pd_id = i, pd_payload = p\<rparr>\<rparr>)))"

definition Documents_Put ::
  "scope \<Rightarrow> string \<Rightarrow> string \<Rightarrow> string \<Rightarrow> memory_documents \<Rightarrow> memory_documents \<times> unit pack_result" where
  "Documents_Put s c i p m =
     (case validateAccess s c i 0 [] of Inl e \<Rightarrow> (m, Inl e) | Inr _ \<Rightarrow>
     (case ValidatePayload p of Inl e \<Rightarrow> (m, Inl e) | Inr _ \<Rightarrow>
      let (m1, docs) = memory_collection s c m in (set_collection s c (AList.update i p docs) m1, Inr ())))"

definition Documents_Delete ::
  "scope \<Rightarrow> string \<Rightarrow> string \<Rightarrow> memory_documents \<Rightarrow> memory_documents \<times> unit pack_result" where
  "Documents_Delete s c i m =
     (case validateAccess s c i 0 [] of Inl e \<Rightarrow> (m, Inl e) | Inr _ \<Rightarrow>
      let (m1, docs) = memory_collection s c m in
      if map_of docs i = None then (m1, pack_fail Pack_NotFound)
      else (set_collection s c (AList.delete i docs) m1, Inr ()))"

definition Documents_List ::
  "scope \<Rightarrow> string \<Rightarrow> int \<Rightarrow> string \<Rightarrow> memory_documents \<Rightarrow> memory_documents \<times> collection_read pack_result" where
  "Documents_List s c n a m =
     (case validateAccess s c [] n a of Inl e \<Rightarrow> (m, Inl e) | Inr _ \<Rightarrow>
      let meta = readMeta s m; (m1, docs) = memory_collection s c m;
          ids = sort (filter (\<lambda>i. a = [] \<or> a < i) (map fst docs));
          ids = (if n < int (length ids) then take (nat n) ids else ids)
      in (m1, Inr \<lparr>lr_meta = meta,
                   lr_documents = map (\<lambda>i. \<lparr>pd_id = i, pd_payload = the (map_of docs i)\<rparr>) ids\<rparr>))"

fun documents_by_id :: "document list \<Rightarrow> doc_map \<Rightarrow> doc_map" where
  "documents_by_id [] x = x"
| "documents_by_id (d # ds) x = documents_by_id ds (AList.update (pd_id d) (pd_payload d) x)"

fun collections_by_name :: "collections \<Rightarrow> scope_map \<Rightarrow> scope_map" where
  "collections_by_name [] x = x"
| "collections_by_name ((c, ds) # cs) x = collections_by_name cs (AList.update c (documents_by_id ds []) x)"

definition Documents_ReplaceSnapshot ::
  "scope \<Rightarrow> snapshot_meta \<Rightarrow> collections \<Rightarrow> memory_documents \<Rightarrow> memory_documents \<times> unit pack_result" where
  "Documents_ReplaceSnapshot s meta cs m =
     (if scope_kind s \<noteq> ScopeSystem then (m, pack_fail Pack_InvalidScope)
      else case ValidateScope s of Inl e \<Rightarrow> (m, Inl e) | Inr _ \<Rightarrow>
     (case ValidateSnapshot meta cs of Inl e \<Rightarrow> (m, Inl e) | Inr _ \<Rightarrow>
      (m\<lparr>mm_documents := AList.update (scopeKey s) (collections_by_name cs []) (mm_documents m),
         mm_snapshots := AList.update (scopeKey s) meta (mm_snapshots m)\<rparr>, Inr ())))"

text \<open>The port of the store as one function; it reads no clock.\<close>

fun memoryDocuments ::
  "instant \<Rightarrow> pack_op \<Rightarrow> memory_documents \<Rightarrow> memory_documents \<times> pack_answer pack_result" where
  "memoryDocuments now (Op_Get s c i) m =
     (case Documents_Get s c i m of (m', r) \<Rightarrow> (m', and_then r (\<lambda>x. Inr (A_Document x))))"
| "memoryDocuments now (Op_Put s c i p) m =
     (case Documents_Put s c i p m of (m', r) \<Rightarrow> (m', and_then r (\<lambda>_. Inr A_Done)))"
| "memoryDocuments now (Op_Delete s c i) m =
     (case Documents_Delete s c i m of (m', r) \<Rightarrow> (m', and_then r (\<lambda>_. Inr A_Done)))"
| "memoryDocuments now (Op_List s c n a) m =
     (case Documents_List s c n a m of (m', r) \<Rightarrow> (m', and_then r (\<lambda>x. Inr (A_Collection x))))"
| "memoryDocuments now (Op_Replace s meta cs) m =
     (case Documents_ReplaceSnapshot s meta cs m of (m', r) \<Rightarrow> (m', and_then r (\<lambda>_. Inr A_Done)))"

section \<open>The abstraction\<close>

definition plain_place :: "doc_place \<Rightarrow> bool" where
  "plain_place = (\<lambda>(app, user, ns). CHR 0x00 \<notin> set app \<and> CHR 0x00 \<notin> set user)"

lemma append_sep_inject: "c \<notin> set a \<Longrightarrow> c \<notin> set b \<Longrightarrow> a @ c # x = b @ c # y \<longleftrightarrow> a = b \<and> x = y"
  by (induction a arbitrary: b) (case_tac b; auto)+

lemma scope_text_inject: "plain_place p \<Longrightarrow> plain_place q \<Longrightarrow> scope_text p = scope_text q \<longleftrightarrow> p = q"
  by (cases p; cases q) (auto simp: scope_text_def plain_place_def append_sep_inject)

lemma valid_place_plain: "ValidateScope s = Inr () \<Longrightarrow> plain_place (place_of s)"
proof -
  assume "ValidateScope s = Inr ()"
  then have "is_stable_id (sc_app_id s)" "sc_user_id s \<noteq> [] \<longrightarrow> stable_mixed (sc_user_id s)"
    by (simp_all add: ValidateScope_ok)
  then show ?thesis
    using is_stable_id_chars[of "sc_app_id s" "CHR 0x00"]
    by (cases "sc_user_id s")
      (auto simp: plain_place_def place_of_def stable_mixed_def mixed_tail_def char_class_defs id_separator_def list_all_iff)
qed

definition collection_at :: "(string \<times> scope_map) list \<Rightarrow> string \<Rightarrow> string \<Rightarrow> doc_map" where
  "collection_at t k c = (case map_of t k of None \<Rightarrow> [] | Some x \<Rightarrow> (case map_of x c of None \<Rightarrow> [] | Some y \<Rightarrow> y))"

definition memory_pack :: "memory_documents \<Rightarrow> pack_state" where
  "memory_pack m =
     \<lparr>pt_documents = (\<lambda>(p, c, i). if plain_place p then map_of (collection_at (mm_documents m) (scope_text p) c) i else None),
      pt_snapshots = (\<lambda>p. if plain_place p then map_of (mm_snapshots m) (scope_text p) else None)\<rparr>"

definition memory_ok :: "memory_documents \<Rightarrow> bool" where
  "memory_ok m \<longleftrightarrow>
     (\<forall>k c. distinct (map fst (collection_at (mm_documents m) k c)) \<and>
            list_all is_stable_id (map fst (collection_at (mm_documents m) k c)))"

lemma NewDocuments_ok [simp]: "memory_ok NewDocuments" "memory_pack NewDocuments = empty_pack"
  by (auto simp: memory_ok_def NewDocuments_def memory_pack_def empty_pack_def collection_at_def fun_eq_iff)

lemma scopeKey_place [simp]: "scopeKey s = scope_text (place_of s)"
  by (simp add: scopeKey_def place_of_def)

lemma memory_collection_effect:
  assumes "memory_collection s c m = (m1, docs)"
  shows "docs = collection_at (mm_documents m) (scope_text (place_of s)) c" and "mm_snapshots m1 = mm_snapshots m"
    and "collection_at (mm_documents m1) = collection_at (mm_documents m)"
  using assms
  by (auto simp: memory_collection_def collection_at_def Let_def update_conv' fun_eq_iff split: option.splits if_splits)

lemma same_collections:
  assumes "collection_at (mm_documents m1) = collection_at (mm_documents m)" and "mm_snapshots m1 = mm_snapshots m"
  shows "memory_pack m1 = memory_pack m" and "memory_ok m1 = memory_ok m"
  by (simp_all only: memory_pack_def memory_ok_def assms)

lemma set_collection_at:
  "collection_at (mm_documents (set_collection s c x m)) k c' =
     (if k = scope_text (place_of s) \<and> c' = c then x else collection_at (mm_documents m) k c')"
  by (auto simp: set_collection_def collection_at_def update_conv' split: option.split)

lemma set_collection_snapshots [simp]: "mm_snapshots (set_collection s c x m) = mm_snapshots m"
  by (simp add: set_collection_def)

lemma set_collection_ok:
  "memory_ok m \<Longrightarrow> distinct (map fst x) \<Longrightarrow> list_all is_stable_id (map fst x) \<Longrightarrow> memory_ok (set_collection s c x m)"
  by (simp add: memory_ok_def set_collection_at)

lemma memory_meta: "plain_place (place_of s) \<Longrightarrow> readMeta s m = visible_meta (memory_pack m) s"
  by (simp add: readMeta_def visible_meta_def memory_pack_def)

lemma validateAccess_keys: "validateAccess s c i 0 [] = access_valid s c i"
  by (simp add: validateAccess_def access_valid_def)

lemma validateAccess_list: "validateAccess s c [] n a = list_valid s c n a"
proof -
  have "(if n = 0 then ValidateDocID []
       else if n < 1 \<or> MaxListLimit < n then pack_fail Pack_InvalidKey
       else if a \<noteq> [] then ValidateDocID a else Inr ()) =
    (if n < 1 \<or> MaxListLimit < n then pack_fail Pack_InvalidKey else if a \<noteq> [] then ValidateDocID a else Inr ())"
    by (simp add: ValidateDocID_def is_stable_id_def)
  then show ?thesis by (simp only: validateAccess_def list_valid_def)
qed

lemma access_plain: "access_valid s c i = Inr () \<Longrightarrow> plain_place (place_of s) \<and> is_stable_id i"
  by (auto simp: access_valid_def and_then_Inr valid_place_plain)

lemma memory_written:
  assumes "plain_place (place_of s)"
  shows "memory_pack (set_collection s c x m) =
    memory_pack m\<lparr>pt_documents := (\<lambda>(p, c', i). if p = place_of s \<and> c' = c then map_of x i
      else pt_documents (memory_pack m) (p, c', i))\<rparr>"
  using assms scope_text_inject[of _ "place_of s"]
  by (auto simp: memory_pack_def set_collection_at fun_eq_iff)

lemma memory_Get:
  assumes "memory_ok m" and "memoryDocuments now (Op_Get s c i) m = (m', r)"
  shows "memory_ok m' \<and> (memory_pack m', r) = pack_spec (Op_Get s c i) (memory_pack m)"
proof (cases "access_valid s c i")
  case (Inl e)
  then show ?thesis using assms by (auto simp: Documents_Get_def validateAccess_keys)
next
  case (Inr u)
  obtain m1 docs where mc: "memory_collection s c m = (m1, docs)" by fastforce
  note mc' = memory_collection_effect[OF mc]
  have plain: "plain_place (place_of s)" using Inr access_plain by simp
  have here: "pt_documents (memory_pack m) (place_of s, c, i) = map_of docs i"
    using plain by (simp add: memory_pack_def mc'(1))
  show ?thesis
    using assms Inr mc same_collections[OF mc'(3,2)] memory_meta[OF plain, of m] here
    by (auto simp: Documents_Get_def validateAccess_keys stored_document_def Let_def split: option.splits)
qed

lemma memory_Put:
  assumes "memory_ok m" and "memoryDocuments now (Op_Put s c i p) m = (m', r)"
  shows "memory_ok m' \<and> (memory_pack m', r) = pack_spec (Op_Put s c i p) (memory_pack m)"
proof (cases "and_then (access_valid s c i) (\<lambda>_. ValidatePayload p)")
  case (Inl e)
  then show ?thesis using assms by (cases "access_valid s c i") (auto simp: Documents_Put_def validateAccess_keys)
next
  case (Inr u)
  then have v: "access_valid s c i = Inr ()" "ValidatePayload p = Inr ()" by (simp_all add: and_then_Inr)
  obtain m1 docs where mc: "memory_collection s c m = (m1, docs)" by fastforce
  note mc' = memory_collection_effect[OF mc]
  have plain: "plain_place (place_of s)" "is_stable_id i" using v access_plain by simp_all
  have m': "m' = set_collection s c (AList.update i p docs) m1" "r = Inr A_Done"
    using assms(2) v mc by (simp_all add: Documents_Put_def validateAccess_keys)
  have docs: "distinct (map fst docs)" "list_all is_stable_id (map fst docs)"
    using assms(1) by (simp_all add: memory_ok_def mc'(1))
  have "memory_ok m'"
    unfolding m' using docs plain(2) same_collections(2)[OF mc'(3,2)] assms(1)
    by (intro set_collection_ok) (simp_all add: distinct_update dom_update list_all_iff)
  moreover have "memory_pack m' = memory_pack m\<lparr>pt_documents := (pt_documents (memory_pack m))((place_of s, c, i) \<mapsto> p)\<rparr>"
    unfolding m' memory_written[OF plain(1)] same_collections(1)[OF mc'(3,2)]
    using plain(1) by (auto simp: update_conv' mc'(1) memory_pack_def fun_eq_iff)
  ultimately show ?thesis using v by (simp add: m')
qed

lemma memory_Delete:
  assumes "memory_ok m" and "memoryDocuments now (Op_Delete s c i) m = (m', r)"
  shows "memory_ok m' \<and> (memory_pack m', r) = pack_spec (Op_Delete s c i) (memory_pack m)"
proof (cases "access_valid s c i")
  case (Inl e)
  then show ?thesis using assms by (auto simp: Documents_Delete_def validateAccess_keys)
next
  case (Inr u)
  obtain m1 docs where mc: "memory_collection s c m = (m1, docs)" by fastforce
  note mc' = memory_collection_effect[OF mc]
  have plain: "plain_place (place_of s)" using Inr access_plain by simp
  have here: "pt_documents (memory_pack m) (place_of s, c, i) = map_of docs i"
    using plain by (simp add: memory_pack_def mc'(1))
  have docs: "distinct (map fst docs)" "list_all is_stable_id (map fst docs)"
    using assms(1) by (simp_all add: memory_ok_def mc'(1))
  show ?thesis
  proof (cases "map_of docs i = None")
    case True
    then show ?thesis
      using assms Inr mc same_collections[OF mc'(3,2)] here by (auto simp: Documents_Delete_def validateAccess_keys)
  next
    case False
    then have m': "m' = set_collection s c (AList.delete i docs) m1" "r = Inr A_Done"
      using assms(2) Inr mc by (auto simp: Documents_Delete_def validateAccess_keys)
    have "memory_ok m'"
      unfolding m' using docs same_collections(2)[OF mc'(3,2)] assms(1)
      by (intro set_collection_ok) (auto simp: distinct_delete list_all_iff delete_keys distinct_removeAll simp del: set_map)
    moreover have "memory_pack m' = memory_pack m\<lparr>pt_documents := (pt_documents (memory_pack m))((place_of s, c, i) := None)\<rparr>"
      unfolding m' memory_written[OF plain] same_collections(1)[OF mc'(3,2)]
      using plain by (auto simp: delete_conv' mc'(1) memory_pack_def fun_eq_iff)
    ultimately show ?thesis using Inr False here by (simp add: m')
  qed
qed

text \<open>The identifiers of a collection in order, beyond \<open>a\<close>.\<close>

lemma sorted_ids:
  assumes "distinct (map fst docs)" and "list_all is_stable_id (map fst docs)"
  shows "sort (filter (\<lambda>i. a = [] \<or> a < i) (map fst docs)) = sorted_list_of_set {i. map_of docs i \<noteq> None \<and> a < i}"
proof -
  let ?ids = "sort (filter (\<lambda>i. a = [] \<or> a < i) (map fst docs))"
  have nonempty: "[] < i" if "i \<in> set (map fst docs)" for i
    using assms(2) that by (cases i) (auto simp: list_all_iff is_stable_id_def)
  have "i \<in> set ?ids \<longleftrightarrow> map_of docs i \<noteq> None \<and> a < i" for i
    using nonempty[of i] by (auto simp: map_of_eq_None_iff simp del: not_None_eq)
  then have ids: "set ?ids = {i. map_of docs i \<noteq> None \<and> a < i}" by blast
  have "distinct ?ids" using assms(1) by simp
  then show ?thesis
    unfolding ids[symmetric] by (simp add: sorted_list_of_set.idem_if_sorted_distinct del: set_map set_sort)
qed

lemma memory_List:
  assumes "memory_ok m" and "memoryDocuments now (Op_List s c n a) m = (m', r)"
  shows "memory_ok m' \<and> (memory_pack m', r) = pack_spec (Op_List s c n a) (memory_pack m)"
proof (cases "list_valid s c n a")
  case (Inl e)
  then show ?thesis using assms by (auto simp: Documents_List_def validateAccess_list)
next
  case (Inr u)
  obtain m1 docs where mc: "memory_collection s c m = (m1, docs)" by fastforce
  note mc' = memory_collection_effect[OF mc]
  have plain: "plain_place (place_of s)"
    using Inr by (auto simp: list_valid_def and_then_Inr valid_place_plain)
  have here: "pt_documents (memory_pack m) (place_of s, c, i) = map_of docs i" for i
    using plain by (simp add: memory_pack_def mc'(1))
  have docs: "distinct (map fst docs)" "list_all is_stable_id (map fst docs)"
    using assms(1) by (simp_all add: memory_ok_def mc'(1))
  have ids: "stored_ids (memory_pack m) (place_of s) c a = sort (filter (\<lambda>i. a = [] \<or> a < i) (map fst docs))"
    unfolding stored_ids_def here sorted_ids[OF docs] ..
  have cut: "(if n < int (length xs) then take (nat n) xs else xs) = take (nat n) xs" for xs :: "string list"
    by simp
  show ?thesis
    using assms Inr mc same_collections[OF mc'(3,2)] memory_meta[OF plain, of m]
    by (simp add: Documents_List_def validateAccess_list Let_def cut ids here)
qed

lemma documents_by_id_map:
  "map_of (documents_by_id ds x) = map_of x ++ map_of (rev (map (\<lambda>d. (pd_id d, pd_payload d)) ds))"
  by (induction ds arbitrary: x) (auto simp: update_conv' map_add_def fun_eq_iff split: option.split)

lemma documents_by_id_keys:
  "distinct (map fst x) \<Longrightarrow> distinct (map fst (documents_by_id ds x)) \<and>
     set (map fst (documents_by_id ds x)) = set (map fst x) \<union> set (map pd_id ds)"
  by (induction ds arbitrary: x) (auto simp: distinct_update dom_update)

lemma collections_by_name_map:
  "map_of (collections_by_name cs x) = map_of x ++ map_of (rev (map (\<lambda>(c, ds). (c, documents_by_id ds [])) cs))"
  by (induction cs x rule: collections_by_name.induct)
    (auto simp: update_conv' map_add_def fun_eq_iff split: option.split)

lemma map_of_rev_distinct: "distinct (map fst xs) \<Longrightarrow> map_of (rev xs) = map_of xs"
  by (rule map_of_inject_set[THEN iffD2]) (simp_all add: rev_map[symmetric])

lemma replaced_collections:
  assumes "distinct (map fst cs)" and "snapshot_content_ok cs"
  shows "collection_at [(k, collections_by_name cs [])] k c =
    (case map_of cs c of None \<Rightarrow> [] | Some ds \<Rightarrow> documents_by_id ds [])"
    and "map_of cs c = Some ds \<Longrightarrow> map_of (documents_by_id ds []) = map_of (map (\<lambda>d. (pd_id d, pd_payload d)) ds)"
    and "map_of cs c = Some ds \<Longrightarrow> distinct (map fst (documents_by_id ds [])) \<and> list_all is_stable_id (map fst (documents_by_id ds []))"
proof -
  have unordered: "map_of (rev (map (\<lambda>(c, ds). (c, documents_by_id ds [])) cs)) = map_of (map (\<lambda>(c, ds). (c, documents_by_id ds [])) cs)"
    using assms(1) by (intro map_of_rev_distinct) (simp add: comp_def case_prod_beta')
  moreover have "map_of (map (\<lambda>(c, ds). (c, documents_by_id ds [])) cs) c = map_option (\<lambda>ds. documents_by_id ds []) (map_of cs c)"
    by (induction cs) auto
  ultimately show "collection_at [(k, collections_by_name cs [])] k c =
    (case map_of cs c of None \<Rightarrow> [] | Some ds \<Rightarrow> documents_by_id ds [])"
    by (auto simp: collection_at_def collections_by_name_map split: option.split)
next
  assume "map_of cs c = Some ds"
  then have ok: "distinct (map pd_id ds)" "list_all (\<lambda>d. is_stable_id (pd_id d)) ds"
    using assms(2) map_of_SomeD[of cs c ds] by (auto simp: snapshot_content_ok_def list_all_iff)
  show "map_of (documents_by_id ds []) = map_of (map (\<lambda>d. (pd_id d, pd_payload d)) ds)"
    using ok(1) by (simp add: documents_by_id_map map_of_rev_distinct comp_def)
  show "distinct (map fst (documents_by_id ds [])) \<and> list_all is_stable_id (map fst (documents_by_id ds []))"
    using documents_by_id_keys[of "[]" ds] ok(2) by (auto simp: list_all_iff)
qed

lemma memory_Replace:
  assumes "memory_ok m" and "distinct (map fst cs)" and "memoryDocuments now (Op_Replace s meta cs) m = (m', r)"
  shows "memory_ok m' \<and> (memory_pack m', r) = pack_spec (Op_Replace s meta cs) (memory_pack m)"
proof (cases "replace_valid s meta cs")
  case (Inl e)
  then show ?thesis
    using assms by (auto simp: Documents_ReplaceSnapshot_def replace_valid_def and_then_def split: sum.splits if_splits)
next
  case (Inr u)
  have v: "scope_kind s = ScopeSystem" "ValidateScope s = Inr ()" "ValidateSnapshot meta cs = Inr ()"
    using Inr by (auto simp: replace_valid_def and_then_Inr split: if_splits)
  have plain: "plain_place (place_of s)" using v(2) by (rule valid_place_plain)
  let ?t = "AList.update (scope_text (place_of s)) (collections_by_name cs []) (mm_documents m)"
  have m': "m' = m\<lparr>mm_documents := ?t, mm_snapshots := AList.update (scope_text (place_of s)) meta (mm_snapshots m)\<rparr>"
    "r = Inr A_Done"
    using assms(3) v by (simp_all add: Documents_ReplaceSnapshot_def)
  note content = replaced_collections[OF assms(2) ValidateSnapshot_content[OF v(3)]]
  have at: "collection_at ?t k c =
    (if k = scope_text (place_of s) then (case map_of cs c of None \<Rightarrow> [] | Some ds \<Rightarrow> documents_by_id ds [])
     else collection_at (mm_documents m) k c)" for k c
    using content(1)[of k c] by (auto simp: collection_at_def update_conv')
  have "memory_ok m'"
    using assms(1) content(3) by (auto simp: m' memory_ok_def at split: option.split)
  moreover have "memory_pack m' = replaced (place_of s) meta cs (memory_pack m)"
    using plain scope_text_inject[of _ "place_of s"] content(2)
    by (auto simp: m' memory_pack_def at replaced_def snapshot_payload_def update_conv' fun_eq_iff split: option.split)
  ultimately show ?thesis using Inr by (simp add: m')
qed

interpretation memory_documents: reliable_port memoryDocuments memory_pack memory_ok
proof
  fix m m' op now and r :: "pack_answer pack_result"
  assume ok: "memory_ok m" and "call_ok op" and run: "memoryDocuments now op m = (m', r)"
  have "memory_ok m' \<and> (memory_pack m', r) = pack_spec op (memory_pack m)"
  proof (cases op)
    case (Op_Get s c i)
    then show ?thesis using memory_Get[OF ok run[unfolded Op_Get]] by simp
  next
    case (Op_List s c n a)
    then show ?thesis using memory_List[OF ok run[unfolded Op_List]] by simp
  next
    case (Op_Put s c i p)
    then show ?thesis using memory_Put[OF ok run[unfolded Op_Put]] by simp
  next
    case (Op_Delete s c i)
    then show ?thesis using memory_Delete[OF ok run[unfolded Op_Delete]] by simp
  next
    case (Op_Replace s meta cs)
    then show ?thesis using memory_Replace[OF ok _ run[unfolded Op_Replace]] \<open>call_ok op\<close> by simp
  qed
  then show "memory_ok m' \<and> ((memory_pack m', r) = pack_spec op (memory_pack m) \<or> call_writes op \<and> engine_failed r \<and> memory_pack m' = memory_pack m)"
    and "(memory_pack m', r) = pack_spec op (memory_pack m)"
    by blast+
qed

end
