(* ===== verification/Pack_Host.thy ===== *)
theory Pack_Host
  imports Pack_Model Dispatcher
begin

text \<open>
  \<open>internal/kernel/packstore/host.go\<close>: the host functions \<open>ailuo.store.get/list/put/delete\<close> that a sandboxed
  package calls. The store behind them is any port; the strict JSON decoder and the encoder are arguments.
\<close>

section \<open>Requests and responses\<close>

definition OpGet :: string where "OpGet = ''get''"
definition OpList :: string where "OpList = ''list''"
definition OpPut :: string where "OpPut = ''put''"
definition OpDelete :: string where "OpDelete = ''delete''"

lemmas store_ops = OpGet_def OpList_def OpPut_def OpDelete_def

definition StoreModule :: string where "StoreModule = ''ailuo.store''"

record key_request =
  kq_scope :: string
  kq_collection :: string
  kq_id :: string

record list_request =
  lq_scope :: string
  lq_collection :: string
  lq_limit :: int
  lq_after_id :: string

record put_request = key_request +
  kq_doc :: string

datatype store_response = S_Get document_read | S_List collection_read | S_Empty | S_Deleted bool

record store_codec =
  sc_decode_key :: "string \<Rightarrow> key_request option"
  sc_decode_list :: "string \<Rightarrow> list_request option"
  sc_decode_put :: "string \<Rightarrow> put_request option"
  sc_encode :: "store_response \<Rightarrow> string go_result"

section \<open>Scope and authorization\<close>

definition scopeFor :: "request_context \<Rightarrow> string \<Rightarrow> scope pack_result" where
  "scopeFor rq declared =
     (if declared = ScopeSystem \<or> declared = []
        then Inr \<lparr>sc_app_id = rc_app_id rq, sc_package_id = [], sc_namespace = [], sc_user_id = []\<rparr>
      else if declared = ScopeUser then
        (if rc_user_id rq = [] then Inl (Pack_Wrapped Pack_InvalidScope)
         else Inr \<lparr>sc_app_id = rc_app_id rq, sc_package_id = [], sc_namespace = [], sc_user_id = rc_user_id rq\<rparr>)
      else Inl (Pack_Wrapped Pack_InvalidScope))"

definition bindScope :: "string \<Rightarrow> string \<Rightarrow> request_context \<Rightarrow> string \<Rightarrow> string \<Rightarrow> scope pack_result" where
  "bindScope package namespace rq operation declared =
     (case scopeFor rq declared of Inl e \<Rightarrow> Inl e | Inr partial \<Rightarrow>
        if (operation = OpPut \<or> operation = OpDelete) \<and> scope_kind partial \<noteq> ScopeUser
          then Inl (Pack_Wrapped Pack_AccessDenied)
        else let scope = \<lparr>sc_app_id = sc_app_id partial, sc_package_id = package, sc_namespace = namespace,
                          sc_user_id = sc_user_id partial\<rparr>
             in (case ValidateScope scope of Inl e \<Rightarrow> Inl e | Inr _ \<Rightarrow> Inr scope))"

text \<open>The map of the capabilities by identifier; a later one replaces an earlier one.\<close>

definition capability_by_id :: "capability_spec list \<Rightarrow> string \<Rightarrow> capability_spec option" where
  "capability_by_id specs = map_of (rev (map (\<lambda>c. (cs_id c, c)) specs))"

definition authorizeStoreOperation ::
  "request_context \<Rightarrow> string \<Rightarrow> (string \<Rightarrow> capability_spec option) \<Rightarrow> unit pack_result" where
  "authorizeStoreOperation rq operation capabilities =
     (case capabilities (rc_capability_id rq) of None \<Rightarrow> pack_fail Pack_AccessDenied | Some spec \<Rightarrow>
        if es_effect_target (cs_execution spec) \<noteq> EffectState \<and> es_effect_target (cs_execution spec) \<noteq> EffectExternal
        then (if operation = OpPut \<or> operation = OpDelete then pack_fail Pack_AccessDenied else Inr ())
        else if es_replay (cs_execution spec) \<noteq> ReplayIdempotencyKey \<or> rc_idempotency_key rq = [] \<or>
                (es_confirmation_floor (cs_execution spec) = ConfirmationRequired \<and> rc_confirmation_id rq = [])
        then pack_fail Pack_AccessDenied
        else Inr ())"

section \<open>The handlers\<close>

type_synonym 's store_step = "instant \<Rightarrow> pack_op \<Rightarrow> 's \<Rightarrow> 's \<times> pack_answer pack_result"

abbreviation decode_failed :: "'a pack_result" where
  "decode_failed \<equiv> Inl (Pack_Wrapped Pack_InvalidKey)"

definition handle_get ::
  "'s store_step \<Rightarrow> store_codec \<Rightarrow> string \<Rightarrow> string \<Rightarrow> instant \<Rightarrow> request_context \<Rightarrow> string \<Rightarrow> 's \<Rightarrow>
     's \<times> store_response pack_result" where
  "handle_get step codec package namespace now rq body s =
     (case sc_decode_key codec body of None \<Rightarrow> (s, decode_failed) | Some q \<Rightarrow>
     (case bindScope package namespace rq OpGet (kq_scope q) of Inl e \<Rightarrow> (s, Inl e) | Inr scope \<Rightarrow>
     (case ValidateCollection (kq_collection q) of Inl e \<Rightarrow> (s, Inl e) | Inr _ \<Rightarrow>
     (case ValidateDocID (kq_id q) of Inl e \<Rightarrow> (s, Inl e) | Inr _ \<Rightarrow>
     (case step now (Op_Get scope (kq_collection q) (kq_id q)) s of
        (s', Inl e) \<Rightarrow> (s', Inl e)
      | (s', Inr (A_Document read)) \<Rightarrow> (s', Inr (S_Get read))
      | (s', Inr _) \<Rightarrow> (s', Inr S_Empty))))))"

definition handle_list ::
  "'s store_step \<Rightarrow> store_codec \<Rightarrow> string \<Rightarrow> string \<Rightarrow> instant \<Rightarrow> request_context \<Rightarrow> string \<Rightarrow> 's \<Rightarrow>
     's \<times> store_response pack_result" where
  "handle_list step codec package namespace now rq body s =
     (case sc_decode_list codec body of None \<Rightarrow> (s, decode_failed) | Some q \<Rightarrow>
     (case bindScope package namespace rq OpList (lq_scope q) of Inl e \<Rightarrow> (s, Inl e) | Inr scope \<Rightarrow>
     (case ValidateCollection (lq_collection q) of Inl e \<Rightarrow> (s, Inl e) | Inr _ \<Rightarrow>
      if lq_limit q < 1 \<or> MaxListLimit < lq_limit q then (s, pack_fail Pack_InvalidKey)
      else if lq_after_id q \<noteq> [] \<and> ValidateDocID (lq_after_id q) \<noteq> Inr () then (s, pack_fail Pack_InvalidKey)
      else (case step now (Op_List scope (lq_collection q) (lq_limit q) (lq_after_id q)) s of
          (s', Inl e) \<Rightarrow> (s', Inl e)
        | (s', Inr (A_Collection read)) \<Rightarrow> (s', Inr (S_List read))
        | (s', Inr _) \<Rightarrow> (s', Inr S_Empty)))))"

definition handle_put ::
  "'s store_step \<Rightarrow> store_codec \<Rightarrow> string \<Rightarrow> string \<Rightarrow> instant \<Rightarrow> request_context \<Rightarrow> string \<Rightarrow> 's \<Rightarrow>
     's \<times> store_response pack_result" where
  "handle_put step codec package namespace now rq body s =
     (case sc_decode_put codec body of None \<Rightarrow> (s, decode_failed) | Some q \<Rightarrow>
     (case bindScope package namespace rq OpPut (kq_scope q) of Inl e \<Rightarrow> (s, Inl e) | Inr scope \<Rightarrow>
     (case ValidateCollection (kq_collection q) of Inl e \<Rightarrow> (s, Inl e) | Inr _ \<Rightarrow>
     (case ValidateDocID (kq_id q) of Inl e \<Rightarrow> (s, Inl e) | Inr _ \<Rightarrow>
     (case ValidatePayload (kq_doc q) of Inl e \<Rightarrow> (s, Inl e) | Inr _ \<Rightarrow>
     (case step now (Op_Put scope (kq_collection q) (kq_id q) (kq_doc q)) s of
        (s', Inl e) \<Rightarrow> (s', Inl e)
      | (s', Inr _) \<Rightarrow> (s', Inr S_Empty)))))))"

definition handle_delete ::
  "'s store_step \<Rightarrow> store_codec \<Rightarrow> string \<Rightarrow> string \<Rightarrow> instant \<Rightarrow> request_context \<Rightarrow> string \<Rightarrow> 's \<Rightarrow>
     's \<times> store_response pack_result" where
  "handle_delete step codec package namespace now rq body s =
     (case sc_decode_key codec body of None \<Rightarrow> (s, decode_failed) | Some q \<Rightarrow>
     (case bindScope package namespace rq OpDelete (kq_scope q) of Inl e \<Rightarrow> (s, Inl e) | Inr scope \<Rightarrow>
     (case ValidateCollection (kq_collection q) of Inl e \<Rightarrow> (s, Inl e) | Inr _ \<Rightarrow>
     (case ValidateDocID (kq_id q) of Inl e \<Rightarrow> (s, Inl e) | Inr _ \<Rightarrow>
     (case step now (Op_Delete scope (kq_collection q) (kq_id q)) s of
        (s', Inl e) \<Rightarrow> (s', if pack_is e Pack_NotFound then Inr (S_Deleted False) else Inl e)
      | (s', Inr _) \<Rightarrow> (s', Inr (S_Deleted True)))))))"

text \<open>The four functions of a package, by name; an unknown name has none.\<close>

definition handler_of ::
  "string \<Rightarrow> ('s store_step \<Rightarrow> store_codec \<Rightarrow> string \<Rightarrow> string \<Rightarrow> instant \<Rightarrow> request_context \<Rightarrow> string \<Rightarrow> 's \<Rightarrow>
     's \<times> store_response pack_result) option" where
  "handler_of operation =
     (if operation = OpGet then Some handle_get else if operation = OpList then Some handle_list
      else if operation = OpPut then Some handle_put else if operation = OpDelete then Some handle_delete else None)"

definition HostFunctions ::
  "'s store_step \<Rightarrow> store_codec \<Rightarrow> string \<Rightarrow> string \<Rightarrow> capability_spec list \<Rightarrow> string \<Rightarrow>
     (instant \<Rightarrow> request_context \<Rightarrow> string \<Rightarrow> 's \<Rightarrow> 's \<times> string pack_result) option" where
  "HostFunctions step codec package namespace capabilities operation =
     map_option (\<lambda>h now rq body s.
       case authorizeStoreOperation rq operation (capability_by_id capabilities) of Inl e \<Rightarrow> (s, Inl e) | Inr _ \<Rightarrow>
       (case h step codec package namespace now rq body s of
          (s', Inl e) \<Rightarrow> (s', Inl e)
        | (s', Inr response) \<Rightarrow>
            (s', case sc_encode codec response of Inl e \<Rightarrow> Inl (Pack_Other e) | Inr out \<Rightarrow> Inr out)))
       (handler_of operation)"

text \<open>\<open>ManifestFunctions\<close>, on the fields of \<open>loader.Manifest\<close> that it reads.\<close>

record store_manifest =
  sf_package_id :: string
  sf_host_modules :: "string list"
  sf_storage :: "string option"
  sf_capabilities :: "capability_spec list"

definition ManifestFunctions ::
  "'s store_step \<Rightarrow> store_codec \<Rightarrow> store_manifest \<Rightarrow>
     (string \<Rightarrow> (instant \<Rightarrow> request_context \<Rightarrow> string \<Rightarrow> 's \<Rightarrow> 's \<times> string pack_result) option) go_result" where
  "ManifestFunctions step codec m =
     (if StoreModule \<notin> set (sf_host_modules m) then Inr (\<lambda>_. None)
      else (case sf_storage m of
          None \<Rightarrow> Inl (Wrapped (Sentinel (Loader_E Loader_InvalidManifest)))
        | Some namespace \<Rightarrow>
            if sf_package_id m = [] then Inl (Wrapped (Sentinel (Loader_E Loader_InvalidManifest)))
            else if \<not> ValidateStorage namespace then Inl (Wrapped (Sentinel (Loader_E Loader_InvalidManifest)))
            else Inr (HostFunctions step codec (sf_package_id m) namespace (sf_capabilities m))))"

end
