(* ===== verification/Pack_Guarantees.thy ===== *)
theory Pack_Guarantees
  imports Pack_Store Pack_Memory Pack_Host
begin

text \<open>
  What the package storage promises: both stores answer alike, a package writes only to the personal
  documents of its caller and reads only these and the public ones, and the public documents of a namespace
  are those of its last complete snapshot.
\<close>

section \<open>A host call over any port\<close>

text \<open>What a call must carry before a package may write.\<close>

definition guest_may_write :: "request_context \<Rightarrow> capability_spec list \<Rightarrow> string \<Rightarrow> bool" where
  "guest_may_write rq capabilities operation \<longleftrightarrow>
     (operation = OpPut \<or> operation = OpDelete) \<and> rc_user_id rq \<noteq> [] \<and>
     (\<exists>spec \<in> set capabilities.
        cs_id spec = rc_capability_id rq \<and> es_effect_target (cs_execution spec) \<in> {EffectState, EffectExternal} \<and>
        es_replay (cs_execution spec) = ReplayIdempotencyKey \<and> rc_idempotency_key rq \<noteq> [] \<and>
        (es_confirmation_floor (cs_execution spec) \<noteq> ConfirmationRequired \<or> rc_confirmation_id rq \<noteq> []))"

definition own_places :: "request_context \<Rightarrow> string \<Rightarrow> doc_place set" where
  "own_places rq namespace = {(rc_app_id rq, [], namespace), (rc_app_id rq, rc_user_id rq, namespace)}"

lemma bindScope_ok:
  assumes "bindScope package namespace rq operation declared = Inr scope"
  shows "ValidateScope scope = Inr () \<and> place_of scope \<in> own_places rq namespace \<and>
    (operation = OpPut \<or> operation = OpDelete \<longrightarrow>
       rc_user_id rq \<noteq> [] \<and> place_of scope = (rc_app_id rq, rc_user_id rq, namespace))"
  using assms
  by (auto simp: bindScope_def scopeFor_def scope_kind_def ScopeSystem_def ScopeUser_def place_of_def own_places_def Let_def
      split: if_splits sum.splits)

lemma authorized_write:
  assumes "authorizeStoreOperation rq operation (capability_by_id capabilities) = Inr ()"
    and "operation = OpPut \<or> operation = OpDelete" and "rc_user_id rq \<noteq> []"
  shows "guest_may_write rq capabilities operation"
proof -
  obtain spec where "map_of (rev (map (\<lambda>c. (cs_id c, c)) capabilities)) (rc_capability_id rq) = Some spec"
    and spec: "es_effect_target (cs_execution spec) \<in> {EffectState, EffectExternal}"
      "es_replay (cs_execution spec) = ReplayIdempotencyKey" "rc_idempotency_key rq \<noteq> []"
      "es_confirmation_floor (cs_execution spec) \<noteq> ConfirmationRequired \<or> rc_confirmation_id rq \<noteq> []"
    using assms by (auto simp: authorizeStoreOperation_def capability_by_id_def split: option.splits if_splits)
  then have "spec \<in> set capabilities \<and> cs_id spec = rc_capability_id rq"
    by (auto dest!: map_of_SomeD)
  then show ?thesis using spec assms(2,3) by (auto simp: guest_may_write_def)
qed

context document_port
begin

lemma handle_get_effect:
  "inv s \<Longrightarrow> handle_get step codec package namespace now rq body s = (s', r) \<Longrightarrow> inv s' \<and> abs s' = abs s"
  using read_answered[of s "Op_Get x y z" now s' for x y z]
  by (auto simp: handle_get_def split: option.splits sum.splits prod.splits pack_answer.splits)

lemma handle_list_effect:
  "inv s \<Longrightarrow> handle_list step codec package namespace now rq body s = (s', r) \<Longrightarrow> inv s' \<and> abs s' = abs s"
  using read_answered[of s "Op_List x y z u" now s' for x y z u]
  by (auto simp: handle_list_def split: option.splits sum.splits prod.splits pack_answer.splits if_splits)

text \<open>A write ends in one call of the store, in the personal scope of the caller, or before it.\<close>

lemma handle_put_steps:
  assumes "handle_put step codec package namespace now rq body s = (s', r)" and "s' \<noteq> s"
  obtains scope c i p a where "step now (Op_Put scope c i p) s = (s', a)" and "rc_user_id rq \<noteq> []"
    and "place_of scope = (rc_app_id rq, rc_user_id rq, namespace)"
  using assms bindScope_ok[of package namespace rq OpPut]
  by (fastforce simp: handle_put_def split: option.splits sum.splits prod.splits)

lemma handle_delete_steps:
  assumes "handle_delete step codec package namespace now rq body s = (s', r)" and "s' \<noteq> s"
  obtains scope c i a where "step now (Op_Delete scope c i) s = (s', a)" and "rc_user_id rq \<noteq> []"
    and "place_of scope = (rc_app_id rq, rc_user_id rq, namespace)"
  using assms bindScope_ok[of package namespace rq OpDelete]
  by (fastforce simp: handle_delete_def split: option.splits sum.splits prod.splits)

lemma hosted_effect:
  assumes "inv s" and "HostFunctions step codec package namespace capabilities operation = Some f"
    and "f now rq body s = (s', r)"
  shows "inv s' \<and> (abs s' = abs s \<or> guest_may_write rq capabilities operation \<and>
    (\<forall>p. p \<noteq> (rc_app_id rq, rc_user_id rq, namespace) \<longrightarrow> place_part p (abs s') = place_part p (abs s)) \<and>
    pt_snapshots (abs s') = pt_snapshots (abs s))"
proof (cases "s' = s")
  case False
  obtain h x where h: "handler_of operation = Some h" "authorizeStoreOperation rq operation (capability_by_id capabilities) = Inr ()"
    "h step codec package namespace now rq body s = (s', x)"
    using assms(2,3) False by (auto simp: HostFunctions_def split: sum.splits prod.splits)
  have snapshots: "pt_snapshots (fst (pack_spec op st)) = pt_snapshots st" if "call_ok op" "\<forall>x m cs. op \<noteq> Op_Replace x m cs" for op st
    using that by (cases op) (auto split: sum.split)
  consider "h = handle_get" | "h = handle_list" | "h = handle_put" "operation = OpPut" | "h = handle_delete" "operation = OpDelete"
    using h(1) by (auto simp: handler_of_def split: if_splits)
  then show ?thesis
  proof cases
    case 3
    obtain scope c i p a where run: "step now (Op_Put scope c i p) s = (s', a)" "rc_user_id rq \<noteq> []"
      and place: "place_of scope = (rc_app_id rq, rc_user_id rq, namespace)"
      using handle_put_steps h(3) 3(1) False by metis
    have "guest_may_write rq capabilities operation" using authorized_write h(2) 3(2) run(2) by blast
    moreover have "place_part p' (abs s') = place_part p' (abs s)" if "p' \<noteq> (rc_app_id rq, rc_user_id rq, namespace)" for p'
      using other_places_kept[OF assms(1) _ run(1)] that place by simp
    moreover have "pt_snapshots (abs s') = pt_snapshots (abs s)"
      using law[OF assms(1) _ run(1)] snapshots[of "Op_Put scope c i p" "abs s"] by (metis fst_conv call_ok.simps(3) pack_op.distinct)
    ultimately show ?thesis using kept[OF assms(1) _ run(1)] by simp
  next
    case 4
    obtain scope c i a where run: "step now (Op_Delete scope c i) s = (s', a)" "rc_user_id rq \<noteq> []"
      and place: "place_of scope = (rc_app_id rq, rc_user_id rq, namespace)"
      using handle_delete_steps h(3) 4(1) False by metis
    have "guest_may_write rq capabilities operation" using authorized_write h(2) 4(2) run(2) by blast
    moreover have "place_part p' (abs s') = place_part p' (abs s)" if "p' \<noteq> (rc_app_id rq, rc_user_id rq, namespace)" for p'
      using other_places_kept[OF assms(1) _ run(1)] that place by simp
    moreover have "pt_snapshots (abs s') = pt_snapshots (abs s)"
      using law[OF assms(1) _ run(1)] snapshots[of "Op_Delete scope c i" "abs s"] by (metis fst_conv call_ok.simps(4) pack_op.distinct)
    ultimately show ?thesis using kept[OF assms(1) _ run(1)] by simp
  qed (use h(3) handle_get_effect[OF assms(1)] handle_list_effect[OF assms(1)] in blast)+
qed (use assms(1) in simp)

text \<open>What a package reads depends on the public documents and those of its caller only.\<close>

lemma same_read:
  assumes "inv s" and "inv t" and "\<not> call_writes op" and "call_ok op"
    and "place_part (place_of (call_scope op)) (abs s) = place_part (place_of (call_scope op)) (abs t)"
  shows "snd (step now op s) = snd (step now op t)"
proof -
  obtain s' r t' q where runs: "step now op s = (s', r)" "step now op t = (t', q)" by fastforce
  show ?thesis
    using read_answered[OF assms(1,3,4) runs(1)] read_answered[OF assms(2,3,4) runs(2)] reads_place[OF assms(5,3)] runs
    by simp
qed

lemma hosted_read:
  assumes "inv s" and "inv t" and "operation = OpGet \<or> operation = OpList"
    and "HostFunctions step codec package namespace capabilities operation = Some f"
    and "\<forall>p \<in> own_places rq namespace. place_part p (abs s) = place_part p (abs t)"
  shows "snd (f now rq body s) = snd (f now rq body t)"
proof -
  have bound: "snd (step now op s) = snd (step now op t)"
    if "bindScope package namespace rq x y = Inr scope" "call_scope op = scope" "\<not> call_writes op" for x y op scope
    using same_read[OF assms(1,2) that(3), of now] bindScope_ok[OF that(1)] assms(5) that(2,3) by (cases op) auto
  have get: "snd (handle_get step codec package namespace now rq body s) = snd (handle_get step codec package namespace now rq body t)"
  proof (cases "sc_decode_key codec body")
    case (Some q)
    show ?thesis
    proof (cases "bindScope package namespace rq OpGet (kq_scope q)")
      case (Inr scope)
      obtain s' t' a where "step now (Op_Get scope (kq_collection q) (kq_id q)) s = (s', a)"
        "step now (Op_Get scope (kq_collection q) (kq_id q)) t = (t', a)"
        using bound[OF Inr, of "Op_Get scope (kq_collection q) (kq_id q)"] by (cases "step now (Op_Get scope (kq_collection q) (kq_id q)) s", cases "step now (Op_Get scope (kq_collection q) (kq_id q)) t") auto
      then show ?thesis
        using Some Inr by (simp add: handle_get_def del: Validate_key_ok split: sum.split pack_answer.split)
    qed (use Some in \<open>simp add: handle_get_def\<close>)
  qed (simp add: handle_get_def)
  have list: "snd (handle_list step codec package namespace now rq body s) = snd (handle_list step codec package namespace now rq body t)"
  proof (cases "sc_decode_list codec body")
    case (Some q)
    show ?thesis
    proof (cases "bindScope package namespace rq OpList (lq_scope q)")
      case (Inr scope)
      obtain s' t' a where "step now (Op_List scope (lq_collection q) (lq_limit q) (lq_after_id q)) s = (s', a)"
        "step now (Op_List scope (lq_collection q) (lq_limit q) (lq_after_id q)) t = (t', a)"
        using bound[OF Inr, of "Op_List scope (lq_collection q) (lq_limit q) (lq_after_id q)"] by (cases "step now (Op_List scope (lq_collection q) (lq_limit q) (lq_after_id q)) s", cases "step now (Op_List scope (lq_collection q) (lq_limit q) (lq_after_id q)) t") auto
      then show ?thesis
        using Some Inr by (cases "lq_after_id q = []")
          (simp_all add: handle_list_def del: Validate_key_ok split: sum.split pack_answer.split)
    qed (use Some in \<open>simp add: handle_list_def\<close>)
  qed (simp add: handle_list_def)
  obtain h where h: "handler_of operation = Some h"
    "snd (h step codec package namespace now rq body s) = snd (h step codec package namespace now rq body t)"
    using assms(3) get list by (auto simp: handler_of_def store_ops)
  obtain s' t' x where "h step codec package namespace now rq body s = (s', x)"
    "h step codec package namespace now rq body t = (t', x)"
    using h(2) by (metis prod.collapse)
  moreover have "f now rq body u =
      (case authorizeStoreOperation rq operation (capability_by_id capabilities) of Inl e \<Rightarrow> (u, Inl e) | Inr _ \<Rightarrow>
       (case h step codec package namespace now rq body u of
          (s', Inl e) \<Rightarrow> (s', Inl e)
        | (s', Inr response) \<Rightarrow>
            (s', case sc_encode codec response of Inl e \<Rightarrow> Inl (Pack_Other e) | Inr out \<Rightarrow> Inr out)))" for u
    using assms(4) h(1) by (auto simp: HostFunctions_def)
  ultimately show ?thesis by (simp split: sum.split)
qed

end

section \<open>The properties\<close>

text \<open>C34: 
  The two stores answer every sequence of calls alike, beginning empty and at any times of the calls, as
  long as the SQLite engine rejects no row.
\<close>

theorem package_stores_equivalent:
  assumes "list_all (\<lambda>(now, op). call_ok op) calls"
    and "run_ops (packageDocuments drv) calls empty_pack_db = (db, answers)"
    and "list_all (\<lambda>r. \<not> engine_failed r) answers"
  shows "\<exists>m. run_ops memoryDocuments calls NewDocuments = (m, answers)"
proof -
  have spec: "run_ops (\<lambda>_. pack_spec) calls empty_pack = (db_pack db, answers)"
    using sqlite_documents.run_answered[OF _ assms(1,2,3)] by simp
  obtain m rs where m: "run_ops memoryDocuments calls NewDocuments = (m, rs)"
    "run_ops (\<lambda>_. pack_spec) calls (memory_pack NewDocuments) = (memory_pack m, rs)"
    using memory_documents.always_answered[OF _ assms(1)] NewDocuments_ok(1) by metis
  then show ?thesis using spec by simp
qed

text \<open>C35: 
  A host call of a package changes nothing but personal documents of the user it is made for, in the
  namespace of the package, and this only under a capability that is declared to have effects and is called
  with an idempotency key and, where one is demanded, a confirmation.
\<close>

theorem guest_writes_own_documents:
  assumes "pack_db_ok drv db" and "HostFunctions (packageDocuments drv) codec package namespace capabilities operation = Some f"
    and "f now rq body db = (db', r)" and "db_pack db' \<noteq> db_pack db"
  shows "guest_may_write rq capabilities operation \<and>
    (\<forall>p. p \<noteq> (rc_app_id rq, rc_user_id rq, namespace) \<longrightarrow> place_part p (db_pack db') = place_part p (db_pack db))"
  using sqlite_documents.hosted_effect[OF assms(1-3)] assms(4) by blast+

text \<open>C36: 
  What a package reads depends on nothing but the public documents of its namespace in the App and those of
  the user the call is made for.
\<close>

theorem guest_reads_own_and_public:
  assumes "pack_db_ok drv db" and "pack_db_ok drv db'" and "operation = OpGet \<or> operation = OpList"
    and "HostFunctions (packageDocuments drv) codec package namespace capabilities operation = Some f"
    and "\<forall>p \<in> own_places rq namespace. place_part p (db_pack db) = place_part p (db_pack db')"
  shows "snd (f now rq body db) = snd (f now rq body db')"
  by (rule sqlite_documents.hosted_read[OF assms])

text \<open>
  The histories of a database: host calls of any package with any request, and imports. \<open>latest\<close> records the
  last import of each place that succeeded.
\<close>

inductive pack_history :: "sql_driver \<Rightarrow> pack_db \<Rightarrow> (doc_place \<Rightarrow> (snapshot_meta \<times> collections) option) \<Rightarrow> bool" for drv where
  start: "pack_history drv empty_pack_db (\<lambda>_. None)"
| guest: "pack_history drv db latest \<Longrightarrow>
    HostFunctions (packageDocuments drv) codec package namespace capabilities operation = Some f \<Longrightarrow>
    f now rq body db = (db', r) \<Longrightarrow> pack_history drv db' latest"
| imported: "pack_history drv db latest \<Longrightarrow> distinct (map fst cs) \<Longrightarrow>
    packageDocuments_ReplaceSnapshot drv now s m cs db = (db', Inr ()) \<Longrightarrow>
    pack_history drv db' (latest(place_of s \<mapsto> (m, cs)))"
| refused: "pack_history drv db latest \<Longrightarrow> distinct (map fst cs) \<Longrightarrow>
    packageDocuments_ReplaceSnapshot drv now s m cs db = (db', Inl e) \<Longrightarrow> pack_history drv db' latest"

definition public_part :: "(snapshot_meta \<times> collections) option \<Rightarrow> (string \<Rightarrow> string \<Rightarrow> string option) \<times> snapshot_meta option" where
  "public_part x = (case x of None \<Rightarrow> ((\<lambda>_ _. None), None) | Some (m, cs) \<Rightarrow> (snapshot_payload cs, Some m))"

lemma replaced_part:
  "place_part q (replaced p m cs st) = (if q = p then public_part (Some (m, cs)) else place_part q st)"
  by (auto simp: place_part_def replaced_def public_part_def)

lemma history_public:
  assumes "pack_history drv db latest"
  shows "pack_db_ok drv db \<and> (\<forall>app ns. place_part (app, [], ns) (db_pack db) = public_part (latest (app, [], ns)))"
  using assms
proof induction
  case start
  then show ?case by (simp add: place_part_def public_part_def empty_pack_def)
next
  case (guest db latest codec package namespace capabilities operation f now rq body db' r)
  have "pack_db_ok drv db' \<and> (db_pack db' = db_pack db \<or> guest_may_write rq capabilities operation \<and>
      (\<forall>p. p \<noteq> (rc_app_id rq, rc_user_id rq, namespace) \<longrightarrow> place_part p (db_pack db') = place_part p (db_pack db)))"
    using sqlite_documents.hosted_effect guest.IH guest.hyps(2,3) by blast
  then show ?case using guest.IH by (auto simp: guest_may_write_def)
next
  case (imported db latest cs now s m db')
  have run: "packageDocuments drv now (Op_Replace s m cs) db = (db', Inr A_Done)" using imported.hyps(3) by simp
  have "db_pack db' = replaced (place_of s) m cs (db_pack db)"
    using sqlite_documents.answered[OF _ _ run] imported.IH imported.hyps(2) by (auto split: sum.splits)
  then show ?case
    using sqlite_documents.kept[OF _ _ run] imported.IH imported.hyps(2) by (auto simp: replaced_part)
next
  case (refused db latest cs now s m db' e)
  have run: "packageDocuments drv now (Op_Replace s m cs) db = (db', Inl e)" using refused.hyps(3) by simp
  show ?case
    using sqlite_documents.kept[OF _ _ run] sqlite_documents.failed_kept[OF _ _ run] refused.IH refused.hyps(2) by simp
qed

text \<open>C37: 
  Whatever packages and importers do, a read of a public document gives the metadata and the document of
  the last import of the namespace that succeeded: never a mixture of two, never anything a package wrote.
\<close>

theorem public_documents_from_snapshot:
  assumes "pack_history drv db latest" and "ValidateScope s = Inr ()" and "scope_kind s = ScopeSystem"
    and "is_stable_id c" and "is_stable_id i"
  shows "packageDocuments_Get s c i db = Inr
    \<lparr>dr_meta = map_option fst (latest (place_of s)),
     dr_document = (case latest (place_of s) of None \<Rightarrow> None
       | Some (m, cs) \<Rightarrow> map_option (\<lambda>p. \<lparr>pd_id = i, pd_payload = p\<rparr>) (snapshot_payload cs c i))\<rparr>"
proof -
  have "sc_user_id s = []" using assms(3) by (auto simp: scope_kind_def ScopeSystem_def ScopeUser_def split: if_splits)
  then have "place_part (place_of s) (db_pack db) = public_part (latest (place_of s))"
    using history_public[OF assms(1)] by (simp add: place_of_def)
  then have part: "pt_snapshots (db_pack db) (place_of s) = map_option fst (latest (place_of s))"
    "pt_documents (db_pack db) (place_of s, c, i) = Option.bind (latest (place_of s)) (\<lambda>(m, cs). snapshot_payload cs c i)"
    by (auto simp: place_part_def public_part_def fun_eq_iff split: option.splits)
  have "and_then (packageDocuments_Get s c i db) (\<lambda>x. Inr (A_Document x)) =
    Inr (A_Document \<lparr>dr_meta = visible_meta (db_pack db) s, dr_document = stored_document (db_pack db) (place_of s) c i\<rparr>)"
    unfolding Get_refines using assms(2,4,5) by (simp add: access_valid_def ValidateCollection_def ValidateDocID_def)
  then show ?thesis
    using assms(3) part
    by (auto simp: and_then_Inr visible_meta_def stored_document_def ScopeSystem_def ScopeUser_def split: option.splits)
qed

end
