(* ===== verification/Pack_Samples.thy ===== *)
theory Pack_Samples
  imports Pack_Guarantees
begin

text \<open>The statements on the package storage, applied to a timetable package with one snapshot and one user.\<close>

definition public_scope :: scope where
  "public_scope = \<lparr>sc_app_id = ''campus'', sc_package_id = ''bus'', sc_namespace = ''bus/data'', sc_user_id = []\<rparr>"

definition user_scope :: "string \<Rightarrow> scope" where
  "user_scope u = public_scope\<lparr>sc_user_id := u\<rparr>"

definition bus_meta :: snapshot_meta where
  "bus_meta = \<lparr>sm_revision = ''r1'', sm_source = ''school'', sm_authoritative = True, sm_complete = True,
     sm_imported_at = 10, sm_valid_until = 20\<rparr>"

definition bus_lines :: collections where
  "bus_lines = [(''lines'', [\<lparr>pd_id = ''b'', pd_payload = ''2''\<rparr>, \<lparr>pd_id = ''a'', pd_payload = ''1''\<rparr>])]"

definition bus_calls :: "(instant \<times> pack_op) list" where
  "bus_calls =
     [(11, Op_Replace public_scope bus_meta bus_lines), (12, Op_Put (user_scope ''u1'') ''notes'' ''n'' ''3''),
      (13, Op_Get (user_scope ''u1'') ''notes'' ''n''), (14, Op_List public_scope ''lines'' 10 []),
      (15, Op_Delete (user_scope ''u1'') ''notes'' ''n''), (16, Op_Delete (user_scope ''u1'') ''notes'' ''n'')]"

definition bus_answers :: "pack_answer pack_result list" where
  "bus_answers =
     [Inr A_Done, Inr A_Done, Inr (A_Document \<lparr>dr_meta = None, dr_document = Some \<lparr>pd_id = ''n'', pd_payload = ''3''\<rparr>\<rparr>),
      Inr (A_Collection \<lparr>lr_meta = Some bus_meta,
             lr_documents = [\<lparr>pd_id = ''a'', pd_payload = ''1''\<rparr>, \<lparr>pd_id = ''b'', pd_payload = ''2''\<rparr>]\<rparr>),
      Inr A_Done, pack_fail Pack_NotFound]"

lemma bus_run: "snd (run_ops (packageDocuments millisecond_driver) bus_calls empty_pack_db) = bus_answers"
  by code_simp

theorem package_stores_equivalent_witness: "\<exists>m. run_ops memoryDocuments bus_calls NewDocuments = (m, bus_answers)"
  by (rule package_stores_equivalent[of bus_calls millisecond_driver "fst (run_ops (packageDocuments millisecond_driver) bus_calls empty_pack_db)"])
    (simp_all add: bus_run prod_eq_iff, simp_all add: bus_calls_def bus_answers_def bus_lines_def)

section \<open>A package on this store\<close>

definition note_writer :: capability_spec where
  "note_writer =
     \<lparr>cs_id = ''bus.note'', cs_version = ''1.0.0'', cs_name = ''Note'', cs_description = ''Keeps a note'',
      cs_input_schema = ''{}'',
      cs_authorization = \<lparr>as_resource_type = ''note'', as_resource_id_from = [], as_principal = PrincipalCurrentUser\<rparr>,
      cs_execution = \<lparr>es_effect_target = EffectState, es_replay = ReplayIdempotencyKey,
                      es_confirmation_floor = ConfirmationPolicy\<rparr>\<rparr>"

definition note_call :: request_context where
  "note_call =
     \<lparr>rc_app_id = ''campus'', rc_echo_id = ''e1'', rc_request_id = ''q1'', rc_trace_id = [], rc_user_id = ''u1'',
      rc_session_id = ''s1'', rc_run_id = ''r1'', rc_parent_run_id = [], rc_call_id = ''c1'', rc_call_depth = 0,
      rc_deadline = 0, rc_idempotency_key = ''k1'', rc_confirmation_id = [], rc_protocol_version = ''1'',
      rc_capability_id = ''bus.note'', rc_call_chain = [], rc_calls_used = 0, rc_cost_used = 0, rc_lease_token = [],
      rc_run_grants = []\<rparr>"

text \<open>A codec that takes the body for the scope of the request.\<close>

definition note_codec :: store_codec where
  "note_codec =
     \<lparr>sc_decode_key = (\<lambda>body. Some \<lparr>kq_scope = body, kq_collection = ''notes'', kq_id = ''n''\<rparr>),
      sc_decode_list = (\<lambda>body. None),
      sc_decode_put = (\<lambda>body. Some \<lparr>kq_scope = body, kq_collection = ''notes'', kq_id = ''n'', kq_doc = ''3''\<rparr>),
      sc_encode = (\<lambda>response. case response of
         S_Get read \<Rightarrow> Inr (case dr_document read of None \<Rightarrow> [] | Some d \<Rightarrow> pd_payload d) | _ \<Rightarrow> Inr ''ok'')\<rparr>"

abbreviation bus_function :: "string \<Rightarrow> (instant \<Rightarrow> request_context \<Rightarrow> string \<Rightarrow> pack_db \<Rightarrow> pack_db \<times> string pack_result) option" where
  "bus_function \<equiv> HostFunctions (packageDocuments millisecond_driver) note_codec ''bus'' ''bus/data'' [note_writer]"

definition note_of :: "string \<Rightarrow> pack_db" where
  "note_of u =
     \<lparr>kb_documents = [\<lparr>dw_app_id = ''campus'', dw_user_id = u, dw_namespace = ''bus/data'', dw_collection = ''notes'',
        dw_id = ''n'', dw_payload = ''3'', dw_updated_at = 12\<rparr>], kb_snapshots = []\<rparr>"

definition put_note :: "instant \<Rightarrow> request_context \<Rightarrow> string \<Rightarrow> pack_db \<Rightarrow> pack_db \<times> string pack_result" where
  "put_note = the (bus_function OpPut)"

lemma put_note_function: "bus_function OpPut = Some put_note"
  by (simp add: put_note_def HostFunctions_def handler_of_def store_ops)

lemma note_put: "put_note 12 note_call ''user'' empty_pack_db = (note_of ''u1'', Inr ''ok'')"
  by code_simp

theorem guest_writes_own_documents_witness:
  "guest_may_write note_call [note_writer] OpPut \<and>
   (let p = (''campus'', [], ''bus/data'') in place_part p (db_pack (note_of ''u1'')) = place_part p (db_pack empty_pack_db))"
proof -
  have "pt_documents (db_pack (note_of ''u1'')) ((''campus'', ''u1'', ''bus/data''), ''notes'', ''n'') = Some ''3''"
    by code_simp
  moreover have "pt_documents (db_pack empty_pack_db) ((''campus'', ''u1'', ''bus/data''), ''notes'', ''n'') = None"
    by code_simp
  ultimately have changed: "db_pack (note_of ''u1'') \<noteq> db_pack empty_pack_db" by (metis option.distinct(1))
  show ?thesis
    using guest_writes_own_documents[OF empty_pack_db_ok(1) put_note_function note_put changed]
    by (simp add: Let_def note_call_def)
qed

definition get_note :: "instant \<Rightarrow> request_context \<Rightarrow> string \<Rightarrow> pack_db \<Rightarrow> pack_db \<times> string pack_result" where
  "get_note = the (bus_function OpGet)"

lemma get_note_function: "bus_function OpGet = Some get_note"
  by (simp add: get_note_def HostFunctions_def handler_of_def store_ops)

lemma note_of_ok: "sql_length u \<le> 128 \<Longrightarrow> pack_db_ok millisecond_driver (note_of u)"
  by (auto simp: pack_db_ok_def table_ok_def note_of_def doc_row_check_def millisecond_driver_def current_unique_def)

text \<open>The note of another user makes no difference to what this user reads.\<close>

theorem guest_reads_own_and_public_witness:
  "snd (get_note 13 note_call ''user'' (note_of ''u2'')) = snd (get_note 13 note_call ''user'' empty_pack_db)"
proof -
  have "place_part p (db_pack (note_of ''u2'')) = place_part p (db_pack empty_pack_db)"
    if "p \<in> own_places note_call ''bus/data''" for p
    using that
    by (auto simp: own_places_def note_call_def place_part_def db_pack_def db_documents_def select_key_def note_of_def
        empty_pack_db_def doc_row_key_def doc_place_of_def db_snapshots_def fun_eq_iff)
  moreover have "pack_db_ok millisecond_driver (note_of ''u2'')" by (rule note_of_ok) code_simp
  ultimately show ?thesis
    by (intro guest_reads_own_and_public[OF _ _ _ get_note_function]) simp_all
qed

text \<open>An import, and then a call that tries to write a public document.\<close>

definition bus_db :: pack_db where
  "bus_db = fst (packageDocuments_ReplaceSnapshot millisecond_driver 11 public_scope bus_meta bus_lines empty_pack_db)"

lemma bus_imported:
  "packageDocuments_ReplaceSnapshot millisecond_driver 11 public_scope bus_meta bus_lines empty_pack_db = (bus_db, Inr ())"
proof -
  have "snd (packageDocuments_ReplaceSnapshot millisecond_driver 11 public_scope bus_meta bus_lines empty_pack_db) = Inr ()"
    by code_simp
  then show ?thesis by (simp add: bus_db_def prod_eq_iff)
qed

lemma public_put_refused: "put_note 12 note_call ''system'' bus_db = (bus_db, Inl (Pack_Wrapped Pack_AccessDenied))"
  by code_simp

theorem public_documents_from_snapshot_witness:
  "packageDocuments_Get public_scope ''lines'' ''a'' (fst (put_note 12 note_call ''system'' bus_db)) =
     Inr \<lparr>dr_meta = Some bus_meta, dr_document = Some \<lparr>pd_id = ''a'', pd_payload = ''1''\<rparr>\<rparr>"
proof -
  have "pack_history millisecond_driver bus_db ((\<lambda>_. None)(place_of public_scope \<mapsto> (bus_meta, bus_lines)))"
    by (rule pack_history.imported[OF pack_history.start _ bus_imported]) (simp add: bus_lines_def)
  then have history: "pack_history millisecond_driver (fst (put_note 12 note_call ''system'' bus_db))
      ((\<lambda>_. None)(place_of public_scope \<mapsto> (bus_meta, bus_lines)))"
    using pack_history.guest[OF _ put_note_function, where now = 12 and rq = note_call and body = "''system''"]
    by (metis prod.collapse)
  have valid: "ValidateScope public_scope = Inr ()" "scope_kind public_scope = ScopeSystem" "is_stable_id ''lines''" "is_stable_id ''a''"
    by code_simp+
  have "snapshot_payload bus_lines ''lines'' ''a'' = Some ''1''" by code_simp
  then show ?thesis using public_documents_from_snapshot[OF history valid] by simp
qed

end
