(* ===== verification/App_Config_Store.thy ===== *)
theory App_Config_Store
  imports App_Config Run_Store
begin

text \<open>
  \<open>internal/storage/sqlite/app_config_store.go\<close> over the tables \<open>app_config_revisions\<close> and \<open>app_config_heads\<close>
  of \<open>schema.sql\<close>. A revision is stored once under its hash; the head of an App names the current one and
  counts its changes. \<open>json.Marshal\<close>, \<open>json.Unmarshal\<close> and SHA-256 are arguments.
\<close>

section \<open>The tables\<close>

record config_row =
  cr_app_id :: string
  cr_revision :: string
  cr_enabled :: bool
  cr_executor_id :: string
  cr_executor_config :: string
  cr_max_steps :: int
  cr_max_capability_calls :: int
  cr_max_execution_units :: int
  cr_max_output_bytes :: int
  cr_max_cost :: int
  cr_timeout_ms :: int
  cr_grants :: string
  cr_created_at :: instant

record head_row =
  hr_app_id :: string
  hr_revision :: string
  hr_generation :: int
  hr_created_at :: instant
  hr_updated_at :: instant

record config_db =
  cd_revisions :: "config_row list"
  cd_heads :: "head_row list"

definition config_key :: "config_row \<Rightarrow> string \<times> string" where
  "config_key r = (cr_app_id r, cr_revision r)"

definition config_row_check :: "run_lib \<Rightarrow> config_row \<Rightarrow> bool" where
  "config_row_check lib r \<longleftrightarrow>
     sql_length (cr_revision r) = 64 \<and> 1 \<le> sql_length (cr_executor_id r) \<and> sql_length (cr_executor_id r) \<le> 256 \<and>
     2 \<le> sql_length (cr_executor_config r) \<and> int (sql_length (cr_executor_config r)) \<le> 65536 \<and>
     sql_json_valid (rl_driver lib) (cr_executor_config r) \<and>
     1 \<le> cr_max_steps r \<and> cr_max_steps r \<le> 64 \<and>
     1 \<le> cr_max_capability_calls r \<and> cr_max_capability_calls r \<le> 256 \<and>
     1 \<le> cr_max_execution_units r \<and> cr_max_execution_units r \<le> 1000000000 \<and>
     1 \<le> cr_max_output_bytes r \<and> cr_max_output_bytes r \<le> 262144 \<and>
     0 \<le> cr_max_cost r \<and> cr_max_cost r \<le> 1000000000000000 \<and>
     100 \<le> cr_timeout_ms r \<and> cr_timeout_ms r \<le> 300000 \<and>
     int (sql_length (cr_grants r)) \<le> 65536 \<and> sql_json_valid (rl_driver lib) (cr_grants r) \<and>
     rl_json_array lib (cr_grants r)"

definition head_row_check :: "head_row \<Rightarrow> bool" where
  "head_row_check h \<longleftrightarrow> 0 < hr_generation h"

definition find_revision :: "string \<times> string \<Rightarrow> config_db \<Rightarrow> config_row option" where
  "find_revision k db = select_key config_key k (cd_revisions db)"

definition find_head :: "string \<Rightarrow> config_db \<Rightarrow> head_row option" where
  "find_head app db = select_key hr_app_id app (cd_heads db)"

section \<open>Reading\<close>

text \<open>What the JSON encoder, the hash and the library contribute.\<close>

record config_lib =
  kl_run :: run_lib
  kl_marshal :: revision_encoder
  kl_sha256 :: "string \<Rightarrow> string"

definition scanned_config :: "config_row \<Rightarrow> int \<Rightarrow> instant \<Rightarrow> instant \<Rightarrow> grant list \<Rightarrow> app_config" where
  "scanned_config r generation created updated grants =
     \<lparr>ac_app_id = cr_app_id r, ac_revision = cr_revision r, ac_generation = word_of_int generation,
      ac_enabled = cr_enabled r, ac_executor_id = cr_executor_id r, ac_executor_config = cr_executor_config r,
      ac_max_steps = word_of_int (cr_max_steps r), ac_max_capability_calls = word_of_int (cr_max_capability_calls r),
      ac_max_execution_units = word_of_int (cr_max_execution_units r),
      ac_max_output_bytes = word_of_int (cr_max_output_bytes r), ac_max_cost = word_of_int (cr_max_cost r),
      ac_execution_timeout = cr_timeout_ms r * millisecond, ac_grants = grants, ac_created_at = created,
      ac_updated_at = updated\<rparr>"

text \<open>A row is normalised again and must hash to the revision that it is stored under.\<close>

definition scanAppConfig :: "config_lib \<Rightarrow> config_row \<Rightarrow> int \<Rightarrow> instant \<Rightarrow> instant \<Rightarrow> app_config go_result" where
  "scanAppConfig lib r generation created updated =
     (if 65536 < int (length (cr_executor_config r)) \<or> 65536 < int (length (cr_grants r)) then config_invalid
      else case rl_unmarshal (kl_run lib) (cr_grants r) of
        None \<Rightarrow> Inl (Joined [Sentinel (Appconfig_E Config_Invalid), Json_Syntax_Error])
      | Some grants \<Rightarrow>
          let config = scanned_config r generation created updated grants in
          (case NormalizeConfig (kl_marshal lib) (kl_sha256 lib) config of
             Inl _ \<Rightarrow> config_invalid
           | Inr n \<Rightarrow>
               if ac_revision n \<noteq> ac_revision config then config_invalid
               else Inr (n\<lparr>ac_generation := ac_generation config, ac_created_at := ac_created_at config,
                           ac_updated_at := ac_updated_at config\<rparr>)))"

definition readCurrentAppConfig :: "config_lib \<Rightarrow> string \<Rightarrow> config_db \<Rightarrow> app_config go_result" where
  "readCurrentAppConfig lib app db =
     (case find_head app db of
        None \<Rightarrow> Inl (Sentinel (Appconfig_E Config_NotFound))
      | Some h \<Rightarrow>
          (case find_revision (app, hr_revision h) db of
             None \<Rightarrow> Inl (Sentinel (Appconfig_E Config_NotFound))
           | Some r \<Rightarrow> scanAppConfig lib r (hr_generation h) (hr_created_at h) (hr_updated_at h)))"

definition ConfigCurrent :: "config_lib \<Rightarrow> string \<Rightarrow> config_db \<Rightarrow> app_config go_result" where
  "ConfigCurrent lib app db =
     (if \<not> app_id_pattern app then config_invalid else readCurrentAppConfig lib app db)"

definition ConfigRevision :: "config_lib \<Rightarrow> string \<Rightarrow> string \<Rightarrow> config_db \<Rightarrow> app_config go_result" where
  "ConfigRevision lib app revision db =
     (if \<not> app_id_pattern app then config_invalid
      else if ValidateRevision revision \<noteq> Inr () then config_invalid
      else case find_revision (app, revision) db of
        None \<Rightarrow> Inl (Sentinel (Appconfig_E Config_NotFound))
      | Some r \<Rightarrow> scanAppConfig lib r 0 (cr_created_at r) (cr_created_at r))"

section \<open>Writing\<close>

definition config_row_of :: "app_config \<Rightarrow> string \<Rightarrow> config_row" where
  "config_row_of c grants =
     \<lparr>cr_app_id = ac_app_id c, cr_revision = ac_revision c, cr_enabled = ac_enabled c,
      cr_executor_id = ac_executor_id c, cr_executor_config = ac_executor_config c,
      cr_max_steps = uint (ac_max_steps c), cr_max_capability_calls = uint (ac_max_capability_calls c),
      cr_max_execution_units = uint (ac_max_execution_units c), cr_max_output_bytes = uint (ac_max_output_bytes c),
      cr_max_cost = uint (ac_max_cost c), cr_timeout_ms = go_div (ac_execution_timeout c) millisecond,
      cr_grants = grants, cr_created_at = ac_created_at c\<rparr>"

definition insertAppConfigRevision :: "config_lib \<Rightarrow> app_config \<Rightarrow> config_db \<Rightarrow> config_db go_result" where
  "insertAppConfigRevision lib c db =
     (case rl_marshal (kl_run lib) (ac_grants c) of
        Inl e \<Rightarrow> Inl (Joined [Sentinel (Appconfig_E Config_Invalid), e])
      | Inr grants \<Rightarrow>
          (case exec_insert_ignore (config_row_check (kl_run lib)) config_key (config_row_of c grants) (cd_revisions db) of
             None \<Rightarrow> Inl constraint_error
           | Some (t, _) \<Rightarrow> Inr (db\<lparr>cd_revisions := t\<rparr>)))"

text \<open>The insert of a head; its revision has been written just before.\<close>

definition insert_head :: "head_row \<Rightarrow> config_db \<Rightarrow> config_db option" where
  "insert_head h db =
     (if find_revision (hr_app_id h, hr_revision h) db = None then None
      else map_option (\<lambda>t. db\<lparr>cd_heads := t\<rparr>) (exec_insert head_row_check hr_app_id h (cd_heads db)))"

definition EnsureConfig ::
  "config_lib \<Rightarrow> instant \<Rightarrow> app_config \<Rightarrow> config_db \<Rightarrow> config_db \<times> (app_config \<times> bool) go_result" where
  "EnsureConfig lib now seed db =
     (case NormalizeConfig (kl_marshal lib) (kl_sha256 lib) seed of
        Inl e \<Rightarrow> (db, Inl e)
      | Inr n \<Rightarrow>
     (case readCurrentAppConfig lib (ac_app_id n) db of
        Inr existing \<Rightarrow> (db, Inr (existing, False))
      | Inl e \<Rightarrow>
        if \<not> err_is e (Appconfig_E Config_NotFound) then (db, Inl e)
        else let c = n\<lparr>ac_generation := 1, ac_created_at := now, ac_updated_at := now\<rparr> in
     (case insertAppConfigRevision lib c db of
        Inl e \<Rightarrow> (db, Inl e)
      | Inr db1 \<Rightarrow>
     (case insert_head \<lparr>hr_app_id = ac_app_id c, hr_revision = ac_revision c, hr_generation = 1, hr_created_at = now,
                        hr_updated_at = now\<rparr> db1 of
        None \<Rightarrow> (db, Inl constraint_error)
      | Some db2 \<Rightarrow> (db2, Inr (c, True))))))"

definition head_where :: "string \<Rightarrow> int \<Rightarrow> head_row \<Rightarrow> bool" where
  "head_where app generation h \<longleftrightarrow> hr_app_id h = app \<and> hr_generation h = generation"

definition head_set :: "app_config \<Rightarrow> instant \<Rightarrow> head_row \<Rightarrow> head_row" where
  "head_set c now h = h\<lparr>hr_revision := ac_revision c, hr_generation := uint (ac_generation c), hr_updated_at := now\<rparr>"

definition CompareAndSwap ::
  "config_lib \<Rightarrow> instant \<Rightarrow> u64 \<Rightarrow> app_config \<Rightarrow> config_db \<Rightarrow> config_db \<times> app_config go_result" where
  "CompareAndSwap lib now expected replacement db =
     (if expected = 0 then (db, Inl (Sentinel (Appconfig_E Config_Conflict)))
      else case NormalizeConfig (kl_marshal lib) (kl_sha256 lib) replacement of
        Inl e \<Rightarrow> (db, Inl e)
      | Inr n \<Rightarrow>
     (case readCurrentAppConfig lib (ac_app_id n) db of
        Inl e \<Rightarrow> (db, Inl e)
      | Inr current \<Rightarrow>
        if ac_generation current \<noteq> expected then (db, Inl (Sentinel (Appconfig_E Config_Conflict)))
        else if ac_revision current = ac_revision n then (db, Inr current)
        else let c = n\<lparr>ac_generation := ac_generation current + 1, ac_created_at := now, ac_updated_at := now\<rparr> in
     (case insertAppConfigRevision lib c db of
        Inl e \<Rightarrow> (db, Inl e)
      | Inr db1 \<Rightarrow>
     (case bind_u64 (ac_generation c) of
        Inl e \<Rightarrow> (db, Inl (Wrapped e))
      | Inr _ \<Rightarrow>
     (case exec_update head_row_check (head_where (ac_app_id c) (uint expected)) (head_set c now) (cd_heads db1) of
        None \<Rightarrow> (db, Inl constraint_error)
      | Some (t, k) \<Rightarrow>
          if k \<noteq> 1 then (db, Inl (Sentinel (Appconfig_E Config_Conflict)))
          else (db1\<lparr>cd_heads := t\<rparr>, Inr (c\<lparr>ac_created_at := ac_created_at current\<rparr>)))))))"

section \<open>Histories\<close>

inductive config_call :: "config_lib \<Rightarrow> config_db \<Rightarrow> config_db \<Rightarrow> bool" for lib where
  ensure: "EnsureConfig lib now c db = (db', r) \<Longrightarrow> config_call lib db db'"
| swap: "CompareAndSwap lib now expected c db = (db', r') \<Longrightarrow> config_call lib db db'"

abbreviation config_calls :: "config_lib \<Rightarrow> config_db \<Rightarrow> config_db \<Rightarrow> bool" where
  "config_calls lib \<equiv> (config_call lib)\<^sup>*\<^sup>*"

definition empty_config_db :: config_db where
  "empty_config_db = \<lparr>cd_revisions = [], cd_heads = []\<rparr>"

text \<open>The schema as an invariant; a generation fits the column.\<close>

definition head_ok :: "config_db \<Rightarrow> head_row \<Rightarrow> bool" where
  "head_ok db h \<longleftrightarrow> 0 < hr_generation h \<and> hr_generation h < 2 ^ 63 \<and> find_revision (hr_app_id h, hr_revision h) db \<noteq> None"

definition config_db_ok :: "config_lib \<Rightarrow> config_db \<Rightarrow> bool" where
  "config_db_ok lib db \<longleftrightarrow>
     table_ok (config_row_check (kl_run lib)) config_key (cd_revisions db) \<and> distinct (map hr_app_id (cd_heads db)) \<and>
     list_all (head_ok db) (cd_heads db)"

lemma empty_config_db_ok [simp]: "config_db_ok lib empty_config_db"
  by (simp add: config_db_ok_def empty_config_db_def)

text \<open>The order of the histories: revisions stay as they are, the generation of a head never falls.\<close>

definition config_le :: "config_db \<Rightarrow> config_db \<Rightarrow> bool" where
  "config_le db db' \<longleftrightarrow>
     (\<forall>k r. find_revision k db = Some r \<longrightarrow> find_revision k db' = Some r) \<and>
     (\<forall>app h. find_head app db = Some h \<longrightarrow>
        (\<exists>h'. find_head app db' = Some h' \<and> hr_generation h \<le> hr_generation h' \<and> hr_created_at h' = hr_created_at h))"

lemma config_le_refl [simp]: "config_le db db"
  by (simp add: config_le_def)

lemma config_le_trans: "config_le a b \<Longrightarrow> config_le b c \<Longrightarrow> config_le a c"
proof -
  assume le: "config_le a b" "config_le b c"
  have "\<exists>h''. find_head app c = Some h'' \<and> hr_generation h \<le> hr_generation h'' \<and> hr_created_at h'' = hr_created_at h"
    if head: "find_head app a = Some h" for app h
  proof -
    obtain h' where h': "find_head app b = Some h'" "hr_generation h \<le> hr_generation h'" "hr_created_at h' = hr_created_at h"
      using le(1) head unfolding config_le_def by blast
    then obtain h'' where "find_head app c = Some h''" "hr_generation h' \<le> hr_generation h''" "hr_created_at h'' = hr_created_at h'"
      using le(2) unfolding config_le_def by metis
    then show ?thesis using h' by simp
  qed
  then show ?thesis using le by (simp add: config_le_def)
qed

lemma inserted_revision:
  assumes "insertAppConfigRevision lib c db = Inr db1"
  obtains grants where "rl_marshal (kl_run lib) (ac_grants c) = Inr grants" and "cd_heads db1 = cd_heads db"
    and "\<And>k. find_revision k db1 = (case find_revision k db of Some r \<Rightarrow> Some r
           | None \<Rightarrow> if k = (ac_app_id c, ac_revision c) then Some (config_row_of c grants) else None)"
    and "table_ok (config_row_check (kl_run lib)) config_key (cd_revisions db) \<Longrightarrow>
      table_ok (config_row_check (kl_run lib)) config_key (cd_revisions db1)"
proof -
  obtain grants t n where t: "rl_marshal (kl_run lib) (ac_grants c) = Inr grants" "db1 = db\<lparr>cd_revisions := t\<rparr>"
    "exec_insert_ignore (config_row_check (kl_run lib)) config_key (config_row_of c grants) (cd_revisions db) = Some (t, n)"
    using assms by (auto simp: insertAppConfigRevision_def split: sum.splits option.splits)
  have key: "config_key (config_row_of c grants) = (ac_app_id c, ac_revision c)"
    by (simp add: config_key_def config_row_of_def)
  have "find_revision k db1 = (case find_revision k db of Some r \<Rightarrow> Some r
      | None \<Rightarrow> if k = (ac_app_id c, ac_revision c) then Some (config_row_of c grants) else None)" for k
  proof (cases "(ac_app_id c, ac_revision c) \<in> set (map config_key (cd_revisions db))")
    case True
    then have "t = cd_revisions db" using t(3) by (simp add: exec_insert_ignore_def key split: if_splits)
    then have "find_revision k db1 = find_revision k db" by (simp add: t(2) find_revision_def)
    moreover have "find_revision (ac_app_id c, ac_revision c) db \<noteq> None"
      using True by (simp add: find_revision_def select_key_None)
    ultimately show ?thesis by (cases "find_revision k db") auto
  next
    case False
    then have "t = cd_revisions db @ [config_row_of c grants]"
      using t(3) by (simp add: exec_insert_ignore_def key split: if_splits)
    then show ?thesis by (simp add: t(2) find_revision_def select_key_append key eq_commute[of k] split: option.split)
  qed
  moreover have "table_ok (config_row_check (kl_run lib)) config_key (cd_revisions db1)"
    if "table_ok (config_row_check (kl_run lib)) config_key (cd_revisions db)"
    using exec_insert_ignore_ok[OF that t(3)] by (simp add: t(2))
  ultimately show thesis using that[OF t(1)] t(2) by simp
qed

lemma head_ok_mono:
  "head_ok db h \<Longrightarrow> (\<And>k. find_revision k db \<noteq> None \<Longrightarrow> find_revision k db' \<noteq> None) \<Longrightarrow> head_ok db' h"
  by (simp add: head_ok_def del: not_None_eq)

text \<open>A first configuration.\<close>

lemma insert_head_effect:
  assumes "insertAppConfigRevision lib c db = Inr db1" and "insert_head h db1 = Some db2"
    and "hr_app_id h = ac_app_id c" "hr_revision h = ac_revision c" "hr_generation h = 1" and "config_db_ok lib db"
  shows "config_db_ok lib db2 \<and> config_le db db2 \<and> find_head (ac_app_id c) db2 = Some h \<and>
    find_revision k db2 = find_revision k db1"
proof -
  obtain grants where ins: "cd_heads db1 = cd_heads db"
    "\<And>k. find_revision k db1 = (case find_revision k db of Some r \<Rightarrow> Some r
           | None \<Rightarrow> if k = (ac_app_id c, ac_revision c) then Some (config_row_of c grants) else None)"
    "table_ok (config_row_check (kl_run lib)) config_key (cd_revisions db1)"
    by (rule inserted_revision[OF assms(1)]) (use assms(6) that in \<open>simp add: config_db_ok_def\<close>)
  have h: "db2 = db1\<lparr>cd_heads := cd_heads db @ [h]\<rparr>" "hr_app_id h \<notin> set (map hr_app_id (cd_heads db))"
    using assms(2) by (auto simp: insert_head_def exec_insert_Some ins(1) split: if_splits)
  have rev: "find_revision k db2 = find_revision k db1" for k by (simp add: h(1) find_revision_def)
  have grown: "find_revision k db \<noteq> None \<Longrightarrow> find_revision k db2 \<noteq> None" for k
    by (auto simp: rev ins(2) split: option.split)
  have "head_ok db2 h" using assms(3-5) by (auto simp: head_ok_def rev ins(2) split: option.split)
  then have "config_db_ok lib db2"
    using assms(6) h ins(3) head_ok_mono[OF _ grown] by (auto simp: config_db_ok_def list_all_iff)
  moreover have "config_le db db2"
    unfolding config_le_def rev ins(2) by (auto simp: find_head_def h(1) select_key_append)
  moreover have "find_head (ac_app_id c) db2 = Some h"
    using h(2) assms(3) select_key_append_new[of hr_app_id h] by (simp add: h(1) find_head_def)
  ultimately show ?thesis using rev by blast
qed

text \<open>A change of the head.\<close>

lemma move_head_effect:
  assumes "insertAppConfigRevision lib c db = Inr db1"
    and "exec_update head_row_check (head_where (ac_app_id c) g) (head_set c now) (cd_heads db1) = Some (t, k)" and "k = 1"
    and "uint (ac_generation c) = g + 1" "g + 1 < 2 ^ 63" "0 < g" and "config_db_ok lib db" and "db2 = db1\<lparr>cd_heads := t\<rparr>"
  shows "config_db_ok lib db2 \<and> config_le db db2 \<and>
    (\<exists>h. find_head (ac_app_id c) db = Some h \<and> hr_generation h = g \<and> find_head (ac_app_id c) db2 = Some (head_set c now h)) \<and>
    (\<forall>k. find_revision k db2 = find_revision k db1)"
proof -
  obtain grants where ins: "cd_heads db1 = cd_heads db"
    "\<And>k. find_revision k db1 = (case find_revision k db of Some r \<Rightarrow> Some r
           | None \<Rightarrow> if k = (ac_app_id c, ac_revision c) then Some (config_row_of c grants) else None)"
    "table_ok (config_row_check (kl_run lib)) config_key (cd_revisions db1)"
    by (rule inserted_revision[OF assms(1)]) (use assms(7) that in \<open>simp add: config_db_ok_def\<close>)
  have t: "t = update_where (head_where (ac_app_id c) g) (head_set c now) (cd_heads db)"
    "affected (head_where (ac_app_id c) g) (cd_heads db) = 1"
    using assms(2,3) by (simp_all add: exec_update_Some ins(1))
  have key: "hr_app_id (head_set c now h) = hr_app_id h" for h by (simp add: head_set_def)
  have heads: "find_head app db2 = map_option (\<lambda>h. if head_where (ac_app_id c) g h then head_set c now h else h) (find_head app db)" for app
    by (simp add: find_head_def assms(8) t(1) select_update_where key)
  have rev: "find_revision k db2 = find_revision k db1" for k by (simp add: assms(8) find_revision_def)
  have grown: "find_revision k db \<noteq> None \<Longrightarrow> find_revision k db2 \<noteq> None" for k
    by (auto simp: rev ins(2) split: option.split)
  have moved: "head_ok db2 (head_set c now h)" if "head_where (ac_app_id c) g h" for h
    using that assms(4-6) by (auto simp: head_ok_def head_set_def head_where_def rev ins(2) split: option.split)
  have dist: "distinct (map hr_app_id t)"
    using assms(7) by (simp add: t(1) map_update_where key config_db_ok_def)
  have "list_all (head_ok db2) t"
    using assms(7) moved head_ok_mono[OF _ grown] by (auto simp: t(1) config_db_ok_def list_all_iff set_update_where)
  then have ok: "config_db_ok lib db2"
    using ins(3) dist by (simp add: config_db_ok_def assms(8))
  obtain h where h: "h \<in> set (cd_heads db)" "head_where (ac_app_id c) g h"
    using t(2) affected_pos_iff[of "head_where (ac_app_id c) g" "cd_heads db"] by auto
  then have found: "find_head (ac_app_id c) db = Some h"
    using assms(7) by (simp add: find_head_def config_db_ok_def select_key_Some head_where_def)
  have "config_le db db2"
    using assms(4) by (auto simp: config_le_def rev ins(2) heads head_set_def head_where_def)
  then show ?thesis using ok found h(2) rev by (auto simp: heads head_where_def)
qed

section \<open>The calls\<close>

lemma next_generation: "uint w < 2 ^ 63 \<Longrightarrow> uint (w + 1 :: u64) = uint w + 1"
  by (simp add: uint_word_ariths)

lemma generation_back: "0 < g \<Longrightarrow> g < 2 ^ 63 \<Longrightarrow> uint (word_of_int g :: u64) = g"
  by (simp add: uint_word_of_int)

lemma scanned_generation:
  "scanAppConfig lib r g created updated = Inr c \<Longrightarrow>
     ac_generation c = word_of_int g \<and> ac_created_at c = created \<and> ac_updated_at c = updated \<and> ac_revision c = cr_revision r"
  by (auto simp: scanAppConfig_def scanned_config_def Let_def split: if_splits option.splits sum.splits)

lemma readCurrent_head:
  assumes "readCurrentAppConfig lib app db = Inr c" and "config_db_ok lib db"
  obtains h where "find_head app db = Some h" and "uint (ac_generation c) = hr_generation h" and "hr_generation h < 2 ^ 63"
    and "0 < hr_generation h" and "hr_revision h = ac_revision c" and "ac_created_at c = hr_created_at h"
proof -
  obtain h r where h: "find_head app db = Some h" "find_revision (app, hr_revision h) db = Some r"
    "scanAppConfig lib r (hr_generation h) (hr_created_at h) (hr_updated_at h) = Inr c"
    using assms(1) by (auto simp: readCurrentAppConfig_def split: option.splits)
  have "h \<in> set (cd_heads db)" using select_keyD h(1) unfolding find_head_def by metis
  then have "0 < hr_generation h" "hr_generation h < 2 ^ 63"
    using assms(2) by (auto simp: config_db_ok_def list_all_iff head_ok_def)
  moreover have "hr_revision h = cr_revision r"
    using h(2) select_keyD[of config_key _ "cd_revisions db" r] by (auto simp: find_revision_def config_key_def)
  ultimately show thesis
    using that[OF h(1)] scanned_generation[OF h(3)] generation_back by metis
qed

lemma EnsureConfig_effect:
  assumes "EnsureConfig lib now seed db = (db', r)"
  obtains "db' = db" "\<And>c. r \<noteq> Inr (c, True)"
  | n c db1 where "NormalizeConfig (kl_marshal lib) (kl_sha256 lib) seed = Inr n"
      "c = n\<lparr>ac_generation := 1, ac_created_at := now, ac_updated_at := now\<rparr>"
      "insertAppConfigRevision lib c db = Inr db1"
      "insert_head \<lparr>hr_app_id = ac_app_id c, hr_revision = ac_revision c, hr_generation = 1, hr_created_at = now,
                    hr_updated_at = now\<rparr> db1 = Some db'" "r = Inr (c, True)"
  using assms
  by (auto simp: EnsureConfig_def Let_def split: sum.splits if_splits option.splits)

lemma CompareAndSwap_effect:
  assumes "CompareAndSwap lib now expected replacement db = (db', r)"
  obtains "db' = db" "\<And>x. r = Inr x \<Longrightarrow> \<exists>n. NormalizeConfig (kl_marshal lib) (kl_sha256 lib) replacement = Inr n \<and>
      readCurrentAppConfig lib (ac_app_id n) db = Inr x \<and> ac_generation x = expected \<and> ac_revision x = ac_revision n"
  | n current c db1 t where "NormalizeConfig (kl_marshal lib) (kl_sha256 lib) replacement = Inr n"
      "readCurrentAppConfig lib (ac_app_id n) db = Inr current" "ac_generation current = expected"
      "ac_revision current \<noteq> ac_revision n"
      "c = n\<lparr>ac_generation := expected + 1, ac_created_at := now, ac_updated_at := now\<rparr>"
      "insertAppConfigRevision lib c db = Inr db1" "uint (ac_generation c) < 2 ^ 63"
      "exec_update head_row_check (head_where (ac_app_id c) (uint expected)) (head_set c now) (cd_heads db1) = Some (t, 1)"
      "db' = db1\<lparr>cd_heads := t\<rparr>" "r = Inr (c\<lparr>ac_created_at := ac_created_at current\<rparr>)"
proof -
  note none = that(1) and moved = that(2)
  let ?norm = "NormalizeConfig (kl_marshal lib) (kl_sha256 lib) replacement"
  show thesis
  proof (cases "expected = 0 \<or> \<not> is_ok ?norm")
    case True
    then have "db' = db" "\<And>x. r \<noteq> Inr x"
      using assms by (auto simp: CompareAndSwap_def split: sum.splits if_splits)
    then show ?thesis using none by blast
  next
    case False
    then obtain n where n: "expected \<noteq> 0" "?norm = Inr n" by (cases ?norm) auto
    show ?thesis
    proof (cases "readCurrentAppConfig lib (ac_app_id n) db")
      case (Inl e)
      then have "db' = db" "\<And>x. r \<noteq> Inr x" using assms n by (auto simp: CompareAndSwap_def)
      then show ?thesis using none by blast
    next
      case (Inr current)
      let ?c = "n\<lparr>ac_generation := ac_generation current + 1, ac_created_at := now, ac_updated_at := now\<rparr>"
      show ?thesis
      proof (cases "ac_generation current = expected \<and> ac_revision current \<noteq> ac_revision n")
        case False
        then have "db' = db" "\<And>x. r = Inr x \<Longrightarrow> x = current \<and> ac_generation x = expected \<and> ac_revision x = ac_revision n"
          using assms n Inr by (auto simp: CompareAndSwap_def split: if_splits)
        then show ?thesis using none n(2) Inr by blast
      next
        case True
        show ?thesis
        proof (cases "insertAppConfigRevision lib ?c db")
          case (Inl e)
          then have "db' = db" "\<And>x. r \<noteq> Inr x" using assms n Inr True by (auto simp: CompareAndSwap_def)
          then show ?thesis using none by blast
        next
          case ins: (Inr db1)
          let ?update = "exec_update head_row_check (head_where (ac_app_id n) (uint expected)) (head_set ?c now) (cd_heads db1)"
          show ?thesis
          proof (cases "uint (ac_generation ?c) < 2 ^ 63 \<and> (\<exists>t. ?update = Some (t, 1))")
            case False
            then have "db' = db" "\<And>x. r \<noteq> Inr x"
              using assms n Inr True ins
              by (auto simp: CompareAndSwap_def bind_u64_def Let_def split: if_splits option.splits prod.splits)
            then show ?thesis using none by blast
          next
            case update: True
            then obtain t where t: "?update = Some (t, 1)" by blast
            then have "db' = db1\<lparr>cd_heads := t\<rparr>" "r = Inr (?c\<lparr>ac_created_at := ac_created_at current\<rparr>)"
              using assms n Inr True ins update by (simp_all add: CompareAndSwap_def bind_u64_def Let_def)
            then show ?thesis using moved[OF n(2) Inr _ _ _ ins] True update t by simp
          qed
        qed
      qed
    qed
  qed
qed

lemma swap_effect:
  assumes "CompareAndSwap lib now expected replacement db = (db', r)" and "config_db_ok lib db"
  obtains "db' = db"
  | x where "r = Inr x" "config_db_ok lib db'" "config_le db db'"
      "\<exists>h h'. find_head (ac_app_id x) db = Some h \<and> find_head (ac_app_id x) db' = Some h' \<and>
         hr_generation h = uint expected \<and> hr_generation h' = uint expected + 1 \<and> hr_generation h' < 2 ^ 63 \<and> 0 < hr_generation h"
  using assms(1)
proof (cases rule: CompareAndSwap_effect)
  case (2 n current c db1 t)
  obtain h where h: "find_head (ac_app_id n) db = Some h" "uint (ac_generation current) = hr_generation h"
    "hr_generation h < 2 ^ 63" "0 < hr_generation h"
    using readCurrent_head[OF 2(2) assms(2)] by metis
  have gen: "uint (ac_generation c) = uint expected + 1"
    using h(2,3) 2(3,5) next_generation[of expected] by simp
  have bound: "uint expected + 1 < 2 ^ 63" "0 < uint expected" using 2(7) gen h(2,4) 2(3) by simp_all
  have "config_db_ok lib db' \<and> config_le db db' \<and>
    (\<exists>h. find_head (ac_app_id c) db = Some h \<and> hr_generation h = uint expected \<and> find_head (ac_app_id c) db' = Some (head_set c now h)) \<and>
    (\<forall>k. find_revision k db' = find_revision k db1)"
    by (rule move_head_effect[OF 2(6) 2(8) refl gen bound assms(2) 2(9)])
  then obtain h0 where "config_db_ok lib db'" "config_le db db'" "find_head (ac_app_id c) db = Some h0"
    "hr_generation h0 = uint expected" "find_head (ac_app_id c) db' = Some (head_set c now h0)"
    by blast
  then show ?thesis
    using that(2)[of "c\<lparr>ac_created_at := ac_created_at current\<rparr>"] 2(10) gen bound by (simp add: head_set_def)
qed (use that(1) in blast)

lemma config_call_effect: "config_call lib db db' \<Longrightarrow> config_db_ok lib db \<Longrightarrow> config_db_ok lib db' \<and> config_le db db'"
proof (induction rule: config_call.induct)
  case (ensure now c db db' r)
  from ensure(1) show ?case
  proof (cases rule: EnsureConfig_effect)
    case (2 n c' db1)
    show ?thesis using insert_head_effect[OF 2(3,4)] ensure(2) by simp
  qed (use ensure(2) in simp)
next
  case (swap now expected c db db' r)
  from swap(1,2) show ?case by (cases rule: swap_effect) (use swap(2) in simp_all)
qed

lemma config_calls_effect: "config_calls lib db db' \<Longrightarrow> config_db_ok lib db \<Longrightarrow> config_db_ok lib db' \<and> config_le db db'"
  by (induction rule: rtranclp_induct) (auto dest: config_call_effect config_le_trans)

end
