(* ===== verification/Config_Guarantees.thy ===== *)
theory Config_Guarantees
  imports App_Config_Store
begin

text \<open>
  What the store of App configurations promises: of the writers that saw one generation at most one takes
  effect, a stored revision is what it was forever, and a change reads back.
\<close>

lemma NormalizeConfig_app: "NormalizeConfig marshal sha256 c = Inr n \<Longrightarrow> ac_app_id n = TrimSpace (ac_app_id c)"
  by (rule NormalizeConfig_Inr) auto

text \<open>C38: 
  Of all updates that are made from one generation of a configuration, however the callers interleave, at
  most one takes effect: once one did, each later one fails and changes nothing.
\<close>

theorem config_update_not_lost:
  assumes "config_db_ok lib db" and "CompareAndSwap lib now g c db = (db1, Inr x)" and "db1 \<noteq> db"
    and "config_calls lib db1 db2" and "CompareAndSwap lib now' g c' db2 = (db3, r)"
    and "TrimSpace (ac_app_id c') = ac_app_id x"
  shows "db3 = db2 \<and> (\<forall>y. r \<noteq> Inr y)"
proof -
  obtain h1 where h1: "config_db_ok lib db1" "find_head (ac_app_id x) db1 = Some h1" "hr_generation h1 = uint g + 1"
    using swap_effect[OF assms(2,1)] assms(3) by (metis sum.inject(2))
  obtain h2 where h2: "find_head (ac_app_id x) db2 = Some h2" "hr_generation h1 \<le> hr_generation h2" and ok: "config_db_ok lib db2"
    using config_calls_effect[OF assms(4) h1(1)] h1(2) unfolding config_le_def by metis
  have stale: "ac_generation y \<noteq> g" if "NormalizeConfig (kl_marshal lib) (kl_sha256 lib) c' = Inr n"
    "readCurrentAppConfig lib (ac_app_id n) db2 = Inr y" for n y
  proof -
    have "ac_app_id n = ac_app_id x" using NormalizeConfig_app[OF that(1)] assms(6) by simp
    then show ?thesis using readCurrent_head[OF that(2) ok] h2 h1(3) by (metis add_le_same_cancel1 not_one_le_zero option.inject)
  qed
  from assms(5) show ?thesis
    by (cases rule: CompareAndSwap_effect) (use stale in blast)+
qed

text \<open>The bookkeeping fields do not take part in the normal form.\<close>

lemma NormalizeConfig_stamped:
  "NormalizeConfig marshal sha256 (c\<lparr>ac_generation := g, ac_created_at := t, ac_updated_at := u\<rparr>) =
     map_sum id (\<lambda>n. n\<lparr>ac_generation := g, ac_created_at := t, ac_updated_at := u\<rparr>) (NormalizeConfig marshal sha256 c)"
  by (simp add: NormalizeConfig_def ValidateConfig_def revision_input_of_def Let_def split: sum.split)

lemma scanned_verifies:
  assumes "scanAppConfig lib r g created updated = Inr c" and "app_id_pattern (cr_app_id r)"
  shows "VerifyConfig (kl_marshal lib) (kl_sha256 lib) c (cr_app_id r) (cr_revision r) = Inr ()"
proof -
  obtain grants n where n: "NormalizeConfig (kl_marshal lib) (kl_sha256 lib) (scanned_config r g created updated grants) = Inr n"
    and c: "c = n\<lparr>ac_generation := word_of_int g, ac_created_at := created, ac_updated_at := updated\<rparr>" "ac_revision n = cr_revision r"
    using assms(1) by (auto simp: scanAppConfig_def scanned_config_def Let_def split: if_splits option.splits sum.splits)
  have "ac_app_id n = cr_app_id r"
    using NormalizeConfig_app[OF n] app_id_trimmed[OF assms(2)] by (simp add: scanned_config_def)
  moreover have "NormalizeConfig (kl_marshal lib) (kl_sha256 lib) c = Inr c"
    using NormalizeConfig_stamped[where c = n and g = "word_of_int g" and t = created and u = updated] NormalizeConfig_fixed(1)[OF n]
    by (simp add: c(1))
  ultimately show ?thesis by (simp add: VerifyConfig_def c)
qed

text \<open>C39: 
  A revision that can be read once is read the same way forever, whatever configurations are stored after
  it; so the configuration that a Run has been frozen with stays what it was, and verifies.
\<close>

theorem config_revision_immutable:
  assumes "config_db_ok lib db" and "ConfigRevision lib app revision db = Inr c" and "config_calls lib db db'"
  shows "ConfigRevision lib app revision db' = Inr c \<and>
    VerifyConfig (kl_marshal lib) (kl_sha256 lib) c app revision = Inr ()"
proof -
  obtain r where r: "app_id_pattern app" "find_revision (app, revision) db = Some r" "scanAppConfig lib r 0 (cr_created_at r) (cr_created_at r) = Inr c"
    using assms(2) by (auto simp: ConfigRevision_def split: if_splits option.splits)
  have "config_key r = (app, revision)" using r(2) select_keyD unfolding find_revision_def by metis
  then have "cr_app_id r = app" "cr_revision r = revision" by (simp_all add: config_key_def)
  moreover have "find_revision (app, revision) db' = Some r"
    using config_calls_effect[OF assms(3,1)] r(2) by (simp add: config_le_def)
  ultimately show ?thesis
    using assms(2) r scanned_verifies[OF r(3)] by (auto simp: ConfigRevision_def split: if_splits)
qed

section \<open>Reading back\<close>

text \<open>The store keeps whole milliseconds of the timeout, which is also what the revision is made of.\<close>

definition in_milliseconds :: "app_config \<Rightarrow> app_config" where
  "in_milliseconds c = c\<lparr>ac_execution_timeout := go_div (ac_execution_timeout c) millisecond * millisecond\<rparr>"

lemma whole_milliseconds:
  assumes "100 * millisecond \<le> t" and "t \<le> 5 * minute"
  shows "100 * millisecond \<le> go_div t millisecond * millisecond \<and> go_div t millisecond * millisecond \<le> 5 * minute \<and>
    go_div (go_div t millisecond * millisecond) millisecond = go_div t millisecond"
proof -
  have "go_div t millisecond = t div millisecond" "0 \<le> t"
    using assms by (auto simp: go_div_nonneg millisecond_def)
  moreover have "100 \<le> t div millisecond" using assms(1) by (simp add: millisecond_def)
  moreover have "t div millisecond * millisecond \<le> t" by (simp add: millisecond_def)
  ultimately show ?thesis
    using assms by (auto simp: go_div_nonneg millisecond_def)
qed

lemma NormalizeConfig_milliseconds:
  assumes "NormalizeConfig marshal sha256 c = Inr n"
  shows "NormalizeConfig marshal sha256 (in_milliseconds n) = Inr (in_milliseconds n)"
proof -
  have fixed: "NormalizeConfig marshal sha256 n = Inr n" and v: "ValidateConfig n = Inr ()"
    using NormalizeConfig_fixed[OF assms] by simp_all
  have bounds: "100 * millisecond \<le> ac_execution_timeout n" "ac_execution_timeout n \<le> 5 * minute"
    using v by (simp_all add: ValidateConfig_ok)
  have v': "ValidateConfig (in_milliseconds n) = Inr ()"
    using v whole_milliseconds[OF bounds] by (simp add: ValidateConfig_ok in_milliseconds_def)
  have input: "revision_input_of (in_milliseconds n) = revision_input_of n"
    using whole_milliseconds[OF bounds] by (simp add: revision_input_of_def in_milliseconds_def)
  have trimmed: "TrimSpace (ac_app_id n) = ac_app_id n" "TrimSpace (ac_executor_id n) = ac_executor_id n"
    using v by (auto simp: ValidateConfig_ok intro: app_id_trimmed)
  have "ac_executor_config n \<noteq> []" "length (ac_grants n) \<le> 256" using v by (auto simp: ValidateConfig_ok)
  moreover obtain gs encoded where "normalizeGrants (ac_app_id n) (ac_grants n) = Inr gs" "gs = ac_grants n"
    "marshal (revision_input_of n) = Inr encoded" "ac_revision n = hex_bytes (sha256 encoded)"
  proof (rule NormalizeConfig_Inr[OF fixed])
    fix gs encoded c2
    assume c2: "c2 = n\<lparr>ac_app_id := TrimSpace (ac_app_id n), ac_executor_id := TrimSpace (ac_executor_id n),
          ac_executor_config := (if length (ac_executor_config n) = 0 then ''{}'' else ac_executor_config n), ac_grants := gs\<rparr>"
      and gs: "normalizeGrants (TrimSpace (ac_app_id n)) (ac_grants n) = Inr gs" and m: "marshal (revision_input_of c2) = Inr encoded"
      and n: "n = c2\<lparr>ac_revision := hex_bytes (sha256 encoded)\<rparr>"
    have "ac_grants n = gs" using c2 n by (metis app_config.select_convs(13) app_config.surjective app_config.update_convs(2) app_config.update_convs(13))
    moreover have "revision_input_of c2 = revision_input_of n" unfolding n by simp
    moreover have "ac_revision n = hex_bytes (sha256 encoded)" by (subst n) simp
    ultimately show thesis using that gs m trimmed by metis
  qed
  ultimately show ?thesis
    using v' trimmed input by (simp add: NormalizeConfig_def Let_def) (simp add: in_milliseconds_def)
qed

text \<open>The row of a configuration, read again: what was stored, in whole milliseconds.\<close>

definition grants_readable :: "config_lib \<Rightarrow> app_config \<Rightarrow> bool" where
  "grants_readable lib c \<longleftrightarrow>
     (case rl_marshal (kl_run lib) (ac_grants c) of Inl e \<Rightarrow> True
      | Inr text \<Rightarrow> rl_unmarshal (kl_run lib) text = Some (ac_grants c) \<and> int (length text) \<le> 65536)"

lemma scan_back:
  assumes "NormalizeConfig (kl_marshal lib) (kl_sha256 lib) c0 = Inr n"
    and "c = n\<lparr>ac_generation := g, ac_created_at := t0, ac_updated_at := now\<rparr>"
    and "rl_marshal (kl_run lib) (ac_grants c) = Inr text" and "grants_readable lib c"
  shows "scanAppConfig lib ((config_row_of c text)\<lparr>cr_created_at := any\<rparr>) (uint g) created updated =
    Inr (in_milliseconds (c\<lparr>ac_created_at := created, ac_updated_at := updated\<rparr>))"
proof -
  have v: "ValidateConfig n = Inr ()" using NormalizeConfig_fixed[OF assms(1)] by simp
  have "int (length (ac_executor_config n)) \<le> 65536" using v by (simp add: ValidateConfig_ok)
  moreover have "rl_unmarshal (kl_run lib) text = Some (ac_grants c)" "int (length text) \<le> 65536"
    using assms(3,4) by (simp_all add: grants_readable_def)
  moreover have "scanned_config ((config_row_of c text)\<lparr>cr_created_at := any\<rparr>) (uint g) created updated (ac_grants c) =
    (in_milliseconds n)\<lparr>ac_generation := g, ac_created_at := created, ac_updated_at := updated\<rparr>"
    by (simp add: scanned_config_def config_row_of_def assms(2) in_milliseconds_def)
  moreover have "ac_revision (in_milliseconds n) = ac_revision n" by (simp add: in_milliseconds_def)
  ultimately show ?thesis
    using NormalizeConfig_milliseconds[OF assms(1)]
    by (simp add: scanAppConfig_def Let_def NormalizeConfig_stamped config_row_of_def assms(2)) (simp add: in_milliseconds_def)
qed

lemma current_form:
  assumes "readCurrentAppConfig lib app db = Inr x" and "app_id_pattern app"
  shows "ac_app_id x = app \<and> in_milliseconds x = x"
proof -
  obtain h :: head_row and r where r: "find_revision (app, hr_revision h) db = Some r"
    "scanAppConfig lib r (hr_generation h) (hr_created_at h) (hr_updated_at h) = Inr x"
    using assms(1) by (auto simp: readCurrentAppConfig_def split: option.splits)
  obtain grants n where n: "NormalizeConfig (kl_marshal lib) (kl_sha256 lib)
      (scanned_config r (hr_generation h) (hr_created_at h) (hr_updated_at h) grants) = Inr n"
    and x: "ac_app_id x = ac_app_id n" "ac_execution_timeout x = ac_execution_timeout n"
    using r(2) by (auto simp: scanAppConfig_def Let_def split: if_splits option.splits sum.splits)
  have "cr_app_id r = app"
    using r(1) select_keyD[of config_key "(app, hr_revision h)" "cd_revisions db" r]
    by (simp add: find_revision_def config_key_def)
  then have "ac_app_id x = app"
    using NormalizeConfig_app[OF n] app_id_trimmed[OF assms(2)] x by (simp add: scanned_config_def)
  moreover have t: "ac_execution_timeout x = cr_timeout_ms r * millisecond"
    by (rule NormalizeConfig_Inr[OF n]) (simp add: scanned_config_def x(2))
  moreover have "100 * millisecond \<le> ac_execution_timeout x"
    using NormalizeConfig_fixed(2)[OF n] x(2) by (simp add: ValidateConfig_ok)
  ultimately show ?thesis
    by (simp add: in_milliseconds_def go_div_nonneg millisecond_def)
qed

text \<open>The generation and the times of a stored revision are those of the reader, the rest is the row's.\<close>

lemma rescanned:
  assumes "scanAppConfig lib r g created updated = Inr c"
  shows "scanAppConfig lib r g' created' updated' =
    Inr (c\<lparr>ac_generation := word_of_int g', ac_created_at := created', ac_updated_at := updated'\<rparr>)"
proof -
  have "scanned_config r g' created' updated' grants =
      (scanned_config r g created updated grants)\<lparr>ac_generation := word_of_int g', ac_created_at := created', ac_updated_at := updated'\<rparr>" for grants
    by (simp add: scanned_config_def)
  then show ?thesis
    using assms by (auto simp: scanAppConfig_def Let_def NormalizeConfig_stamped split: if_splits option.splits sum.splits)
qed

lemma readCurrent_revision:
  assumes "readCurrentAppConfig lib app db = Inr x" and "ConfigRevision lib app (ac_revision x) db = Inr old"
  shows "x = old\<lparr>ac_generation := ac_generation x, ac_created_at := ac_created_at x, ac_updated_at := ac_updated_at x\<rparr>"
proof -
  obtain h :: head_row and r where r: "find_revision (app, hr_revision h) db = Some r"
    "scanAppConfig lib r (hr_generation h) (hr_created_at h) (hr_updated_at h) = Inr x"
    using assms(1) by (auto simp: readCurrentAppConfig_def split: option.splits)
  have "hr_revision h = ac_revision x"
    using scanned_generation[OF r(2)] r(1) select_keyD[of config_key "(app, hr_revision h)" "cd_revisions db" r] by (simp add: find_revision_def config_key_def)
  then have "scanAppConfig lib r 0 (cr_created_at r) (cr_created_at r) = Inr old"
    using assms(2) r(1) by (auto simp: ConfigRevision_def split: if_splits)
  from rescanned[OF this, of "hr_generation h" "hr_created_at h" "hr_updated_at h"] show ?thesis
    using r(2) scanned_generation[OF r(2)] by simp
qed

text \<open>A change of the head, seen by the reader.\<close>

lemma swapped_current:
  assumes "config_db_ok lib db" and "NormalizeConfig (kl_marshal lib) (kl_sha256 lib) c0 = Inr n"
    and "readCurrentAppConfig lib (ac_app_id n) db = Inr current"
    and "c = n\<lparr>ac_generation := ac_generation current + 1, ac_created_at := now, ac_updated_at := now\<rparr>"
    and "insertAppConfigRevision lib c db = Inr db1" and "uint (ac_generation c) < 2 ^ 63"
    and "exec_update head_row_check (head_where (ac_app_id c) (uint (ac_generation current))) (head_set c now) (cd_heads db1) = Some (t, 1)"
    and "db' = db1\<lparr>cd_heads := t\<rparr>"
  obtains row enc where "ConfigCurrent lib (ac_app_id c) db' = scanAppConfig lib row (uint (ac_generation c)) (ac_created_at current) now"
    and "rl_marshal (kl_run lib) (ac_grants c) = Inr enc" and "cr_revision row = ac_revision c"
    and "row = (case find_revision (ac_app_id c, ac_revision c) db of Some r \<Rightarrow> r | None \<Rightarrow> config_row_of c enc)"
proof -
  have app: "app_id_pattern (ac_app_id c)" using NormalizeConfig_fixed(2)[OF assms(2)] assms(4) by (simp add: ValidateConfig_ok)
  obtain h where h: "find_head (ac_app_id c) db = Some h" "uint (ac_generation current) = hr_generation h" "hr_generation h < 2 ^ 63"
      "0 < hr_generation h" "ac_created_at current = hr_created_at h"
    using readCurrent_head[OF assms(3,1)] assms(4) by (metis app_config.select_convs(1) app_config.surjective app_config.update_convs(3,14,15))
  have gen: "uint (ac_generation c) = uint (ac_generation current) + 1"
    using next_generation[of "ac_generation current"] h(2,3) assms(4) by simp
  have bound: "uint (ac_generation current) + 1 < 2 ^ 63" "0 < uint (ac_generation current)" using assms(6) gen h(2,4) by simp_all
  have moved: "find_head (ac_app_id c) db' = Some (head_set c now h)" "find_revision k db' = find_revision k db1" for k
    using move_head_effect[OF assms(5,7) refl gen bound assms(1,8)] h(1) by (cases k; auto)+
  obtain enc where enc: "rl_marshal (kl_run lib) (ac_grants c) = Inr enc"
    and found: "\<And>k. find_revision k db1 = (case find_revision k db of Some r \<Rightarrow> Some r
           | None \<Rightarrow> if k = (ac_app_id c, ac_revision c) then Some (config_row_of c enc) else None)"
    by (rule inserted_revision[OF assms(5)]) blast
  define row where "row = (case find_revision (ac_app_id c, ac_revision c) db of Some r \<Rightarrow> r | None \<Rightarrow> config_row_of c enc)"
  have row: "find_revision (ac_app_id c, ac_revision c) db' = Some row"
    using moved(2) found by (simp add: row_def split: option.splits)
  moreover have "cr_revision row = ac_revision c"
    using row select_keyD[of config_key "(ac_app_id c, ac_revision c)" "cd_revisions db'" row] by (simp add: find_revision_def config_key_def)
  moreover have "ConfigCurrent lib (ac_app_id c) db' = scanAppConfig lib row (uint (ac_generation c)) (ac_created_at current) now"
    using moved(1) row app h(5) by (simp add: ConfigCurrent_def readCurrentAppConfig_def head_set_def)
  ultimately show thesis using that enc row_def by blast
qed

text \<open>C40: 
  A successful update reads back. Whatever the next read of the App's configuration gives has the revision,
  the generation and the times that the update returned. For a revision that was not stored before, the read
  succeeds and gives the whole configuration that was returned, in whole milliseconds of its timeout, provided
  the text of its grants decodes to the grants and fits the 65536 bytes the reader allows. For a revision that
  was stored and readable before, it gives that stored configuration with the new generation and times.
\<close>

theorem config_swap_reads_back:
  assumes "config_db_ok lib db" and "CompareAndSwap lib now expected c0 db = (db', Inr x)"
  shows "(\<forall>y. ConfigCurrent lib (ac_app_id x) db' = Inr y \<longrightarrow>
      ac_revision y = ac_revision x \<and> ac_generation y = ac_generation x \<and>
      ac_created_at y = ac_created_at x \<and> ac_updated_at y = ac_updated_at x) \<and>
    (find_revision (ac_app_id x, ac_revision x) db = None \<and> grants_readable lib x \<longrightarrow>
      ConfigCurrent lib (ac_app_id x) db' = Inr (in_milliseconds x)) \<and>
    (\<forall>old. ConfigRevision lib (ac_app_id x) (ac_revision x) db = Inr old \<longrightarrow>
      ConfigCurrent lib (ac_app_id x) db' =
        Inr (old\<lparr>ac_generation := ac_generation x, ac_created_at := ac_created_at x, ac_updated_at := ac_updated_at x\<rparr>))"
proof -
  from assms(2) show ?thesis
  proof (cases rule: CompareAndSwap_effect)
    case 1
    then obtain n where n: "NormalizeConfig (kl_marshal lib) (kl_sha256 lib) c0 = Inr n" "readCurrentAppConfig lib (ac_app_id n) db = Inr x"
      by blast
    have "app_id_pattern (ac_app_id n)" using NormalizeConfig_fixed(2)[OF n(1)] by (simp add: ValidateConfig_ok)
    then have now: "ConfigCurrent lib (ac_app_id x) db' = Inr x" and app: "ac_app_id x = ac_app_id n"
      using current_form[OF n(2)] n(2) 1(1) by (simp_all add: ConfigCurrent_def)
    have "find_revision (ac_app_id x, ac_revision x) db \<noteq> None"
      using n(2) app scanned_generation select_keyD[of config_key _ "cd_revisions db"]
      by (fastforce simp: readCurrentAppConfig_def find_revision_def config_key_def split: option.splits)
    then show ?thesis using now readCurrent_revision[OF n(2)] app by auto
  next
    case (2 n current c db1 t)
    have x: "x = c\<lparr>ac_created_at := ac_created_at current\<rparr>" using 2(10) by simp
    obtain row enc where now: "ConfigCurrent lib (ac_app_id c) db' =
        scanAppConfig lib row (uint (ac_generation c)) (ac_created_at current) now"
      and enc: "rl_marshal (kl_run lib) (ac_grants c) = Inr enc" and rev: "cr_revision row = ac_revision c"
      and row: "row = (case find_revision (ac_app_id c, ac_revision c) db of Some r \<Rightarrow> r | None \<Rightarrow> config_row_of c enc)"
      using swapped_current[OF assms(1) 2(1,2) 2(5)[folded 2(3)] 2(6,7) 2(8)[folded 2(3)] 2(9)] by blast
    have fields: "ac_app_id x = ac_app_id c" "ac_revision x = ac_revision c" "ac_generation x = ac_generation c"
        "ac_created_at x = ac_created_at current" "ac_updated_at x = now" using 2(5) by (simp_all add: x)
    have fresh: "ConfigCurrent lib (ac_app_id x) db' = Inr (in_milliseconds x)"
      if "find_revision (ac_app_id x, ac_revision x) db = None" "grants_readable lib x"
    proof -
      have "grants_readable lib c" using that(2) by (simp add: x grants_readable_def cong: sum.case_cong)
      from scan_back[OF 2(1) 2(5) enc this, of "ac_created_at c" "ac_created_at current" now] show ?thesis
        using now row that(1) fields 2(5) by (simp add: x config_row_of_def) (simp add: in_milliseconds_def)
    qed
    have stored: "ConfigCurrent lib (ac_app_id x) db' =
        Inr (old\<lparr>ac_generation := ac_generation x, ac_created_at := ac_created_at x, ac_updated_at := ac_updated_at x\<rparr>)"
      if "ConfigRevision lib (ac_app_id x) (ac_revision x) db = Inr old" for old
    proof -
      have "scanAppConfig lib row 0 (cr_created_at row) (cr_created_at row) = Inr old"
        using that row fields by (auto simp: ConfigRevision_def split: if_splits option.splits)
      from rescanned[OF this] show ?thesis using now fields by simp
    qed
    show ?thesis using scanned_generation[of lib row _ _ _] now rev fields fresh stored by auto
  qed
qed

text \<open>
  A revision is the hash of an encoding in which the executor configuration is a raw JSON text, and the
  encoder compacts raw texts. Configurations that differ only in the spaces of that text therefore have one
  revision: an update from one to the other is answered with what is stored and changes nothing.
\<close>

theorem equal_revision_keeps_stored:
  assumes "NormalizeConfig (kl_marshal lib) (kl_sha256 lib) c = Inr n"
    and "readCurrentAppConfig lib (ac_app_id n) db = Inr current"
    and "ac_revision n = ac_revision current"
  shows "CompareAndSwap lib now (ac_generation current) c db = (db, Inr current) \<or> ac_generation current = 0"
  using assms by (simp add: CompareAndSwap_def)

text \<open>
  The write checks the grants by their characters, the read by their bytes. Grants of at most 65536
  characters in more than 65536 bytes are stored and can never be read again; and as every update reads
  the current configuration first, the App can no longer be configured.
\<close>

theorem oversized_grants_lock_app:
  assumes "find_head app db = Some h" and "find_revision (app, hr_revision h) db = Some r"
    and "65536 < int (length (cr_grants r))" and "TrimSpace (ac_app_id c) = app"
  shows "\<not> is_ok (ConfigCurrent lib app db)" and "\<exists>e. CompareAndSwap lib now g c db = (db, Inl e)"
    and "\<exists>e. EnsureConfig lib now c db = (db, Inl e)"
proof -
  have read: "readCurrentAppConfig lib app db = config_invalid"
    using assms(1-3) by (simp add: readCurrentAppConfig_def scanAppConfig_def)
  then show "\<not> is_ok (ConfigCurrent lib app db)" by (simp add: ConfigCurrent_def)
  show "\<exists>e. CompareAndSwap lib now g c db = (db, Inl e)" "\<exists>e. EnsureConfig lib now c db = (db, Inl e)"
    using read assms(4) NormalizeConfig_app[of "kl_marshal lib" "kl_sha256 lib" c]
    by (auto simp: CompareAndSwap_def EnsureConfig_def split: sum.split)
qed

end
