(* ===== verification/Config_Samples.thy ===== *)
theory Config_Samples
  imports Config_Guarantees
begin

text \<open>The statements on the store of App configurations, applied to one App that is switched off.\<close>

definition two_revisions :: config_lib where
  "two_revisions =
     \<lparr>kl_run = \<lparr>rl_driver = millisecond_driver, rl_json_array = (\<lambda>_. True), rl_marshal = (\<lambda>_. Inr ''[]''),
                rl_unmarshal = (\<lambda>_. Some [])\<rparr>,
      kl_marshal = (\<lambda>i. Inr (if ri_enabled i then ''n'' else ''f'')),
      kl_sha256 = (\<lambda>s. replicate 32 (hd s))\<rparr>"

definition app_switched :: "bool \<Rightarrow> app_config" where
  "app_switched b = sample_config\<lparr>ac_enabled := b\<rparr>"

definition switch_revision :: "bool \<Rightarrow> string" where
  "switch_revision b = hex_bytes (replicate 32 (if b then CHR ''n'' else CHR ''f''))"

definition stored_switch :: "bool \<Rightarrow> u64 \<Rightarrow> instant \<Rightarrow> instant \<Rightarrow> app_config" where
  "stored_switch b g created updated = (app_switched b)\<lparr>ac_executor_config := ''{}'', ac_revision := switch_revision b,
     ac_generation := g, ac_created_at := created, ac_updated_at := updated\<rparr>"

lemma switch_normal:
  "NormalizeConfig (kl_marshal two_revisions) (kl_sha256 two_revisions) (app_switched b) = Inr (stored_switch b 1 0 0)"
proof -
  have a: "app_id_pattern ''app''" "app_id_pattern ''exec''"
    by (simp_all add: app_id_tail_def char_class_defs)
  let ?c = "(app_switched b)\<lparr>ac_executor_config := ''{}''\<rparr>"
  have t: "100 * millisecond \<le> minute" "minute \<le> 5 * minute" by (simp_all add: duration_defs)
  have "ValidateConfig ?c = Inr ()"
    unfolding ValidateConfig_ok
    by (simp add: app_switched_def sample_config_def a t json_valid_object validGrants_def word_le_nat_alt del: app_id_pattern.simps)
  moreover have "TrimSpace ''app'' = ''app''" "TrimSpace ''exec'' = ''exec''" using a app_id_trimmed by blast+
  ultimately show ?thesis
    by (simp add: NormalizeConfig_def app_switched_def sample_config_def normalizeGrants_def validGrants_def Let_def
        two_revisions_def stored_switch_def revision_input_of_def switch_revision_def)
qed

lemma stored_switch_fields:
  "ac_app_id (stored_switch b g t u) = ''app''" "ac_generation (stored_switch b g t u) = g"
  "ac_revision (stored_switch b g t u) = switch_revision b" "ac_grants (stored_switch b g t u) = []"
  "ac_created_at (stored_switch b g t u) = t" "(stored_switch b g t u)\<lparr>ac_created_at := t'\<rparr> = stored_switch b g t' u"
  "(stored_switch b g t u)\<lparr>ac_generation := g', ac_created_at := t', ac_updated_at := u'\<rparr> = stored_switch b g' t' u'"
  by (simp_all add: stored_switch_def app_switched_def sample_config_def)

lemma switch_marshal: "rl_marshal (kl_run two_revisions) gs = Inr ''[]''"
  by (simp add: two_revisions_def)

definition switch_row :: "bool \<Rightarrow> instant \<Rightarrow> config_row" where
  "switch_row b at = config_row_of (stored_switch b 1 at at) ''[]''"

lemma switch_row_fields:
  "config_row_of (stored_switch b g t u) ''[]'' = switch_row b t" "config_key (switch_row b t) = (''app'', switch_revision b)"
  "cr_created_at (switch_row b t) = t" "cr_app_id (switch_row b t) = ''app''" "cr_revision (switch_row b t) = switch_revision b"
  by (simp_all add: switch_row_def config_row_of_def stored_switch_def app_switched_def sample_config_def config_key_def)

lemma switch_scanned:
  "scanAppConfig two_revisions (switch_row b t) (uint g) created updated = Inr (stored_switch b g created updated)"
proof -
  have "scanAppConfig two_revisions ((config_row_of (stored_switch b g t t) ''[]'')\<lparr>cr_created_at := t\<rparr>) (uint g) created updated =
    Inr (in_milliseconds ((stored_switch b g t t)\<lparr>ac_created_at := created, ac_updated_at := updated\<rparr>))"
    by (rule scan_back[OF switch_normal])
      (auto simp: stored_switch_def two_revisions_def grants_readable_def app_switched_def sample_config_def)
  then show ?thesis
    by (simp add: switch_row_fields) (simp add: in_milliseconds_def stored_switch_def app_switched_def sample_config_def
        go_div_nonneg duration_defs switch_row_def config_row_of_def)
qed

lemma hex_digits: "list_all (\<lambda>c. is_hex_lower c \<and> 0 < code c \<and> code c < 128) (hex_bytes s)"
proof -
  have "list_all (\<lambda>c. is_hex_lower c \<and> 0 < code c \<and> code c < 128) ''0123456789abcdef''" by code_simp
  then have "is_hex_lower (hex_digit n) \<and> 0 < code (hex_digit n) \<and> code (hex_digit n) < 128" for n
    unfolding list_all_length hex_digit_def by simp
  then show ?thesis by (auto simp: hex_bytes_def list_all_iff)
qed

lemma switch_revisions: "switch_revision True \<noteq> switch_revision False" "sql_length (switch_revision b) = 64"
  "ValidateRevision (switch_revision b) = Inr ()"
proof -
  have len: "length (switch_revision b) = 64" by (simp add: switch_revision_def)
  show "sql_length (switch_revision b) = 64"
    using hex_digits len sql_length_plain[of "switch_revision b"] by (simp add: switch_revision_def list_all_iff)
  show "ValidateRevision (switch_revision b) = Inr ()"
    using hex_digits len by (simp add: ValidateRevision_def switch_revision_def list_all_iff)
  have "take 2 (switch_revision b) = hex_bytes [if b then CHR ''n'' else CHR ''f'']" for b
    using replicate_Suc[of 31 "if b then CHR ''n'' else CHR ''f''"] by (simp add: switch_revision_def hex_bytes_def del: replicate_Suc)
  moreover have "hex_bytes [CHR ''n''] \<noteq> hex_bytes [CHR ''f'']" by code_simp
  ultimately show "switch_revision True \<noteq> switch_revision False" by metis
qed

lemma short_lengths: "sql_length ''exec'' = 4" "sql_length ''{}'' = 2" "sql_length ''[]'' = 2"
proof -
  have "\<forall>c \<in> set ''exec{}[]''. 0 < code c \<and> code c < 128" by (simp add: code_def)
  then show "sql_length ''exec'' = 4" "sql_length ''{}'' = 2" "sql_length ''[]'' = 2"
    by (simp_all add: sql_length_plain del: sql_length.simps)
qed

lemma switch_checked: "config_row_check (kl_run two_revisions) (switch_row b t)"
proof -
  have "go_div minute millisecond = 60000" by (simp add: go_div_nonneg duration_defs)
  then show ?thesis
    using switch_revisions(2)[of b] short_lengths
    by (simp add: config_row_check_def switch_row_def config_row_of_def stored_switch_def app_switched_def sample_config_def
        two_revisions_def millisecond_driver_def del: sql_length.simps)
qed

definition switched_on :: config_db where
  "switched_on = \<lparr>cd_revisions = [switch_row True 5],
     cd_heads = [\<lparr>hr_app_id = ''app'', hr_revision = switch_revision True, hr_generation = 1, hr_created_at = 5, hr_updated_at = 5\<rparr>]\<rparr>"

definition switched_off :: config_db where
  "switched_off = \<lparr>cd_revisions = [switch_row True 5, switch_row False 6],
     cd_heads = [\<lparr>hr_app_id = ''app'', hr_revision = switch_revision False, hr_generation = 2, hr_created_at = 5, hr_updated_at = 6\<rparr>]\<rparr>"

lemma find_switch:
  "find_revision (''app'', switch_revision b) switched_off = Some (switch_row b (if b then 5 else 6))"
  "find_revision (''app'', switch_revision b) switched_on = (if b then Some (switch_row True 5) else None)"
  "find_revision k empty_config_db = None"
  using switch_revisions(1)
  by (cases b; simp add: find_revision_def switched_off_def switched_on_def select_key_def switch_row_fields empty_config_db_def)+

lemma switched_off_ok: "config_db_ok two_revisions switched_off" and switched_on_ok: "config_db_ok two_revisions switched_on"
  using switch_revisions(1) find_switch(1)[of False] find_switch(2)[of True] switch_checked
  by (simp_all add: config_db_ok_def switched_off_def switched_on_def table_ok_def switch_row_fields head_ok_def)

lemma switch_off:
  "CompareAndSwap two_revisions 6 1 (app_switched False) switched_on = (switched_off, Inr (stored_switch False 2 5 6))"
proof -
  have read: "readCurrentAppConfig two_revisions ''app'' switched_on = Inr (stored_switch True 1 5 5)"
    using find_switch(2)[of True] switch_scanned[of True 5 1]
    by (simp add: readCurrentAppConfig_def find_head_def select_key_def switched_on_def)
  let ?c = "stored_switch False 2 6 6"
  have inserted: "insertAppConfigRevision two_revisions ?c switched_on =
    Inr (switched_on\<lparr>cd_revisions := [switch_row True 5, switch_row False 6]\<rparr>)"
    using switch_revisions(1) switch_checked[of False 6]
    by (simp add: insertAppConfigRevision_def switch_marshal exec_insert_ignore_def switch_row_fields switched_on_def)
  have moved: "exec_update head_row_check (head_where ''app'' 1) (head_set ?c 6) (cd_heads switched_on) = Some (cd_heads switched_off, 1)"
    by (simp add: exec_update_def switched_on_def switched_off_def head_row_check_def head_where_def head_set_def update_where_def
        affected_def stored_switch_fields)
  show ?thesis
    using switch_revisions(1)
    by (simp add: CompareAndSwap_def switch_normal stored_switch_fields read Let_def inserted bind_u64_def moved)
      (simp add: switched_off_def)
qed

text \<open>Two writers saw the first generation; the second of them is refused.\<close>

theorem config_update_not_lost_witness:
  "\<exists>e. CompareAndSwap two_revisions 7 1 (app_switched True) switched_off = (switched_off, Inl e)"
proof -
  have changed: "switched_off \<noteq> switched_on" by (simp add: switched_off_def switched_on_def)
  obtain db r where second: "CompareAndSwap two_revisions 7 1 (app_switched True) switched_off = (db, r)" by fastforce
  have "TrimSpace (ac_app_id (app_switched True)) = ac_app_id (stored_switch False 2 5 6)"
    using NormalizeConfig_app[OF switch_normal[of True]] by (simp add: stored_switch_fields)
  then have "db = switched_off \<and> (\<forall>y. r \<noteq> Inr y)"
    using config_update_not_lost[OF switched_on_ok switch_off changed rtranclp.rtrancl_refl second] by blast
  then show ?thesis using second by (cases r) auto
qed

text \<open>The revision of the first configuration is still read after the second has replaced it.\<close>

theorem config_revision_immutable_witness:
  "ConfigRevision two_revisions ''app'' (switch_revision True) switched_off = Inr (stored_switch True 0 5 5)"
proof -
  have "app_id_pattern ''app''" by (simp add: app_id_tail_def char_class_defs)
  then have "ConfigRevision two_revisions ''app'' (switch_revision True) switched_on = Inr (stored_switch True 0 5 5)"
    using find_switch(2)[of True] switch_scanned[of True 5 0] switch_revisions(3)
    by (simp add: ConfigRevision_def switch_row_fields del: app_id_pattern.simps)
  moreover have "config_calls two_revisions switched_on switched_off"
    using config_call.swap[OF switch_off] by blast
  ultimately show ?thesis using config_revision_immutable[OF switched_on_ok] by blast
qed

text \<open>Back to the first configuration: its revision is already stored.\<close>

definition switched_again :: config_db where
  "switched_again = switched_off\<lparr>cd_heads := [\<lparr>hr_app_id = ''app'', hr_revision = switch_revision True, hr_generation = 3,
     hr_created_at = 5, hr_updated_at = 7\<rparr>]\<rparr>"

lemma switch_again:
  "CompareAndSwap two_revisions 7 2 (app_switched True) switched_off = (switched_again, Inr (stored_switch True 3 5 7))"
proof -
  have read: "readCurrentAppConfig two_revisions ''app'' switched_off = Inr (stored_switch False 2 5 6)"
    using find_switch(1)[of False] switch_scanned[of False 6 2]
    by (simp add: readCurrentAppConfig_def find_head_def select_key_def switched_off_def)
  let ?c = "stored_switch True 3 7 7"
  have inserted: "insertAppConfigRevision two_revisions ?c switched_off = Inr switched_off"
    by (simp add: insertAppConfigRevision_def switch_marshal exec_insert_ignore_def switch_row_fields switched_off_def switch_checked)
  have moved: "exec_update head_row_check (head_where ''app'' 2) (head_set ?c 7) (cd_heads switched_off) = Some (cd_heads switched_again, 1)"
    by (simp add: exec_update_def switched_again_def switched_off_def head_row_check_def head_where_def head_set_def update_where_def
        affected_def stored_switch_fields)
  show ?thesis
    using switch_revisions(1)
    by (simp add: CompareAndSwap_def switch_normal stored_switch_fields read Let_def inserted bind_u64_def moved)
      (simp add: switched_again_def)
qed

text \<open>The new configuration is read as it was returned; going back, the one of the stored revision is.\<close>

theorem config_swap_reads_back_witness:
  "ConfigCurrent two_revisions ''app'' switched_off = Inr (in_milliseconds (stored_switch False 2 5 6)) \<and>
   ConfigCurrent two_revisions ''app'' switched_again = Inr (stored_switch True 3 5 7)"
proof -
  have "grants_readable two_revisions (stored_switch False 2 5 6)"
    by (simp add: grants_readable_def two_revisions_def stored_switch_fields)
  then have first: "ConfigCurrent two_revisions ''app'' switched_off = Inr (in_milliseconds (stored_switch False 2 5 6))"
    using config_swap_reads_back[OF switched_on_ok switch_off] find_switch(2)[of False] by (simp add: stored_switch_fields)
  have "app_id_pattern ''app''" by (simp add: app_id_tail_def char_class_defs)
  then have "ConfigRevision two_revisions ''app'' (switch_revision True) switched_off = Inr (stored_switch True 0 5 5)"
    using find_switch(1)[of True] switch_scanned[of True 5 0] switch_revisions(3)
    by (simp add: ConfigRevision_def switch_row_fields del: app_id_pattern.simps)
  then have "ConfigRevision two_revisions (ac_app_id (stored_switch True 3 5 7)) (ac_revision (stored_switch True 3 5 7)) switched_off =
      Inr (stored_switch True 0 5 5)"
    by (simp only: stored_switch_fields)
  with config_swap_reads_back[OF switched_off_ok switch_again]
  have "ConfigCurrent two_revisions (ac_app_id (stored_switch True 3 5 7)) switched_again =
      Inr ((stored_switch True 0 5 5)\<lparr>ac_generation := ac_generation (stored_switch True 3 5 7),
        ac_created_at := ac_created_at (stored_switch True 3 5 7), ac_updated_at := 7\<rparr>)"
    by (simp add: stored_switch_def)
  then show ?thesis using first by (simp only: stored_switch_fields)
qed

end
