(* ===== verification/Spec2Isabelle.thy ===== *)
theory Spec2Isabelle
  imports Public_Error Scheduler_Recovery Run_Reconcile Child_Guarantees Session_Samples Session_Store_Samples
    Pack_Samples Config_Samples
begin

text \<open>
  A verification development of the kernel of AI-Luo-Man-ga, a Go platform that runs AI applications:
  the packages under \<open>src/internal/kernel\<close>, their SQLite stores in \<open>src/internal/storage/sqlite\<close> and the
  contracts in \<open>src/contracts/pkg\<close>.

  \<^bold>\<open>The program.\<close> A user message becomes an Echo with a root Run (\<open>echo/orchestrator.go\<close>, \<open>echo_store.go\<close>).
  A worker claims the Run under a lease, assembles its context (\<open>contextasm\<close>), opens a session with an
  executor over a frame protocol (\<open>contracts/pkg/executor\<close>) and serves the capability calls of the executor
  through the dispatcher (\<open>runtime/dispatcher.go\<close>), which governs each call: App policy, grants frozen in the
  Run, schema (\<open>registry\<close>), authorization, confirmation, idempotency. A root Run may create child Runs
  (\<open>childrun\<close>). Background work goes through tasks (\<open>task\<close>, \<open>task_store.go\<close>). What a failure shows to the
  outside is mapped by \<open>publicerror\<close>.

  \<^bold>\<open>Conventions.\<close> A Go string or byte slice is a list of bytes; an \<open>int\<close> that stays small is a HOL number,
  a fixed-width integer a word; a \<open>time.Time\<close> is its distance in nanoseconds from the zero time. An error is
  a tree \<open>go_error\<close> over sentinels, a fallible function returns \<open>go_error + 'a\<close>, and a state is passed and
  returned. A SQLite table is a list of rows; a statement is an executable function over it that checks the
  constraints of \<open>schema.sql\<close>, and a transaction returns the database it began with when it fails. Clock
  readings, random identifiers and the code of third parties (JSON schema compiler, semantic versions,
  protobuf encoding) are arguments of the definitions that use them, as are SHA-256 and the JSON decoder;
  hypotheses on them appear in the statements. Concurrency is modelled by interleaving atomic operations.

  \<^bold>\<open>Theories, bottom up.\<close>
  \<^item> \<open>Prelude\<close>, \<open>Ident\<close> (identifier grammars, UTF-8), \<open>Go_Error\<close>, \<open>Go_Json\<close> (the scanner behind
    \<open>json.Valid\<close>), \<open>Go_Text\<close> (runes), \<open>Go_Encode\<close> (\<open>json.Marshal\<close> and the proof that its output is valid),
    \<open>Go_Context\<close> (the context of a request), \<open>Sql_Table\<close> (insert, update, select over keyed rows), \<open>Backoff\<close>.
  \<^item> \<open>Idempotency\<close>, \<open>Idempotency_Store\<close>: \<open>idempotency.go\<close> against the port of its store, a locale that is
    interpreted on the model of \<open>idempotency_store.go\<close>. A success is replayed. \<open>exec_step\<close> cuts every call of
    \<open>Execute\<close> into its blocks (up to the claim, the operation, the completion) and interleaves any number of
    calls with each other and with other callers: an effect happens at most once per key.
  \<^item> \<open>Task_Model\<close>, \<open>Task_Store\<close>, \<open>Task_Guarantees\<close>: \<open>task.go\<close> and \<open>task_store.go\<close>; the table invariant, the
    refinement of the abstract life cycle, exclusive claims, one outcome per lease over any history
    (\<open>foreign_step\<close>), attempts handed out once (\<open>task_claims\<close>), due listings that can be claimed. \<open>Task_Scheduler\<close>,
    \<open>Task_Scheduling\<close>, \<open>Scheduler_Guarantees\<close>, \<open>Scheduler_Recovery\<close>: \<open>registry.go\<close> and \<open>scheduler.go\<close> as a step
    relation; slots, cancellation, retries, recovery.
  \<^item> \<open>Public_Error\<close>: \<open>publicerror.go\<close>; the published codes are closed.
  \<^item> \<open>Capability\<close>, \<open>Authorization\<close>: \<open>spec.go\<close>, \<open>authorization.go\<close>; soundness and completeness of a decision,
    narrowing attenuates.
  \<^item> \<open>Confirmation\<close>, \<open>Confirmation_Store\<close>: \<open>confirmation\<close> and \<open>confirmation_store.go\<close>; a verified confirmation was
    approved with the same binding, an invalidated one never verifies again.
  \<^item> \<open>App_Config\<close>: \<open>appconfig.go\<close>; normalisation is idempotent and verifies. \<open>Cap_Registry\<close>: \<open>registry.go\<close>;
    batches are atomic. \<open>Dispatcher\<close>: \<open>contracts/context.go\<close> and \<open>dispatcher.go\<close>; no effect without the whole chain
    of checks, one effect per key however the requests overlap, bounded nesting.
  \<^item> \<open>Executor_Protocol\<close>: \<open>protocol.go\<close>, the frames and every validator.
  \<^item> \<open>Run_Model\<close>, \<open>Run_Store\<close>, \<open>Run_Operations\<close>, \<open>Echo_Log\<close>: \<open>types.go\<close>, \<open>echo_store.go\<close>, \<open>context_store.go\<close>;
    \<open>Run_Lifecycle\<close>, \<open>Run_Invariants\<close>, \<open>Run_Guarantees\<close>, \<open>Run_Recovery\<close>, \<open>Run_Reconcile\<close>: the schema as an
    invariant of every reachable database, the life cycle of a Run as a refinement, exclusive claims, atomic
    completion with the Echo's status paired to the Run's, gap-free events, start-up reconciliation.
  \<^item> \<open>Orchestrator\<close>: \<open>orchestrator.go\<close> outside the executor session. \<open>Child_Run\<close>, \<open>Child_Guarantees\<close>:
    \<open>childrun.go\<close>; grants and budgets of the Run that is stored stay within those of its parent.
  \<^item> \<open>Run_Session\<close>: the executor session of \<open>orchestrator.go\<close>, one \<open>turn\<close> per received frame; \<open>Run_Invocation\<close>:
    its capability calls. \<open>Session_Guarantees\<close>, \<open>Session_Loop\<close>, \<open>Session_Independence\<close>,
    \<open>Orchestrator_Guarantees\<close>: the loop's invariant, how a session ends, what success means, which ports it
    can no longer reach, and that every descendant of a configuration passes the check after the claim.
    \<open>Session_Samples\<close>: a concrete session, on which these statements are applied.
  \<^item> \<open>Session_Model\<close>: \<open>session/model.go\<close>. \<open>Context_Assembly\<close>, \<open>Context_Guarantees\<close>: \<open>contextasm.go\<close>; the history
    kept is the longest that fits, and the payload passes the protocol's check.
  \<^item> \<open>Session_Store\<close>, \<open>Session_Tables\<close>: \<open>session_store.go\<close> and \<open>session/service.go\<close>, every operation on the tables of
    sessions, members, bindings, messages and attachments, and their schema as an invariant.
    \<open>Message_Guarantees\<close>, \<open>Session_Readback\<close>: a message is created once, a recalled one is never listed and its
    metadata and inline content never read again (content in a blob is, see \<open>recalled_blob_content_readable\<close>), a
    session reads back, Apps are isolated, and where the code departs from its port. \<open>Session_History\<close>: the store
    as the history source of the context assembly, whose entries are stored messages.
    \<open>Session_Store_Samples\<close> applies these statements to a concrete database.
  \<^item> \<open>App_Config_Store\<close>, \<open>Config_Guarantees\<close>, \<open>Config_Samples\<close>: \<open>app_config_store.go\<close>; no update is lost, a revision
    never changes, an update reads back, configurations that share a revision, and the grants that lock an App.
  \<^item> \<open>Pack_Model\<close>: \<open>packstore/packstore.go\<close> with the abstract store and the port of its implementations, a locale
    that \<open>Pack_Store\<close> (\<open>sqlite/packstore.go\<close>) and \<open>Pack_Memory\<close> (\<open>memory/packstore.go\<close>) interpret. \<open>Pack_Host\<close>:
    \<open>packstore/host.go\<close>. \<open>Pack_Guarantees\<close>, \<open>Pack_Samples\<close>: both stores are equivalent, a package writes and reads
    only what it may, public documents come from one snapshot.
  \<^item> \<open>Audit_Payload\<close>: \<open>observe/audit.go\<close>; sensitive fields are redacted.

  \<^bold>\<open>Bounds.\<close> Loops of the code that end are structural or come with a termination proof; the polling loop of
  a duplicate idempotent call runs over the list of its store readings, and the retry loops over a counter
  that the code bounds. No definition needs fuel.

  \<^bold>\<open>Not modelled.\<close> Log output, metrics and traces; the gRPC, process and WebAssembly hosts; the HTTP and QQ
  adapters; secrets and the control plane; the package manager and the SDK generator; the packages that run on
  the platform: input and output or third-party code. The mime parser behind \<open>PublicRunRecord\<close>. Of the task
  scheduler, a \<open>Start\<close> after a \<open>Shutdown\<close> and the waiting of \<open>Shutdown\<close>: the model runs from the first \<open>Start\<close> on
  and has only the contexts that \<open>Shutdown\<close> cancels. User identities and the schema subset check.
\<close>

end
